(* ===== verification/Prelude.thy ===== *)
theory Prelude
  imports Main "HOL-Library.Code_Target_Numeral" "HOL-Library.Sublist"
begin

section \<open>Prelude: machine integers, origins, sorted vectors\<close>

text \<open>
  What every component of the development shares.

  \<^item> Names of the primitive types of \<^verbatim>\<open>primitives/src/lib.rs\<close>. Unsigned integers are natural
    numbers; the width is written into the operations. A runtime is built in release mode
    (\<^verbatim>\<open>Cargo.toml\<close> sets no \<^verbatim>\<open>overflow-checks\<close>), so the plain operators wrap around;
    \<^verbatim>\<open>saturating_*\<close> and \<^verbatim>\<open>checked_*\<close> are separate operations. \<^verbatim>\<open>saturating_sub\<close> is
    subtraction on the naturals.
  \<^item> The origin of a call and the checks \<^verbatim>\<open>ensure_signed\<close>, \<^verbatim>\<open>ensure_root\<close>,
    \<^verbatim>\<open>ensure_none\<close>.
  \<^item> \<^verbatim>\<open>slice::binary_search\<close> followed by \<^verbatim>\<open>Vec::insert\<close>, on sorted vectors.
  \<^item> The generic lemmas on sums and lists that the component proofs use.
\<close>

named_theorems width_simps \<open>plain operators that do not overflow are the mathematical ones\<close>
named_theorems step_intros \<open>preservation of an invariant by one operation\<close>

subsection \<open>Primitive types\<close>

type_synonym AccountId = nat
type_synonym Balance = nat
type_synonym EraIndex = nat
type_synonym SessionIndex = nat
type_synonym BlockNumber = nat
type_synonym Weight = nat
type_synonym Perbill = nat
type_synonym Percent = nat
type_synonym u8 = nat
type_synonym u32 = nat
type_synonym u64 = nat

definition u8_max :: nat where
  "u8_max = 255"

definition u32_max :: nat where
  "u32_max = 4294967295"

definition u64_max :: nat where
  "u64_max = 18446744073709551615"

definition u128_max :: nat where
  "u128_max = 340282366920938463463374607431768211455"

text \<open>The greatest value of a width comes first; \<^term>\<open>wrap_sub m a b\<close> is meant for
  \<open>a\<close> and \<open>b\<close> not above \<open>m\<close>.\<close>

definition wrap_add :: "nat \<Rightarrow> nat \<Rightarrow> nat \<Rightarrow> nat" where
  "wrap_add m a b = (a + b) mod Suc m"

definition wrap_sub :: "nat \<Rightarrow> nat \<Rightarrow> nat \<Rightarrow> nat" where
  "wrap_sub m a b = (a + Suc m - b) mod Suc m"

definition wrap_mul :: "nat \<Rightarrow> nat \<Rightarrow> nat \<Rightarrow> nat" where
  "wrap_mul m a b = (a * b) mod Suc m"

definition sat_add :: "nat \<Rightarrow> nat \<Rightarrow> nat \<Rightarrow> nat" where
  "sat_add m a b = min m (a + b)"

definition sat_mul :: "nat \<Rightarrow> nat \<Rightarrow> nat \<Rightarrow> nat" where
  "sat_mul m a b = min m (a * b)"

definition checked_add :: "nat \<Rightarrow> nat \<Rightarrow> nat \<Rightarrow> nat option" where
  "checked_add m a b = (if a + b \<le> m then Some (a + b) else None)"

definition checked_sub :: "nat \<Rightarrow> nat \<Rightarrow> nat option" where
  "checked_sub a b = (if b \<le> a then Some (a - b) else None)"

abbreviation add_u32 :: "nat \<Rightarrow> nat \<Rightarrow> nat" where
  "add_u32 \<equiv> wrap_add u32_max"

abbreviation sub_u32 :: "nat \<Rightarrow> nat \<Rightarrow> nat" where
  "sub_u32 \<equiv> wrap_sub u32_max"

abbreviation add_u128 :: "nat \<Rightarrow> nat \<Rightarrow> nat" where
  "add_u128 \<equiv> wrap_add u128_max"

abbreviation sub_u128 :: "nat \<Rightarrow> nat \<Rightarrow> nat" where
  "sub_u128 \<equiv> wrap_sub u128_max"

abbreviation sat_add_u128 :: "nat \<Rightarrow> nat \<Rightarrow> nat" where
  "sat_add_u128 \<equiv> sat_add u128_max"

subsection \<open>Origins\<close>

datatype origin = Root | Signed AccountId | NoneOrigin

fun ensure_signed :: "origin \<Rightarrow> AccountId option" where
  "ensure_signed (Signed who) = Some who"
| "ensure_signed Root = None"
| "ensure_signed NoneOrigin = None"

fun ensure_root :: "origin \<Rightarrow> bool" where
  "ensure_root Root = True"
| "ensure_root (Signed who) = False"
| "ensure_root NoneOrigin = False"

fun ensure_none :: "origin \<Rightarrow> bool" where
  "ensure_none NoneOrigin = True"
| "ensure_none (Signed who) = False"
| "ensure_none Root = False"

subsection \<open>Sorted vectors\<close>

text \<open>
  \<^verbatim>\<open>binary_search\<close> on a sorted slice answers \<^verbatim>\<open>Ok\<close> when the key is present and
  otherwise \<^verbatim>\<open>Err(pos)\<close> with the position that keeps the order, which is the number of
  smaller elements. The models below are used on vectors that are sorted without repetition,
  which the components prove as an invariant.
\<close>

definition search_pos :: "nat list \<Rightarrow> nat \<Rightarrow> nat" where
  "search_pos xs k = length (takeWhile (\<lambda>x. x < k) xs)"

definition insert_at :: "nat \<Rightarrow> 'a \<Rightarrow> 'a list \<Rightarrow> 'a list" where
  "insert_at i x xs = take i xs @ x # drop i xs"

definition remove_at :: "nat \<Rightarrow> 'a list \<Rightarrow> 'a list" where
  "remove_at i xs = take i xs @ drop (Suc i) xs"

subsection \<open>Lemmas: integers\<close>

lemma u32_max_lt_u128_max: "u32_max < u128_max"
  by (simp add: u32_max_def u128_max_def)

lemma wrap_add_le [simp]: "wrap_add m a b \<le> m"
  using mod_less_divisor [of "Suc m" "a + b"] by (simp add: wrap_add_def)

lemma wrap_sub_le [simp]: "wrap_sub m a b \<le> m"
  using mod_less_divisor [of "Suc m" "a + Suc m - b"] by (simp add: wrap_sub_def)

lemma wrap_add_exact [width_simps]: "a + b \<le> m \<Longrightarrow> wrap_add m a b = a + b"
  by (simp add: wrap_add_def)

lemma wrap_sub_exact [width_simps]:
  assumes "b \<le> a" and "a \<le> m"
  shows "wrap_sub m a b = a - b"
proof -
  have "a + Suc m - b = (a - b) + Suc m" using assms by simp
  then have "wrap_sub m a b = (a - b) mod Suc m"
    unfolding wrap_sub_def by (simp only: mod_add_self2)
  then show ?thesis using assms by simp
qed

lemma wrap_mul_exact [width_simps]: "a * b \<le> m \<Longrightarrow> wrap_mul m a b = a * b"
  by (simp add: wrap_mul_def)

lemma sat_add_le [simp]: "sat_add m a b \<le> m"
  by (simp add: sat_add_def)

lemma sat_add_exact [width_simps]: "a + b \<le> m \<Longrightarrow> sat_add m a b = a + b"
  by (simp add: sat_add_def)

lemma sat_mul_le [simp]: "sat_mul m a b \<le> m"
  by (simp add: sat_mul_def)

lemma checked_add_Some [simp]: "checked_add m a b = Some c \<longleftrightarrow> c = a + b \<and> a + b \<le> m"
  by (auto simp: checked_add_def)

lemma checked_add_None [simp]: "checked_add m a b = None \<longleftrightarrow> m < a + b"
  by (auto simp: checked_add_def)

lemma checked_sub_Some [simp]: "checked_sub a b = Some c \<longleftrightarrow> c = a - b \<and> b \<le> a"
  by (auto simp: checked_sub_def)

lemma checked_sub_None [simp]: "checked_sub a b = None \<longleftrightarrow> a < b"
  by (auto simp: checked_sub_def)

text \<open>The plain operators undo each other, whatever the values.\<close>

lemma wrap_add_sub:
  assumes "b \<le> m" and "a \<le> m"
  shows "wrap_add m b (wrap_sub m a b) = a"
proof -
  have "wrap_add m b (wrap_sub m a b) = (b + (a + Suc m - b)) mod Suc m"
    by (simp add: wrap_add_def wrap_sub_def mod_add_right_eq)
  also have "\<dots> = (a + Suc m) mod Suc m" using assms by simp
  also have "\<dots> = a" using assms by (simp only: mod_add_self2) simp
  finally show ?thesis .
qed

subsection \<open>Lemmas: origins\<close>

lemma ensure_signed_Some [simp]: "ensure_signed o1 = Some who \<longleftrightarrow> o1 = Signed who"
  by (cases o1) auto

lemma ensure_root_iff [simp]: "ensure_root o1 \<longleftrightarrow> o1 = Root"
  by (cases o1) auto

lemma ensure_none_iff [simp]: "ensure_none o1 \<longleftrightarrow> o1 = NoneOrigin"
  by (cases o1) auto

subsection \<open>Lemmas: lists and sums\<close>

lemma set_insert_at [simp]: "set (insert_at i x xs) = insert x (set xs)"
  using set_append [of "take i xs" "drop i xs"] by (auto simp: insert_at_def)

lemma length_insert_at [simp]: "length (insert_at i x xs) = Suc (length xs)"
  by (simp add: insert_at_def)

lemma search_pos_Nil [simp]: "search_pos [] k = 0"
  by (simp add: search_pos_def)

lemma insert_at_search_pos_Cons:
  "insert_at (search_pos (y # ys) k) k (y # ys) =
    (if y < k then y # insert_at (search_pos ys k) k ys else k # y # ys)"
  by (simp add: search_pos_def insert_at_def)

lemma sorted_insert_search_pos:
  "sorted_wrt (<) xs \<Longrightarrow> k \<notin> set xs \<Longrightarrow> sorted_wrt (<) (insert_at (search_pos xs k) k xs)"
proof (induction xs)
  case Nil
  then show ?case by (simp add: insert_at_def)
next
  case (Cons y ys)
  show ?case
  proof (cases "y < k")
    case True
    with Cons show ?thesis by (auto simp: insert_at_search_pos_Cons)
  next
    case False
    with Cons.prems have "k < y" by auto
    with Cons.prems show ?thesis
      by (auto simp: insert_at_search_pos_Cons)
  qed
qed

lemma sum_list_nth_update:
  fixes f :: "'a \<Rightarrow> nat"
  assumes "i < length xs"
  shows "sum_list (map f (xs[i := y])) + f (xs ! i) = sum_list (map f xs) + f y"
  using assms
proof (induction xs arbitrary: i)
  case Nil
  then show ?case by simp
next
  case (Cons x xs)
  then show ?case by (cases i) auto
qed

lemma nth_le_sum_list:
  fixes f :: "'a \<Rightarrow> nat"
  shows "i < length xs \<Longrightarrow> f (xs ! i) \<le> sum_list (map f xs)"
  by (simp add: member_le_sum_list)

lemma sum_list_filter_nonzero:
  fixes f :: "'a \<Rightarrow> nat"
  shows "sum_list (map f (filter (\<lambda>x. f x \<noteq> 0) xs)) = sum_list (map f xs)"
  by (induction xs) auto

lemma sum_list_filter_le:
  fixes f :: "'a \<Rightarrow> nat"
  shows "sum_list (map f (filter P xs)) \<le> sum_list (map f xs)"
  by (induction xs) auto

end
