(* ===== verification/Interfaces.thy ===== *)
theory Interfaces
  imports Prelude
begin

section \<open>The services of the runtime that the pallets are generic over\<close>

text \<open>
  The pallets of this repository are generic Rust code: they call the currency, the fixed-point
  types and other services through traits whose implementations live in Substrate, outside this
  repository. Each such service is a record of functions and an argument of the definitions that
  use it. The functions act on a state of an unknown type \<open>'w\<close>, the storage of all the pallets
  outside the one being modelled. What a theorem relies on is a named predicate of this theory
  (documented behaviour of the trait), and appears as a hypothesis of that theorem.
\<close>

subsection \<open>Fixed-point fractions (\<^verbatim>\<open>sp_arithmetic::per_things\<close>)\<close>

text \<open>
  A \<^verbatim>\<open>Perbill\<close> is its number of parts, at most \<open>10\<^sup>9\<close>; likewise \<^verbatim>\<open>Percent\<close> (100) and
  \<^verbatim>\<open>Perquintill\<close> (\<open>10\<^sup>18\<close>). Multiplication by a balance and \<^verbatim>\<open>from_rational\<close> are the
  library's.
\<close>

record perthings =
  perbill_mul :: "Perbill \<Rightarrow> Balance \<Rightarrow> Balance"
  perbill_from_rational :: "nat \<Rightarrow> nat \<Rightarrow> Perbill"
  percent_mul :: "Percent \<Rightarrow> u32 \<Rightarrow> u32"
  perquintill_mul :: "nat \<Rightarrow> Balance \<Rightarrow> Balance"
  perquintill_from_rational :: "nat \<Rightarrow> nat \<Rightarrow> nat"

definition perbill_accuracy :: nat where
  "perbill_accuracy = 1000000000"

text \<open>A fraction of an amount is not more than the amount.\<close>

definition perbill_mul_bounded :: "perthings \<Rightarrow> bool" where
  "perbill_mul_bounded P \<longleftrightarrow> (\<forall>p x. p \<le> perbill_accuracy \<longrightarrow> perbill_mul P p x \<le> x)"

text \<open>\<^verbatim>\<open>from_rational\<close> saturates at one.\<close>

definition perbill_from_rational_bounded :: "perthings \<Rightarrow> bool" where
  "perbill_from_rational_bounded P \<longleftrightarrow> (\<forall>a b. perbill_from_rational P a b \<le> perbill_accuracy)"

subsection \<open>The currency (\<^verbatim>\<open>frame_support::traits::{Currency, LockableCurrency}\<close>)\<close>

datatype ExistenceRequirement = KeepAlive | AllowDeath

text \<open>
  An imbalance is represented by its amount. Operations that can fail return \<^term>\<open>None\<close> or
  \<^term>\<open>False\<close> next to the state they leave. \<open>cur_drop_positive\<close> and \<open>cur_drop_negative\<close> are
  what happens when a value of an imbalance type goes out of scope. The identifier of a lock and
  the reasons of a withdrawal are constants at every call and left out.
\<close>

record 'w currency =
  cur_minimum_balance :: Balance
  cur_total_issuance :: "'w \<Rightarrow> Balance"
  cur_free_balance :: "'w \<Rightarrow> AccountId \<Rightarrow> Balance"
  cur_total_balance :: "'w \<Rightarrow> AccountId \<Rightarrow> Balance"
  cur_deposit_creating :: "AccountId \<Rightarrow> Balance \<Rightarrow> 'w \<Rightarrow> Balance \<times> 'w"
  cur_deposit_into_existing :: "AccountId \<Rightarrow> Balance \<Rightarrow> 'w \<Rightarrow> Balance option \<times> 'w"
  cur_resolve_creating :: "AccountId \<Rightarrow> Balance \<Rightarrow> 'w \<Rightarrow> 'w"
  cur_withdraw :: "AccountId \<Rightarrow> Balance \<Rightarrow> ExistenceRequirement \<Rightarrow> 'w \<Rightarrow> Balance option \<times> 'w"
  cur_settle :: "AccountId \<Rightarrow> Balance \<Rightarrow> ExistenceRequirement \<Rightarrow> 'w \<Rightarrow> bool \<times> 'w"
  cur_slash :: "AccountId \<Rightarrow> Balance \<Rightarrow> 'w \<Rightarrow> (Balance \<times> Balance) \<times> 'w"
  cur_transfer ::
    "AccountId \<Rightarrow> AccountId \<Rightarrow> Balance \<Rightarrow> ExistenceRequirement \<Rightarrow> 'w \<Rightarrow> bool \<times> 'w"
  cur_make_free_balance_be :: "AccountId \<Rightarrow> Balance \<Rightarrow> 'w \<Rightarrow> 'w"
  cur_set_lock :: "AccountId \<Rightarrow> Balance \<Rightarrow> 'w \<Rightarrow> 'w"
  cur_remove_lock :: "AccountId \<Rightarrow> 'w \<Rightarrow> 'w"
  cur_drop_positive :: "Balance \<Rightarrow> 'w \<Rightarrow> 'w"
  cur_drop_negative :: "Balance \<Rightarrow> 'w \<Rightarrow> 'w"
  cur_split :: "Balance \<Rightarrow> Balance \<Rightarrow> Balance \<times> Balance"
  cur_subsume :: "Balance \<Rightarrow> Balance \<Rightarrow> Balance"

text \<open>\<^verbatim>\<open>Imbalance::split\<close>: the first part is at most the amount asked for and the second is
  the remainder. \<^verbatim>\<open>subsume\<close> adds up what fits the type.\<close>

definition imbalance_laws :: "'w currency \<Rightarrow> bool" where
  "imbalance_laws C \<longleftrightarrow>
     (\<forall>a x. cur_split C a x = (min a x, a - min a x)) \<and>
     (\<forall>a b. a + b \<le> u128_max \<longrightarrow> cur_subsume C a b = a + b)"

text \<open>Taking \<open>x\<close> from an account: its balance falls by \<open>x\<close> and no other changes, unless a remainder below the
  existential deposit is reaped; that dust may go to others (the runtime sends it to the fund).\<close>

definition takes_only :: "'w currency \<Rightarrow> AccountId \<Rightarrow> Balance \<Rightarrow> 'w \<Rightarrow> 'w \<Rightarrow> bool" where
  "takes_only C a x w w' \<longleftrightarrow> x \<le> cur_total_balance C w a \<and>
     (cur_total_balance C w' = (cur_total_balance C w)(a := cur_total_balance C w a - x) \<or>
      cur_total_balance C w a - x < cur_minimum_balance C \<and> cur_total_balance C w' a = 0 \<and>
      (\<forall>b. b \<noteq> a \<longrightarrow> cur_total_balance C w b \<le> cur_total_balance C w' b))"

text \<open>\<^verbatim>\<open>slash\<close> takes as much of the amount as it can and says how much was missing; a lock moves nothing.\<close>

definition slash_law :: "'w currency \<Rightarrow> bool" where
  "slash_law C \<longleftrightarrow> (\<forall>a x w imb missing w'. cur_slash C a x w = ((imb, missing), w') \<longrightarrow>
     imb + missing = x \<and> takes_only C a imb w w')"

definition lock_law :: "'w currency \<Rightarrow> bool" where
  "lock_law C \<longleftrightarrow> (\<forall>a x w. cur_total_balance C (cur_set_lock C a x w) = cur_total_balance C w)"

end
