(* ===== verification/Staking_Ledger.thy ===== *)
theory Staking_Ledger
  imports Interfaces
begin

section \<open>The staking ledger (\<^verbatim>\<open>frame/staking/src/lib.rs\<close>)\<close>

text \<open>
  The record of a bonded stash and its four operations: \<open>default_from\<close>, \<open>consolidate_unlocked\<close>,
  \<open>rebond\<close> and \<open>slash\<close>. The invariant of the ledger is the one its documentation states: the
  total is the active amount plus everything that is unlocking. The lemmas show that every
  operation keeps it, what each returns, and how much value moves.
\<close>

subsection \<open>Data\<close>

record UnlockChunk =
  uc_value :: Balance
  uc_era :: EraIndex

record StakingLedger =
  sl_stash :: AccountId
  sl_total :: Balance
  sl_active :: Balance
  sl_unlocking :: "UnlockChunk list"
  sl_claimed_rewards :: "EraIndex list"

definition MaxUnlockingChunks :: nat where
  "MaxUnlockingChunks = 32"

definition default_from :: "AccountId \<Rightarrow> StakingLedger" where
  "default_from stash =
     \<lparr>sl_stash = stash, sl_total = 0, sl_active = 0, sl_unlocking = [], sl_claimed_rewards = []\<rparr>"

subsection \<open>Withdrawing what is unlocked\<close>

text \<open>The closure of \<^verbatim>\<open>filter\<close> also subtracts from the total: the loop returns both.\<close>

fun consolidate_loop :: "EraIndex \<Rightarrow> UnlockChunk list \<Rightarrow> Balance \<Rightarrow> UnlockChunk list \<times> Balance" where
  "consolidate_loop current_era [] tot = ([], tot)"
| "consolidate_loop current_era (chunk # chunks) tot =
     (if uc_era chunk > current_era
      then (case consolidate_loop current_era chunks tot of (kept, t) \<Rightarrow> (chunk # kept, t))
      else consolidate_loop current_era chunks (tot - uc_value chunk))"

definition consolidate_unlocked :: "StakingLedger \<Rightarrow> EraIndex \<Rightarrow> StakingLedger" where
  "consolidate_unlocked l current_era =
     (case consolidate_loop current_era (sl_unlocking l) (sl_total l) of
        (unlocking, tot) \<Rightarrow> l\<lparr>sl_total := tot, sl_unlocking := unlocking\<rparr>)"

subsection \<open>Rebonding\<close>

text \<open>
  The loop works on the last chunk of the queue, so it recurses on the reversed queue and returns
  the reversed rest, the active amount and the amount rebonded so far. In the second branch the
  amount rebonded becomes \<open>value\<close> exactly (lemma \<open>rebond_partial_reaches_value\<close>), so the test
  that follows always leaves the loop there.
\<close>

fun rebond_loop ::
  "Balance \<Rightarrow> UnlockChunk list \<Rightarrow> Balance \<Rightarrow> Balance \<Rightarrow> UnlockChunk list \<times> Balance \<times> Balance" where
  "rebond_loop value [] active unlocking_balance = ([], active, unlocking_balance)"
| "rebond_loop value (lst # earlier) active unlocking_balance =
     (if add_u128 unlocking_balance (uc_value lst) \<le> value
      then (let unlocking_balance' = add_u128 unlocking_balance (uc_value lst);
                active' = add_u128 active (uc_value lst)
            in if unlocking_balance' \<ge> value then (earlier, active', unlocking_balance')
               else rebond_loop value earlier active' unlocking_balance')
      else (let diff = sub_u128 value unlocking_balance;
                unlocking_balance' = add_u128 unlocking_balance diff
            in (lst\<lparr>uc_value := sub_u128 (uc_value lst) diff\<rparr> # earlier,
                add_u128 active diff, unlocking_balance')))"

definition ledger_rebond :: "StakingLedger \<Rightarrow> Balance \<Rightarrow> StakingLedger \<times> Balance" where
  "ledger_rebond l value =
     (case rebond_loop value (rev (sl_unlocking l)) (sl_active l) 0 of
        (rest, active, unlocking_balance) \<Rightarrow>
          (l\<lparr>sl_active := active, sl_unlocking := rev rest\<rparr>, unlocking_balance))"

subsection \<open>Slashing\<close>

text \<open>
  \<open>slash_out_of\<close> is the closure of the source: it takes the target, the remaining slash and the
  ledger's total, and returns them updated.
\<close>

definition slash_out_of ::
  "perthings \<Rightarrow> Balance \<Rightarrow> Balance \<Rightarrow> nat \<Rightarrow> Balance \<Rightarrow> Balance \<Rightarrow> Balance \<Rightarrow> Balance \<Rightarrow>
     Balance \<times> Balance \<times> Balance" where
  "slash_out_of P slash_amount affected_balance ratio minimum_balance target slash_remaining tot =
     (let slash_from_target =
            min (if slash_amount < affected_balance then perquintill_mul P ratio target
                 else slash_remaining) target;
          target' = sub_u128 target slash_from_target;
          slash_from_target' =
            (if target' < minimum_balance then sat_add_u128 target' slash_from_target
             else slash_from_target);
          target'' = (if target' < minimum_balance then 0 else target')
      in (target'', slash_remaining - slash_from_target', tot - slash_from_target'))"

text \<open>\<^verbatim>\<open>iter().position(...)\<close>: the index of the first element with the property.\<close>

fun position :: "('a \<Rightarrow> bool) \<Rightarrow> 'a list \<Rightarrow> nat option" where
  "position p [] = None"
| "position p (x # xs) = (if p x then Some 0 else map_option Suc (position p xs))"

definition slash_priority :: "UnlockChunk list \<Rightarrow> EraIndex \<Rightarrow> Balance \<Rightarrow> Balance \<times> nat list" where
  "slash_priority unlocking chunk_unlock_era_after_slash active =
     (case position (\<lambda>c. uc_era c \<ge> chunk_unlock_era_after_slash) unlocking of
        Some start_index \<Rightarrow>
          (let affected_indices = [start_index..<length unlocking];
               unbonding_affected_balance =
                 foldl (\<lambda>sum i. sat_add_u128 sum (uc_value (unlocking ! i))) 0 affected_indices
           in (sat_add_u128 active unbonding_affected_balance,
               affected_indices @ rev [0..<start_index]))
      | None \<Rightarrow> (active, rev [0..<length unlocking]))"

text \<open>
  The loop over the chunks in order of priority. \<open>slashed\<close> is the map \<^verbatim>\<open>slashed_unlocking\<close>
  from era to the new value of the chunk.
\<close>

fun slash_chunks ::
  "(Balance \<Rightarrow> Balance \<Rightarrow> Balance \<Rightarrow> Balance \<times> Balance \<times> Balance) \<Rightarrow> nat list \<Rightarrow>
     UnlockChunk list \<Rightarrow> Balance \<Rightarrow> Balance \<Rightarrow> (EraIndex \<rightharpoonup> Balance) \<Rightarrow>
     UnlockChunk list \<times> Balance \<times> (EraIndex \<rightharpoonup> Balance)" where
  "slash_chunks out_of [] unlocking remaining_slash tot slashed = (unlocking, tot, slashed)"
| "slash_chunks out_of (i # is) unlocking remaining_slash tot slashed =
     (if i < length unlocking
      then if remaining_slash = 0 then (unlocking, tot, slashed)
           else (let chunk = unlocking ! i
                 in case out_of (uc_value chunk) remaining_slash tot of
                      (value', remaining', tot') \<Rightarrow>
                        slash_chunks out_of is (unlocking[i := chunk\<lparr>uc_value := value'\<rparr>])
                          remaining' tot' (slashed(uc_era chunk \<mapsto> value')))
      else (unlocking, tot, slashed))"

text \<open>
  \<open>on_slash\<close> is the hook \<^verbatim>\<open>T::OnStakerSlash\<close>, acting on the rest of the runtime. The result
  is the amount slashed, the new ledger and the new state of the rest of the runtime.
\<close>

definition ledger_slash ::
  "perthings \<Rightarrow> EraIndex \<Rightarrow> (AccountId \<Rightarrow> Balance \<Rightarrow> (EraIndex \<rightharpoonup> Balance) \<Rightarrow> 'w \<Rightarrow> 'w) \<Rightarrow>
     StakingLedger \<Rightarrow> Balance \<Rightarrow> Balance \<Rightarrow> EraIndex \<Rightarrow> 'w \<Rightarrow> Balance \<times> StakingLedger \<times> 'w" where
  "ledger_slash P bonding_duration on_slash l slash_amount minimum_balance slash_era w =
     (if slash_amount = 0 then (0, l, w)
      else
        (let pre_slash_total = sl_total l;
             era_after_slash = add_u32 slash_era 1;
             chunk_unlock_era_after_slash = add_u32 era_after_slash bonding_duration
         in case slash_priority (sl_unlocking l) chunk_unlock_era_after_slash (sl_active l) of
              (affected_balance, slash_chunks_priority) \<Rightarrow>
                (let ratio = perquintill_from_rational P slash_amount affected_balance;
                     out_of = slash_out_of P slash_amount affected_balance ratio minimum_balance
                 in case out_of (sl_active l) slash_amount (sl_total l) of
                      (active', remaining_slash, tot') \<Rightarrow>
                        (case slash_chunks out_of slash_chunks_priority (sl_unlocking l)
                                remaining_slash tot' Map.empty of
                           (unlocking', tot'', slashed_unlocking) \<Rightarrow>
                             (let l' = l\<lparr>sl_active := active', sl_total := tot'',
                                    sl_unlocking := filter (\<lambda>c. uc_value c \<noteq> 0) unlocking'\<rparr>
                              in (pre_slash_total - tot'', l',
                                  on_slash (sl_stash l) active' slashed_unlocking w))))))"

subsection \<open>The invariant\<close>

definition unlocking_sum :: "UnlockChunk list \<Rightarrow> Balance" where
  "unlocking_sum cs = sum_list (map uc_value cs)"

definition wf_ledger :: "StakingLedger \<Rightarrow> bool" where
  "wf_ledger l \<longleftrightarrow>
     sl_total l = sl_active l + unlocking_sum (sl_unlocking l) \<and> sl_total l \<le> u128_max"

subsection \<open>Lemmas: sums of chunks\<close>

lemma unlocking_sum_simps [simp]:
  "unlocking_sum [] = 0"
  "unlocking_sum (c # cs) = uc_value c + unlocking_sum cs"
  "unlocking_sum (xs @ ys) = unlocking_sum xs + unlocking_sum ys"
  "unlocking_sum (rev xs) = unlocking_sum xs"
  by (simp_all add: unlocking_sum_def rev_map [symmetric])

lemma unlocking_sum_update:
  assumes "i < length cs" and "v \<le> uc_value (cs ! i)"
  shows "unlocking_sum (cs[i := (cs ! i)\<lparr>uc_value := v\<rparr>]) + (uc_value (cs ! i) - v) = unlocking_sum cs"
  using sum_list_nth_update [OF assms(1), of uc_value "(cs ! i)\<lparr>uc_value := v\<rparr>"] assms(2)
  by (simp add: unlocking_sum_def)

lemma unlocking_sum_filter_nonzero [simp]:
  "unlocking_sum (filter (\<lambda>c. uc_value c \<noteq> 0) cs) = unlocking_sum cs"
  "unlocking_sum (filter (\<lambda>c. 0 < uc_value c) cs) = unlocking_sum cs"
  using sum_list_filter_nonzero [of uc_value cs] by (simp_all add: unlocking_sum_def)

lemma uc_value_le_unlocking_sum: "i < length cs \<Longrightarrow> uc_value (cs ! i) \<le> unlocking_sum cs"
  by (simp add: unlocking_sum_def nth_le_sum_list)

lemma unlocking_sum_filter_split:
  "unlocking_sum (filter p cs) + unlocking_sum (filter (\<lambda>c. \<not> p c) cs) = unlocking_sum cs"
  by (induction cs) auto

subsection \<open>Lemmas: consolidation\<close>

lemma consolidate_loop_eq:
  "consolidate_loop era cs t =
     (filter (\<lambda>c. uc_era c > era) cs, t - unlocking_sum (filter (\<lambda>c. uc_era c \<le> era) cs))"
  by (induction cs arbitrary: t) (auto simp: not_less)

lemma consolidate_unlocked_eq:
  "consolidate_unlocked l era =
     l\<lparr>sl_total := sl_total l - unlocking_sum (filter (\<lambda>c. uc_era c \<le> era) (sl_unlocking l)),
       sl_unlocking := filter (\<lambda>c. uc_era c > era) (sl_unlocking l)\<rparr>"
  by (simp add: consolidate_unlocked_def consolidate_loop_eq)

lemma unlocking_sum_era_split:
  "unlocking_sum (filter (\<lambda>c. uc_era c > era) cs) + unlocking_sum (filter (\<lambda>c. uc_era c \<le> era) cs)
     = unlocking_sum cs"
  using unlocking_sum_filter_split [of "\<lambda>c. uc_era c > era" cs] by (simp add: not_less)

lemma wf_consolidate_unlocked [step_intros]: "wf_ledger l \<Longrightarrow> wf_ledger (consolidate_unlocked l era)"
  using unlocking_sum_era_split [of era "sl_unlocking l"]
  by (auto simp: wf_ledger_def consolidate_unlocked_eq)

subsection \<open>Lemmas: rebonding\<close>

lemma rebond_partial_reaches_value:
  "ub \<le> u128_max \<Longrightarrow> value \<le> u128_max \<Longrightarrow> add_u128 ub (sub_u128 value ub) = value"
  by (rule wrap_add_sub)

text \<open>Without overflow, the loop moves \<open>min (value - ub) (unlocking_sum cs)\<close> from the chunks to
  the active amount.\<close>

lemma rebond_loop_spec:
  assumes "ub \<le> value" and "value \<le> u128_max"
    and "active + unlocking_sum cs \<le> u128_max" and "ub + unlocking_sum cs \<le> u128_max"
    and "rebond_loop value cs active ub = (rest, active', ub')"
  shows "ub' = ub + min (value - ub) (unlocking_sum cs) \<and>
    active' = active + (ub' - ub) \<and>
    active' + unlocking_sum rest = active + unlocking_sum cs"
  using assms
proof (induction cs arbitrary: active ub rest active' ub')
  case Nil
  then show ?case by simp
next
  case (Cons c cs)
  show ?case
  proof (cases "ub + uc_value c \<le> value")
    case True
    show ?thesis
    proof (cases "value \<le> ub + uc_value c")
      case True
      with \<open>ub + uc_value c \<le> value\<close> Cons.prems show ?thesis by (auto simp: width_simps)
    next
      case False
      with \<open>ub + uc_value c \<le> value\<close> Cons.prems
      have "rebond_loop value cs (active + uc_value c) (ub + uc_value c) = (rest, active', ub')"
        by (simp add: width_simps Let_def)
      from Cons.IH [OF _ _ _ _ this] \<open>ub + uc_value c \<le> value\<close> Cons.prems(2-4)
      show ?thesis by (auto simp: min_def)
    qed
  next
    case False
    with Cons.prems show ?thesis by (auto simp: width_simps Let_def)
  qed
qed

lemma rebond_loop_eras:
  assumes "rebond_loop value cs active ub = (rest, active', ub')"
  shows "\<exists>n. map uc_era rest = drop n (map uc_era cs)"
  using assms
proof (induction cs arbitrary: active ub rest active' ub')
  case Nil
  then show ?case by simp
next
  case (Cons c cs)
  show ?case
  proof (cases "add_u128 ub (uc_value c) \<le> value \<and> \<not> value \<le> add_u128 ub (uc_value c)")
    case True
    with Cons.prems have "rebond_loop value cs (add_u128 active (uc_value c))
        (add_u128 ub (uc_value c)) = (rest, active', ub')"
      by (simp add: Let_def)
    then obtain n where "map uc_era rest = drop n (map uc_era cs)"
      using Cons.IH by blast
    then show ?thesis by (intro exI [of _ "Suc n"]) simp
  next
    case False
    show ?thesis
    proof (cases "add_u128 ub (uc_value c) \<le> value")
      case True
      with False Cons.prems show ?thesis by (intro exI [of _ 1]) (auto simp: Let_def)
    next
      case False
      with Cons.prems show ?thesis by (intro exI [of _ 0]) (auto simp: Let_def)
    qed
  qed
qed

lemma ledger_rebond_prefix:
  assumes "ledger_rebond l value = (l', rebonded)"
  shows "prefix (map uc_era (sl_unlocking l')) (map uc_era (sl_unlocking l))"
proof -
  obtain rest active' ub' where r:
    "rebond_loop value (rev (sl_unlocking l)) (sl_active l) 0 = (rest, active', ub')"
    by (cases "rebond_loop value (rev (sl_unlocking l)) (sl_active l) 0") auto
  from rebond_loop_eras [OF r] obtain n where
    "map uc_era rest = drop n (map uc_era (rev (sl_unlocking l)))" by blast
  then have "rev (map uc_era rest) = take (length (sl_unlocking l) - n) (map uc_era (sl_unlocking l))"
    by (simp add: rev_drop rev_map [symmetric])
  moreover have "map uc_era (sl_unlocking l') = rev (map uc_era rest)"
    using assms r by (auto simp: ledger_rebond_def rev_map)
  ultimately show ?thesis by (simp add: take_is_prefix)
qed

lemma ledger_rebond_spec:
  assumes "wf_ledger l" and "value \<le> u128_max" and "ledger_rebond l value = (l', rebonded)"
  shows "rebonded = min value (unlocking_sum (sl_unlocking l)) \<and>
    sl_active l' = sl_active l + rebonded \<and> sl_total l' = sl_total l \<and> sl_stash l' = sl_stash l \<and>
    sl_claimed_rewards l' = sl_claimed_rewards l \<and> wf_ledger l'"
proof -
  obtain rest active' ub' where r:
    "rebond_loop value (rev (sl_unlocking l)) (sl_active l) 0 = (rest, active', ub')"
    by (cases "rebond_loop value (rev (sl_unlocking l)) (sl_active l) 0") auto
  have s: "ub' = min value (unlocking_sum (sl_unlocking l)) \<and> active' = sl_active l + ub' \<and>
    active' + unlocking_sum rest = sl_active l + unlocking_sum (sl_unlocking l)"
    using rebond_loop_spec [OF _ assms(2) _ _ r] assms(1) by (auto simp: wf_ledger_def)
  from assms(3) r have l': "l' = l\<lparr>sl_active := active', sl_unlocking := rev rest\<rparr>"
    and "rebonded = ub'" by (auto simp: ledger_rebond_def)
  with s assms(1) show ?thesis by (simp add: wf_ledger_def)
qed

text \<open>A value beyond \<^verbatim>\<open>u128\<close> moves everything, and any value keeps the ledger balanced.\<close>

lemma rebond_loop_all:
  assumes "u128_max < value" and "unlocking + unlocking_sum cs \<le> u128_max" and "active + unlocking_sum cs \<le> u128_max"
  shows "rebond_loop value cs active unlocking = ([], active + unlocking_sum cs, unlocking + unlocking_sum cs)"
  using assms
proof (induction cs arbitrary: active unlocking)
  case (Cons c cs)
  have a: "add_u128 unlocking (uc_value c) = unlocking + uc_value c" "add_u128 active (uc_value c) = active + uc_value c"
    using Cons.prems by (simp_all add: width_simps)
  have "unlocking + uc_value c < value" using Cons.prems by simp
  moreover have "rebond_loop value cs (active + uc_value c) (unlocking + uc_value c) =
      ([], active + uc_value c + unlocking_sum cs, unlocking + uc_value c + unlocking_sum cs)"
    by (rule Cons.IH [OF Cons.prems(1)]) (use Cons.prems in simp_all)
  ultimately show ?case using a by simp
qed simp

lemma wf_ledger_rebond:
  assumes "wf_ledger l" and "ledger_rebond l value = (l', r)"
  shows "wf_ledger l'"
proof (cases "value \<le> u128_max")
  case True
  from ledger_rebond_spec [OF assms(1) this assms(2)] show ?thesis by simp
next
  case False
  then have "rebond_loop value (rev (sl_unlocking l)) (sl_active l) 0 =
      ([], sl_active l + unlocking_sum (sl_unlocking l), unlocking_sum (sl_unlocking l))"
    using rebond_loop_all [of "value" 0 "rev (sl_unlocking l)" "sl_active l"] assms(1)
    by (simp add: wf_ledger_def)
  with assms show ?thesis by (auto simp: ledger_rebond_def wf_ledger_def)
qed

subsection \<open>Lemmas: slashing\<close>

text \<open>Whatever the mode, the closure moves one amount \<open>d\<close> out of the target, the remaining
  slash and the total, and leaves no dust in the target.\<close>

lemma slash_out_of_spec:
  assumes "target \<le> u128_max"
  shows "\<exists>d \<le> target. slash_out_of P sa aff ratio mb target rem t = (target - d, rem - d, t - d) \<and>
    (aff \<le> sa \<longrightarrow> min rem target \<le> d \<and> d \<le> rem + (mb - 1))"
proof -
  define s where "s = min (if sa < aff then perquintill_mul P ratio target else rem) target"
  define d where "d = (if target - s < mb then target else s)"
  have "s \<le> target" by (simp add: s_def)
  then have "slash_out_of P sa aff ratio mb target rem t = (target - d, rem - d, t - d)"
    using assms unfolding slash_out_of_def s_def [symmetric] Let_def
    by (simp add: width_simps d_def)
  moreover have "d \<le> target" using \<open>s \<le> target\<close> by (simp add: d_def)
  moreover have "aff \<le> sa \<Longrightarrow> min rem target \<le> d \<and> d \<le> rem + (mb - 1)"
    by (auto simp: d_def s_def)
  ultimately show ?thesis by blast
qed

text \<open>What the loop over the chunks needs of its closure.\<close>

definition moves_value :: "(Balance \<Rightarrow> Balance \<Rightarrow> Balance \<Rightarrow> Balance \<times> Balance \<times> Balance) \<Rightarrow> bool" where
  "moves_value f \<longleftrightarrow>
     (\<forall>x r t. x \<le> u128_max \<longrightarrow> (\<exists>d \<le> x. f x r t = (x - d, r - d, t - d)))"

definition moves_remaining ::
  "nat \<Rightarrow> (Balance \<Rightarrow> Balance \<Rightarrow> Balance \<Rightarrow> Balance \<times> Balance \<times> Balance) \<Rightarrow> bool" where
  "moves_remaining dust f \<longleftrightarrow>
     (\<forall>x r t. x \<le> u128_max \<longrightarrow>
        (\<exists>d \<le> x. f x r t = (x - d, r - d, t - d) \<and> min r x \<le> d \<and> d \<le> r + dust))"

lemma slash_out_of_moves_value: "moves_value (slash_out_of P sa aff ratio mb)"
  unfolding moves_value_def using slash_out_of_spec by blast

lemma slash_out_of_moves_remaining:
  "aff \<le> sa \<Longrightarrow> moves_remaining (mb - 1) (slash_out_of P sa aff ratio mb)"
  unfolding moves_remaining_def using slash_out_of_spec by blast

lemma slash_chunks_conserves:
  assumes "moves_value f" and "unlocking_sum cs \<le> u128_max"
    and "slash_chunks f is cs rem t m = (cs', t', m')"
  shows "unlocking_sum cs' \<le> unlocking_sum cs \<and>
    t' = t - (unlocking_sum cs - unlocking_sum cs') \<and> map uc_era cs' = map uc_era cs"
  using assms
proof (induction "is" arbitrary: cs rem t m cs' t' m')
  case Nil
  then show ?case by simp
next
  case (Cons i "is")
  show ?case
  proof (cases "i < length cs \<and> rem \<noteq> 0")
    case False
    with Cons.prems(3) show ?thesis by (auto split: if_splits)
  next
    case True
    let ?v = "uc_value (cs ! i)"
    have le: "?v \<le> unlocking_sum cs" using True by (simp add: uc_value_le_unlocking_sum)
    then have vmax: "?v \<le> u128_max" using Cons.prems(2) by linarith
    then obtain d where d: "d \<le> ?v" "f ?v rem t = (?v - d, rem - d, t - d)"
      using Cons.prems(1) unfolding moves_value_def by blast
    let ?cs = "cs[i := (cs ! i)\<lparr>uc_value := ?v - d\<rparr>]"
    have sum: "unlocking_sum ?cs + d = unlocking_sum cs"
      using unlocking_sum_update [of i cs "?v - d"] True d(1) by simp
    have rest: "slash_chunks f is ?cs (rem - d) (t - d) (m(uc_era (cs ! i) \<mapsto> ?v - d)) = (cs', t', m')"
      using Cons.prems(3) True d(2) by (simp add: Let_def)
    have "map uc_era ?cs = map uc_era cs"
      using True by (simp add: map_update list_update_same_conv)
    then show ?thesis
      using Cons.IH [OF Cons.prems(1) _ rest] sum Cons.prems(2) by auto
  qed
qed

text \<open>In the mode that is not proportional the loop takes at least the remaining slash, if the
  chunks hold that much, and at most the dust of each chunk more.\<close>

lemma slash_chunks_takes:
  assumes "moves_remaining dust f" and "unlocking_sum cs \<le> u128_max"
    and "distinct is" and "set is \<subseteq> {..<length cs}"
    and "slash_chunks f is cs rem t m = (cs', t', m')"
  shows "min rem (\<Sum>i\<leftarrow>is. uc_value (cs ! i)) \<le> unlocking_sum cs - unlocking_sum cs' \<and>
    unlocking_sum cs - unlocking_sum cs' \<le> rem + length is * dust"
  using assms
proof (induction "is" arbitrary: cs rem t m cs' t' m')
  case Nil
  then show ?case by simp
next
  case (Cons i "is")
  show ?case
  proof (cases "rem = 0")
    case True
    with Cons.prems(4,5) show ?thesis by (auto split: if_splits)
  next
    case False
    let ?v = "uc_value (cs ! i)"
    have i: "i < length cs" using Cons.prems(4) by simp
    have "?v \<le> u128_max" using uc_value_le_unlocking_sum [OF i] Cons.prems(2) by linarith
    then obtain d where d: "d \<le> ?v" "f ?v rem t = (?v - d, rem - d, t - d)"
        "min rem ?v \<le> d" "d \<le> rem + dust"
      using Cons.prems(1) unfolding moves_remaining_def by blast
    let ?cs = "cs[i := (cs ! i)\<lparr>uc_value := ?v - d\<rparr>]"
    have sum: "unlocking_sum ?cs + d = unlocking_sum cs"
      using unlocking_sum_update [OF i, of "?v - d"] d(1) by simp
    have rest: "slash_chunks f is ?cs (rem - d) (t - d) (m(uc_era (cs ! i) \<mapsto> ?v - d)) = (cs', t', m')"
      using Cons.prems(5) i False d(2) by (simp add: Let_def)
    have "moves_value f" using Cons.prems(1) unfolding moves_remaining_def moves_value_def by blast
    then have le: "unlocking_sum cs' \<le> unlocking_sum ?cs"
      using slash_chunks_conserves [OF _ _ rest] sum Cons.prems(2) by simp
    have others: "(\<Sum>j\<leftarrow>is. uc_value (?cs ! j)) = (\<Sum>j\<leftarrow>is. uc_value (cs ! j))"
      using Cons.prems(3)
      by (intro arg_cong [of _ _ sum_list] map_cong) (auto, metis nth_list_update_neq)
    have IH: "min (rem - d) (\<Sum>j\<leftarrow>is. uc_value (cs ! j)) \<le> unlocking_sum ?cs - unlocking_sum cs' \<and>
        unlocking_sum ?cs - unlocking_sum cs' \<le> (rem - d) + length is * dust"
      using Cons.IH [OF Cons.prems(1) _ _ _ rest] Cons.prems(2-4) sum others by simp
    show ?thesis
    proof (cases "d \<le> rem")
      case True
      with IH sum le d show ?thesis by (auto simp: min_def split: if_splits)
    next
      case False
      then have "cs' = ?cs"
        using rest Cons.prems(4) by (cases "is") auto
      with False sum d(4) show ?thesis by auto
    qed
  qed
qed

text \<open>The order of priority lists every chunk once, and the affected balance is part of the
  total.\<close>

lemma position_Some: "position p xs = Some i \<Longrightarrow> i < length xs \<and> p (xs ! i)"
  by (induction xs arbitrary: i) (auto split: if_splits)

lemma sum_indices_eq_unlocking_sum:
  "(\<Sum>i\<leftarrow>[0..<length cs]. uc_value (cs ! i)) = unlocking_sum cs"
proof -
  have "map (\<lambda>i. uc_value (cs ! i)) [0..<length cs] = map uc_value (map ((!) cs) [0..<length cs])"
    by simp
  also have "\<dots> = map uc_value cs" by (simp only: map_nth)
  finally show ?thesis by (simp only: unlocking_sum_def)
qed

lemma foldl_sat_add_le:
  "foldl (\<lambda>sum i. sat_add_u128 sum (f i)) a is \<le> a + (\<Sum>i\<leftarrow>is. f i)"
proof (induction "is" arbitrary: a)
  case Nil
  then show ?case by simp
next
  case (Cons i "is")
  have "foldl (\<lambda>sum i. sat_add_u128 sum (f i)) (sat_add_u128 a (f i)) is
      \<le> sat_add_u128 a (f i) + (\<Sum>i\<leftarrow>is. f i)" by (rule Cons.IH)
  also have "sat_add_u128 a (f i) \<le> a + f i" by (simp add: sat_add_def)
  finally show ?case by simp
qed

lemma slash_priority_covers:
  assumes "slash_priority cs era active = (aff, is)"
  shows "distinct is \<and> set is = {..<length cs} \<and> (\<Sum>i\<leftarrow>is. uc_value (cs ! i)) = unlocking_sum cs \<and>
    length is = length cs \<and> aff \<le> active + unlocking_sum cs"
proof (cases "position (\<lambda>c. uc_era c \<ge> era) cs")
  case None
  with assms have "is = rev [0..<length cs]" and "aff = active"
    by (simp_all add: slash_priority_def)
  then show ?thesis
    using sum_indices_eq_unlocking_sum [of cs] by (auto simp: rev_map [symmetric])
next
  case (Some s)
  then have s: "s < length cs" using position_Some by blast
  with Some assms have "is": "is = [s..<length cs] @ rev [0..<s]"
    and aff: "aff = sat_add_u128 active
      (foldl (\<lambda>sum i. sat_add_u128 sum (uc_value (cs ! i))) 0 [s..<length cs])"
    by (simp_all add: slash_priority_def Let_def)
  have split: "[0..<length cs] = [0..<s] @ [s..<length cs]"
    using s upt_add_eq_append [of 0 s "length cs - s"] by simp
  have sum: "(\<Sum>i\<leftarrow>is. uc_value (cs ! i)) = unlocking_sum cs"
    unfolding sum_indices_eq_unlocking_sum [symmetric] split "is" by (simp add: rev_map [symmetric])
  have "aff \<le> active + (\<Sum>i\<leftarrow>[s..<length cs]. uc_value (cs ! i))"
    using foldl_sat_add_le [of "\<lambda>i. uc_value (cs ! i)" 0 "[s..<length cs]"]
    by (auto simp: aff sat_add_def)
  also have "\<dots> \<le> active + unlocking_sum cs"
    using sum "is" by simp
  finally show ?thesis using sum s "is" by auto
qed

lemma ledger_slash_cases:
  assumes "wf_ledger l" and "ledger_slash P bd h l sa mb era w = (slashed, l', w')" and "sa \<noteq> 0"
  obtains aff "is" d cs' m where
    "slash_priority (sl_unlocking l) (add_u32 (add_u32 era 1) bd) (sl_active l) = (aff, is)"
    "d \<le> sl_active l"
    "slash_chunks (slash_out_of P sa aff (perquintill_from_rational P sa aff) mb) is
       (sl_unlocking l) (sa - d) (sl_total l - d) Map.empty = (cs', sl_total l', m)"
    "l' = l\<lparr>sl_active := sl_active l - d, sl_total := sl_total l',
           sl_unlocking := filter (\<lambda>c. uc_value c \<noteq> 0) cs'\<rparr>"
    "slashed = sl_total l - sl_total l'"
    "w' = h (sl_stash l) (sl_active l - d) m w"
    "aff \<le> sa \<Longrightarrow> min sa (sl_active l) \<le> d \<and> d \<le> sa + (mb - 1)"
proof -
  obtain aff "is" where prio:
    "slash_priority (sl_unlocking l) (add_u32 (add_u32 era 1) bd) (sl_active l) = (aff, is)"
    by (cases "slash_priority (sl_unlocking l) (add_u32 (add_u32 era 1) bd) (sl_active l)") auto
  let ?f = "slash_out_of P sa aff (perquintill_from_rational P sa aff) mb"
  have "sl_active l \<le> u128_max" using assms(1) by (auto simp: wf_ledger_def)
  then obtain d where d: "d \<le> sl_active l" "aff \<le> sa \<Longrightarrow> min sa (sl_active l) \<le> d \<and> d \<le> sa + (mb - 1)"
    "?f (sl_active l) sa (sl_total l) = (sl_active l - d, sa - d, sl_total l - d)"
    using slash_out_of_spec by blast
  obtain cs' t' m where ch:
    "slash_chunks ?f is (sl_unlocking l) (sa - d) (sl_total l - d) Map.empty = (cs', t', m)"
    by (cases "slash_chunks ?f is (sl_unlocking l) (sa - d) (sl_total l - d) Map.empty") auto
  have "l' = l\<lparr>sl_active := sl_active l - d, sl_total := t',
          sl_unlocking := filter (\<lambda>c. uc_value c \<noteq> 0) cs'\<rparr>"
    "slashed = sl_total l - t'" "w' = h (sl_stash l) (sl_active l - d) m w"
    using assms(2,3) prio d(3) ch by (auto simp: ledger_slash_def Let_def)
  with prio d ch that show thesis by simp
qed

lemma ledger_slash_spec:
  assumes "wf_ledger l" and "ledger_slash P bd h l sa mb era w = (slashed, l', w')"
  shows "wf_ledger l' \<and> slashed \<le> sl_total l \<and> sl_total l' = sl_total l - slashed \<and>
    sl_active l' \<le> sl_active l \<and> sl_stash l' = sl_stash l \<and>
    sl_claimed_rewards l' = sl_claimed_rewards l"
proof (cases "sa = 0")
  case True
  with assms show ?thesis by (simp add: ledger_slash_def)
next
  case False
  from ledger_slash_cases [OF assms False] obtain aff "is" d cs' m where c:
    "d \<le> sl_active l"
    "slash_chunks (slash_out_of P sa aff (perquintill_from_rational P sa aff) mb) is
       (sl_unlocking l) (sa - d) (sl_total l - d) Map.empty = (cs', sl_total l', m)"
    "l' = l\<lparr>sl_active := sl_active l - d, sl_total := sl_total l',
           sl_unlocking := filter (\<lambda>c. uc_value c \<noteq> 0) cs'\<rparr>"
    "slashed = sl_total l - sl_total l'" by metis
  have sum: "unlocking_sum cs' \<le> unlocking_sum (sl_unlocking l) \<and>
      sl_total l' = sl_total l - d - (unlocking_sum (sl_unlocking l) - unlocking_sum cs')"
    using slash_chunks_conserves [OF slash_out_of_moves_value _ c(2)] assms(1)
    by (simp add: wf_ledger_def)
  moreover have "sl_active l' = sl_active l - d" "unlocking_sum (sl_unlocking l') = unlocking_sum cs'"
    "sl_stash l' = sl_stash l" "sl_claimed_rewards l' = sl_claimed_rewards l"
    by (subst c(3), simp)+
  ultimately show ?thesis using c(1,4) assms(1) by (auto simp: wf_ledger_def)
qed

lemma ledger_slash_no_empty_chunk:
  assumes "wf_ledger l" and "ledger_slash P bd h l sa mb era w = (slashed, l', w')"
  shows "sa \<noteq> 0 \<longrightarrow> (\<forall>c \<in> set (sl_unlocking l'). uc_value c \<noteq> 0)"
proof
  assume "sa \<noteq> 0"
  from ledger_slash_cases [OF assms this] obtain d cs' where
    "l' = l\<lparr>sl_active := sl_active l - d, sl_total := sl_total l',
           sl_unlocking := filter (\<lambda>c. uc_value c \<noteq> 0) cs'\<rparr>" by metis
  then have "sl_unlocking l' = filter (\<lambda>c. uc_value c \<noteq> 0) cs'"
    by (metis StakingLedger.select_convs(4) StakingLedger.surjective StakingLedger.update_convs(4))
  then show "\<forall>c \<in> set (sl_unlocking l'). uc_value c \<noteq> 0" by simp
qed

lemma ledger_slash_takes:
  assumes "wf_ledger l" and "ledger_slash P bd h l sa mb era w = (slashed, l', w')"
    and "fst (slash_priority (sl_unlocking l) (add_u32 (add_u32 era 1) bd) (sl_active l)) \<le> sa"
  shows "min sa (sl_total l) \<le> slashed \<and>
    slashed \<le> sa + Suc (length (sl_unlocking l)) * (mb - 1)"
proof (cases "sa = 0")
  case True
  with assms(2) show ?thesis by (simp add: ledger_slash_def)
next
  case False
  from ledger_slash_cases [OF assms(1,2) False] obtain aff "is" d cs' m where c:
    "slash_priority (sl_unlocking l) (add_u32 (add_u32 era 1) bd) (sl_active l) = (aff, is)"
    "d \<le> sl_active l"
    "slash_chunks (slash_out_of P sa aff (perquintill_from_rational P sa aff) mb) is
       (sl_unlocking l) (sa - d) (sl_total l - d) Map.empty = (cs', sl_total l', m)"
    "slashed = sl_total l - sl_total l'"
    "aff \<le> sa \<Longrightarrow> min sa (sl_active l) \<le> d \<and> d \<le> sa + (mb - 1)" by metis
  have aff: "aff \<le> sa" using assms(3) c(1) by simp
  let ?u = "unlocking_sum (sl_unlocking l)"
  have u: "?u \<le> u128_max" using assms(1) by (simp add: wf_ledger_def)
  note cov = slash_priority_covers [OF c(1)]
  have take: "min (sa - d) ?u \<le> ?u - unlocking_sum cs' \<and>
      ?u - unlocking_sum cs' \<le> sa - d + length (sl_unlocking l) * (mb - 1)"
    using slash_chunks_takes [OF slash_out_of_moves_remaining [OF aff] u _ _ c(3)] cov by simp
  have cons: "unlocking_sum cs' \<le> ?u" "sl_total l' = sl_total l - d - (?u - unlocking_sum cs')"
    using slash_chunks_conserves [OF slash_out_of_moves_value u c(3)] by simp_all
  have s: "slashed = d + (?u - unlocking_sum cs')" "sl_total l = sl_active l + ?u"
    using c(2,4) cons assms(1) by (auto simp: wf_ledger_def)
  have "min sa (sl_total l) \<le> slashed"
    using take c(2) c(5) [OF aff] s by (auto simp: min_def split: if_splits)
  moreover have "slashed \<le> sa + (mb - 1) + length (sl_unlocking l) * (mb - 1)"
    using take c(5) [OF aff] s(1) by (cases "d \<le> sa") linarith+
  ultimately show ?thesis by simp
qed

subsection \<open>Properties of the ledger\<close>

text \<open>A ledger of \<open>100\<close> active and \<open>30 + 20\<close> unlocking, for the witnesses.\<close>

definition sample_ledger :: StakingLedger where
  "sample_ledger =
     \<lparr>sl_stash = 1, sl_total = 150, sl_active = 100,
      sl_unlocking = [\<lparr>uc_value = 30, uc_era = 5\<rparr>, \<lparr>uc_value = 20, uc_era = 9\<rparr>],
      sl_claimed_rewards = [2]\<rparr>"

definition sample_perthings :: perthings where
  "sample_perthings =
     \<lparr>perbill_mul = (\<lambda>p x. p * x div 1000000000),
      perbill_from_rational = (\<lambda>a b. if b \<le> a then 1000000000 else a * 1000000000 div b),
      percent_mul = (\<lambda>p x. p * x div 100),
      perquintill_mul = (\<lambda>p x. p * x div 1000000000000000000),
      perquintill_from_rational =
        (\<lambda>a b. if b \<le> a then 1000000000000000000 else a * 1000000000000000000 div b)\<rparr>"

lemma wf_sample_ledger: "wf_ledger sample_ledger"
  by code_simp

text \<open>C1. Rebonding: \<open>ledger_rebond\<close> moves exactly the requested amount, or everything that is
  unlocking if that is less, from the unlocking queue to the active stake. The total, the stash
  and the claimed eras stay, chunks are consumed from the back of the queue only, and the ledger
  stays balanced.\<close>

theorem rebond_exact:
  assumes "wf_ledger l" and "value \<le> u128_max" and "ledger_rebond l value = (l', rebonded)"
  shows "rebonded = min value (unlocking_sum (sl_unlocking l)) \<and>
    sl_active l' = sl_active l + rebonded \<and>
    unlocking_sum (sl_unlocking l') = unlocking_sum (sl_unlocking l) - rebonded \<and>
    sl_total l' = sl_total l \<and> sl_stash l' = sl_stash l \<and>
    sl_claimed_rewards l' = sl_claimed_rewards l \<and>
    prefix (map uc_era (sl_unlocking l')) (map uc_era (sl_unlocking l)) \<and> wf_ledger l'"
proof -
  have spec: "rebonded = min value (unlocking_sum (sl_unlocking l)) \<and>
    sl_active l' = sl_active l + rebonded \<and> sl_total l' = sl_total l \<and> sl_stash l' = sl_stash l \<and>
    sl_claimed_rewards l' = sl_claimed_rewards l \<and> wf_ledger l'"
    by (rule ledger_rebond_spec [OF assms])
  moreover from this assms(1)
  have "unlocking_sum (sl_unlocking l') = unlocking_sum (sl_unlocking l) - rebonded"
    by (auto simp: wf_ledger_def)
  ultimately show ?thesis using ledger_rebond_prefix [OF assms(3)] by simp
qed

theorem rebond_exact_witness:
  "snd (ledger_rebond sample_ledger 35) = 35 \<and> sl_active (fst (ledger_rebond sample_ledger 35)) = 135"
proof -
  have v: "(35 :: nat) \<le> u128_max" "min 35 (unlocking_sum (sl_unlocking sample_ledger)) = 35"
    "sl_active sample_ledger = 100" by code_simp+
  from rebond_exact [OF wf_sample_ledger v(1) surjective_pairing] v(2,3) show ?thesis by simp
qed

text \<open>Withdrawing: \<open>consolidate_unlocked\<close> drops exactly the chunks whose era has come,
  reduces the total by exactly their sum, leaves the active stake alone, and keeps the ledger
  balanced.\<close>

theorem consolidate_withdraws_matured:
  assumes "wf_ledger l"
  shows "sl_unlocking (consolidate_unlocked l era) = filter (\<lambda>c. uc_era c > era) (sl_unlocking l) \<and>
    sl_total (consolidate_unlocked l era) + unlocking_sum (filter (\<lambda>c. uc_era c \<le> era) (sl_unlocking l))
      = sl_total l \<and>
    sl_active (consolidate_unlocked l era) = sl_active l \<and> wf_ledger (consolidate_unlocked l era)"
  using wf_consolidate_unlocked [OF assms, of era] unlocking_sum_era_split [of era "sl_unlocking l"] assms
  by (auto simp: consolidate_unlocked_eq wf_ledger_def)

theorem consolidate_withdraws_matured_witness:
  "sl_total (consolidate_unlocked sample_ledger 5) + 30 = 150"
proof -
  have "unlocking_sum (filter (\<lambda>c. uc_era c \<le> 5) (sl_unlocking sample_ledger)) = 30"
    "sl_total sample_ledger = 150" by code_simp+
  with consolidate_withdraws_matured [OF wf_sample_ledger, of 5] show ?thesis by simp
qed

text \<open>C2. Slashing conserves and takes enough: whatever the amount, the mode (proportional or not) and the
  rounding of the fractions, \<open>ledger_slash\<close> reduces the total by exactly the amount it returns, never
  touches more than the total, never raises the active stake, leaves no empty chunk, and keeps the
  ledger balanced. When the slash covers the affected balance (the mode that is not proportional) it
  takes at least the requested amount, or the whole ledger if that is less, and at most the dust below
  the existential deposit of the active stake and of each chunk more.\<close>

theorem slash_conserves:
  assumes "wf_ledger l"
    and "ledger_slash P bonding_duration on_slash l amount minimum_balance era w = (slashed, l', w')"
  shows "slashed \<le> sl_total l \<and> sl_total l' + slashed = sl_total l \<and>
    sl_active l' \<le> sl_active l \<and> sl_stash l' = sl_stash l \<and>
    (amount \<noteq> 0 \<longrightarrow> (\<forall>c \<in> set (sl_unlocking l'). uc_value c \<noteq> 0)) \<and> wf_ledger l' \<and>
    (fst (slash_priority (sl_unlocking l) (add_u32 (add_u32 era 1) bonding_duration) (sl_active l)) \<le> amount \<longrightarrow>
       min amount (sl_total l) \<le> slashed \<and>
       slashed \<le> amount + Suc (length (sl_unlocking l)) * (minimum_balance - 1))"
  using ledger_slash_spec [OF assms] ledger_slash_no_empty_chunk [OF assms] ledger_slash_takes [OF assms] by auto

theorem slash_conserves_witness:
  "fst (ledger_slash sample_perthings 3 (\<lambda>_ _ _ w. w) sample_ledger 40 5 7 ()) \<le> 150 \<and>
    130 \<le> fst (ledger_slash sample_perthings 3 (\<lambda>_ _ _ w. w) sample_ledger 130 5 7 ()) \<and>
    fst (ledger_slash sample_perthings 3 (\<lambda>_ _ _ w. w) sample_ledger 130 5 7 ()) \<le> 142"
proof -
  obtain slashed l' w' where
    r: "ledger_slash sample_perthings 3 (\<lambda>_ _ _ w. w) sample_ledger 40 5 7 () = (slashed, l', w')"
    by (metis prod_cases3)
  obtain slashed2 l2 w2 where
    r2: "ledger_slash sample_perthings 3 (\<lambda>_ _ _ w. w) sample_ledger 130 5 7 () = (slashed2, l2, w2)"
    by (metis prod_cases3)
  have "fst (slash_priority (sl_unlocking sample_ledger) (add_u32 (add_u32 7 1) 3)
      (sl_active sample_ledger)) \<le> 130" by code_simp
  moreover have "sl_total sample_ledger = 150" "length (sl_unlocking sample_ledger) = 2" by code_simp+
  ultimately show ?thesis
    using slash_conserves [OF wf_sample_ledger r] r slash_conserves [OF wf_sample_ledger r2] r2 by simp
qed

end
