(* ===== verification/Slashing_Spans.thy ===== *)
theory Slashing_Spans
  imports Staking_Ledger
begin

section \<open>Slashing spans (\<^verbatim>\<open>frame/staking/src/slashing.rs\<close>, the span data)\<close>

text \<open>
  The spans of a stash are stored compactly: the start of the ongoing span and the lengths of the
  earlier ones, most recent first. \<open>spans_iter\<close> unfolds them. The lemmas show that the spans
  tile the eras from the earliest start on without gap or overlap, that \<open>end_span\<close> closes the
  ongoing span and opens the next one, and that \<open>prune\<close> drops exactly the spans that ended
  before the window and reports exactly their indices.
\<close>

subsection \<open>Data\<close>

type_synonym SpanIndex = nat

record SlashingSpan =
  sp_index :: SpanIndex
  sp_start :: EraIndex
  sp_length :: "EraIndex option"

definition contains_era :: "SlashingSpan \<Rightarrow> EraIndex \<Rightarrow> bool" where
  "contains_era span era \<longleftrightarrow>
     sp_start span \<le> era \<and>
     (case sp_length span of None \<Rightarrow> True | Some l \<Rightarrow> add_u32 (sp_start span) l > era)"

record SlashingSpans =
  ss_span_index :: SpanIndex
  ss_last_start :: EraIndex
  ss_last_nonzero_slash :: EraIndex
  ss_prior :: "EraIndex list"

subsection \<open>Operations\<close>

definition spans_new :: "EraIndex \<Rightarrow> SlashingSpans" where
  "spans_new window_start =
     \<lparr>ss_span_index = 0, ss_last_start = window_start, ss_last_nonzero_slash = 0, ss_prior = []\<rparr>"

definition end_span :: "SlashingSpans \<Rightarrow> EraIndex \<Rightarrow> SlashingSpans \<times> bool" where
  "end_span s now =
     (let next_start = add_u32 now 1
      in if next_start \<le> ss_last_start s then (s, False)
         else (let last_length = sub_u32 next_start (ss_last_start s)
               in (s\<lparr>ss_prior := last_length # ss_prior s, ss_last_start := next_start,
                     ss_span_index := add_u32 (ss_span_index s) 1\<rparr>, True)))"

text \<open>The closure of \<^verbatim>\<open>iter\<close> carries the start and the index of the span after.\<close>

fun prior_spans :: "EraIndex \<Rightarrow> SpanIndex \<Rightarrow> EraIndex list \<Rightarrow> SlashingSpan list" where
  "prior_spans last_start index [] = []"
| "prior_spans last_start index (len # lens) =
     (let start = sub_u32 last_start len; index' = sub_u32 index 1
      in \<lparr>sp_index = index', sp_start = start, sp_length = Some len\<rparr> # prior_spans start index' lens)"

definition spans_iter :: "SlashingSpans \<Rightarrow> SlashingSpan list" where
  "spans_iter s =
     \<lparr>sp_index = ss_span_index s, sp_start = ss_last_start s, sp_length = None\<rparr>
       # prior_spans (ss_last_start s) (ss_span_index s) (ss_prior s)"

definition span_ended :: "EraIndex \<Rightarrow> SlashingSpan \<Rightarrow> bool" where
  "span_ended window_start span \<longleftrightarrow>
     (case sp_length span of None \<Rightarrow> False | Some len \<Rightarrow> add_u32 (sp_start span) len \<le> window_start)"

definition prune :: "SlashingSpans \<Rightarrow> EraIndex \<Rightarrow> SlashingSpans \<times> (SpanIndex \<times> SpanIndex) option" where
  "prune s window_start =
     (let old_idx = position (span_ended window_start) (drop 1 (spans_iter s));
          earliest_span_index = sub_u32 (ss_span_index s) (length (ss_prior s));
          (s', pruned) =
            (case old_idx of
               Some j \<Rightarrow>
                 (let s1 = s\<lparr>ss_prior := take j (ss_prior s)\<rparr>;
                      new_earliest = sub_u32 (ss_span_index s) (length (ss_prior s1))
                  in (s1, Some (earliest_span_index, new_earliest)))
             | None \<Rightarrow> (s, None))
      in (s'\<lparr>ss_last_start := max (ss_last_start s') window_start\<rparr>, pruned))"

definition era_span :: "SlashingSpans \<Rightarrow> EraIndex \<Rightarrow> SlashingSpan option" where
  "era_span s era = find (\<lambda>span. contains_era span era) (spans_iter s)"

subsection \<open>The invariant\<close>

definition wf_spans :: "SlashingSpans \<Rightarrow> bool" where
  "wf_spans s \<longleftrightarrow>
     sum_list (ss_prior s) \<le> ss_last_start s \<and> length (ss_prior s) \<le> ss_span_index s \<and>
     ss_last_start s \<le> u32_max \<and> ss_span_index s \<le> u32_max \<and> (\<forall>l \<in> set (ss_prior s). 0 < l)"

definition earliest_start :: "SlashingSpans \<Rightarrow> EraIndex" where
  "earliest_start s = ss_last_start s - sum_list (ss_prior s)"

subsection \<open>Lemmas\<close>

lemma wf_spans_new [step_intros]: "window_start \<le> u32_max \<Longrightarrow> wf_spans (spans_new window_start)"
  by (simp add: wf_spans_def spans_new_def)

lemma length_prior_spans [simp]: "length (prior_spans st i lens) = length lens"
  by (induction lens arbitrary: st i) (auto simp: Let_def)

text \<open>Without wrap-around, the spans are at the partial sums of the lengths.\<close>

lemma prior_spans_nth:
  assumes "sum_list lens \<le> st" "st \<le> u32_max" "length lens \<le> i" "i \<le> u32_max" "j < length lens"
  shows "prior_spans st i lens ! j =
    \<lparr>sp_index = i - Suc j, sp_start = st - sum_list (take (Suc j) lens), sp_length = Some (lens ! j)\<rparr>"
  using assms
proof (induction lens arbitrary: st i j)
  case Nil
  then show ?case by simp
next
  case (Cons l lens)
  then show ?case by (cases j) (simp_all add: Let_def width_simps)
qed

lemma take_prior_spans: "take n (prior_spans st i lens) = prior_spans st i (take n lens)"
proof (induction lens arbitrary: n st i)
  case Nil
  then show ?case by simp
next
  case (Cons l lens)
  then show ?case by (cases n) (simp_all add: Let_def)
qed

lemma wf_spans_end_span [step_intros]:
  assumes "wf_spans s" and "now < u32_max" and "ss_span_index s < u32_max"
  shows "wf_spans (fst (end_span s now))"
  using assms by (auto simp: wf_spans_def end_span_def Let_def width_simps)

text \<open>Ending a span closes the ongoing span at the era after \<open>now\<close> and opens a new one there.\<close>

lemma end_span_iter:
  assumes "wf_spans s" and "now < u32_max" and "ss_span_index s < u32_max"
    and "end_span s now = (s', started)"
  shows "started \<longleftrightarrow> ss_last_start s \<le> now"
    and "started \<Longrightarrow> spans_iter s' =
      \<lparr>sp_index = Suc (ss_span_index s), sp_start = Suc now, sp_length = None\<rparr> #
      \<lparr>sp_index = ss_span_index s, sp_start = ss_last_start s,
        sp_length = Some (Suc now - ss_last_start s)\<rparr> #
      drop 1 (spans_iter s)"
    and "\<not> started \<Longrightarrow> s' = s"
proof -
  have n: "add_u32 now 1 = Suc now" using assms(2) by (simp add: width_simps)
  show "started \<longleftrightarrow> ss_last_start s \<le> now" and "\<not> started \<Longrightarrow> s' = s"
    using assms(4) n by (auto simp: end_span_def Let_def split: if_splits)
  assume started
  then have st: "ss_last_start s \<le> now" using \<open>started \<longleftrightarrow> ss_last_start s \<le> now\<close> by simp
  have len: "sub_u32 (Suc now) (ss_last_start s) = Suc now - ss_last_start s"
    using st assms(2) by (simp add: width_simps)
  have idx: "add_u32 (ss_span_index s) 1 = Suc (ss_span_index s)"
    using assms(3) by (simp add: width_simps)
  have "s' = s\<lparr>ss_prior := (Suc now - ss_last_start s) # ss_prior s, ss_last_start := Suc now,
      ss_span_index := Suc (ss_span_index s)\<rparr>"
    using assms(4) n len idx \<open>started\<close> by (auto simp: end_span_def Let_def split: if_splits)
  moreover have "sub_u32 (Suc now) (Suc now - ss_last_start s) = ss_last_start s"
    using st assms(2) by (simp add: width_simps)
  moreover have "sub_u32 (Suc (ss_span_index s)) (Suc 0) = ss_span_index s"
    using assms(3) by (simp add: width_simps)
  ultimately show "spans_iter s' =
      \<lparr>sp_index = Suc (ss_span_index s), sp_start = Suc now, sp_length = None\<rparr> #
      \<lparr>sp_index = ss_span_index s, sp_start = ss_last_start s,
        sp_length = Some (Suc now - ss_last_start s)\<rparr> #
      drop 1 (spans_iter s)"
    by (simp add: spans_iter_def Let_def)
qed

subsection \<open>The spans tile the eras\<close>

lemma prior_spans_cover:
  assumes "sum_list lens \<le> st" "st \<le> u32_max" "length lens \<le> i" "i \<le> u32_max"
  shows "length (filter (\<lambda>sp. contains_era sp era) (prior_spans st i lens)) =
    (if st - sum_list lens \<le> era \<and> era < st then 1 else 0)"
  using assms
proof (induction lens arbitrary: st i)
  case Nil
  then show ?case by simp
next
  case (Cons l lens)
  have w: "sub_u32 st l = st - l" "sub_u32 i (Suc 0) = i - Suc 0" "add_u32 (st - l) l = st"
    using Cons.prems by (simp_all add: width_simps)
  have "length (filter (\<lambda>sp. contains_era sp era) (prior_spans (st - l) (i - Suc 0) lens)) =
      (if st - l - sum_list lens \<le> era \<and> era < st - l then 1 else 0)"
    using Cons.prems by (intro Cons.IH) auto
  then show ?case using Cons.prems by (auto simp: Let_def w contains_era_def)
qed

lemma spans_tile:
  assumes "wf_spans s"
  shows "length (filter (\<lambda>sp. contains_era sp era) (spans_iter s)) =
    (if earliest_start s \<le> era then 1 else 0)"
proof -
  have "length (filter (\<lambda>sp. contains_era sp era)
      (prior_spans (ss_last_start s) (ss_span_index s) (ss_prior s))) =
    (if earliest_start s \<le> era \<and> era < ss_last_start s then 1 else 0)"
    using assms prior_spans_cover [of "ss_prior s" "ss_last_start s" "ss_span_index s" era]
    by (simp add: wf_spans_def earliest_start_def)
  then show ?thesis
    by (auto simp: spans_iter_def contains_era_def earliest_start_def)
qed

lemma era_span_None_iff:
  assumes "wf_spans s"
  shows "era_span s era = None \<longleftrightarrow> era < earliest_start s"
proof -
  have "era_span s era = None \<longleftrightarrow> filter (\<lambda>sp. contains_era sp era) (spans_iter s) = []"
    by (auto simp: era_span_def find_None_iff filter_empty_conv)
  also have "\<dots> \<longleftrightarrow> length (filter (\<lambda>sp. contains_era sp era) (spans_iter s)) = 0" by simp
  also have "\<dots> \<longleftrightarrow> era < earliest_start s" unfolding spans_tile [OF assms] by auto
  finally show ?thesis .
qed

subsection \<open>Pruning\<close>

lemma position_split:
  assumes "sorted_wrt (\<lambda>x y. p x \<longrightarrow> p y) xs"
  shows "case position p xs of
      None \<Rightarrow> filter p xs = []
    | Some k \<Rightarrow> k < length xs \<and> take k xs = filter (\<lambda>x. \<not> p x) xs \<and> drop k xs = filter p xs"
  using assms
proof (induction xs)
  case Nil
  then show ?case by simp
next
  case (Cons x xs)
  show ?case
  proof (cases "p x")
    case True
    with Cons.prems have "\<forall>y \<in> set xs. p y" by simp
    with True show ?thesis by simp
  next
    case False
    with Cons show ?thesis by (auto split: option.splits)
  qed
qed

lemma prior_span_end_le:
  assumes "sum_list lens \<le> st" "st \<le> u32_max" "sp \<in> set (prior_spans st i lens)"
  shows "\<exists>l. sp_length sp = Some l \<and> add_u32 (sp_start sp) l \<le> st"
  using assms
proof (induction lens arbitrary: st i)
  case Nil
  then show ?case by simp
next
  case (Cons l lens)
  have w: "sub_u32 st l = st - l" "add_u32 (st - l) l = st"
    using Cons.prems by (simp_all add: width_simps)
  from Cons.prems(3) consider "sp = \<lparr>sp_index = sub_u32 i 1, sp_start = st - l, sp_length = Some l\<rparr>"
    | "sp \<in> set (prior_spans (st - l) (sub_u32 i 1) lens)"
    by (auto simp: Let_def w)
  then show ?case
  proof cases
    case 1
    with w show ?thesis by simp
  next
    case 2
    then have "\<exists>k. sp_length sp = Some k \<and> add_u32 (sp_start sp) k \<le> st - l"
      using Cons.prems by (intro Cons.IH) auto
    then show ?thesis by (meson diff_le_self le_trans)
  qed
qed

lemma prior_spans_ended_sorted:
  assumes "sum_list lens \<le> st" "st \<le> u32_max"
  shows "sorted_wrt (\<lambda>x y. span_ended ws x \<longrightarrow> span_ended ws y) (prior_spans st i lens)"
  using assms
proof (induction lens arbitrary: st i)
  case Nil
  then show ?case by simp
next
  case (Cons l lens)
  have w: "sub_u32 st l = st - l" "add_u32 (st - l) l = st"
    using Cons.prems by (simp_all add: width_simps)
  have "span_ended ws sp" if "st \<le> ws" "sp \<in> set (prior_spans (st - l) (sub_u32 i 1) lens)" for sp
  proof -
    have "\<exists>k. sp_length sp = Some k \<and> add_u32 (sp_start sp) k \<le> st - l"
      using Cons.prems that(2) by (intro prior_span_end_le) auto
    with that(1) show ?thesis by (auto simp: span_ended_def)
  qed
  moreover have "sorted_wrt (\<lambda>x y. span_ended ws x \<longrightarrow> span_ended ws y)
      (prior_spans (st - l) (sub_u32 i 1) lens)"
    using Cons.prems by (intro Cons.IH) auto
  ultimately show ?case by (auto simp: Let_def w span_ended_def)
qed

lemma prior_spans_indices:
  assumes "length lens \<le> i" "i \<le> u32_max"
  shows "map sp_index (prior_spans st i lens) = rev [i - length lens..<i]"
  using assms
proof (induction lens arbitrary: st i)
  case Nil
  then show ?case by simp
next
  case (Cons l lens)
  then obtain k where k: "i = Suc k" by (cases i) auto
  with Cons.prems have "sub_u32 i (Suc 0) = k" by (simp add: width_simps)
  then have "map sp_index (prior_spans st i (l # lens)) = k # rev [k - length lens..<k]"
    using Cons.IH [of k] Cons.prems k by (simp add: Let_def)
  with k Cons.prems show ?case by simp
qed

text \<open>If the ongoing span starts before the window, every earlier span has ended.\<close>

lemma prior_spans_all_ended:
  assumes "wf_spans s" "ss_last_start s \<le> ws"
  shows "filter (\<lambda>sp. \<not> span_ended ws sp)
    (prior_spans (ss_last_start s) (ss_span_index s) (ss_prior s)) = []"
  using prior_span_end_le [of "ss_prior s" "ss_last_start s" _ "ss_span_index s"] assms
  by (fastforce simp: wf_spans_def filter_empty_conv span_ended_def)

lemma sum_list_take_le: "sum_list (take k (xs :: nat list)) \<le> sum_list xs"
  using sum_list_append [of "take k xs" "drop k xs"] by simp

lemma prune_prior:
  assumes "wf_spans s" and "prune s ws = (s', pruned)"
  shows "ss_last_start s' = max (ss_last_start s) ws" "ss_span_index s' = ss_span_index s"
    "\<exists>k. ss_prior s' = take k (ss_prior s)"
    "prior_spans (ss_last_start s) (ss_span_index s) (ss_prior s') =
      filter (\<lambda>sp. \<not> span_ended ws sp) (prior_spans (ss_last_start s) (ss_span_index s) (ss_prior s))"
    "(case pruned of None \<Rightarrow> {} | Some (a, b) \<Rightarrow> {a..<b}) =
      sp_index ` set (filter (span_ended ws) (drop 1 (spans_iter s)))"
proof -
  let ?ps = "prior_spans (ss_last_start s) (ss_span_index s) (ss_prior s)"
  have iter: "drop 1 (spans_iter s) = ?ps" by (simp add: spans_iter_def)
  have wf: "sum_list (ss_prior s) \<le> ss_last_start s" "ss_last_start s \<le> u32_max"
    "length (ss_prior s) \<le> ss_span_index s" "ss_span_index s \<le> u32_max"
    using assms(1) by (simp_all add: wf_spans_def)
  note split = position_split [OF prior_spans_ended_sorted [OF wf(1,2), of ws "ss_span_index s"]]
  show "ss_last_start s' = max (ss_last_start s) ws" "ss_span_index s' = ss_span_index s"
    "\<exists>k. ss_prior s' = take k (ss_prior s)"
    using assms(2) by (auto simp: prune_def Let_def split: option.splits intro: exI [of _ "length (ss_prior s)"])
  show "prior_spans (ss_last_start s) (ss_span_index s) (ss_prior s') =
      filter (\<lambda>sp. \<not> span_ended ws sp) ?ps"
    using assms(2) split iter
    by (auto simp: prune_def Let_def take_prior_spans filter_empty_conv filter_id_conv
        split: option.splits)
  show "(case pruned of None \<Rightarrow> {} | Some (a, b) \<Rightarrow> {a..<b}) =
      sp_index ` set (filter (span_ended ws) (drop 1 (spans_iter s)))"
  proof (cases "position (span_ended ws) ?ps")
    case None
    with assms(2) split iter show ?thesis by (auto simp: prune_def Let_def)
  next
    case (Some k)
    with split have k: "k < length (ss_prior s)" "drop k ?ps = filter (span_ended ws) ?ps" by simp_all
    have "pruned = Some (ss_span_index s - length (ss_prior s), ss_span_index s - k)"
      using assms(2) Some iter k(1) wf by (auto simp: prune_def Let_def width_simps)
    moreover have "map sp_index (drop k ?ps) = drop k (rev [ss_span_index s - length (ss_prior s)..<ss_span_index s])"
      using prior_spans_indices [OF wf(3,4)] by (simp add: drop_map [symmetric])
    then have "sp_index ` set (drop k ?ps) = {ss_span_index s - length (ss_prior s)..<ss_span_index s - k}"
      using k(1) wf(3) by (simp add: drop_rev flip: set_map)
    ultimately show ?thesis using iter k(2) by simp
  qed
qed

lemma prune_iter:
  assumes "wf_spans s" and "prune s ws = (s', pruned)"
  shows "spans_iter s' =
    \<lparr>sp_index = ss_span_index s, sp_start = max (ss_last_start s) ws, sp_length = None\<rparr> #
    filter (\<lambda>sp. \<not> span_ended ws sp) (drop 1 (spans_iter s))"
proof (cases "ss_last_start s \<le> ws")
  case True
  from prune_prior(4) [OF assms] prior_spans_all_ended [OF assms(1) True]
  have "prior_spans (ss_last_start s) (ss_span_index s) (ss_prior s') = []" by simp
  then have "ss_prior s' = []" by (cases "ss_prior s'") (auto simp: Let_def)
  with prior_spans_all_ended [OF assms(1) True] prune_prior(1,2) [OF assms] show ?thesis
    by (simp add: spans_iter_def)
next
  case False
  with prune_prior(1,2,4) [OF assms] show ?thesis by (simp add: spans_iter_def max_def)
qed

lemma wf_spans_prune [step_intros]:
  assumes "wf_spans s" and "ws \<le> u32_max"
  shows "wf_spans (fst (prune s ws))"
proof -
  obtain s' pruned where p: "prune s ws = (s', pruned)" by (cases "prune s ws")
  from prune_prior(3) [OF assms(1) p] obtain k where k: "ss_prior s' = take k (ss_prior s)" by blast
  have "sum_list (take k (ss_prior s)) \<le> sum_list (ss_prior s)" by (rule sum_list_take_le)
  with k prune_prior(1,2) [OF assms(1) p] assms p show ?thesis
    by (auto simp: wf_spans_def dest: in_set_takeD)
qed

subsection \<open>The index of an era is stable\<close>

lemma find_filter_implied:
  assumes "\<And>x. x \<in> set xs \<Longrightarrow> p x \<Longrightarrow> q x"
  shows "find p (filter q xs) = find p xs"
  using assms
proof (induction xs)
  case Nil
  then show ?case by simp
next
  case (Cons x xs)
  then show ?case by (cases "q x") auto
qed

lemma era_span_eq:
  "era_span s era =
    (if ss_last_start s \<le> era
     then Some \<lparr>sp_index = ss_span_index s, sp_start = ss_last_start s, sp_length = None\<rparr>
     else find (\<lambda>sp. contains_era sp era) (drop 1 (spans_iter s)))"
  by (simp add: era_span_def spans_iter_def contains_era_def)

text \<open>Ending the ongoing span does not change the index of the span of a past era.\<close>

lemma era_index_end_span:
  assumes "wf_spans s" and "now < u32_max" and "ss_span_index s < u32_max" and "era \<le> now"
  shows "map_option sp_index (era_span (fst (end_span s now)) era) = map_option sp_index (era_span s era)"
proof -
  obtain s' started where e: "end_span s now = (s', started)" by (cases "end_span s now")
  note iter = end_span_iter [OF assms(1-3) e]
  show ?thesis
  proof (cases started)
    case False
    with iter e show ?thesis by simp
  next
    case True
    with iter(1) have st: "ss_last_start s \<le> now" by simp
    have w: "add_u32 (ss_last_start s) (Suc now - ss_last_start s) = Suc now"
      using st assms(2) by (simp add: width_simps)
    have "era_span s' era = (if ss_last_start s \<le> era
        then Some \<lparr>sp_index = ss_span_index s, sp_start = ss_last_start s,
                  sp_length = Some (Suc now - ss_last_start s)\<rparr>
        else find (\<lambda>sp. contains_era sp era) (drop 1 (spans_iter s)))"
      using iter(2) [OF True] assms(4) w by (simp add: era_span_def contains_era_def)
    with e show ?thesis by (simp add: era_span_eq [of s])
  qed
qed

lemma contains_not_ended: "contains_era sp era \<Longrightarrow> ws \<le> era \<Longrightarrow> \<not> span_ended ws sp"
  by (auto simp: contains_era_def span_ended_def split: option.splits)

text \<open>Pruning does not change the index of the span of an era in the window.\<close>

lemma era_index_prune:
  assumes "wf_spans s" and "ws \<le> era"
  shows "map_option sp_index (era_span (fst (prune s ws)) era) = map_option sp_index (era_span s era)"
proof -
  obtain s' pruned where p: "prune s ws = (s', pruned)" by (cases "prune s ws")
  let ?ps = "drop 1 (spans_iter s)"
  have "find (\<lambda>sp. contains_era sp era) (filter (\<lambda>sp. \<not> span_ended ws sp) ?ps) =
      find (\<lambda>sp. contains_era sp era) ?ps"
    by (rule find_filter_implied) (rule contains_not_ended [OF _ assms(2)])
  then have "era_span s' era = (if ss_last_start s \<le> era
      then Some \<lparr>sp_index = ss_span_index s, sp_start = max (ss_last_start s) ws, sp_length = None\<rparr>
      else find (\<lambda>sp. contains_era sp era) ?ps)"
    using assms(2) unfolding era_span_def prune_iter [OF assms(1) p]
    by (simp add: contains_era_def [of "\<lparr>sp_index = _, sp_start = _, sp_length = None\<rparr>"])
  with p show ?thesis by (simp add: era_span_eq [of s])
qed

lemma spans_iter_distinct:
  assumes "wf_spans s"
  shows "distinct (map sp_index (spans_iter s))"
  using prior_spans_indices [of "ss_prior s" "ss_span_index s" "ss_last_start s"] assms
  by (auto simp: spans_iter_def wf_spans_def)

text \<open>The records that pruning removes are not those of an era in the window.\<close>

lemma era_index_not_pruned:
  assumes "wf_spans s" and "ws \<le> era" and "prune s ws = (s', Some (a, b))"
    and "map_option sp_index (era_span s era) = Some k"
  shows "k \<notin> {a..<b}"
proof
  assume "k \<in> {a..<b}"
  with prune_prior(5) [OF assms(1,3)] obtain x where
    x: "x \<in> set (drop 1 (spans_iter s))" "span_ended ws x" "sp_index x = k" by auto
  from assms(4) obtain y where y: "y \<in> set (spans_iter s)" "contains_era y era" "sp_index y = k"
    by (auto simp: era_span_def find_Some_iff intro: nth_mem)
  have "x \<in> set (spans_iter s)" using x(1) in_set_dropD by fast
  with y x(3) spans_iter_distinct [OF assms(1)] have "x = y"
    by (auto simp: distinct_map inj_on_def)
  with x(2) contains_not_ended [OF y(2) assms(2)] show False by simp
qed

subsection \<open>Properties of the spans\<close>

text \<open>Spans of the eras 2-5, 6-8 and from 9 on, for the witnesses.\<close>

definition sample_spans :: SlashingSpans where
  "sample_spans =
     \<lparr>ss_span_index = 2, ss_last_start = 9, ss_last_nonzero_slash = 8, ss_prior = [3, 4]\<rparr>"

lemma wf_sample_spans: "wf_spans sample_spans"
  by code_simp

text \<open>C3. The spans of a stash partition time: every era from the earliest recorded start on lies
  in exactly one span of the iterator, every earlier era in none, and \<open>era_span\<close> finds the span
  of an era exactly if there is one.\<close>

theorem spans_partition_eras:
  assumes "wf_spans s"
  shows "length (filter (\<lambda>sp. contains_era sp era) (spans_iter s)) =
      (if earliest_start s \<le> era then 1 else 0) \<and>
    (era_span s era = None \<longleftrightarrow> era < earliest_start s)"
  using spans_tile [OF assms] era_span_None_iff [OF assms] by simp

theorem spans_partition_eras_witness:
  "length (filter (\<lambda>sp. contains_era sp 6) (spans_iter sample_spans)) = 1 \<and>
    era_span sample_spans 1 = None"
proof -
  have "earliest_start sample_spans = 2" by code_simp
  with spans_partition_eras [OF wf_sample_spans, of 6] spans_partition_eras [OF wf_sample_spans, of 1]
  show ?thesis by simp
qed

text \<open>\<open>end_span\<close> closes the ongoing span with the era \<open>now\<close> as its last one and opens the
  next span, with the next index, at the era after; it does nothing exactly if the ongoing span
  starts later. The spans before stay, and the invariant is kept.\<close>

theorem end_span_closes_and_opens:
  assumes "wf_spans s" and "now < u32_max" and "ss_span_index s < u32_max"
    and "end_span s now = (s', started)"
  shows "(started \<longleftrightarrow> ss_last_start s \<le> now) \<and> (\<not> started \<longrightarrow> s' = s) \<and>
    (started \<longrightarrow> spans_iter s' =
      \<lparr>sp_index = Suc (ss_span_index s), sp_start = Suc now, sp_length = None\<rparr> #
      \<lparr>sp_index = ss_span_index s, sp_start = ss_last_start s,
        sp_length = Some (Suc now - ss_last_start s)\<rparr> #
      drop 1 (spans_iter s)) \<and> wf_spans s'"
  using end_span_iter [OF assms] wf_spans_end_span [OF assms(1-3)] assms(4) by auto

theorem end_span_closes_and_opens_witness:
  "snd (end_span sample_spans 11) \<and> wf_spans (fst (end_span sample_spans 11))"
proof -
  have "(11 :: nat) < u32_max" "ss_span_index sample_spans < u32_max" "ss_last_start sample_spans \<le> 11"
    by code_simp+
  with end_span_closes_and_opens [OF wf_sample_spans _ _ surjective_pairing, of 11] show ?thesis by simp
qed

text \<open>\<open>prune\<close> keeps exactly the earlier spans that had not ended at the start of the window,
  in order, moves the start of the ongoing span up to the window, and returns exactly the range of
  the indices of the spans it dropped, so that their records can be removed.\<close>

theorem prune_exact:
  assumes "wf_spans s" and "window_start \<le> u32_max" and "prune s window_start = (s', pruned)"
  shows "spans_iter s' =
      \<lparr>sp_index = ss_span_index s, sp_start = max (ss_last_start s) window_start, sp_length = None\<rparr> #
      filter (\<lambda>sp. \<not> span_ended window_start sp) (drop 1 (spans_iter s)) \<and>
    (case pruned of None \<Rightarrow> {} | Some (a, b) \<Rightarrow> {a..<b}) =
      sp_index ` set (filter (span_ended window_start) (drop 1 (spans_iter s))) \<and>
    wf_spans s'"
  using prune_iter [OF assms(1,3)] prune_prior(5) [OF assms(1,3)] wf_spans_prune [OF assms(1,2)]
    assms(3) by simp

theorem prune_exact_witness:
  "wf_spans (fst (prune sample_spans 6)) \<and> length (spans_iter (fst (prune sample_spans 6))) = 2"
proof -
  have "(6 :: nat) \<le> u32_max"
    "length (filter (\<lambda>sp. \<not> span_ended 6 sp) (drop 1 (spans_iter sample_spans))) = 1" by code_simp+
  with prune_exact [OF wf_sample_spans _ surjective_pairing, of 6] show ?thesis by simp
qed

end
