(* ===== verification/Staking_State.thy ===== *)
theory Staking_State
  imports Slashing_Spans
begin

section \<open>Staking: data, storage, configuration and the basic updates\<close>

text \<open>
  The types of \<^verbatim>\<open>frame/staking/src/lib.rs\<close>, the storage, events and errors of
  \<^verbatim>\<open>frame/staking/src/pallet/mod.rs\<close> and the small updates of
  \<^verbatim>\<open>frame/staking/src/pallet/impls.rs\<close> that every other operation is made of.

  A \<^verbatim>\<open>StorageMap\<close> is a partial map, a \<^verbatim>\<open>StorageDoubleMap\<close> a function from the first key to a
  partial map, a \<^verbatim>\<open>ValueQuery\<close> lookup supplies the default. \<^verbatim>\<open>CountedStorageMap\<close> keeps a
  counter beside the map. Stored values are assumed to decode. The events deposited so far are a
  list in the state, and \<open>world\<close> is the storage of the rest of the runtime.
\<close>

subsection \<open>Data\<close>

record ActiveEraInfo =
  ae_index :: EraIndex
  ae_start :: "u64 option"

record EraRewardPoints =
  erp_total :: u32
  erp_individual :: "AccountId \<rightharpoonup> u32"

definition EraRewardPoints_default :: EraRewardPoints where
  "EraRewardPoints_default = \<lparr>erp_total = 0, erp_individual = Map.empty\<rparr>"

datatype StakerStatus = Idle | Validator | Nominator "AccountId list"

datatype RewardDestination = RdStaked | RdStash | RdController | RdAccount AccountId | RdNone

definition RewardDestination_default :: RewardDestination where
  "RewardDestination_default = RdStaked"

record ValidatorPrefs =
  vp_commission :: Perbill
  vp_blocked :: bool

definition ValidatorPrefs_default :: ValidatorPrefs where
  "ValidatorPrefs_default = \<lparr>vp_commission = 0, vp_blocked = False\<rparr>"

record Nominations =
  nom_targets :: "AccountId list"
  nom_submitted_in :: EraIndex
  nom_suppressed :: bool

record IndividualExposure =
  ie_who :: AccountId
  ie_value :: Balance

record Exposure =
  ex_total :: Balance
  ex_own :: Balance
  ex_others :: "IndividualExposure list"

definition Exposure_default :: Exposure where
  "Exposure_default = \<lparr>ex_total = 0, ex_own = 0, ex_others = []\<rparr>"

record UnappliedSlash =
  us_validator :: AccountId
  us_own :: Balance
  us_others :: "(AccountId \<times> Balance) list"
  us_reporters :: "AccountId list"
  us_payout :: Balance

record SpanRecord =
  sr_slashed :: Balance
  sr_paid_out :: Balance

definition SpanRecord_default :: SpanRecord where
  "SpanRecord_default = \<lparr>sr_slashed = 0, sr_paid_out = 0\<rparr>"

datatype Forcing = NotForcing | ForceNew | ForceNone | ForceAlways

datatype Releases =
  V1_0_0Ancient | V2_0_0 | V3_0_0 | V4_0_0 | V5_0_0 | V6_0_0 | V7_0_0 | V8_0_0 | V9_0_0

datatype DisableStrategy = Never | WhenSlashed | Always

datatype staking_event =
    EraPaid EraIndex Balance
  | Rewarded AccountId Balance
  | Slashed AccountId Balance
  | OldSlashingReportDiscarded SessionIndex
  | StakersElected
  | EvBonded AccountId Balance
  | Unbonded AccountId Balance
  | Withdrawn AccountId Balance
  | Kicked AccountId AccountId
  | StakingElectionFailed
  | Chilled AccountId
  | PayoutStarted EraIndex AccountId
  | ValidatorPrefsSet AccountId ValidatorPrefs

text \<open>The errors of the pallet, then those of the origin check and of the address lookup.\<close>

datatype staking_error =
    NotController
  | NotStash
  | AlreadyBonded
  | AlreadyPaired
  | EmptyTargets
  | DuplicateIndex
  | InvalidSlashIndex
  | InsufficientBond
  | NoMoreChunks
  | NoUnlockChunk
  | FundedTarget
  | InvalidEraToReward
  | InvalidNumberOfNominations
  | NotSortedAndUnique
  | AlreadyClaimed
  | IncorrectHistoryDepth
  | IncorrectSlashingSpans
  | BadState
  | TooManyTargets
  | BadTarget
  | CannotChillOther
  | TooManyNominators
  | TooManyValidators
  | CommissionTooLow
  | CannotPayout
  | BadOrigin
  | LookupFailed

subsection \<open>Storage\<close>

record 'w staking =
  ErasNotClaimedReward :: "EraIndex \<rightharpoonup> Balance"
  HistoryDepth :: u32
  ValidatorCount :: u32
  MinimumValidatorCount :: u32
  Invulnerables :: "AccountId list"
  Bonded :: "AccountId \<rightharpoonup> AccountId"
  MinNominatorBond :: Balance
  MinValidatorBond :: Balance
  MinCommission :: Perbill
  Ledger :: "AccountId \<rightharpoonup> StakingLedger"
  Payee :: "AccountId \<rightharpoonup> RewardDestination"
  Validators :: "AccountId \<rightharpoonup> ValidatorPrefs"
  CounterForValidators :: u32
  MaxValidatorsCount :: "u32 option"
  Nominators :: "AccountId \<rightharpoonup> Nominations"
  CounterForNominators :: u32
  MaxNominatorsCount :: "u32 option"
  CurrentEra :: "EraIndex option"
  ActiveEra :: "ActiveEraInfo option"
  ErasStartSessionIndex :: "EraIndex \<rightharpoonup> SessionIndex"
  ErasStakers :: "EraIndex \<Rightarrow> AccountId \<rightharpoonup> Exposure"
  ErasStakersClipped :: "EraIndex \<Rightarrow> AccountId \<rightharpoonup> Exposure"
  ErasValidatorPrefs :: "EraIndex \<Rightarrow> AccountId \<rightharpoonup> ValidatorPrefs"
  ErasValidatorReward :: "EraIndex \<rightharpoonup> Balance"
  ErasRewardPoints :: "EraIndex \<rightharpoonup> EraRewardPoints"
  ErasTotalStake :: "EraIndex \<rightharpoonup> Balance"
  ForceEra :: Forcing
  SlashRewardFraction :: Perbill
  CanceledSlashPayout :: Balance
  UnappliedSlashes :: "EraIndex \<rightharpoonup> UnappliedSlash list"
  BondedEras :: "(EraIndex \<times> SessionIndex) list"
  ValidatorSlashInEra :: "EraIndex \<Rightarrow> AccountId \<rightharpoonup> (Perbill \<times> Balance)"
  NominatorSlashInEra :: "EraIndex \<Rightarrow> AccountId \<rightharpoonup> Balance"
  SlashingSpansOf :: "AccountId \<rightharpoonup> SlashingSpans"
  SpanSlash :: "(AccountId \<times> SpanIndex) \<rightharpoonup> SpanRecord"
  EarliestUnappliedSlash :: "EraIndex option"
  CurrentPlannedSession :: SessionIndex
  OffendingValidators :: "(u32 \<times> bool) list"
  StorageVersion :: Releases
  ChillThreshold :: "Percent option"
  staking_events :: "staking_event list"
  world :: 'w

text \<open>The storage before genesis: every item has the default of its declaration.\<close>

definition HistoryDepthOnEmpty :: u32 where
  "HistoryDepthOnEmpty = 84"

definition Forcing_default :: Forcing where
  "Forcing_default = NotForcing"

definition Releases_default :: Releases where
  "Releases_default = V8_0_0"

definition staking_default :: "'w \<Rightarrow> 'w staking" where
  "staking_default w =
     \<lparr>ErasNotClaimedReward = Map.empty, HistoryDepth = HistoryDepthOnEmpty, ValidatorCount = 0,
      MinimumValidatorCount = 0, Invulnerables = [], Bonded = Map.empty, MinNominatorBond = 0,
      MinValidatorBond = 0, MinCommission = 0, Ledger = Map.empty, Payee = Map.empty,
      Validators = Map.empty, CounterForValidators = 0, MaxValidatorsCount = None,
      Nominators = Map.empty, CounterForNominators = 0, MaxNominatorsCount = None,
      CurrentEra = None, ActiveEra = None, ErasStartSessionIndex = Map.empty,
      ErasStakers = (\<lambda>_. Map.empty), ErasStakersClipped = (\<lambda>_. Map.empty),
      ErasValidatorPrefs = (\<lambda>_. Map.empty), ErasValidatorReward = Map.empty,
      ErasRewardPoints = Map.empty, ErasTotalStake = Map.empty, ForceEra = Forcing_default,
      SlashRewardFraction = 0, CanceledSlashPayout = 0, UnappliedSlashes = Map.empty,
      BondedEras = [], ValidatorSlashInEra = (\<lambda>_. Map.empty), NominatorSlashInEra = (\<lambda>_. Map.empty),
      SlashingSpansOf = Map.empty, SpanSlash = Map.empty, EarliestUnappliedSlash = None,
      CurrentPlannedSession = 0, OffendingValidators = [], StorageVersion = Releases_default,
      ChillThreshold = None, staking_events = [], world = w\<rparr>"

text \<open>The result of a dispatchable call: an error or the weight actually used, where the call
  reports one; next to it the state the call leaves.\<close>

type_synonym 'w outcome = "(staking_error + Weight option) \<times> 'w staking"

subsection \<open>Configuration\<close>

text \<open>
  The election result: for each winner the voters behind it with their weights
  (\<^verbatim>\<open>Supports\<close> of \<^verbatim>\<open>sp_npos_elections\<close>).
\<close>

type_synonym Supports = "(AccountId \<times> (AccountId \<times> nat) list) list"

record 'w staking_config =
  T_currency :: "'w currency"
  T_perthings :: perthings
  T_now_millis :: "'w \<Rightarrow> u64"
  T_to_vote :: "Balance \<Rightarrow> Balance \<Rightarrow> u64"
  T_to_currency :: "nat \<Rightarrow> Balance \<Rightarrow> Balance"
  T_elect :: "'w staking \<Rightarrow> Supports option \<times> 'w"
  T_elect_genesis :: "'w staking \<Rightarrow> Supports option \<times> 'w"
  T_MaxNominations :: u32
  T_slash_on_unbalanced :: "Balance \<Rightarrow> 'w \<Rightarrow> 'w"
  T_SessionsPerEra :: SessionIndex
  T_BondingDuration :: EraIndex
  T_SlashDeferDuration :: EraIndex
  T_slash_cancel_origin :: "origin \<Rightarrow> bool"
  T_session_validators :: "'w \<Rightarrow> AccountId list"
  T_disable_validator :: "u32 \<Rightarrow> 'w \<Rightarrow> 'w"
  T_prune_historical_up_to :: "SessionIndex \<Rightarrow> 'w \<Rightarrow> 'w"
  T_estimate_next_new_session :: "'w \<Rightarrow> BlockNumber \<Rightarrow> BlockNumber option"
  T_average_session_length :: "'w \<Rightarrow> BlockNumber"
  T_MaxNominatorRewardedPerValidator :: u32
  T_OffendingValidatorsThreshold :: Perbill
  T_voter_list_contains :: "'w staking \<Rightarrow> AccountId \<Rightarrow> bool"
  T_voter_list_count :: "'w staking \<Rightarrow> u32"
  T_voter_list_iter :: "'w staking \<Rightarrow> AccountId list"
  T_voter_list_on_insert :: "AccountId \<Rightarrow> u64 \<Rightarrow> 'w staking \<Rightarrow> 'w"
  T_voter_list_on_update :: "AccountId \<Rightarrow> u64 \<Rightarrow> 'w staking \<Rightarrow> 'w"
  T_voter_list_on_remove :: "AccountId \<Rightarrow> 'w staking \<Rightarrow> 'w"
  T_on_staker_slash :: "AccountId \<Rightarrow> Balance \<Rightarrow> (EraIndex \<rightharpoonup> Balance) \<Rightarrow> 'w \<Rightarrow> 'w"
  T_trigger_wallet :: "'w \<Rightarrow> 'w"
  T_lookup :: "nat \<Rightarrow> AccountId option"
  T_unlookup :: "AccountId \<Rightarrow> nat"
  T_inc_consumers :: "AccountId \<Rightarrow> 'w \<Rightarrow> bool \<times> 'w"
  T_dec_consumers :: "AccountId \<Rightarrow> 'w \<Rightarrow> 'w"
  T_fund_account :: AccountId
  T_block_author :: "'w \<Rightarrow> AccountId option"
  T_iter_validators :: "(AccountId \<rightharpoonup> ValidatorPrefs) \<Rightarrow> AccountId list"
  T_iter_nominators :: "(AccountId \<rightharpoonup> Nominations) \<Rightarrow> AccountId list"
  T_iter_spans :: "(AccountId \<rightharpoonup> SlashingSpans) \<Rightarrow> AccountId list"
  T_weight_payout_stakers_alive_staked :: "u32 \<Rightarrow> Weight"
  T_weight_withdraw_unbonded_update :: "u32 \<Rightarrow> Weight"
  T_weight_rebond :: "u32 \<Rightarrow> Weight"
  T_weight_get_npos_voters :: "u32 \<Rightarrow> u32 \<Rightarrow> u32 \<Rightarrow> Weight"
  T_weight_get_npos_targets :: "u32 \<Rightarrow> Weight"
  T_db_weight_reads_writes :: "nat \<Rightarrow> nat \<Rightarrow> Weight"
  T_register_weight :: "Weight \<Rightarrow> 'w \<Rightarrow> 'w"

text \<open>\<^verbatim>\<open>primitives/src/lib.rs\<close>: the smallest balance an account may keep.\<close>

definition DOLLARS :: Balance where
  "DOLLARS = 1000000000000000000"

definition CENTS :: Balance where
  "CENTS = DOLLARS div 100"

definition EXISTENTIAL_DEPOSIT :: Balance where
  "EXISTENTIAL_DEPOSIT = 10 * CENTS"

subsection \<open>Storage access\<close>

definition deposit_event :: "staking_event \<Rightarrow> 'w staking \<Rightarrow> 'w staking" where
  "deposit_event e s = s\<lparr>staking_events := staking_events s @ [e]\<rparr>"

definition set_world :: "'w \<Rightarrow> 'w staking \<Rightarrow> 'w staking" where
  "set_world w s = s\<lparr>world := w\<rparr>"

definition payee :: "'w staking \<Rightarrow> AccountId \<Rightarrow> RewardDestination" where
  "payee s stash = (case Payee s stash of None \<Rightarrow> RewardDestination_default | Some d \<Rightarrow> d)"

definition validator_prefs :: "'w staking \<Rightarrow> AccountId \<Rightarrow> ValidatorPrefs" where
  "validator_prefs s stash = (case Validators s stash of None \<Rightarrow> ValidatorPrefs_default | Some p \<Rightarrow> p)"

definition eras_not_claimed_reward :: "'w staking \<Rightarrow> EraIndex \<Rightarrow> Balance" where
  "eras_not_claimed_reward s era = (case ErasNotClaimedReward s era of None \<Rightarrow> 0 | Some b \<Rightarrow> b)"

definition eras_stakers :: "'w staking \<Rightarrow> EraIndex \<Rightarrow> AccountId \<Rightarrow> Exposure" where
  "eras_stakers s era v = (case ErasStakers s era v of None \<Rightarrow> Exposure_default | Some e \<Rightarrow> e)"

definition eras_stakers_clipped :: "'w staking \<Rightarrow> EraIndex \<Rightarrow> AccountId \<Rightarrow> Exposure" where
  "eras_stakers_clipped s era v =
     (case ErasStakersClipped s era v of None \<Rightarrow> Exposure_default | Some e \<Rightarrow> e)"

definition eras_validator_prefs :: "'w staking \<Rightarrow> EraIndex \<Rightarrow> AccountId \<Rightarrow> ValidatorPrefs" where
  "eras_validator_prefs s era v =
     (case ErasValidatorPrefs s era v of None \<Rightarrow> ValidatorPrefs_default | Some p \<Rightarrow> p)"

definition eras_reward_points :: "'w staking \<Rightarrow> EraIndex \<Rightarrow> EraRewardPoints" where
  "eras_reward_points s era =
     (case ErasRewardPoints s era of None \<Rightarrow> EraRewardPoints_default | Some p \<Rightarrow> p)"

definition unapplied_slashes :: "'w staking \<Rightarrow> EraIndex \<Rightarrow> UnappliedSlash list" where
  "unapplied_slashes s era = (case UnappliedSlashes s era of None \<Rightarrow> [] | Some us \<Rightarrow> us)"

definition span_slash :: "'w staking \<Rightarrow> AccountId \<times> SpanIndex \<Rightarrow> SpanRecord" where
  "span_slash s key = (case SpanSlash s key of None \<Rightarrow> SpanRecord_default | Some r \<Rightarrow> r)"

definition Validators_insert :: "AccountId \<Rightarrow> ValidatorPrefs \<Rightarrow> 'w staking \<Rightarrow> 'w staking" where
  "Validators_insert who prefs s =
     s\<lparr>Validators := (Validators s)(who \<mapsto> prefs),
       CounterForValidators :=
         (if Validators s who = None then sat_add u32_max (CounterForValidators s) 1
          else CounterForValidators s)\<rparr>"

definition Validators_remove :: "AccountId \<Rightarrow> 'w staking \<Rightarrow> 'w staking" where
  "Validators_remove who s =
     s\<lparr>Validators := (Validators s)(who := None),
       CounterForValidators :=
         (if Validators s who = None then CounterForValidators s else CounterForValidators s - 1)\<rparr>"

definition Nominators_insert :: "AccountId \<Rightarrow> Nominations \<Rightarrow> 'w staking \<Rightarrow> 'w staking" where
  "Nominators_insert who noms s =
     s\<lparr>Nominators := (Nominators s)(who \<mapsto> noms),
       CounterForNominators :=
         (if Nominators s who = None then sat_add u32_max (CounterForNominators s) 1
          else CounterForNominators s)\<rparr>"

definition Nominators_remove :: "AccountId \<Rightarrow> 'w staking \<Rightarrow> 'w staking" where
  "Nominators_remove who s =
     s\<lparr>Nominators := (Nominators s)(who := None),
       CounterForNominators :=
         (if Nominators s who = None then CounterForNominators s else CounterForNominators s - 1)\<rparr>"

subsection \<open>Stake and vote weight\<close>

definition slashable_balance_of :: "'w staking \<Rightarrow> AccountId \<Rightarrow> Balance" where
  "slashable_balance_of s stash =
     (case Option.bind (Bonded s stash) (Ledger s) of None \<Rightarrow> 0 | Some l \<Rightarrow> sl_active l)"

definition slashable_balance_of_vote_weight ::
  "'w staking_config \<Rightarrow> 'w staking \<Rightarrow> AccountId \<Rightarrow> Balance \<Rightarrow> u64" where
  "slashable_balance_of_vote_weight T s stash issuance =
     T_to_vote T (slashable_balance_of s stash) issuance"

definition weight_of :: "'w staking_config \<Rightarrow> 'w staking \<Rightarrow> AccountId \<Rightarrow> u64" where
  "weight_of T s who =
     slashable_balance_of_vote_weight T s who (cur_total_issuance (T_currency T) (world s))"

subsection \<open>Ledger, roles and forcing\<close>

definition update_ledger ::
  "'w staking_config \<Rightarrow> AccountId \<Rightarrow> StakingLedger \<Rightarrow> 'w staking \<Rightarrow> 'w staking" where
  "update_ledger T controller l s =
     s\<lparr>world := cur_set_lock (T_currency T) (sl_stash l) (sl_total l) (world s),
       Ledger := (Ledger s)(controller \<mapsto> l)\<rparr>"

definition do_add_nominator ::
  "'w staking_config \<Rightarrow> AccountId \<Rightarrow> Nominations \<Rightarrow> 'w staking \<Rightarrow> 'w staking" where
  "do_add_nominator T who nominations s =
     (let s1 = (if Nominators s who = None
                then set_world (T_voter_list_on_insert T who (weight_of T s who) s) s else s)
      in Nominators_insert who nominations s1)"

definition do_remove_nominator ::
  "'w staking_config \<Rightarrow> AccountId \<Rightarrow> 'w staking \<Rightarrow> bool \<times> 'w staking" where
  "do_remove_nominator T who s =
     (if Nominators s who \<noteq> None
      then (let s1 = Nominators_remove who s
            in (True, set_world (T_voter_list_on_remove T who s1) s1))
      else (False, s))"

definition do_add_validator ::
  "'w staking_config \<Rightarrow> AccountId \<Rightarrow> ValidatorPrefs \<Rightarrow> 'w staking \<Rightarrow> 'w staking" where
  "do_add_validator T who prefs s =
     (let s1 = (if Validators s who = None
                then set_world (T_voter_list_on_insert T who (weight_of T s who) s) s else s)
      in Validators_insert who prefs s1)"

definition do_remove_validator ::
  "'w staking_config \<Rightarrow> AccountId \<Rightarrow> 'w staking \<Rightarrow> bool \<times> 'w staking" where
  "do_remove_validator T who s =
     (if Validators s who \<noteq> None
      then (let s1 = Validators_remove who s
            in (True, set_world (T_voter_list_on_remove T who s1) s1))
      else (False, s))"

definition chill_stash :: "'w staking_config \<Rightarrow> AccountId \<Rightarrow> 'w staking \<Rightarrow> 'w staking" where
  "chill_stash T stash s =
     (case do_remove_validator T stash s of (chilled_as_validator, s1) \<Rightarrow>
      case do_remove_nominator T stash s1 of (chilled_as_nominator, s2) \<Rightarrow>
        if chilled_as_validator \<or> chilled_as_nominator then deposit_event (Chilled stash) s2 else s2)"

definition ensure_new_era :: "'w staking \<Rightarrow> 'w staking" where
  "ensure_new_era s =
     (case ForceEra s of
        ForceAlways \<Rightarrow> s
      | ForceNew \<Rightarrow> s
      | _ \<Rightarrow> s\<lparr>ForceEra := ForceNew\<rparr>)"

end
