(* ===== verification/Staking_Frames.thy ===== *)
theory Staking_Frames
  imports Staking_State
begin

section \<open>Staking: what the basic updates leave alone\<close>

text \<open>
  One simplification rule per basic update and storage item it does not write. The proofs about the
  operations of the pallet reduce, through these rules, to the items that an operation does write.
\<close>

subsection \<open>Lemmas: what each update leaves alone\<close>

lemma chill_stash_eq:
  "chill_stash T who s =
     (let s2 = snd (do_remove_nominator T who (snd (do_remove_validator T who s)))
      in if Validators s who \<noteq> None \<or> Nominators s who \<noteq> None
         then deposit_event (Chilled who) s2 else s2)"
  by (auto simp: chill_stash_def do_remove_validator_def do_remove_nominator_def Let_def
      Validators_remove_def Nominators_remove_def set_world_def)

text \<open>What the basic updates write.\<close>

lemma basic_writes [simp]:
  "world (set_world w s) = w"
  "staking_events (deposit_event e s) = staking_events s @ [e]"
  "Ledger (update_ledger T c l s) = (Ledger s)(c \<mapsto> l)"
  "world (update_ledger T c l s) = cur_set_lock (T_currency T) (sl_stash l) (sl_total l) (world s)"
  "Validators (Validators_insert who p s) = (Validators s)(who \<mapsto> p)"
  "Validators (Validators_remove who s) = (Validators s)(who := None)"
  "Nominators (Nominators_insert who n s) = (Nominators s)(who \<mapsto> n)"
  "Nominators (Nominators_remove who s) = (Nominators s)(who := None)"
  "Validators (do_add_validator T who p s) = (Validators s)(who \<mapsto> p)"
  "Nominators (do_add_nominator T who n s) = (Nominators s)(who \<mapsto> n)"
  by (simp_all add: set_world_def deposit_event_def update_ledger_def Validators_insert_def
      Validators_remove_def Nominators_insert_def Nominators_remove_def do_add_validator_def
      do_add_nominator_def Let_def)

lemma set_world_frame [simp]:
  "ErasNotClaimedReward (set_world w s) = ErasNotClaimedReward s"
  "HistoryDepth (set_world w s) = HistoryDepth s"
  "ValidatorCount (set_world w s) = ValidatorCount s"
  "MinimumValidatorCount (set_world w s) = MinimumValidatorCount s"
  "Invulnerables (set_world w s) = Invulnerables s" "Bonded (set_world w s) = Bonded s"
  "MinNominatorBond (set_world w s) = MinNominatorBond s"
  "MinValidatorBond (set_world w s) = MinValidatorBond s"
  "MinCommission (set_world w s) = MinCommission s" "Ledger (set_world w s) = Ledger s"
  "Payee (set_world w s) = Payee s" "Validators (set_world w s) = Validators s"
  "CounterForValidators (set_world w s) = CounterForValidators s"
  "MaxValidatorsCount (set_world w s) = MaxValidatorsCount s"
  "Nominators (set_world w s) = Nominators s"
  "CounterForNominators (set_world w s) = CounterForNominators s"
  "MaxNominatorsCount (set_world w s) = MaxNominatorsCount s"
  "CurrentEra (set_world w s) = CurrentEra s" "ActiveEra (set_world w s) = ActiveEra s"
  "ErasStartSessionIndex (set_world w s) = ErasStartSessionIndex s"
  "ErasStakers (set_world w s) = ErasStakers s"
  "ErasStakersClipped (set_world w s) = ErasStakersClipped s"
  "ErasValidatorPrefs (set_world w s) = ErasValidatorPrefs s"
  "ErasValidatorReward (set_world w s) = ErasValidatorReward s"
  "ErasRewardPoints (set_world w s) = ErasRewardPoints s"
  "ErasTotalStake (set_world w s) = ErasTotalStake s" "ForceEra (set_world w s) = ForceEra s"
  "SlashRewardFraction (set_world w s) = SlashRewardFraction s"
  "CanceledSlashPayout (set_world w s) = CanceledSlashPayout s"
  "UnappliedSlashes (set_world w s) = UnappliedSlashes s"
  "BondedEras (set_world w s) = BondedEras s"
  "ValidatorSlashInEra (set_world w s) = ValidatorSlashInEra s"
  "NominatorSlashInEra (set_world w s) = NominatorSlashInEra s"
  "SlashingSpansOf (set_world w s) = SlashingSpansOf s" "SpanSlash (set_world w s) = SpanSlash s"
  "EarliestUnappliedSlash (set_world w s) = EarliestUnappliedSlash s"
  "CurrentPlannedSession (set_world w s) = CurrentPlannedSession s"
  "OffendingValidators (set_world w s) = OffendingValidators s"
  "StorageVersion (set_world w s) = StorageVersion s"
  "ChillThreshold (set_world w s) = ChillThreshold s"
  "staking_events (set_world w s) = staking_events s"
  by (simp_all add: set_world_def)

lemma deposit_event_frame [simp]:
  "ErasNotClaimedReward (deposit_event e s) = ErasNotClaimedReward s"
  "HistoryDepth (deposit_event e s) = HistoryDepth s"
  "ValidatorCount (deposit_event e s) = ValidatorCount s"
  "MinimumValidatorCount (deposit_event e s) = MinimumValidatorCount s"
  "Invulnerables (deposit_event e s) = Invulnerables s" "Bonded (deposit_event e s) = Bonded s"
  "MinNominatorBond (deposit_event e s) = MinNominatorBond s"
  "MinValidatorBond (deposit_event e s) = MinValidatorBond s"
  "MinCommission (deposit_event e s) = MinCommission s" "Ledger (deposit_event e s) = Ledger s"
  "Payee (deposit_event e s) = Payee s" "Validators (deposit_event e s) = Validators s"
  "CounterForValidators (deposit_event e s) = CounterForValidators s"
  "MaxValidatorsCount (deposit_event e s) = MaxValidatorsCount s"
  "Nominators (deposit_event e s) = Nominators s"
  "CounterForNominators (deposit_event e s) = CounterForNominators s"
  "MaxNominatorsCount (deposit_event e s) = MaxNominatorsCount s"
  "CurrentEra (deposit_event e s) = CurrentEra s" "ActiveEra (deposit_event e s) = ActiveEra s"
  "ErasStartSessionIndex (deposit_event e s) = ErasStartSessionIndex s"
  "ErasStakers (deposit_event e s) = ErasStakers s"
  "ErasStakersClipped (deposit_event e s) = ErasStakersClipped s"
  "ErasValidatorPrefs (deposit_event e s) = ErasValidatorPrefs s"
  "ErasValidatorReward (deposit_event e s) = ErasValidatorReward s"
  "ErasRewardPoints (deposit_event e s) = ErasRewardPoints s"
  "ErasTotalStake (deposit_event e s) = ErasTotalStake s"
  "ForceEra (deposit_event e s) = ForceEra s"
  "SlashRewardFraction (deposit_event e s) = SlashRewardFraction s"
  "CanceledSlashPayout (deposit_event e s) = CanceledSlashPayout s"
  "UnappliedSlashes (deposit_event e s) = UnappliedSlashes s"
  "BondedEras (deposit_event e s) = BondedEras s"
  "ValidatorSlashInEra (deposit_event e s) = ValidatorSlashInEra s"
  "NominatorSlashInEra (deposit_event e s) = NominatorSlashInEra s"
  "SlashingSpansOf (deposit_event e s) = SlashingSpansOf s"
  "SpanSlash (deposit_event e s) = SpanSlash s"
  "EarliestUnappliedSlash (deposit_event e s) = EarliestUnappliedSlash s"
  "CurrentPlannedSession (deposit_event e s) = CurrentPlannedSession s"
  "OffendingValidators (deposit_event e s) = OffendingValidators s"
  "StorageVersion (deposit_event e s) = StorageVersion s"
  "ChillThreshold (deposit_event e s) = ChillThreshold s" "world (deposit_event e s) = world s"
  by (simp_all add: deposit_event_def)

lemma Validators_insert_frame [simp]:
  "ErasNotClaimedReward (Validators_insert who p s) = ErasNotClaimedReward s"
  "HistoryDepth (Validators_insert who p s) = HistoryDepth s"
  "ValidatorCount (Validators_insert who p s) = ValidatorCount s"
  "MinimumValidatorCount (Validators_insert who p s) = MinimumValidatorCount s"
  "Invulnerables (Validators_insert who p s) = Invulnerables s"
  "Bonded (Validators_insert who p s) = Bonded s"
  "MinNominatorBond (Validators_insert who p s) = MinNominatorBond s"
  "MinValidatorBond (Validators_insert who p s) = MinValidatorBond s"
  "MinCommission (Validators_insert who p s) = MinCommission s"
  "Ledger (Validators_insert who p s) = Ledger s" "Payee (Validators_insert who p s) = Payee s"
  "MaxValidatorsCount (Validators_insert who p s) = MaxValidatorsCount s"
  "Nominators (Validators_insert who p s) = Nominators s"
  "CounterForNominators (Validators_insert who p s) = CounterForNominators s"
  "MaxNominatorsCount (Validators_insert who p s) = MaxNominatorsCount s"
  "CurrentEra (Validators_insert who p s) = CurrentEra s"
  "ActiveEra (Validators_insert who p s) = ActiveEra s"
  "ErasStartSessionIndex (Validators_insert who p s) = ErasStartSessionIndex s"
  "ErasStakers (Validators_insert who p s) = ErasStakers s"
  "ErasStakersClipped (Validators_insert who p s) = ErasStakersClipped s"
  "ErasValidatorPrefs (Validators_insert who p s) = ErasValidatorPrefs s"
  "ErasValidatorReward (Validators_insert who p s) = ErasValidatorReward s"
  "ErasRewardPoints (Validators_insert who p s) = ErasRewardPoints s"
  "ErasTotalStake (Validators_insert who p s) = ErasTotalStake s"
  "ForceEra (Validators_insert who p s) = ForceEra s"
  "SlashRewardFraction (Validators_insert who p s) = SlashRewardFraction s"
  "CanceledSlashPayout (Validators_insert who p s) = CanceledSlashPayout s"
  "UnappliedSlashes (Validators_insert who p s) = UnappliedSlashes s"
  "BondedEras (Validators_insert who p s) = BondedEras s"
  "ValidatorSlashInEra (Validators_insert who p s) = ValidatorSlashInEra s"
  "NominatorSlashInEra (Validators_insert who p s) = NominatorSlashInEra s"
  "SlashingSpansOf (Validators_insert who p s) = SlashingSpansOf s"
  "SpanSlash (Validators_insert who p s) = SpanSlash s"
  "EarliestUnappliedSlash (Validators_insert who p s) = EarliestUnappliedSlash s"
  "CurrentPlannedSession (Validators_insert who p s) = CurrentPlannedSession s"
  "OffendingValidators (Validators_insert who p s) = OffendingValidators s"
  "StorageVersion (Validators_insert who p s) = StorageVersion s"
  "ChillThreshold (Validators_insert who p s) = ChillThreshold s"
  "staking_events (Validators_insert who p s) = staking_events s"
  "world (Validators_insert who p s) = world s"
  by (simp_all add: Validators_insert_def)

lemma Validators_remove_frame [simp]:
  "ErasNotClaimedReward (Validators_remove who s) = ErasNotClaimedReward s"
  "HistoryDepth (Validators_remove who s) = HistoryDepth s"
  "ValidatorCount (Validators_remove who s) = ValidatorCount s"
  "MinimumValidatorCount (Validators_remove who s) = MinimumValidatorCount s"
  "Invulnerables (Validators_remove who s) = Invulnerables s"
  "Bonded (Validators_remove who s) = Bonded s"
  "MinNominatorBond (Validators_remove who s) = MinNominatorBond s"
  "MinValidatorBond (Validators_remove who s) = MinValidatorBond s"
  "MinCommission (Validators_remove who s) = MinCommission s"
  "Ledger (Validators_remove who s) = Ledger s" "Payee (Validators_remove who s) = Payee s"
  "MaxValidatorsCount (Validators_remove who s) = MaxValidatorsCount s"
  "Nominators (Validators_remove who s) = Nominators s"
  "CounterForNominators (Validators_remove who s) = CounterForNominators s"
  "MaxNominatorsCount (Validators_remove who s) = MaxNominatorsCount s"
  "CurrentEra (Validators_remove who s) = CurrentEra s"
  "ActiveEra (Validators_remove who s) = ActiveEra s"
  "ErasStartSessionIndex (Validators_remove who s) = ErasStartSessionIndex s"
  "ErasStakers (Validators_remove who s) = ErasStakers s"
  "ErasStakersClipped (Validators_remove who s) = ErasStakersClipped s"
  "ErasValidatorPrefs (Validators_remove who s) = ErasValidatorPrefs s"
  "ErasValidatorReward (Validators_remove who s) = ErasValidatorReward s"
  "ErasRewardPoints (Validators_remove who s) = ErasRewardPoints s"
  "ErasTotalStake (Validators_remove who s) = ErasTotalStake s"
  "ForceEra (Validators_remove who s) = ForceEra s"
  "SlashRewardFraction (Validators_remove who s) = SlashRewardFraction s"
  "CanceledSlashPayout (Validators_remove who s) = CanceledSlashPayout s"
  "UnappliedSlashes (Validators_remove who s) = UnappliedSlashes s"
  "BondedEras (Validators_remove who s) = BondedEras s"
  "ValidatorSlashInEra (Validators_remove who s) = ValidatorSlashInEra s"
  "NominatorSlashInEra (Validators_remove who s) = NominatorSlashInEra s"
  "SlashingSpansOf (Validators_remove who s) = SlashingSpansOf s"
  "SpanSlash (Validators_remove who s) = SpanSlash s"
  "EarliestUnappliedSlash (Validators_remove who s) = EarliestUnappliedSlash s"
  "CurrentPlannedSession (Validators_remove who s) = CurrentPlannedSession s"
  "OffendingValidators (Validators_remove who s) = OffendingValidators s"
  "StorageVersion (Validators_remove who s) = StorageVersion s"
  "ChillThreshold (Validators_remove who s) = ChillThreshold s"
  "staking_events (Validators_remove who s) = staking_events s"
  "world (Validators_remove who s) = world s"
  by (simp_all add: Validators_remove_def)

lemma Nominators_insert_frame [simp]:
  "ErasNotClaimedReward (Nominators_insert who n s) = ErasNotClaimedReward s"
  "HistoryDepth (Nominators_insert who n s) = HistoryDepth s"
  "ValidatorCount (Nominators_insert who n s) = ValidatorCount s"
  "MinimumValidatorCount (Nominators_insert who n s) = MinimumValidatorCount s"
  "Invulnerables (Nominators_insert who n s) = Invulnerables s"
  "Bonded (Nominators_insert who n s) = Bonded s"
  "MinNominatorBond (Nominators_insert who n s) = MinNominatorBond s"
  "MinValidatorBond (Nominators_insert who n s) = MinValidatorBond s"
  "MinCommission (Nominators_insert who n s) = MinCommission s"
  "Ledger (Nominators_insert who n s) = Ledger s" "Payee (Nominators_insert who n s) = Payee s"
  "Validators (Nominators_insert who n s) = Validators s"
  "CounterForValidators (Nominators_insert who n s) = CounterForValidators s"
  "MaxValidatorsCount (Nominators_insert who n s) = MaxValidatorsCount s"
  "MaxNominatorsCount (Nominators_insert who n s) = MaxNominatorsCount s"
  "CurrentEra (Nominators_insert who n s) = CurrentEra s"
  "ActiveEra (Nominators_insert who n s) = ActiveEra s"
  "ErasStartSessionIndex (Nominators_insert who n s) = ErasStartSessionIndex s"
  "ErasStakers (Nominators_insert who n s) = ErasStakers s"
  "ErasStakersClipped (Nominators_insert who n s) = ErasStakersClipped s"
  "ErasValidatorPrefs (Nominators_insert who n s) = ErasValidatorPrefs s"
  "ErasValidatorReward (Nominators_insert who n s) = ErasValidatorReward s"
  "ErasRewardPoints (Nominators_insert who n s) = ErasRewardPoints s"
  "ErasTotalStake (Nominators_insert who n s) = ErasTotalStake s"
  "ForceEra (Nominators_insert who n s) = ForceEra s"
  "SlashRewardFraction (Nominators_insert who n s) = SlashRewardFraction s"
  "CanceledSlashPayout (Nominators_insert who n s) = CanceledSlashPayout s"
  "UnappliedSlashes (Nominators_insert who n s) = UnappliedSlashes s"
  "BondedEras (Nominators_insert who n s) = BondedEras s"
  "ValidatorSlashInEra (Nominators_insert who n s) = ValidatorSlashInEra s"
  "NominatorSlashInEra (Nominators_insert who n s) = NominatorSlashInEra s"
  "SlashingSpansOf (Nominators_insert who n s) = SlashingSpansOf s"
  "SpanSlash (Nominators_insert who n s) = SpanSlash s"
  "EarliestUnappliedSlash (Nominators_insert who n s) = EarliestUnappliedSlash s"
  "CurrentPlannedSession (Nominators_insert who n s) = CurrentPlannedSession s"
  "OffendingValidators (Nominators_insert who n s) = OffendingValidators s"
  "StorageVersion (Nominators_insert who n s) = StorageVersion s"
  "ChillThreshold (Nominators_insert who n s) = ChillThreshold s"
  "staking_events (Nominators_insert who n s) = staking_events s"
  "world (Nominators_insert who n s) = world s"
  by (simp_all add: Nominators_insert_def)

lemma Nominators_remove_frame [simp]:
  "ErasNotClaimedReward (Nominators_remove who s) = ErasNotClaimedReward s"
  "HistoryDepth (Nominators_remove who s) = HistoryDepth s"
  "ValidatorCount (Nominators_remove who s) = ValidatorCount s"
  "MinimumValidatorCount (Nominators_remove who s) = MinimumValidatorCount s"
  "Invulnerables (Nominators_remove who s) = Invulnerables s"
  "Bonded (Nominators_remove who s) = Bonded s"
  "MinNominatorBond (Nominators_remove who s) = MinNominatorBond s"
  "MinValidatorBond (Nominators_remove who s) = MinValidatorBond s"
  "MinCommission (Nominators_remove who s) = MinCommission s"
  "Ledger (Nominators_remove who s) = Ledger s" "Payee (Nominators_remove who s) = Payee s"
  "Validators (Nominators_remove who s) = Validators s"
  "CounterForValidators (Nominators_remove who s) = CounterForValidators s"
  "MaxValidatorsCount (Nominators_remove who s) = MaxValidatorsCount s"
  "MaxNominatorsCount (Nominators_remove who s) = MaxNominatorsCount s"
  "CurrentEra (Nominators_remove who s) = CurrentEra s"
  "ActiveEra (Nominators_remove who s) = ActiveEra s"
  "ErasStartSessionIndex (Nominators_remove who s) = ErasStartSessionIndex s"
  "ErasStakers (Nominators_remove who s) = ErasStakers s"
  "ErasStakersClipped (Nominators_remove who s) = ErasStakersClipped s"
  "ErasValidatorPrefs (Nominators_remove who s) = ErasValidatorPrefs s"
  "ErasValidatorReward (Nominators_remove who s) = ErasValidatorReward s"
  "ErasRewardPoints (Nominators_remove who s) = ErasRewardPoints s"
  "ErasTotalStake (Nominators_remove who s) = ErasTotalStake s"
  "ForceEra (Nominators_remove who s) = ForceEra s"
  "SlashRewardFraction (Nominators_remove who s) = SlashRewardFraction s"
  "CanceledSlashPayout (Nominators_remove who s) = CanceledSlashPayout s"
  "UnappliedSlashes (Nominators_remove who s) = UnappliedSlashes s"
  "BondedEras (Nominators_remove who s) = BondedEras s"
  "ValidatorSlashInEra (Nominators_remove who s) = ValidatorSlashInEra s"
  "NominatorSlashInEra (Nominators_remove who s) = NominatorSlashInEra s"
  "SlashingSpansOf (Nominators_remove who s) = SlashingSpansOf s"
  "SpanSlash (Nominators_remove who s) = SpanSlash s"
  "EarliestUnappliedSlash (Nominators_remove who s) = EarliestUnappliedSlash s"
  "CurrentPlannedSession (Nominators_remove who s) = CurrentPlannedSession s"
  "OffendingValidators (Nominators_remove who s) = OffendingValidators s"
  "StorageVersion (Nominators_remove who s) = StorageVersion s"
  "ChillThreshold (Nominators_remove who s) = ChillThreshold s"
  "staking_events (Nominators_remove who s) = staking_events s"
  "world (Nominators_remove who s) = world s"
  by (simp_all add: Nominators_remove_def)

lemma update_ledger_frame [simp]:
  "ErasNotClaimedReward (update_ledger T c l s) = ErasNotClaimedReward s"
  "HistoryDepth (update_ledger T c l s) = HistoryDepth s"
  "ValidatorCount (update_ledger T c l s) = ValidatorCount s"
  "MinimumValidatorCount (update_ledger T c l s) = MinimumValidatorCount s"
  "Invulnerables (update_ledger T c l s) = Invulnerables s"
  "Bonded (update_ledger T c l s) = Bonded s"
  "MinNominatorBond (update_ledger T c l s) = MinNominatorBond s"
  "MinValidatorBond (update_ledger T c l s) = MinValidatorBond s"
  "MinCommission (update_ledger T c l s) = MinCommission s"
  "Payee (update_ledger T c l s) = Payee s" "Validators (update_ledger T c l s) = Validators s"
  "CounterForValidators (update_ledger T c l s) = CounterForValidators s"
  "MaxValidatorsCount (update_ledger T c l s) = MaxValidatorsCount s"
  "Nominators (update_ledger T c l s) = Nominators s"
  "CounterForNominators (update_ledger T c l s) = CounterForNominators s"
  "MaxNominatorsCount (update_ledger T c l s) = MaxNominatorsCount s"
  "CurrentEra (update_ledger T c l s) = CurrentEra s"
  "ActiveEra (update_ledger T c l s) = ActiveEra s"
  "ErasStartSessionIndex (update_ledger T c l s) = ErasStartSessionIndex s"
  "ErasStakers (update_ledger T c l s) = ErasStakers s"
  "ErasStakersClipped (update_ledger T c l s) = ErasStakersClipped s"
  "ErasValidatorPrefs (update_ledger T c l s) = ErasValidatorPrefs s"
  "ErasValidatorReward (update_ledger T c l s) = ErasValidatorReward s"
  "ErasRewardPoints (update_ledger T c l s) = ErasRewardPoints s"
  "ErasTotalStake (update_ledger T c l s) = ErasTotalStake s"
  "ForceEra (update_ledger T c l s) = ForceEra s"
  "SlashRewardFraction (update_ledger T c l s) = SlashRewardFraction s"
  "CanceledSlashPayout (update_ledger T c l s) = CanceledSlashPayout s"
  "UnappliedSlashes (update_ledger T c l s) = UnappliedSlashes s"
  "BondedEras (update_ledger T c l s) = BondedEras s"
  "ValidatorSlashInEra (update_ledger T c l s) = ValidatorSlashInEra s"
  "NominatorSlashInEra (update_ledger T c l s) = NominatorSlashInEra s"
  "SlashingSpansOf (update_ledger T c l s) = SlashingSpansOf s"
  "SpanSlash (update_ledger T c l s) = SpanSlash s"
  "EarliestUnappliedSlash (update_ledger T c l s) = EarliestUnappliedSlash s"
  "CurrentPlannedSession (update_ledger T c l s) = CurrentPlannedSession s"
  "OffendingValidators (update_ledger T c l s) = OffendingValidators s"
  "StorageVersion (update_ledger T c l s) = StorageVersion s"
  "ChillThreshold (update_ledger T c l s) = ChillThreshold s"
  "staking_events (update_ledger T c l s) = staking_events s"
  by (simp_all add: update_ledger_def)

lemma do_add_validator_frame [simp]:
  "ErasNotClaimedReward (do_add_validator T who p s) = ErasNotClaimedReward s"
  "HistoryDepth (do_add_validator T who p s) = HistoryDepth s"
  "ValidatorCount (do_add_validator T who p s) = ValidatorCount s"
  "MinimumValidatorCount (do_add_validator T who p s) = MinimumValidatorCount s"
  "Invulnerables (do_add_validator T who p s) = Invulnerables s"
  "Bonded (do_add_validator T who p s) = Bonded s"
  "MinNominatorBond (do_add_validator T who p s) = MinNominatorBond s"
  "MinValidatorBond (do_add_validator T who p s) = MinValidatorBond s"
  "MinCommission (do_add_validator T who p s) = MinCommission s"
  "Ledger (do_add_validator T who p s) = Ledger s" "Payee (do_add_validator T who p s) = Payee s"
  "MaxValidatorsCount (do_add_validator T who p s) = MaxValidatorsCount s"
  "Nominators (do_add_validator T who p s) = Nominators s"
  "CounterForNominators (do_add_validator T who p s) = CounterForNominators s"
  "MaxNominatorsCount (do_add_validator T who p s) = MaxNominatorsCount s"
  "CurrentEra (do_add_validator T who p s) = CurrentEra s"
  "ActiveEra (do_add_validator T who p s) = ActiveEra s"
  "ErasStartSessionIndex (do_add_validator T who p s) = ErasStartSessionIndex s"
  "ErasStakers (do_add_validator T who p s) = ErasStakers s"
  "ErasStakersClipped (do_add_validator T who p s) = ErasStakersClipped s"
  "ErasValidatorPrefs (do_add_validator T who p s) = ErasValidatorPrefs s"
  "ErasValidatorReward (do_add_validator T who p s) = ErasValidatorReward s"
  "ErasRewardPoints (do_add_validator T who p s) = ErasRewardPoints s"
  "ErasTotalStake (do_add_validator T who p s) = ErasTotalStake s"
  "ForceEra (do_add_validator T who p s) = ForceEra s"
  "SlashRewardFraction (do_add_validator T who p s) = SlashRewardFraction s"
  "CanceledSlashPayout (do_add_validator T who p s) = CanceledSlashPayout s"
  "UnappliedSlashes (do_add_validator T who p s) = UnappliedSlashes s"
  "BondedEras (do_add_validator T who p s) = BondedEras s"
  "ValidatorSlashInEra (do_add_validator T who p s) = ValidatorSlashInEra s"
  "NominatorSlashInEra (do_add_validator T who p s) = NominatorSlashInEra s"
  "SlashingSpansOf (do_add_validator T who p s) = SlashingSpansOf s"
  "SpanSlash (do_add_validator T who p s) = SpanSlash s"
  "EarliestUnappliedSlash (do_add_validator T who p s) = EarliestUnappliedSlash s"
  "CurrentPlannedSession (do_add_validator T who p s) = CurrentPlannedSession s"
  "OffendingValidators (do_add_validator T who p s) = OffendingValidators s"
  "StorageVersion (do_add_validator T who p s) = StorageVersion s"
  "ChillThreshold (do_add_validator T who p s) = ChillThreshold s"
  "staking_events (do_add_validator T who p s) = staking_events s"
  by (simp_all add: do_add_validator_def Let_def)

lemma do_add_nominator_frame [simp]:
  "ErasNotClaimedReward (do_add_nominator T who n s) = ErasNotClaimedReward s"
  "HistoryDepth (do_add_nominator T who n s) = HistoryDepth s"
  "ValidatorCount (do_add_nominator T who n s) = ValidatorCount s"
  "MinimumValidatorCount (do_add_nominator T who n s) = MinimumValidatorCount s"
  "Invulnerables (do_add_nominator T who n s) = Invulnerables s"
  "Bonded (do_add_nominator T who n s) = Bonded s"
  "MinNominatorBond (do_add_nominator T who n s) = MinNominatorBond s"
  "MinValidatorBond (do_add_nominator T who n s) = MinValidatorBond s"
  "MinCommission (do_add_nominator T who n s) = MinCommission s"
  "Ledger (do_add_nominator T who n s) = Ledger s" "Payee (do_add_nominator T who n s) = Payee s"
  "Validators (do_add_nominator T who n s) = Validators s"
  "CounterForValidators (do_add_nominator T who n s) = CounterForValidators s"
  "MaxValidatorsCount (do_add_nominator T who n s) = MaxValidatorsCount s"
  "MaxNominatorsCount (do_add_nominator T who n s) = MaxNominatorsCount s"
  "CurrentEra (do_add_nominator T who n s) = CurrentEra s"
  "ActiveEra (do_add_nominator T who n s) = ActiveEra s"
  "ErasStartSessionIndex (do_add_nominator T who n s) = ErasStartSessionIndex s"
  "ErasStakers (do_add_nominator T who n s) = ErasStakers s"
  "ErasStakersClipped (do_add_nominator T who n s) = ErasStakersClipped s"
  "ErasValidatorPrefs (do_add_nominator T who n s) = ErasValidatorPrefs s"
  "ErasValidatorReward (do_add_nominator T who n s) = ErasValidatorReward s"
  "ErasRewardPoints (do_add_nominator T who n s) = ErasRewardPoints s"
  "ErasTotalStake (do_add_nominator T who n s) = ErasTotalStake s"
  "ForceEra (do_add_nominator T who n s) = ForceEra s"
  "SlashRewardFraction (do_add_nominator T who n s) = SlashRewardFraction s"
  "CanceledSlashPayout (do_add_nominator T who n s) = CanceledSlashPayout s"
  "UnappliedSlashes (do_add_nominator T who n s) = UnappliedSlashes s"
  "BondedEras (do_add_nominator T who n s) = BondedEras s"
  "ValidatorSlashInEra (do_add_nominator T who n s) = ValidatorSlashInEra s"
  "NominatorSlashInEra (do_add_nominator T who n s) = NominatorSlashInEra s"
  "SlashingSpansOf (do_add_nominator T who n s) = SlashingSpansOf s"
  "SpanSlash (do_add_nominator T who n s) = SpanSlash s"
  "EarliestUnappliedSlash (do_add_nominator T who n s) = EarliestUnappliedSlash s"
  "CurrentPlannedSession (do_add_nominator T who n s) = CurrentPlannedSession s"
  "OffendingValidators (do_add_nominator T who n s) = OffendingValidators s"
  "StorageVersion (do_add_nominator T who n s) = StorageVersion s"
  "ChillThreshold (do_add_nominator T who n s) = ChillThreshold s"
  "staking_events (do_add_nominator T who n s) = staking_events s"
  by (simp_all add: do_add_nominator_def Let_def)

lemma do_remove_validator_frame [simp]:
  "ErasNotClaimedReward (snd (do_remove_validator T who s)) = ErasNotClaimedReward s"
  "HistoryDepth (snd (do_remove_validator T who s)) = HistoryDepth s"
  "ValidatorCount (snd (do_remove_validator T who s)) = ValidatorCount s"
  "MinimumValidatorCount (snd (do_remove_validator T who s)) = MinimumValidatorCount s"
  "Invulnerables (snd (do_remove_validator T who s)) = Invulnerables s"
  "Bonded (snd (do_remove_validator T who s)) = Bonded s"
  "MinNominatorBond (snd (do_remove_validator T who s)) = MinNominatorBond s"
  "MinValidatorBond (snd (do_remove_validator T who s)) = MinValidatorBond s"
  "MinCommission (snd (do_remove_validator T who s)) = MinCommission s"
  "Ledger (snd (do_remove_validator T who s)) = Ledger s"
  "Payee (snd (do_remove_validator T who s)) = Payee s"
  "MaxValidatorsCount (snd (do_remove_validator T who s)) = MaxValidatorsCount s"
  "Nominators (snd (do_remove_validator T who s)) = Nominators s"
  "CounterForNominators (snd (do_remove_validator T who s)) = CounterForNominators s"
  "MaxNominatorsCount (snd (do_remove_validator T who s)) = MaxNominatorsCount s"
  "CurrentEra (snd (do_remove_validator T who s)) = CurrentEra s"
  "ActiveEra (snd (do_remove_validator T who s)) = ActiveEra s"
  "ErasStartSessionIndex (snd (do_remove_validator T who s)) = ErasStartSessionIndex s"
  "ErasStakers (snd (do_remove_validator T who s)) = ErasStakers s"
  "ErasStakersClipped (snd (do_remove_validator T who s)) = ErasStakersClipped s"
  "ErasValidatorPrefs (snd (do_remove_validator T who s)) = ErasValidatorPrefs s"
  "ErasValidatorReward (snd (do_remove_validator T who s)) = ErasValidatorReward s"
  "ErasRewardPoints (snd (do_remove_validator T who s)) = ErasRewardPoints s"
  "ErasTotalStake (snd (do_remove_validator T who s)) = ErasTotalStake s"
  "ForceEra (snd (do_remove_validator T who s)) = ForceEra s"
  "SlashRewardFraction (snd (do_remove_validator T who s)) = SlashRewardFraction s"
  "CanceledSlashPayout (snd (do_remove_validator T who s)) = CanceledSlashPayout s"
  "UnappliedSlashes (snd (do_remove_validator T who s)) = UnappliedSlashes s"
  "BondedEras (snd (do_remove_validator T who s)) = BondedEras s"
  "ValidatorSlashInEra (snd (do_remove_validator T who s)) = ValidatorSlashInEra s"
  "NominatorSlashInEra (snd (do_remove_validator T who s)) = NominatorSlashInEra s"
  "SlashingSpansOf (snd (do_remove_validator T who s)) = SlashingSpansOf s"
  "SpanSlash (snd (do_remove_validator T who s)) = SpanSlash s"
  "EarliestUnappliedSlash (snd (do_remove_validator T who s)) = EarliestUnappliedSlash s"
  "CurrentPlannedSession (snd (do_remove_validator T who s)) = CurrentPlannedSession s"
  "OffendingValidators (snd (do_remove_validator T who s)) = OffendingValidators s"
  "StorageVersion (snd (do_remove_validator T who s)) = StorageVersion s"
  "ChillThreshold (snd (do_remove_validator T who s)) = ChillThreshold s"
  "staking_events (snd (do_remove_validator T who s)) = staking_events s"
  by (simp_all add: do_remove_validator_def Let_def)

lemma do_remove_nominator_frame [simp]:
  "ErasNotClaimedReward (snd (do_remove_nominator T who s)) = ErasNotClaimedReward s"
  "HistoryDepth (snd (do_remove_nominator T who s)) = HistoryDepth s"
  "ValidatorCount (snd (do_remove_nominator T who s)) = ValidatorCount s"
  "MinimumValidatorCount (snd (do_remove_nominator T who s)) = MinimumValidatorCount s"
  "Invulnerables (snd (do_remove_nominator T who s)) = Invulnerables s"
  "Bonded (snd (do_remove_nominator T who s)) = Bonded s"
  "MinNominatorBond (snd (do_remove_nominator T who s)) = MinNominatorBond s"
  "MinValidatorBond (snd (do_remove_nominator T who s)) = MinValidatorBond s"
  "MinCommission (snd (do_remove_nominator T who s)) = MinCommission s"
  "Ledger (snd (do_remove_nominator T who s)) = Ledger s"
  "Payee (snd (do_remove_nominator T who s)) = Payee s"
  "Validators (snd (do_remove_nominator T who s)) = Validators s"
  "CounterForValidators (snd (do_remove_nominator T who s)) = CounterForValidators s"
  "MaxValidatorsCount (snd (do_remove_nominator T who s)) = MaxValidatorsCount s"
  "MaxNominatorsCount (snd (do_remove_nominator T who s)) = MaxNominatorsCount s"
  "CurrentEra (snd (do_remove_nominator T who s)) = CurrentEra s"
  "ActiveEra (snd (do_remove_nominator T who s)) = ActiveEra s"
  "ErasStartSessionIndex (snd (do_remove_nominator T who s)) = ErasStartSessionIndex s"
  "ErasStakers (snd (do_remove_nominator T who s)) = ErasStakers s"
  "ErasStakersClipped (snd (do_remove_nominator T who s)) = ErasStakersClipped s"
  "ErasValidatorPrefs (snd (do_remove_nominator T who s)) = ErasValidatorPrefs s"
  "ErasValidatorReward (snd (do_remove_nominator T who s)) = ErasValidatorReward s"
  "ErasRewardPoints (snd (do_remove_nominator T who s)) = ErasRewardPoints s"
  "ErasTotalStake (snd (do_remove_nominator T who s)) = ErasTotalStake s"
  "ForceEra (snd (do_remove_nominator T who s)) = ForceEra s"
  "SlashRewardFraction (snd (do_remove_nominator T who s)) = SlashRewardFraction s"
  "CanceledSlashPayout (snd (do_remove_nominator T who s)) = CanceledSlashPayout s"
  "UnappliedSlashes (snd (do_remove_nominator T who s)) = UnappliedSlashes s"
  "BondedEras (snd (do_remove_nominator T who s)) = BondedEras s"
  "ValidatorSlashInEra (snd (do_remove_nominator T who s)) = ValidatorSlashInEra s"
  "NominatorSlashInEra (snd (do_remove_nominator T who s)) = NominatorSlashInEra s"
  "SlashingSpansOf (snd (do_remove_nominator T who s)) = SlashingSpansOf s"
  "SpanSlash (snd (do_remove_nominator T who s)) = SpanSlash s"
  "EarliestUnappliedSlash (snd (do_remove_nominator T who s)) = EarliestUnappliedSlash s"
  "CurrentPlannedSession (snd (do_remove_nominator T who s)) = CurrentPlannedSession s"
  "OffendingValidators (snd (do_remove_nominator T who s)) = OffendingValidators s"
  "StorageVersion (snd (do_remove_nominator T who s)) = StorageVersion s"
  "ChillThreshold (snd (do_remove_nominator T who s)) = ChillThreshold s"
  "staking_events (snd (do_remove_nominator T who s)) = staking_events s"
  by (simp_all add: do_remove_nominator_def Let_def)

lemma chill_stash_frame [simp]:
  "ErasNotClaimedReward (chill_stash T who s) = ErasNotClaimedReward s"
  "HistoryDepth (chill_stash T who s) = HistoryDepth s"
  "ValidatorCount (chill_stash T who s) = ValidatorCount s"
  "MinimumValidatorCount (chill_stash T who s) = MinimumValidatorCount s"
  "Invulnerables (chill_stash T who s) = Invulnerables s"
  "Bonded (chill_stash T who s) = Bonded s"
  "MinNominatorBond (chill_stash T who s) = MinNominatorBond s"
  "MinValidatorBond (chill_stash T who s) = MinValidatorBond s"
  "MinCommission (chill_stash T who s) = MinCommission s"
  "Ledger (chill_stash T who s) = Ledger s" "Payee (chill_stash T who s) = Payee s"
  "MaxValidatorsCount (chill_stash T who s) = MaxValidatorsCount s"
  "MaxNominatorsCount (chill_stash T who s) = MaxNominatorsCount s"
  "CurrentEra (chill_stash T who s) = CurrentEra s"
  "ActiveEra (chill_stash T who s) = ActiveEra s"
  "ErasStartSessionIndex (chill_stash T who s) = ErasStartSessionIndex s"
  "ErasStakers (chill_stash T who s) = ErasStakers s"
  "ErasStakersClipped (chill_stash T who s) = ErasStakersClipped s"
  "ErasValidatorPrefs (chill_stash T who s) = ErasValidatorPrefs s"
  "ErasValidatorReward (chill_stash T who s) = ErasValidatorReward s"
  "ErasRewardPoints (chill_stash T who s) = ErasRewardPoints s"
  "ErasTotalStake (chill_stash T who s) = ErasTotalStake s"
  "ForceEra (chill_stash T who s) = ForceEra s"
  "SlashRewardFraction (chill_stash T who s) = SlashRewardFraction s"
  "CanceledSlashPayout (chill_stash T who s) = CanceledSlashPayout s"
  "UnappliedSlashes (chill_stash T who s) = UnappliedSlashes s"
  "BondedEras (chill_stash T who s) = BondedEras s"
  "ValidatorSlashInEra (chill_stash T who s) = ValidatorSlashInEra s"
  "NominatorSlashInEra (chill_stash T who s) = NominatorSlashInEra s"
  "SlashingSpansOf (chill_stash T who s) = SlashingSpansOf s"
  "SpanSlash (chill_stash T who s) = SpanSlash s"
  "EarliestUnappliedSlash (chill_stash T who s) = EarliestUnappliedSlash s"
  "CurrentPlannedSession (chill_stash T who s) = CurrentPlannedSession s"
  "OffendingValidators (chill_stash T who s) = OffendingValidators s"
  "StorageVersion (chill_stash T who s) = StorageVersion s"
  "ChillThreshold (chill_stash T who s) = ChillThreshold s"
  by (simp_all add: chill_stash_eq Let_def)

lemma ensure_new_era_frame [simp]:
  "ErasNotClaimedReward (ensure_new_era s) = ErasNotClaimedReward s"
  "HistoryDepth (ensure_new_era s) = HistoryDepth s"
  "ValidatorCount (ensure_new_era s) = ValidatorCount s"
  "MinimumValidatorCount (ensure_new_era s) = MinimumValidatorCount s"
  "Invulnerables (ensure_new_era s) = Invulnerables s" "Bonded (ensure_new_era s) = Bonded s"
  "MinNominatorBond (ensure_new_era s) = MinNominatorBond s"
  "MinValidatorBond (ensure_new_era s) = MinValidatorBond s"
  "MinCommission (ensure_new_era s) = MinCommission s" "Ledger (ensure_new_era s) = Ledger s"
  "Payee (ensure_new_era s) = Payee s" "Validators (ensure_new_era s) = Validators s"
  "CounterForValidators (ensure_new_era s) = CounterForValidators s"
  "MaxValidatorsCount (ensure_new_era s) = MaxValidatorsCount s"
  "Nominators (ensure_new_era s) = Nominators s"
  "CounterForNominators (ensure_new_era s) = CounterForNominators s"
  "MaxNominatorsCount (ensure_new_era s) = MaxNominatorsCount s"
  "CurrentEra (ensure_new_era s) = CurrentEra s" "ActiveEra (ensure_new_era s) = ActiveEra s"
  "ErasStartSessionIndex (ensure_new_era s) = ErasStartSessionIndex s"
  "ErasStakers (ensure_new_era s) = ErasStakers s"
  "ErasStakersClipped (ensure_new_era s) = ErasStakersClipped s"
  "ErasValidatorPrefs (ensure_new_era s) = ErasValidatorPrefs s"
  "ErasValidatorReward (ensure_new_era s) = ErasValidatorReward s"
  "ErasRewardPoints (ensure_new_era s) = ErasRewardPoints s"
  "ErasTotalStake (ensure_new_era s) = ErasTotalStake s"
  "SlashRewardFraction (ensure_new_era s) = SlashRewardFraction s"
  "CanceledSlashPayout (ensure_new_era s) = CanceledSlashPayout s"
  "UnappliedSlashes (ensure_new_era s) = UnappliedSlashes s"
  "BondedEras (ensure_new_era s) = BondedEras s"
  "ValidatorSlashInEra (ensure_new_era s) = ValidatorSlashInEra s"
  "NominatorSlashInEra (ensure_new_era s) = NominatorSlashInEra s"
  "SlashingSpansOf (ensure_new_era s) = SlashingSpansOf s"
  "SpanSlash (ensure_new_era s) = SpanSlash s"
  "EarliestUnappliedSlash (ensure_new_era s) = EarliestUnappliedSlash s"
  "CurrentPlannedSession (ensure_new_era s) = CurrentPlannedSession s"
  "OffendingValidators (ensure_new_era s) = OffendingValidators s"
  "StorageVersion (ensure_new_era s) = StorageVersion s"
  "ChillThreshold (ensure_new_era s) = ChillThreshold s"
  "staking_events (ensure_new_era s) = staking_events s" "world (ensure_new_era s) = world s"
  by (cases "ForceEra s"; simp add: ensure_new_era_def)+

end
