(* ===== verification/Bank_Sample.thy ===== *)
theory Bank_Sample
  imports Interfaces
begin

section \<open>A small bank: an instance of the currency\<close>

text \<open>A state of balances per account, and a currency over it: the concrete services the witnesses of
  the pallets run on.\<close>

type_synonym bank = "AccountId \<Rightarrow> Balance"

definition sample_currency :: "bank currency" where
  "sample_currency =
     \<lparr>cur_minimum_balance = 5,
      cur_total_issuance = (\<lambda>w. 1000000),
      cur_free_balance = (\<lambda>w a. w a),
      cur_total_balance = (\<lambda>w a. w a),
      cur_deposit_creating = (\<lambda>a x w. (x, w(a := w a + x))),
      cur_deposit_into_existing =
        (\<lambda>a x w. if w a = 0 then (None, w) else (Some x, w(a := w a + x))),
      cur_resolve_creating = (\<lambda>a x w. w(a := w a + x)),
      cur_withdraw = (\<lambda>a x er w. if x \<le> w a then (Some x, w(a := w a - x)) else (None, w)),
      cur_settle = (\<lambda>a x er w. if x \<le> w a then (True, w(a := w a - x)) else (False, w)),
      cur_slash = (\<lambda>a x w. ((min x (w a), x - min x (w a)), w(a := w a - x))),
      cur_transfer =
        (\<lambda>a b x er w. if x \<le> w a then (True, (w(a := w a - x))(b := (w(a := w a - x)) b + x))
           else (False, w)),
      cur_make_free_balance_be = (\<lambda>a x w. w(a := x)),
      cur_set_lock = (\<lambda>a x w. w),
      cur_remove_lock = (\<lambda>a w. w),
      cur_drop_positive = (\<lambda>x w. w),
      cur_drop_negative = (\<lambda>x w. w),
      cur_split = (\<lambda>a x. (min a x, a - min a x)),
      cur_subsume = sat_add_u128\<rparr>"

text \<open>The same bank with an existential deposit: an account left with less than five is reaped, and a transfer
  that would leave the receiver with less is refused.\<close>

definition reaping_currency :: "bank currency" where
  "reaping_currency = sample_currency
     \<lparr>cur_slash := (\<lambda>a x w. ((min x (w a), x - min x (w a)), w(a := (if w a - x < 5 then 0 else w a - x)))),
      cur_transfer := (\<lambda>a b x er w.
        let rest = w a - x
        in if w a < x \<or> rest < 5 \<and> er = KeepAlive \<or> w b + x < 5 then (False, w)
           else if a = b then (True, w)
           else (True, w(a := (if rest < 5 then 0 else rest), b := w b + x)))\<rparr>"

lemma reaping_slash_law: "slash_law reaping_currency" "lock_law reaping_currency"
  by (auto simp: slash_law_def lock_law_def takes_only_def reaping_currency_def sample_currency_def min_def)

end
