(* ===== verification/Staking_Samples.thy ===== *)
theory Staking_Samples
  imports Staking_Frames Bank_Sample
begin

section \<open>A concrete runtime for the witnesses\<close>

text \<open>
  The services the staking pallet is generic over, instantiated by a small ledger of free balances.
  The theorems of the development do not depend on it: it shows that their hypotheses can hold.
\<close>

definition sample_config ::
  "'w currency \<Rightarrow> (Balance \<Rightarrow> 'w \<Rightarrow> 'w) \<Rightarrow> ('w \<Rightarrow> 'w) \<Rightarrow> 'w staking_config" where
  "sample_config C slash_handler wallet =
     \<lparr>T_currency = C,
      T_perthings = sample_perthings,
      T_now_millis = (\<lambda>w. 6000),
      T_to_vote = (\<lambda>b issuance. b),
      T_to_currency = (\<lambda>v issuance. v),
      T_elect = (\<lambda>s. (Some [(10, [(10, 100), (20, 50)]), (11, [(11, 100)])], world s)),
      T_elect_genesis = (\<lambda>s. (Some [(10, [(10, 100)])], world s)),
      T_MaxNominations = 16,
      T_slash_on_unbalanced = slash_handler,
      T_SessionsPerEra = 6,
      T_BondingDuration = 28,
      T_SlashDeferDuration = 27,
      T_slash_cancel_origin = (\<lambda>o1. o1 = Root),
      T_session_validators = (\<lambda>w. [10, 11, 12]),
      T_disable_validator = (\<lambda>i w. w),
      T_prune_historical_up_to = (\<lambda>i w. w),
      T_estimate_next_new_session = (\<lambda>w now. Some (now + 100)),
      T_average_session_length = (\<lambda>w. 600),
      T_MaxNominatorRewardedPerValidator = 64,
      T_OffendingValidatorsThreshold = 170000000,
      T_voter_list_contains = (\<lambda>s a. Nominators s a \<noteq> None \<or> Validators s a \<noteq> None),
      T_voter_list_count = (\<lambda>s. CounterForNominators s + CounterForValidators s),
      T_voter_list_iter = (\<lambda>s. [10, 11, 20]),
      T_voter_list_on_insert = (\<lambda>a v s. world s),
      T_voter_list_on_update = (\<lambda>a v s. world s),
      T_voter_list_on_remove = (\<lambda>a s. world s),
      T_on_staker_slash = (\<lambda>a x m w. w),
      T_trigger_wallet = wallet,
      T_lookup = (\<lambda>a. Some a),
      T_unlookup = (\<lambda>a. a),
      T_inc_consumers = (\<lambda>a w. (True, w)),
      T_dec_consumers = (\<lambda>a w. w),
      T_fund_account = 99,
      T_block_author = (\<lambda>w. Some 10),
      T_iter_validators = (\<lambda>m. [10]),
      T_iter_nominators = (\<lambda>m. [20]),
      T_iter_spans = (\<lambda>m. []),
      T_weight_payout_stakers_alive_staked = (\<lambda>n. 100 + n),
      T_weight_withdraw_unbonded_update = (\<lambda>n. 100 + n),
      T_weight_rebond = (\<lambda>n. 100 + n),
      T_weight_get_npos_voters = (\<lambda>a b c. 100),
      T_weight_get_npos_targets = (\<lambda>a. 100),
      T_db_weight_reads_writes = (\<lambda>r w. 25 * r + 100 * w),
      T_register_weight = (\<lambda>x w. w)\<rparr>"

definition sample_T :: "bank staking_config" where
  "sample_T = sample_config sample_currency (\<lambda>x w. w(0 := w 0 + x)) (\<lambda>w. w)"

definition sample_bank :: bank where
  "sample_bank = (\<lambda>a. if a = 99 then 500000000000000000 else 1000)"

text \<open>Stash 10 with controller 110, validating; stash 20 with controller 120, nominating it.\<close>

definition sample_staking :: "bank staking" where
  "sample_staking =
     (staking_default sample_bank)
       \<lparr>Bonded := [10 \<mapsto> 110, 20 \<mapsto> 120],
        Ledger := [110 \<mapsto> \<lparr>sl_stash = 10, sl_total = 100, sl_active = 100, sl_unlocking = [],
                           sl_claimed_rewards = []\<rparr>,
                   120 \<mapsto> \<lparr>sl_stash = 20, sl_total = 80, sl_active = 50,
                           sl_unlocking = [\<lparr>uc_value = 30, uc_era = 5\<rparr>],
                           sl_claimed_rewards = []\<rparr>],
        Validators := [10 \<mapsto> \<lparr>vp_commission = 100000000, vp_blocked = False\<rparr>],
        CounterForValidators := 1,
        Nominators := [20 \<mapsto> \<lparr>nom_targets = [10], nom_submitted_in = 0, nom_suppressed = False\<rparr>],
        CounterForNominators := 1,
        CurrentEra := Some 3,
        ActiveEra := Some \<lparr>ae_index = 3, ae_start = Some 0\<rparr>\<rparr>"

lemma sample_imbalance_laws: "imbalance_laws (T_currency sample_T)"
  by (simp add: imbalance_laws_def sample_T_def sample_config_def sample_currency_def width_simps)

end
