(* ===== verification/Slashing.thy ===== *)
theory Slashing
  imports Staking_Samples
begin

section \<open>Slashing (\<^verbatim>\<open>frame/staking/src/slashing.rs\<close>, the operations)\<close>

text \<open>
  Computing a slash from an offence, and applying it. \<open>InspectingSpans\<close> is the guard object of
  the source: its two \<^verbatim>\<open>&mut\<close> accumulators are fields of the record, and its destructor is the
  operation \<open>inspecting_drop\<close>, called where the object goes out of scope.

  The lemmas show that within a span a stash is slashed the maximum over the eras of the span
  and not the sum, what a report does that is a new maximum for the era, that is not, or that is worth
  nothing, that the list of offending validators stays sorted without repetition, that a slash is
  removed from the ledger and, less what the currency reports missing, from the balance by the same
  amount, and that paying the reporters conserves the slashed value.
\<close>

subsection \<open>Data\<close>

record SlashParams =
  pm_stash :: AccountId
  pm_slash :: Perbill
  pm_exposure :: Exposure
  pm_slash_era :: EraIndex
  pm_window_start :: EraIndex
  pm_now :: EraIndex
  pm_reward_proportion :: Perbill
  pm_disable_strategy :: DisableStrategy

record InspectingSpans =
  is_dirty :: bool
  is_window_start :: EraIndex
  is_stash :: AccountId
  is_spans :: SlashingSpans
  is_paid_out :: Balance
  is_slash_of :: Balance
  is_reward_proportion :: Perbill

text \<open>\<^verbatim>\<open>REWARD_F1\<close> is fifty percent.\<close>

definition REWARD_F1 :: Perbill where
  "REWARD_F1 = 500000000"

subsection \<open>Inspecting the spans of a stash\<close>

definition fetch_spans ::
  "AccountId \<Rightarrow> EraIndex \<Rightarrow> Balance \<Rightarrow> Balance \<Rightarrow> Perbill \<Rightarrow> 'w staking \<Rightarrow> InspectingSpans \<times> 'w staking" where
  "fetch_spans stash window_start paid_out slash_of reward_proportion s =
     (let (spans, s') =
            (case SlashingSpansOf s stash of
               Some spans \<Rightarrow> (spans, s)
             | None \<Rightarrow>
                 (let spans = spans_new window_start
                  in (spans, s\<lparr>SlashingSpansOf := (SlashingSpansOf s)(stash \<mapsto> spans)\<rparr>)))
      in (\<lparr>is_dirty = False, is_window_start = window_start, is_stash = stash, is_spans = spans,
           is_paid_out = paid_out, is_slash_of = slash_of, is_reward_proportion = reward_proportion\<rparr>, s'))"

definition inspecting_end_span :: "EraIndex \<Rightarrow> InspectingSpans \<Rightarrow> InspectingSpans" where
  "inspecting_end_span now i =
     (case end_span (is_spans i) now of
        (spans, started) \<Rightarrow> i\<lparr>is_spans := spans, is_dirty := started \<or> is_dirty i\<rparr>)"

definition add_slash :: "Balance \<Rightarrow> EraIndex \<Rightarrow> InspectingSpans \<Rightarrow> InspectingSpans" where
  "add_slash amount slash_era i =
     i\<lparr>is_slash_of := add_u128 (is_slash_of i) amount,
       is_spans := (is_spans i)\<lparr>ss_last_nonzero_slash :=
                      max (ss_last_nonzero_slash (is_spans i)) slash_era\<rparr>\<rparr>"

definition span_reward :: "perthings \<Rightarrow> InspectingSpans \<Rightarrow> Balance \<Rightarrow> SpanRecord \<Rightarrow> Balance" where
  "span_reward P i slash r =
     perbill_mul P REWARD_F1 (perbill_mul P (is_reward_proportion i) slash - sr_paid_out r)"

definition compare_and_update_span_slash ::
  "perthings \<Rightarrow> EraIndex \<Rightarrow> Balance \<Rightarrow> InspectingSpans \<Rightarrow> 'w staking \<Rightarrow>
     SpanIndex option \<times> InspectingSpans \<times> 'w staking" where
  "compare_and_update_span_slash P slash_era slash i s =
     (case era_span (is_spans i) slash_era of
        None \<Rightarrow> (None, i, s)
      | Some target_span \<Rightarrow>
          (let key = (is_stash i, sp_index target_span);
               r0 = span_slash s key;
               (reward, r1, i1, changed) =
                 (if sr_slashed r0 < slash
                  then (span_reward P i slash r0, r0\<lparr>sr_slashed := slash\<rparr>,
                        add_slash (sub_u128 slash (sr_slashed r0)) slash_era i, True)
                  else if sr_slashed r0 = slash then (span_reward P i slash r0, r0, i, False)
                  else (0, r0, i, False));
               (r2, i2, changed2) =
                 (if reward \<noteq> 0
                  then (r1\<lparr>sr_paid_out := add_u128 (sr_paid_out r1) reward\<rparr>,
                        i1\<lparr>is_paid_out := add_u128 (is_paid_out i1) reward\<rparr>, True)
                  else (r1, i1, changed))
           in if changed2
              then (Some (sp_index target_span), i2\<lparr>is_dirty := True\<rparr>,
                    s\<lparr>SpanSlash := (SpanSlash s)(key \<mapsto> r2)\<rparr>)
              else (Some (sp_index target_span), i2, s)))"

text \<open>Removing the records of a range of spans of a stash.\<close>

definition remove_span_slashes :: "AccountId \<Rightarrow> SpanIndex list \<Rightarrow> 'w staking \<Rightarrow> 'w staking" where
  "remove_span_slashes stash idxs s =
     s\<lparr>SpanSlash := foldl (\<lambda>m i. m((stash, i) := None)) (SpanSlash s) idxs\<rparr>"

definition inspecting_drop :: "InspectingSpans \<Rightarrow> 'w staking \<Rightarrow> 'w staking" where
  "inspecting_drop i s =
     (if \<not> is_dirty i then s
      else
        (case prune (is_spans i) (is_window_start i) of
           (spans, pruned) \<Rightarrow>
             (let s1 = (case pruned of
                          Some (start, end') \<Rightarrow> remove_span_slashes (is_stash i) [start..<end'] s
                        | None \<Rightarrow> s)
              in s1\<lparr>SlashingSpansOf := (SlashingSpansOf s1)(is_stash i \<mapsto> spans)\<rparr>)))"

subsection \<open>Offending validators\<close>

text \<open>\<open>Inl\<close> the position found, \<open>Inr\<close> the position to insert at.\<close>

definition search_offending :: "(u32 \<times> bool) list \<Rightarrow> u32 \<Rightarrow> nat + nat" where
  "search_offending offending k =
     (let pos = search_pos (map fst offending) k
      in if pos < length offending \<and> fst (offending ! pos) = k then Inl pos else Inr pos)"

definition add_offending_validator ::
  "'w staking_config \<Rightarrow> AccountId \<Rightarrow> bool \<Rightarrow> 'w staking \<Rightarrow> 'w staking" where
  "add_offending_validator T stash disable s =
     (let validators = T_session_validators T (world s)
      in case position (\<lambda>i. i = stash) validators of
           None \<Rightarrow> s
         | Some validator_index \<Rightarrow>
             (let offending = OffendingValidators s
              in case search_offending offending validator_index of
                   Inr index \<Rightarrow>
                     (let offending' = insert_at index (validator_index, disable) offending;
                          offending_threshold =
                            perbill_mul (T_perthings T) (T_OffendingValidatorsThreshold T)
                              (length validators);
                          s1 = (if length offending' \<ge> offending_threshold then ensure_new_era s else s);
                          s2 = (if disable
                                then set_world (T_disable_validator T validator_index (world s1)) s1
                                else s1)
                      in s2\<lparr>OffendingValidators := offending'\<rparr>)
                 | Inl index \<Rightarrow>
                     (if disable \<and> \<not> snd (offending ! index)
                      then (set_world (T_disable_validator T validator_index (world s)) s)
                             \<lparr>OffendingValidators := offending[index := (fst (offending ! index), True)]\<rparr>
                      else s)))"

subsection \<open>Computing a slash\<close>

definition kick_out_if_recent :: "'w staking_config \<Rightarrow> SlashParams \<Rightarrow> 'w staking \<Rightarrow> 'w staking" where
  "kick_out_if_recent T params s =
     (case fetch_spans (pm_stash params) (pm_window_start params) 0 0 (pm_reward_proportion params) s of
        (spans, s1) \<Rightarrow>
          (let (spans', s2) =
                 (if map_option sp_index (era_span (is_spans spans) (pm_slash_era params))
                       = Some (ss_span_index (is_spans spans))
                  then (inspecting_end_span (pm_now params) spans, chill_stash T (pm_stash params) s1)
                  else (spans, s1));
               disable_without_slash = (pm_disable_strategy params = Always);
               s3 = add_offending_validator T (pm_stash params) disable_without_slash s2
           in inspecting_drop spans' s3))"

text \<open>
  The inner block of \<^verbatim>\<open>slash_nominators\<close> and the one of \<^verbatim>\<open>compute_slash\<close> that compare a slash
  with the span of the stash. The result is the reward paid out so far, the amount slashed, and
  whether the offence is in the ongoing span, which the block has ended.
\<close>

definition slash_in_span ::
  "'w staking_config \<Rightarrow> SlashParams \<Rightarrow> AccountId \<Rightarrow> Balance \<Rightarrow> Balance \<Rightarrow> bool \<Rightarrow> 'w staking \<Rightarrow>
     Balance \<times> Balance \<times> 'w staking" where
  "slash_in_span T params stash slash reward_payout chill s =
     (case fetch_spans stash (pm_window_start params) reward_payout 0 (pm_reward_proportion params) s of
        (spans, s1) \<Rightarrow>
      case compare_and_update_span_slash (T_perthings T) (pm_slash_era params) slash spans s1 of
        (target_span, spans1, s2) \<Rightarrow>
          (let (spans2, s3) =
                 (if target_span = Some (ss_span_index (is_spans spans1))
                  then (inspecting_end_span (pm_now params) spans1,
                        if chill then chill_stash T stash s2 else s2)
                  else (spans1, s2))
           in (is_paid_out spans2, is_slash_of spans2, inspecting_drop spans2 s3)))"

fun slash_nominators_loop ::
  "'w staking_config \<Rightarrow> SlashParams \<Rightarrow> Perbill \<Rightarrow> IndividualExposure list \<Rightarrow> Balance \<Rightarrow>
     (AccountId \<times> Balance) list \<Rightarrow> 'w staking \<Rightarrow> Balance \<times> (AccountId \<times> Balance) list \<times> 'w staking" where
  "slash_nominators_loop T params prior [] reward_payout nominators_slashed s =
     (reward_payout, nominators_slashed, s)"
| "slash_nominators_loop T params prior (nominator # rest) reward_payout nominators_slashed s =
     (let stash = ie_who nominator;
          own_slash_prior = perbill_mul (T_perthings T) prior (ie_value nominator);
          own_slash_by_validator = perbill_mul (T_perthings T) (pm_slash params) (ie_value nominator);
          own_slash_difference = own_slash_by_validator - own_slash_prior;
          era_slash0 = (case NominatorSlashInEra s (pm_slash_era params) stash of
                          None \<Rightarrow> 0 | Some v \<Rightarrow> v);
          era_slash = add_u128 era_slash0 own_slash_difference;
          s1 = s\<lparr>NominatorSlashInEra := (NominatorSlashInEra s)
                   (pm_slash_era params :=
                      (NominatorSlashInEra s (pm_slash_era params))(stash \<mapsto> era_slash))\<rparr>
      in case slash_in_span T params stash era_slash reward_payout False s1 of
           (reward_payout', nom_slashed, s2) \<Rightarrow>
             slash_nominators_loop T params prior rest reward_payout'
               (nominators_slashed @ [(stash, nom_slashed)]) s2)"

definition slash_nominators ::
  "'w staking_config \<Rightarrow> SlashParams \<Rightarrow> Perbill \<Rightarrow> 'w staking \<Rightarrow>
     Balance \<times> (AccountId \<times> Balance) list \<times> 'w staking" where
  "slash_nominators T params prior s =
     slash_nominators_loop T params prior (ex_others (pm_exposure params)) 0 [] s"

text \<open>The proportion already slashed for the era of the offence.\<close>

definition prior_slash_p :: "SlashParams \<Rightarrow> 'w staking \<Rightarrow> Perbill" where
  "prior_slash_p params s =
     (case ValidatorSlashInEra s (pm_slash_era params) (pm_stash params) of
        None \<Rightarrow> 0 | Some (p, _) \<Rightarrow> p)"

definition compute_slash ::
  "'w staking_config \<Rightarrow> SlashParams \<Rightarrow> 'w staking \<Rightarrow> UnappliedSlash option \<times> 'w staking" where
  "compute_slash T params s =
     (let P = T_perthings T;
          stash = pm_stash params;
          era = pm_slash_era params;
          own_slash = perbill_mul P (pm_slash params) (ex_own (pm_exposure params))
      in if perbill_mul P (pm_slash params) (ex_total (pm_exposure params)) = 0
         then (None, kick_out_if_recent T params s)
         else
           (let prior = prior_slash_p params s
            in if \<not> pm_slash params > prior then (None, s)
               else
                 (let s1 = s\<lparr>ValidatorSlashInEra := (ValidatorSlashInEra s)
                            (era := (ValidatorSlashInEra s era)
                                      (stash \<mapsto> (pm_slash params, own_slash)))\<rparr>
                  in case slash_in_span T params stash own_slash 0 True s1 of
                       (reward_payout, val_slashed, s2) \<Rightarrow>
                         (let disable_when_slashed = (pm_disable_strategy params \<noteq> Never);
                              s3 = add_offending_validator T stash disable_when_slashed s2
                          in case slash_nominators T params prior s3 of
                               (nominators_payout, nominators_slashed, s4) \<Rightarrow>
                                 (Some \<lparr>us_validator = stash, us_own = val_slashed,
                                        us_others = nominators_slashed, us_reporters = [],
                                        us_payout = add_u128 reward_payout nominators_payout\<rparr>, s4)))))"

subsection \<open>Metadata\<close>

definition clear_era_metadata :: "EraIndex \<Rightarrow> 'w staking \<Rightarrow> 'w staking" where
  "clear_era_metadata obsolete_era s =
     s\<lparr>ValidatorSlashInEra := (ValidatorSlashInEra s)(obsolete_era := Map.empty),
       NominatorSlashInEra := (NominatorSlashInEra s)(obsolete_era := Map.empty)\<rparr>"

definition clear_stash_metadata ::
  "AccountId \<Rightarrow> u32 \<Rightarrow> 'w staking \<Rightarrow> (staking_error + unit) \<times> 'w staking" where
  "clear_stash_metadata stash num_slashing_spans s =
     (case SlashingSpansOf s stash of
        None \<Rightarrow> (Inr (), s)
      | Some spans \<Rightarrow>
          (if \<not> num_slashing_spans \<ge> length (spans_iter spans)
           then (Inl IncorrectSlashingSpans, s)
           else (let s1 = s\<lparr>SlashingSpansOf := (SlashingSpansOf s)(stash := None)\<rparr>
                 in (Inr (), remove_span_slashes stash (map sp_index (spans_iter spans)) s1))))"

subsection \<open>Applying a slash\<close>

text \<open>The result is the reward payout left, the imbalance collected and the state.\<close>

definition do_slash ::
  "'w staking_config \<Rightarrow> AccountId \<Rightarrow> Balance \<Rightarrow> Balance \<Rightarrow> Balance \<Rightarrow> EraIndex \<Rightarrow> 'w staking \<Rightarrow>
     Balance \<times> Balance \<times> 'w staking" where
  "do_slash T stash value reward_payout slashed_imbalance slash_era s =
     (case Bonded s stash of
        None \<Rightarrow> (reward_payout, slashed_imbalance, s)
      | Some controller \<Rightarrow>
     (case Ledger s controller of
        None \<Rightarrow> (reward_payout, slashed_imbalance, s)
      | Some l \<Rightarrow>
     (case ledger_slash (T_perthings T) (T_BondingDuration T) (T_on_staker_slash T) l value
             (cur_minimum_balance (T_currency T)) slash_era (world s) of
        (value', l', w1) \<Rightarrow>
          (let s1 = set_world w1 s
           in if value' = 0 then (reward_payout, slashed_imbalance, s1)
              else
                (case cur_slash (T_currency T) stash value' (world s1) of
                   ((imbalance, missing), w2) \<Rightarrow>
                     (let s2 = set_world w2 s1;
                          slashed_imbalance' = cur_subsume (T_currency T) slashed_imbalance imbalance;
                          reward_payout' =
                            (if missing \<noteq> 0 then reward_payout - missing else reward_payout);
                          s3 = update_ledger T controller l' s2
                      in (reward_payout', slashed_imbalance',
                          deposit_event (Slashed stash value') s3)))))))"

fun pay_reporters_loop ::
  "'w currency \<Rightarrow> Balance \<Rightarrow> AccountId list \<Rightarrow> Balance \<Rightarrow> 'w \<Rightarrow> Balance \<times> 'w" where
  "pay_reporters_loop C per_reporter [] reward_payout w = (reward_payout, w)"
| "pay_reporters_loop C per_reporter (reporter # reporters) reward_payout w =
     (case cur_split C reward_payout per_reporter of
        (reporter_reward, rest) \<Rightarrow>
          pay_reporters_loop C per_reporter reporters rest
            (cur_resolve_creating C reporter reporter_reward w))"

definition pay_reporters ::
  "'w staking_config \<Rightarrow> Balance \<Rightarrow> Balance \<Rightarrow> AccountId list \<Rightarrow> 'w \<Rightarrow> 'w" where
  "pay_reporters T reward_payout slashed_imbalance reporters w =
     (if reward_payout = 0 \<or> reporters = [] then T_slash_on_unbalanced T slashed_imbalance w
      else
        (let C = T_currency T;
             reward_payout1 = min reward_payout slashed_imbalance;
             (reward_payout2, value_slashed) = cur_split C slashed_imbalance reward_payout1;
             per_reporter = reward_payout2 div length reporters;
             (reward_payout3, w1) = pay_reporters_loop C per_reporter reporters reward_payout2 w
         in T_slash_on_unbalanced T (cur_subsume C value_slashed reward_payout3) w1))"

fun do_slash_others ::
  "'w staking_config \<Rightarrow> (AccountId \<times> Balance) list \<Rightarrow> Balance \<Rightarrow> Balance \<Rightarrow> EraIndex \<Rightarrow> 'w staking \<Rightarrow>
     Balance \<times> Balance \<times> 'w staking" where
  "do_slash_others T [] reward_payout slashed_imbalance slash_era s =
     (reward_payout, slashed_imbalance, s)"
| "do_slash_others T ((nominator, nominator_slash) # others) reward_payout slashed_imbalance slash_era s =
     (case do_slash T nominator nominator_slash reward_payout slashed_imbalance slash_era s of
        (reward_payout', slashed_imbalance', s') \<Rightarrow>
          do_slash_others T others reward_payout' slashed_imbalance' slash_era s')"

definition apply_slash ::
  "'w staking_config \<Rightarrow> UnappliedSlash \<Rightarrow> EraIndex \<Rightarrow> 'w staking \<Rightarrow> 'w staking" where
  "apply_slash T unapplied slash_era s =
     (case do_slash T (us_validator unapplied) (us_own unapplied) (us_payout unapplied) 0 slash_era s of
        (reward_payout1, imbalance1, s1) \<Rightarrow>
      case do_slash_others T (us_others unapplied) reward_payout1 imbalance1 slash_era s1 of
        (reward_payout2, imbalance2, s2) \<Rightarrow>
          set_world (pay_reporters T reward_payout2 imbalance2 (us_reporters unapplied) (world s2)) s2)"

subsection \<open>Lemmas: offending validators\<close>

definition offending_sorted :: "'w staking \<Rightarrow> bool" where
  "offending_sorted s \<longleftrightarrow> sorted_wrt (<) (map fst (OffendingValidators s))"

lemma search_pos_le: "search_pos xs k \<le> length xs"
  by (simp add: search_pos_def length_takeWhile_le)

lemma search_pos_present:
  assumes "sorted_wrt (<) xs" and "k \<in> set xs"
  shows "search_pos xs k < length xs \<and> xs ! search_pos xs k = k"
  using assms
proof (induction xs)
  case Nil
  then show ?case by simp
next
  case (Cons x xs)
  then show ?case by (cases "x < k") (auto simp: search_pos_def)
qed

lemma search_offending_Inr:
  assumes "sorted_wrt (<) (map fst off)" and "search_offending off k = Inr pos"
  shows "k \<notin> fst ` set off" and "pos = search_pos (map fst off) k"
proof -
  show "pos = search_pos (map fst off) k"
    using assms(2) by (auto simp: search_offending_def Let_def split: if_splits)
  show "k \<notin> fst ` set off"
  proof
    assume k: "k \<in> fst ` set off"
    then have "search_pos (map fst off) k < length off" "map fst off ! search_pos (map fst off) k = k"
      using search_pos_present [OF assms(1), of k] by simp_all
    then have "search_pos (map fst off) k < length off" "fst (off ! search_pos (map fst off) k) = k"
      by simp_all
    with assms(2) show False by (simp add: search_offending_def Let_def)
  qed
qed

lemma map_insert_at: "map f (insert_at i x xs) = insert_at i (f x) (map f xs)"
  by (simp add: insert_at_def take_map drop_map)

lemma add_offending_validator_cases:
  assumes "offending_sorted s"
  obtains (absent) "position (\<lambda>i. i = stash) (T_session_validators T (world s)) = None"
      "add_offending_validator T stash disable s = s"
  | (fresh) v where "position (\<lambda>i. i = stash) (T_session_validators T (world s)) = Some v"
      "v \<notin> fst ` set (OffendingValidators s)"
      "OffendingValidators (add_offending_validator T stash disable s) =
         insert_at (search_pos (map fst (OffendingValidators s)) v) (v, disable) (OffendingValidators s)"
  | (known) v i where "position (\<lambda>i. i = stash) (T_session_validators T (world s)) = Some v"
      "i < length (OffendingValidators s)" "fst (OffendingValidators s ! i) = v"
      "OffendingValidators (add_offending_validator T stash disable s) =
         (OffendingValidators s)[i := (v, disable \<or> snd (OffendingValidators s ! i))]"
proof (cases "position (\<lambda>i. i = stash) (T_session_validators T (world s))")
  case None
  then show thesis by (intro absent) (simp_all add: add_offending_validator_def)
next
  case (Some v)
  show thesis
  proof (cases "search_offending (OffendingValidators s) v")
    case (Inr pos)
    with Some search_offending_Inr [OF _ Inr] assms show thesis
      by (intro fresh) (simp_all add: add_offending_validator_def offending_sorted_def Let_def)
  next
    case (Inl i)
    then have i: "i < length (OffendingValidators s)" "fst (OffendingValidators s ! i) = v"
      by (auto simp: search_offending_def Let_def split: if_splits)
    have "(OffendingValidators s)[i := (v, snd (OffendingValidators s ! i))] = OffendingValidators s"
      using i by (metis list_update_id prod.collapse)
    with Some Inl i show thesis
      by (intro known) (auto simp: add_offending_validator_def Let_def)
  qed
qed

lemma offending_sorted_add [step_intros]:
  assumes "offending_sorted s"
  shows "offending_sorted (add_offending_validator T stash disable s)"
  using assms
proof (cases rule: add_offending_validator_cases [where stash = stash and T = T and disable = disable])
  case absent
  with assms show ?thesis by simp
next
  case (fresh v)
  with assms show ?thesis
    using sorted_insert_search_pos [of "map fst (OffendingValidators s)" v]
    by (simp add: offending_sorted_def map_insert_at)
next
  case (known v i)
  have "map fst ((OffendingValidators s)[i := (v, b)]) = map fst (OffendingValidators s)" for b
    using known by (simp add: map_update list_update_same_conv)
  with known assms show ?thesis by (simp add: offending_sorted_def)
qed

lemma offending_keys_add:
  assumes "offending_sorted s"
  shows "fst ` set (OffendingValidators (add_offending_validator T stash disable s)) =
      fst ` set (OffendingValidators s) \<union>
      set_option (position (\<lambda>i. i = stash) (T_session_validators T (world s)))"
  using assms
proof (cases rule: add_offending_validator_cases [where stash = stash and T = T and disable = disable])
  case (known v i)
  have "map fst ((OffendingValidators s)[i := (v, b)]) = map fst (OffendingValidators s)" for b
    using known by (simp add: map_update list_update_same_conv)
  then have "fst ` set ((OffendingValidators s)[i := (v, b)]) = fst ` set (OffendingValidators s)" for b
    by (metis set_map)
  moreover have "v \<in> fst ` set (OffendingValidators s)" using known(2,3) by force
  ultimately show ?thesis using known by auto
qed auto

lemma offending_marks_add:
  assumes "offending_sorted s" and "(v, True) \<in> set (OffendingValidators s)"
  shows "(v, True) \<in> set (OffendingValidators (add_offending_validator T stash disable s))"
  using assms(1)
proof (cases rule: add_offending_validator_cases [where stash = stash and T = T and disable = disable])
  case (known u i)
  from assms(2) obtain j where j: "j < length (OffendingValidators s)"
    "OffendingValidators s ! j = (v, True)" by (auto simp: in_set_conv_nth)
  show ?thesis
  proof (cases "j = i")
    case True
    with j known show ?thesis by (auto simp: in_set_conv_nth)
  next
    case False
    with j known show ?thesis by (auto simp: in_set_conv_nth nth_list_update intro!: exI [of _ j])
  qed
qed (use assms in auto)

subsection \<open>Lemmas: paying the reporters\<close>

lemma pay_reporters_loop_eq:
  assumes "imbalance_laws C" and "length rs * per \<le> payout"
  shows "pay_reporters_loop C per rs payout w =
    (payout - length rs * per, fold (\<lambda>r. cur_resolve_creating C r per) rs w)"
  using assms(2)
proof (induction rs arbitrary: payout w)
  case Nil
  then show ?case by simp
next
  case (Cons r rs)
  then have "cur_split C payout per = (per, payout - per)"
    using assms(1) by (simp add: imbalance_laws_def)
  with Cons show ?case by simp
qed

lemma pay_reporters_eq:
  assumes "imbalance_laws (T_currency T)" and "slashed \<le> u128_max"
    and "payout \<noteq> 0" and "reporters \<noteq> []"
  shows "pay_reporters T payout slashed reporters w =
    (let per = min payout slashed div length reporters
     in T_slash_on_unbalanced T (slashed - length reporters * per)
          (fold (\<lambda>r. cur_resolve_creating (T_currency T) r per) reporters w))"
proof -
  let ?pay = "min payout slashed"
  let ?per = "?pay div length reporters"
  have le: "length reporters * ?per \<le> ?pay" by (rule times_div_less_eq_dividend)
  have "cur_subsume (T_currency T) (slashed - ?pay) (?pay - length reporters * ?per) =
      slashed - length reporters * ?per"
    using assms(1,2) le by (simp add: imbalance_laws_def)
  moreover have "cur_split (T_currency T) slashed ?pay = (?pay, slashed - ?pay)"
    using assms(1) by (simp add: imbalance_laws_def)
  ultimately show ?thesis
    using assms(3,4) pay_reporters_loop_eq [OF assms(1) le] by (simp add: pay_reporters_def Let_def)
qed


subsection \<open>Lemmas: one span holds one maximum\<close>

text \<open>The spans a slash is compared with, and the index of the span of an era.\<close>

definition spans_of :: "'w staking \<Rightarrow> AccountId \<Rightarrow> EraIndex \<Rightarrow> SlashingSpans" where
  "spans_of s stash window_start =
     (case SlashingSpansOf s stash of None \<Rightarrow> spans_new window_start | Some spans \<Rightarrow> spans)"

definition span_index_of :: "'w staking \<Rightarrow> AccountId \<Rightarrow> EraIndex \<Rightarrow> EraIndex \<Rightarrow> SpanIndex option" where
  "span_index_of s stash window_start era =
     map_option sp_index (era_span (spans_of s stash window_start) era)"

lemma fetch_spans_eq:
  "fetch_spans stash ws po so rp s =
     (\<lparr>is_dirty = False, is_window_start = ws, is_stash = stash, is_spans = spans_of s stash ws,
       is_paid_out = po, is_slash_of = so, is_reward_proportion = rp\<rparr>,
      s\<lparr>SlashingSpansOf := (SlashingSpansOf s)(stash \<mapsto> spans_of s stash ws)\<rparr>)"
proof (cases "SlashingSpansOf s stash")
  case None
  then show ?thesis by (simp add: fetch_spans_def spans_of_def Let_def)
next
  case (Some x)
  then have "(SlashingSpansOf s)(stash \<mapsto> x) = SlashingSpansOf s" by auto
  with Some show ?thesis by (simp add: fetch_spans_def spans_of_def)
qed

text \<open>Only the last slash of the spans changes, which no span depends on.\<close>

lemma same_spans_simps [simp]:
  "era_span (s\<lparr>ss_last_nonzero_slash := e\<rparr>) era = era_span s era"
  "wf_spans (s\<lparr>ss_last_nonzero_slash := e\<rparr>) = wf_spans s"
  by (simp_all add: era_span_def spans_iter_def wf_spans_def)

lemma compare_and_update_spec:
  assumes "era_span (is_spans i) era = Some sp"
    and "is_slash_of i + slash \<le> u128_max"
    and "compare_and_update_span_slash P era slash i s = (target, i', s')"
  shows "target = Some (sp_index sp)"
    and "sr_slashed (span_slash s' (is_stash i, sp_index sp)) =
          max (sr_slashed (span_slash s (is_stash i, sp_index sp))) slash"
    and "is_slash_of i' = is_slash_of i + (slash - sr_slashed (span_slash s (is_stash i, sp_index sp)))"
    and "\<And>k. k \<noteq> (is_stash i, sp_index sp) \<Longrightarrow> SpanSlash s' k = SpanSlash s k"
    and "is_spans i' = is_spans i \<or> is_spans i' =
          (is_spans i)\<lparr>ss_last_nonzero_slash := max (ss_last_nonzero_slash (is_spans i)) era\<rparr>"
    and "is_stash i' = is_stash i" "is_window_start i' = is_window_start i"
    and "SlashingSpansOf s' = SlashingSpansOf s"
  using assms
  by (auto simp: compare_and_update_span_slash_def Let_def span_slash_def add_slash_def width_simps
      max_def split: if_splits option.splits)


lemma inspecting_end_span_eq:
  "is_spans (inspecting_end_span now i) = fst (end_span (is_spans i) now)"
  "is_stash (inspecting_end_span now i) = is_stash i"
  "is_window_start (inspecting_end_span now i) = is_window_start i"
  "is_slash_of (inspecting_end_span now i) = is_slash_of i"
  by (simp_all add: inspecting_end_span_def split: prod.splits)

lemma remove_span_slashes_SpanSlash:
  "SpanSlash (remove_span_slashes stash idxs s) (a, k) =
     (if a = stash \<and> k \<in> set idxs then None else SpanSlash s (a, k))"
proof -
  have "foldl (\<lambda>m i. m((stash, i) := None)) m idxs (a, k) =
      (if a = stash \<and> k \<in> set idxs then None else m (a, k))" for m :: "_ \<rightharpoonup> SpanRecord"
    by (induction idxs arbitrary: m) auto
  then show ?thesis by (simp add: remove_span_slashes_def)
qed

lemma inspecting_drop_spec:
  assumes "wf_spans (is_spans i)" and "is_window_start i \<le> era"
  shows "map_option sp_index (era_span (is_spans i) era) = Some k \<Longrightarrow>
    SpanSlash (inspecting_drop i s) (is_stash i, k) = SpanSlash s (is_stash i, k)"
    and "is_dirty i \<Longrightarrow> spans_of (inspecting_drop i s) (is_stash i) ws =
      fst (prune (is_spans i) (is_window_start i))"
    and "\<not> is_dirty i \<Longrightarrow> inspecting_drop i s = s"
    and "a \<noteq> is_stash i \<Longrightarrow> SpanSlash (inspecting_drop i s) (a, j) = SpanSlash s (a, j)"
    and "a \<noteq> is_stash i \<Longrightarrow> SlashingSpansOf (inspecting_drop i s) a = SlashingSpansOf s a"
proof -
  obtain spans pruned where p: "prune (is_spans i) (is_window_start i) = (spans, pruned)" by fastforce
  show "SpanSlash (inspecting_drop i s) (is_stash i, k) = SpanSlash s (is_stash i, k)"
    if "map_option sp_index (era_span (is_spans i) era) = Some k"
  proof (cases pruned)
    case None
    with p show ?thesis by (simp add: inspecting_drop_def)
  next
    case (Some ab)
    then obtain a b where "pruned = Some (a, b)" by (cases ab) auto
    with p era_index_not_pruned [OF assms _ that] show ?thesis
      by (auto simp: inspecting_drop_def Let_def remove_span_slashes_SpanSlash)
  qed
  show "is_dirty i \<Longrightarrow> spans_of (inspecting_drop i s) (is_stash i) ws =
      fst (prune (is_spans i) (is_window_start i))"
    by (simp add: inspecting_drop_def spans_of_def p Let_def)
  show "\<not> is_dirty i \<Longrightarrow> inspecting_drop i s = s"
    by (simp add: inspecting_drop_def)
  show "a \<noteq> is_stash i \<Longrightarrow> SpanSlash (inspecting_drop i s) (a, j) = SpanSlash s (a, j)"
    by (simp add: inspecting_drop_def p Let_def remove_span_slashes_SpanSlash
        split: option.splits prod.splits)
  show "a \<noteq> is_stash i \<Longrightarrow> SlashingSpansOf (inspecting_drop i s) a = SlashingSpansOf s a"
    by (simp add: inspecting_drop_def p Let_def remove_span_slashes_def split: option.splits prod.splits)
qed


text \<open>Comparing may leave the object clean only if it changed nothing.\<close>

lemma compare_and_update_clean:
  assumes "compare_and_update_span_slash P era slash i s = (target, i', s')" and "\<not> is_dirty i'"
  shows "i' = i" "s' = s"
  using assms by (auto simp: compare_and_update_span_slash_def Let_def split: if_splits option.splits)

text \<open>The two steps after the comparison do not change the index of an era of the window.\<close>

lemma close_and_drop_spec:
  assumes "wf_spans (is_spans i)" and "now < u32_max" and "ss_span_index (is_spans i) < u32_max"
    and "is_window_start i = ws" and "ws \<le> u32_max" and "ws \<le> era" and "era \<le> now"
    and "map_option sp_index (era_span (is_spans i) era) = Some k"
    and "i' = inspecting_end_span now i \<or> i' = i" and "s' = inspecting_drop i' s"
    and "is_dirty i \<or> SlashingSpansOf s (is_stash i) = Some (is_spans i)"
  shows "SpanSlash s' (is_stash i, k) = SpanSlash s (is_stash i, k)"
    and "wf_spans (spans_of s' (is_stash i) ws)"
    and "ss_span_index (spans_of s' (is_stash i) ws) \<le> Suc (ss_span_index (is_spans i))"
    and "\<And>e. ws \<le> e \<Longrightarrow> e \<le> now \<Longrightarrow>
          span_index_of s' (is_stash i) ws e = map_option sp_index (era_span (is_spans i) e)"
proof -
  have i': "is_stash i' = is_stash i" "is_window_start i' = ws"
    using assms(4,9) by (auto simp: inspecting_end_span_eq)
  have wf': "wf_spans (is_spans i')"
    using assms(1-3,9) wf_spans_end_span by (auto simp: inspecting_end_span_eq)
  have idx': "map_option sp_index (era_span (is_spans i') e) = map_option sp_index (era_span (is_spans i) e)"
    if "e \<le> now" for e
    using assms(9) era_index_end_span [OF assms(1-3) that] by (auto simp: inspecting_end_span_eq)
  have le: "ss_span_index (is_spans i') \<le> Suc (ss_span_index (is_spans i))"
    using assms(3,9) by (auto simp: inspecting_end_span_eq end_span_def Let_def width_simps)
  note drop = inspecting_drop_spec [OF wf', where s = s and era = era, unfolded i', OF assms(6)]
  show "SpanSlash s' (is_stash i, k) = SpanSlash s (is_stash i, k)"
    unfolding assms(10) by (rule drop(1)) (simp only: idx' [OF assms(7)] assms(8))
  have spans: "spans_of s' (is_stash i) ws = fst (prune (is_spans i') ws) \<or>
      spans_of s' (is_stash i) ws = is_spans i'"
  proof (cases "is_dirty i'")
    case True
    with drop(2) assms(10) show ?thesis by simp
  next
    case False
    then have "\<not> is_dirty i" "is_spans i' = is_spans i"
      using assms(9) by (auto simp: inspecting_end_span_def end_span_def Let_def
          split: prod.splits if_splits)
    with False drop(3) assms(10,11) show ?thesis by (simp add: spans_of_def)
  qed
  then show "wf_spans (spans_of s' (is_stash i) ws)"
    using wf' wf_spans_prune [OF wf' assms(5)] by auto
  show "ss_span_index (spans_of s' (is_stash i) ws) \<le> Suc (ss_span_index (is_spans i))"
  proof -
    have "ss_span_index (fst (prune (is_spans i') ws)) = ss_span_index (is_spans i')"
      using prune_prior(2) [OF wf' surjective_pairing] .
    with spans le show ?thesis by auto
  qed
  show "span_index_of s' (is_stash i) ws e = map_option sp_index (era_span (is_spans i) e)"
    if "ws \<le> e" "e \<le> now" for e
    using spans era_index_prune [OF wf' that(1)] idx' [OF that(2)] by (auto simp: span_index_of_def)
qed


lemma slash_in_span_spec:
  assumes "slash_in_span T params stash slash payout chill s = (payout', amount, s')"
    and "ws = pm_window_start params" and "now = pm_now params" and "era = pm_slash_era params"
    and "wf_spans (spans_of s stash ws)" and "ws \<le> u32_max" and "ws \<le> era" and "era \<le> now"
    and "now < u32_max" and "ss_span_index (spans_of s stash ws) < u32_max" and "slash \<le> u128_max"
    and "span_index_of s stash ws era = Some k"
  shows "amount = slash - sr_slashed (span_slash s (stash, k))"
    and "sr_slashed (span_slash s' (stash, k)) = max (sr_slashed (span_slash s (stash, k))) slash"
    and "wf_spans (spans_of s' stash ws)"
    and "ss_span_index (spans_of s' stash ws) \<le> Suc (ss_span_index (spans_of s stash ws))"
    and "\<And>e. ws \<le> e \<Longrightarrow> e \<le> now \<Longrightarrow> span_index_of s' stash ws e = span_index_of s stash ws e"
proof -
  let ?i = "fst (fetch_spans stash ws payout 0 (pm_reward_proportion params) s)"
  let ?s1 = "snd (fetch_spans stash ws payout 0 (pm_reward_proportion params) s)"
  from assms(12) obtain sp where sp: "era_span (spans_of s stash ws) era = Some sp" "sp_index sp = k"
    by (auto simp: span_index_of_def)
  obtain target i1 s2 where c:
    "compare_and_update_span_slash (T_perthings T) era slash ?i ?s1 = (target, i1, s2)"
    using prod_cases3 by blast
  have f: "is_spans ?i = spans_of s stash ws" "is_stash ?i = stash" "is_window_start ?i = ws"
    "is_slash_of ?i = 0" "SpanSlash ?s1 = SpanSlash s" "\<not> is_dirty ?i"
    "SlashingSpansOf ?s1 stash = Some (spans_of s stash ws)"
    by (simp_all add: fetch_spans_eq)
  have slash0: "span_slash ?s1 = span_slash s" using f(5) by (simp add: span_slash_def fun_eq_iff)
  note cu = compare_and_update_spec [OF _ _ c, unfolded f(1,2,4) slash0, OF sp(1), simplified, OF assms(11)]
  have spans1: "era_span (is_spans i1) e = era_span (spans_of s stash ws) e"
    "wf_spans (is_spans i1)" "ss_span_index (is_spans i1) = ss_span_index (spans_of s stash ws)" for e
    using cu(5) assms(5) by auto
  define i2 where "i2 = (if target = Some (ss_span_index (is_spans i1))
    then inspecting_end_span now i1 else i1)"
  define s3 where "s3 = (if target = Some (ss_span_index (is_spans i1)) \<and> chill
    then chill_stash T stash s2 else s2)"
  have res: "amount = is_slash_of i2" "s' = inspecting_drop i2 s3"
    using assms(1-4) c unfolding slash_in_span_def i2_def s3_def
    by (auto simp: Let_def case_prod_unfold split: if_splits)
  have s3: "SpanSlash s3 = SpanSlash s2" "SlashingSpansOf s3 = SlashingSpansOf s2"
    by (simp_all add: s3_def)
  have dirty: "is_dirty i1 \<or> SlashingSpansOf s3 stash = Some (is_spans i1)"
  proof (cases "is_dirty i1")
    case False
    from compare_and_update_clean [OF c this] f(1,7) s3(2) show ?thesis by simp
  qed simp
  note cd = close_and_drop_spec [where i = i1 and i' = i2 and s = s3 and s' = s' and k = k,
      OF spans1(2) assms(9) _ _ assms(6-8) _ _ res(2)]
  have cd': "SpanSlash s' (stash, k) = SpanSlash s3 (stash, k)" "wf_spans (spans_of s' stash ws)"
    "ss_span_index (spans_of s' stash ws) \<le> Suc (ss_span_index (is_spans i1))"
    "\<And>e. ws \<le> e \<Longrightarrow> e \<le> now \<Longrightarrow> span_index_of s' stash ws e = map_option sp_index (era_span (is_spans i1) e)"
    using cd cu(6,7) f(3) spans1 assms(10) sp dirty by (simp_all add: i2_def)
  show "amount = slash - sr_slashed (span_slash s (stash, k))"
    using res(1) cu(3) sp(2) by (simp add: i2_def inspecting_end_span_eq)
  show "sr_slashed (span_slash s' (stash, k)) = max (sr_slashed (span_slash s (stash, k))) slash"
    using cd'(1) s3(1) cu(2) sp(2) by (simp add: span_slash_def)
  show "wf_spans (spans_of s' stash ws)" by (rule cd'(2))
  show "ss_span_index (spans_of s' stash ws) \<le> Suc (ss_span_index (spans_of s stash ws))"
    using cd'(3) spans1(3) by simp
  show "span_index_of s' stash ws e = span_index_of s stash ws e" if "ws \<le> e" "e \<le> now" for e
    using cd'(4) [OF that] spans1(1) by (simp add: span_index_of_def)
qed

text \<open>A sequence of slashes of one stash; the list of the amounts taken.\<close>

fun slash_reports ::
  "'w staking_config \<Rightarrow> AccountId \<Rightarrow> bool \<Rightarrow> (SlashParams \<times> Balance) list \<Rightarrow> 'w staking \<Rightarrow>
     Balance list \<times> 'w staking" where
  "slash_reports T stash chill [] s = ([], s)"
| "slash_reports T stash chill ((params, slash) # reports) s =
     (case slash_in_span T params stash slash 0 chill s of
        (payout, amount, s1) \<Rightarrow>
          (case slash_reports T stash chill reports s1 of
             (amounts, s2) \<Rightarrow> (amount # amounts, s2)))"

lemma slash_reports_sum:
  assumes "slash_reports T stash chill reports s = (amounts, s')"
    and "wf_spans (spans_of s stash ws)" and "ws \<le> u32_max" and "now < u32_max"
    and "ss_span_index (spans_of s stash ws) + length reports \<le> u32_max"
    and "\<forall>(params, slash) \<in> set reports.
      pm_window_start params = ws \<and> pm_now params = now \<and> ws \<le> pm_slash_era params \<and>
      pm_slash_era params \<le> now \<and> slash \<le> u128_max \<and>
      span_index_of s stash ws (pm_slash_era params) = Some k"
  shows "sum_list amounts + sr_slashed (span_slash s (stash, k)) =
      fold max (map snd reports) (sr_slashed (span_slash s (stash, k))) \<and>
    sr_slashed (span_slash s' (stash, k)) =
      fold max (map snd reports) (sr_slashed (span_slash s (stash, k)))"
  using assms
proof (induction reports arbitrary: s amounts)
  case Nil
  then show ?case by simp
next
  case (Cons r reports)
  obtain params slash where r: "r = (params, slash)" by (cases r)
  obtain payout amount s1 where st: "slash_in_span T params stash slash 0 chill s = (payout, amount, s1)"
    using prod_cases3 by blast
  obtain rest where rest: "slash_reports T stash chill reports s1 = (rest, s')" "amounts = amount # rest"
    using Cons.prems(1) r st by (auto split: prod.splits)
  note sp = slash_in_span_spec [OF st refl refl refl, of k]
  have p: "pm_window_start params = ws" "pm_now params = now" "ws \<le> pm_slash_era params"
    "pm_slash_era params \<le> now" "slash \<le> u128_max"
    "span_index_of s stash ws (pm_slash_era params) = Some k"
    using Cons.prems(6) r by simp_all
  note sp = sp [unfolded p(1,2), OF Cons.prems(2,3) p(3,4) Cons.prems(4) _ p(5,6)]
  have "sum_list rest + sr_slashed (span_slash s1 (stash, k)) =
      fold max (map snd reports) (sr_slashed (span_slash s1 (stash, k))) \<and>
    sr_slashed (span_slash s' (stash, k)) =
      fold max (map snd reports) (sr_slashed (span_slash s1 (stash, k)))"
    using Cons.prems sp r by (intro Cons.IH [OF rest(1)]) auto
  with sp Cons.prems(5) rest(2) r show ?case by (auto simp: max.commute)
qed

subsection \<open>Lemmas: applying a slash\<close>

lemma do_slash_cases:
  assumes "do_slash T stash value payout imb era s = (payout', imb', s')"
  obtains (nothing) "Ledger s' = Ledger s" "payout' = payout" "imb' = imb" "Bonded s' = Bonded s"
      "staking_events s' = staking_events s"
  | (slashed) c l v l' w1 w2 imbalance missing where
      "Bonded s stash = Some c" "Ledger s c = Some l" "v \<noteq> 0"
      "ledger_slash (T_perthings T) (T_BondingDuration T) (T_on_staker_slash T) l value
         (cur_minimum_balance (T_currency T)) era (world s) = (v, l', w1)"
      "cur_slash (T_currency T) stash v w1 = ((imbalance, missing), w2)"
      "payout' = payout - missing" "imb' = cur_subsume (T_currency T) imb imbalance"
      "Ledger s' = (Ledger s)(c \<mapsto> l')" "Bonded s' = Bonded s"
      "staking_events s' = staking_events s @ [Slashed stash v]"
proof (cases "Option.bind (Bonded s stash) (Ledger s)")
  case None
  then have eq: "payout' = payout" "imb' = imb" "s' = s"
    using assms by (auto simp: do_slash_def split: option.splits bind_splits)
  show thesis by (rule nothing) (simp_all add: eq)
next
  case (Some l)
  then obtain c where c: "Bonded s stash = Some c" "Ledger s c = Some l" by (auto simp: bind_eq_Some_conv)
  obtain v l' w1 where v: "ledger_slash (T_perthings T) (T_BondingDuration T) (T_on_staker_slash T) l value
         (cur_minimum_balance (T_currency T)) era (world s) = (v, l', w1)" using prod_cases3 by blast
  obtain imbalance missing w2 where sl: "cur_slash (T_currency T) stash v w1 = ((imbalance, missing), w2)"
    by (metis prod.exhaust)
  show thesis
  proof (cases "v = 0")
    case True
    then have eq: "payout' = payout" "imb' = imb" "s' = set_world w1 s"
      using assms c v by (simp_all add: do_slash_def)
    show thesis by (rule nothing) (simp_all add: eq)
  next
    case False
    then have "payout' = payout - missing" "imb' = cur_subsume (T_currency T) imb imbalance"
      "s' = deposit_event (Slashed stash v) (update_ledger T c l' (set_world w2 (set_world w1 s)))"
      using assms c v sl by (auto simp: do_slash_def Let_def)
    then show thesis
      by (intro slashed [OF c False v sl]) (simp_all add: update_ledger_def deposit_event_def)
  qed
qed

definition ledgers_wf :: "'w staking \<Rightarrow> bool" where
  "ledgers_wf s \<longleftrightarrow> (\<forall>c l. Ledger s c = Some l \<longrightarrow> wf_ledger l)"

lemma ledgers_wf_do_slash [step_intros]:
  assumes "ledgers_wf s" and "do_slash T stash value payout imb era s = (payout', imb', s')"
  shows "ledgers_wf s'"
  using assms(2)
proof (cases rule: do_slash_cases)
  case nothing
  with assms(1) show ?thesis by (simp add: ledgers_wf_def)
next
  case (slashed c l v l' w1 w2 imbalance missing)
  with assms(1) have "wf_ledger l" by (auto simp: ledgers_wf_def)
  with ledger_slash_spec [OF this slashed(4)] slashed(8) assms(1) show ?thesis
    by (simp add: ledgers_wf_def)
qed

lemma ledgers_wf_do_slash_others [step_intros]:
  "ledgers_wf s \<Longrightarrow> do_slash_others T others payout imb era s = (payout', imb', s') \<Longrightarrow> ledgers_wf s'"
proof (induction others arbitrary: payout imb s)
  case Nil
  then show ?case by simp
next
  case (Cons x others)
  obtain who v where x: "x = (who, v)" by (cases x)
  obtain p1 i1 s1 where d: "do_slash T who v payout imb era s = (p1, i1, s1)" using prod_cases3 by blast
  with Cons x show ?case using ledgers_wf_do_slash [OF Cons.prems(1) d] by simp
qed

lemma ledgers_wf_apply_slash [step_intros]:
  assumes "ledgers_wf s"
  shows "ledgers_wf (apply_slash T u era s)"
proof -
  obtain p1 i1 s1 where 1: "do_slash T (us_validator u) (us_own u) (us_payout u) 0 era s = (p1, i1, s1)"
    using prod_cases3 by blast
  obtain p2 i2 s2 where 2: "do_slash_others T (us_others u) p1 i1 era s1 = (p2, i2, s2)"
    using prod_cases3 by blast
  have "ledgers_wf s2"
    using ledgers_wf_do_slash_others [OF ledgers_wf_do_slash [OF assms 1] 2] .
  with 1 2 show ?thesis by (simp add: apply_slash_def ledgers_wf_def)
qed

text \<open>The listener of slashes does nothing, as in the runtime (\<^verbatim>\<open>OnStakerSlash = ()\<close>).\<close>

definition slash_deaf :: "'w staking_config \<Rightarrow> bool" where
  "slash_deaf T \<longleftrightarrow> (\<forall>a x m w. T_on_staker_slash T a x m w = w)"

lemma do_slash_eq:
  assumes "do_slash T stash value payout imb era s = (payout', imb', s')"
  shows "case Option.bind (Bonded s stash) (Ledger s) of
      None \<Rightarrow> payout' = payout \<and> imb' = imb \<and> s' = s
    | Some l \<Rightarrow>
        (case ledger_slash (T_perthings T) (T_BondingDuration T) (T_on_staker_slash T) l value
           (cur_minimum_balance (T_currency T)) era (world s) of
           (v, l', w1) \<Rightarrow>
             if v = 0 then payout' = payout \<and> imb' = imb \<and> s' = set_world w1 s
             else (case cur_slash (T_currency T) stash v w1 of ((imbalance, missing), w2) \<Rightarrow>
                payout' = payout - missing \<and> imb' = cur_subsume (T_currency T) imb imbalance \<and>
                s' = deposit_event (Slashed stash v) (update_ledger T (the (Bonded s stash)) l' (set_world w2 (set_world w1 s)))))"
  using assms by (auto simp: do_slash_def Let_def split: option.splits prod.splits if_splits)

lemma ledger_slash_world:
  assumes "\<forall>a x m w. h a x m w = w" and "ledger_slash P bd h l sa mb era w = (v, l', w')"
  shows "w' = w"
  using assms by (auto simp: ledger_slash_def Let_def split: prod.splits if_splits)

text \<open>What a slash takes from a ledger and what it leaves, whatever the listener does; and what slashes of a list
  of stashes make of all the ledgers.\<close>

definition slash_of :: "'w staking_config \<Rightarrow> EraIndex \<Rightarrow> StakingLedger \<Rightarrow> Balance \<Rightarrow> Balance \<times> StakingLedger" where
  "slash_of T era l value =
     (case ledger_slash (T_perthings T) (T_BondingDuration T) (\<lambda>_ _ _ w. w) l value
         (cur_minimum_balance (T_currency T)) era () of
        (v, l', _) \<Rightarrow> (v, if v = 0 then l else l'))"

lemma slash_of_eq:
  assumes "ledger_slash (T_perthings T) (T_BondingDuration T) h l value (cur_minimum_balance (T_currency T)) era w = (v, l', w')"
  shows "slash_of T era l value = (v, if v = 0 then l else l')"
  using assms by (auto simp: slash_of_def ledger_slash_def Let_def split: prod.splits if_splits)

fun slashed_ledgers ::
  "'w staking_config \<Rightarrow> (AccountId \<rightharpoonup> AccountId) \<Rightarrow> EraIndex \<times> AccountId \<times> Balance \<Rightarrow>
     (AccountId \<rightharpoonup> StakingLedger) \<Rightarrow> AccountId \<rightharpoonup> StakingLedger" where
  "slashed_ledgers T bonded (era, stash, value) m =
     (case Option.bind (bonded stash) m of
        None \<Rightarrow> m
      | Some l \<Rightarrow> m(the (bonded stash) \<mapsto> snd (slash_of T era l value)))"

definition slash_targets :: "EraIndex \<times> UnappliedSlash \<Rightarrow> (EraIndex \<times> AccountId \<times> Balance) list" where
  "slash_targets eu = (case eu of (era, u) \<Rightarrow>
     map (\<lambda>(stash, value). (era, stash, value)) ((us_validator u, us_own u) # us_others u))"

lemma do_slash_ledgers:
  assumes "do_slash T stash value p i era s = (p', i', s')"
  shows "Ledger s' = slashed_ledgers T (Bonded s) (era, stash, value) (Ledger s) \<and> Bonded s' = Bonded s"
proof (cases "Option.bind (Bonded s stash) (Ledger s)")
  case None
  with assms show ?thesis by (auto simp: do_slash_def split: option.splits bind_splits)
next
  case (Some l)
  then obtain c where c: "Bonded s stash = Some c" "Ledger s c = Some l" by (auto simp: bind_eq_Some_conv)
  obtain v l' w1 where v: "ledger_slash (T_perthings T) (T_BondingDuration T) (T_on_staker_slash T) l value
      (cur_minimum_balance (T_currency T)) era (world s) = (v, l', w1)" by (metis prod_cases3)
  have same: "(Ledger s)(c \<mapsto> l) = Ledger s" using c by auto
  show ?thesis
    using assms c Some slash_of_eq [OF v] same
    by (auto simp: do_slash_def v Let_def update_ledger_def deposit_event_def split: prod.splits if_splits)
qed

lemma do_slash_others_ledgers:
  assumes "do_slash_others T us p i era s = (p', i', s')"
  shows "Ledger s' = fold (slashed_ledgers T (Bonded s)) (map (\<lambda>(stash, value). (era, stash, value)) us) (Ledger s) \<and>
    Bonded s' = Bonded s"
  using assms
proof (induction us arbitrary: p i s)
  case (Cons u us)
  obtain who v where u: "u = (who, v)" by (cases u)
  obtain p1 i1 s1 where d: "do_slash T who v p i era s = (p1, i1, s1)" using prod_cases3 by blast
  from Cons.prems u d have "do_slash_others T us p1 i1 era s1 = (p', i', s')" by simp
  from Cons.IH [OF this] do_slash_ledgers [OF d] u show ?case by simp
qed simp

lemma apply_slash_ledgers:
  "Ledger (apply_slash T u era s) = fold (slashed_ledgers T (Bonded s)) (slash_targets (era, u)) (Ledger s) \<and>
   Bonded (apply_slash T u era s) = Bonded s"
proof -
  obtain p1 i1 s1 where 1: "do_slash T (us_validator u) (us_own u) (us_payout u) 0 era s = (p1, i1, s1)"
    using prod_cases3 by blast
  obtain p2 i2 s2 where 2: "do_slash_others T (us_others u) p1 i1 era s1 = (p2, i2, s2)"
    using prod_cases3 by blast
  from 1 2 do_slash_ledgers [OF 1] do_slash_others_ledgers [OF 2] show ?thesis
    by (simp add: apply_slash_def slash_targets_def)
qed

lemma fold_slash_ledgers:
  "Ledger (fold (\<lambda>(e, u). apply_slash T u e) us s) = fold (slashed_ledgers T (Bonded s)) (concat (map slash_targets us)) (Ledger s) \<and>
   Bonded (fold (\<lambda>(e, u). apply_slash T u e) us s) = Bonded s"
proof (induction us arbitrary: s)
  case (Cons x us)
  obtain e u where "x = (e, u)" by (cases x)
  with Cons apply_slash_ledgers [of T u e s] show ?case by simp
qed simp

subsection \<open>Lemmas: computing a slash\<close>

text \<open>Looking at the spans writes nothing but the two items that hold them.\<close>

lemma compare_and_update_writes:
  assumes "compare_and_update_span_slash P era slash i s = (target, i', s')"
  shows "\<exists>m. s' = s\<lparr>SpanSlash := m\<rparr>"
proof -
  have "s' = s \<or> (\<exists>m. s' = s\<lparr>SpanSlash := m\<rparr>)"
    using assms by (auto simp: compare_and_update_span_slash_def Let_def split: option.splits if_splits)
  then show ?thesis by (metis staking.surjective staking.update_convs(35))
qed

lemma inspecting_drop_frame [simp]:
  "ErasNotClaimedReward (inspecting_drop i s) = ErasNotClaimedReward s"
  "HistoryDepth (inspecting_drop i s) = HistoryDepth s"
  "ValidatorCount (inspecting_drop i s) = ValidatorCount s"
  "MinimumValidatorCount (inspecting_drop i s) = MinimumValidatorCount s"
  "Invulnerables (inspecting_drop i s) = Invulnerables s"
  "Bonded (inspecting_drop i s) = Bonded s"
  "MinNominatorBond (inspecting_drop i s) = MinNominatorBond s"
  "MinValidatorBond (inspecting_drop i s) = MinValidatorBond s"
  "MinCommission (inspecting_drop i s) = MinCommission s"
  "Ledger (inspecting_drop i s) = Ledger s" "Payee (inspecting_drop i s) = Payee s"
  "Validators (inspecting_drop i s) = Validators s"
  "CounterForValidators (inspecting_drop i s) = CounterForValidators s"
  "MaxValidatorsCount (inspecting_drop i s) = MaxValidatorsCount s"
  "Nominators (inspecting_drop i s) = Nominators s"
  "CounterForNominators (inspecting_drop i s) = CounterForNominators s"
  "MaxNominatorsCount (inspecting_drop i s) = MaxNominatorsCount s"
  "CurrentEra (inspecting_drop i s) = CurrentEra s"
  "ActiveEra (inspecting_drop i s) = ActiveEra s"
  "ErasStartSessionIndex (inspecting_drop i s) = ErasStartSessionIndex s"
  "ErasStakers (inspecting_drop i s) = ErasStakers s"
  "ErasStakersClipped (inspecting_drop i s) = ErasStakersClipped s"
  "ErasValidatorPrefs (inspecting_drop i s) = ErasValidatorPrefs s"
  "ErasValidatorReward (inspecting_drop i s) = ErasValidatorReward s"
  "ErasRewardPoints (inspecting_drop i s) = ErasRewardPoints s"
  "ErasTotalStake (inspecting_drop i s) = ErasTotalStake s"
  "ForceEra (inspecting_drop i s) = ForceEra s"
  "SlashRewardFraction (inspecting_drop i s) = SlashRewardFraction s"
  "CanceledSlashPayout (inspecting_drop i s) = CanceledSlashPayout s"
  "UnappliedSlashes (inspecting_drop i s) = UnappliedSlashes s"
  "BondedEras (inspecting_drop i s) = BondedEras s"
  "ValidatorSlashInEra (inspecting_drop i s) = ValidatorSlashInEra s"
  "NominatorSlashInEra (inspecting_drop i s) = NominatorSlashInEra s"
  "EarliestUnappliedSlash (inspecting_drop i s) = EarliestUnappliedSlash s"
  "CurrentPlannedSession (inspecting_drop i s) = CurrentPlannedSession s"
  "OffendingValidators (inspecting_drop i s) = OffendingValidators s"
  "StorageVersion (inspecting_drop i s) = StorageVersion s"
  "ChillThreshold (inspecting_drop i s) = ChillThreshold s"
  "staking_events (inspecting_drop i s) = staking_events s"
  "world (inspecting_drop i s) = world s"
  by (simp_all add: inspecting_drop_def remove_span_slashes_def Let_def split: prod.splits option.splits)

lemma slash_in_span_frame:
  assumes "slash_in_span T params stash slash payout chill s = (payout', amount, s')"
  shows "ErasNotClaimedReward s' = ErasNotClaimedReward s" "HistoryDepth s' = HistoryDepth s"
    "ValidatorCount s' = ValidatorCount s" "MinimumValidatorCount s' = MinimumValidatorCount s"
    "Invulnerables s' = Invulnerables s" "Bonded s' = Bonded s"
    "MinNominatorBond s' = MinNominatorBond s" "MinValidatorBond s' = MinValidatorBond s"
    "MinCommission s' = MinCommission s" "Ledger s' = Ledger s" "Payee s' = Payee s"
    "MaxValidatorsCount s' = MaxValidatorsCount s" "MaxNominatorsCount s' = MaxNominatorsCount s"
    "CurrentEra s' = CurrentEra s" "ActiveEra s' = ActiveEra s"
    "ErasStartSessionIndex s' = ErasStartSessionIndex s" "ErasStakers s' = ErasStakers s"
    "ErasStakersClipped s' = ErasStakersClipped s" "ErasValidatorPrefs s' = ErasValidatorPrefs s"
    "ErasValidatorReward s' = ErasValidatorReward s" "ErasRewardPoints s' = ErasRewardPoints s"
    "ErasTotalStake s' = ErasTotalStake s" "ForceEra s' = ForceEra s"
    "SlashRewardFraction s' = SlashRewardFraction s"
    "CanceledSlashPayout s' = CanceledSlashPayout s" "UnappliedSlashes s' = UnappliedSlashes s"
    "BondedEras s' = BondedEras s" "ValidatorSlashInEra s' = ValidatorSlashInEra s"
    "NominatorSlashInEra s' = NominatorSlashInEra s"
    "EarliestUnappliedSlash s' = EarliestUnappliedSlash s"
    "CurrentPlannedSession s' = CurrentPlannedSession s"
    "OffendingValidators s' = OffendingValidators s" "StorageVersion s' = StorageVersion s"
    "ChillThreshold s' = ChillThreshold s"
proof -
  let ?f = "fetch_spans stash (pm_window_start params) payout 0 (pm_reward_proportion params) s"
  obtain target i1 s2 where c: "compare_and_update_span_slash (T_perthings T) (pm_slash_era params) slash
      (fst ?f) (snd ?f) = (target, i1, s2)" using prod_cases3 by blast
  from compare_and_update_writes [OF c] obtain m where s2: "s2 = (snd ?f)\<lparr>SpanSlash := m\<rparr>" by blast
  have s': "\<exists>i s3. s' = inspecting_drop i s3 \<and> (s3 = s2 \<or> s3 = chill_stash T stash s2)"
    using assms c by (auto simp: slash_in_span_def Let_def case_prod_unfold split: if_splits)
  then obtain i s3 where s': "s' = inspecting_drop i s3" "s3 = s2 \<or> s3 = chill_stash T stash s2" by blast
  note d = s'(1) s2 fetch_spans_eq [of stash _ payout 0 _ s]
  from s'(2) show
    "ErasNotClaimedReward s' = ErasNotClaimedReward s" "HistoryDepth s' = HistoryDepth s"
    "ValidatorCount s' = ValidatorCount s" "MinimumValidatorCount s' = MinimumValidatorCount s"
    "Invulnerables s' = Invulnerables s" "Bonded s' = Bonded s"
    "MinNominatorBond s' = MinNominatorBond s" "MinValidatorBond s' = MinValidatorBond s"
    "MinCommission s' = MinCommission s" "Ledger s' = Ledger s" "Payee s' = Payee s"
    "MaxValidatorsCount s' = MaxValidatorsCount s" "MaxNominatorsCount s' = MaxNominatorsCount s"
    "CurrentEra s' = CurrentEra s" "ActiveEra s' = ActiveEra s"
    "ErasStartSessionIndex s' = ErasStartSessionIndex s" "ErasStakers s' = ErasStakers s"
    "ErasStakersClipped s' = ErasStakersClipped s" "ErasValidatorPrefs s' = ErasValidatorPrefs s"
    "ErasValidatorReward s' = ErasValidatorReward s" "ErasRewardPoints s' = ErasRewardPoints s"
    "ErasTotalStake s' = ErasTotalStake s" "ForceEra s' = ForceEra s"
    "SlashRewardFraction s' = SlashRewardFraction s"
    "CanceledSlashPayout s' = CanceledSlashPayout s" "UnappliedSlashes s' = UnappliedSlashes s"
    "BondedEras s' = BondedEras s" "ValidatorSlashInEra s' = ValidatorSlashInEra s"
    "NominatorSlashInEra s' = NominatorSlashInEra s"
    "EarliestUnappliedSlash s' = EarliestUnappliedSlash s"
    "CurrentPlannedSession s' = CurrentPlannedSession s"
    "OffendingValidators s' = OffendingValidators s" "StorageVersion s' = StorageVersion s"
    "ChillThreshold s' = ChillThreshold s"
    by (elim disjE; simp add: d)+
qed


lemma add_offending_validator_frame [simp]:
  "ValidatorSlashInEra (add_offending_validator T stash d s) = ValidatorSlashInEra s"
  "NominatorSlashInEra (add_offending_validator T stash d s) = NominatorSlashInEra s"
  "Ledger (add_offending_validator T stash d s) = Ledger s"
  "Bonded (add_offending_validator T stash d s) = Bonded s"
  "Payee (add_offending_validator T stash d s) = Payee s"
  "Validators (add_offending_validator T stash d s) = Validators s"
  "Nominators (add_offending_validator T stash d s) = Nominators s"
  "CounterForValidators (add_offending_validator T stash d s) = CounterForValidators s"
  "CounterForNominators (add_offending_validator T stash d s) = CounterForNominators s"
  "SpanSlash (add_offending_validator T stash d s) = SpanSlash s"
  "SlashingSpansOf (add_offending_validator T stash d s) = SlashingSpansOf s"
  by (simp_all add: add_offending_validator_def Let_def split: option.splits sum.splits)

lemma slash_nominators_loop_spec:
  assumes "slash_nominators_loop T params p others payout acc s = (payout', acc', s')"
  shows "map fst acc' = map fst acc @ map ie_who others \<and>
    ValidatorSlashInEra s' = ValidatorSlashInEra s \<and> OffendingValidators s' = OffendingValidators s \<and>
    Ledger s' = Ledger s \<and> Bonded s' = Bonded s"
  using assms
proof (induction others arbitrary: payout acc s)
  case Nil
  then show ?case by simp
next
  case (Cons n others)
  let ?slash = "add_u128
      (case NominatorSlashInEra s (pm_slash_era params) (ie_who n) of None \<Rightarrow> 0 | Some v \<Rightarrow> v)
      (perbill_mul (T_perthings T) (pm_slash params) (ie_value n) -
       perbill_mul (T_perthings T) p (ie_value n))"
  let ?s1 = "s\<lparr>NominatorSlashInEra := (NominatorSlashInEra s)(pm_slash_era params :=
      (NominatorSlashInEra s (pm_slash_era params))(ie_who n \<mapsto> ?slash))\<rparr>"
  obtain payout1 amount s2 where
    st: "slash_in_span T params (ie_who n) ?slash payout False ?s1 = (payout1, amount, s2)"
    using prod_cases3 by blast
  have "slash_nominators_loop T params p others payout1 (acc @ [(ie_who n, amount)]) s2 = (payout', acc', s')"
    using Cons.prems st by (simp add: Let_def)
  from Cons.IH [OF this] slash_in_span_frame [OF st] show ?case by simp
qed

lemma compute_slash_cases:
  assumes "compute_slash T params s = (r, s')"
  obtains (zero) "perbill_mul (T_perthings T) (pm_slash params) (ex_total (pm_exposure params)) = 0"
      "r = None" "s' = kick_out_if_recent T params s"
  | (not_max) "pm_slash params \<le> prior_slash_p params s" "r = None" "s' = s"
  | (new_max) own s1 payout amount s2 payout2 others where
      "prior_slash_p params s < pm_slash params"
      "own = perbill_mul (T_perthings T) (pm_slash params) (ex_own (pm_exposure params))"
      "s1 = s\<lparr>ValidatorSlashInEra := (ValidatorSlashInEra s)(pm_slash_era params :=
         (ValidatorSlashInEra s (pm_slash_era params))(pm_stash params \<mapsto> (pm_slash params, own)))\<rparr>"
      "slash_in_span T params (pm_stash params) own 0 True s1 = (payout, amount, s2)"
      "slash_nominators T params (prior_slash_p params s)
         (add_offending_validator T (pm_stash params) (pm_disable_strategy params \<noteq> Never) s2) =
         (payout2, others, s')"
      "r = Some \<lparr>us_validator = pm_stash params, us_own = amount, us_others = others,
         us_reporters = [], us_payout = add_u128 payout payout2\<rparr>"
proof (cases "perbill_mul (T_perthings T) (pm_slash params) (ex_total (pm_exposure params)) = 0")
  case True
  with assms have "r = None" "s' = kick_out_if_recent T params s"
    by (simp_all add: compute_slash_def Let_def)
  with True show thesis by (rule zero)
next
  case False
  show thesis
  proof (cases "prior_slash_p params s < pm_slash params")
    case less: False
    with assms \<open>_ \<noteq> 0\<close> have "r = None" "s' = s" by (simp_all add: compute_slash_def Let_def)
    with less show thesis by (intro not_max) simp_all
  next
    case True
    define own where "own = perbill_mul (T_perthings T) (pm_slash params) (ex_own (pm_exposure params))"
    define s1 where "s1 = s\<lparr>ValidatorSlashInEra := (ValidatorSlashInEra s)(pm_slash_era params :=
         (ValidatorSlashInEra s (pm_slash_era params))(pm_stash params \<mapsto> (pm_slash params, own)))\<rparr>"
    obtain payout amount s2 where st: "slash_in_span T params (pm_stash params) own 0 True s1 = (payout, amount, s2)"
      using prod_cases3 by blast
    obtain payout2 others s4 where n: "slash_nominators T params (prior_slash_p params s)
        (add_offending_validator T (pm_stash params) (pm_disable_strategy params \<noteq> Never) s2) =
        (payout2, others, s4)" using prod_cases3 by blast
    have "compute_slash T params s = (Some \<lparr>us_validator = pm_stash params, us_own = amount,
        us_others = others, us_reporters = [], us_payout = add_u128 payout payout2\<rparr>, s4)"
      using True False st n
      unfolding compute_slash_def Let_def own_def [symmetric] s1_def [symmetric] by simp
    with assms new_max [OF True own_def s1_def st] n show thesis by simp
  qed
qed

lemma compute_slash_new_max:
  assumes "perbill_mul (T_perthings T) (pm_slash params) (ex_total (pm_exposure params)) \<noteq> 0"
    and "prior_slash_p params s < pm_slash params" and "compute_slash T params s = (r, s')"
  shows "(\<exists>u. r = Some u \<and> us_validator u = pm_stash params \<and> us_reporters u = [] \<and>
      map fst (us_others u) = map ie_who (ex_others (pm_exposure params))) \<and>
    prior_slash_p params s' = pm_slash params"
  using assms(3)
proof (cases rule: compute_slash_cases)
  case (new_max own s1 payout amount s2 payout2 others)
  note loop = slash_nominators_loop_spec [OF new_max(5) [unfolded slash_nominators_def]]
  have "ValidatorSlashInEra s' = ValidatorSlashInEra s1"
    using loop slash_in_span_frame [OF new_max(4)] by simp
  then have "prior_slash_p params s' = pm_slash params" by (simp add: prior_slash_p_def new_max(3))
  with loop new_max(6) show ?thesis by simp
qed (use assms in simp_all)

text \<open>The era of the offence is in the span of the stash that is still open, and the spans once that one is
  ended.\<close>

definition in_ongoing_span :: "SlashParams \<Rightarrow> 'w staking \<Rightarrow> bool" where
  "in_ongoing_span params s \<longleftrightarrow>
     span_index_of s (pm_stash params) (pm_window_start params) (pm_slash_era params) =
       Some (ss_span_index (spans_of s (pm_stash params) (pm_window_start params)))"

definition ended_spans :: "SlashParams \<Rightarrow> SlashingSpans \<Rightarrow> SlashingSpans" where
  "ended_spans params spans =
     (case end_span spans (pm_now params) of
        (spans', started) \<Rightarrow> if started then fst (prune spans' (pm_window_start params)) else spans)"

lemma chill_stash_roles:
  "Validators (chill_stash T stash s) = (Validators s)(stash := None)"
  "Nominators (chill_stash T stash s) = (Nominators s)(stash := None)"
  by (auto simp: chill_stash_def do_remove_validator_def do_remove_nominator_def Let_def split: prod.splits)

lemma kick_out_if_recent_spec:
  "ValidatorSlashInEra (kick_out_if_recent T params s) = ValidatorSlashInEra s"
  "NominatorSlashInEra (kick_out_if_recent T params s) = NominatorSlashInEra s"
  "Validators (kick_out_if_recent T params s) =
     (if in_ongoing_span params s then (Validators s)(pm_stash params := None) else Validators s)"
  "Nominators (kick_out_if_recent T params s) =
     (if in_ongoing_span params s then (Nominators s)(pm_stash params := None) else Nominators s)"
  "spans_of (kick_out_if_recent T params s) (pm_stash params) (pm_window_start params) =
     (if in_ongoing_span params s then ended_spans params (spans_of s (pm_stash params) (pm_window_start params))
      else spans_of s (pm_stash params) (pm_window_start params))"
  by (auto simp: kick_out_if_recent_def fetch_spans_eq Let_def in_ongoing_span_def span_index_of_def
      chill_stash_roles ended_spans_def inspecting_end_span_def inspecting_drop_def remove_span_slashes_def spans_of_def split: prod.splits option.splits)


lemma kick_out_if_recent_frame:
  "Ledger (kick_out_if_recent T params s) = Ledger s" "Bonded (kick_out_if_recent T params s) = Bonded s"
  by (simp_all add: kick_out_if_recent_def fetch_spans_eq Let_def)

lemma compute_slash_frame:
  assumes "compute_slash T params s = (r, s')"
  shows "Ledger s' = Ledger s \<and> Bonded s' = Bonded s"
  using assms
proof (cases rule: compute_slash_cases)
  case (new_max own s1 payout amount s2 payout2 others)
  with slash_nominators_loop_spec [OF new_max(5) [unfolded slash_nominators_def]]
    slash_in_span_frame [OF new_max(4)] show ?thesis by simp
qed (simp_all add: kick_out_if_recent_frame)

subsection \<open>Properties of slashing\<close>

definition sample_params :: SlashParams where
  "sample_params =
     \<lparr>pm_stash = 10, pm_slash = 100000000,
      pm_exposure = \<lparr>ex_total = 150, ex_own = 100, ex_others = [\<lparr>ie_who = 20, ie_value = 50\<rparr>]\<rparr>,
      pm_slash_era = 3, pm_window_start = 0, pm_now = 3, pm_reward_proportion = 100000000,
      pm_disable_strategy = WhenSlashed\<rparr>"

text \<open>C4. One span, one maximum: however many offences of the eras of one span are reported, and
  in whatever order, the amounts slashed from the stash add up to the largest of the slashes (less
  what the span was already slashed), not to their sum; and the record of the span holds that
  maximum. Ending the span after each report and pruning old spans do not break this.\<close>

theorem span_slashed_maximum:
  assumes "slash_reports T stash chill reports s = (amounts, s')"
    and "wf_spans (spans_of s stash ws)" and "ws \<le> u32_max" and "now < u32_max"
    and "ss_span_index (spans_of s stash ws) + length reports \<le> u32_max"
    and "\<forall>(params, slash) \<in> set reports.
      pm_window_start params = ws \<and> pm_now params = now \<and> ws \<le> pm_slash_era params \<and>
      pm_slash_era params \<le> now \<and> slash \<le> u128_max \<and>
      span_index_of s stash ws (pm_slash_era params) = Some k"
  shows "sum_list amounts + sr_slashed (span_slash s (stash, k)) =
      fold max (map snd reports) (sr_slashed (span_slash s (stash, k))) \<and>
    sr_slashed (span_slash s' (stash, k)) =
      fold max (map snd reports) (sr_slashed (span_slash s (stash, k)))"
  by (rule slash_reports_sum [OF assms])

theorem span_slashed_maximum_witness:
  "sum_list (fst (slash_reports sample_T 20 False
     [(sample_params, 7), (sample_params\<lparr>pm_slash_era := 2\<rparr>, 12), (sample_params, 9)]
     sample_staking)) = 12"
proof -
  let ?r = "[(sample_params, 7), (sample_params\<lparr>pm_slash_era := 2\<rparr>, 12), (sample_params, 9)]"
  have h: "wf_spans (spans_of sample_staking 20 0)" "(0::nat) \<le> u32_max" "(3::nat) < u32_max"
    "ss_span_index (spans_of sample_staking 20 0) + length ?r \<le> u32_max"
    "\<forall>(params, slash) \<in> set ?r.
      pm_window_start params = 0 \<and> pm_now params = 3 \<and> 0 \<le> pm_slash_era params \<and>
      pm_slash_era params \<le> 3 \<and> slash \<le> u128_max \<and>
      span_index_of sample_staking 20 0 (pm_slash_era params) = Some 0"
    by code_simp+
  have "sr_slashed (span_slash sample_staking (20, 0)) = 0" by code_simp
  with span_slashed_maximum [OF surjective_pairing h] show ?thesis by simp
qed

text \<open>C5. Maximum in era. A report creates a pending slash exactly if it is worth something (its proportion of
  the whole exposure is not zero) and its proportion exceeds what the validator was already slashed for the
  era; the pending slash then names the validator, no reporter yet, and every exposed nominator in order, and
  the proportion becomes the record of the era. A report that is worth something and does not exceed the
  record changes nothing at all. A report that is worth nothing leaves the records of the era alone; if its
  era is in the ongoing span of the validator, it ends that span and chills the validator, and otherwise
  it changes neither. In no case does computing a slash touch a ledger.\<close>

theorem compute_slash_max_in_era:
  assumes "compute_slash T params s = (r, s')"
    and "worth = perbill_mul (T_perthings T) (pm_slash params) (ex_total (pm_exposure params))"
    and "spans = spans_of s (pm_stash params) (pm_window_start params)"
  shows "(r \<noteq> None \<longleftrightarrow> worth \<noteq> 0 \<and> prior_slash_p params s < pm_slash params) \<and>
    (\<forall>u. r = Some u \<longrightarrow> us_validator u = pm_stash params \<and> us_reporters u = [] \<and>
        map fst (us_others u) = map ie_who (ex_others (pm_exposure params)) \<and>
        prior_slash_p params s' = pm_slash params) \<and>
    (worth \<noteq> 0 \<and> r = None \<longrightarrow> s' = s) \<and>
    (worth = 0 \<longrightarrow>
       ValidatorSlashInEra s' = ValidatorSlashInEra s \<and> NominatorSlashInEra s' = NominatorSlashInEra s \<and>
       (if in_ongoing_span params s
        then Validators s' = (Validators s)(pm_stash params := None) \<and>
          Nominators s' = (Nominators s)(pm_stash params := None) \<and>
          spans_of s' (pm_stash params) (pm_window_start params) = ended_spans params spans
        else Validators s' = Validators s \<and> Nominators s' = Nominators s \<and>
          spans_of s' (pm_stash params) (pm_window_start params) = spans)) \<and>
    Ledger s' = Ledger s \<and> Bonded s' = Bonded s"
proof (cases "worth = 0")
  case True
  with assms have "r = None" "s' = kick_out_if_recent T params s" by (simp_all add: compute_slash_def Let_def)
  with True assms(3) show ?thesis by (simp add: kick_out_if_recent_spec kick_out_if_recent_frame)
next
  case worth: False
  show ?thesis
  proof (cases "prior_slash_p params s < pm_slash params")
    case True
    from compute_slash_new_max [OF worth [unfolded assms(2)] True assms(1)] compute_slash_frame [OF assms(1)] worth True
    show ?thesis by auto
  next
    case False
    with worth assms(1,2) have "r = None" "s' = s" by (simp_all add: compute_slash_def Let_def)
    with False worth show ?thesis by simp
  qed
qed

theorem compute_slash_max_in_era_witness:
  "fst (compute_slash sample_T sample_params sample_staking) \<noteq> None \<and>
    Validators (snd (compute_slash sample_T (sample_params\<lparr>pm_slash := 0\<rparr>) sample_staking)) 10 = None"
proof -
  note max = compute_slash_max_in_era [OF surjective_pairing refl refl, of sample_T _ sample_staking]
  have h: "perbill_mul (T_perthings sample_T) (pm_slash sample_params)
      (ex_total (pm_exposure sample_params)) \<noteq> 0" "pm_stash sample_params = 10"
    "prior_slash_p sample_params sample_staking < pm_slash sample_params"
    "perbill_mul (T_perthings sample_T) (pm_slash (sample_params\<lparr>pm_slash := 0\<rparr>))
       (ex_total (pm_exposure (sample_params\<lparr>pm_slash := 0\<rparr>))) = 0"
    "in_ongoing_span (sample_params\<lparr>pm_slash := 0\<rparr>) sample_staking" by code_simp+
  from max [of sample_params] max [of "sample_params\<lparr>pm_slash := 0\<rparr>"] h show ?thesis by simp
qed

text \<open>The offenders of the session: adding an offender keeps the list sorted by validator
  index without repetition, keeps every known offender, adds exactly the index of the validator
  if it is in the session, and never clears the mark of a disabled validator.\<close>

theorem offending_validators_sorted:
  assumes "offending_sorted s"
  shows "offending_sorted (add_offending_validator T stash disable s) \<and>
    fst ` set (OffendingValidators (add_offending_validator T stash disable s)) =
      fst ` set (OffendingValidators s) \<union>
      set_option (position (\<lambda>i. i = stash) (T_session_validators T (world s))) \<and>
    (\<forall>i. (i, True) \<in> set (OffendingValidators s) \<longrightarrow>
      (i, True) \<in> set (OffendingValidators (add_offending_validator T stash disable s)))"
  using offending_sorted_add [OF assms, of T stash disable] offending_keys_add [OF assms, of T stash disable]
    offending_marks_add [OF assms, of _ T stash disable] by blast

theorem offending_validators_sorted_witness:
  "offending_sorted (add_offending_validator sample_T 11 True
     (sample_staking\<lparr>OffendingValidators := [(0, True), (2, False)]\<rparr>))"
proof -
  have "offending_sorted (sample_staking\<lparr>OffendingValidators := [(0, True), (2, False)]\<rparr>)" by code_simp
  from offending_validators_sorted [OF this] show ?thesis by blast
qed

text \<open>C6. Paying the reporters conserves the slashed value: every reporter receives the same
  amount, together at most the payout that was promised, and the handler of slashes receives
  exactly the rest.\<close>

theorem pay_reporters_conserves:
  assumes "imbalance_laws (T_currency T)" and "slashed \<le> u128_max"
  shows "\<exists>per rest.
    pay_reporters T payout slashed reporters w =
      T_slash_on_unbalanced T rest
        (fold (\<lambda>r. cur_resolve_creating (T_currency T) r per)
           (if payout = 0 then [] else reporters) w) \<and>
    (if payout = 0 then 0 else length reporters * per) + rest = slashed \<and>
    length reporters * per \<le> payout"
proof (cases "payout = 0 \<or> reporters = []")
  case True
  then show ?thesis by (intro exI [of _ 0] exI [of _ slashed]) (auto simp: pay_reporters_def)
next
  case False
  let ?per = "min payout slashed div length reporters"
  have "length reporters * ?per \<le> min payout slashed" by (rule times_div_less_eq_dividend)
  with False pay_reporters_eq [OF assms, of payout reporters w] show ?thesis
    by (intro exI [of _ ?per] exI [of _ "slashed - length reporters * ?per"]) (simp add: Let_def)
qed

theorem pay_reporters_conserves_witness:
  "\<exists>per rest.
    pay_reporters sample_T 20 35 [7, 8, 9] sample_bank =
      T_slash_on_unbalanced sample_T rest
        (fold (\<lambda>r. cur_resolve_creating (T_currency sample_T) r per) [7, 8, 9] sample_bank) \<and>
    per + (per + per) + rest = 35 \<and> per + (per + per) \<le> 20"
proof -
  have "(35 :: nat) \<le> u128_max" by code_simp
  from pay_reporters_conserves [OF sample_imbalance_laws this, of 20 "[7, 8, 9]" sample_bank]
  show ?thesis by simp
qed

definition sample_T_reaping :: "bank staking_config" where
  "sample_T_reaping = sample_T\<lparr>T_currency := reaping_currency\<rparr>"

text \<open>C7. Applying a slash to one stash. Without a ledger nothing changes. Otherwise the total of the ledger
  falls by exactly the amount \<open>v\<close> that \<open>ledger_slash\<close> determines, which is what the event reports; the
  balance of the stash falls by the same amount, less what the currency says was missing from it, and no other
  balance changes (unless the stash is left with dust and reaped); what was taken joins the imbalance collected so far, and what
  was missing comes off the payout to the reporters. Every ledger stays balanced.\<close>

theorem do_slash_takes_from_ledger:
  assumes "ledgers_wf s" and "slash_law (T_currency T)" and "lock_law (T_currency T)" and "slash_deaf T"
    and "do_slash T stash value payout imbalance era s = (payout', imbalance', s')"
  shows "case Option.bind (Bonded s stash) (Ledger s) of
      None \<Rightarrow> payout' = payout \<and> imbalance' = imbalance \<and> s' = s
    | Some l \<Rightarrow>
        \<exists>v l' missing.
          slash_of T era l value = (v, l') \<and>
          (if v = 0 then missing = 0
           else fst (cur_slash (T_currency T) stash v (world s)) = (v - missing, missing)) \<and>
          Ledger s' = (Ledger s)(the (Bonded s stash) \<mapsto> l') \<and> sl_total l' + v = sl_total l \<and> ledgers_wf s' \<and>
          missing \<le> v \<and> takes_only (T_currency T) stash (v - missing) (world s) (world s') \<and>
          payout' = payout - missing \<and>
          imbalance' = (if v = 0 then imbalance else cur_subsume (T_currency T) imbalance (v - missing)) \<and>
          staking_events s' = staking_events s @ (if v = 0 then [] else [Slashed stash v])"
proof (cases "Option.bind (Bonded s stash) (Ledger s)")
  case None
  with do_slash_eq [OF assms(5)] show ?thesis by simp
next
  case (Some l)
  then obtain c where c: "Bonded s stash = Some c" "Ledger s c = Some l" by (auto simp: bind_eq_Some_conv)
  let ?C = "T_currency T"
  obtain v l' w1 where v: "ledger_slash (T_perthings T) (T_BondingDuration T) (T_on_staker_slash T) l value
      (cur_minimum_balance ?C) era (world s) = (v, l', w1)" by (metis prod_cases3)
  from c(2) assms(1) have "wf_ledger l" by (auto simp: ledgers_wf_def)
  from ledger_slash_spec [OF this v] have tot: "sl_total l' + v = sl_total l" by auto
  have w1: "w1 = world s" using ledger_slash_world [OF _ v] assms(4) by (simp add: slash_deaf_def)
  note eq = do_slash_eq [OF assms(5), unfolded Some, simplified, unfolded v, simplified]
  show ?thesis
  proof (cases "v = 0")
    case True
    with eq w1 have "payout' = payout" "imbalance' = imbalance" "s' = s" by auto
    with True slash_of_eq [OF v] c Some assms(1) show ?thesis
      by (auto simp: takes_only_def intro!: exI [of _ 0])
  next
    case False
    obtain imb missing w2 where sl: "cur_slash ?C stash v w1 = ((imb, missing), w2)" by (metis prod.exhaust)
    with eq False c w1 have s': "payout' = payout - missing" "imbalance' = cur_subsume ?C imbalance imb"
      "s' = deposit_event (Slashed stash v) (update_ledger T c l' (set_world w2 s))" by auto
    have "cur_total_balance ?C (world s') = cur_total_balance ?C w2"
      using assms(3) by (simp add: s'(3) lock_law_def update_ledger_def deposit_event_def)
    moreover have "imb + missing = v \<and> takes_only ?C stash imb (world s) w2"
      using assms(2) sl unfolding slash_law_def w1 by blast
    moreover have "ledgers_wf s'" using ledgers_wf_do_slash [OF assms(1,5)] .
    ultimately show ?thesis using slash_of_eq [OF v] sl w1 c Some tot s' False
      by (auto simp: takes_only_def update_ledger_def deposit_event_def intro!: exI [of _ missing])
  qed
qed

theorem do_slash_takes_from_ledger_witness:
  "\<exists>l. Ledger (snd (snd (do_slash sample_T_reaping 20 40 6 0 3 sample_staking))) 120 = Some l \<and>
     sl_total l + 40 = 80 \<and>
     cur_total_balance reaping_currency (world (snd (snd (do_slash sample_T_reaping 20 40 6 0 3 sample_staking)))) 20 = 960"
proof -
  let ?r = "do_slash sample_T_reaping 20 40 6 0 3 sample_staking"
  let ?l = "\<lparr>sl_stash = 20, sl_total = 80, sl_active = 50, sl_unlocking = [\<lparr>uc_value = 30, uc_era = 5\<rparr>],
              sl_claimed_rewards = []\<rparr>"
  have wf: "ledgers_wf sample_staking"
    by (auto simp: ledgers_wf_def sample_staking_def wf_ledger_def u128_max_def split: if_splits)
  have T: "T_currency sample_T_reaping = reaping_currency" by (simp add: sample_T_reaping_def)
  have deaf: "slash_deaf sample_T_reaping" by (simp add: slash_deaf_def sample_T_reaping_def sample_T_def sample_config_def)
  have b: "Bonded sample_staking 20 = Some 120" "Ledger sample_staking 120 = Some ?l" by code_simp+
  have v: "fst (slash_of sample_T_reaping 3 ?l 40) = 40" by code_simp
  have r: "?r = (fst ?r, fst (snd ?r), snd (snd ?r))" by simp
  have bal: "cur_total_balance reaping_currency (world sample_staking) 20 = 1000" by code_simp
  have p: "fst (cur_slash reaping_currency 20 40 (world sample_staking)) = (40, 0)" by code_simp
  from do_slash_takes_from_ledger [OF wf _ _ deaf r, unfolded T, OF reaping_slash_law]
  obtain v l' missing where
    "slash_of sample_T_reaping 3 ?l 40 = (v, l')"
    "if v = 0 then missing = 0 else fst (cur_slash reaping_currency 20 v (world sample_staking)) = (v - missing, missing)"
    "Ledger (snd (snd ?r)) = (Ledger sample_staking)(120 \<mapsto> l')" "sl_total l' + v = sl_total ?l"
    "takes_only reaping_currency 20 (v - missing) (world sample_staking) (world (snd (snd ?r)))"
    by (auto simp: b bal)
  with v p show ?thesis by (auto simp: takes_only_def bal) (simp add: reaping_currency_def sample_currency_def)
qed

end
