(* ===== verification/Staking_Era.thy ===== *)
theory Staking_Era
  imports Slashing "HOL-Library.Multiset"
begin

section \<open>Staking: eras, sessions and payouts (\<^verbatim>\<open>frame/staking/src/pallet/impls.rs\<close>)\<close>

text \<open>
  The life of an era: \<open>new_session\<close> plans it from an election, \<open>start_session\<close> starts it,
  validators earn points, \<open>end_session\<close> ends it and fixes its reward from the fund of the revenue
  pallet, and \<open>do_payout_stakers\<close> pays it out. This repository replaces the inflation of the
  original pallet by a fund: what eras have been promised and stakers have not claimed is reserved
  in \<^verbatim>\<open>ErasNotClaimedReward\<close>.

  The lemmas show that the reward of an era is what the fund holds beyond the reserves of the eras
  still claimable, that an era of a validator is paid at most once, that the slashes applied at the
  start of an era are exactly those whose delay has passed and what they do to the ledgers, that \<open>BondedEras\<close> is the window of the bonding
  duration, and when a new era is planned.
\<close>

subsection \<open>The fund and its reserves\<close>

definition update_not_claimed_reward :: "EraIndex \<Rightarrow> Balance \<Rightarrow> 'w staking \<Rightarrow> 'w staking" where
  "update_not_claimed_reward era claimed_value s =
     (case ErasNotClaimedReward s era of
        None \<Rightarrow> s
      | Some reward \<Rightarrow>
          s\<lparr>ErasNotClaimedReward := (ErasNotClaimedReward s)(era \<mapsto> reward - claimed_value)\<rparr>)"

definition get_total_not_claimed_reward :: "EraIndex \<Rightarrow> 'w staking \<Rightarrow> Balance" where
  "get_total_not_claimed_reward current_era s =
     foldl (\<lambda>result era. case ErasNotClaimedReward s era of
                None \<Rightarrow> result
              | Some reward \<Rightarrow> sat_add_u128 result reward)
       0 [current_era - sub_u32 (HistoryDepth s) 1 ..< current_era]"

definition fund_balance :: "'w staking_config \<Rightarrow> 'w staking \<Rightarrow> Balance" where
  "fund_balance T s =
     cur_free_balance (T_currency T) (world s) (T_fund_account T) - EXISTENTIAL_DEPOSIT"

subsection \<open>Paying out\<close>

definition make_payout ::
  "'w staking_config \<Rightarrow> AccountId \<Rightarrow> Balance \<Rightarrow> 'w staking \<Rightarrow> Balance option \<times> 'w staking" where
  "make_payout T stash amount s =
     (let C = T_currency T
      in case payee s stash of
           RdController \<Rightarrow>
             (case Bonded s stash of
                None \<Rightarrow> (None, s)
              | Some controller \<Rightarrow>
                  (case cur_deposit_creating C controller amount (world s) of
                     (imbalance, w) \<Rightarrow> (Some imbalance, set_world w s)))
         | RdStash \<Rightarrow>
             (case cur_deposit_into_existing C stash amount (world s) of
                (r, w) \<Rightarrow> (r, set_world w s))
         | RdStaked \<Rightarrow>
             (case Bonded s stash of
                None \<Rightarrow> (None, s)
              | Some controller \<Rightarrow>
             (case Ledger s controller of
                None \<Rightarrow> (None, s)
              | Some l \<Rightarrow>
                  (let l' = l\<lparr>sl_active := add_u128 (sl_active l) amount,
                             sl_total := add_u128 (sl_total l) amount\<rparr>
                   in case cur_deposit_into_existing C stash amount (world s) of
                        (r, w) \<Rightarrow> (r, update_ledger T controller l' (set_world w s)))))
         | RdAccount dest_account \<Rightarrow>
             (case cur_deposit_creating C dest_account amount (world s) of
                (imbalance, w) \<Rightarrow> (Some imbalance, set_world w s))
         | RdNone \<Rightarrow> (None, s))"

text \<open>One payment with its event; the accumulators are the total imbalance and the number of
  payments made.\<close>

definition pay_staker ::
  "'w staking_config \<Rightarrow> AccountId \<Rightarrow> Balance \<Rightarrow> Balance \<times> u32 \<times> 'w staking \<Rightarrow>
     Balance \<times> u32 \<times> 'w staking" where
  "pay_staker T stash amount acc =
     (case acc of (total_imbalance, paid, s) \<Rightarrow>
      case make_payout T stash amount s of
        (None, s1) \<Rightarrow> (total_imbalance, paid, s1)
      | (Some imbalance, s1) \<Rightarrow>
          (cur_subsume (T_currency T) total_imbalance imbalance, add_u32 paid 1,
           deposit_event (Rewarded stash imbalance) s1))"

definition validator_leftover_payout ::
  "perthings \<Rightarrow> Perbill \<Rightarrow> Balance \<Rightarrow> Balance \<times> Balance" where
  "validator_leftover_payout P validator_commission validator_total_payout =
     (let validator_commission_payout = perbill_mul P validator_commission validator_total_payout
      in (validator_commission_payout, sub_u128 validator_total_payout validator_commission_payout))"

text \<open>The payments to the validator and to the nominators of the clipped exposure.\<close>

definition pay_exposure ::
  "'w staking_config \<Rightarrow> AccountId \<Rightarrow> Exposure \<Rightarrow> Balance \<Rightarrow> Balance \<Rightarrow> 'w staking \<Rightarrow>
     Balance \<times> u32 \<times> 'w staking" where
  "pay_exposure T stash exposure commission_payout leftover_payout s =
     (let P = T_perthings T;
          validator_exposure_part = perbill_from_rational P (ex_own exposure) (ex_total exposure);
          validator_staking_payout = perbill_mul P validator_exposure_part leftover_payout
      in case pay_staker T stash (add_u128 validator_staking_payout commission_payout) (0, 0, s) of
           (total_imbalance, _, s1) \<Rightarrow>
             foldl (\<lambda>acc nominator.
                 pay_staker T (ie_who nominator)
                   (perbill_mul P (perbill_from_rational P (ie_value nominator) (ex_total exposure))
                      leftover_payout) acc)
               (total_imbalance, 0, s1) (ex_others exposure))"

text \<open>\<open>Inl\<close> the position of the era, \<open>Inr\<close> the position to insert it at.\<close>

definition search_claimed :: "EraIndex list \<Rightarrow> EraIndex \<Rightarrow> nat + nat" where
  "search_claimed claimed era =
     (let pos = search_pos claimed era
      in if pos < length claimed \<and> claimed ! pos = era then Inl pos else Inr pos)"

text \<open>The function up to the comment that the input is good: the era payout, the controller and
  the ledger with the era marked as claimed.\<close>

definition payout_checks ::
  "AccountId \<Rightarrow> EraIndex \<Rightarrow> 'w staking \<Rightarrow> staking_error + (Balance \<times> AccountId \<times> StakingLedger)" where
  "payout_checks validator_stash era s =
     (case CurrentEra s of
        None \<Rightarrow> Inl InvalidEraToReward
      | Some current_era \<Rightarrow>
     (let history_depth = HistoryDepth s
      in if \<not> (era \<le> current_era \<and> era \<ge> current_era - history_depth)
         then Inl InvalidEraToReward
         else
     (case ErasValidatorReward s era of
        None \<Rightarrow> Inl InvalidEraToReward
      | Some era_payout \<Rightarrow>
     (case Bonded s validator_stash of
        None \<Rightarrow> Inl NotStash
      | Some controller \<Rightarrow>
     (case Ledger s controller of
        None \<Rightarrow> Inl NotController
      | Some l \<Rightarrow>
     (let claimed = filter (\<lambda>x. x \<ge> current_era - history_depth) (sl_claimed_rewards l)
      in case search_claimed claimed era of
           Inl _ \<Rightarrow> Inl AlreadyClaimed
         | Inr pos \<Rightarrow>
             Inr (era_payout, controller, l\<lparr>sl_claimed_rewards := insert_at pos era claimed\<rparr>)))))))"

text \<open>The rest of the function.\<close>

definition payout_pay ::
  "'w staking_config \<Rightarrow> AccountId \<Rightarrow> EraIndex \<Rightarrow> Balance \<Rightarrow> AccountId \<Rightarrow> StakingLedger \<Rightarrow>
     'w staking \<Rightarrow> 'w outcome" where
  "payout_pay T validator_stash era era_payout controller l s =
     (let exposure = eras_stakers_clipped s era (sl_stash l);
          s1 = s\<lparr>Ledger := (Ledger s)(controller \<mapsto> l)\<rparr>;
          era_reward_points = eras_reward_points s1 era;
          validator_reward_points =
            (case erp_individual era_reward_points (sl_stash l) of None \<Rightarrow> 0 | Some p \<Rightarrow> p)
      in if validator_reward_points = 0
         then (Inr (Some (T_weight_payout_stakers_alive_staked T 0)), s1)
         else
     (let P = T_perthings T;
          validator_total_reward_part =
            perbill_from_rational P validator_reward_points (erp_total era_reward_points);
          validator_total_payout = perbill_mul P validator_total_reward_part era_payout;
          prefs = eras_validator_prefs s1 era validator_stash;
          s2 = deposit_event (PayoutStarted era (sl_stash l)) s1
      in case validator_leftover_payout P (vp_commission prefs) validator_total_payout of
           (commission_payout, leftover_payout) \<Rightarrow>
         case pay_exposure T (sl_stash l) exposure commission_payout leftover_payout s2 of
           (total_imbalance, nominator_payout_count, s3) \<Rightarrow>
         case cur_settle (T_currency T) (T_fund_account T) total_imbalance KeepAlive (world s3) of
           (False, w) \<Rightarrow>
             (Inl CannotPayout, set_world (cur_drop_positive (T_currency T) total_imbalance w) s3)
         | (True, w) \<Rightarrow>
             (Inr (Some (T_weight_payout_stakers_alive_staked T nominator_payout_count)),
              update_not_claimed_reward era total_imbalance (set_world w s3))))"

definition do_payout_stakers ::
  "'w staking_config \<Rightarrow> AccountId \<Rightarrow> EraIndex \<Rightarrow> 'w staking \<Rightarrow> 'w outcome" where
  "do_payout_stakers T validator_stash era s =
     (case payout_checks validator_stash era s of
        Inl e \<Rightarrow> (Inl e, s)
      | Inr (era_payout, controller, l) \<Rightarrow>
          payout_pay T validator_stash era era_payout controller l s)"

subsection \<open>Planning an era\<close>

fun collect_exposure ::
  "(nat \<Rightarrow> Balance) \<Rightarrow> AccountId \<Rightarrow> (AccountId \<times> nat) list \<Rightarrow> Exposure \<Rightarrow> Exposure" where
  "collect_exposure to_currency validator [] e = e"
| "collect_exposure to_currency validator ((nominator, weight) # voters) e =
     (let stake = to_currency weight;
          e1 = (if nominator = validator then e\<lparr>ex_own := sat_add_u128 (ex_own e) stake\<rparr>
                else e\<lparr>ex_others := ex_others e @ [\<lparr>ie_who = nominator, ie_value = stake\<rparr>]\<rparr>)
      in collect_exposure to_currency validator voters
           (e1\<lparr>ex_total := sat_add_u128 (ex_total e1) stake\<rparr>))"

definition collect_exposures ::
  "'w staking_config \<Rightarrow> Supports \<Rightarrow> 'w staking \<Rightarrow> (AccountId \<times> Exposure) list" where
  "collect_exposures T supports s =
     (let total_issuance = cur_total_issuance (T_currency T) (world s)
      in map (\<lambda>(validator, voters).
           (validator, collect_exposure (\<lambda>e. T_to_currency T e total_issuance) validator voters
              Exposure_default)) supports)"

definition clip_exposure :: "u32 \<Rightarrow> Exposure \<Rightarrow> Exposure" where
  "clip_exposure clipped_max_len e =
     (if length (ex_others e) > clipped_max_len
      then e\<lparr>ex_others := take clipped_max_len (sort_key (\<lambda>o1. - int (ie_value o1)) (ex_others e))\<rparr>
      else e)"

definition store_exposure ::
  "'w staking_config \<Rightarrow> EraIndex \<Rightarrow> Balance \<times> 'w staking \<Rightarrow> AccountId \<times> Exposure \<Rightarrow>
     Balance \<times> 'w staking" where
  "store_exposure T era acc x =
     (case acc of (total_stake, s) \<Rightarrow> case x of (stash, exposure) \<Rightarrow>
        (sat_add_u128 total_stake (ex_total exposure),
         s\<lparr>ErasStakers := (ErasStakers s)(era := (ErasStakers s era)(stash \<mapsto> exposure)),
           ErasStakersClipped := (ErasStakersClipped s)(era := (ErasStakersClipped s era)
             (stash \<mapsto> clip_exposure (T_MaxNominatorRewardedPerValidator T) exposure))\<rparr>))"

definition store_stakers_info ::
  "'w staking_config \<Rightarrow> (AccountId \<times> Exposure) list \<Rightarrow> EraIndex \<Rightarrow> 'w staking \<Rightarrow>
     AccountId list \<times> 'w staking" where
  "store_stakers_info T exposures new_planned_era s =
     (let elected_stashes = map fst exposures
      in case foldl (store_exposure T new_planned_era) (0, s) exposures of
           (total_stake, s1) \<Rightarrow>
             (let s2 = s1\<lparr>ErasTotalStake := (ErasTotalStake s1)(new_planned_era \<mapsto> total_stake)\<rparr>
              in (elected_stashes,
                  foldl (\<lambda>st stash.
                      st\<lparr>ErasValidatorPrefs := (ErasValidatorPrefs st)(new_planned_era :=
                           (ErasValidatorPrefs st new_planned_era)(stash \<mapsto> validator_prefs st stash))\<rparr>)
                    s2 elected_stashes)))"

definition clear_era_information :: "EraIndex \<Rightarrow> 'w staking \<Rightarrow> 'w staking" where
  "clear_era_information era_index s =
     s\<lparr>ErasStakers := (ErasStakers s)(era_index := Map.empty),
       ErasStakersClipped := (ErasStakersClipped s)(era_index := Map.empty),
       ErasValidatorPrefs := (ErasValidatorPrefs s)(era_index := Map.empty),
       ErasValidatorReward := (ErasValidatorReward s)(era_index := None),
       ErasRewardPoints := (ErasRewardPoints s)(era_index := None),
       ErasTotalStake := (ErasTotalStake s)(era_index := None),
       ErasNotClaimedReward := (ErasNotClaimedReward s)(era_index := None),
       ErasStartSessionIndex := (ErasStartSessionIndex s)(era_index := None)\<rparr>"

definition trigger_new_era ::
  "'w staking_config \<Rightarrow> SessionIndex \<Rightarrow> (AccountId \<times> Exposure) list \<Rightarrow> 'w staking \<Rightarrow>
     AccountId list \<times> 'w staking" where
  "trigger_new_era T start_session_index exposures s =
     (let new_planned_era = (case CurrentEra s of None \<Rightarrow> 0 | Some e \<Rightarrow> add_u32 e 1);
          s1 = s\<lparr>CurrentEra := Some new_planned_era,
                 ErasStartSessionIndex :=
                   (ErasStartSessionIndex s)(new_planned_era \<mapsto> start_session_index)\<rparr>;
          s2 = (case checked_sub new_planned_era (add_u32 (HistoryDepth s1) 1) of
                  Some old_era \<Rightarrow> clear_era_information old_era s1
                | None \<Rightarrow> s1)
      in store_stakers_info T exposures new_planned_era s2)"

definition try_trigger_new_era ::
  "'w staking_config \<Rightarrow> SessionIndex \<Rightarrow> bool \<Rightarrow> 'w staking \<Rightarrow> AccountId list option \<times> 'w staking" where
  "try_trigger_new_era T start_session_index is_genesis s =
     (case (if is_genesis then T_elect_genesis T s else T_elect T s) of
        (None, w) \<Rightarrow> (None, deposit_event StakingElectionFailed (set_world w s))
      | (Some election_result, w) \<Rightarrow>
          (let s1 = set_world w s;
               exposures = collect_exposures T election_result s1
           in if length exposures < max (MinimumValidatorCount s1) 1
              then (let s2 = (case CurrentEra s1 of
                                None \<Rightarrow> s1\<lparr>CurrentEra := Some 0,
                                          ErasStartSessionIndex :=
                                            (ErasStartSessionIndex s1)(0 \<mapsto> start_session_index)\<rparr>
                              | Some _ \<Rightarrow> s1)
                    in (None, deposit_event StakingElectionFailed s2))
              else
                (case trigger_new_era T start_session_index exposures
                        (deposit_event StakersElected s1) of
                   (validators, s2) \<Rightarrow> (Some validators, s2))))"

definition new_session ::
  "'w staking_config \<Rightarrow> SessionIndex \<Rightarrow> bool \<Rightarrow> 'w staking \<Rightarrow> AccountId list option \<times> 'w staking" where
  "new_session T session_index is_genesis s =
     (case CurrentEra s of
        None \<Rightarrow> try_trigger_new_era T session_index is_genesis s
      | Some current_era \<Rightarrow>
          (let current_era_start_session_index =
                 (case ErasStartSessionIndex s current_era of None \<Rightarrow> 0 | Some i \<Rightarrow> i);
               era_length = session_index - current_era_start_session_index;
               proceed = (case ForceEra s of
                            ForceNew \<Rightarrow> True
                          | ForceAlways \<Rightarrow> True
                          | NotForcing \<Rightarrow> era_length \<ge> T_SessionsPerEra T
                          | ForceNone \<Rightarrow> False)
           in if \<not> proceed then (None, s)
              else
                (case try_trigger_new_era T session_index is_genesis s of
                   (maybe_new_era_validators, s1) \<Rightarrow>
                     (if maybe_new_era_validators \<noteq> None \<and> ForceEra s1 = ForceNew
                      then (maybe_new_era_validators, s1\<lparr>ForceEra := NotForcing\<rparr>)
                      else (maybe_new_era_validators, s1)))))"

subsection \<open>Starting and ending eras\<close>

definition apply_slashes :: "'w staking_config \<Rightarrow> EraIndex \<Rightarrow> UnappliedSlash list \<Rightarrow> 'w staking \<Rightarrow> 'w staking" where
  "apply_slashes T era slashes s = foldl (\<lambda>st slash. apply_slash T slash era st) s slashes"

definition apply_era_slashes :: "'w staking_config \<Rightarrow> 'w staking \<Rightarrow> EraIndex \<Rightarrow> 'w staking" where
  "apply_era_slashes T s era =
     apply_slashes T era (unapplied_slashes s era)
       (s\<lparr>UnappliedSlashes := (UnappliedSlashes s)(era := None)\<rparr>)"

definition apply_unapplied_slashes :: "'w staking_config \<Rightarrow> EraIndex \<Rightarrow> 'w staking \<Rightarrow> 'w staking" where
  "apply_unapplied_slashes T active_era s =
     (case EarliestUnappliedSlash s of
        None \<Rightarrow> s
      | Some earliest \<Rightarrow>
          (let keep_from = active_era - T_SlashDeferDuration T;
               s1 = foldl (apply_era_slashes T) s [earliest..<keep_from]
           in s1\<lparr>EarliestUnappliedSlash := Some (max earliest keep_from)\<rparr>))"

definition next_active_era :: "'w staking \<Rightarrow> EraIndex" where
  "next_active_era s = (case ActiveEra s of None \<Rightarrow> 0 | Some e \<Rightarrow> add_u32 (ae_index e) 1)"

text \<open>The update of \<^verbatim>\<open>BondedEras\<close> in \<^verbatim>\<open>start_era\<close>.\<close>

definition push_bonded_era ::
  "'w staking_config \<Rightarrow> EraIndex \<Rightarrow> SessionIndex \<Rightarrow> 'w staking \<Rightarrow> 'w staking" where
  "push_bonded_era T active_era start_session s =
     (let bonding_duration = T_BondingDuration T;
          bonded = BondedEras s @ [(active_era, start_session)]
      in if active_era > bonding_duration
         then (let first_kept = active_era - bonding_duration;
                   n_to_prune = length (takeWhile (\<lambda>(era_idx, _). era_idx < first_kept) bonded);
                   s1 = foldl (\<lambda>st (pruned_era, _). clear_era_metadata pruned_era st) s
                          (take n_to_prune bonded);
                   bonded' = drop n_to_prune bonded;
                   s2 = (case bonded' of
                           [] \<Rightarrow> s1
                         | (_, first_session) # _ \<Rightarrow>
                             set_world (T_prune_historical_up_to T first_session (world s1)) s1)
               in s2\<lparr>BondedEras := bonded'\<rparr>)
         else s\<lparr>BondedEras := bonded\<rparr>)"

definition start_era :: "'w staking_config \<Rightarrow> SessionIndex \<Rightarrow> 'w staking \<Rightarrow> 'w staking" where
  "start_era T start_session s =
     (let active_era = next_active_era s;
          s1 = s\<lparr>ActiveEra := Some \<lparr>ae_index = active_era, ae_start = None\<rparr>\<rparr>;
          s2 = push_bonded_era T active_era start_session s1
      in apply_unapplied_slashes T active_era s2)"

definition start_session :: "'w staking_config \<Rightarrow> SessionIndex \<Rightarrow> 'w staking \<Rightarrow> 'w staking" where
  "start_session T start_session_index s =
     (let s1 = (case ErasStartSessionIndex s (next_active_era s) of
                  None \<Rightarrow> s
                | Some next_start \<Rightarrow>
                    (if next_start = start_session_index then start_era T start_session_index s
                     else if next_start < start_session_index then start_era T start_session_index s
                     else s))
      in foldl (\<lambda>st (index, disabled).
             if disabled then set_world (T_disable_validator T index (world st)) st else st)
           s1 (OffendingValidators s1))"

definition end_era :: "'w staking_config \<Rightarrow> ActiveEraInfo \<Rightarrow> 'w staking \<Rightarrow> 'w staking" where
  "end_era T active_era s =
     (case ae_start active_era of
        None \<Rightarrow> s
      | Some _ \<Rightarrow>
          (let s1 = set_world (T_trigger_wallet T (world s)) s;
               total_fund = fund_balance T s1;
               not_claimed_reward = get_total_not_claimed_reward (ae_index active_era) s1;
               era_reward = total_fund - not_claimed_reward;
               s2 = deposit_event (EraPaid (ae_index active_era) era_reward) s1
           in s2\<lparr>ErasValidatorReward := (ErasValidatorReward s2)(ae_index active_era \<mapsto> era_reward),
                 ErasNotClaimedReward := (ErasNotClaimedReward s2)(ae_index active_era \<mapsto> era_reward),
                 OffendingValidators := []\<rparr>))"

definition end_session :: "'w staking_config \<Rightarrow> SessionIndex \<Rightarrow> 'w staking \<Rightarrow> 'w staking" where
  "end_session T session_index s =
     (case ActiveEra s of
        None \<Rightarrow> s
      | Some active_era \<Rightarrow>
          (case ErasStartSessionIndex s (add_u32 (ae_index active_era) 1) of
             None \<Rightarrow> s
           | Some next_start \<Rightarrow>
               (if next_start = add_u32 session_index 1 then end_era T active_era s else s)))"

subsection \<open>Reward points\<close>

definition add_points :: "EraRewardPoints \<Rightarrow> AccountId \<times> u32 \<Rightarrow> EraRewardPoints" where
  "add_points era_rewards x =
     (case x of (validator, points) \<Rightarrow>
        \<lparr>erp_total = add_u32 (erp_total era_rewards) points,
         erp_individual = (erp_individual era_rewards)(validator \<mapsto>
           add_u32 (case erp_individual era_rewards validator of None \<Rightarrow> 0 | Some p \<Rightarrow> p) points)\<rparr>)"

definition reward_by_ids :: "(AccountId \<times> u32) list \<Rightarrow> 'w staking \<Rightarrow> 'w staking" where
  "reward_by_ids validators_points s =
     (case ActiveEra s of
        None \<Rightarrow> s
      | Some active_era \<Rightarrow>
          s\<lparr>ErasRewardPoints := (ErasRewardPoints s)(ae_index active_era \<mapsto>
              foldl add_points (eras_reward_points s (ae_index active_era)) validators_points)\<rparr>)"

subsection \<open>Removing a stash\<close>

definition kill_stash ::
  "'w staking_config \<Rightarrow> AccountId \<Rightarrow> u32 \<Rightarrow> 'w staking \<Rightarrow> (staking_error + unit) \<times> 'w staking" where
  "kill_stash T stash num_slashing_spans s =
     (case Bonded s stash of
        None \<Rightarrow> (Inl NotStash, s)
      | Some controller \<Rightarrow>
          (case clear_stash_metadata stash num_slashing_spans s of
             (Inl e, s1) \<Rightarrow> (Inl e, s1)
           | (Inr _, s1) \<Rightarrow>
               (let s2 = s1\<lparr>Bonded := (Bonded s1)(stash := None),
                            Ledger := (Ledger s1)(controller := None),
                            Payee := (Payee s1)(stash := None)\<rparr>;
                    s3 = snd (do_remove_validator T stash s2);
                    s4 = snd (do_remove_nominator T stash s3)
                in (Inr (), set_world (T_dec_consumers T stash (world s4)) s4))))"

subsection \<open>Lemmas: what applying a slash leaves alone\<close>

lemma do_slash_frame:
  assumes "do_slash T stash value payout imb era s = (payout', imb', s')"
  shows "ErasNotClaimedReward s' = ErasNotClaimedReward s" "HistoryDepth s' = HistoryDepth s"
    "ValidatorCount s' = ValidatorCount s" "MinimumValidatorCount s' = MinimumValidatorCount s"
    "Invulnerables s' = Invulnerables s" "Bonded s' = Bonded s"
    "MinNominatorBond s' = MinNominatorBond s" "MinValidatorBond s' = MinValidatorBond s"
    "MinCommission s' = MinCommission s" "Payee s' = Payee s" "Validators s' = Validators s"
    "CounterForValidators s' = CounterForValidators s"
    "MaxValidatorsCount s' = MaxValidatorsCount s" "Nominators s' = Nominators s"
    "CounterForNominators s' = CounterForNominators s"
    "MaxNominatorsCount s' = MaxNominatorsCount s" "CurrentEra s' = CurrentEra s"
    "ActiveEra s' = ActiveEra s" "ErasStartSessionIndex s' = ErasStartSessionIndex s"
    "ErasStakers s' = ErasStakers s" "ErasStakersClipped s' = ErasStakersClipped s"
    "ErasValidatorPrefs s' = ErasValidatorPrefs s" "ErasValidatorReward s' = ErasValidatorReward s"
    "ErasRewardPoints s' = ErasRewardPoints s" "ErasTotalStake s' = ErasTotalStake s"
    "ForceEra s' = ForceEra s" "SlashRewardFraction s' = SlashRewardFraction s"
    "CanceledSlashPayout s' = CanceledSlashPayout s" "UnappliedSlashes s' = UnappliedSlashes s"
    "BondedEras s' = BondedEras s" "ValidatorSlashInEra s' = ValidatorSlashInEra s"
    "NominatorSlashInEra s' = NominatorSlashInEra s" "SlashingSpansOf s' = SlashingSpansOf s"
    "SpanSlash s' = SpanSlash s" "EarliestUnappliedSlash s' = EarliestUnappliedSlash s"
    "CurrentPlannedSession s' = CurrentPlannedSession s"
    "OffendingValidators s' = OffendingValidators s" "StorageVersion s' = StorageVersion s"
    "ChillThreshold s' = ChillThreshold s"
  using assms by (auto simp: do_slash_def Let_def split: option.splits prod.splits if_splits)

lemma do_slash_others_frame:
  assumes "do_slash_others T others payout imb era s = (payout', imb', s')"
  shows "ErasNotClaimedReward s' = ErasNotClaimedReward s \<and>
    HistoryDepth s' = HistoryDepth s \<and> ValidatorCount s' = ValidatorCount s \<and>
    MinimumValidatorCount s' = MinimumValidatorCount s \<and>
    Invulnerables s' = Invulnerables s \<and> Bonded s' = Bonded s \<and>
    MinNominatorBond s' = MinNominatorBond s \<and>
    MinValidatorBond s' = MinValidatorBond s \<and> MinCommission s' = MinCommission s \<and>
    Payee s' = Payee s \<and> Validators s' = Validators s \<and>
    CounterForValidators s' = CounterForValidators s \<and>
    MaxValidatorsCount s' = MaxValidatorsCount s \<and> Nominators s' = Nominators s \<and>
    CounterForNominators s' = CounterForNominators s \<and>
    MaxNominatorsCount s' = MaxNominatorsCount s \<and> CurrentEra s' = CurrentEra s \<and>
    ActiveEra s' = ActiveEra s \<and> ErasStartSessionIndex s' = ErasStartSessionIndex s \<and>
    ErasStakers s' = ErasStakers s \<and> ErasStakersClipped s' = ErasStakersClipped s \<and>
    ErasValidatorPrefs s' = ErasValidatorPrefs s \<and>
    ErasValidatorReward s' = ErasValidatorReward s \<and>
    ErasRewardPoints s' = ErasRewardPoints s \<and> ErasTotalStake s' = ErasTotalStake s \<and>
    ForceEra s' = ForceEra s \<and> SlashRewardFraction s' = SlashRewardFraction s \<and>
    CanceledSlashPayout s' = CanceledSlashPayout s \<and>
    UnappliedSlashes s' = UnappliedSlashes s \<and> BondedEras s' = BondedEras s \<and>
    ValidatorSlashInEra s' = ValidatorSlashInEra s \<and>
    NominatorSlashInEra s' = NominatorSlashInEra s \<and>
    SlashingSpansOf s' = SlashingSpansOf s \<and> SpanSlash s' = SpanSlash s \<and>
    EarliestUnappliedSlash s' = EarliestUnappliedSlash s \<and>
    CurrentPlannedSession s' = CurrentPlannedSession s \<and>
    OffendingValidators s' = OffendingValidators s \<and>
    StorageVersion s' = StorageVersion s \<and> ChillThreshold s' = ChillThreshold s"
  using assms
proof (induction others arbitrary: payout imb s)
  case Nil
  then show ?case by simp
next
  case (Cons x others)
  obtain who v where x: "x = (who, v)" by (cases x)
  obtain p1 i1 s1 where d: "do_slash T who v payout imb era s = (p1, i1, s1)" using prod_cases3 by blast
  with Cons.prems x have "do_slash_others T others p1 i1 era s1 = (payout', imb', s')" by simp
  from Cons.IH [OF this] show ?case by (simp add: do_slash_frame [OF d])
qed

lemma apply_slash_frame [simp]:
  "ErasNotClaimedReward (apply_slash T u era s) = ErasNotClaimedReward s"
  "HistoryDepth (apply_slash T u era s) = HistoryDepth s"
  "ValidatorCount (apply_slash T u era s) = ValidatorCount s"
  "MinimumValidatorCount (apply_slash T u era s) = MinimumValidatorCount s"
  "Invulnerables (apply_slash T u era s) = Invulnerables s"
  "Bonded (apply_slash T u era s) = Bonded s"
  "MinNominatorBond (apply_slash T u era s) = MinNominatorBond s"
  "MinValidatorBond (apply_slash T u era s) = MinValidatorBond s"
  "MinCommission (apply_slash T u era s) = MinCommission s"
  "Payee (apply_slash T u era s) = Payee s" "Validators (apply_slash T u era s) = Validators s"
  "CounterForValidators (apply_slash T u era s) = CounterForValidators s"
  "MaxValidatorsCount (apply_slash T u era s) = MaxValidatorsCount s"
  "Nominators (apply_slash T u era s) = Nominators s"
  "CounterForNominators (apply_slash T u era s) = CounterForNominators s"
  "MaxNominatorsCount (apply_slash T u era s) = MaxNominatorsCount s"
  "CurrentEra (apply_slash T u era s) = CurrentEra s"
  "ActiveEra (apply_slash T u era s) = ActiveEra s"
  "ErasStartSessionIndex (apply_slash T u era s) = ErasStartSessionIndex s"
  "ErasStakers (apply_slash T u era s) = ErasStakers s"
  "ErasStakersClipped (apply_slash T u era s) = ErasStakersClipped s"
  "ErasValidatorPrefs (apply_slash T u era s) = ErasValidatorPrefs s"
  "ErasValidatorReward (apply_slash T u era s) = ErasValidatorReward s"
  "ErasRewardPoints (apply_slash T u era s) = ErasRewardPoints s"
  "ErasTotalStake (apply_slash T u era s) = ErasTotalStake s"
  "ForceEra (apply_slash T u era s) = ForceEra s"
  "SlashRewardFraction (apply_slash T u era s) = SlashRewardFraction s"
  "CanceledSlashPayout (apply_slash T u era s) = CanceledSlashPayout s"
  "UnappliedSlashes (apply_slash T u era s) = UnappliedSlashes s"
  "BondedEras (apply_slash T u era s) = BondedEras s"
  "ValidatorSlashInEra (apply_slash T u era s) = ValidatorSlashInEra s"
  "NominatorSlashInEra (apply_slash T u era s) = NominatorSlashInEra s"
  "SlashingSpansOf (apply_slash T u era s) = SlashingSpansOf s"
  "SpanSlash (apply_slash T u era s) = SpanSlash s"
  "EarliestUnappliedSlash (apply_slash T u era s) = EarliestUnappliedSlash s"
  "CurrentPlannedSession (apply_slash T u era s) = CurrentPlannedSession s"
  "OffendingValidators (apply_slash T u era s) = OffendingValidators s"
  "StorageVersion (apply_slash T u era s) = StorageVersion s"
  "ChillThreshold (apply_slash T u era s) = ChillThreshold s"
proof -
  obtain p1 i1 s1 where 1: "do_slash T (us_validator u) (us_own u) (us_payout u) 0 era s = (p1, i1, s1)"
    using prod_cases3 by blast
  obtain p2 i2 s2 where 2: "do_slash_others T (us_others u) p1 i1 era s1 = (p2, i2, s2)"
    using prod_cases3 by blast
  have eq: "apply_slash T u era s = set_world (pay_reporters T p2 i2 (us_reporters u) (world s2)) s2"
    using 1 2 by (simp add: apply_slash_def)
  show
    "ErasNotClaimedReward (apply_slash T u era s) = ErasNotClaimedReward s"
    "HistoryDepth (apply_slash T u era s) = HistoryDepth s"
    "ValidatorCount (apply_slash T u era s) = ValidatorCount s"
    "MinimumValidatorCount (apply_slash T u era s) = MinimumValidatorCount s"
    "Invulnerables (apply_slash T u era s) = Invulnerables s"
    "Bonded (apply_slash T u era s) = Bonded s"
    "MinNominatorBond (apply_slash T u era s) = MinNominatorBond s"
    "MinValidatorBond (apply_slash T u era s) = MinValidatorBond s"
    "MinCommission (apply_slash T u era s) = MinCommission s"
    "Payee (apply_slash T u era s) = Payee s" "Validators (apply_slash T u era s) = Validators s"
    "CounterForValidators (apply_slash T u era s) = CounterForValidators s"
    "MaxValidatorsCount (apply_slash T u era s) = MaxValidatorsCount s"
    "Nominators (apply_slash T u era s) = Nominators s"
    "CounterForNominators (apply_slash T u era s) = CounterForNominators s"
    "MaxNominatorsCount (apply_slash T u era s) = MaxNominatorsCount s"
    "CurrentEra (apply_slash T u era s) = CurrentEra s"
    "ActiveEra (apply_slash T u era s) = ActiveEra s"
    "ErasStartSessionIndex (apply_slash T u era s) = ErasStartSessionIndex s"
    "ErasStakers (apply_slash T u era s) = ErasStakers s"
    "ErasStakersClipped (apply_slash T u era s) = ErasStakersClipped s"
    "ErasValidatorPrefs (apply_slash T u era s) = ErasValidatorPrefs s"
    "ErasValidatorReward (apply_slash T u era s) = ErasValidatorReward s"
    "ErasRewardPoints (apply_slash T u era s) = ErasRewardPoints s"
    "ErasTotalStake (apply_slash T u era s) = ErasTotalStake s"
    "ForceEra (apply_slash T u era s) = ForceEra s"
    "SlashRewardFraction (apply_slash T u era s) = SlashRewardFraction s"
    "CanceledSlashPayout (apply_slash T u era s) = CanceledSlashPayout s"
    "UnappliedSlashes (apply_slash T u era s) = UnappliedSlashes s"
    "BondedEras (apply_slash T u era s) = BondedEras s"
    "ValidatorSlashInEra (apply_slash T u era s) = ValidatorSlashInEra s"
    "NominatorSlashInEra (apply_slash T u era s) = NominatorSlashInEra s"
    "SlashingSpansOf (apply_slash T u era s) = SlashingSpansOf s"
    "SpanSlash (apply_slash T u era s) = SpanSlash s"
    "EarliestUnappliedSlash (apply_slash T u era s) = EarliestUnappliedSlash s"
    "CurrentPlannedSession (apply_slash T u era s) = CurrentPlannedSession s"
    "OffendingValidators (apply_slash T u era s) = OffendingValidators s"
    "StorageVersion (apply_slash T u era s) = StorageVersion s"
    "ChillThreshold (apply_slash T u era s) = ChillThreshold s"
    by (simp_all add: eq do_slash_others_frame [OF 2] do_slash_frame [OF 1])
qed

subsection \<open>Lemmas: deferred slashes\<close>

lemma apply_slashes_frame:
  "UnappliedSlashes (apply_slashes T era us s) = UnappliedSlashes s"
  "EarliestUnappliedSlash (apply_slashes T era us s) = EarliestUnappliedSlash s"
  "Bonded (apply_slashes T era us s) = Bonded s"
  "BondedEras (apply_slashes T era us s) = BondedEras s"
  "ActiveEra (apply_slashes T era us s) = ActiveEra s"
  "CurrentEra (apply_slashes T era us s) = CurrentEra s"
  by (induction us arbitrary: s) (simp_all add: apply_slashes_def)

lemma ledgers_wf_apply_slashes: "ledgers_wf s \<Longrightarrow> ledgers_wf (apply_slashes T era us s)"
  by (induction us arbitrary: s) (simp_all add: apply_slashes_def ledgers_wf_apply_slash)

lemma apply_eras_spec:
  "UnappliedSlashes (foldl (apply_era_slashes T) s eras) =
      (\<lambda>e. if e \<in> set eras then None else UnappliedSlashes s e) \<and>
    Bonded (foldl (apply_era_slashes T) s eras) = Bonded s \<and>
    BondedEras (foldl (apply_era_slashes T) s eras) = BondedEras s \<and>
    ActiveEra (foldl (apply_era_slashes T) s eras) = ActiveEra s \<and>
    CurrentEra (foldl (apply_era_slashes T) s eras) = CurrentEra s \<and>
    (ledgers_wf s \<longrightarrow> ledgers_wf (foldl (apply_era_slashes T) s eras))"
proof (induction eras arbitrary: s)
  case Nil
  then show ?case by simp
next
  case (Cons e eras)
  have "ledgers_wf s \<Longrightarrow> ledgers_wf (apply_era_slashes T s e)"
    unfolding apply_era_slashes_def by (rule ledgers_wf_apply_slashes) (simp add: ledgers_wf_def)
  with Cons [of "apply_era_slashes T s e"] show ?case
    by (auto simp: apply_era_slashes_def apply_slashes_frame)
qed

lemma apply_unapplied_slashes_spec:
  assumes "EarliestUnappliedSlash s = Some earliest" and "s' = apply_unapplied_slashes T active s"
  shows "UnappliedSlashes s' =
      (\<lambda>e. if earliest \<le> e \<and> e < active - T_SlashDeferDuration T then None else UnappliedSlashes s e)"
    and "EarliestUnappliedSlash s' = Some (max earliest (active - T_SlashDeferDuration T))"
  using apply_eras_spec [of T s "[earliest..<active - T_SlashDeferDuration T]"] assms
  by (simp_all add: apply_unapplied_slashes_def Let_def)

lemma apply_unapplied_slashes_keeps:
  "Bonded (apply_unapplied_slashes T active s) = Bonded s"
  "BondedEras (apply_unapplied_slashes T active s) = BondedEras s"
  "ActiveEra (apply_unapplied_slashes T active s) = ActiveEra s"
  "CurrentEra (apply_unapplied_slashes T active s) = CurrentEra s"
  "ledgers_wf s \<Longrightarrow> ledgers_wf (apply_unapplied_slashes T active s)"
  using apply_eras_spec [of T s]
  by (auto simp: apply_unapplied_slashes_def Let_def ledgers_wf_def split: option.splits)

lemma do_slash_queue:
  "do_slash T stash v p i era (s\<lparr>UnappliedSlashes := q\<rparr>) =
    (case do_slash T stash v p i era s of (p', i', s') \<Rightarrow> (p', i', s'\<lparr>UnappliedSlashes := q\<rparr>))"
  by (simp add: do_slash_def Let_def update_ledger_def deposit_event_def split: option.split prod.split)

lemma do_slash_others_queue:
  "do_slash_others T us p i era (s\<lparr>UnappliedSlashes := q\<rparr>) =
    (case do_slash_others T us p i era s of (p', i', s') \<Rightarrow> (p', i', s'\<lparr>UnappliedSlashes := q\<rparr>))"
proof (induction us arbitrary: p i s)
  case (Cons u us)
  then show ?case by (cases u) (simp add: do_slash_queue split: prod.split)
qed simp

lemma apply_slash_queue:
  "apply_slash T u era (s\<lparr>UnappliedSlashes := q\<rparr>) = (apply_slash T u era s)\<lparr>UnappliedSlashes := q\<rparr>"
  by (simp add: apply_slash_def do_slash_queue do_slash_others_queue split: prod.split)

lemma apply_slashes_queue:
  "apply_slashes T era us (s\<lparr>UnappliedSlashes := q\<rparr>) = (apply_slashes T era us s)\<lparr>UnappliedSlashes := q\<rparr>"
  by (induction us arbitrary: s) (simp_all add: apply_slashes_def apply_slash_queue)

text \<open>The slashes queued for a list of eras, each with its era, in the order of the eras and of the queue.\<close>

definition due_slashes :: "'w staking \<Rightarrow> EraIndex list \<Rightarrow> (EraIndex \<times> UnappliedSlash) list" where
  "due_slashes s eras = concat (map (\<lambda>e. map (Pair e) (unapplied_slashes s e)) eras)"

lemma apply_slashes_fold:
  "apply_slashes T era us s = fold (\<lambda>(e, u). apply_slash T u e) (map (Pair era) us) s"
  by (induction us arbitrary: s) (simp_all add: apply_slashes_def)

lemma apply_eras_fold:
  assumes "distinct eras"
  shows "foldl (apply_era_slashes T) s eras =
    (fold (\<lambda>(e, u). apply_slash T u e) (due_slashes s eras) s)
      \<lparr>UnappliedSlashes := (\<lambda>e. if e \<in> set eras then None else UnappliedSlashes s e)\<rparr>"
  using assms
proof (induction eras arbitrary: s)
  case Nil
  then show ?case by (simp add: due_slashes_def)
next
  case (Cons e eras)
  let ?run = "\<lambda>us. fold (\<lambda>(e, u). apply_slash T u e) us"
  let ?q = "(UnappliedSlashes s)(e := None)"
  let ?s1 = "?run (map (Pair e) (unapplied_slashes s e)) s"
  have one: "apply_era_slashes T s e = ?s1\<lparr>UnappliedSlashes := ?q\<rparr>"
    by (simp only: apply_era_slashes_def apply_slashes_queue) (simp only: apply_slashes_fold)
  have queue: "?run us (t\<lparr>UnappliedSlashes := q\<rparr>) = (?run us t)\<lparr>UnappliedSlashes := q\<rparr>" for us t q
    by (induction us arbitrary: t) (auto simp: apply_slash_queue)
  have "due_slashes (?s1\<lparr>UnappliedSlashes := ?q\<rparr>) eras = due_slashes s eras"
    using Cons.prems unfolding due_slashes_def
    by (intro arg_cong [where f = concat] map_cong refl) (auto simp: unapplied_slashes_def)
  with Cons one show ?case
    by (auto simp: queue due_slashes_def fun_eq_iff intro!: arg_cong [where f = "\<lambda>q. _\<lparr>UnappliedSlashes := q\<rparr>"])
qed

text \<open>What the ledger of a controller holds, and what a list of events reports as slashed from the stashes bonded
  to it. Applying slashes takes exactly what it reports.\<close>

definition ledger_total :: "'w staking \<Rightarrow> AccountId \<Rightarrow> Balance" where
  "ledger_total s c = (case Ledger s c of None \<Rightarrow> 0 | Some l \<Rightarrow> sl_total l)"

definition slashed_from :: "'w staking \<Rightarrow> AccountId \<Rightarrow> staking_event list \<Rightarrow> Balance" where
  "slashed_from s c evs = (\<Sum>e\<leftarrow>evs. case e of Slashed stash v \<Rightarrow> if Bonded s stash = Some c then v else 0 | _ \<Rightarrow> 0)"

definition slash_reported :: "'w staking \<Rightarrow> 'w staking \<Rightarrow> bool" where
  "slash_reported s s' \<longleftrightarrow> Bonded s' = Bonded s \<and>
     (\<exists>evs. staking_events s' = staking_events s @ evs \<and>
        (\<forall>c. ledger_total s' c + slashed_from s c evs = ledger_total s c))"

lemma slashed_from_append: "slashed_from s c (xs @ ys) = slashed_from s c xs + slashed_from s c ys"
  by (simp add: slashed_from_def)

lemma slashed_from_cong: "Bonded t = Bonded s \<Longrightarrow> slashed_from t = slashed_from s"
  by (intro ext) (simp add: slashed_from_def cong: staking_event.case_cong)

lemma slash_reported_refl: "slash_reported s s"
  by (simp add: slash_reported_def slashed_from_def)

lemma slash_reported_trans: "slash_reported s t \<Longrightarrow> slash_reported t u \<Longrightarrow> slash_reported s u"
proof -
  assume 1: "slash_reported s t" and 2: "slash_reported t u"
  then have b: "Bonded t = Bonded s" "Bonded u = Bonded s" by (simp_all add: slash_reported_def)
  from 1 obtain xs where xs: "staking_events t = staking_events s @ xs"
    "\<And>c. ledger_total t c + slashed_from s c xs = ledger_total s c" by (auto simp: slash_reported_def)
  from 2 obtain ys where ys: "staking_events u = staking_events t @ ys"
    "\<And>c. ledger_total u c + slashed_from t c ys = ledger_total t c" by (auto simp: slash_reported_def)
  have "ledger_total u c + slashed_from s c (xs @ ys) = ledger_total s c" for c
    using xs(2) [of c] ys(2) [of c] slashed_from_cong [OF b(1)] by (simp add: slashed_from_append)
  with xs(1) ys(1) b(2) show "slash_reported s u" by (auto simp: slash_reported_def)
qed

lemma slash_reported_do_slash:
  assumes "ledgers_wf s" and "do_slash T stash v p i era s = (p', i', s')"
  shows "slash_reported s s'"
  using assms(2)
proof (cases rule: do_slash_cases)
  case nothing
  then show ?thesis by (simp add: slash_reported_def ledger_total_def slashed_from_def)
next
  case (slashed c l v' l' w1 w2 imb missing)
  then have "wf_ledger l" using assms(1) by (auto simp: ledgers_wf_def)
  with ledger_slash_spec [OF this slashed(4)] slashed show ?thesis
    by (auto simp: slash_reported_def ledger_total_def slashed_from_def)
qed

lemma slash_reported_others:
  assumes "ledgers_wf s" and "do_slash_others T us p i era s = (p', i', s')"
  shows "slash_reported s s'"
  using assms
proof (induction us arbitrary: p i s)
  case Nil
  then show ?case by (simp add: slash_reported_refl)
next
  case (Cons u us)
  obtain who v where u: "u = (who, v)" by (cases u)
  obtain p1 i1 s1 where d: "do_slash T who v p i era s = (p1, i1, s1)" using prod_cases3 by blast
  from Cons.prems(2) u d have "do_slash_others T us p1 i1 era s1 = (p', i', s')" by simp
  with Cons.IH [OF ledgers_wf_do_slash [OF Cons.prems(1) d]] slash_reported_do_slash [OF Cons.prems(1) d]
  show ?case by (blast intro: slash_reported_trans)
qed

lemma slash_reported_apply:
  assumes "ledgers_wf s"
  shows "slash_reported s (apply_slash T u era s)"
proof -
  obtain p1 i1 s1 where 1: "do_slash T (us_validator u) (us_own u) (us_payout u) 0 era s = (p1, i1, s1)"
    using prod_cases3 by blast
  obtain p2 i2 s2 where 2: "do_slash_others T (us_others u) p1 i1 era s1 = (p2, i2, s2)"
    using prod_cases3 by blast
  have "slash_reported s s2"
    using slash_reported_do_slash [OF assms 1] slash_reported_others [OF ledgers_wf_do_slash [OF assms 1] 2]
    by (rule slash_reported_trans)
  with 1 2 show ?thesis by (simp add: apply_slash_def slash_reported_def ledger_total_def)
qed

lemma slash_reported_fold:
  "ledgers_wf s \<Longrightarrow> slash_reported s (fold (\<lambda>(e, u). apply_slash T u e) us s)"
proof (induction us arbitrary: s)
  case (Cons x us)
  then show ?case
    by (cases x) (auto intro: slash_reported_trans slash_reported_apply ledgers_wf_apply_slash)
qed (simp add: slash_reported_refl)

subsection \<open>Lemmas: the window of bonded eras\<close>

definition bonded_eras_window :: "EraIndex \<Rightarrow> 'w staking \<Rightarrow> bool" where
  "bonded_eras_window bonding_duration s \<longleftrightarrow>
     (case ActiveEra s of
        None \<Rightarrow> BondedEras s = []
      | Some a \<Rightarrow> map fst (BondedEras s) = [ae_index a - bonding_duration ..< Suc (ae_index a)])"

lemma drop_while_upt:
  "drop (length (takeWhile (\<lambda>x. x < k) [a..<b])) [a..<b] = [max a k..<b]"
proof (induction "b - a" arbitrary: a)
  case 0
  then show ?case by simp
next
  case (Suc n)
  then have ab: "[a..<b] = a # [Suc a..<b]" by (simp add: upt_conv_Cons)
  show ?case
  proof (cases "a < k")
    case True
    have "drop (length (takeWhile (\<lambda>x. x < k) [Suc a..<b])) [Suc a..<b] = [max (Suc a) k..<b]"
      using Suc by (intro Suc.hyps(1)) simp
    with True show ?thesis unfolding ab by (simp add: max_def del: drop_upt)
  next
    case False
    with ab show ?thesis by simp
  qed
qed

lemma map_fst_drop_while:
  assumes "map fst xs = [a..<b]"
  shows "map fst (drop (length (takeWhile (\<lambda>(e, _). e < k) xs)) xs) = [max a k..<b]"
proof -
  have "length (takeWhile (\<lambda>(e, _). e < k) xs) = length (takeWhile (\<lambda>x. x < k) (map fst xs))"
    by (simp add: takeWhile_map comp_def case_prod_unfold)
  then show ?thesis
    unfolding drop_map [symmetric] assms by (simp only: drop_while_upt)
qed

lemma clear_eras_frame:
  "BondedEras (foldl (\<lambda>st (e, _). clear_era_metadata e st) s xs) = BondedEras s"
  "ActiveEra (foldl (\<lambda>st (e, _). clear_era_metadata e st) s xs) = ActiveEra s"
  "Bonded (foldl (\<lambda>st (e, _). clear_era_metadata e st) s xs) = Bonded s"
  "Ledger (foldl (\<lambda>st (e, _). clear_era_metadata e st) s xs) = Ledger s"
  by (induction xs arbitrary: s) (auto simp: clear_era_metadata_def)

lemma push_bonded_era_window:
  assumes "map fst (BondedEras s @ [(n, session)]) = [n - Suc (T_BondingDuration T)..<Suc n]"
  shows "map fst (BondedEras (push_bonded_era T n session s)) = [n - T_BondingDuration T..<Suc n]"
proof (cases "T_BondingDuration T < n")
  case True
  let ?b = "BondedEras s @ [(n, session)]"
  have "BondedEras (push_bonded_era T n session s) =
      drop (length (takeWhile (\<lambda>(e, _). e < n - T_BondingDuration T) ?b)) ?b"
    using True by (simp add: push_bonded_era_def Let_def del: drop_append)
  with map_fst_drop_while [OF assms, of "n - T_BondingDuration T"] show ?thesis
    by (simp add: max_def del: drop_append)
next
  case False
  with assms show ?thesis by (simp add: push_bonded_era_def)
qed

lemma push_bonded_era_frame:
  "ActiveEra (push_bonded_era T n session s) = ActiveEra s"
  "Bonded (push_bonded_era T n session s) = Bonded s"
  "Ledger (push_bonded_era T n session s) = Ledger s"
  by (simp_all add: push_bonded_era_def Let_def clear_eras_frame
      del: take_append drop_append foldl_append split: list.splits prod.splits)

lemma start_era_window [step_intros]:
  assumes "bonded_eras_window (T_BondingDuration T) s"
    and "\<And>a. ActiveEra s = Some a \<Longrightarrow> ae_index a < u32_max"
  shows "bonded_eras_window (T_BondingDuration T) (start_era T session s)"
    and "ActiveEra (start_era T session s) =
      Some \<lparr>ae_index = (case ActiveEra s of None \<Rightarrow> 0 | Some a \<Rightarrow> Suc (ae_index a)), ae_start = None\<rparr>"
proof -
  let ?n = "case ActiveEra s of None \<Rightarrow> 0 | Some a \<Rightarrow> Suc (ae_index a)"
  have n: "next_active_era s = ?n"
    using assms(2) by (auto simp: next_active_era_def width_simps split: option.splits)
  have "map fst (BondedEras s @ [(?n, session)]) = [?n - Suc (T_BondingDuration T)..<Suc ?n]"
    using assms(1) by (auto simp: bonded_eras_window_def split: option.splits)
  then show "bonded_eras_window (T_BondingDuration T) (start_era T session s)"
    and "ActiveEra (start_era T session s) = Some \<lparr>ae_index = ?n, ae_start = None\<rparr>"
    using push_bonded_era_window [of "s\<lparr>ActiveEra := Some \<lparr>ae_index = ?n, ae_start = None\<rparr>\<rparr>" ?n session T]
    by (simp_all add: start_era_def n bonded_eras_window_def apply_unapplied_slashes_keeps
        push_bonded_era_frame Let_def)
qed

subsection \<open>Lemmas: the fund and its reserves\<close>

lemma foldl_reserve_eq:
  "a \<le> u128_max \<Longrightarrow>
    foldl (\<lambda>r e. case m e of None \<Rightarrow> r | Some x \<Rightarrow> sat_add_u128 r x) a eras =
    min u128_max (a + (\<Sum>e\<leftarrow>eras. case m e of None \<Rightarrow> 0 | Some x \<Rightarrow> x))"
proof (induction eras arbitrary: a)
  case Nil
  then show ?case by simp
next
  case (Cons e eras)
  show ?case
  proof (cases "m e")
    case None
    with Cons show ?thesis by simp
  next
    case (Some x)
    have "foldl (\<lambda>r e. case m e of None \<Rightarrow> r | Some x \<Rightarrow> sat_add_u128 r x) (sat_add_u128 a x) eras =
        min u128_max (sat_add_u128 a x + (\<Sum>e\<leftarrow>eras. case m e of None \<Rightarrow> 0 | Some x \<Rightarrow> x))"
      by (rule Cons.IH) simp
    with Some show ?thesis by (simp add: sat_add_def min_def)
  qed
qed

text \<open>What is reserved for the eras that can still be claimed once era \<open>last\<close> has ended.\<close>

definition reserved_eras :: "'w staking \<Rightarrow> EraIndex \<Rightarrow> EraIndex list" where
  "reserved_eras s lst = [lst - sub_u32 (HistoryDepth s) 1 ..< Suc lst]"

definition reserved :: "'w staking \<Rightarrow> EraIndex list \<Rightarrow> Balance" where
  "reserved s eras = (\<Sum>era\<leftarrow>eras. eras_not_claimed_reward s era)"

lemma get_total_not_claimed_reward_eq:
  "get_total_not_claimed_reward a s =
     min u128_max (reserved s [a - sub_u32 (HistoryDepth s) 1 ..< a])"
  unfolding get_total_not_claimed_reward_def reserved_def eras_not_claimed_reward_def
  using foldl_reserve_eq [of 0] by simp

lemma reserved_update:
  assumes "ErasNotClaimedReward s' = (ErasNotClaimedReward s)(a \<mapsto> x)" and "a \<notin> set eras"
  shows "reserved s' (eras @ [a]) = reserved s eras + x"
proof -
  have "map (eras_not_claimed_reward s') eras = map (eras_not_claimed_reward s) eras"
    using assms by (intro map_cong) (auto simp: eras_not_claimed_reward_def)
  then have "reserved s' eras = reserved s eras" by (simp only: reserved_def)
  with assms(1) show ?thesis by (simp add: reserved_def eras_not_claimed_reward_def)
qed

lemma end_era_spec:
  assumes "ae_start a = Some t"
  shows "ErasNotClaimedReward (end_era T a s) = (ErasNotClaimedReward s)(ae_index a \<mapsto>
      fund_balance T (end_era T a s) - get_total_not_claimed_reward (ae_index a) s)"
    and "ErasValidatorReward (end_era T a s) = (ErasValidatorReward s)(ae_index a \<mapsto>
      fund_balance T (end_era T a s) - get_total_not_claimed_reward (ae_index a) s)"
    and "HistoryDepth (end_era T a s) = HistoryDepth s"
    and "OffendingValidators (end_era T a s) = []"
  using assms
  by (simp_all add: end_era_def Let_def fund_balance_def get_total_not_claimed_reward_def)

lemma end_era_reserved:
  assumes "ae_start a = Some t"
    and "reserved s [ae_index a - sub_u32 (HistoryDepth s) 1 ..< ae_index a] \<le> u128_max"
  shows "reserved (end_era T a s) (reserved_eras (end_era T a s) (ae_index a)) =
    max (fund_balance T (end_era T a s))
        (reserved s [ae_index a - sub_u32 (HistoryDepth s) 1 ..< ae_index a])"
proof -
  let ?old = "[ae_index a - sub_u32 (HistoryDepth s) 1 ..< ae_index a]"
  have eras: "reserved_eras (end_era T a s) (ae_index a) = ?old @ [ae_index a]"
    using end_era_spec(3) [OF assms(1), of T s] by (simp add: reserved_eras_def)
  have tot: "get_total_not_claimed_reward (ae_index a) s = reserved s ?old"
    using assms(2) by (simp add: get_total_not_claimed_reward_eq)
  show ?thesis
    unfolding eras using reserved_update [OF end_era_spec(1) [OF assms(1), of T s]] tot by simp
qed

lemma payout_window:
  assumes "fst (do_payout_stakers T v era s) \<noteq> Inl InvalidEraToReward"
    and "CurrentEra s = Some (Suc a)" and "era \<le> a"
    and "0 < HistoryDepth s" and "HistoryDepth s \<le> u32_max"
  shows "era \<in> set (reserved_eras s a)"
proof -
  have "sub_u32 (HistoryDepth s) 1 = HistoryDepth s - 1"
    using assms(4,5) by (simp add: width_simps)
  moreover have "Suc a - HistoryDepth s \<le> era"
    using assms(1,2) by (auto simp: do_payout_stakers_def payout_checks_def Let_def split: if_splits)
  ultimately show ?thesis using assms(3) by (auto simp: reserved_eras_def)
qed

subsection \<open>Lemmas: payouts\<close>

text \<open>A payment changes at most the amounts of one ledger.\<close>

definition ledger_claims ::
  "(AccountId \<rightharpoonup> StakingLedger) \<Rightarrow> AccountId \<rightharpoonup> AccountId \<times> EraIndex list \<times> UnlockChunk list" where
  "ledger_claims m c = map_option (\<lambda>l. (sl_stash l, sl_claimed_rewards l, sl_unlocking l)) (m c)"

definition same_claims :: "'w staking \<Rightarrow> 'w staking \<Rightarrow> bool" where
  "same_claims s s' \<longleftrightarrow>
     ledger_claims (Ledger s') = ledger_claims (Ledger s) \<and>
     Bonded s' = Bonded s \<and> CurrentEra s' = CurrentEra s \<and> HistoryDepth s' = HistoryDepth s \<and>
     ErasValidatorReward s' = ErasValidatorReward s \<and>
     ErasNotClaimedReward s' = ErasNotClaimedReward s \<and> Payee s' = Payee s \<and>
     Validators s' = Validators s \<and> Nominators s' = Nominators s \<and>
     CounterForValidators s' = CounterForValidators s \<and> CounterForNominators s' = CounterForNominators s \<and>
     OffendingValidators s' = OffendingValidators s"

lemma same_claims_refl: "same_claims s s"
  by (simp add: same_claims_def)

lemma same_claims_trans: "same_claims s s1 \<Longrightarrow> same_claims s1 s2 \<Longrightarrow> same_claims s s2"
  by (simp add: same_claims_def)

lemma same_claims_world_event:
  "same_claims s (set_world w s)" "same_claims s (deposit_event e s)"
  by (simp_all add: same_claims_def)

lemma same_claims_update_ledger:
  assumes "Ledger s c = Some l" and "sl_stash l' = sl_stash l"
    and "sl_claimed_rewards l' = sl_claimed_rewards l" and "sl_unlocking l' = sl_unlocking l"
  shows "same_claims s (update_ledger T c l' (set_world w s))"
  using assms by (auto simp: same_claims_def ledger_claims_def)

lemma make_payout_same_claims:
  assumes "make_payout T stash amount s = (r, s')"
  shows "same_claims s s'"
proof (cases "payee s stash")
  case RdStaked
  show ?thesis
  proof (cases "Option.bind (Bonded s stash) (Ledger s)")
    case None
    with RdStaked assms have "s' = s"
      by (auto simp: make_payout_def Let_def split: option.splits bind_splits)
    then show ?thesis by (simp add: same_claims_refl)
  next
    case (Some l)
    then obtain c where c: "Bonded s stash = Some c" "Ledger s c = Some l"
      by (auto simp: bind_eq_Some_conv)
    with RdStaked assms obtain w where
      "s' = update_ledger T c (l\<lparr>sl_active := add_u128 (sl_active l) amount,
         sl_total := add_u128 (sl_total l) amount\<rparr>) (set_world w s)"
      by (auto simp: make_payout_def Let_def split: prod.splits)
    then show ?thesis using same_claims_update_ledger [OF c(2)] by simp
  qed
qed (use assms in \<open>auto simp: make_payout_def Let_def same_claims_refl same_claims_world_event
    split: option.splits prod.splits\<close>)

lemma pay_staker_same_claims:
  assumes "pay_staker T stash amount (x, n, s) = (x', n', s')"
  shows "same_claims s s'"
proof -
  obtain r s1 where m: "make_payout T stash amount s = (r, s1)" by fastforce
  with assms have "s' = s1 \<or> (\<exists>e. s' = deposit_event e s1)"
    by (auto simp: pay_staker_def split: option.splits)
  with make_payout_same_claims [OF m] same_claims_world_event(2) show ?thesis
    by (metis same_claims_trans)
qed

lemma pay_stakers_same_claims:
  "foldl (\<lambda>acc n. pay_staker T (f n) (g n) acc) (x, n, s) ns = (x', n', s') \<Longrightarrow> same_claims s s'"
proof (induction ns arbitrary: x n s)
  case Nil
  then show ?case by (simp add: same_claims_refl)
next
  case (Cons y ns)
  obtain x1 n1 s1 where p: "pay_staker T (f y) (g y) (x, n, s) = (x1, n1, s1)"
    using prod_cases3 by blast
  with Cons.prems have "foldl (\<lambda>acc n. pay_staker T (f n) (g n) acc) (x1, n1, s1) ns = (x', n', s')"
    by simp
  from same_claims_trans [OF pay_staker_same_claims [OF p] Cons.IH [OF this]] show ?case .
qed

lemma pay_exposure_same_claims:
  assumes "pay_exposure T stash exposure cp lp s = (x', n', s')"
  shows "same_claims s s'"
proof -
  let ?a = "add_u128 (perbill_mul (T_perthings T)
      (perbill_from_rational (T_perthings T) (ex_own exposure) (ex_total exposure)) lp) cp"
  obtain x1 n1 s1 where p: "pay_staker T stash ?a (0, 0, s) = (x1, n1, s1)" using prod_cases3 by blast
  from assms p have "same_claims s1 s'"
    unfolding pay_exposure_def Let_def by (auto intro: pay_stakers_same_claims)
  with pay_staker_same_claims [OF p] show ?thesis by (rule same_claims_trans)
qed


lemma payout_checks_Inr:
  assumes "payout_checks v era s = Inr (ep, c, l')"
  obtains cur l pos where
    "CurrentEra s = Some cur" "era \<le> cur" "cur - HistoryDepth s \<le> era"
    "ErasValidatorReward s era = Some ep" "Bonded s v = Some c" "Ledger s c = Some l"
    "search_claimed (filter (\<lambda>x. x \<ge> cur - HistoryDepth s) (sl_claimed_rewards l)) era = Inr pos"
    "l' = l\<lparr>sl_claimed_rewards :=
       insert_at pos era (filter (\<lambda>x. x \<ge> cur - HistoryDepth s) (sl_claimed_rewards l))\<rparr>"
  using assms by (auto simp: payout_checks_def Let_def split: option.splits if_splits sum.splits)

text \<open>Whether or not the settlement succeeds, the ledgers keep the mark of the era.\<close>

lemma payout_pay_same_claims:
  assumes "payout_pay T v era ep c l s = (r, s')"
  shows "same_claims (s\<lparr>Ledger := (Ledger s)(c \<mapsto> l)\<rparr>)
    (s'\<lparr>ErasNotClaimedReward := ErasNotClaimedReward s\<rparr>)"
    and "\<And>e. r = Inl e \<Longrightarrow> e = CannotPayout"
proof -
  let ?s1 = "s\<lparr>Ledger := (Ledger s)(c \<mapsto> l)\<rparr>"
  let ?s2 = "deposit_event (PayoutStarted era (sl_stash l)) ?s1"
  have nc: "same_claims ?s1 (st\<lparr>ErasNotClaimedReward := ErasNotClaimedReward s\<rparr>)"
    if "same_claims ?s1 (st\<lparr>ErasNotClaimedReward := m\<rparr>)" for st m
    using that by (simp add: same_claims_def)
  have zero: "thesis" if "erp_individual (eras_reward_points ?s1 era) (sl_stash l) \<in> {None, Some 0}"
    "s' = ?s1 \<Longrightarrow> thesis" for thesis
    using assms that by (auto simp: payout_pay_def Let_def)
  have pays: "thesis" if pos: "erp_individual (eras_reward_points ?s1 era) (sl_stash l) \<notin> {None, Some 0}"
    and cont: "\<And>e cp lp x n s3 w. pay_exposure T (sl_stash l) e cp lp ?s2 = (x, n, s3) \<Longrightarrow>
       s' = set_world w s3 \<or> s' = update_not_claimed_reward era x (set_world w s3) \<Longrightarrow> thesis" for thesis
  proof -
    obtain p where p: "erp_individual (eras_reward_points ?s1 era) (sl_stash l) = Some p" "p \<noteq> 0"
      using pos by auto
    obtain cp lp where cl: "validator_leftover_payout (T_perthings T)
        (vp_commission (eras_validator_prefs ?s1 era v))
        (perbill_mul (T_perthings T)
          (perbill_from_rational (T_perthings T) p (erp_total (eras_reward_points ?s1 era))) ep) = (cp, lp)"
      by fastforce
    obtain x n s3 where pe: "pay_exposure T (sl_stash l) (eras_stakers_clipped s era (sl_stash l)) cp lp
        ?s2 = (x, n, s3)" using prod_cases3 by blast
    obtain b w where st: "cur_settle (T_currency T) (T_fund_account T) x KeepAlive (world s3) = (b, w)"
      by fastforce
    show thesis
      using assms p cl pe st by (intro cont [OF pe, of "if b then w else cur_drop_positive (T_currency T) x w"])
        (cases b; simp add: payout_pay_def Let_def)
  qed
  show "same_claims ?s1 (s'\<lparr>ErasNotClaimedReward := ErasNotClaimedReward s\<rparr>)"
  proof (cases "erp_individual (eras_reward_points ?s1 era) (sl_stash l) \<in> {None, Some 0}")
    case True
    then show ?thesis by (rule zero) (simp add: same_claims_def)
  next
    case False
    then show ?thesis
    proof (rule pays)
      fix e cp lp x n s3 w
      assume pe: "pay_exposure T (sl_stash l) e cp lp ?s2 = (x, n, s3)"
        and s': "s' = set_world w s3 \<or> s' = update_not_claimed_reward era x (set_world w s3)"
      from pay_exposure_same_claims [OF pe] s' show ?thesis
        by (auto simp: same_claims_def update_not_claimed_reward_def split: option.splits)
    qed
  qed
  show "e = CannotPayout" if "r = Inl e" for e
    using assms that by (auto simp: payout_pay_def Let_def split: if_splits prod.splits bool.splits)
qed

lemma do_payout_stakers_error:
  assumes "do_payout_stakers T v era s = (Inl e, s')" and "e \<noteq> CannotPayout"
  shows "s' = s"
  using assms payout_pay_same_claims(2)
  by (fastforce simp: do_payout_stakers_def split: sum.splits)


text \<open>The claimed eras of a ledger are sorted without repetition.\<close>

definition claims_sorted :: "'w staking \<Rightarrow> bool" where
  "claims_sorted s \<longleftrightarrow> (\<forall>c l. Ledger s c = Some l \<longrightarrow> sorted_wrt (<) (sl_claimed_rewards l))"

lemma search_claimed_Inr:
  assumes "sorted_wrt (<) xs" and "search_claimed xs era = Inr pos"
  shows "era \<notin> set xs" and "pos = search_pos xs era"
proof -
  show pos: "pos = search_pos xs era"
    using assms(2) by (auto simp: search_claimed_def Let_def split: if_splits)
  show "era \<notin> set xs"
    using search_pos_present [OF assms(1), of era] assms(2)
    by (auto simp: search_claimed_def Let_def split: if_splits)
qed

lemma search_claimed_Inl:
  assumes "sorted_wrt (<) xs" and "era \<in> set xs"
  shows "\<exists>pos. search_claimed xs era = Inl pos"
  using search_pos_present [OF assms] by (simp add: search_claimed_def Let_def)

lemma same_claims_sym: "same_claims s s' \<Longrightarrow> same_claims s' s"
  by (simp add: same_claims_def)

lemma same_claims_Ledger:
  assumes "same_claims s s'" and "Ledger s c = Some l"
  obtains l' where "Ledger s' c = Some l'" "sl_claimed_rewards l' = sl_claimed_rewards l"
    "sl_stash l' = sl_stash l" "sl_unlocking l' = sl_unlocking l"
proof -
  have "ledger_claims (Ledger s') c = ledger_claims (Ledger s) c"
    using assms(1) by (simp add: same_claims_def)
  with assms(2) that show thesis by (auto simp: ledger_claims_def)
qed

lemma same_claims_sorted:
  assumes "same_claims s s'" and "claims_sorted s"
  shows "claims_sorted s'"
  unfolding claims_sorted_def
proof (intro allI impI)
  fix c l
  assume "Ledger s' c = Some l"
  then obtain l0 where "Ledger s c = Some l0" "sl_claimed_rewards l0 = sl_claimed_rewards l"
    by (rule same_claims_Ledger [OF same_claims_sym [OF assms(1)]])
  with assms(2) show "sorted_wrt (<) (sl_claimed_rewards l)" by (metis claims_sorted_def)
qed

lemma do_payout_stakers_marks:
  assumes "claims_sorted s" and "do_payout_stakers T v era s = (r, s')"
    and "\<And>e. r = Inl e \<Longrightarrow> e = CannotPayout"
  obtains c l l' cur where "Bonded s v = Some c" "Ledger s c = Some l" "CurrentEra s = Some cur"
    "era \<notin> set (filter (\<lambda>x. x \<ge> cur - HistoryDepth s) (sl_claimed_rewards l))"
    "Ledger s' c = Some l'" "era \<in> set (sl_claimed_rewards l')"
    "cur - HistoryDepth s \<le> era" "era \<le> cur"
    "Bonded s' = Bonded s" "CurrentEra s' = CurrentEra s" "HistoryDepth s' = HistoryDepth s"
    "ErasValidatorReward s' = ErasValidatorReward s" "claims_sorted s'"
    "ErasValidatorReward s era \<noteq> None"
proof -
  obtain ep c l1 where ch: "payout_checks v era s = Inr (ep, c, l1)"
    and pay: "payout_pay T v era ep c l1 s = (r, s')"
  proof (cases "payout_checks v era s")
    case (Inl e)
    with assms(2,3) have "e = CannotPayout" by (auto simp: do_payout_stakers_def)
    with Inl have False by (auto simp: payout_checks_def Let_def split: option.splits if_splits sum.splits)
    then show ?thesis ..
  next
    case (Inr x)
    obtain ep c l1 where "x = (ep, c, l1)" using prod_cases3 by blast
    with Inr assms(2) that show ?thesis by (simp add: do_payout_stakers_def)
  qed
  from ch obtain cur l pos where k:
    "CurrentEra s = Some cur" "era \<le> cur" "cur - HistoryDepth s \<le> era"
    "ErasValidatorReward s era = Some ep" "Bonded s v = Some c" "Ledger s c = Some l"
    "search_claimed (filter (\<lambda>x. x \<ge> cur - HistoryDepth s) (sl_claimed_rewards l)) era = Inr pos"
    "l1 = l\<lparr>sl_claimed_rewards :=
       insert_at pos era (filter (\<lambda>x. x \<ge> cur - HistoryDepth s) (sl_claimed_rewards l))\<rparr>"
    by (rule payout_checks_Inr)
  let ?f = "filter (\<lambda>x. x \<ge> cur - HistoryDepth s) (sl_claimed_rewards l)"
  have srt: "sorted_wrt (<) ?f" using assms(1) k(6) by (auto simp: claims_sorted_def sorted_wrt_filter)
  note new = search_claimed_Inr [OF srt k(7)]
  have "claims_sorted (s\<lparr>Ledger := (Ledger s)(c \<mapsto> l1)\<rparr>)"
    using assms(1) k(8) new sorted_insert_search_pos [OF srt new(1)] by (auto simp: claims_sorted_def)
  note same = payout_pay_same_claims(1) [OF pay]
  have sorted': "claims_sorted s'"
    using same_claims_sorted [OF same \<open>claims_sorted (s\<lparr>Ledger := _\<rparr>)\<close>] by (simp add: claims_sorted_def)
  obtain l' where "Ledger s' c = Some l'" "sl_claimed_rewards l' = sl_claimed_rewards l1"
    using same_claims_Ledger [OF same, of c l1] by auto
  with that [OF k(5,6,1) new(1) _ _ k(3,2)] same k(4,8) sorted' show thesis
    by (simp add: same_claims_def)
qed

lemma do_payout_stakers_again:
  assumes "claims_sorted s" and "do_payout_stakers T v era s = (r, s')"
    and "\<And>e. r = Inl e \<Longrightarrow> e = CannotPayout"
  shows "do_payout_stakers T v era s' = (Inl AlreadyClaimed, s')"
  using assms
proof (rule do_payout_stakers_marks)
  fix c l l' cur
  assume k: "Bonded s v = Some c" "CurrentEra s = Some cur" "Ledger s' c = Some l'"
    "era \<in> set (sl_claimed_rewards l')" "cur - HistoryDepth s \<le> era" "era \<le> cur"
    "Bonded s' = Bonded s" "CurrentEra s' = CurrentEra s" "HistoryDepth s' = HistoryDepth s"
    "ErasValidatorReward s' = ErasValidatorReward s" "claims_sorted s'"
    "ErasValidatorReward s era \<noteq> None"
  let ?f = "filter (\<lambda>x. x \<ge> cur - HistoryDepth s) (sl_claimed_rewards l')"
  have "sorted_wrt (<) ?f" using k(3,11) by (auto simp: claims_sorted_def sorted_wrt_filter)
  moreover have "era \<in> set ?f" using k(4,5) by simp
  ultimately obtain pos where "search_claimed ?f era = Inl pos" using search_claimed_Inl by blast
  with k show ?thesis by (auto simp: do_payout_stakers_def payout_checks_def Let_def)
qed

subsection \<open>Lemmas: exposures\<close>

definition others_sum :: "Exposure \<Rightarrow> Balance" where
  "others_sum e = sum_list (map ie_value (ex_others e))"

definition exposure_balanced :: "Exposure \<Rightarrow> bool" where
  "exposure_balanced e \<longleftrightarrow> ex_total e = ex_own e + others_sum e"

lemma collect_exposure_balanced:
  assumes "exposure_balanced e" and "ex_total e + (\<Sum>(_, w)\<leftarrow>voters. cur w) \<le> u128_max"
  shows "exposure_balanced (collect_exposure cur v voters e) \<and>
    ex_total (collect_exposure cur v voters e) = ex_total e + (\<Sum>(_, w)\<leftarrow>voters. cur w) \<and>
    ex_own (collect_exposure cur v voters e) =
      ex_own e + (\<Sum>(_, w)\<leftarrow>filter (\<lambda>(n, _). n = v) voters. cur w) \<and>
    map ie_who (ex_others (collect_exposure cur v voters e)) =
      map ie_who (ex_others e) @ map fst (filter (\<lambda>(n, _). n \<noteq> v) voters)"
  using assms
proof (induction voters arbitrary: e)
  case Nil
  then show ?case by simp
next
  case (Cons x voters)
  obtain n w where x: "x = (n, w)" by (cases x)
  let ?e1 = "if n = v then e\<lparr>ex_own := sat_add_u128 (ex_own e) (cur w)\<rparr>
    else e\<lparr>ex_others := ex_others e @ [\<lparr>ie_who = n, ie_value = cur w\<rparr>]\<rparr>"
  let ?e2 = "?e1\<lparr>ex_total := sat_add_u128 (ex_total ?e1) (cur w)\<rparr>"
  have fit: "ex_total e + cur w \<le> u128_max" "ex_own e + cur w \<le> u128_max"
    using Cons.prems x by (auto simp: exposure_balanced_def)
  then have "exposure_balanced ?e2" "ex_total ?e2 = ex_total e + cur w"
    using Cons.prems(1) by (auto simp: exposure_balanced_def others_sum_def width_simps)
  with Cons.IH [of ?e2] Cons.prems(2) fit show ?case
    by (auto simp: x Let_def width_simps)
qed

lemma clip_exposure_spec:
  assumes c_def: "c = clip_exposure n e"
  shows "length (ex_others c) \<le> n" and "ex_total c = ex_total e" and "ex_own c = ex_own e"
    and "mset (ex_others c) \<subseteq># mset (ex_others e)"
    and "\<forall>x \<in> set (ex_others c). \<forall>y \<in># mset (ex_others e) - mset (ex_others c). ie_value y \<le> ie_value x"
proof -
  show "ex_total c = ex_total e" "ex_own c = ex_own e" by (simp_all add: c_def clip_exposure_def)
  show "length (ex_others c) \<le> n" by (simp add: c_def clip_exposure_def)
  define srt where "srt = sort_key (\<lambda>o1. - int (ie_value o1)) (ex_others e)"
  have split: "mset (ex_others e) = mset (take n srt) + mset (drop n srt)"
    unfolding mset_append [symmetric] append_take_drop_id srt_def by simp
  have c: "ex_others c = take n srt \<or> ex_others c = ex_others e"
    by (simp add: c_def clip_exposure_def srt_def)
  then show "mset (ex_others c) \<subseteq># mset (ex_others e)" using split by auto
  have "sorted_wrt (\<lambda>x y. ie_value y \<le> ie_value x) srt"
    using sorted_sort_key [of "\<lambda>o1. - int (ie_value o1)" "ex_others e"]
    unfolding srt_def by (simp add: sorted_map)
  then have "\<forall>x \<in> set (take n srt). \<forall>y \<in> set (drop n srt). ie_value y \<le> ie_value x"
    using sorted_wrt_append [of "\<lambda>x y. ie_value y \<le> ie_value x" "take n srt" "drop n srt"] by simp
  with c split show "\<forall>x \<in> set (ex_others c). \<forall>y \<in># mset (ex_others e) - mset (ex_others c).
      ie_value y \<le> ie_value x" by auto
qed

subsection \<open>Lemmas: planning an era\<close>

text \<open>Storing the exposures of an era touches neither the stakers nor the progress of eras.\<close>

definition same_stakes :: "'w staking \<Rightarrow> 'w staking \<Rightarrow> bool" where
  "same_stakes s s' \<longleftrightarrow>
    CurrentEra s' = CurrentEra s \<and> ErasStartSessionIndex s' = ErasStartSessionIndex s \<and>
    ForceEra s' = ForceEra s \<and> Ledger s' = Ledger s \<and> Bonded s' = Bonded s \<and>
    Validators s' = Validators s \<and> Nominators s' = Nominators s \<and>
    CounterForValidators s' = CounterForValidators s \<and> CounterForNominators s' = CounterForNominators s \<and>
    Payee s' = Payee s \<and> OffendingValidators s' = OffendingValidators s \<and>
    SlashingSpansOf s' = SlashingSpansOf s \<and> ActiveEra s' = ActiveEra s \<and> BondedEras s' = BondedEras s"

lemma store_exposures_frame:
  assumes "foldl (store_exposure T era) (tot, s) xs = (tot', s')"
  shows "same_stakes s s'"
  using assms
proof (induction xs arbitrary: tot s)
  case Nil
  then show ?case by (simp add: same_stakes_def)
next
  case (Cons x xs)
  obtain t1 s1 where s1: "store_exposure T era (tot, s) x = (t1, s1)" by fastforce
  with Cons.prems have "same_stakes s1 s'" by (intro Cons.IH) simp
  moreover have "same_stakes s s1"
    using s1 by (auto simp: store_exposure_def same_stakes_def split: prod.splits)
  ultimately show ?case by (simp add: same_stakes_def)
qed

lemma store_prefs_frame:
  assumes "s' = foldl (\<lambda>st stash. st\<lparr>ErasValidatorPrefs := (ErasValidatorPrefs st)(era :=
     (ErasValidatorPrefs st era)(stash \<mapsto> validator_prefs st stash))\<rparr>) s xs"
  shows "same_stakes s s'"
  unfolding assms by (induction xs arbitrary: s) (simp_all add: same_stakes_def)

lemma store_stakers_info_frame:
  assumes "store_stakers_info T xs era s = (vs, s')"
  shows "vs = map fst xs \<and>
    same_stakes s s'"
proof -
  obtain tot s1 where s1: "foldl (store_exposure T era) (0, s) xs = (tot, s1)" by fastforce
  let ?s2 = "s1\<lparr>ErasTotalStake := (ErasTotalStake s1)(era \<mapsto> tot)\<rparr>"
  have "vs = map fst xs" and s': "s' = foldl (\<lambda>st stash. st\<lparr>ErasValidatorPrefs :=
     (ErasValidatorPrefs st)(era := (ErasValidatorPrefs st era)(stash \<mapsto> validator_prefs st stash))\<rparr>)
     ?s2 (map fst xs)"
    using assms s1 by (auto simp: store_stakers_info_def Let_def)
  with store_exposures_frame [OF s1] store_prefs_frame [OF s'] show ?thesis by (simp add: same_stakes_def)
qed

lemma trigger_new_era_spec:
  assumes "trigger_new_era T i xs s = (vs, s')"
    and "\<And>e. CurrentEra s = Some e \<Longrightarrow> e < u32_max" and "HistoryDepth s < u32_max"
  shows "vs = map fst xs"
    and "CurrentEra s' = Some (case CurrentEra s of None \<Rightarrow> 0 | Some e \<Rightarrow> Suc e)"
    and "ErasStartSessionIndex s' (case CurrentEra s of None \<Rightarrow> 0 | Some e \<Rightarrow> Suc e) = Some i"
    and "ForceEra s' = ForceEra s"
proof -
  let ?n = "case CurrentEra s of None \<Rightarrow> 0 | Some e \<Rightarrow> Suc e"
  have n: "(case CurrentEra s of None \<Rightarrow> 0 | Some e \<Rightarrow> add_u32 e 1) = ?n"
    using assms(2) by (auto simp: width_simps split: option.splits)
  let ?s1 = "s\<lparr>CurrentEra := Some ?n, ErasStartSessionIndex := (ErasStartSessionIndex s)(?n \<mapsto> i)\<rparr>"
  let ?s2 = "case checked_sub ?n (add_u32 (HistoryDepth ?s1) 1) of
      Some old \<Rightarrow> clear_era_information old ?s1 | None \<Rightarrow> ?s1"
  have st: "store_stakers_info T xs ?n ?s2 = (vs, s')"
    using assms(1) unfolding trigger_new_era_def n Let_def .
  have "add_u32 (HistoryDepth s) 1 = Suc (HistoryDepth s)" using assms(3) by (simp add: width_simps)
  then have "CurrentEra ?s2 = Some ?n" "ErasStartSessionIndex ?s2 ?n = Some i" "ForceEra ?s2 = ForceEra s"
    by (auto simp: clear_era_information_def split: option.splits)
  with store_stakers_info_frame [OF st] show "vs = map fst xs" "CurrentEra s' = Some ?n"
    "ErasStartSessionIndex s' ?n = Some i" "ForceEra s' = ForceEra s" by (simp_all add: same_stakes_def)
qed

lemma try_trigger_new_era_spec:
  assumes "try_trigger_new_era T i g s = (r, s')"
    and "CurrentEra s = Some e" and "e < u32_max" and "HistoryDepth s < u32_max"
  shows "case r of
      None \<Rightarrow> CurrentEra s' = Some e \<and> ForceEra s' = ForceEra s
    | Some vs \<Rightarrow> CurrentEra s' = Some (Suc e) \<and> ErasStartSessionIndex s' (Suc e) = Some i \<and>
        ForceEra s' = ForceEra s \<and> max (MinimumValidatorCount s) 1 \<le> length vs"
proof -
  obtain res w where el: "(if g then T_elect_genesis T s else T_elect T s) = (res, w)" by fastforce
  show ?thesis
  proof (cases res)
    case None
    with assms(1,2) el show ?thesis by (auto simp: try_trigger_new_era_def)
  next
    case (Some supports)
    let ?s1 = "set_world w s"
    let ?x = "collect_exposures T supports ?s1"
    show ?thesis
    proof (cases "length ?x < max (MinimumValidatorCount s) 1")
      case True
      with Some assms(1,2) el show ?thesis by (auto simp: try_trigger_new_era_def Let_def)
    next
      case False
      obtain vs s2 where t: "trigger_new_era T i ?x (deposit_event StakersElected ?s1) = (vs, s2)"
        by fastforce
      have "r = Some vs" "s' = s2"
        using Some False assms(1) el t by (auto simp: try_trigger_new_era_def Let_def)
      with trigger_new_era_spec [OF t] assms(2-4) False show ?thesis by (simp add: not_less)
    qed
  qed
qed

lemma new_session_spec:
  assumes "new_session T i g s = (r, s')"
    and "CurrentEra s = Some e" and "e < u32_max" and "HistoryDepth s < u32_max"
  shows "case r of
      None \<Rightarrow> CurrentEra s' = Some e \<and> ForceEra s' = ForceEra s
    | Some vs \<Rightarrow> CurrentEra s' = Some (Suc e) \<and> ErasStartSessionIndex s' (Suc e) = Some i \<and>
        ForceEra s' = (if ForceEra s = ForceNew then NotForcing else ForceEra s) \<and>
        max (MinimumValidatorCount s) 1 \<le> length vs \<and> ForceEra s \<noteq> ForceNone \<and>
        (ForceEra s = NotForcing \<longrightarrow> T_SessionsPerEra T \<le>
           i - (case ErasStartSessionIndex s e of None \<Rightarrow> 0 | Some j \<Rightarrow> j))"
proof -
  obtain r1 s1 where t: "try_trigger_new_era T i g s = (r1, s1)" by fastforce
  note spec = try_trigger_new_era_spec [OF t assms(2-4)]
  let ?len = "i - (case ErasStartSessionIndex s e of None \<Rightarrow> 0 | Some j \<Rightarrow> j)"
  show ?thesis
  proof (cases "ForceEra s = ForceNone \<or> (ForceEra s = NotForcing \<and> ?len < T_SessionsPerEra T)")
    case True
    with assms(1,2) have "r = None" "s' = s" by (auto simp: new_session_def Let_def)
    with assms(2) show ?thesis by simp
  next
    case False
    then have "r = r1 \<and> s' = (if r1 \<noteq> None \<and> ForceEra s1 = ForceNew then s1\<lparr>ForceEra := NotForcing\<rparr> else s1)"
      using assms(1,2) t by (auto simp: new_session_def Let_def split: Forcing.splits if_splits)
    with spec False show ?thesis by (auto split: option.splits)
  qed
qed

subsection \<open>Lemmas: reward points\<close>

definition points_sum :: "EraRewardPoints \<Rightarrow> AccountId set \<Rightarrow> nat" where
  "points_sum p A = (\<Sum>a\<in>A. case erp_individual p a of None \<Rightarrow> 0 | Some n \<Rightarrow> n)"

definition points_balanced :: "EraRewardPoints \<Rightarrow> bool" where
  "points_balanced p \<longleftrightarrow>
     finite (dom (erp_individual p)) \<and> erp_total p = points_sum p (dom (erp_individual p))"

lemma points_sum_mono:
  assumes "finite A" and "dom (erp_individual p) \<subseteq> A"
  shows "points_sum p A = points_sum p (dom (erp_individual p))"
  unfolding points_sum_def
  by (rule sum.mono_neutral_right) (use assms in \<open>auto simp: dom_def\<close>)

lemma add_points_balanced:
  assumes "points_balanced p" and "erp_total p + n \<le> u32_max"
  shows "points_balanced (add_points p (v, n)) \<and> erp_total (add_points p (v, n)) = erp_total p + n"
proof -
  let ?D = "insert v (dom (erp_individual p))"
  let ?old = "case erp_individual p v of None \<Rightarrow> 0 | Some x \<Rightarrow> x"
  have fin: "finite (dom (erp_individual p))" using assms(1) by (simp add: points_balanced_def)
  have tot: "erp_total p = points_sum p ?D"
    using assms(1) fin points_sum_mono [of ?D p] by (simp add: points_balanced_def subset_insertI)
  also have "\<dots> = ?old + points_sum p (?D - {v})"
    unfolding points_sum_def using fin by (subst sum.remove [of _ v]) auto
  finally have split: "erp_total p = ?old + points_sum p (?D - {v})" .
  then have old: "?old + n \<le> u32_max" using assms(2) by simp
  then have new: "erp_individual (add_points p (v, n)) = (erp_individual p)(v \<mapsto> ?old + n)"
    by (simp add: add_points_def width_simps)
  have "points_sum (add_points p (v, n)) ?D = (?old + n) + points_sum p (?D - {v})"
    unfolding points_sum_def using fin by (subst sum.remove [of _ v]) (auto simp: new intro!: sum.cong)
  moreover have "erp_total (add_points p (v, n)) = erp_total p + n"
    using assms(2) by (simp add: add_points_def width_simps)
  ultimately show ?thesis using split fin new by (simp add: points_balanced_def)
qed

lemma add_all_points_balanced:
  assumes "points_balanced p" and "erp_total p + sum_list (map snd vps) \<le> u32_max"
  shows "points_balanced (foldl add_points p vps) \<and>
    erp_total (foldl add_points p vps) = erp_total p + sum_list (map snd vps)"
  using assms
proof (induction vps arbitrary: p)
  case Nil
  then show ?case by simp
next
  case (Cons x vps)
  obtain v n where x: "x = (v, n)" by (cases x)
  have "points_balanced (add_points p x) \<and> erp_total (add_points p x) = erp_total p + n"
    using Cons.prems add_points_balanced [of p n v] by (simp add: x)
  with Cons.IH [of "add_points p x"] Cons.prems show ?case by (simp add: x)
qed

subsection \<open>Properties of eras and payouts\<close>

text \<open>C8. Solvency at the end of an era. The reward fixed for the era is what the fund holds beyond what is
  reserved for the earlier eras still claimable. So if the fund covers that reserve, then the reward and the
  reserve add up to exactly the balance of the fund; if the fund is short, the era gets nothing and the earlier
  reserve stays. The eras summed up are all those a payout accepts once the next era is current.\<close>

theorem end_era_reserves_fund:
  assumes "ae_start a = Some t" and "s' = end_era T a s"
    and "old = reserved s [ae_index a - sub_u32 (HistoryDepth s) 1 ..< ae_index a]" and "old \<le> u128_max"
    and "0 < HistoryDepth s" and "HistoryDepth s \<le> u32_max"
  shows "ErasValidatorReward s' (ae_index a) = Some (fund_balance T s' - old) \<and>
    ErasNotClaimedReward s' (ae_index a) = ErasValidatorReward s' (ae_index a) \<and>
    (old \<le> fund_balance T s' \<longrightarrow> reserved s' (reserved_eras s' (ae_index a)) = fund_balance T s') \<and>
    (fund_balance T s' < old \<longrightarrow> reserved s' (reserved_eras s' (ae_index a)) = old) \<and>
    (\<forall>v era. CurrentEra s' = Some (Suc (ae_index a)) \<and> era \<le> ae_index a \<and>
       fst (do_payout_stakers T v era s') \<noteq> Inl InvalidEraToReward \<longrightarrow>
       era \<in> set (reserved_eras s' (ae_index a)))"
proof -
  note spec = end_era_spec [OF assms(1), of T s, folded assms(2)]
  have old: "get_total_not_claimed_reward (ae_index a) s = old"
    using assms(3,4) by (simp add: get_total_not_claimed_reward_eq)
  have res: "reserved s' (reserved_eras s' (ae_index a)) = max (fund_balance T s') old"
    unfolding assms(2,3) by (rule end_era_reserved [OF assms(1) assms(4) [unfolded assms(3)]])
  have "era \<in> set (reserved_eras s' (ae_index a))"
    if "CurrentEra s' = Some (Suc (ae_index a))" "era \<le> ae_index a"
      "fst (do_payout_stakers T v era s') \<noteq> Inl InvalidEraToReward" for v era
    using payout_window [of T v era s' "ae_index a"] spec(3) assms(5,6) that by simp
  with spec(1,2) old res show ?thesis by auto
qed

theorem end_era_reserves_fund_witness:
  "reserved (end_era sample_T \<lparr>ae_index = 3, ae_start = Some 0\<rparr>
       (sample_staking\<lparr>ErasNotClaimedReward := [2 \<mapsto> 1000]\<rparr>)) [0, 1, 2, 3] = 400000000000000000"
proof -
  let ?a = "\<lparr>ae_index = 3, ae_start = Some 0\<rparr> :: ActiveEraInfo"
  let ?s = "sample_staking\<lparr>ErasNotClaimedReward := [2 \<mapsto> 1000]\<rparr>"
  have h: "ae_start ?a = Some 0"
    "1000 = reserved ?s [ae_index ?a - sub_u32 (HistoryDepth ?s) 1 ..< ae_index ?a]" "1000 \<le> u128_max"
    "0 < HistoryDepth ?s" "HistoryDepth ?s \<le> u32_max" by code_simp+
  have "reserved_eras (end_era sample_T ?a ?s) (ae_index ?a) = [0, 1, 2, 3]"
    "fund_balance sample_T (end_era sample_T ?a ?s) = 400000000000000000" by code_simp+
  with end_era_reserves_fund [OF h(1) refl h(2-5), of sample_T] show ?thesis by simp
qed

text \<open>C9. An era is paid out at most once: after a payout of an era to the stakers of a validator,
  whatever it paid and even if the fund could not settle it, the same payout is refused as already
  claimed and changes nothing; the era was in the history window and had not been claimed before.\<close>

theorem payout_at_most_once:
  assumes "claims_sorted s" and "do_payout_stakers T v era s = (r, s')"
    and "\<forall>e. r = Inl e \<longrightarrow> e = CannotPayout"
  shows "do_payout_stakers T v era s' = (Inl AlreadyClaimed, s') \<and> claims_sorted s' \<and>
    (\<exists>c l cur. Bonded s v = Some c \<and> Ledger s c = Some l \<and> CurrentEra s = Some cur \<and>
       era \<notin> set (sl_claimed_rewards l) \<and> cur - HistoryDepth s \<le> era \<and> era \<le> cur)"
proof -
  have e: "\<And>e. r = Inl e \<Longrightarrow> e = CannotPayout" using assms(3) by blast
  obtain c l cur where "Bonded s v = Some c" "Ledger s c = Some l" "CurrentEra s = Some cur"
    "era \<notin> set (filter (\<lambda>x. x \<ge> cur - HistoryDepth s) (sl_claimed_rewards l))"
    "cur - HistoryDepth s \<le> era" "era \<le> cur" "claims_sorted s'"
    by (rule do_payout_stakers_marks [OF assms(1,2) e])
  then show ?thesis using do_payout_stakers_again [OF assms(1,2) e] by auto
qed

definition sample_payout :: "bank staking" where
  "sample_payout =
     sample_staking\<lparr>ErasValidatorReward := [2 \<mapsto> 1000], ErasNotClaimedReward := [2 \<mapsto> 1000],
       ErasRewardPoints := [2 \<mapsto> \<lparr>erp_total = 20, erp_individual = [10 \<mapsto> 20]\<rparr>],
       ErasStakersClipped := (\<lambda>_. Map.empty)(2 := [10 \<mapsto>
         \<lparr>ex_total = 150, ex_own = 100, ex_others = [\<lparr>ie_who = 20, ie_value = 50\<rparr>]\<rparr>])\<rparr>"

theorem payout_at_most_once_witness:
  "do_payout_stakers sample_T 10 2 (snd (do_payout_stakers sample_T 10 2 sample_payout)) =
    (Inl AlreadyClaimed, snd (do_payout_stakers sample_T 10 2 sample_payout))"
proof -
  have s: "claims_sorted sample_payout"
    by (auto simp: claims_sorted_def sample_payout_def sample_staking_def split: if_splits)
  have "fst (do_payout_stakers sample_T 10 2 sample_payout) = Inr (Some 101)" by code_simp
  then have "\<forall>e. fst (do_payout_stakers sample_T 10 2 sample_payout) = Inl e \<longrightarrow> e = CannotPayout" by simp
  from payout_at_most_once [OF s surjective_pairing this] show ?thesis by blast
qed

text \<open>C10. Deferred slashes. At the start of an era the slashes of exactly the eras whose delay has passed are
  applied, era by era and in the order of the queue, and are taken out of it; the others stay and the earliest
  pending era moves up. The ledgers are those left when the stashes of these slashes, the validator of each and
  then its nominators, are slashed one after the other. Every ledger stays balanced and loses exactly what the events of these slashes report
  for the stashes bonded to its controller.\<close>

theorem deferred_slashes_applied:
  assumes "s' = apply_unapplied_slashes T active s"
  shows "case EarliestUnappliedSlash s of
      None \<Rightarrow> s' = s
    | Some earliest \<Rightarrow>
        s' = (fold (\<lambda>(e, u). apply_slash T u e) (due_slashes s [earliest ..< active - T_SlashDeferDuration T]) s)
          \<lparr>UnappliedSlashes := (\<lambda>e. if earliest \<le> e \<and> e < active - T_SlashDeferDuration T
              then None else UnappliedSlashes s e),
           EarliestUnappliedSlash := Some (max earliest (active - T_SlashDeferDuration T))\<rparr> \<and>
        Ledger s' = fold (slashed_ledgers T (Bonded s))
          (concat (map slash_targets (due_slashes s [earliest ..< active - T_SlashDeferDuration T]))) (Ledger s) \<and>
        (ledgers_wf s \<longrightarrow> ledgers_wf s' \<and>
          (\<exists>evs. staking_events s' = staking_events s @ evs \<and>
             (\<forall>c. ledger_total s' c + slashed_from s c evs = ledger_total s c)))"
proof (cases "EarliestUnappliedSlash s")
  case None
  with assms show ?thesis by (simp add: apply_unapplied_slashes_def)
next
  case (Some earliest)
  let ?eras = "[earliest ..< active - T_SlashDeferDuration T]"
  let ?run = "fold (\<lambda>(e, u). apply_slash T u e) (due_slashes s ?eras) s"
  have eq: "s' = ?run\<lparr>UnappliedSlashes := (\<lambda>e. if earliest \<le> e \<and> e < active - T_SlashDeferDuration T
              then None else UnappliedSlashes s e),
           EarliestUnappliedSlash := Some (max earliest (active - T_SlashDeferDuration T))\<rparr>"
    using assms Some by (simp add: apply_unapplied_slashes_def Let_def apply_eras_fold)
  have run: "staking_events s' = staking_events ?run" "Ledger s' = Ledger ?run" by (simp_all add: eq)
  have led: "Ledger s' = fold (slashed_ledgers T (Bonded s)) (concat (map slash_targets (due_slashes s ?eras))) (Ledger s)"
    using fold_slash_ledgers [of T "due_slashes s ?eras" s] run(2) by simp
  have "ledgers_wf s' \<and> (\<exists>evs. staking_events s' = staking_events s @ evs \<and>
       (\<forall>c. ledger_total s' c + slashed_from s c evs = ledger_total s c))" if wf: "ledgers_wf s"
    using slash_reported_fold [OF wf, of T "due_slashes s ?eras"]
      apply_unapplied_slashes_keeps(5) [OF wf, of T active, folded assms]
    by (simp add: slash_reported_def ledger_total_def run)
  with eq led Some show ?thesis by simp
qed

definition sample_deferred :: "bank staking" where
  "sample_deferred = sample_staking\<lparr>EarliestUnappliedSlash := Some 2,
     UnappliedSlashes := [2 \<mapsto> [\<lparr>us_validator = 10, us_own = 30, us_others = [(20, 40)], us_reporters = [7], us_payout = 6\<rparr>],
                          3 \<mapsto> [\<lparr>us_validator = 10, us_own = 9, us_others = [], us_reporters = [], us_payout = 1\<rparr>]]\<rparr>"

theorem deferred_slashes_applied_witness:
  "ledger_total (apply_unapplied_slashes sample_T 30 sample_deferred) 110 + 30 = 100 \<and>
   ledger_total (apply_unapplied_slashes sample_T 30 sample_deferred) 120 + 40 = 80"
proof -
  let ?s' = "apply_unapplied_slashes sample_T 30 sample_deferred"
  have wf: "ledgers_wf sample_deferred"
    by (auto simp: ledgers_wf_def sample_deferred_def sample_staking_def wf_ledger_def u128_max_def split: if_splits)
  have e: "EarliestUnappliedSlash sample_deferred = Some 2" "staking_events sample_deferred = []"
    "staking_events ?s' = [Slashed 10 30, Slashed 20 40]" "ledger_total sample_deferred 110 = 100"
    "ledger_total sample_deferred 120 = 80" "Bonded sample_deferred 10 = Some 110" "Bonded sample_deferred 20 = Some 120"
    by code_simp+
  from deferred_slashes_applied [OF refl, of sample_T 30 sample_deferred] wf obtain evs where
    evs: "staking_events ?s' = staking_events sample_deferred @ evs"
    "\<And>c. ledger_total ?s' c + slashed_from sample_deferred c evs = ledger_total sample_deferred c"
    unfolding e(1) by auto
  then have "evs = [Slashed 10 30, Slashed 20 40]" using e(2,3) by simp
  then show ?thesis using e(4-7) evs(2) [of 110] evs(2) [of 120] by (simp add: slashed_from_def)
qed

text \<open>The window of bonded eras: after the start of an era, the recorded eras are exactly those
  from the bonding duration before the active era up to it, in order.\<close>

theorem start_era_keeps_window:
  assumes "bonded_eras_window (T_BondingDuration T) s"
    and "\<forall>a. ActiveEra s = Some a \<longrightarrow> ae_index a < u32_max"
  shows "bonded_eras_window (T_BondingDuration T) (start_era T session s) \<and>
    ActiveEra (start_era T session s) =
      Some \<lparr>ae_index = (case ActiveEra s of None \<Rightarrow> 0 | Some a \<Rightarrow> Suc (ae_index a)), ae_start = None\<rparr>"
  using start_era_window [OF assms(1), of session] assms(2) by blast

theorem start_era_keeps_window_witness:
  "bonded_eras_window 28 (start_era sample_T 7 (staking_default sample_bank))"
proof -
  have "bonded_eras_window (T_BondingDuration sample_T) (staking_default sample_bank)"
    "T_BondingDuration sample_T = 28" "ActiveEra (staking_default sample_bank) = None" by code_simp+
  with start_era_keeps_window [of sample_T "staking_default sample_bank" 7] show ?thesis by simp
qed

text \<open>Planning: a session plans a new era only if that is forced, or the era has lasted its
  number of sessions and eras are not switched off. Then the current era advances by one and starts
  with the session, at least the minimum number of validators is elected, and a forced new era is
  reset; otherwise the current era and the forcing stay.\<close>

theorem new_session_plans_era:
  assumes "new_session T i g s = (r, s')"
    and "CurrentEra s = Some e" and "e < u32_max" and "HistoryDepth s < u32_max"
  shows "case r of
      None \<Rightarrow> CurrentEra s' = Some e \<and> ForceEra s' = ForceEra s
    | Some vs \<Rightarrow> CurrentEra s' = Some (Suc e) \<and> ErasStartSessionIndex s' (Suc e) = Some i \<and>
        ForceEra s' = (if ForceEra s = ForceNew then NotForcing else ForceEra s) \<and>
        max (MinimumValidatorCount s) 1 \<le> length vs \<and> ForceEra s \<noteq> ForceNone \<and>
        (ForceEra s = NotForcing \<longrightarrow> T_SessionsPerEra T \<le>
           i - (case ErasStartSessionIndex s e of None \<Rightarrow> 0 | Some j \<Rightarrow> j))"
  by (rule new_session_spec [OF assms])

theorem new_session_plans_era_witness:
  "CurrentEra (snd (new_session sample_T 24 False sample_staking)) = Some 4"
proof -
  have h: "CurrentEra sample_staking = Some 3" "(3 :: nat) < u32_max"
    "HistoryDepth sample_staking < u32_max" by code_simp+
  have "fst (new_session sample_T 24 False sample_staking) = Some [10, 11]" by code_simp
  with new_session_plans_era [OF surjective_pairing h, of sample_T 24 False] show ?thesis by simp
qed

text \<open>The exposure built from an election result is balanced: its total is the validator's own
  stake plus the stakes of the nominators and equals the support; own votes and nominators are kept
  apart. Clipping it for rewards keeps at most the allowed number of nominators, and nobody who is
  left out has more at stake than anybody who is kept.\<close>

theorem exposure_collected_and_clipped:
  assumes "(\<Sum>(_, w)\<leftarrow>voters. to_currency w) \<le> u128_max"
    and "e = collect_exposure to_currency v voters Exposure_default" and "c = clip_exposure n e"
  shows "ex_total e = ex_own e + others_sum e \<and> ex_total e = (\<Sum>(_, w)\<leftarrow>voters. to_currency w) \<and>
    map ie_who (ex_others e) = map fst (filter (\<lambda>(nominator, _). nominator \<noteq> v) voters) \<and>
    length (ex_others c) \<le> n \<and> mset (ex_others c) \<subseteq># mset (ex_others e) \<and>
    (\<forall>x \<in> set (ex_others c). \<forall>y \<in># mset (ex_others e) - mset (ex_others c). ie_value y \<le> ie_value x)"
proof -
  have "exposure_balanced Exposure_default" "ex_total Exposure_default = 0" "ex_others Exposure_default = []"
    by (simp_all add: exposure_balanced_def Exposure_default_def others_sum_def)
  with collect_exposure_balanced [of Exposure_default to_currency voters v] assms(1,2)
  have "ex_total e = ex_own e + others_sum e" "ex_total e = (\<Sum>(_, w)\<leftarrow>voters. to_currency w)"
    "map ie_who (ex_others e) = map fst (filter (\<lambda>(nominator, _). nominator \<noteq> v) voters)"
    by (simp_all add: exposure_balanced_def)
  with clip_exposure_spec [OF assms(3)] show ?thesis by blast
qed

theorem exposure_collected_and_clipped_witness:
  "ex_total (collect_exposure (\<lambda>w. w) 10 [(10, 100), (20, 50), (21, 70)] Exposure_default) = 220"
proof -
  have "(\<Sum>(_, w)\<leftarrow>[(10 :: nat, 100), (20, 50), (21, 70)]. w :: nat) \<le> u128_max" by code_simp
  from exposure_collected_and_clipped [OF this refl refl, of 10 1] show ?thesis by simp
qed

text \<open>Reward points: as long as the total of an era fits its type, it is the sum of the points
  of the validators, and \<open>reward_by_ids\<close> adds exactly the points given to the active era.\<close>

theorem reward_points_balanced:
  assumes "ActiveEra s = Some a" and "points_balanced (eras_reward_points s (ae_index a))"
    and "erp_total (eras_reward_points s (ae_index a)) + sum_list (map snd vps) \<le> u32_max"
  shows "points_balanced (eras_reward_points (reward_by_ids vps s) (ae_index a)) \<and>
    erp_total (eras_reward_points (reward_by_ids vps s) (ae_index a)) =
      erp_total (eras_reward_points s (ae_index a)) + sum_list (map snd vps)"
proof -
  have "eras_reward_points (reward_by_ids vps s) (ae_index a) =
      foldl add_points (eras_reward_points s (ae_index a)) vps"
    using assms(1) by (simp add: reward_by_ids_def eras_reward_points_def)
  with add_all_points_balanced [OF assms(2,3)] show ?thesis by simp
qed

theorem reward_points_balanced_witness:
  "erp_total (eras_reward_points (reward_by_ids [(10, 20), (11, 1), (10, 2)] sample_staking) 3) = 23"
proof -
  have "ActiveEra sample_staking = Some \<lparr>ae_index = 3, ae_start = Some 0\<rparr>"
    "eras_reward_points sample_staking 3 = EraRewardPoints_default"
    by (simp_all add: sample_staking_def staking_default_def eras_reward_points_def)
  moreover have "points_balanced EraRewardPoints_default" "erp_total EraRewardPoints_default = 0"
    by (simp_all add: points_balanced_def EraRewardPoints_default_def points_sum_def)
  ultimately show ?thesis
    using reward_points_balanced [of sample_staking _ "[(10, 20), (11, 1), (10, 2)]"]
    by (simp add: u32_max_def)
qed

end
