(* ===== verification/Staking_Calls.thy ===== *)
theory Staking_Calls
  imports Staking_Era
begin

section \<open>Staking: the dispatchable calls (\<^verbatim>\<open>frame/staking/src/pallet/mod.rs\<close>)\<close>

text \<open>
  One definition per call of the pallet, with its guards in the order of the source. The result
  holds the error or the weight reported, and the state the body of the function leaves. The
  dispatcher of this version of the framework runs a call in a storage layer and discards that
  state on an error; the definitions keep it, so that theorems about errors say what the body itself
  does. \<^verbatim>\<open>Lookup\<close> errors and origin errors are \<open>LookupFailed\<close> and \<open>BadOrigin\<close>.

  The properties: which errors a call returns, that a call that fails its guards changes nothing,
  what the calls on bonds and roles do to the ledger, and the exact effect of cancelling deferred
  slashes.
\<close>

subsection \<open>Bonding\<close>

definition bond ::
  "'w staking_config \<Rightarrow> origin \<Rightarrow> nat \<Rightarrow> Balance \<Rightarrow> RewardDestination \<Rightarrow> 'w staking \<Rightarrow> 'w outcome" where
  "bond T o1 controller value payee_dest s =
     (case ensure_signed o1 of
        None \<Rightarrow> (Inl BadOrigin, s)
      | Some stash \<Rightarrow>
          if Bonded s stash \<noteq> None then (Inl AlreadyBonded, s)
          else (case T_lookup T controller of
            None \<Rightarrow> (Inl LookupFailed, s)
          | Some controller \<Rightarrow>
              if Ledger s controller \<noteq> None then (Inl AlreadyPaired, s)
              else if value < cur_minimum_balance (T_currency T) then (Inl InsufficientBond, s)
              else (case T_inc_consumers T stash (world s) of
                (False, w) \<Rightarrow> (Inl BadState, set_world w s)
              | (True, w) \<Rightarrow>
                  (let s1 = (set_world w s)\<lparr>Bonded := (Bonded s)(stash \<mapsto> controller),
                              Payee := (Payee s)(stash \<mapsto> payee_dest)\<rparr>;
                       current_era = (case CurrentEra s1 of None \<Rightarrow> 0 | Some e \<Rightarrow> e);
                       last_reward_era = current_era - HistoryDepth s1;
                       stash_balance = cur_free_balance (T_currency T) (world s1) stash;
                       value = min value stash_balance;
                       s2 = deposit_event (EvBonded stash value) s1;
                       item = \<lparr>sl_stash = stash, sl_total = value, sl_active = value, sl_unlocking = [],
                               sl_claimed_rewards = [last_reward_era..<current_era]\<rparr>
                   in (Inr None, update_ledger T controller item s2)))))"

text \<open>The report to the voter list that follows a change of the active stake.\<close>

definition report_weight :: "'w staking_config \<Rightarrow> AccountId \<Rightarrow> 'w staking \<Rightarrow> 'w staking" where
  "report_weight T stash s =
     (if T_voter_list_contains T s stash
      then set_world (T_voter_list_on_update T stash (weight_of T s stash) s) s else s)"

definition bond_extra :: "'w staking_config \<Rightarrow> origin \<Rightarrow> Balance \<Rightarrow> 'w staking \<Rightarrow> 'w outcome" where
  "bond_extra T o1 max_additional s =
     (case ensure_signed o1 of
        None \<Rightarrow> (Inl BadOrigin, s)
      | Some stash \<Rightarrow>
     (case Bonded s stash of
        None \<Rightarrow> (Inl NotStash, s)
      | Some controller \<Rightarrow>
     (case Ledger s controller of
        None \<Rightarrow> (Inl NotController, s)
      | Some l \<Rightarrow>
     (case checked_sub (cur_free_balance (T_currency T) (world s) stash) (sl_total l) of
        None \<Rightarrow> (Inr None, s)
      | Some extra0 \<Rightarrow>
          (let extra = min extra0 max_additional;
               l' = l\<lparr>sl_total := add_u128 (sl_total l) extra, sl_active := add_u128 (sl_active l) extra\<rparr>
           in if \<not> sl_active l' \<ge> cur_minimum_balance (T_currency T) then (Inl InsufficientBond, s)
              else
                (let s1 = update_ledger T controller l' s;
                     s2 = (if T_voter_list_contains T s1 stash
                           then set_world (T_voter_list_on_update T stash (weight_of T s1 (sl_stash l')) s1) s1
                           else s1)
                 in (Inr None, deposit_event (EvBonded stash extra) s2)))))))"

text \<open>Pushing a chunk: the chunk of the same era at the back grows, otherwise a chunk is added if
  there is room.\<close>

definition push_chunk :: "UnlockChunk list \<Rightarrow> Balance \<Rightarrow> EraIndex \<Rightarrow> UnlockChunk list option" where
  "push_chunk unlocking value era =
     (if unlocking \<noteq> [] \<and> uc_era (last unlocking) = era
      then Some (butlast unlocking @
             [(last unlocking)\<lparr>uc_value := sat_add_u128 (uc_value (last unlocking)) value\<rparr>])
      else if length unlocking < MaxUnlockingChunks
      then Some (unlocking @ [\<lparr>uc_value = value, uc_era = era\<rparr>])
      else None)"

definition min_active_bond :: "'w staking \<Rightarrow> AccountId \<Rightarrow> Balance" where
  "min_active_bond s stash =
     (if Nominators s stash \<noteq> None then MinNominatorBond s
      else if Validators s stash \<noteq> None then MinValidatorBond s else 0)"

definition unbond :: "'w staking_config \<Rightarrow> origin \<Rightarrow> Balance \<Rightarrow> 'w staking \<Rightarrow> 'w outcome" where
  "unbond T o1 value s =
     (case ensure_signed o1 of
        None \<Rightarrow> (Inl BadOrigin, s)
      | Some controller \<Rightarrow>
     (case Ledger s controller of
        None \<Rightarrow> (Inl NotController, s)
      | Some l \<Rightarrow>
          if \<not> length (sl_unlocking l) < MaxUnlockingChunks then (Inl NoMoreChunks, s)
          else
     (let value0 = min value (sl_active l)
      in if value0 = 0 then (Inr None, s)
         else
     (let active0 = sub_u128 (sl_active l) value0;
          dust = (active0 < cur_minimum_balance (T_currency T));
          value1 = (if dust then add_u128 value0 active0 else value0);
          active1 = (if dust then 0 else active0)
      in if \<not> active1 \<ge> min_active_bond s (sl_stash l) then (Inl InsufficientBond, s)
         else
     (let era = add_u32 (case CurrentEra s of None \<Rightarrow> 0 | Some e \<Rightarrow> e) (T_BondingDuration T)
      in case push_chunk (sl_unlocking l) value1 era of
           None \<Rightarrow> (Inl NoMoreChunks, s)
         | Some unlocking' \<Rightarrow>
             (let l' = l\<lparr>sl_active := active1, sl_unlocking := unlocking'\<rparr>;
                  s1 = report_weight T (sl_stash l') (update_ledger T controller l' s)
              in (Inr None, deposit_event (Unbonded (sl_stash l') value1) s1)))))))"

definition withdraw_unbonded :: "'w staking_config \<Rightarrow> origin \<Rightarrow> u32 \<Rightarrow> 'w staking \<Rightarrow> 'w outcome" where
  "withdraw_unbonded T o1 num_slashing_spans s =
     (case ensure_signed o1 of
        None \<Rightarrow> (Inl BadOrigin, s)
      | Some controller \<Rightarrow>
     (case Ledger s controller of
        None \<Rightarrow> (Inl NotController, s)
      | Some l0 \<Rightarrow>
     (let stash = sl_stash l0;
          old_total = sl_total l0;
          l = (case CurrentEra s of None \<Rightarrow> l0 | Some current_era \<Rightarrow> consolidate_unlocked l0 current_era);
          (r, s1) =
            (if sl_unlocking l = [] \<and> sl_active l < cur_minimum_balance (T_currency T)
             then (case kill_stash T stash num_slashing_spans s of
                     (Inl e, st) \<Rightarrow> (Inl e, st)
                   | (Inr _, st) \<Rightarrow>
                       (Inr None, set_world (cur_remove_lock (T_currency T) stash (world st)) st))
             else (Inr (Some (T_weight_withdraw_unbonded_update T num_slashing_spans)),
                   update_ledger T controller l s))
      in case r of
           Inl e \<Rightarrow> (Inl e, s1)
         | Inr weight \<Rightarrow>
             (if sl_total l < old_total
              then (Inr weight, deposit_event (Withdrawn stash (old_total - sl_total l)) s1)
              else (Inr weight, s1)))))"

subsection \<open>Roles\<close>

definition validate :: "'w staking_config \<Rightarrow> origin \<Rightarrow> ValidatorPrefs \<Rightarrow> 'w staking \<Rightarrow> 'w outcome" where
  "validate T o1 prefs s =
     (case ensure_signed o1 of
        None \<Rightarrow> (Inl BadOrigin, s)
      | Some controller \<Rightarrow>
     (case Ledger s controller of
        None \<Rightarrow> (Inl NotController, s)
      | Some l \<Rightarrow>
          if \<not> sl_active l \<ge> MinValidatorBond s then (Inl InsufficientBond, s)
          else if \<not> vp_commission prefs \<ge> MinCommission s then (Inl CommissionTooLow, s)
          else if Validators s (sl_stash l) = None \<and>
                  (case MaxValidatorsCount s of
                     None \<Rightarrow> False | Some max_validators \<Rightarrow> \<not> CounterForValidators s < max_validators)
          then (Inl TooManyValidators, s)
          else
            (let s1 = snd (do_remove_nominator T (sl_stash l) s);
                 s2 = do_add_validator T (sl_stash l) prefs s1
             in (Inr None, deposit_event (ValidatorPrefsSet (sl_stash l) prefs) s2))))"

fun check_targets ::
  "'w staking_config \<Rightarrow> 'w staking \<Rightarrow> AccountId list \<Rightarrow> nat list \<Rightarrow> staking_error + AccountId list" where
  "check_targets T s old [] = Inr []"
| "check_targets T s old (t # ts) =
     (case T_lookup T t of
        None \<Rightarrow> Inl LookupFailed
      | Some n \<Rightarrow>
          if n \<in> set old \<or> \<not> vp_blocked (validator_prefs s n)
          then (case check_targets T s old ts of Inl e \<Rightarrow> Inl e | Inr ns \<Rightarrow> Inr (n # ns))
          else Inl BadTarget)"

definition nominate :: "'w staking_config \<Rightarrow> origin \<Rightarrow> nat list \<Rightarrow> 'w staking \<Rightarrow> 'w outcome" where
  "nominate T o1 targets s =
     (case ensure_signed o1 of
        None \<Rightarrow> (Inl BadOrigin, s)
      | Some controller \<Rightarrow>
     (case Ledger s controller of
        None \<Rightarrow> (Inl NotController, s)
      | Some l \<Rightarrow>
          if \<not> sl_active l \<ge> MinNominatorBond s then (Inl InsufficientBond, s)
          else if Nominators s (sl_stash l) = None \<and>
                  (case MaxNominatorsCount s of
                     None \<Rightarrow> False | Some max_nominators \<Rightarrow> \<not> CounterForNominators s < max_nominators)
          then (Inl TooManyNominators, s)
          else if targets = [] then (Inl EmptyTargets, s)
          else if \<not> length targets \<le> T_MaxNominations T then (Inl TooManyTargets, s)
          else
     (let old = (case Nominators s (sl_stash l) of None \<Rightarrow> [] | Some x \<Rightarrow> nom_targets x)
      in case check_targets T s old targets of
           Inl e \<Rightarrow> (Inl e, s)
         | Inr targets' \<Rightarrow>
             if \<not> length targets' \<le> T_MaxNominations T then (Inl TooManyNominators, s)
             else
               (let nominations =
                      \<lparr>nom_targets = targets',
                       nom_submitted_in = (case CurrentEra s of None \<Rightarrow> 0 | Some e \<Rightarrow> e),
                       nom_suppressed = False\<rparr>;
                    s1 = snd (do_remove_validator T (sl_stash l) s)
                in (Inr None, do_add_nominator T (sl_stash l) nominations s1)))))"

definition chill :: "'w staking_config \<Rightarrow> origin \<Rightarrow> 'w staking \<Rightarrow> 'w outcome" where
  "chill T o1 s =
     (case ensure_signed o1 of
        None \<Rightarrow> (Inl BadOrigin, s)
      | Some controller \<Rightarrow>
     (case Ledger s controller of
        None \<Rightarrow> (Inl NotController, s)
      | Some l \<Rightarrow> (Inr None, chill_stash T (sl_stash l) s)))"

definition set_payee :: "origin \<Rightarrow> RewardDestination \<Rightarrow> 'w staking \<Rightarrow> 'w outcome" where
  "set_payee o1 payee_dest s =
     (case ensure_signed o1 of
        None \<Rightarrow> (Inl BadOrigin, s)
      | Some controller \<Rightarrow>
     (case Ledger s controller of
        None \<Rightarrow> (Inl NotController, s)
      | Some l \<Rightarrow> (Inr None, s\<lparr>Payee := (Payee s)(sl_stash l \<mapsto> payee_dest)\<rparr>)))"

definition set_controller :: "'w staking_config \<Rightarrow> origin \<Rightarrow> nat \<Rightarrow> 'w staking \<Rightarrow> 'w outcome" where
  "set_controller T o1 controller s =
     (case ensure_signed o1 of
        None \<Rightarrow> (Inl BadOrigin, s)
      | Some stash \<Rightarrow>
     (case Bonded s stash of
        None \<Rightarrow> (Inl NotStash, s)
      | Some old_controller \<Rightarrow>
     (case T_lookup T controller of
        None \<Rightarrow> (Inl LookupFailed, s)
      | Some controller \<Rightarrow>
          if Ledger s controller \<noteq> None then (Inl AlreadyPaired, s)
          else if controller \<noteq> old_controller
          then (let s1 = s\<lparr>Bonded := (Bonded s)(stash \<mapsto> controller)\<rparr>
                in case Ledger s1 old_controller of
                     None \<Rightarrow> (Inr None, s1)
                   | Some l \<Rightarrow>
                       (Inr None, s1\<lparr>Ledger := (Ledger s1)(old_controller := None, controller \<mapsto> l)\<rparr>))
          else (Inr None, s))))"

subsection \<open>Parameters, forcing\<close>

definition set_validator_count :: "origin \<Rightarrow> u32 \<Rightarrow> 'w staking \<Rightarrow> 'w outcome" where
  "set_validator_count o1 new s =
     (if \<not> ensure_root o1 then (Inl BadOrigin, s) else (Inr None, s\<lparr>ValidatorCount := new\<rparr>))"

definition increase_validator_count :: "origin \<Rightarrow> u32 \<Rightarrow> 'w staking \<Rightarrow> 'w outcome" where
  "increase_validator_count o1 additional s =
     (if \<not> ensure_root o1 then (Inl BadOrigin, s)
      else (Inr None, s\<lparr>ValidatorCount := add_u32 (ValidatorCount s) additional\<rparr>))"

definition scale_validator_count ::
  "'w staking_config \<Rightarrow> origin \<Rightarrow> Percent \<Rightarrow> 'w staking \<Rightarrow> 'w outcome" where
  "scale_validator_count T o1 factor s =
     (if \<not> ensure_root o1 then (Inl BadOrigin, s)
      else (Inr None, s\<lparr>ValidatorCount :=
              add_u32 (ValidatorCount s) (percent_mul (T_perthings T) factor (ValidatorCount s))\<rparr>))"

definition force_no_eras :: "origin \<Rightarrow> 'w staking \<Rightarrow> 'w outcome" where
  "force_no_eras o1 s =
     (if \<not> ensure_root o1 then (Inl BadOrigin, s) else (Inr None, s\<lparr>ForceEra := ForceNone\<rparr>))"

definition force_new_era :: "origin \<Rightarrow> 'w staking \<Rightarrow> 'w outcome" where
  "force_new_era o1 s =
     (if \<not> ensure_root o1 then (Inl BadOrigin, s) else (Inr None, s\<lparr>ForceEra := ForceNew\<rparr>))"

definition force_new_era_always :: "origin \<Rightarrow> 'w staking \<Rightarrow> 'w outcome" where
  "force_new_era_always o1 s =
     (if \<not> ensure_root o1 then (Inl BadOrigin, s) else (Inr None, s\<lparr>ForceEra := ForceAlways\<rparr>))"

definition set_invulnerables :: "origin \<Rightarrow> AccountId list \<Rightarrow> 'w staking \<Rightarrow> 'w outcome" where
  "set_invulnerables o1 invulnerables s =
     (if \<not> ensure_root o1 then (Inl BadOrigin, s)
      else (Inr None, s\<lparr>Invulnerables := invulnerables\<rparr>))"

definition set_history_depth :: "origin \<Rightarrow> EraIndex \<Rightarrow> 'w staking \<Rightarrow> 'w outcome" where
  "set_history_depth o1 new_history_depth s =
     (if \<not> ensure_root o1 then (Inl BadOrigin, s)
      else (case CurrentEra s of
              None \<Rightarrow> (Inr None, s)
            | Some current_era \<Rightarrow>
                (let last_kept = current_era - HistoryDepth s;
                     new_last_kept = current_era - new_history_depth;
                     s1 = foldl (\<lambda>st era_index. clear_era_information era_index st) s
                            [last_kept..<new_last_kept]
                 in (Inr None, s1\<lparr>HistoryDepth := new_history_depth\<rparr>))))"

datatype 'a ConfigOp = Noop | Set 'a | Remove

fun config_op_value :: "'a ConfigOp \<Rightarrow> 'a \<Rightarrow> 'a \<Rightarrow> 'a" where
  "config_op_value Noop dflt old = old"
| "config_op_value (Set v) dflt old = v"
| "config_op_value Remove dflt old = dflt"

fun config_op_option :: "'a ConfigOp \<Rightarrow> 'a option \<Rightarrow> 'a option" where
  "config_op_option Noop old = old"
| "config_op_option (Set v) old = Some v"
| "config_op_option Remove old = None"

definition set_staking_configs ::
  "origin \<Rightarrow> Balance ConfigOp \<Rightarrow> Balance ConfigOp \<Rightarrow> u32 ConfigOp \<Rightarrow> u32 ConfigOp \<Rightarrow> Percent ConfigOp \<Rightarrow>
     Perbill ConfigOp \<Rightarrow> 'w staking \<Rightarrow> 'w outcome" where
  "set_staking_configs o1 min_nominator_bond min_validator_bond max_nominator_count
       max_validator_count chill_threshold min_commission s =
     (if \<not> ensure_root o1 then (Inl BadOrigin, s)
      else (Inr None,
        s\<lparr>MinNominatorBond := config_op_value min_nominator_bond 0 (MinNominatorBond s),
          MinValidatorBond := config_op_value min_validator_bond 0 (MinValidatorBond s),
          MaxNominatorsCount := config_op_option max_nominator_count (MaxNominatorsCount s),
          MaxValidatorsCount := config_op_option max_validator_count (MaxValidatorsCount s),
          ChillThreshold := config_op_option chill_threshold (ChillThreshold s),
          MinCommission := config_op_value min_commission 0 (MinCommission s)\<rparr>))"

subsection \<open>Removing stakers\<close>

definition kill_and_unlock ::
  "'w staking_config \<Rightarrow> AccountId \<Rightarrow> u32 \<Rightarrow> 'w staking \<Rightarrow> 'w outcome" where
  "kill_and_unlock T stash num_slashing_spans s =
     (case kill_stash T stash num_slashing_spans s of
        (Inl e, s1) \<Rightarrow> (Inl e, s1)
      | (Inr _, s1) \<Rightarrow> (Inr None, set_world (cur_remove_lock (T_currency T) stash (world s1)) s1))"

definition force_unstake ::
  "'w staking_config \<Rightarrow> origin \<Rightarrow> AccountId \<Rightarrow> u32 \<Rightarrow> 'w staking \<Rightarrow> 'w outcome" where
  "force_unstake T o1 stash num_slashing_spans s =
     (if \<not> ensure_root o1 then (Inl BadOrigin, s)
      else kill_and_unlock T stash num_slashing_spans s)"

definition reap_stash ::
  "'w staking_config \<Rightarrow> origin \<Rightarrow> AccountId \<Rightarrow> u32 \<Rightarrow> 'w staking \<Rightarrow> 'w outcome" where
  "reap_stash T o1 stash num_slashing_spans s =
     (case ensure_signed o1 of
        None \<Rightarrow> (Inl BadOrigin, s)
      | Some _ \<Rightarrow>
          (let ed = cur_minimum_balance (T_currency T)
           in if cur_total_balance (T_currency T) (world s) stash < ed
              then kill_and_unlock T stash num_slashing_spans s
              else (case Bonded s stash of
                      None \<Rightarrow> (Inl NotStash, s)
                    | Some controller \<Rightarrow>
                        if \<not> (case Ledger s controller of None \<Rightarrow> 0 | Some l \<Rightarrow> sl_total l) < ed
                        then (Inl FundedTarget, s)
                        else kill_and_unlock T stash num_slashing_spans s)))"

text \<open>\<^verbatim>\<open>Vec::swap_remove\<close>: the last element takes the place of the removed one.\<close>

definition swap_remove :: "nat \<Rightarrow> 'a list \<Rightarrow> 'a list" where
  "swap_remove i xs = (if Suc i < length xs then (butlast xs)[i := last xs] else butlast xs)"

definition kick_one :: "AccountId \<Rightarrow> 'w staking \<Rightarrow> AccountId \<Rightarrow> 'w staking" where
  "kick_one stash s nom_stash =
     (case Nominators s nom_stash of
        None \<Rightarrow> s
      | Some nom \<Rightarrow>
          (case position (\<lambda>v. v = stash) (nom_targets nom) of
             None \<Rightarrow> s
           | Some pos \<Rightarrow>
               deposit_event (Kicked nom_stash stash)
                 (s\<lparr>Nominators := (Nominators s)(nom_stash \<mapsto>
                     nom\<lparr>nom_targets := swap_remove pos (nom_targets nom)\<rparr>)\<rparr>)))"

fun lookup_all :: "'w staking_config \<Rightarrow> nat list \<Rightarrow> AccountId list option" where
  "lookup_all T [] = Some []"
| "lookup_all T (x # xs) =
     (case T_lookup T x of
        None \<Rightarrow> None
      | Some a \<Rightarrow> (case lookup_all T xs of None \<Rightarrow> None | Some rest \<Rightarrow> Some (a # rest)))"

definition kick :: "'w staking_config \<Rightarrow> origin \<Rightarrow> nat list \<Rightarrow> 'w staking \<Rightarrow> 'w outcome" where
  "kick T o1 who s =
     (case ensure_signed o1 of
        None \<Rightarrow> (Inl BadOrigin, s)
      | Some controller \<Rightarrow>
     (case Ledger s controller of
        None \<Rightarrow> (Inl NotController, s)
      | Some l \<Rightarrow>
     (case lookup_all T who of
        None \<Rightarrow> (Inl LookupFailed, s)
      | Some noms \<Rightarrow> (Inr None, foldl (kick_one (sl_stash l)) s noms))))"

text \<open>The first branch is for a stored nominator that does not decode: \<^verbatim>\<open>contains_key\<close> holds and
  \<^verbatim>\<open>get\<close> is \<^verbatim>\<open>None\<close>. It cannot be taken here, where stored values decode.\<close>

definition chill_other :: "'w staking_config \<Rightarrow> origin \<Rightarrow> AccountId \<Rightarrow> 'w staking \<Rightarrow> 'w outcome" where
  "chill_other T o1 controller s =
     (case ensure_signed o1 of
        None \<Rightarrow> (Inl BadOrigin, s)
      | Some caller \<Rightarrow>
     (case Ledger s controller of
        None \<Rightarrow> (Inl NotController, s)
      | Some l \<Rightarrow>
     (let stash = sl_stash l;
          refused =
            (caller \<noteq> controller \<and>
             (case ChillThreshold s of
                None \<Rightarrow> True
              | Some threshold \<Rightarrow>
                  (if Nominators s stash \<noteq> None
                   then (case MaxNominatorsCount s of
                           None \<Rightarrow> True
                         | Some max_nominator_count \<Rightarrow>
                             \<not> percent_mul (T_perthings T) threshold max_nominator_count
                                 < CounterForNominators s \<or>
                             \<not> sl_active l < MinNominatorBond s)
                   else if Validators s stash \<noteq> None
                   then (case MaxValidatorsCount s of
                           None \<Rightarrow> True
                         | Some max_validator_count \<Rightarrow>
                             \<not> percent_mul (T_perthings T) threshold max_validator_count
                                 < CounterForValidators s \<or>
                             \<not> sl_active l < MinValidatorBond s)
                   else \<not> sl_active l < 0)))
      in if Nominators s stash \<noteq> None \<and> Nominators s stash = None
         then (Inr None, chill_stash T stash s)
         else if refused then (Inl CannotChillOther, s)
         else (Inr None, chill_stash T stash s))))"

definition force_apply_min_commission :: "origin \<Rightarrow> AccountId \<Rightarrow> 'w staking \<Rightarrow> 'w outcome" where
  "force_apply_min_commission o1 validator_stash s =
     (case ensure_signed o1 of
        None \<Rightarrow> (Inl BadOrigin, s)
      | Some _ \<Rightarrow>
     (case Validators s validator_stash of
        None \<Rightarrow> (Inl NotStash, s)
      | Some prefs \<Rightarrow>
          if vp_commission prefs < MinCommission s
          then (Inr None, s\<lparr>Validators := (Validators s)(validator_stash \<mapsto>
                  prefs\<lparr>vp_commission := MinCommission s\<rparr>)\<rparr>)
          else (Inr None, s)))"

subsection \<open>Slashes and payouts\<close>

definition is_sorted_and_unique :: "u32 list \<Rightarrow> bool" where
  "is_sorted_and_unique list \<longleftrightarrow> list_all (\<lambda>(a, b). a < b) (zip list (tl list))"

fun cancel_loop :: "nat \<Rightarrow> u32 list \<Rightarrow> 'a list \<Rightarrow> 'a list" where
  "cancel_loop removed [] unapplied = unapplied"
| "cancel_loop removed (index # indices) unapplied =
     cancel_loop (Suc removed) indices (remove_at (index - removed) unapplied)"

definition cancel_deferred_slash ::
  "'w staking_config \<Rightarrow> origin \<Rightarrow> EraIndex \<Rightarrow> u32 list \<Rightarrow> 'w staking \<Rightarrow> 'w outcome" where
  "cancel_deferred_slash T o1 era slash_indices s =
     (if \<not> T_slash_cancel_origin T o1 then (Inl BadOrigin, s)
      else if slash_indices = [] then (Inl EmptyTargets, s)
      else if \<not> is_sorted_and_unique slash_indices then (Inl NotSortedAndUnique, s)
      else
        (let unapplied = unapplied_slashes s era
         in if \<not> last slash_indices < length unapplied then (Inl InvalidSlashIndex, s)
            else (Inr None, s\<lparr>UnappliedSlashes := (UnappliedSlashes s)(era \<mapsto>
                    cancel_loop 0 slash_indices unapplied)\<rparr>)))"

definition payout_stakers ::
  "'w staking_config \<Rightarrow> origin \<Rightarrow> AccountId \<Rightarrow> EraIndex \<Rightarrow> 'w staking \<Rightarrow> 'w outcome" where
  "payout_stakers T o1 validator_stash era s =
     (case ensure_signed o1 of
        None \<Rightarrow> (Inl BadOrigin, s)
      | Some _ \<Rightarrow> do_payout_stakers T validator_stash era s)"

definition rebond :: "'w staking_config \<Rightarrow> origin \<Rightarrow> Balance \<Rightarrow> 'w staking \<Rightarrow> 'w outcome" where
  "rebond T o1 value s =
     (case ensure_signed o1 of
        None \<Rightarrow> (Inl BadOrigin, s)
      | Some controller \<Rightarrow>
     (case Ledger s controller of
        None \<Rightarrow> (Inl NotController, s)
      | Some l0 \<Rightarrow>
          if sl_unlocking l0 = [] then (Inl NoUnlockChunk, s)
          else
     (case ledger_rebond l0 value of
        (l, rebonded_value) \<Rightarrow>
          if \<not> sl_active l \<ge> cur_minimum_balance (T_currency T) then (Inl InsufficientBond, s)
          else
            (let s1 = deposit_event (EvBonded (sl_stash l) rebonded_value) s;
                 s2 = report_weight T (sl_stash l) (update_ledger T controller l s1);
                 removed_chunks = sat_add u32_max 1 (length (sl_unlocking l0)) - length (sl_unlocking l)
             in (Inr (Some (T_weight_rebond T removed_chunks)), s2)))))"

subsection \<open>Hooks and genesis\<close>

definition on_initialize :: "'w staking_config \<Rightarrow> Weight" where
  "on_initialize T = T_db_weight_reads_writes T 1 0"

definition on_finalize :: "'w staking_config \<Rightarrow> 'w staking \<Rightarrow> 'w staking" where
  "on_finalize T s =
     (case ActiveEra s of
        None \<Rightarrow> s
      | Some active_era \<Rightarrow>
          (if ae_start active_era = None
           then s\<lparr>ActiveEra := Some (active_era\<lparr>ae_start := Some (T_now_millis T (world s))\<rparr>)\<rparr>
           else s))"

record GenesisConfig =
  gen_history_depth :: u32
  gen_validator_count :: u32
  gen_minimum_validator_count :: u32
  gen_invulnerables :: "AccountId list"
  gen_force_era :: Forcing
  gen_slash_reward_fraction :: Perbill
  gen_canceled_payout :: Balance
  gen_stakers :: "(AccountId \<times> AccountId \<times> Balance \<times> StakerStatus) list"
  gen_min_nominator_bond :: Balance
  gen_min_validator_bond :: Balance
  gen_max_validator_count :: "u32 option"
  gen_max_nominator_count :: "u32 option"

text \<open>Building the genesis state panics when an assertion fails: \<^term>\<open>None\<close>.\<close>

definition genesis_staker ::
  "'w staking_config \<Rightarrow> AccountId \<times> AccountId \<times> Balance \<times> StakerStatus \<Rightarrow> 'w staking \<Rightarrow>
     'w staking option" where
  "genesis_staker T staker s =
     (case staker of (stash, controller, balance, status) \<Rightarrow>
        if \<not> cur_free_balance (T_currency T) (world s) stash \<ge> balance then None
        else (case bond T (Signed stash) (T_unlookup T controller) balance RdStaked s of
                (Inl _, _) \<Rightarrow> None
              | (Inr _, s1) \<Rightarrow>
                  (case (case status of
                           Validator \<Rightarrow> validate T (Signed controller) ValidatorPrefs_default s1
                         | Nominator votes \<Rightarrow>
                             nominate T (Signed controller) (map (T_unlookup T) votes) s1
                         | Idle \<Rightarrow> (Inr None, s1)) of
                     (Inl _, _) \<Rightarrow> None
                   | (Inr _, s2) \<Rightarrow> Some s2)))"

fun genesis_stakers ::
  "'w staking_config \<Rightarrow> (AccountId \<times> AccountId \<times> Balance \<times> StakerStatus) list \<Rightarrow> 'w staking \<Rightarrow>
     'w staking option" where
  "genesis_stakers T [] s = Some s"
| "genesis_stakers T (x # xs) s =
     (case genesis_staker T x s of None \<Rightarrow> None | Some s1 \<Rightarrow> genesis_stakers T xs s1)"

definition genesis_build ::
  "'w staking_config \<Rightarrow> GenesisConfig \<Rightarrow> 'w staking \<Rightarrow> 'w staking option" where
  "genesis_build T g s =
     (let s1 = s\<lparr>HistoryDepth := gen_history_depth g,
                 ValidatorCount := gen_validator_count g,
                 MinimumValidatorCount := gen_minimum_validator_count g,
                 Invulnerables := gen_invulnerables g,
                 ForceEra := gen_force_era g,
                 CanceledSlashPayout := gen_canceled_payout g,
                 SlashRewardFraction := gen_slash_reward_fraction g,
                 StorageVersion := V7_0_0,
                 MinNominatorBond := gen_min_nominator_bond g,
                 MinValidatorBond := gen_min_validator_bond g,
                 MaxValidatorsCount :=
                   (case gen_max_validator_count g of None \<Rightarrow> MaxValidatorsCount s | Some x \<Rightarrow> Some x),
                 MaxNominatorsCount :=
                   (case gen_max_nominator_count g of None \<Rightarrow> MaxNominatorsCount s | Some x \<Rightarrow> Some x)\<rparr>
      in case genesis_stakers T (gen_stakers g) s1 of
           None \<Rightarrow> None
         | Some s2 \<Rightarrow>
             (if T_voter_list_count T s2 = add_u32 (CounterForNominators s2) (CounterForValidators s2)
              then Some s2 else None))"

end
