(* ===== verification/Staking_Provider.thy ===== *)
theory Staking_Provider
  imports Staking_Calls
begin

section \<open>Staking: what the pallet provides to the rest of the runtime\<close>

text \<open>
  The traits the pallet implements in \<^verbatim>\<open>impls.rs\<close> and \<^verbatim>\<open>lib.rs\<close>: the data of elections
  (\<^verbatim>\<open>ElectionDataProvider\<close>), the session manager, the handler of block authors, the handler of
  offences, the voter list over the two role maps, the staking interface, and the converters of the
  historical sessions.

  The locale \<open>voter_list\<close> states what the election data rely on in a voter list; it is interpreted
  on \<^verbatim>\<open>UseNominatorsAndValidatorsMap\<close>.
\<close>

subsection \<open>The voter list over the role maps (\<^verbatim>\<open>UseNominatorsAndValidatorsMap\<close>)\<close>

definition vm_iter :: "'w staking_config \<Rightarrow> 'w staking \<Rightarrow> AccountId list" where
  "vm_iter T s = T_iter_validators T (Validators s) @ T_iter_nominators T (Nominators s)"

text \<open>\<^verbatim>\<open>iter_from\<close> continues after the given key.\<close>

definition vm_iter_from :: "'w staking_config \<Rightarrow> AccountId \<Rightarrow> 'w staking \<Rightarrow> AccountId list option" where
  "vm_iter_from T start s =
     (if Validators s start \<noteq> None
      then Some (drop 1 (dropWhile (\<lambda>a. a \<noteq> start) (T_iter_validators T (Validators s)))
                 @ T_iter_nominators T (Nominators s))
      else if Nominators s start \<noteq> None
      then Some (drop 1 (dropWhile (\<lambda>a. a \<noteq> start) (T_iter_nominators T (Nominators s))))
      else None)"

definition vm_count :: "'w staking \<Rightarrow> u32" where
  "vm_count s = sat_add u32_max (CounterForNominators s) (CounterForValidators s)"

definition vm_contains :: "'w staking \<Rightarrow> AccountId \<Rightarrow> bool" where
  "vm_contains s who \<longleftrightarrow> Nominators s who \<noteq> None \<or> Validators s who \<noteq> None"

text \<open>Inserting, updating, removing and regenerating do nothing.\<close>

definition vm_on_insert :: "AccountId \<Rightarrow> u64 \<Rightarrow> 'w staking \<Rightarrow> 'w" where
  "vm_on_insert who weight s = world s"

definition vm_on_update :: "AccountId \<Rightarrow> u64 \<Rightarrow> 'w staking \<Rightarrow> 'w" where
  "vm_on_update who weight s = world s"

definition vm_on_remove :: "AccountId \<Rightarrow> 'w staking \<Rightarrow> 'w" where
  "vm_on_remove who s = world s"

definition vm_get_score :: "'w staking_config \<Rightarrow> AccountId \<Rightarrow> 'w staking \<Rightarrow> u64" where
  "vm_get_score T who s = weight_of T s who"

definition vm_unsafe_regenerate :: "AccountId list \<Rightarrow> 'w staking \<Rightarrow> u32 \<times> 'w staking" where
  "vm_unsafe_regenerate all s = (0, s)"

definition vm_unsafe_clear :: "'w staking \<Rightarrow> 'w staking" where
  "vm_unsafe_clear s =
     s\<lparr>Nominators := Map.empty, CounterForNominators := 0,
       Validators := Map.empty, CounterForValidators := 0\<rparr>"

subsection \<open>Election data\<close>

definition register_weight :: "'w staking_config \<Rightarrow> Weight \<Rightarrow> 'w staking \<Rightarrow> 'w staking" where
  "register_weight T weight s = set_world (T_register_weight T weight (world s)) s"

definition NPOS_MAX_ITERATIONS_COEFFICIENT :: u32 where
  "NPOS_MAX_ITERATIONS_COEFFICIENT = 2"

type_synonym voter = "AccountId \<times> u64 \<times> AccountId list"

text \<open>The targets whose last slash is not after the nomination.\<close>

definition retained_targets :: "'w staking \<Rightarrow> Nominations \<Rightarrow> AccountId list" where
  "retained_targets s nom =
     filter (\<lambda>stash. case SlashingSpansOf s stash of
                None \<Rightarrow> True
              | Some spans \<Rightarrow> nom_submitted_in nom \<ge> ss_last_nonzero_slash spans) (nom_targets nom)"

fun npos_loop ::
  "'w staking_config \<Rightarrow> 'w staking \<Rightarrow> nat \<Rightarrow> AccountId list \<Rightarrow> voter list \<Rightarrow> u32 \<Rightarrow> u32 \<Rightarrow> u32 \<Rightarrow>
     voter list \<times> u32 \<times> u32" where
  "npos_loop T s max_len [] all_voters seen vals noms = (all_voters, vals, noms)"
| "npos_loop T s max_len (voter # rest) all_voters seen vals noms =
     (if \<not> (length all_voters < max_len \<and>
            seen < wrap_mul u32_max NPOS_MAX_ITERATIONS_COEFFICIENT max_len)
      then (all_voters, vals, noms)
      else
        (let seen' = sat_add u32_max seen 1
         in case Nominators s voter of
              Some nom \<Rightarrow>
                (let targets = retained_targets s nom
                 in if targets \<noteq> []
                    then npos_loop T s max_len rest (all_voters @ [(voter, weight_of T s voter, targets)])
                           seen' vals (sat_add u32_max noms 1)
                    else npos_loop T s max_len rest all_voters seen' vals noms)
            | None \<Rightarrow>
                (if Validators s voter \<noteq> None
                 then npos_loop T s max_len rest (all_voters @ [(voter, weight_of T s voter, [voter])])
                        seen' (sat_add u32_max vals 1) noms
                 else npos_loop T s max_len rest all_voters seen' vals noms)))"

definition get_npos_voters ::
  "'w staking_config \<Rightarrow> nat option \<Rightarrow> 'w staking \<Rightarrow> voter list \<times> 'w staking" where
  "get_npos_voters T maybe_max_len s =
     (let all_voter_count = T_voter_list_count T s;
          max_allowed_len = min (case maybe_max_len of None \<Rightarrow> all_voter_count | Some m \<Rightarrow> m) all_voter_count
      in case npos_loop T s max_allowed_len (T_voter_list_iter T s) [] 0 0 0 of
           (all_voters, validators_taken, nominators_taken) \<Rightarrow>
             (all_voters,
              register_weight T (T_weight_get_npos_voters T validators_taken nominators_taken
                (length (T_iter_spans T (SlashingSpansOf s)))) s))"

definition get_npos_targets :: "'w staking_config \<Rightarrow> 'w staking \<Rightarrow> AccountId list \<times> 'w staking" where
  "get_npos_targets T s =
     (let targets = T_iter_validators T (Validators s);
          validator_count = min u32_max (length targets)
      in (targets, register_weight T (T_weight_get_npos_targets T validator_count) s))"

definition desired_targets :: "'w staking_config \<Rightarrow> 'w staking \<Rightarrow> u32 \<times> 'w staking" where
  "desired_targets T s =
     (let s1 = register_weight T (T_db_weight_reads_writes T 1 0) s in (ValidatorCount s1, s1))"

definition electing_voters ::
  "'w staking_config \<Rightarrow> nat option \<Rightarrow> 'w staking \<Rightarrow> voter list \<times> 'w staking" where
  "electing_voters T maybe_max_len s = get_npos_voters T maybe_max_len s"

definition electable_targets ::
  "'w staking_config \<Rightarrow> nat option \<Rightarrow> 'w staking \<Rightarrow> AccountId list option \<times> 'w staking" where
  "electable_targets T maybe_max_len s =
     (if (case maybe_max_len of None \<Rightarrow> False | Some max_len \<Rightarrow> CounterForValidators s > max_len)
      then (None, s)
      else (case get_npos_targets T s of (targets, s1) \<Rightarrow> (Some targets, s1)))"

text \<open>The block number of this runtime is a \<^verbatim>\<open>u32\<close>.\<close>

definition next_election_prediction :: "'w staking_config \<Rightarrow> BlockNumber \<Rightarrow> 'w staking \<Rightarrow> BlockNumber" where
  "next_election_prediction T now s =
     (let current_era = (case CurrentEra s of None \<Rightarrow> 0 | Some e \<Rightarrow> e);
          current_session = CurrentPlannedSession s;
          current_era_start_session_index =
            (case ErasStartSessionIndex s current_era of None \<Rightarrow> 0 | Some i \<Rightarrow> i);
          era_progress = min (current_session - current_era_start_session_index) (T_SessionsPerEra T);
          until_this_session_end =
            (case T_estimate_next_new_session T (world s) now of None \<Rightarrow> 0 | Some b \<Rightarrow> b) - now;
          session_length = T_average_session_length T (world s);
          sessions_left =
            (case ForceEra s of
               ForceNone \<Rightarrow> u32_max
             | ForceNew \<Rightarrow> 0
             | ForceAlways \<Rightarrow> 0
             | NotForcing \<Rightarrow>
                 (if era_progress \<ge> T_SessionsPerEra T then 0 else T_SessionsPerEra T - era_progress - 1))
      in sat_add u32_max now
           (sat_add u32_max until_this_session_end (sat_mul u32_max sessions_left session_length)))"

subsection \<open>Sessions and authors\<close>

definition sm_new_session ::
  "'w staking_config \<Rightarrow> SessionIndex \<Rightarrow> 'w staking \<Rightarrow> AccountId list option \<times> 'w staking" where
  "sm_new_session T new_index s = new_session T new_index False (s\<lparr>CurrentPlannedSession := new_index\<rparr>)"

definition sm_new_session_genesis ::
  "'w staking_config \<Rightarrow> SessionIndex \<Rightarrow> 'w staking \<Rightarrow> AccountId list option \<times> 'w staking" where
  "sm_new_session_genesis T new_index s =
     new_session T new_index True (s\<lparr>CurrentPlannedSession := new_index\<rparr>)"

definition sm_start_session :: "'w staking_config \<Rightarrow> SessionIndex \<Rightarrow> 'w staking \<Rightarrow> 'w staking" where
  "sm_start_session T start_index s = start_session T start_index s"

definition sm_end_session :: "'w staking_config \<Rightarrow> SessionIndex \<Rightarrow> 'w staking \<Rightarrow> 'w staking" where
  "sm_end_session T end_index s = end_session T end_index s"

definition with_exposures ::
  "AccountId list option \<times> 'w staking \<Rightarrow> (AccountId \<times> Exposure) list option \<times> 'w staking" where
  "with_exposures x =
     (case x of (r, s) \<Rightarrow>
        (map_option (\<lambda>validators.
            let current_era = (case CurrentEra s of None \<Rightarrow> 0 | Some e \<Rightarrow> e)
            in map (\<lambda>v. (v, eras_stakers s current_era v)) validators) r, s))"

definition historical_new_session ::
  "'w staking_config \<Rightarrow> SessionIndex \<Rightarrow> 'w staking \<Rightarrow> (AccountId \<times> Exposure) list option \<times> 'w staking" where
  "historical_new_session T new_index s = with_exposures (sm_new_session T new_index s)"

definition historical_new_session_genesis ::
  "'w staking_config \<Rightarrow> SessionIndex \<Rightarrow> 'w staking \<Rightarrow> (AccountId \<times> Exposure) list option \<times> 'w staking" where
  "historical_new_session_genesis T new_index s = with_exposures (sm_new_session_genesis T new_index s)"

definition historical_start_session :: "'w staking_config \<Rightarrow> SessionIndex \<Rightarrow> 'w staking \<Rightarrow> 'w staking" where
  "historical_start_session T start_index s = sm_start_session T start_index s"

definition historical_end_session :: "'w staking_config \<Rightarrow> SessionIndex \<Rightarrow> 'w staking \<Rightarrow> 'w staking" where
  "historical_end_session T end_index s = sm_end_session T end_index s"

text \<open>\<^verbatim>\<open>ScoreProvider\<close>, which the bags list asks for the weight of a voter.\<close>

definition score :: "'w staking_config \<Rightarrow> 'w staking \<Rightarrow> AccountId \<Rightarrow> u64" where
  "score T s who = weight_of T s who"

definition note_author :: "AccountId \<Rightarrow> 'w staking \<Rightarrow> 'w staking" where
  "note_author author s = reward_by_ids [(author, 20)] s"

definition note_uncle :: "'w staking_config \<Rightarrow> AccountId \<Rightarrow> 'w staking \<Rightarrow> 'w staking" where
  "note_uncle T uncle_author s =
     (case T_block_author T (world s) of
        Some block_author \<Rightarrow> reward_by_ids [(block_author, 2), (uncle_author, 1)] s
      | None \<Rightarrow> s)"

subsection \<open>Offences\<close>

record OffenceDetails =
  od_offender :: AccountId
  od_exposure :: Exposure
  od_reporters :: "AccountId list"

text \<open>The era of a session: the active era, or the last bonded era that started by then.\<close>

definition find_slash_era :: "'w staking \<Rightarrow> EraIndex \<Rightarrow> SessionIndex \<Rightarrow> EraIndex option" where
  "find_slash_era s active_era slash_session =
     (let start = (case ErasStartSessionIndex s active_era of None \<Rightarrow> 0 | Some i \<Rightarrow> i)
      in if slash_session \<ge> start then Some active_era
         else map_option fst (find (\<lambda>(_, sesh). sesh \<le> slash_session) (rev (BondedEras s))))"

definition offender_params ::
  "'w staking_config \<Rightarrow> EraIndex \<Rightarrow> EraIndex \<Rightarrow> Perbill \<Rightarrow> DisableStrategy \<Rightarrow> OffenceDetails \<Rightarrow>
     Perbill \<Rightarrow> SlashParams" where
  "offender_params T active_era slash_era reward_proportion disable_strategy details slash_fraction =
     \<lparr>pm_stash = od_offender details, pm_slash = slash_fraction, pm_exposure = od_exposure details,
      pm_slash_era = slash_era, pm_window_start = active_era - T_BondingDuration T, pm_now = active_era,
      pm_reward_proportion = reward_proportion, pm_disable_strategy = disable_strategy\<rparr>"

definition add_reads_writes :: "'w staking_config \<Rightarrow> nat \<Rightarrow> nat \<Rightarrow> Weight \<Rightarrow> Weight" where
  "add_reads_writes T r w consumed = wrap_add u64_max consumed (T_db_weight_reads_writes T r w)"

definition offence_one ::
  "'w staking_config \<Rightarrow> EraIndex \<Rightarrow> EraIndex \<Rightarrow> Perbill \<Rightarrow> DisableStrategy \<Rightarrow> AccountId list \<Rightarrow>
     Weight \<times> 'w staking \<Rightarrow> OffenceDetails \<times> Perbill \<Rightarrow> Weight \<times> 'w staking" where
  "offence_one T active_era slash_era reward_proportion disable_strategy invulnerables acc x =
     (case acc of (consumed, s) \<Rightarrow> case x of (details, slash_fraction) \<Rightarrow>
        if od_offender details \<in> set invulnerables then (consumed, s)
        else (case compute_slash T (offender_params T active_era slash_era reward_proportion
                      disable_strategy details slash_fraction) s of
                (None, s1) \<Rightarrow> (add_reads_writes T 4 5 consumed, s1)
              | (Some unapplied, s1) \<Rightarrow>
                  (let nominators_len = length (us_others unapplied);
                       reporters_len = length (od_reporters details);
                       rw = 3 + nominators_len * 3;
                       consumed1 = add_reads_writes T rw rw consumed;
                       unapplied' = unapplied\<lparr>us_reporters := od_reporters details\<rparr>
                   in if T_SlashDeferDuration T = 0
                      then (add_reads_writes T ((1 + nominators_len) * 6 + 2 * reporters_len)
                              ((1 + nominators_len) * 5 + 2 * reporters_len) consumed1,
                            apply_slash T unapplied' slash_era s1)
                      else (add_reads_writes T 1 1 consumed1,
                            s1\<lparr>UnappliedSlashes := (UnappliedSlashes s1)(active_era \<mapsto>
                                 unapplied_slashes s1 active_era @ [unapplied'])\<rparr>))))"

definition on_offence ::
  "'w staking_config \<Rightarrow> OffenceDetails list \<Rightarrow> Perbill list \<Rightarrow> SessionIndex \<Rightarrow> DisableStrategy \<Rightarrow>
     'w staking \<Rightarrow> Weight \<times> 'w staking" where
  "on_offence T offenders slash_fraction slash_session disable_strategy s =
     (let reward_proportion = SlashRewardFraction s;
          c1 = add_reads_writes T 1 0 0
      in case ActiveEra s of
           None \<Rightarrow> (c1, s)
         | Some info \<Rightarrow>
             (let active_era = ae_index info;
                  c2 = add_reads_writes T 1 0 c1;
                  start = (case ErasStartSessionIndex s active_era of None \<Rightarrow> 0 | Some i \<Rightarrow> i);
                  c3 = (if slash_session \<ge> start then c2 else add_reads_writes T 1 0 c2)
              in case find_slash_era s active_era slash_session of
                   None \<Rightarrow> (c3, s)
                 | Some slash_era \<Rightarrow>
                     (let s1 = s\<lparr>EarliestUnappliedSlash :=
                                (case EarliestUnappliedSlash s of
                                   None \<Rightarrow> Some active_era | Some e \<Rightarrow> Some e)\<rparr>;
                          c4 = add_reads_writes T 1 0 (add_reads_writes T 1 1 c3)
                      in foldl (offence_one T active_era slash_era reward_proportion disable_strategy
                                  (Invulnerables s1))
                           (c4, s1) (zip offenders slash_fraction))))"

text \<open>\<^verbatim>\<open>FilterHistoricalOffences\<close>: \<open>report\<close> is the inner reporter.\<close>

definition report_offence ::
  "('o \<Rightarrow> SessionIndex) \<Rightarrow> (AccountId list \<Rightarrow> 'o \<Rightarrow> 'w staking \<Rightarrow> bool \<times> 'w staking) \<Rightarrow>
     AccountId list \<Rightarrow> 'o \<Rightarrow> 'w staking \<Rightarrow> bool \<times> 'w staking" where
  "report_offence session_index report reporters offence s =
     (let offence_session = session_index offence
      in if (case BondedEras s of [] \<Rightarrow> False | (_, start) # _ \<Rightarrow> offence_session \<ge> start)
         then report reporters offence s
         else (True, deposit_event (OldSlashingReportDiscarded offence_session) s))"

subsection \<open>Converters and the staking interface\<close>

definition StashOf_convert :: "'w staking \<Rightarrow> AccountId \<Rightarrow> AccountId option" where
  "StashOf_convert s controller = map_option sl_stash (Ledger s controller)"

definition ExposureOf_convert :: "'w staking \<Rightarrow> AccountId \<Rightarrow> Exposure option" where
  "ExposureOf_convert s validator =
     map_option (\<lambda>active_era. eras_stakers s (ae_index active_era) validator) (ActiveEra s)"

definition si_minimum_bond :: "'w staking \<Rightarrow> Balance" where
  "si_minimum_bond s = MinNominatorBond s"

definition si_bonding_duration :: "'w staking_config \<Rightarrow> EraIndex" where
  "si_bonding_duration T = T_BondingDuration T"

definition si_current_era :: "'w staking \<Rightarrow> EraIndex" where
  "si_current_era s = (case CurrentEra s of None \<Rightarrow> 0 | Some e \<Rightarrow> e)"

definition si_active_stake :: "'w staking \<Rightarrow> AccountId \<Rightarrow> Balance option" where
  "si_active_stake s controller = map_option sl_active (Ledger s controller)"

definition si_total_stake :: "'w staking \<Rightarrow> AccountId \<Rightarrow> Balance option" where
  "si_total_stake s controller = map_option sl_total (Ledger s controller)"

definition si_bond_extra :: "'w staking_config \<Rightarrow> AccountId \<Rightarrow> Balance \<Rightarrow> 'w staking \<Rightarrow> 'w outcome" where
  "si_bond_extra T stash extra s = bond_extra T (Signed stash) extra s"

definition si_unbond :: "'w staking_config \<Rightarrow> AccountId \<Rightarrow> Balance \<Rightarrow> 'w staking \<Rightarrow> 'w outcome" where
  "si_unbond T controller value s = unbond T (Signed controller) value s"

definition si_chill :: "'w staking_config \<Rightarrow> AccountId \<Rightarrow> 'w staking \<Rightarrow> 'w outcome" where
  "si_chill T controller s = chill T (Signed controller) s"

definition si_withdraw_unbonded ::
  "'w staking_config \<Rightarrow> AccountId \<Rightarrow> u32 \<Rightarrow> 'w staking \<Rightarrow> (staking_error + bool) \<times> 'w staking" where
  "si_withdraw_unbonded T controller num_slashing_spans s =
     (case withdraw_unbonded T (Signed controller) num_slashing_spans s of
        (Inl e, s1) \<Rightarrow> (Inl e, s1)
      | (Inr _, s1) \<Rightarrow> (Inr (Ledger s1 controller = None), s1))"

definition si_bond ::
  "'w staking_config \<Rightarrow> AccountId \<Rightarrow> AccountId \<Rightarrow> Balance \<Rightarrow> AccountId \<Rightarrow> 'w staking \<Rightarrow> 'w outcome" where
  "si_bond T stash controller value payee_account s =
     bond T (Signed stash) (T_unlookup T controller) value (RdAccount payee_account) s"

definition si_nominate :: "'w staking_config \<Rightarrow> AccountId \<Rightarrow> AccountId list \<Rightarrow> 'w staking \<Rightarrow> 'w outcome" where
  "si_nominate T controller targets s = nominate T (Signed controller) (map (T_unlookup T) targets) s"

end
