(* ===== verification/Staking_Invariants.thy ===== *)
theory Staking_Invariants
  imports Staking_Provider
begin

section \<open>Staking: the invariant of the registry of stakers\<close>

text \<open>
  The pallet as a state machine: \<open>staking_step\<close> has one rule per dispatchable call, per entry point
  of the session, authorship and offence pallets and per hook, and one for a change of the rest of
  the runtime. \<open>staking_reachable\<close> starts from a genesis state. The registry of stakers (who is
  bonded to whom, who has which role, the two counters, the offenders, the claimed eras) is
  consistent in every reachable state.
\<close>

subsection \<open>The invariant\<close>

text \<open>A stash is bonded to a controller exactly if the ledger of the controller is that of the
  stash.\<close>

definition paired :: "'w staking \<Rightarrow> bool" where
  "paired s \<longleftrightarrow>
     (\<forall>stash c. Bonded s stash = Some c \<longleftrightarrow> (\<exists>l. Ledger s c = Some l \<and> sl_stash l = stash))"

text \<open>Nobody has two roles, and who has a role is bonded.\<close>

definition roles_ok :: "'w staking \<Rightarrow> bool" where
  "roles_ok s \<longleftrightarrow>
     dom (Validators s) \<inter> dom (Nominators s) = {} \<and>
     dom (Validators s) \<union> dom (Nominators s) \<subseteq> dom (Bonded s)"

definition counters_ok :: "'w staking \<Rightarrow> bool" where
  "counters_ok s \<longleftrightarrow>
     finite (dom (Validators s)) \<and> CounterForValidators s = card (dom (Validators s)) \<and>
     finite (dom (Nominators s)) \<and> CounterForNominators s = card (dom (Nominators s))"

definition registry_inv :: "'w staking \<Rightarrow> bool" where
  "registry_inv s \<longleftrightarrow>
     paired s \<and> roles_ok s \<and> counters_ok s \<and> offending_sorted s \<and> claims_sorted s"

subsection \<open>Steps that leave the registry alone\<close>

definition ledger_ids ::
  "(AccountId \<rightharpoonup> StakingLedger) \<Rightarrow> AccountId \<rightharpoonup> AccountId \<times> EraIndex list" where
  "ledger_ids m c = map_option (\<lambda>l. (sl_stash l, sl_claimed_rewards l)) (m c)"

definition same_registry :: "'w staking \<Rightarrow> 'w staking \<Rightarrow> bool" where
  "same_registry s s' \<longleftrightarrow>
     Bonded s' = Bonded s \<and> ledger_ids (Ledger s') = ledger_ids (Ledger s) \<and>
     dom (Validators s') = dom (Validators s) \<and> CounterForValidators s' = CounterForValidators s \<and>
     dom (Nominators s') = dom (Nominators s) \<and> CounterForNominators s' = CounterForNominators s \<and>
     OffendingValidators s' = OffendingValidators s"

lemma same_registry_refl [simp]: "same_registry s s"
  by (simp add: same_registry_def)

lemma same_registry_trans: "same_registry s s1 \<Longrightarrow> same_registry s1 s2 \<Longrightarrow> same_registry s s2"
  by (simp add: same_registry_def)

lemma same_registry_foldl:
  "(\<And>st x. same_registry st (f st x)) \<Longrightarrow> same_registry s (foldl f s xs)"
  by (induction xs arbitrary: s) (simp, metis foldl_Cons same_registry_trans)

lemma ledger_ids_Some:
  "ledger_ids m c = Some (st, cl) \<longleftrightarrow> (\<exists>l. m c = Some l \<and> sl_stash l = st \<and> sl_claimed_rewards l = cl)"
  by (auto simp: ledger_ids_def)

lemma paired_ids: "paired s \<longleftrightarrow>
    (\<forall>stash c. Bonded s stash = Some c \<longleftrightarrow> (\<exists>cl. ledger_ids (Ledger s) c = Some (stash, cl)))"
  by (simp add: paired_def ledger_ids_Some)

lemma claims_sorted_ids: "claims_sorted s \<longleftrightarrow>
    (\<forall>c st cl. ledger_ids (Ledger s) c = Some (st, cl) \<longrightarrow> sorted_wrt (<) cl)"
  by (auto simp: claims_sorted_def ledger_ids_Some)

lemma same_registry_inv:
  assumes "same_registry s s'" and "registry_inv s"
  shows "registry_inv s'"
  using assms unfolding same_registry_def registry_inv_def paired_ids claims_sorted_ids
  by (simp add: roles_ok_def counters_ok_def offending_sorted_def)

lemma ledger_ids_update:
  assumes "m c = Some l" and "sl_stash l' = sl_stash l" and "sl_claimed_rewards l' = sl_claimed_rewards l"
  shows "ledger_ids (m(c \<mapsto> l')) = ledger_ids m"
  using assms by (auto simp: ledger_ids_def)

lemma same_registry_basic:
  "same_registry s (set_world w s)" "same_registry s (deposit_event e s)"
  "same_registry s (ensure_new_era s)" "same_registry s (report_weight T stash s)"
  by (simp_all add: same_registry_def report_weight_def)

lemma same_registry_update_ledger:
  assumes "Ledger s c = Some l" and "sl_stash l' = sl_stash l"
    and "sl_claimed_rewards l' = sl_claimed_rewards l"
  shows "same_registry s (update_ledger T c l' s)"
  using ledger_ids_update [of "Ledger s" c l l'] assms by (simp add: same_registry_def)

lemma same_claims_ids: "same_claims s s' \<Longrightarrow> ledger_ids (Ledger s') = ledger_ids (Ledger s)"
proof
  fix c
  assume "same_claims s s'"
  then have "ledger_claims (Ledger s') c = ledger_claims (Ledger s) c" by (simp add: same_claims_def)
  then show "ledger_ids (Ledger s') c = ledger_ids (Ledger s) c"
    by (cases "Ledger s c"; cases "Ledger s' c") (auto simp: ledger_claims_def ledger_ids_def)
qed

lemma same_registry_apply_slash: "same_registry s (apply_slash T u era s)"
proof -
  have one: "ledger_ids (Ledger s') = ledger_ids (Ledger s)"
    if "do_slash T stash v p i era s = (p', i', s')" for stash v p i p' i' and s s' :: "'a staking"
    using that
  proof (cases rule: do_slash_cases)
    case nothing
    then show ?thesis by simp
  next
    case (slashed c l v' l' w1 w2 imb missing)
    from slashed(4) have "sl_stash l' = sl_stash l" "sl_claimed_rewards l' = sl_claimed_rewards l"
      by (auto simp: ledger_slash_def Let_def split: if_splits prod.splits)
    with slashed show ?thesis by (simp add: ledger_ids_update)
  qed
  have more: "ledger_ids (Ledger s') = ledger_ids (Ledger s)"
    if "do_slash_others T xs p i era s = (p', i', s')" for xs p i p' i' and s s' :: "'a staking"
    using that
  proof (induction xs arbitrary: p i s)
    case Nil
    then show ?case by simp
  next
    case (Cons x xs)
    obtain who v where x: "x = (who, v)" by (cases x)
    obtain p1 i1 s1 where d: "do_slash T who v p i era s = (p1, i1, s1)" using prod_cases3 by blast
    with Cons x one [OF d] show ?case by simp
  qed
  obtain p1 i1 s1 where 1: "do_slash T (us_validator u) (us_own u) (us_payout u) 0 era s = (p1, i1, s1)"
    using prod_cases3 by blast
  obtain p2 i2 s2 where 2: "do_slash_others T (us_others u) p1 i1 era s1 = (p2, i2, s2)"
    using prod_cases3 by blast
  have "ledger_ids (Ledger (apply_slash T u era s)) = ledger_ids (Ledger s)"
    using 1 2 one [OF 1] more [OF 2] by (simp add: apply_slash_def)
  then show ?thesis by (simp add: same_registry_def)
qed

lemma same_registry_apply_unapplied: "same_registry s (apply_unapplied_slashes T active s)"
proof -
  have 1: "same_registry s (apply_slashes T era us s)" for era us and s :: "'a staking"
    unfolding apply_slashes_def by (rule same_registry_foldl) (rule same_registry_apply_slash)
  have 2: "same_registry s (apply_era_slashes T s era)" for era and s :: "'a staking"
    unfolding apply_era_slashes_def by (rule same_registry_trans [OF _ 1]) (simp add: same_registry_def)
  have "same_registry s (foldl (apply_era_slashes T) s eras)" for eras
    by (rule same_registry_foldl) (rule 2)
  then show ?thesis
    by (auto simp: apply_unapplied_slashes_def Let_def same_registry_def split: option.splits)
qed

subsection \<open>Steps that change roles\<close>

lemma do_remove_writes:
  "Validators (snd (do_remove_validator T who s)) = (Validators s)(who := None)"
  "CounterForValidators (snd (do_remove_validator T who s)) =
     (if Validators s who = None then CounterForValidators s else CounterForValidators s - 1)"
  "Nominators (snd (do_remove_nominator T who s)) = (Nominators s)(who := None)"
  "CounterForNominators (snd (do_remove_nominator T who s)) =
     (if Nominators s who = None then CounterForNominators s else CounterForNominators s - 1)"
  by (auto simp: do_remove_validator_def do_remove_nominator_def Let_def Validators_remove_def
      Nominators_remove_def)

lemma do_add_counters:
  "CounterForValidators (do_add_validator T who p s) =
     (if Validators s who = None then sat_add u32_max (CounterForValidators s) 1
      else CounterForValidators s)"
  "CounterForNominators (do_add_nominator T who n s) =
     (if Nominators s who = None then sat_add u32_max (CounterForNominators s) 1
      else CounterForNominators s)"
  by (simp_all add: do_add_validator_def do_add_nominator_def Let_def Validators_insert_def
      Nominators_insert_def)

lemma card_remove_key:
  "finite (dom m) \<Longrightarrow> card (dom (m(k := None))) = (if m k = None then card (dom m) else card (dom m) - 1)"
  by (auto simp: domIff card_Diff_singleton_if)

lemma card_insert_key:
  "finite (dom m) \<Longrightarrow> card (dom (m(k \<mapsto> v))) = (if m k = None then Suc (card (dom m)) else card (dom m))"
  by (auto simp: card_insert_if domIff)

lemma registry_remove_validator:
  assumes "registry_inv s"
  shows "registry_inv (snd (do_remove_validator T who s))"
  using assms card_remove_key [of "Validators s" who]
  by (auto simp: registry_inv_def paired_def roles_ok_def counters_ok_def offending_sorted_def
      claims_sorted_def do_remove_writes)

lemma registry_remove_nominator:
  assumes "registry_inv s"
  shows "registry_inv (snd (do_remove_nominator T who s))"
  using assms card_remove_key [of "Nominators s" who]
  by (auto simp: registry_inv_def paired_def roles_ok_def counters_ok_def offending_sorted_def
      claims_sorted_def do_remove_writes)

lemma registry_add_validator:
  assumes "registry_inv s" and "Bonded s who \<noteq> None" and "Nominators s who = None"
    and "CounterForValidators s < u32_max"
  shows "registry_inv (do_add_validator T who p s)"
  using assms card_insert_key [of "Validators s" who p]
  by (auto simp: registry_inv_def paired_def roles_ok_def counters_ok_def offending_sorted_def
      claims_sorted_def do_add_counters width_simps)

lemma registry_add_nominator:
  assumes "registry_inv s" and "Bonded s who \<noteq> None" and "Validators s who = None"
    and "CounterForNominators s < u32_max"
  shows "registry_inv (do_add_nominator T who n s)"
  using assms card_insert_key [of "Nominators s" who n]
  by (auto simp: registry_inv_def paired_def roles_ok_def counters_ok_def offending_sorted_def
      claims_sorted_def do_add_counters width_simps)

lemma registry_deposit_event: "registry_inv s \<Longrightarrow> registry_inv (deposit_event e s)"
  by (rule same_registry_inv [OF same_registry_basic(2)])

lemma registry_chill_stash [step_intros]: "registry_inv s \<Longrightarrow> registry_inv (chill_stash T who s)"
  by (simp add: chill_stash_eq Let_def registry_deposit_event registry_remove_nominator
      registry_remove_validator)

lemma registry_Ledger_bonded:
  assumes "registry_inv s" and "Ledger s c = Some l"
  shows "Bonded s (sl_stash l) = Some c"
  using assms by (auto simp: registry_inv_def paired_def)

lemma registry_offending [step_intros]:
  assumes "registry_inv s"
  shows "registry_inv (add_offending_validator T stash d s)"
proof -
  have "offending_sorted (add_offending_validator T stash d s)"
    using assms by (intro offending_sorted_add) (simp add: registry_inv_def)
  with assms show ?thesis
    by (simp add: registry_inv_def paired_def roles_ok_def counters_ok_def claims_sorted_def)
qed

subsection \<open>The calls\<close>

lemma registry_bond [step_intros]:
  assumes "registry_inv s"
  shows "registry_inv (snd (bond T o1 c v p s))"
proof (cases "\<exists>stash ctl. o1 = Signed stash \<and> Bonded s stash = None \<and> T_lookup T c = Some ctl \<and>
    Ledger s ctl = None \<and> \<not> v < cur_minimum_balance (T_currency T) \<and>
    fst (T_inc_consumers T stash (world s))")
  case False
  have "snd (bond T o1 c v p s) = s \<or> (\<exists>w. snd (bond T o1 c v p s) = set_world w s)"
  proof (cases o1)
    case (Signed stash)
    show ?thesis
    proof (cases "Bonded s stash = None \<and> T_lookup T c \<noteq> None \<and> Ledger s (the (T_lookup T c)) = None \<and>
        \<not> v < cur_minimum_balance (T_currency T)")
      case True
      then obtain ctl where ctl: "T_lookup T c = Some ctl" by blast
      obtain b w where inc: "T_inc_consumers T stash (world s) = (b, w)" by fastforce
      with False Signed True ctl have "\<not> b" by simp
      with Signed True ctl inc have "snd (bond T o1 c v p s) = set_world w s" by (simp add: bond_def)
      then show ?thesis by blast
    next
      case False
      then have "snd (bond T o1 c v p s) = s"
        using Signed by (cases "T_lookup T c") (auto simp: bond_def)
      then show ?thesis ..
    qed
  next
    case Root
    then have "snd (bond T o1 c v p s) = s" by (simp add: bond_def)
    then show ?thesis ..
  next
    case NoneOrigin
    then have "snd (bond T o1 c v p s) = s" by (simp add: bond_def)
    then show ?thesis ..
  qed
  then show ?thesis using assms same_registry_inv [OF same_registry_basic(1) assms] by auto
next
  case True
  then obtain stash ctl w where g: "o1 = Signed stash" "Bonded s stash = None" "T_lookup T c = Some ctl"
    "Ledger s ctl = None" "\<not> v < cur_minimum_balance (T_currency T)"
    "T_inc_consumers T stash (world s) = (True, w)"
    by (metis prod.collapse)
  let ?cur = "case CurrentEra s of None \<Rightarrow> 0 | Some e \<Rightarrow> e"
  let ?v = "min v (cur_free_balance (T_currency T) w stash)"
  define l where "l = \<lparr>sl_stash = stash, sl_total = ?v, sl_active = ?v, sl_unlocking = [],
    sl_claimed_rewards = [?cur - HistoryDepth s..<?cur]\<rparr>"
  have b: "Bonded s stash = None" "Ledger s ctl = None" "sl_stash l = stash"
    "sorted_wrt (<) (sl_claimed_rewards l)" using g by (simp_all add: l_def)
  have s': "Bonded (snd (bond T o1 c v p s)) = (Bonded s)(stash \<mapsto> ctl)"
    "Ledger (snd (bond T o1 c v p s)) = (Ledger s)(ctl \<mapsto> l)"
    "Validators (snd (bond T o1 c v p s)) = Validators s"
    "CounterForValidators (snd (bond T o1 c v p s)) = CounterForValidators s"
    "Nominators (snd (bond T o1 c v p s)) = Nominators s"
    "CounterForNominators (snd (bond T o1 c v p s)) = CounterForNominators s"
    "OffendingValidators (snd (bond T o1 c v p s)) = OffendingValidators s"
    using g by (simp_all add: bond_def Let_def l_def)
  have "sl_stash la \<noteq> stash" if "Ledger s ca = Some la" for ca la
    using registry_Ledger_bonded [OF assms that] b(1) by auto
  then have "paired (snd (bond T o1 c v p s))"
    using assms b unfolding paired_def s' registry_inv_def by (auto split: if_splits)
  moreover have "roles_ok (snd (bond T o1 c v p s))"
    using assms unfolding roles_ok_def s' registry_inv_def by auto
  moreover have "claims_sorted (snd (bond T o1 c v p s))"
    using assms b(4) unfolding claims_sorted_def s' registry_inv_def by (auto split: if_splits)
  ultimately show ?thesis
    using assms unfolding registry_inv_def counters_ok_def offending_sorted_def s' by simp
qed

lemma same_registry_bond_extra: "same_registry s (snd (bond_extra T o1 x s))"
  using ledger_ids_update
  by (auto simp: bond_extra_def Let_def same_registry_def split: option.splits)

lemma same_registry_unbond: "same_registry s (snd (unbond T o1 x s))"
  using ledger_ids_update
  by (auto simp: unbond_def Let_def same_registry_def report_weight_def split: option.splits)

lemma ledger_rebond_keeps: "ledger_rebond l v = (l', r) \<Longrightarrow>
    sl_stash l' = sl_stash l \<and> sl_claimed_rewards l' = sl_claimed_rewards l"
  by (auto simp: ledger_rebond_def split: prod.splits)

lemma same_registry_rebond: "same_registry s (snd (rebond T o1 x s))"
proof (cases "\<exists>c l. o1 = Signed c \<and> Ledger s c = Some l")
  case True
  then obtain c l l' r where c: "o1 = Signed c" "Ledger s c = Some l" "ledger_rebond l x = (l', r)"
    by fastforce
  with ledger_ids_update [of "Ledger s" c l l'] ledger_rebond_keeps [OF c(3)] show ?thesis
    by (auto simp: rebond_def Let_def same_registry_def report_weight_def)
next
  case False
  then show ?thesis by (cases o1) (auto simp: rebond_def split: option.splits)
qed

lemma clear_stash_metadata_frame:
  assumes "clear_stash_metadata stash n s = (r, s')"
  shows "Bonded s' = Bonded s" "Ledger s' = Ledger s" "Payee s' = Payee s" "Validators s' = Validators s"
    "Nominators s' = Nominators s" "CounterForValidators s' = CounterForValidators s"
    "CounterForNominators s' = CounterForNominators s" "OffendingValidators s' = OffendingValidators s"
  using assms
  by (auto simp: clear_stash_metadata_def Let_def remove_span_slashes_def split: option.splits if_splits)

lemma registry_kill_stash [step_intros]:
  assumes "registry_inv s" and "kill_stash T stash n s = (r, s')"
  shows "registry_inv s'"
proof -
  obtain r1 s1 where m: "clear_stash_metadata stash n s = (r1, s1)" by fastforce
  note fr = clear_stash_metadata_frame [OF m]
  have "same_registry s s1" using fr by (simp add: same_registry_def)
  then have inv1: "registry_inv s1" using assms(1) by (rule same_registry_inv)
  show ?thesis
  proof (cases "Bonded s stash")
    case None
    with assms show ?thesis by (simp add: kill_stash_def)
  next
    case (Some c)
    show ?thesis
    proof (cases r1)
      case (Inl e)
      with Some assms(2) m inv1 show ?thesis by (simp add: kill_stash_def)
    next
      case (Inr u)
      have s': "Bonded s' = (Bonded s1)(stash := None)" "Ledger s' = (Ledger s1)(c := None)"
        "Validators s' = (Validators s1)(stash := None)" "Nominators s' = (Nominators s1)(stash := None)"
        "CounterForValidators s' =
          (if Validators s1 stash = None then CounterForValidators s1 else CounterForValidators s1 - 1)"
        "CounterForNominators s' =
          (if Nominators s1 stash = None then CounterForNominators s1 else CounterForNominators s1 - 1)"
        "OffendingValidators s' = OffendingValidators s1"
        using Some Inr assms(2) m by (auto simp: kill_stash_def Let_def do_remove_writes)
      have c1: "Bonded s1 stash = Some c" using Some fr by simp
      have inj: "ca = c" if "Ledger s1 ca = Some la" "sl_stash la = stash" for ca la
        using registry_Ledger_bonded [OF inv1 that(1)] that(2) c1 by simp
      have "paired s'"
        using inv1 c1 inj unfolding paired_def s' registry_inv_def by (auto split: if_splits)
      moreover have "roles_ok s'" using inv1 unfolding roles_ok_def s' registry_inv_def by auto
      moreover have "counters_ok s'"
        using inv1 card_remove_key [of "Validators s1" stash] card_remove_key [of "Nominators s1" stash]
        unfolding counters_ok_def s' registry_inv_def by simp
      ultimately show ?thesis
        using inv1 unfolding registry_inv_def offending_sorted_def claims_sorted_def s'
        by (auto split: if_splits)
    qed
  qed
qed

lemma same_registry_world: "registry_inv (set_world w s) \<longleftrightarrow> registry_inv s"
  using same_registry_inv [of "set_world w s" s] same_registry_inv [OF same_registry_basic(1)]
  by (auto simp: same_registry_def)

lemma registry_withdraw_unbonded [step_intros]:
  assumes "registry_inv s"
  shows "registry_inv (snd (withdraw_unbonded T o1 n s))"
proof (cases "\<exists>c l. o1 = Signed c \<and> Ledger s c = Some l")
  case False
  then show ?thesis using assms by (cases o1) (auto simp: withdraw_unbonded_def split: option.splits)
next
  case True
  then obtain c l0 where c: "o1 = Signed c" "Ledger s c = Some l0" by blast
  define l where "l = (case CurrentEra s of None \<Rightarrow> l0 | Some e \<Rightarrow> consolidate_unlocked l0 e)"
  have l: "sl_stash l = sl_stash l0" "sl_claimed_rewards l = sl_claimed_rewards l0"
    by (simp_all add: l_def consolidate_unlocked_eq split: option.splits)
  show ?thesis
  proof (cases "sl_unlocking l = [] \<and> sl_active l < cur_minimum_balance (T_currency T)")
    case True
    obtain r st where k: "kill_stash T (sl_stash l0) n s = (r, st)" by fastforce
    have "registry_inv st" by (rule registry_kill_stash [OF assms k])
    with True k c show ?thesis
      by (cases r) (auto simp: withdraw_unbonded_def l_def [symmetric] Let_def same_registry_world
          registry_deposit_event)
  next
    case False
    have "registry_inv (update_ledger T c l s)"
      using same_registry_inv [OF same_registry_update_ledger [OF c(2)] assms] l by simp
    with False c show ?thesis
      by (auto simp: withdraw_unbonded_def l_def [symmetric] Let_def registry_deposit_event)
  qed
qed

lemma registry_validate [step_intros]:
  assumes "registry_inv s" and "CounterForValidators s < u32_max"
  shows "registry_inv (snd (validate T o1 prefs s))"
proof (cases "\<exists>c l. o1 = Signed c \<and> Ledger s c = Some l")
  case False
  then show ?thesis using assms by (cases o1) (auto simp: validate_def split: option.splits)
next
  case True
  then obtain c l where c: "o1 = Signed c" "Ledger s c = Some l" by blast
  let ?s1 = "snd (do_remove_nominator T (sl_stash l) s)"
  have "registry_inv (do_add_validator T (sl_stash l) prefs ?s1)"
    using registry_remove_nominator [OF assms(1)] registry_Ledger_bonded [OF assms(1) c(2)] assms(2)
    by (intro registry_add_validator) (simp_all add: do_remove_writes)
  with c assms(1) show ?thesis by (auto simp: validate_def Let_def registry_deposit_event)
qed

lemma registry_nominate [step_intros]:
  assumes "registry_inv s" and "CounterForNominators s < u32_max"
  shows "registry_inv (snd (nominate T o1 targets s))"
proof (cases "\<exists>c l. o1 = Signed c \<and> Ledger s c = Some l")
  case False
  then show ?thesis using assms by (cases o1) (auto simp: nominate_def split: option.splits)
next
  case True
  then obtain c l where c: "o1 = Signed c" "Ledger s c = Some l" by blast
  let ?s1 = "snd (do_remove_validator T (sl_stash l) s)"
  have "registry_inv (do_add_nominator T (sl_stash l) noms ?s1)" for noms
    using registry_remove_validator [OF assms(1)] registry_Ledger_bonded [OF assms(1) c(2)] assms(2)
    by (intro registry_add_nominator) (simp_all add: do_remove_writes)
  with c assms(1) show ?thesis by (auto simp: nominate_def Let_def split: sum.splits)
qed

lemma registry_chill [step_intros]: "registry_inv s \<Longrightarrow> registry_inv (snd (chill T o1 s))"
  by (auto simp: chill_def registry_chill_stash split: option.splits)

lemma registry_chill_other [step_intros]: "registry_inv s \<Longrightarrow> registry_inv (snd (chill_other T o1 c s))"
  by (auto simp: chill_other_def Let_def registry_chill_stash split: option.splits)

lemma registry_set_controller [step_intros]:
  assumes "registry_inv s"
  shows "registry_inv (snd (set_controller T o1 x s))"
proof (cases "\<exists>stash old new. o1 = Signed stash \<and> Bonded s stash = Some old \<and> T_lookup T x = Some new \<and>
    Ledger s new = None")
  case False
  then show ?thesis using assms by (cases o1) (auto simp: set_controller_def split: option.splits)
next
  case True
  then obtain stash old new where g: "o1 = Signed stash" "Bonded s stash = Some old"
    "T_lookup T x = Some new" "Ledger s new = None" by blast
  have "Bonded s stash = Some old \<longleftrightarrow> (\<exists>l. Ledger s old = Some l \<and> sl_stash l = stash)"
    using assms by (simp add: registry_inv_def paired_def)
  with g(2) obtain l where l: "Ledger s old = Some l" "sl_stash l = stash" by blast
  have ne: "new \<noteq> old" using l g(4) by auto
  have inj: "ca = old" if "Ledger s ca = Some la" "sl_stash la = stash" for ca la
    using registry_Ledger_bonded [OF assms that(1)] that(2) g(2) by simp
  have s': "snd (set_controller T o1 x s) = s\<lparr>Bonded := (Bonded s)(stash \<mapsto> new),
      Ledger := (Ledger s)(old := None, new \<mapsto> l)\<rparr>"
    using g l ne by (simp add: set_controller_def Let_def)
  have P: "Bonded s a = Some c \<longleftrightarrow> (\<exists>l. Ledger s c = Some l \<and> sl_stash l = a)" for a c
    using assms by (simp add: registry_inv_def paired_def)
  have "((Bonded s)(stash \<mapsto> new)) a = Some c \<longleftrightarrow>
      (\<exists>la. ((Ledger s)(old := None, new \<mapsto> l)) c = Some la \<and> sl_stash la = a)" for a c
  proof -
    have new: "Bonded s a \<noteq> Some new" using P [of a new] g(4) by simp
    have old: "Bonded s a = Some old \<Longrightarrow> a = stash" using P [of a old] l by simp
    consider "c = new" | "c = old" | "c \<noteq> new" "c \<noteq> old" by blast
    then show ?thesis
    proof cases
      case 1
      with new l(2) show ?thesis by auto
    next
      case 2
      with old ne show ?thesis by auto
    next
      case 3
      then have "Ledger s c = Some la \<Longrightarrow> sl_stash la \<noteq> stash" for la using inj [of c la] by blast
      with 3 P [of a c] show ?thesis by (cases "a = stash") auto
    qed
  qed
  then have "paired (snd (set_controller T o1 x s))" by (simp add: s' paired_def)
  moreover have "roles_ok (snd (set_controller T o1 x s))"
    using assms g(2) by (auto simp: s' roles_ok_def registry_inv_def)
  moreover have "claims_sorted (snd (set_controller T o1 x s))"
    using assms l unfolding s' claims_sorted_def registry_inv_def by (auto split: if_splits)
  ultimately show ?thesis
    using assms unfolding s' registry_inv_def counters_ok_def offending_sorted_def by simp
qed

lemma registry_kill_and_unlock [step_intros]:
  assumes "registry_inv s"
  shows "registry_inv (snd (kill_and_unlock T stash n s))"
proof -
  obtain r st where k: "kill_stash T stash n s = (r, st)" by fastforce
  have "registry_inv st" by (rule registry_kill_stash [OF assms k])
  with k show ?thesis by (cases r) (auto simp: kill_and_unlock_def same_registry_world)
qed

lemma registry_force_unstake [step_intros]:
  "registry_inv s \<Longrightarrow> registry_inv (snd (force_unstake T o1 stash n s))"
  by (simp add: force_unstake_def registry_kill_and_unlock)

lemma registry_reap_stash [step_intros]:
  "registry_inv s \<Longrightarrow> registry_inv (snd (reap_stash T o1 stash n s))"
  by (auto simp: reap_stash_def Let_def registry_kill_and_unlock split: option.splits)

text \<open>Calls that only write parameters, preferences or the queue of slashes.\<close>

lemma same_registry_parameters:
  "same_registry s (snd (set_payee o1 p s))"
  "same_registry s (snd (set_validator_count o1 n s))"
  "same_registry s (snd (increase_validator_count o1 n s))"
  "same_registry s (snd (scale_validator_count T o1 f s))"
  "same_registry s (snd (force_no_eras o1 s))"
  "same_registry s (snd (force_new_era o1 s))"
  "same_registry s (snd (force_new_era_always o1 s))"
  "same_registry s (snd (set_invulnerables o1 vs s))"
  "same_registry s (snd (set_staking_configs o1 a b c d e f' s))"
  "same_registry s (snd (force_apply_min_commission o1 stash s))"
  "same_registry s (snd (cancel_deferred_slash T o1 era idxs s))"
  "same_registry s (on_finalize T s)"
  "same_registry s (reward_by_ids vps s)"
  by (auto simp: same_registry_def set_payee_def set_validator_count_def increase_validator_count_def
      scale_validator_count_def force_no_eras_def force_new_era_def force_new_era_always_def
      set_invulnerables_def set_staking_configs_def force_apply_min_commission_def
      cancel_deferred_slash_def on_finalize_def reward_by_ids_def Let_def split: option.splits)

lemma same_registry_set_history_depth: "same_registry s (snd (set_history_depth o1 n s))"
proof -
  have "same_registry s (foldl (\<lambda>st e. clear_era_information e st) s xs)" for xs
    by (induction xs arbitrary: s)
      (simp_all add: same_registry_def clear_era_information_def)
  then show ?thesis by (auto simp: set_history_depth_def Let_def same_registry_def split: option.splits)
qed

lemma same_registry_kick: "same_registry s (snd (kick T o1 who s))"
proof -
  have one: "same_registry s (kick_one stash s n)" for stash n and s :: "'a staking"
    by (auto simp: kick_one_def same_registry_def split: option.splits)
  have "same_registry s (foldl (kick_one stash) s ns)" for stash ns
    by (rule same_registry_foldl) (rule one)
  then show ?thesis by (auto simp: kick_def split: option.splits)
qed

subsection \<open>Payouts\<close>

lemma registry_do_payout_stakers [step_intros]:
  assumes "registry_inv s" and "do_payout_stakers T v era s = (r, s')"
  shows "registry_inv s'"
proof (cases "\<exists>e. r = Inl e \<and> e \<noteq> CannotPayout")
  case True
  then show ?thesis using do_payout_stakers_error [of T v era s] assms by auto
next
  case False
  have srt: "claims_sorted s" using assms(1) by (simp add: registry_inv_def)
  have srt': "claims_sorted s'"
    by (rule do_payout_stakers_marks [OF srt assms(2)]) (use False in auto)
  obtain ep c l1 where ch: "payout_checks v era s = Inr (ep, c, l1)"
    and pay: "payout_pay T v era ep c l1 s = (r, s')"
  proof (cases "payout_checks v era s")
    case (Inl e)
    with assms(2) have "r = Inl e" by (auto simp: do_payout_stakers_def)
    with False have "e = CannotPayout" by simp
    with Inl have False
      by (auto simp: payout_checks_def Let_def split: option.splits if_splits sum.splits)
    then show ?thesis ..
  next
    case (Inr x)
    obtain ep c l1 where "x = (ep, c, l1)" using prod_cases3 by blast
    with Inr assms(2) that show ?thesis by (simp add: do_payout_stakers_def)
  qed
  from ch obtain l where l: "Ledger s c = Some l" "sl_stash l1 = sl_stash l"
    by (rule payout_checks_Inr) simp
  note same = payout_pay_same_claims(1) [OF pay]
  have stash: "map_option sl_stash (Ledger s' x) = map_option sl_stash (Ledger s x)" for x
  proof -
    have "ledger_claims (Ledger s') x = ledger_claims ((Ledger s)(c \<mapsto> l1)) x"
      using same by (simp add: same_claims_def)
    then have "map_option fst (ledger_claims (Ledger s') x) =
        map_option fst (ledger_claims ((Ledger s)(c \<mapsto> l1)) x)" by simp
    with l show ?thesis
      by (auto simp: ledger_claims_def option.map_comp comp_def split: if_splits)
  qed
  have "(\<exists>l. Ledger s' x = Some l \<and> sl_stash l = a) \<longleftrightarrow> (\<exists>l. Ledger s x = Some l \<and> sl_stash l = a)" for x a
    using stash [of x] by (metis map_option_eq_Some)
  with assms(1) same have "paired s'" by (simp add: registry_inv_def paired_def same_claims_def)
  with assms(1) srt' same show ?thesis
    by (simp add: registry_inv_def roles_ok_def counters_ok_def offending_sorted_def same_claims_def)
qed

lemma registry_payout_stakers [step_intros]:
  assumes "registry_inv s"
  shows "registry_inv (snd (payout_stakers T o1 v era s))"
  using assms registry_do_payout_stakers [OF assms surjective_pairing]
  by (auto simp: payout_stakers_def split: option.splits)

subsection \<open>Sessions and eras\<close>

lemma same_stakes_registry: "same_stakes s s' \<Longrightarrow> same_registry s s'"
  by (simp add: same_stakes_def same_registry_def)

lemma same_registry_try_trigger: "same_registry s (snd (try_trigger_new_era T i g s))"
proof -
  have trig: "same_registry s (snd (trigger_new_era T i xs s))" for xs and s :: "'a staking"
  proof -
    let ?n = "case CurrentEra s of None \<Rightarrow> 0 | Some e \<Rightarrow> add_u32 e 1"
    let ?s1 = "s\<lparr>CurrentEra := Some ?n, ErasStartSessionIndex := (ErasStartSessionIndex s)(?n \<mapsto> i)\<rparr>"
    let ?s2 = "case checked_sub ?n (add_u32 (HistoryDepth ?s1) 1) of
        Some old \<Rightarrow> clear_era_information old ?s1 | None \<Rightarrow> ?s1"
    obtain vs s' where st: "store_stakers_info T xs ?n ?s2 = (vs, s')" by fastforce
    have "same_registry s ?s2"
      by (auto simp: same_registry_def clear_era_information_def split: option.splits)
    then have "same_registry s s'"
      using same_stakes_registry store_stakers_info_frame [OF st] same_registry_trans by blast
    with st show ?thesis by (simp add: trigger_new_era_def Let_def)
  qed
  obtain res w where el: "(if g then T_elect_genesis T s else T_elect T s) = (res, w)" by fastforce
  have ev: "same_registry s (deposit_event e (set_world w s))" for e by (simp add: same_registry_def)
  show ?thesis
  proof (cases res)
    case None
    with el ev show ?thesis by (simp add: try_trigger_new_era_def)
  next
    case (Some supports)
    let ?x = "collect_exposures T supports (set_world w s)"
    let ?t = "trigger_new_era T i ?x (deposit_event StakersElected (set_world w s))"
    show ?thesis
    proof (cases "length ?x < max (MinimumValidatorCount s) 1")
      case True
      with Some el show ?thesis
        by (auto simp: try_trigger_new_era_def Let_def same_registry_def split: option.splits)
    next
      case False
      have "same_registry s (snd ?t)" by (rule same_registry_trans [OF ev trig])
      moreover have "snd (try_trigger_new_era T i g s) = snd ?t"
        using Some el False by (simp add: try_trigger_new_era_def Let_def case_prod_unfold)
      ultimately show ?thesis by simp
    qed
  qed
qed

lemma same_registry_new_session: "same_registry s (snd (new_session T i g s))"
proof -
  obtain r s1 where t: "try_trigger_new_era T i g s = (r, s1)" by fastforce
  with same_registry_try_trigger [of s T i g] have "same_registry s s1" by simp
  moreover from this have "same_registry s (s1\<lparr>ForceEra := f\<rparr>)" for f by (simp add: same_registry_def)
  ultimately show ?thesis using t by (auto simp: new_session_def Let_def split: option.splits)
qed

lemma same_registry_start_era: "same_registry s (start_era T session s)"
proof -
  have "same_registry s (foldl (\<lambda>st (e, _). clear_era_metadata e st) s xs)" for xs :: "(EraIndex \<times> SessionIndex) list"
    and s :: "'a staking"
    by (induction xs arbitrary: s) (auto simp: same_registry_def clear_era_metadata_def)
  then have "same_registry s (push_bonded_era T n session s)" for n and s :: "'a staking"
    by (auto simp: push_bonded_era_def Let_def same_registry_def
        simp del: take_append drop_append foldl_append split: list.splits)
  then have "same_registry s (push_bonded_era T n session (s\<lparr>ActiveEra := a\<rparr>))" for n a
    by (rule same_registry_trans [rotated]) (simp add: same_registry_def)
  then show ?thesis
    unfolding start_era_def Let_def by (rule same_registry_trans [OF _ same_registry_apply_unapplied])
qed

lemma same_registry_start_session: "same_registry s (start_session T i s)"
proof -
  have dis: "same_registry s (foldl (\<lambda>st (index, disabled).
      if disabled then set_world (T_disable_validator T index (world st)) st else st) s xs)"
    for xs and s :: "'a staking"
    by (rule same_registry_foldl) (auto simp: same_registry_def split: prod.splits)
  show ?thesis unfolding start_session_def Let_def
    by (rule same_registry_trans [OF _ dis]) (auto simp: same_registry_start_era split: option.splits)
qed

lemma registry_end_session [step_intros]: "registry_inv s \<Longrightarrow> registry_inv (end_session T i s)"
  by (auto simp: end_session_def end_era_def Let_def registry_inv_def paired_def roles_ok_def
      counters_ok_def offending_sorted_def claims_sorted_def split: option.splits)

subsection \<open>Offences\<close>

lemma same_registry_fetch: "same_registry s (snd (fetch_spans stash ws po so rp s))"
  by (simp add: fetch_spans_eq same_registry_def)

lemma same_registry_drop: "same_registry s (inspecting_drop i s)"
  by (simp add: same_registry_def)

lemma registry_slash_in_span [step_intros]:
  assumes "registry_inv s" and "slash_in_span T params stash slash payout ch s = (payout', amount, s')"
  shows "registry_inv s'"
proof -
  let ?f = "fetch_spans stash (pm_window_start params) payout 0 (pm_reward_proportion params) s"
  obtain target i1 s2 where c: "compare_and_update_span_slash (T_perthings T) (pm_slash_era params) slash
      (fst ?f) (snd ?f) = (target, i1, s2)" using prod_cases3 by blast
  from compare_and_update_writes [OF c] obtain m where s2: "s2 = (snd ?f)\<lparr>SpanSlash := m\<rparr>" by blast
  have "registry_inv (snd ?f)" by (rule same_registry_inv [OF same_registry_fetch assms(1)])
  then have inv2: "registry_inv s2"
    by (rule same_registry_inv [rotated]) (simp add: same_registry_def s2)
  have "\<exists>i s3. s' = inspecting_drop i s3 \<and> (s3 = s2 \<or> s3 = chill_stash T stash s2)"
    using assms(2) c by (auto simp: slash_in_span_def Let_def case_prod_unfold split: if_splits)
  then obtain i s3 where s': "s' = inspecting_drop i s3" "s3 = s2 \<or> s3 = chill_stash T stash s2" by blast
  from s'(2) inv2 registry_chill_stash [OF inv2] have "registry_inv s3" by auto
  with s'(1) show ?thesis using same_registry_inv [OF same_registry_drop] by blast
qed

lemma registry_slash_nominators_loop:
  assumes "registry_inv s" and "slash_nominators_loop T params p others payout acc s = (payout', acc', s')"
  shows "registry_inv s'"
  using assms
proof (induction others arbitrary: payout acc s)
  case Nil
  then show ?case by simp
next
  case (Cons n others)
  let ?slash = "add_u128
      (case NominatorSlashInEra s (pm_slash_era params) (ie_who n) of None \<Rightarrow> 0 | Some v \<Rightarrow> v)
      (perbill_mul (T_perthings T) (pm_slash params) (ie_value n) -
       perbill_mul (T_perthings T) p (ie_value n))"
  let ?s1 = "s\<lparr>NominatorSlashInEra := (NominatorSlashInEra s)(pm_slash_era params :=
      (NominatorSlashInEra s (pm_slash_era params))(ie_who n \<mapsto> ?slash))\<rparr>"
  obtain payout1 amount s2 where
    st: "slash_in_span T params (ie_who n) ?slash payout False ?s1 = (payout1, amount, s2)"
    using prod_cases3 by blast
  have rest: "slash_nominators_loop T params p others payout1 (acc @ [(ie_who n, amount)]) s2 = (payout', acc', s')"
    using Cons.prems(2) st by (simp add: Let_def)
  have "registry_inv ?s1"
    by (rule same_registry_inv [OF _ Cons.prems(1)]) (simp add: same_registry_def)
  from registry_slash_in_span [OF this st] show ?case by (rule Cons.IH [OF _ rest])
qed

lemma registry_kick_out_if_recent [step_intros]:
  assumes "registry_inv s"
  shows "registry_inv (kick_out_if_recent T params s)"
proof -
  let ?f = "fetch_spans (pm_stash params) (pm_window_start params) 0 0 (pm_reward_proportion params) s"
  have inv1: "registry_inv (snd ?f)" by (rule same_registry_inv [OF same_registry_fetch assms])
  have "\<exists>i s2 d. kick_out_if_recent T params s =
      inspecting_drop i (add_offending_validator T (pm_stash params) d s2) \<and>
      (s2 = snd ?f \<or> s2 = chill_stash T (pm_stash params) (snd ?f))"
    by (cases "?f") (auto simp: kick_out_if_recent_def Let_def)
  then obtain i s2 d where k: "kick_out_if_recent T params s =
      inspecting_drop i (add_offending_validator T (pm_stash params) d s2)"
    "s2 = snd ?f \<or> s2 = chill_stash T (pm_stash params) (snd ?f)" by blast
  from k(2) inv1 registry_chill_stash [OF inv1] have "registry_inv s2" by auto
  from same_registry_inv [OF same_registry_drop registry_offending [OF this]] k(1) show ?thesis by simp
qed

lemma registry_compute_slash [step_intros]:
  assumes "registry_inv s" and "compute_slash T params s = (r, s')"
  shows "registry_inv s'"
  using assms(2)
proof (cases rule: compute_slash_cases)
  case zero
  with assms(1) show ?thesis by (simp add: registry_kick_out_if_recent)
next
  case not_max
  with assms(1) show ?thesis by simp
next
  case (new_max own s1 payout amount s2 payout2 others)
  have "registry_inv s1"
    by (rule same_registry_inv [OF _ assms(1)]) (simp add: same_registry_def new_max(3))
  from registry_slash_in_span [OF this new_max(4)]
  have "registry_inv (add_offending_validator T (pm_stash params) (pm_disable_strategy params \<noteq> Never) s2)"
    by (rule registry_offending)
  from registry_slash_nominators_loop [OF this new_max(5) [unfolded slash_nominators_def]] show ?thesis .
qed

lemma registry_offence_one:
  assumes "registry_inv (snd acc)"
  shows "registry_inv (snd (offence_one T active slash_era rp ds invs acc x))"
proof -
  obtain consumed s where acc: "acc = (consumed, s)" by (cases acc)
  obtain details f where x: "x = (details, f)" by (cases x)
  obtain r s1 where c: "compute_slash T (offender_params T active slash_era rp ds details f) s = (r, s1)"
    by fastforce
  have inv1: "registry_inv s1" using registry_compute_slash [OF _ c] assms acc by simp
  then have 2: "registry_inv (apply_slash T u slash_era s1)" for u
    by (rule same_registry_inv [OF same_registry_apply_slash])
  have 3: "registry_inv (s1\<lparr>UnappliedSlashes := m\<rparr>)" for m
    by (rule same_registry_inv [OF _ inv1]) (simp add: same_registry_def)
  show ?thesis
    using assms acc x c inv1 2 3 by (auto simp: offence_one_def Let_def split: option.splits)
qed

lemma registry_on_offence [step_intros]:
  assumes "registry_inv s"
  shows "registry_inv (snd (on_offence T offenders fractions session ds s))"
proof -
  have loop: "registry_inv (snd acc) \<Longrightarrow> registry_inv (snd (foldl (offence_one T a e rp ds invs) acc xs))"
    for a e rp invs acc xs
    by (induction xs arbitrary: acc) (simp_all add: registry_offence_one)
  have "registry_inv (s\<lparr>EarliestUnappliedSlash := e\<rparr>)" for e
    by (rule same_registry_inv [OF _ assms]) (simp add: same_registry_def)
  with assms loop show ?thesis by (auto simp: on_offence_def Let_def split: option.splits)
qed

subsection \<open>The state machine\<close>

text \<open>\<open>room\<close>: fewer accounts have a role than a \<^verbatim>\<open>u32\<close> can count.\<close>

definition room :: "'w staking \<Rightarrow> bool" where
  "room s \<longleftrightarrow> CounterForValidators s < u32_max \<and> CounterForNominators s < u32_max"

inductive staking_step :: "'w staking_config \<Rightarrow> 'w staking \<Rightarrow> 'w staking \<Rightarrow> bool" for T where
  call_bond: "staking_step T s (snd (bond T o1 c v p s))"
| call_bond_extra: "staking_step T s (snd (bond_extra T o1 x s))"
| call_unbond: "staking_step T s (snd (unbond T o1 x s))"
| call_withdraw_unbonded: "staking_step T s (snd (withdraw_unbonded T o1 n s))"
| call_validate: "room s \<Longrightarrow> staking_step T s (snd (validate T o1 prefs s))"
| call_nominate: "room s \<Longrightarrow> staking_step T s (snd (nominate T o1 targets s))"
| call_chill: "staking_step T s (snd (chill T o1 s))"
| call_set_payee: "staking_step T s (snd (set_payee o1 p s))"
| call_set_controller: "staking_step T s (snd (set_controller T o1 x s))"
| call_set_validator_count: "staking_step T s (snd (set_validator_count o1 n s))"
| call_increase_validator_count: "staking_step T s (snd (increase_validator_count o1 n s))"
| call_scale_validator_count: "staking_step T s (snd (scale_validator_count T o1 f s))"
| call_force_no_eras: "staking_step T s (snd (force_no_eras o1 s))"
| call_force_new_era: "staking_step T s (snd (force_new_era o1 s))"
| call_force_new_era_always: "staking_step T s (snd (force_new_era_always o1 s))"
| call_set_invulnerables: "staking_step T s (snd (set_invulnerables o1 vs s))"
| call_force_unstake: "staking_step T s (snd (force_unstake T o1 stash n s))"
| call_cancel_deferred_slash: "staking_step T s (snd (cancel_deferred_slash T o1 era idxs s))"
| call_payout_stakers: "staking_step T s (snd (payout_stakers T o1 stash era s))"
| call_rebond: "staking_step T s (snd (rebond T o1 x s))"
| call_set_history_depth: "staking_step T s (snd (set_history_depth o1 n s))"
| call_reap_stash: "staking_step T s (snd (reap_stash T o1 stash n s))"
| call_kick: "staking_step T s (snd (kick T o1 who s))"
| call_set_staking_configs: "staking_step T s (snd (set_staking_configs o1 a b c d e f s))"
| call_chill_other: "staking_step T s (snd (chill_other T o1 c s))"
| call_force_apply_min_commission: "staking_step T s (snd (force_apply_min_commission o1 stash s))"
| hook_on_finalize: "staking_step T s (on_finalize T s)"
| session_new: "staking_step T s (snd (sm_new_session T i s))"
| session_new_genesis: "staking_step T s (snd (sm_new_session_genesis T i s))"
| session_start: "staking_step T s (sm_start_session T i s)"
| session_end: "staking_step T s (sm_end_session T i s)"
| author: "staking_step T s (note_author a s)"
| uncle: "staking_step T s (note_uncle T a s)"
| offence: "staking_step T s (snd (on_offence T offenders fractions i ds s))"
| other_pallets: "staking_step T s (set_world w s)"

inductive staking_reachable :: "'w staking_config \<Rightarrow> 'w staking \<Rightarrow> bool" for T where
  genesis: "length (gen_stakers g) < u32_max \<Longrightarrow> genesis_build T g (staking_default w) = Some s \<Longrightarrow>
    staking_reachable T s"
| step: "staking_reachable T s \<Longrightarrow> staking_step T s s' \<Longrightarrow> staking_reachable T s'"

lemmas same_registry_steps = same_registry_bond_extra same_registry_unbond same_registry_rebond
  same_registry_parameters same_registry_set_history_depth same_registry_kick
  same_registry_start_session same_registry_basic

lemma registry_sm_new_session:
  "registry_inv s \<Longrightarrow> registry_inv (snd (sm_new_session T i s))"
  "registry_inv s \<Longrightarrow> registry_inv (snd (sm_new_session_genesis T i s))"
proof -
  assume "registry_inv s"
  then have "registry_inv (s\<lparr>CurrentPlannedSession := i\<rparr>)"
    by (rule same_registry_inv [rotated]) (simp add: same_registry_def)
  then show "registry_inv (snd (sm_new_session T i s))"
    "registry_inv (snd (sm_new_session_genesis T i s))"
    unfolding sm_new_session_def sm_new_session_genesis_def
    by (rule same_registry_inv [OF same_registry_new_session])+
qed

lemma registry_staking_step:
  assumes "staking_step T s s'" and "registry_inv s"
  shows "registry_inv s'"
  using assms
proof (cases rule: staking_step.cases)
  case (uncle a)
  then show ?thesis
    using assms(2) same_registry_inv [OF same_registry_parameters(13) assms(2)]
    by (auto simp: note_uncle_def split: option.splits)
qed (use assms(2) in \<open>auto simp: room_def note_author_def sm_start_session_def sm_end_session_def
      intro: step_intros registry_sm_new_session
      same_registry_steps [THEN same_registry_inv]\<close>)

subsection \<open>Genesis\<close>

definition role_count :: "'w staking \<Rightarrow> nat" where
  "role_count s = CounterForValidators s + CounterForNominators s"

lemma bond_counters:
  "CounterForValidators (snd (bond T o1 c v p s)) = CounterForValidators s \<and>
    CounterForNominators (snd (bond T o1 c v p s)) = CounterForNominators s"
  by (simp add: bond_def Let_def split: option.split prod.split bool.split)

lemma validate_counters: "role_count (snd (validate T o1 prefs s)) \<le> Suc (role_count s)"
  by (auto simp: validate_def Let_def role_count_def do_add_counters do_remove_writes sat_add_def
      split: option.split)

lemma nominate_counters: "role_count (snd (nominate T o1 targets s)) \<le> Suc (role_count s)"
  by (auto simp: nominate_def Let_def role_count_def do_add_counters do_remove_writes sat_add_def
      split: option.split sum.split)

lemma genesis_staker_inv:
  assumes "registry_inv s" and "role_count s < u32_max" and "genesis_staker T x s = Some s'"
  shows "registry_inv s' \<and> role_count s' \<le> Suc (role_count s)"
proof -
  obtain stash c balance status where x: "x = (stash, c, balance, status)" by (cases x)
  let ?b = "bond T (Signed stash) (T_unlookup T c) balance RdStaked s"
  let ?s1 = "snd ?b"
  have 1: "registry_inv ?s1" "role_count ?s1 = role_count s"
    using registry_bond [OF assms(1)] bond_counters [of T "Signed stash" "T_unlookup T c" balance RdStaked s]
    by (simp_all add: role_count_def)
  then have small: "CounterForValidators ?s1 < u32_max" "CounterForNominators ?s1 < u32_max"
    using assms(2) by (simp_all add: role_count_def)
  have "s' = ?s1 \<or> s' = snd (validate T (Signed c) ValidatorPrefs_default ?s1) \<or>
      (\<exists>votes. s' = snd (nominate T (Signed c) (map (T_unlookup T) votes) ?s1))"
    using assms(3) x
    by (cases status) (auto simp: genesis_staker_def split: if_splits prod.splits sum.splits, metis snd_conv)
  then show ?thesis
    using 1 registry_validate [OF 1(1) small(1)] registry_nominate [OF 1(1) small(2)]
      validate_counters nominate_counters by (metis order_refl le_SucI)
qed

lemma genesis_stakers_inv:
  assumes "registry_inv s" and "role_count s + length xs < u32_max" and "genesis_stakers T xs s = Some s'"
  shows "registry_inv s'"
  using assms
proof (induction xs arbitrary: s)
  case Nil
  then show ?case by simp
next
  case (Cons x xs)
  then obtain s1 where s1: "genesis_staker T x s = Some s1" "genesis_stakers T xs s1 = Some s'"
    by (auto split: option.splits)
  with genesis_staker_inv [OF Cons.prems(1) _ s1(1)] Cons.prems(2) Cons.IH [OF _ _ s1(2)]
  show ?case by simp
qed

lemma registry_staking_default: "registry_inv (staking_default w)"
  by (simp add: registry_inv_def paired_def roles_ok_def counters_ok_def offending_sorted_def
      claims_sorted_def staking_default_def)

lemma registry_genesis:
  assumes "length (gen_stakers g) < u32_max" and "genesis_build T g (staking_default w) = Some s"
  shows "registry_inv s"
proof -
  let ?s1 = "(staking_default w)\<lparr>HistoryDepth := gen_history_depth g,
                 ValidatorCount := gen_validator_count g,
                 MinimumValidatorCount := gen_minimum_validator_count g,
                 Invulnerables := gen_invulnerables g,
                 ForceEra := gen_force_era g,
                 CanceledSlashPayout := gen_canceled_payout g,
                 SlashRewardFraction := gen_slash_reward_fraction g,
                 StorageVersion := V7_0_0,
                 MinNominatorBond := gen_min_nominator_bond g,
                 MinValidatorBond := gen_min_validator_bond g,
                 MaxValidatorsCount := (case gen_max_validator_count g of
                   None \<Rightarrow> MaxValidatorsCount (staking_default w) | Some x \<Rightarrow> Some x),
                 MaxNominatorsCount := (case gen_max_nominator_count g of
                   None \<Rightarrow> MaxNominatorsCount (staking_default w) | Some x \<Rightarrow> Some x)\<rparr>"
  have s1: "same_registry (staking_default w) ?s1" "role_count ?s1 = 0"
    by (simp_all add: same_registry_def role_count_def) (simp_all add: staking_default_def)
  have s3: "genesis_stakers T (gen_stakers g) ?s1 = Some s"
    using assms(2) unfolding genesis_build_def Let_def by (simp split: option.splits if_splits)
  from genesis_stakers_inv [OF same_registry_inv [OF s1(1) registry_staking_default] _ s3] s1(2) assms(1)
  show ?thesis by simp
qed

lemma registry_reachable: "staking_reachable T s \<Longrightarrow> registry_inv s"
  by (induction rule: staking_reachable.induct) (auto intro: registry_genesis registry_staking_step)

subsection \<open>The registry in every reachable state\<close>

definition sample_genesis :: GenesisConfig where
  "sample_genesis =
     \<lparr>gen_history_depth = 84, gen_validator_count = 10, gen_minimum_validator_count = 1,
      gen_invulnerables = [], gen_force_era = NotForcing, gen_slash_reward_fraction = 100000000,
      gen_canceled_payout = 0,
      gen_stakers = [(10, 110, 100, Validator), (20, 120, 80, Nominator [10])],
      gen_min_nominator_bond = 0, gen_min_validator_bond = 0,
      gen_max_validator_count = None, gen_max_nominator_count = None\<rparr>"

definition sample_genesis_state :: "bank staking" where
  "sample_genesis_state = the (genesis_build sample_T sample_genesis (staking_default sample_bank))"

lemma sample_genesis_builds:
  "genesis_build sample_T sample_genesis (staking_default sample_bank) = Some sample_genesis_state"
proof -
  have "genesis_build sample_T sample_genesis (staking_default sample_bank) \<noteq> None"
    by code_simp
  then show ?thesis by (auto simp: sample_genesis_state_def)
qed

lemma sample_genesis_reachable: "staking_reachable sample_T sample_genesis_state"
  using sample_genesis_builds by (intro staking_reachable.genesis [of sample_genesis])
    (simp_all add: sample_genesis_def u32_max_def)

text \<open>C11. In every reachable state a stash is bonded to a controller exactly if the ledger kept
  under that controller belongs to the stash; hence no controller serves two stashes, and every
  ledger is found again through \<open>Bonded\<close>. Nobody is both a validator and a nominator, everybody
  with a role is bonded, and the two counters are the numbers of entries of the two maps.\<close>

theorem reachable_registry:
  assumes "staking_reachable T s"
  shows "(\<forall>stash c. Bonded s stash = Some c \<longleftrightarrow> (\<exists>l. Ledger s c = Some l \<and> sl_stash l = stash)) \<and>
    inj_on (Bonded s) (dom (Bonded s)) \<and> ran (Bonded s) = dom (Ledger s) \<and>
    dom (Validators s) \<inter> dom (Nominators s) = {} \<and>
    dom (Validators s) \<union> dom (Nominators s) \<subseteq> dom (Bonded s) \<and>
    CounterForValidators s = card (dom (Validators s)) \<and>
    CounterForNominators s = card (dom (Nominators s))"
proof -
  have inv: "registry_inv s" by (rule registry_reachable [OF assms])
  have p: "Bonded s stash = Some c \<longleftrightarrow> (\<exists>l. Ledger s c = Some l \<and> sl_stash l = stash)" for stash c
    using inv by (simp add: registry_inv_def paired_def)
  have "inj_on (Bonded s) (dom (Bonded s))"
  proof (rule inj_onI)
    fix a b
    assume "a \<in> dom (Bonded s)" and eq: "Bonded s a = Bonded s b"
    then obtain c where a: "Bonded s a = Some c" by blast
    with eq have b: "Bonded s b = Some c" by simp
    from iffD1 [OF p a] iffD1 [OF p b] show "a = b" by auto
  qed
  moreover have "c \<in> ran (Bonded s) \<longleftrightarrow> c \<in> dom (Ledger s)" for c
    unfolding ran_def dom_def using p [of _ c] by simp
  ultimately show ?thesis using p inv by (simp add: set_eq_iff registry_inv_def roles_ok_def counters_ok_def)
qed

theorem reachable_registry_witness:
  "ran (Bonded (snd (chill sample_T (Signed 110) sample_genesis_state))) =
     dom (Ledger (snd (chill sample_T (Signed 110) sample_genesis_state))) \<and>
   CounterForValidators (snd (chill sample_T (Signed 110) sample_genesis_state)) = 0 \<and>
   card (dom (Nominators (snd (chill sample_T (Signed 110) sample_genesis_state)))) = 1"
proof -
  let ?s = "snd (chill sample_T (Signed 110) sample_genesis_state)"
  have "staking_reachable sample_T ?s"
    by (rule staking_reachable.step [OF sample_genesis_reachable staking_step.call_chill])
  note 1 = reachable_registry [OF this]
  have "CounterForValidators ?s = 0" "CounterForNominators ?s = 1" by code_simp+
  with 1 show ?thesis by simp
qed

end
