(* ===== verification/Staking_Effects.thy ===== *)
theory Staking_Effects
  imports Staking_Invariants
begin

section \<open>Staking: the effect of the calls\<close>

text \<open>
  What the dispatchable calls do when they succeed, and that they do nothing when they fail
  (but for \<open>CannotPayout\<close>, which is returned after the payments): the
  effect on the ledger of bonding, unbonding and withdrawing, on the roles of nominating, chilling
  and kicking, and on the queue of deferred slashes of cancelling.
\<close>

subsection \<open>Cancelling deferred slashes\<close>

lemma is_sorted_and_unique_iff: "is_sorted_and_unique xs \<longleftrightarrow> sorted_wrt (<) xs"
proof (induction xs)
  case Nil
  then show ?case by (simp add: is_sorted_and_unique_def)
next
  case (Cons x xs)
  then show ?case
    by (cases xs) (auto simp: is_sorted_and_unique_def intro: less_trans)
qed

lemma nths_remove_below:
  assumes "i < length xs" and "i \<notin> A"
  shows "remove_at (i - card (A \<inter> {..<i})) (nths xs (- A)) = nths xs (- insert i A)"
proof -
  have split: "xs = take i xs @ xs ! i # drop (Suc i) xs" using assms(1) by (rule id_take_nth_drop)
  let ?p = "nths (take i xs) (- A)"
  have len: "length ?p = i - card (A \<inter> {..<i})"
  proof -
    have "{j. j < length (take i xs) \<and> j \<in> - A} = {..<i} - (A \<inter> {..<i})" using assms(1) by auto
    then show ?thesis unfolding length_nths by (simp add: card_Diff_subset)
  qed
  have 1: "nths xs (- A) = ?p @ xs ! i # nths (drop (Suc i) xs) {j. j + Suc i \<in> - A}"
    using assms by (subst split) (simp add: nths_append nths_Cons min_def)
  have "nths (take i xs) (- insert i A) = ?p"
    unfolding nths_def by (rule arg_cong [where f = "map fst"], rule filter_cong) (auto simp: set_zip)
  then have 2: "nths xs (- insert i A) = ?p @ nths (drop (Suc i) xs) {j. j + Suc i \<in> - A}"
    using assms by (subst split) (simp add: nths_append nths_Cons min_def)
  show ?thesis unfolding 1 2 len [symmetric] by (simp add: remove_at_def)
qed

lemma cancel_loop_nths:
  assumes "sorted_wrt (<) idx" and "\<forall>i\<in>set idx. i < length xs"
    and "finite A" and "\<forall>a\<in>A. \<forall>i\<in>set idx. a < i"
  shows "cancel_loop (card A) idx (nths xs (- A)) = nths xs (- (A \<union> set idx))"
  using assms
proof (induction idx arbitrary: A)
  case Nil
  then show ?case by simp
next
  case (Cons i idx)
  have A: "A \<inter> {..<i} = A" "i \<notin> A" using Cons.prems(4) by auto
  with nths_remove_below [of i xs A] Cons.prems(2)
  have "remove_at (i - card A) (nths xs (- A)) = nths xs (- insert i A)" by simp
  moreover have "cancel_loop (card (insert i A)) idx (nths xs (- insert i A)) = nths xs (- (insert i A \<union> set idx))"
    by (rule Cons.IH) (use Cons.prems in auto)
  ultimately show ?case using A Cons.prems(3) by (simp add: insert_commute)
qed

text \<open>Cancelling succeeds only for a nonempty, strictly increasing list of indices of slashes
  that are queued for the era, and then removes exactly the slashes at these indices of the list as
  it was before the call, keeping the others in order; nothing else changes.\<close>

theorem cancel_deferred_slash_exact:
  assumes "cancel_deferred_slash T o1 era indices s = (Inr w, s')"
  shows "T_slash_cancel_origin T o1 \<and> indices \<noteq> [] \<and> sorted_wrt (<) indices \<and>
    (\<forall>i\<in>set indices. i < length (unapplied_slashes s era)) \<and>
    s' = s\<lparr>UnappliedSlashes := (UnappliedSlashes s)(era \<mapsto>
             nths (unapplied_slashes s era) (- set indices))\<rparr>"
proof -
  let ?u = "unapplied_slashes s era"
  have g: "T_slash_cancel_origin T o1" "indices \<noteq> []" "sorted_wrt (<) indices"
      "last indices < length ?u"
    and s': "s' = s\<lparr>UnappliedSlashes := (UnappliedSlashes s)(era \<mapsto> cancel_loop 0 indices ?u)\<rparr>"
    using assms by (auto simp: cancel_deferred_slash_def Let_def is_sorted_and_unique_iff split: if_splits)
  have "i \<le> last indices" if "i \<in> set indices" for i
    using that g(3) by (induction indices) (auto intro: less_imp_le)
  with g(4) have all: "\<forall>i\<in>set indices. i < length ?u" using le_less_trans by blast
  from cancel_loop_nths [OF g(3) all, of "{}"] have "cancel_loop 0 indices ?u = nths ?u (- set indices)"
    by (simp add: nths_all)
  with g s' all show ?thesis by simp
qed

definition sample_queue :: "UnappliedSlash list" where
  "sample_queue = map (\<lambda>v. \<lparr>us_validator = v, us_own = 5, us_others = [], us_reporters = [], us_payout = 1\<rparr>) [10, 11, 12]"

theorem cancel_deferred_slash_exact_witness:
  "UnappliedSlashes (snd (cancel_deferred_slash sample_T Root 3 [0, 2]
     (sample_staking\<lparr>UnappliedSlashes := [3 \<mapsto> sample_queue]\<rparr>))) 3 = Some [sample_queue ! 1]"
proof -
  let ?s = "sample_staking\<lparr>UnappliedSlashes := [3 \<mapsto> sample_queue]\<rparr>"
  let ?r = "cancel_deferred_slash sample_T Root 3 [0, 2] ?s"
  have "fst ?r = Inr None" by code_simp
  then have r: "?r = (Inr None, snd ?r)" by (simp add: prod_eq_iff)
  have "nths (unapplied_slashes ?s 3) (- set [0, 2]) = [sample_queue ! 1]"
    by (simp add: unapplied_slashes_def sample_queue_def nths_Cons)
  with cancel_deferred_slash_exact [OF r] show ?thesis by simp
qed

subsection \<open>Errors\<close>

text \<open>The outcome of a call started in \<open>s\<close> is \<open>error_safe\<close> if an error comes with \<open>s\<close> itself.\<close>

definition error_safe :: "'w staking \<Rightarrow> (staking_error + 'a) \<times> 'w staking \<Rightarrow> bool" where
  "error_safe s r \<longleftrightarrow> (\<forall>e. fst r = Inl e \<longrightarrow> snd r = s)"

lemma error_safe_simps [simp]: "error_safe s (Inl e, s)" "error_safe s (Inr x, s')"
  by (simp_all add: error_safe_def)

lemmas call_splits = option.split sum.split prod.split

lemma bonding_error:
  "error_safe s (bond_extra T o1 x s)" "error_safe s (unbond T o1 x s)" "error_safe s (rebond T o1 x s)"
  by (simp_all add: bond_extra_def unbond_def rebond_def Let_def split: call_splits)

lemma role_error:
  "error_safe s (validate T o1 prefs s)" "error_safe s (nominate T o1 targets s)"
  "error_safe s (chill T o1 s)" "error_safe s (kick T o1 targets s)"
  "error_safe s (force_apply_min_commission o1 who s)"
  by (simp_all add: validate_def nominate_def chill_def kick_def force_apply_min_commission_def Let_def
      split: call_splits)

lemma chill_other_error: "error_safe s (chill_other T o1 who s)"
  unfolding chill_other_def Let_def
  by (cases "ensure_signed o1"; cases "Ledger s who") (simp_all only: option.case if_split error_safe_simps, blast)

lemma identity_error: "error_safe s (set_payee o1 dest s)" "error_safe s (set_controller T o1 who s)"
  by (simp_all add: set_payee_def set_controller_def Let_def split: call_splits)

lemma root_error:
  "error_safe s (set_validator_count o1 n s)" "error_safe s (increase_validator_count o1 n s)"
  "error_safe s (scale_validator_count T o1 n s)" "error_safe s (force_no_eras o1 s)"
  "error_safe s (force_new_era o1 s)" "error_safe s (force_new_era_always o1 s)"
  "error_safe s (set_invulnerables o1 targets s)" "error_safe s (set_history_depth o1 n s)"
  "error_safe s (set_staking_configs o1 a b c d f g s)"
  "error_safe s (cancel_deferred_slash T o1 era indices s)"
  by (simp_all add: set_validator_count_def increase_validator_count_def scale_validator_count_def
      force_no_eras_def force_new_era_def force_new_era_always_def set_invulnerables_def
      set_history_depth_def set_staking_configs_def cancel_deferred_slash_def Let_def
      split: call_splits)

lemma kill_stash_error: "kill_stash T stash n s = (Inl e, s') \<Longrightarrow> s' = s"
  by (auto simp: kill_stash_def clear_stash_metadata_def Let_def split: option.splits if_splits)

lemma kill_error:
  "error_safe s (kill_and_unlock T who n s)" "error_safe s (withdraw_unbonded T o1 n s)"
  by (simp_all add: kill_and_unlock_def withdraw_unbonded_def Let_def split: call_splits)
    (auto dest: kill_stash_error)

lemma reap_error: "error_safe s (force_unstake T o1 who n s)" "error_safe s (reap_stash T o1 who n s)"
  by (simp_all add: force_unstake_def reap_stash_def Let_def kill_error split: call_splits)

text \<open>A reference counter that refuses to count changes nothing.\<close>

definition consumers_law :: "'w staking_config \<Rightarrow> bool" where
  "consumers_law T \<longleftrightarrow> (\<forall>a w w'. T_inc_consumers T a w = (False, w') \<longrightarrow> w' = w)"

lemma bond_error: "consumers_law T \<Longrightarrow> error_safe s (bond T o1 c v d s)"
  by (auto simp: bond_def Let_def error_safe_def consumers_law_def split: call_splits bool.splits)

lemma payout_error: "fst (payout_stakers T o1 v era s) = Inl e \<Longrightarrow> e \<noteq> CannotPayout \<Longrightarrow> snd (payout_stakers T o1 v era s) = s"
  by (auto simp: payout_stakers_def do_payout_stakers_def payout_pay_def Let_def split: call_splits bool.splits if_splits)

lemmas call_errors = bonding_error role_error chill_other_error identity_error root_error
  kill_error(2) reap_error

text \<open>C13. A call of the pallet that returns an error leaves the storage and the other pallets as they were,
  unless the error is \<open>CannotPayout\<close>, which \<open>payout_stakers\<close> returns after it has paid, when the fund
  cannot settle. (The one error of \<open>bond\<close> after its guards is that of the reference counter.)\<close>

theorem failed_call_changes_nothing:
  assumes "r \<in> {bond T o1 controller v dest s, bond_extra T o1 x s, unbond T o1 x s, rebond T o1 x s, withdraw_unbonded T o1 n s,
      validate T o1 prefs s, nominate T o1 targets s, chill T o1 s, chill_other T o1 who s,
      kick T o1 targets s, force_apply_min_commission o1 who s, set_payee o1 dest s,
      set_controller T o1 who s, set_validator_count o1 n s, increase_validator_count o1 n s,
      scale_validator_count T o1 n s, force_no_eras o1 s, force_new_era o1 s,
      force_new_era_always o1 s, set_invulnerables o1 targets s, set_history_depth o1 n s,
      set_staking_configs o1 a b c d f g s, cancel_deferred_slash T o1 era indices s,
      force_unstake T o1 who n s, reap_stash T o1 who n s, payout_stakers T o1 who era s}"
    and "consumers_law T" and "fst r = Inl e" and "e \<noteq> CannotPayout"
  shows "snd r = s"
proof (cases "r = payout_stakers T o1 who era s")
  case True
  with payout_error assms(3,4) show ?thesis by auto
next
  case False
  with assms(1) have "error_safe s r"
    by (elim insertE emptyE) (simp_all only: call_errors bond_error [OF assms(2)], blast)
  with assms(3) show ?thesis by (simp add: error_safe_def)
qed

theorem failed_call_changes_nothing_witness:
  "fst (withdraw_unbonded sample_T (Signed 99) 0 sample_staking) = Inl NotController \<and>
   snd (withdraw_unbonded sample_T (Signed 99) 0 sample_staking) = sample_staking"
proof -
  have e: "fst (withdraw_unbonded sample_T (Signed 99) 0 sample_staking) = Inl NotController" by code_simp
  have "consumers_law sample_T" by (simp add: consumers_law_def sample_T_def sample_config_def)
  from failed_call_changes_nothing [OF _ this e] e show ?thesis by blast
qed

subsection \<open>The ledger under the bonding calls\<close>

text \<open>A balance is a \<^verbatim>\<open>u128\<close>.\<close>

definition balances_u128 :: "'w currency \<Rightarrow> bool" where
  "balances_u128 C \<longleftrightarrow> (\<forall>w a. cur_free_balance C w a \<le> u128_max)"

lemma report_weight_frame [simp]:
  "Ledger (report_weight T stash s) = Ledger s" "Bonded (report_weight T stash s) = Bonded s"
  by (simp_all add: report_weight_def)

lemma update_ledger_Ledger: "Ledger (update_ledger T c l s) = (Ledger s)(c \<mapsto> l)"
  by simp

lemma ledgers_wf_update: "ledgers_wf s \<Longrightarrow> wf_ledger l \<Longrightarrow> Ledger s' = (Ledger s)(c \<mapsto> l) \<Longrightarrow> ledgers_wf s'"
  by (auto simp: ledgers_wf_def split: if_splits)

lemma ledgers_wf_same: "ledgers_wf s \<Longrightarrow> Ledger s' = Ledger s \<Longrightarrow> ledgers_wf s'"
  by (simp add: ledgers_wf_def)

lemma ledgers_wfD: "ledgers_wf s \<Longrightarrow> Ledger s c = Some l \<Longrightarrow> wf_ledger l"
  by (auto simp: ledgers_wf_def)

lemma wf_bonded:
  "wf_ledger \<lparr>sl_stash = stash, sl_total = v, sl_active = v, sl_unlocking = [], sl_claimed_rewards = cl\<rparr>
     \<longleftrightarrow> v \<le> u128_max"
  by (simp add: wf_ledger_def)

lemma ledgers_wf_bond:
  assumes "ledgers_wf s" and "balances_u128 (T_currency T)"
  shows "ledgers_wf (snd (bond T o1 c v p s))"
proof -
  have "min v (cur_free_balance (T_currency T) w a) \<le> u128_max" for w a
    using assms(2) by (simp add: balances_u128_def min.coboundedI2)
  with ledgers_wfD [OF assms(1)] show ?thesis
    unfolding ledgers_wf_def
    by (auto simp: bond_def Let_def wf_bonded split: option.splits prod.splits bool.splits if_splits)
qed

lemma ledgers_wf_bond_extra:
  assumes "ledgers_wf s" and "balances_u128 (T_currency T)"
  shows "ledgers_wf (snd (bond_extra T o1 x s))"
proof -
  have room: "wf_ledger (l\<lparr>sl_total := add_u128 (sl_total l) (min e x), sl_active := add_u128 (sl_active l) (min e x)\<rparr>)"
    if "Ledger s c = Some l" "checked_sub (cur_free_balance (T_currency T) w a) (sl_total l) = Some e" for c l w a e
  proof -
    from that(1) assms(1) have l: "wf_ledger l" by (rule ledgers_wfD [rotated])
    from that(2) assms(2) have "sl_total l + e \<le> u128_max"
      by (auto simp: checked_sub_def balances_u128_def split: if_splits)
    with l have "sl_total l + min e x \<le> u128_max" "sl_active l + min e x \<le> u128_max"
      by (auto simp: wf_ledger_def)
    with l show ?thesis by (simp add: wf_ledger_def width_simps)
  qed
  with ledgers_wfD [OF assms(1)] show ?thesis
    unfolding ledgers_wf_def
    by (auto simp: bond_extra_def Let_def split: option.splits if_splits)
qed

lemma push_chunk_spec:
  assumes "push_chunk cs v era = Some cs'" and "unlocking_sum cs + v \<le> u128_max" and "length cs \<le> MaxUnlockingChunks"
  shows "unlocking_sum cs' = unlocking_sum cs + v \<and> cs' \<noteq> [] \<and> uc_era (last cs') = era \<and>
    length cs' \<le> MaxUnlockingChunks"
proof (cases "cs \<noteq> [] \<and> uc_era (last cs) = era")
  case True
  let ?c = "last cs"
  have cs: "cs = butlast cs @ [?c]" using True by simp
  have sum: "unlocking_sum cs = unlocking_sum (butlast cs) + uc_value ?c"
    by (subst cs) simp
  with assms(2) have "sat_add_u128 (uc_value ?c) v = uc_value ?c + v" by (simp add: width_simps)
  with True assms sum show ?thesis by (auto simp: push_chunk_def)
next
  case False
  with assms show ?thesis by (auto simp: push_chunk_def split: if_splits)
qed

text \<open>What \<open>unbond\<close> takes off the active stake: the value, or everything if the rest would be
  below the existential deposit.\<close>

definition unbond_amount :: "'w staking_config \<Rightarrow> Balance \<Rightarrow> StakingLedger \<Rightarrow> Balance" where
  "unbond_amount T value l =
     (if sl_active l - min value (sl_active l) < cur_minimum_balance (T_currency T)
      then sl_active l else min value (sl_active l))"

lemma unbond_cases:
  assumes "unbond T (Signed c) value s = (Inr w, s')" and "Ledger s c = Some l" and "wf_ledger l"
  obtains
    (nothing) "min value (sl_active l) = 0" "s' = s"
  | (moved) cs' where
      "min value (sl_active l) \<noteq> 0" "length (sl_unlocking l) < MaxUnlockingChunks"
      "push_chunk (sl_unlocking l) (unbond_amount T value l)
         (add_u32 (case CurrentEra s of None \<Rightarrow> 0 | Some e \<Rightarrow> e) (T_BondingDuration T)) = Some cs'"
      "min_active_bond s (sl_stash l) \<le> sl_active l - unbond_amount T value l"
      "Ledger s' = (Ledger s)(c \<mapsto> l\<lparr>sl_active := sl_active l - unbond_amount T value l, sl_unlocking := cs'\<rparr>)"
proof (cases "min value (sl_active l) = 0")
  case True
  with assms have "s' = s" by (auto simp: unbond_def Let_def split: if_splits)
  with True show ?thesis by (rule nothing)
next
  case False
  let ?v = "min value (sl_active l)"
  have le: "sl_active l \<le> u128_max" using assms(3) by (simp add: wf_ledger_def)
  have act: "sub_u128 (sl_active l) ?v = sl_active l - ?v" using le by (simp add: width_simps)
  have amount: "(if sl_active l - ?v < cur_minimum_balance (T_currency T)
      then add_u128 ?v (sl_active l - ?v) else ?v) = unbond_amount T value l"
    using le by (auto simp: unbond_amount_def width_simps)
  have rest: "(if sl_active l - ?v < cur_minimum_balance (T_currency T) then 0 else sl_active l - ?v)
      = sl_active l - unbond_amount T value l"
    by (simp add: unbond_amount_def)
  from assms(1,2) False show ?thesis
    by (auto simp: unbond_def Let_def act amount rest split: if_splits option.splits intro!: moved)
      (simp_all add: unbond_amount_def)
qed

lemma unbond_spec:
  assumes "unbond T (Signed c) value s = (Inr w, s')" and "Ledger s c = Some l" and "wf_ledger l"
    and "min value (sl_active l) \<noteq> 0"
  shows "\<exists>l'. Ledger s' = (Ledger s)(c \<mapsto> l') \<and> wf_ledger l' \<and>
    sl_stash l' = sl_stash l \<and> sl_total l' = sl_total l \<and>
    sl_active l' = sl_active l - unbond_amount T value l \<and>
    unlocking_sum (sl_unlocking l') = unlocking_sum (sl_unlocking l) + unbond_amount T value l \<and>
    uc_era (last (sl_unlocking l')) =
      add_u32 (case CurrentEra s of None \<Rightarrow> 0 | Some e \<Rightarrow> e) (T_BondingDuration T) \<and>
    length (sl_unlocking l') \<le> MaxUnlockingChunks \<and>
    (sl_active l' = 0 \<or> cur_minimum_balance (T_currency T) \<le> sl_active l') \<and>
    min_active_bond s (sl_stash l) \<le> sl_active l'"
  using assms(1-3)
proof (cases rule: unbond_cases)
  case nothing
  with assms(4) show ?thesis by simp
next
  case (moved cs')
  let ?a = "unbond_amount T value l"
  have a: "?a \<le> sl_active l" by (simp add: unbond_amount_def)
  have "sl_active l - ?a = 0 \<or> cur_minimum_balance (T_currency T) \<le> sl_active l - ?a"
    by (auto simp: unbond_amount_def)
  moreover have "unlocking_sum (sl_unlocking l) + ?a \<le> u128_max"
    using a assms(3) by (simp add: wf_ledger_def)
  from push_chunk_spec [OF moved(3) this] moved(2)
  have "unlocking_sum cs' = unlocking_sum (sl_unlocking l) + ?a" "length cs' \<le> MaxUnlockingChunks"
    "uc_era (last cs') = add_u32 (case CurrentEra s of None \<Rightarrow> 0 | Some e \<Rightarrow> e) (T_BondingDuration T)"
    by simp_all
  ultimately show ?thesis
    using moved(4,5) a assms(3)
    by (intro exI [of _ "l\<lparr>sl_active := sl_active l - ?a, sl_unlocking := cs'\<rparr>"]) (simp add: wf_ledger_def)
qed

lemma ledgers_wf_unbond:
  assumes "ledgers_wf s"
  shows "ledgers_wf (snd (unbond T o1 value s))"
proof (cases "\<exists>c l w. o1 = Signed c \<and> Ledger s c = Some l \<and> fst (unbond T o1 value s) = Inr w")
  case True
  then obtain c l w where o1: "o1 = Signed c" and l: "Ledger s c = Some l"
    and u: "unbond T (Signed c) value s = (Inr w, snd (unbond T o1 value s))" by (metis surjective_pairing)
  have wf: "wf_ledger l" by (rule ledgers_wfD [OF assms l])
  show ?thesis
  proof (cases "min value (sl_active l) = 0")
    case True
    with u l have "snd (unbond T o1 value s) = s" by (auto simp: o1 unbond_def Let_def split: if_splits)
    with assms show ?thesis by simp
  next
    case False
    from unbond_spec [OF u l wf this] ledgers_wf_update [OF assms] show ?thesis by blast
  qed
next
  case False
  then have "\<And>w. fst (unbond T o1 value s) \<noteq> Inr w"
    by (cases o1; cases "Ledger s (case o1 of Signed c \<Rightarrow> c)") (auto simp: unbond_def)
  then have "snd (unbond T o1 value s) = s"
    using bonding_error(2) [of s T o1 "value"] by (cases "fst (unbond T o1 value s)") (auto simp: error_safe_def)
  with assms show ?thesis by simp
qed

lemma ledgers_wf_rebond:
  assumes "ledgers_wf s"
  shows "ledgers_wf (snd (rebond T o1 value s))"
proof -
  have wf: "wf_ledger l'" if "Ledger s c = Some l" "ledger_rebond l value = (l', r)" for c l l' r
    using wf_ledger_rebond [OF ledgers_wfD [OF assms that(1)] that(2)] .
  show ?thesis
    using wf ledgers_wfD [OF assms] unfolding ledgers_wf_def
    by (auto simp: rebond_def Let_def split: option.splits prod.splits if_splits)
qed

lemma remove_span_slashes_Ledger [simp]: "Ledger (remove_span_slashes stash is s) = Ledger s"
  by (simp add: remove_span_slashes_def)

lemma kill_stash_Ledger:
  "Ledger (snd (kill_stash T stash n s)) c = Some l \<Longrightarrow> Ledger s c = Some l"
  by (auto simp: kill_stash_def clear_stash_metadata_def Let_def split: option.splits if_splits sum.splits prod.splits)

lemma ledgers_wf_withdraw_unbonded:
  assumes "ledgers_wf s"
  shows "ledgers_wf (snd (withdraw_unbonded T o1 n s))"
proof -
  have "wf_ledger (case CurrentEra s of None \<Rightarrow> l | Some e \<Rightarrow> consolidate_unlocked l e)"
    if "Ledger s c = Some l" for c l
    using ledgers_wfD [OF assms that] by (simp add: wf_consolidate_unlocked split: option.split)
  moreover have "wf_ledger l" if "kill_stash T stash n s = (r, s1)" "Ledger s1 c = Some l" for stash r s1 c l
    using kill_stash_Ledger [of T stash n s c l] that ledgers_wfD [OF assms] by simp
  ultimately show ?thesis
    using ledgers_wfD [OF assms] unfolding ledgers_wf_def
    by (auto simp: withdraw_unbonded_def Let_def split: option.split sum.split prod.split if_split)
qed

subsection \<open>What the calls do\<close>

definition sample_T_u128 :: "bank staking_config" where
  "sample_T_u128 = sample_T\<lparr>T_currency := sample_currency
     \<lparr>cur_free_balance := (\<lambda>w a. min (w a) u128_max)\<rparr>\<rparr>"

lemma sample_balances_u128: "balances_u128 (T_currency sample_T_u128)"
  by (simp add: balances_u128_def sample_T_u128_def)

lemma sample_ledgers_wf: "ledgers_wf sample_staking"
  by (simp add: ledgers_wf_def sample_staking_def wf_ledger_def u128_max_def)

text \<open>C15. A successful \<open>unbond\<close> moves the value, capped by the active stake, from the active stake
  to a chunk that unlocks \<^verbatim>\<open>BondingDuration\<close> eras from now; if what stays active is below the
  existential deposit, all of the active stake moves. The total stays, the queue keeps its bound, the
  stake that stays is nothing or at least the existential deposit, and never below the minimum bond of
  the role of the stash. No other ledger changes.\<close>

theorem unbond_moves_stake:
  assumes "ledgers_wf s" and "Ledger s c = Some l" and "unbond T (Signed c) value s = (Inr w, s')"
    and "0 < min value (sl_active l)"
  shows "\<exists>l'. Ledger s' = (Ledger s)(c \<mapsto> l') \<and> sl_stash l' = sl_stash l \<and> sl_total l' = sl_total l \<and>
    sl_active l' = sl_active l - unbond_amount T value l \<and>
    unlocking_sum (sl_unlocking l') = unlocking_sum (sl_unlocking l) + unbond_amount T value l \<and>
    uc_era (last (sl_unlocking l')) =
      add_u32 (case CurrentEra s of None \<Rightarrow> 0 | Some e \<Rightarrow> e) (T_BondingDuration T) \<and>
    length (sl_unlocking l') \<le> MaxUnlockingChunks \<and>
    (sl_active l' = 0 \<or> cur_minimum_balance (T_currency T) \<le> sl_active l') \<and>
    min_active_bond s (sl_stash l) \<le> sl_active l'"
  using unbond_spec [OF assms(3,2) ledgers_wfD [OF assms(1,2)]] assms(4) by blast

theorem unbond_moves_stake_witness:
  "\<exists>l'. Ledger (snd (unbond sample_T (Signed 120) 47 sample_staking)) 120 = Some l' \<and> sl_active l' = 0 \<and>
     uc_era (last (sl_unlocking l')) = 31"
proof -
  let ?l = "\<lparr>sl_stash = 20, sl_total = 80, sl_active = 50, sl_unlocking = [\<lparr>uc_value = 30, uc_era = 5\<rparr>],
    sl_claimed_rewards = []\<rparr>"
  have l: "Ledger sample_staking 120 = Some ?l" by (simp add: sample_staking_def)
  have ok: "fst (unbond sample_T (Signed 120) 47 sample_staking) = Inr None" by code_simp
  then have u: "unbond sample_T (Signed 120) 47 sample_staking =
      (Inr None, snd (unbond sample_T (Signed 120) 47 sample_staking))" by (simp add: prod_eq_iff)
  have "unbond_amount sample_T 47 ?l = 50"
    "add_u32 (case CurrentEra sample_staking of None \<Rightarrow> 0 | Some e \<Rightarrow> e) (T_BondingDuration sample_T) = 31"
    by code_simp+
  with unbond_moves_stake [OF sample_ledgers_wf l u] show ?thesis by auto
qed

text \<open>Somebody else than the controller can chill a staker only if a threshold is set, the role
  of the staker has a maximal number of holders, more than the threshold's share of that number hold
  the role, and the active stake is below the minimum bond of the role.\<close>

theorem chill_other_needs_crowding:
  assumes "chill_other T (Signed caller) controller s = (Inr w, s')" and "caller \<noteq> controller"
  shows "\<exists>l threshold. Ledger s controller = Some l \<and> ChillThreshold s = Some threshold \<and>
    s' = chill_stash T (sl_stash l) s \<and>
    (if Nominators s (sl_stash l) \<noteq> None
     then \<exists>m. MaxNominatorsCount s = Some m \<and>
       percent_mul (T_perthings T) threshold m < CounterForNominators s \<and> sl_active l < MinNominatorBond s
     else \<exists>m. Validators s (sl_stash l) \<noteq> None \<and> MaxValidatorsCount s = Some m \<and>
       percent_mul (T_perthings T) threshold m < CounterForValidators s \<and> sl_active l < MinValidatorBond s)"
proof -
  obtain l where l: "Ledger s controller = Some l"
    using assms(1) by (cases "Ledger s controller") (auto simp: chill_other_def)
  obtain threshold where t: "ChillThreshold s = Some threshold"
    using assms l by (cases "ChillThreshold s") (auto simp: chill_other_def Let_def split: if_splits)
  show ?thesis
  proof (cases "Nominators s (sl_stash l) = None")
    case True
    with assms l t show ?thesis
      by (auto simp: chill_other_def Let_def split: if_splits option.splits)
  next
    case False
    with assms l t show ?thesis
      by (auto simp: chill_other_def Let_def split: if_splits option.splits)
  qed
qed

definition sample_crowded :: "bank staking" where
  "sample_crowded = sample_staking\<lparr>ChillThreshold := Some 50, MaxNominatorsCount := Some 1, MinNominatorBond := 60\<rparr>"

theorem chill_other_needs_crowding_witness:
  "fst (chill_other sample_T (Signed 7) 120 sample_crowded) = Inr None \<and>
   Nominators (snd (chill_other sample_T (Signed 7) 120 sample_crowded)) 20 = None"
proof -
  let ?r = "chill_other sample_T (Signed 7) 120 sample_crowded"
  have ok: "fst ?r = Inr None" by code_simp
  then have r: "?r = (Inr None, snd ?r)" by (simp add: prod_eq_iff)
  have "Ledger sample_crowded 120 \<noteq> None" "map_option sl_stash (Ledger sample_crowded 120) = Some 20"
    "Nominators (chill_stash sample_T 20 sample_crowded) 20 = None" by code_simp+
  with chill_other_needs_crowding [OF r] ok show ?thesis by auto
qed

lemma swap_remove_mset:
  assumes "i < length xs"
  shows "mset (swap_remove i xs) = mset xs - {#xs ! i#}"
proof (cases "Suc i < length xs")
  case True
  then have ne: "xs \<noteq> []" and i: "i < length (butlast xs)" by auto
  have "mset ((butlast xs)[i := last xs]) = mset (butlast xs) - {#xs ! i#} + {#last xs#}"
    using mset_update [OF i, of "last xs"] i by (simp add: nth_butlast)
  also have "\<dots> = mset (butlast xs @ [last xs]) - {#xs ! i#}"
    using i by (simp add: nth_butlast [symmetric])
  finally show ?thesis using True ne by (simp add: swap_remove_def)
next
  case False
  with assms have "i = length xs - 1" and ne: "xs \<noteq> []" by auto
  then have "xs ! i = last xs" by (simp add: last_conv_nth)
  moreover have "mset xs = mset (butlast xs @ [last xs])" using ne by simp
  ultimately show ?thesis using False by (simp add: swap_remove_def)
qed

lemma position_eq: "position p xs = None \<longleftrightarrow> (\<forall>x\<in>set xs. \<not> p x)"
  by (induction xs) auto

lemma kick_one_Nominators:
  "Nominators (kick_one stash s n) a =
     (if a = n then map_option (\<lambda>x. if stash \<in> set (nom_targets x)
        then x\<lparr>nom_targets := swap_remove (the (position (\<lambda>v. v = stash) (nom_targets x))) (nom_targets x)\<rparr>
        else x) (Nominators s n)
      else Nominators s a)"
proof (cases "Nominators s n")
  case None
  then show ?thesis by (simp add: kick_one_def)
next
  case (Some x)
  then show ?thesis using position_eq [of "\<lambda>v. v = stash" "nom_targets x"]
    by (auto simp: kick_one_def split: option.split)
qed

lemma kick_one_targets:
  assumes "Nominators s a = Some x" and "distinct (nom_targets x)"
  shows "\<exists>y. Nominators (kick_one stash s n) a = Some y \<and> distinct (nom_targets y) \<and>
    set (nom_targets y) = (if a = n then set (nom_targets x) - {stash} else set (nom_targets x))"
proof (cases "a = n \<and> stash \<in> set (nom_targets x)")
  case True
  then obtain i where i: "position (\<lambda>v. v = stash) (nom_targets x) = Some i"
    using position_eq [of "\<lambda>v. v = stash" "nom_targets x"] by (cases "position (\<lambda>v. v = stash) (nom_targets x)") auto
  from position_Some [OF i] have "mset (swap_remove i (nom_targets x)) = mset (nom_targets x) - {#stash#}"
    using swap_remove_mset [of i "nom_targets x"] by simp
  moreover from this have "distinct (swap_remove i (nom_targets x))"
    by (metis assms(2) distinct_remove1 mset_eq_imp_distinct_iff mset_remove1)
  moreover have "set (swap_remove i (nom_targets x)) = set (nom_targets x) - {stash}"
    using calculation(1) assms(2) by (metis mset_remove1 mset_eq_setD set_remove1_eq)
  ultimately show ?thesis using True assms(1) i by (simp add: kick_one_Nominators)
next
  case False
  with assms show ?thesis by (auto simp: kick_one_Nominators)
qed

lemma kick_all_targets:
  assumes "Nominators s a = Some x" and "distinct (nom_targets x)"
  shows "\<exists>y. Nominators (foldl (kick_one stash) s ns) a = Some y \<and> distinct (nom_targets y) \<and>
    set (nom_targets y) = (if a \<in> set ns then set (nom_targets x) - {stash} else set (nom_targets x))"
  using assms
proof (induction ns arbitrary: s x)
  case Nil
  then show ?case by simp
next
  case (Cons n ns)
  from kick_one_targets [OF Cons.prems, of stash n] obtain y where
    y: "Nominators (kick_one stash s n) a = Some y" "distinct (nom_targets y)"
      "set (nom_targets y) = (if a = n then set (nom_targets x) - {stash} else set (nom_targets x))" by blast
  from Cons.IH [OF y(1,2)] y(3) show ?case by (auto split: if_splits)
qed

text \<open>A validator that kicks nominators takes itself out of their targets, whatever else they
  nominate, and touches nobody else's nominations.\<close>

theorem kick_removes_target:
  assumes "kick T (Signed c) who s = (Inr w, s')" and "Ledger s c = Some l" and "lookup_all T who = Some ns"
    and "Nominators s a = Some x" and "distinct (nom_targets x)"
  shows "\<exists>y. Nominators s' a = Some y \<and>
    set (nom_targets y) = (if a \<in> set ns then set (nom_targets x) - {sl_stash l} else set (nom_targets x))"
proof -
  have "s' = foldl (kick_one (sl_stash l)) s ns" using assms(1-3) by (simp add: kick_def)
  with kick_all_targets [OF assms(4,5)] show ?thesis by blast
qed

theorem kick_removes_target_witness:
  "\<exists>y. Nominators (snd (kick sample_T (Signed 110) [20] sample_staking)) 20 = Some y \<and> nom_targets y = []"
proof -
  let ?r = "kick sample_T (Signed 110) [20] sample_staking"
  have "fst ?r = Inr None" by code_simp
  then have r: "?r = (Inr None, snd ?r)" by (simp add: prod_eq_iff)
  let ?l = "\<lparr>sl_stash = 10, sl_total = 100, sl_active = 100, sl_unlocking = [], sl_claimed_rewards = []\<rparr>"
  let ?n = "\<lparr>nom_targets = [10], nom_submitted_in = 0, nom_suppressed = False\<rparr>"
  have "Ledger sample_staking 110 = Some ?l" "Nominators sample_staking 20 = Some ?n"
    by (simp_all add: sample_staking_def)
  moreover have "lookup_all sample_T [20] = Some [20]" by code_simp
  ultimately show ?thesis using kick_removes_target [OF r, of ?l "[20]" 20 ?n] by simp
qed

lemma check_targets_spec:
  assumes "check_targets T s old ts = Inr ns"
  shows "list_all2 (\<lambda>t n. T_lookup T t = Some n) ts ns \<and>
    (\<forall>n\<in>set ns. n \<in> set old \<or> \<not> vp_blocked (validator_prefs s n))"
  using assms by (induction ts arbitrary: ns) (auto split: option.splits if_splits sum.splits)

text \<open>A successful \<open>nominate\<close> makes the stash a nominator of the looked-up targets, and no
  validator: the targets are between one and \<^verbatim>\<open>MaxNominations\<close> accounts, each a target before or open
  for nominations; the stake reaches the minimum bond; and a new nominator found room below the
  maximal number.\<close>

theorem nominate_switches_role:
  assumes "nominate T (Signed c) targets s = (Inr w, s')" and "Ledger s c = Some l"
  shows "\<exists>ns. list_all2 (\<lambda>t n. T_lookup T t = Some n) targets ns \<and>
    Nominators s' = (Nominators s)(sl_stash l \<mapsto> \<lparr>nom_targets = ns,
      nom_submitted_in = (case CurrentEra s of None \<Rightarrow> 0 | Some e \<Rightarrow> e), nom_suppressed = False\<rparr>) \<and>
    Validators s' = (Validators s)(sl_stash l := None) \<and>
    ns \<noteq> [] \<and> length ns \<le> T_MaxNominations T \<and>
    (\<forall>n\<in>set ns. \<not> vp_blocked (validator_prefs s n) \<or>
      (\<exists>x. Nominators s (sl_stash l) = Some x \<and> n \<in> set (nom_targets x))) \<and>
    MinNominatorBond s \<le> sl_active l \<and>
    (Nominators s (sl_stash l) = None \<longrightarrow>
      (\<forall>m. MaxNominatorsCount s = Some m \<longrightarrow> CounterForNominators s < m))"
proof -
  let ?old = "case Nominators s (sl_stash l) of None \<Rightarrow> [] | Some x \<Rightarrow> nom_targets x"
  have guards: "sl_active l \<ge> MinNominatorBond s" "targets \<noteq> []" "length targets \<le> T_MaxNominations T"
    "\<not> (Nominators s (sl_stash l) = None \<and> (case MaxNominatorsCount s of
       None \<Rightarrow> False | Some m \<Rightarrow> \<not> CounterForNominators s < m))"
    using assms by (simp_all add: nominate_def split: if_splits)
  then obtain ns where ns: "check_targets T s ?old targets = Inr ns"
    and s': "s' = do_add_nominator T (sl_stash l) \<lparr>nom_targets = ns,
      nom_submitted_in = (case CurrentEra s of None \<Rightarrow> 0 | Some e \<Rightarrow> e), nom_suppressed = False\<rparr>
      (snd (do_remove_validator T (sl_stash l) s))"
    using assms by (auto simp: nominate_def Let_def split: if_splits sum.splits)
  note spec = check_targets_spec [OF ns]
  have len: "length ns = length targets" using spec list_all2_lengthD by fastforce
  have "\<forall>n\<in>set ns. \<not> vp_blocked (validator_prefs s n) \<or>
      (\<exists>x. Nominators s (sl_stash l) = Some x \<and> n \<in> set (nom_targets x))"
    using spec by (fastforce split: option.splits)
  moreover have "\<forall>m. Nominators s (sl_stash l) = None \<longrightarrow> MaxNominatorsCount s = Some m \<longrightarrow>
      CounterForNominators s < m"
    using guards(4) by auto
  moreover have "Nominators s' = (Nominators s)(sl_stash l \<mapsto> \<lparr>nom_targets = ns,
      nom_submitted_in = (case CurrentEra s of None \<Rightarrow> 0 | Some e \<Rightarrow> e), nom_suppressed = False\<rparr>)"
    "Validators s' = (Validators s)(sl_stash l := None)"
    by (simp_all add: s' do_remove_writes)
  ultimately show ?thesis using spec guards len by (intro exI [of _ ns]) auto
qed

theorem nominate_switches_role_witness:
  "Validators (snd (nominate sample_T (Signed 110) [11, 12] sample_staking)) 10 = None \<and>
   (\<exists>x. Nominators (snd (nominate sample_T (Signed 110) [11, 12] sample_staking)) 10 = Some x)"
proof -
  let ?r = "nominate sample_T (Signed 110) [11, 12] sample_staking"
  have "fst ?r = Inr None" by code_simp
  then have r: "?r = (Inr None, snd ?r)" by (simp add: prod_eq_iff)
  let ?l = "\<lparr>sl_stash = 10, sl_total = 100, sl_active = 100, sl_unlocking = [], sl_claimed_rewards = []\<rparr>"
  have "Ledger sample_staking 110 = Some ?l" by (simp add: sample_staking_def)
  from nominate_switches_role [OF r this] show ?thesis by auto
qed

lemma kill_stash_done:
  assumes "kill_stash T stash n s = (Inr u, s')" and "Bonded s stash = Some c"
  shows "Bonded s' = (Bonded s)(stash := None) \<and> Ledger s' = (Ledger s)(c := None) \<and>
    Validators s' = (Validators s)(stash := None) \<and> Nominators s' = (Nominators s)(stash := None)"
  using assms
  by (auto simp: kill_stash_def clear_stash_metadata_def remove_span_slashes_def Let_def do_remove_writes
      split: option.splits if_splits)

text \<open>C16. \<open>withdraw_unbonded\<close> takes exactly the chunks off the ledger whose era has come. If nothing
  is left unlocking and less than the existential deposit is active, the stash leaves: its bond, its
  ledger and its role are gone. Otherwise the ledger stays, with the chunks that are not due and a
  total smaller by what was due.\<close>

theorem withdraw_unbonded_effect:
  assumes "staking_reachable T s" and "Ledger s c = Some l" and "CurrentEra s = Some era"
    and "withdraw_unbonded T (Signed c) n s = (Inr w, s')"
  shows "let due = filter (\<lambda>ch. uc_era ch \<le> era) (sl_unlocking l);
             rest = filter (\<lambda>ch. era < uc_era ch) (sl_unlocking l)
    in if rest = [] \<and> sl_active l < cur_minimum_balance (T_currency T)
       then Bonded s' = (Bonded s)(sl_stash l := None) \<and> Ledger s' = (Ledger s)(c := None) \<and>
         Validators s' = (Validators s)(sl_stash l := None) \<and> Nominators s' = (Nominators s)(sl_stash l := None)
       else Bonded s' = Bonded s \<and> Validators s' = Validators s \<and> Nominators s' = Nominators s \<and>
         Ledger s' = (Ledger s)(c \<mapsto> l\<lparr>sl_total := sl_total l - unlocking_sum due, sl_unlocking := rest\<rparr>)"
proof -
  have bonded: "Bonded s (sl_stash l) = Some c"
    using registry_reachable [OF assms(1)] assms(2) unfolding registry_inv_def paired_def by blast
  let ?l = "consolidate_unlocked l era"
  let ?e = "\<lambda>st. if sl_total ?l < sl_total l
    then deposit_event (Withdrawn (sl_stash l) (sl_total l - sl_total ?l)) st else st"
  show ?thesis
  proof (cases "sl_unlocking ?l = [] \<and> sl_active ?l < cur_minimum_balance (T_currency T)")
    case True
    with assms(2-4) obtain u st where k: "kill_stash T (sl_stash l) n s = (Inr u, st)"
      by (auto simp: withdraw_unbonded_def Let_def split: prod.splits sum.splits)
    with True assms(2-4) have "s' = ?e (set_world (cur_remove_lock (T_currency T) (sl_stash l) (world st)) st)"
      by (simp add: withdraw_unbonded_def Let_def split: if_splits)
    with kill_stash_done [OF k bonded] True show ?thesis
      by (simp add: consolidate_unlocked_eq Let_def)
  next
    case False
    with assms(2-4) have "s' = ?e (update_ledger T c ?l s)"
      by (auto simp: withdraw_unbonded_def Let_def split: if_splits)
    with False show ?thesis by (auto simp: consolidate_unlocked_eq Let_def)
  qed
qed

text \<open>A run that bonds at genesis, plans the first era and unbonds, with a bonding duration of no
  eras, so that the chunk is due at once.\<close>

definition sample_T0 :: "bank staking_config" where
  "sample_T0 = sample_T\<lparr>T_BondingDuration := 0\<rparr>"

definition sample_unbonding :: "bank staking" where
  "sample_unbonding = snd (unbond sample_T0 (Signed 120) 30 (snd (sm_new_session_genesis sample_T0 0
     (the (genesis_build sample_T0 sample_genesis (staking_default sample_bank))))))"

lemma sample_unbonding_reachable: "staking_reachable sample_T0 sample_unbonding"
proof -
  have "genesis_build sample_T0 sample_genesis (staking_default sample_bank) \<noteq> None" by code_simp
  then have "staking_reachable sample_T0
      (the (genesis_build sample_T0 sample_genesis (staking_default sample_bank)))"
    by (intro staking_reachable.genesis [of sample_genesis])
      (auto simp: sample_genesis_def u32_max_def)
  from staking_reachable.step [OF staking_reachable.step [OF this staking_step.session_new_genesis]
      staking_step.call_unbond]
  show ?thesis by (simp add: sample_unbonding_def)
qed

theorem withdraw_unbonded_effect_witness:
  "map_option sl_total (Ledger (snd (withdraw_unbonded sample_T0 (Signed 120) 0 sample_unbonding)) 120) = Some 50"
proof -
  let ?r = "withdraw_unbonded sample_T0 (Signed 120) 0 sample_unbonding"
  have "isl (fst ?r) = False" by code_simp
  then obtain w where r: "?r = (Inr w, snd ?r)" by (cases ?r; cases "fst ?r") auto
  have "map_option sl_unlocking (Ledger sample_unbonding 120) = Some [\<lparr>uc_value = 30, uc_era = 0\<rparr>]"
    "map_option sl_total (Ledger sample_unbonding 120) = Some 80"
    "map_option sl_active (Ledger sample_unbonding 120) = Some 50" by code_simp+
  then obtain l where l: "Ledger sample_unbonding 120 = Some l" "sl_unlocking l = [\<lparr>uc_value = 30, uc_era = 0\<rparr>]"
    "sl_total l = 80" "sl_active l = 50" by auto
  have "CurrentEra sample_unbonding = Some 0" "cur_minimum_balance (T_currency sample_T0) = 5" by code_simp+
  with withdraw_unbonded_effect [OF sample_unbonding_reachable l(1) _ r] l(2-4) show ?thesis by simp
qed

end
