(* ===== verification/Staking_Elections.thy ===== *)
theory Staking_Elections
  imports Staking_Invariants
begin

section \<open>Staking: the voters and targets of an election\<close>

text \<open>
  The contract of a voter list as a locale, interpreted on \<^verbatim>\<open>UseNominatorsAndValidatorsMap\<close>; on
  top of it, which voters the election sees. The properties: the voters handed to the election are
  accounts of the voter list, each once, within the requested number, and with no target slashed
  since it was nominated; without a limit nobody is left out; and an offence of a session is attributed
  to the era the session belongs to.
\<close>

subsection \<open>The interface\<close>

locale voter_list =
  fixes iter :: "'w staking \<Rightarrow> AccountId list"
    and contains :: "'w staking \<Rightarrow> AccountId \<Rightarrow> bool"
    and size_of :: "'w staking \<Rightarrow> nat"
    and invar :: "'w staking \<Rightarrow> bool"
  assumes iter_distinct: "invar s \<Longrightarrow> distinct (iter s)"
    and iter_contains: "invar s \<Longrightarrow> a \<in> set (iter s) \<longleftrightarrow> contains s a"
    and size_iter: "invar s \<Longrightarrow> size_of s = length (iter s)"
begin

lemma size_card: "invar s \<Longrightarrow> size_of s = card {a. contains s a}"
  using iter_contains [of s] distinct_card [OF iter_distinct, of s] size_iter [of s]
  by (simp add: Collect_mem_eq [symmetric] flip: iter_contains)

lemma size_zero: "invar s \<Longrightarrow> size_of s = 0 \<longleftrightarrow> (\<forall>a. \<not> contains s a)"
  by (auto simp: size_iter simp flip: iter_contains)

end

subsection \<open>The loop over the voter list\<close>

text \<open>The vote of an account: a nominator votes for its retained targets if there are any, a
  validator for itself.\<close>

definition vote_of :: "'w staking_config \<Rightarrow> 'w staking \<Rightarrow> AccountId \<Rightarrow> voter option" where
  "vote_of T s a =
     (case Nominators s a of
        Some nom \<Rightarrow> (if retained_targets s nom = [] then None
                     else Some (a, weight_of T s a, retained_targets s nom))
      | None \<Rightarrow> (if Validators s a = None then None else Some (a, weight_of T s a, [a])))"

lemma npos_loop_step:
  assumes "length acc < m" and "seen < wrap_mul u32_max NPOS_MAX_ITERATIONS_COEFFICIENT m"
  shows "\<exists>v' k'. npos_loop T s m (a # rest) acc seen v k =
    npos_loop T s m rest (acc @ (case vote_of T s a of None \<Rightarrow> [] | Some y \<Rightarrow> [y]))
      (sat_add u32_max seen 1) v' k'"
proof (cases "Nominators s a")
  case None
  with assms show ?thesis by (cases "Validators s a") (auto simp: vote_of_def)
next
  case (Some nom)
  with assms show ?thesis by (cases "retained_targets s nom = []") (auto simp: vote_of_def Let_def)
qed

lemma npos_loop_prefix:
  "\<exists>n. fst (npos_loop T s m rest acc seen v k) = acc @ List.map_filter (vote_of T s) (take n rest)"
proof (induction rest arbitrary: acc seen v k)
  case Nil
  then show ?case by (simp add: List.map_filter_def)
next
  case (Cons a rest)
  show ?case
  proof (cases "length acc < m \<and> seen < wrap_mul u32_max NPOS_MAX_ITERATIONS_COEFFICIENT m")
    case False
    then show ?thesis by (intro exI [of _ 0]) (auto simp: List.map_filter_def)
  next
    case True
    let ?x = "case vote_of T s a of None \<Rightarrow> [] | Some y \<Rightarrow> [y]"
    obtain v' k' where "npos_loop T s m (a # rest) acc seen v k =
        npos_loop T s m rest (acc @ ?x) (sat_add u32_max seen 1) v' k'"
      using npos_loop_step [of acc m seen T s a rest v k] True by blast
    moreover from Cons.IH [of "acc @ ?x" "sat_add u32_max seen 1" v' k'] obtain n where
      "fst (npos_loop T s m rest (acc @ ?x) (sat_add u32_max seen 1) v' k') =
        (acc @ ?x) @ List.map_filter (vote_of T s) (take n rest)" by blast
    ultimately show ?thesis
      by (intro exI [of _ "Suc n"]) (simp add: List.map_filter_def split: option.split)
  qed
qed

lemma npos_loop_length:
  "length acc \<le> m \<Longrightarrow> length (fst (npos_loop T s m rest acc seen v k)) \<le> m"
  by (induction rest arbitrary: acc seen v k) (auto simp: Let_def split: option.split)

lemma npos_loop_all:
  assumes "length acc + length rest \<le> m" and "seen + length rest \<le> 2 * m" and "2 * m \<le> u32_max"
  shows "fst (npos_loop T s m rest acc seen v k) = acc @ List.map_filter (vote_of T s) rest"
  using assms
proof (induction rest arbitrary: acc seen v k)
  case Nil
  then show ?case by (simp add: List.map_filter_def)
next
  case (Cons a rest)
  have "seen < wrap_mul u32_max NPOS_MAX_ITERATIONS_COEFFICIENT m" "length acc < m"
    using Cons.prems by (simp_all add: NPOS_MAX_ITERATIONS_COEFFICIENT_def width_simps)
  moreover have "sat_add u32_max seen 1 = Suc seen" using Cons.prems by (simp add: width_simps)
  ultimately show ?case
    using Cons by (auto simp: vote_of_def Let_def List.map_filter_def split: option.split)
qed

subsection \<open>The voter list over the role maps\<close>

text \<open>Iterating over a storage map lists its keys, each once.\<close>

definition iteration_laws :: "'w staking_config \<Rightarrow> 'w staking \<Rightarrow> bool" where
  "iteration_laws T s \<longleftrightarrow>
     distinct (T_iter_validators T (Validators s)) \<and>
     set (T_iter_validators T (Validators s)) = dom (Validators s) \<and>
     distinct (T_iter_nominators T (Nominators s)) \<and>
     set (T_iter_nominators T (Nominators s)) = dom (Nominators s)"

definition vm_invar :: "'w staking_config \<Rightarrow> 'w staking \<Rightarrow> bool" where
  "vm_invar T s \<longleftrightarrow> iteration_laws T s \<and> registry_inv s \<and>
     CounterForNominators s + CounterForValidators s \<le> u32_max"

interpretation vm: voter_list "vm_iter T" vm_contains vm_count "vm_invar T" for T
proof
  fix s :: "'a staking" and a
  assume "vm_invar T s"
  then have fin: "finite (dom (Validators s))" "finite (dom (Nominators s))"
    and disj: "dom (Validators s) \<inter> dom (Nominators s) = {}"
    and counted: "CounterForValidators s = card (dom (Validators s))"
      "CounterForNominators s = card (dom (Nominators s))"
    and laws: "iteration_laws T s" and fits: "CounterForNominators s + CounterForValidators s \<le> u32_max"
    by (simp_all add: vm_invar_def registry_inv_def roles_ok_def counters_ok_def)
  have v: "distinct (T_iter_validators T (Validators s))" "set (T_iter_validators T (Validators s)) = dom (Validators s)"
    and n: "distinct (T_iter_nominators T (Nominators s))" "set (T_iter_nominators T (Nominators s)) = dom (Nominators s)"
    using laws by (simp_all add: iteration_laws_def)
  show "distinct (vm_iter T s)" using v n disj by (simp add: vm_iter_def)
  show "a \<in> set (vm_iter T s) \<longleftrightarrow> vm_contains s a"
    using v(2) n(2) by (auto simp: vm_iter_def vm_contains_def)
  show "vm_count s = length (vm_iter T s)"
    using fits counted distinct_card [OF v(1)] distinct_card [OF n(1)] v(2) n(2)
    by (simp add: vm_count_def vm_iter_def width_simps)
qed

text \<open>The configuration takes the role maps as its voter list.\<close>

definition uses_role_maps :: "'w staking_config \<Rightarrow> 'w staking \<Rightarrow> bool" where
  "uses_role_maps T s \<longleftrightarrow> T_voter_list_iter T s = vm_iter T s \<and> T_voter_list_count T s = vm_count s"

lemma map_filter_fst:
  "map fst (List.map_filter (vote_of T s) xs) = filter (\<lambda>a. vote_of T s a \<noteq> None) xs"
  by (induction xs) (auto simp: List.map_filter_def vote_of_def split: option.splits)

lemma npos_voters_prefix:
  "\<exists>n. fst (get_npos_voters T m s) = List.map_filter (vote_of T s) (take n (T_voter_list_iter T s))"
proof -
  let ?m = "min (case m of None \<Rightarrow> T_voter_list_count T s | Some m \<Rightarrow> m) (T_voter_list_count T s)"
  from npos_loop_prefix [of T s ?m "T_voter_list_iter T s" "[]" 0 0 0]
  show ?thesis by (simp add: get_npos_voters_def Let_def case_prod_unfold)
qed

lemma find_split:
  "find P xs = Some x \<Longrightarrow> \<exists>ys zs. xs = ys @ x # zs \<and> P x \<and> (\<forall>y\<in>set ys. \<not> P y)"
proof (induction xs)
  case Nil
  then show ?case by simp
next
  case (Cons a xs)
  show ?case
  proof (cases "P a")
    case True
    with Cons.prems have "a # xs = [] @ x # xs \<and> P x \<and> (\<forall>y\<in>set []. \<not> P y)" by simp
    then show ?thesis by blast
  next
    case False
    with Cons obtain ys zs where "xs = ys @ x # zs" "P x" "\<forall>y\<in>set ys. \<not> P y" by auto
    with False have "a # xs = (a # ys) @ x # zs \<and> P x \<and> (\<forall>y\<in>set (a # ys). \<not> P y)" by simp
    then show ?thesis by blast
  qed
qed

lemma vote_of_Some:
  assumes "vote_of T s a = Some (b, w, ts)"
  shows "b = a \<and> w = weight_of T s a \<and> ts \<noteq> [] \<and>
    (case Nominators s a of
       Some nom \<Rightarrow> ts = retained_targets s nom
     | None \<Rightarrow> Validators s a \<noteq> None \<and> ts = [a])"
  using assms by (auto simp: vote_of_def split: option.splits if_splits)

lemma retained_targets_unslashed:
  "t \<in> set (retained_targets s nom) \<longleftrightarrow> t \<in> set (nom_targets nom) \<and>
    (\<forall>spans. SlashingSpansOf s t = Some spans \<longrightarrow> ss_last_nonzero_slash spans \<le> nom_submitted_in nom)"
  by (auto simp: retained_targets_def split: option.split)

text \<open>C17. The voters given to the election, for any voter list that holds an account at most once (the
  bags list of the runtime as well as the role maps): nobody votes twice; there are at most as many as asked
  for, as the list counts and as there are stakers; every voter is in the list; a validator votes for itself
  and a nominator for a nonempty list of its own targets, none of which was slashed after it nominated
  them; and every vote has the weight of the voter's stake.\<close>

theorem npos_voters_sound:
  assumes "distinct (T_voter_list_iter T s)" and "staking_reachable T s"
    and "get_npos_voters T max_len s = (voters, s')"
  shows "distinct (map fst voters) \<and> length voters \<le> card {a. vm_contains s a} \<and>
    length voters \<le> T_voter_list_count T s \<and> (\<forall>m. max_len = Some m \<longrightarrow> length voters \<le> m) \<and>
    (\<forall>(a, w, ts)\<in>set voters. a \<in> set (T_voter_list_iter T s) \<and> w = weight_of T s a \<and> ts \<noteq> [] \<and>
       (case Nominators s a of
          None \<Rightarrow> Validators s a \<noteq> None \<and> ts = [a]
        | Some nom \<Rightarrow> \<forall>t\<in>set ts. t \<in> set (nom_targets nom) \<and>
            (\<forall>spans. SlashingSpansOf s t = Some spans \<longrightarrow>
               ss_last_nonzero_slash spans \<le> nom_submitted_in nom)))"
proof -
  from npos_voters_prefix [of T max_len s] assms(3) obtain n
    where voters: "voters = List.map_filter (vote_of T s) (take n (T_voter_list_iter T s))" by auto
  let ?m = "min (case max_len of None \<Rightarrow> T_voter_list_count T s | Some m \<Rightarrow> m) (T_voter_list_count T s)"
  have "length voters \<le> ?m"
    using assms(3) npos_loop_length [of "[]" ?m T s "T_voter_list_iter T s" 0 0 0]
    by (auto simp: get_npos_voters_def Let_def split: prod.splits)
  then have len: "length voters \<le> T_voter_list_count T s" "\<forall>m. max_len = Some m \<longrightarrow> length voters \<le> m" by auto
  have dist: "distinct (map fst voters)"
    unfolding voters map_filter_fst using assms(1) by (simp add: distinct_take)
  have vot: "a \<in> set (T_voter_list_iter T s) \<and> vm_contains s a \<and> w = weight_of T s a \<and> ts \<noteq> [] \<and> (case Nominators s a of
      None \<Rightarrow> Validators s a \<noteq> None \<and> ts = [a]
    | Some nom \<Rightarrow> \<forall>t\<in>set ts. t \<in> set (nom_targets nom) \<and>
        (\<forall>spans. SlashingSpansOf s t = Some spans \<longrightarrow> ss_last_nonzero_slash spans \<le> nom_submitted_in nom))"
    if vot: "(a, w, ts) \<in> set voters" for a w ts
  proof -
    from vot have "\<exists>b \<in> set (take n (T_voter_list_iter T s)). vote_of T s b = Some (a, w, ts)"
      by (force simp: voters List.map_filter_def)
    then obtain b where b: "b \<in> set (T_voter_list_iter T s)" "vote_of T s b = Some (a, w, ts)" by (meson in_set_takeD)
    from vote_of_Some [OF b(2)] b(1) show ?thesis
      by (auto simp: retained_targets_unslashed vm_contains_def split: option.splits)
  qed
  have fin: "finite {a. vm_contains s a}"
  proof -
    have "{a. vm_contains s a} = dom (Nominators s) \<union> dom (Validators s)" by (auto simp: vm_contains_def)
    then show ?thesis using registry_reachable [OF assms(2)] by (simp add: registry_inv_def roles_ok_def counters_ok_def)
  qed
  have "card (set (map fst voters)) \<le> card {a. vm_contains s a}"
    by (rule card_mono [OF fin]) (use vot in force)
  then have "length voters \<le> card {a. vm_contains s a}" using distinct_card [OF dist] by simp
  with len dist vot show ?thesis by blast
qed

text \<open>Without a limit the election sees every validator and every nominator that has a target
  left that was not slashed since it nominated it.\<close>

theorem npos_voters_complete:
  assumes "iteration_laws T s" and "uses_role_maps T s" and "staking_reachable T s"
    and "2 * (CounterForNominators s + CounterForValidators s) \<le> u32_max"
  shows "set (map fst (fst (get_npos_voters T None s))) =
    dom (Validators s) \<union> {a. \<exists>nom. Nominators s a = Some nom \<and> retained_targets s nom \<noteq> []}"
proof -
  have inv: "vm_invar T s" using assms(1,4) registry_reachable [OF assms(3)] by (simp add: vm_invar_def)
  have iter: "T_voter_list_iter T s = vm_iter T s" and size: "T_voter_list_count T s = vm_count s"
    using assms(2) by (simp_all add: uses_role_maps_def)
  have "2 * vm_count s \<le> u32_max" using assms(4) by (simp add: vm_count_def width_simps)
  with npos_loop_all [of "[]" "vm_iter T s" "vm_count s" 0 T s 0 0] vm.size_iter [OF inv]
  have "fst (get_npos_voters T None s) = List.map_filter (vote_of T s) (vm_iter T s)"
    by (simp add: get_npos_voters_def Let_def iter size case_prod_unfold)
  then have "set (map fst (fst (get_npos_voters T None s))) = {a \<in> set (vm_iter T s). vote_of T s a \<noteq> None}"
    by (simp only: map_filter_fst set_filter)
  moreover have "vote_of T s a \<noteq> None \<longleftrightarrow> a \<in> dom (Validators s) \<or>
      (\<exists>nom. Nominators s a = Some nom \<and> retained_targets s nom \<noteq> [])" for a
    using registry_reachable [OF assms(3)]
    by (auto simp: vote_of_def registry_inv_def roles_ok_def domIff split: option.splits if_splits)
  ultimately show ?thesis using vm.iter_contains [OF inv]
    by (auto simp: vm_contains_def)
qed

definition sample_T_maps :: "bank staking_config" where
  "sample_T_maps = sample_T\<lparr>T_voter_list_iter := (\<lambda>s. [10, 20])\<rparr>"

definition sample_maps_state :: "bank staking" where
  "sample_maps_state = the (genesis_build sample_T_maps sample_genesis (staking_default sample_bank))"

lemma sample_maps_reachable: "staking_reachable sample_T_maps sample_maps_state"
proof -
  have "genesis_build sample_T_maps sample_genesis (staking_default sample_bank) \<noteq> None" by code_simp
  then show ?thesis unfolding sample_maps_state_def
    by (intro staking_reachable.genesis [of sample_genesis]) (auto simp: sample_genesis_def u32_max_def)
qed

lemma sample_maps_counters: "CounterForNominators sample_maps_state = 1" "CounterForValidators sample_maps_state = 1"
  by code_simp+

lemma sample_maps_roles:
  "dom (Validators sample_maps_state) = {10}" "dom (Nominators sample_maps_state) = {20}"
proof -
  have card: "card (dom (Validators sample_maps_state)) = 1" "card (dom (Nominators sample_maps_state)) = 1"
    using registry_reachable [OF sample_maps_reachable] sample_maps_counters
    by (simp_all add: registry_inv_def counters_ok_def)
  have "Validators sample_maps_state 10 \<noteq> None" "Nominators sample_maps_state 20 \<noteq> None" by code_simp+
  then have "10 \<in> dom (Validators sample_maps_state)" "20 \<in> dom (Nominators sample_maps_state)" by blast+
  with card show "dom (Validators sample_maps_state) = {10}" "dom (Nominators sample_maps_state) = {20}"
    by (metis card_1_singletonE singletonD)+
qed

lemma sample_maps_laws: "iteration_laws sample_T_maps sample_maps_state" "uses_role_maps sample_T_maps sample_maps_state"
proof -
  have "T_iter_validators sample_T_maps m = [10]" "T_iter_nominators sample_T_maps m' = [20]"
    "T_voter_list_iter sample_T_maps s = [10, 20]" for m m' s
    by (simp_all add: sample_T_maps_def sample_T_def sample_config_def)
  moreover have "T_voter_list_count sample_T_maps sample_maps_state = vm_count sample_maps_state" by code_simp
  ultimately show "iteration_laws sample_T_maps sample_maps_state" "uses_role_maps sample_T_maps sample_maps_state"
    by (simp_all add: iteration_laws_def uses_role_maps_def vm_iter_def sample_maps_roles)
qed

text \<open>A list in an order of its own, as a list by stake has it: the nominator comes first.\<close>

definition sample_T_bags :: "bank staking_config" where
  "sample_T_bags = sample_T\<lparr>T_voter_list_iter := (\<lambda>s. [20, 10])\<rparr>"

theorem npos_voters_sound_witness:
  "length (fst (get_npos_voters sample_T_bags (Some 1)
     (the (genesis_build sample_T_bags sample_genesis (staking_default sample_bank))))) = 1"
proof -
  let ?s = "the (genesis_build sample_T_bags sample_genesis (staking_default sample_bank))"
  have "genesis_build sample_T_bags sample_genesis (staking_default sample_bank) \<noteq> None" by code_simp
  then have reach: "staking_reachable sample_T_bags ?s"
    by (intro staking_reachable.genesis [of sample_genesis]) (auto simp: sample_genesis_def u32_max_def)
  have once: "distinct (T_voter_list_iter sample_T_bags ?s)" by (simp add: sample_T_bags_def)
  have "0 < length (fst (get_npos_voters sample_T_bags (Some 1) ?s))" by code_simp
  moreover have "length (fst (get_npos_voters sample_T_bags (Some 1) ?s)) \<le> 1"
    using npos_voters_sound [OF once reach surjective_pairing] by blast
  ultimately show ?thesis by linarith
qed

theorem npos_voters_complete_witness:
  "10 \<in> set (map fst (fst (get_npos_voters sample_T_maps None sample_maps_state)))"
proof -
  have "2 * (CounterForNominators sample_maps_state + CounterForValidators sample_maps_state) \<le> u32_max"
    by (simp add: sample_maps_counters u32_max_def)
  from npos_voters_complete [OF sample_maps_laws sample_maps_reachable this] sample_maps_roles
  show ?thesis by simp
qed

text \<open>An offence in a session before the active era is attributed to the latest era kept whose
  first session is not after it; if every era kept starts later, the offence is ignored and the state
  does not change.\<close>

theorem offence_era_attributed:
  assumes "ActiveEra s = Some info"
    and "session < (case ErasStartSessionIndex s (ae_index info) of None \<Rightarrow> 0 | Some i \<Rightarrow> i)"
  shows "case find_slash_era s (ae_index info) session of
      None \<Rightarrow> (\<forall>(e, start)\<in>set (BondedEras s). session < start) \<and>
        snd (on_offence T offenders fractions session ds s) = s
    | Some era \<Rightarrow> \<exists>older start later. BondedEras s = older @ (era, start) # later \<and> start \<le> session \<and>
        (\<forall>(e, start')\<in>set later. session < start')"
proof (cases "find_slash_era s (ae_index info) session")
  case None
  with assms(2) have "\<forall>(e, start)\<in>set (BondedEras s). session < start"
    by (auto simp: find_slash_era_def Let_def find_None_iff not_le)
  with None assms(1) show ?thesis by (simp add: on_offence_def Let_def)
next
  case (Some era)
  with assms(2) obtain start where f: "find (\<lambda>(_, sesh). sesh \<le> session) (rev (BondedEras s)) = Some (era, start)"
    by (auto simp: find_slash_era_def Let_def)
  from find_split [OF f] obtain xs ys where xs: "rev (BondedEras s) = xs @ (era, start) # ys"
    "start \<le> session" "\<forall>y\<in>set xs. \<not> (case y of (_, sesh) \<Rightarrow> sesh \<le> session)" by auto
  then have "BondedEras s = rev ys @ (era, start) # rev xs" by (simp add: rev_swap)
  with Some xs(2,3) show ?thesis by (fastforce simp: not_le)
qed

theorem offence_era_attributed_witness:
  "find_slash_era (sample_staking\<lparr>BondedEras := [(1, 6), (2, 12)], ErasStartSessionIndex := [3 \<mapsto> 18]\<rparr>) 3 5 = None \<and>
   snd (on_offence sample_T [] [] 5 Never
     (sample_staking\<lparr>BondedEras := [(1, 6), (2, 12)], ErasStartSessionIndex := [3 \<mapsto> 18]\<rparr>)) =
   sample_staking\<lparr>BondedEras := [(1, 6), (2, 12)], ErasStartSessionIndex := [3 \<mapsto> 18]\<rparr>"
proof -
  let ?s = "sample_staking\<lparr>BondedEras := [(1, 6), (2, 12)], ErasStartSessionIndex := [3 \<mapsto> 18]\<rparr>"
  let ?i = "\<lparr>ae_index = 3, ae_start = Some 0\<rparr>"
  have i: "ActiveEra ?s = Some ?i" by (simp add: sample_staking_def)
  have n: "find_slash_era ?s 3 5 = None" by (simp add: find_slash_era_def)
  from offence_era_attributed [OF i, of 5 sample_T "[]" "[]" Never] n show ?thesis by simp
qed

end
