(* ===== verification/Staking_Migrations.thy ===== *)
theory Staking_Migrations
  imports Staking_Elections
begin

section \<open>Storage migrations (\<^verbatim>\<open>frame/staking/src/migrations.rs\<close>)\<close>

text \<open>
  The migrations of the staking pallet's storage, from the sixth to the ninth version. Items of storage that
  exist only before a migration are a record of their own. \<open>max_block\<close> is the weight of a whole block,
  \<open>regenerate\<close> the voter list's \<^verbatim>\<open>unsafe_regenerate\<close>. What is checked only under \<^verbatim>\<open>try-runtime\<close>, before
  and after a migration, is modelled, too: \<^term>\<open>None\<close> is a failed assertion, \<open>Inl\<close> an error.

  The lemmas: a migration changes nothing on a version it is not meant for; the counters the seventh version
  introduces count the validators and nominators; and the chain of migrations from the sixth version reaches
  the ninth.
\<close>

record legacy_v6 =
  SnapshotValidators :: bool
  SnapshotNominators :: bool
  QueuedElected :: bool
  QueuedScore :: bool
  EraElectionStatus :: bool
  IsCurrentSessionFinal :: bool

text \<open>The assertions before the sixth version: the two items must exist.\<close>

definition v6_pre_migrate :: "legacy_v6 \<Rightarrow> unit option" where
  "v6_pre_migrate l = (if IsCurrentSessionFinal l \<and> EraElectionStatus l then Some () else None)"

definition v6_migrate ::
  "'w staking_config \<Rightarrow> legacy_v6 \<Rightarrow> 'w staking \<Rightarrow> Weight \<times> legacy_v6 \<times> 'w staking" where
  "v6_migrate T l s =
     (T_db_weight_reads_writes T 0 (6 + 1),
      \<lparr>SnapshotValidators = False, SnapshotNominators = False, QueuedElected = False, QueuedScore = False,
       EraElectionStatus = False, IsCurrentSessionFinal = False\<rparr>,
      s\<lparr>StorageVersion := V6_0_0\<rparr>)"

definition v7_pre_migrate :: "'w staking \<Rightarrow> unit option" where
  "v7_pre_migrate s =
     (if CounterForValidators s = 0 \<and> CounterForNominators s = 0 \<and> StorageVersion s = V6_0_0
      then Some () else None)"

definition v7_migrate :: "'w staking_config \<Rightarrow> 'w staking \<Rightarrow> Weight \<times> 'w staking" where
  "v7_migrate T s =
     (let validator_count = length (T_iter_validators T (Validators s)) mod Suc u32_max;
          nominator_count = length (T_iter_nominators T (Nominators s)) mod Suc u32_max
      in (T_db_weight_reads_writes T (sat_add u32_max validator_count nominator_count) 2,
          s\<lparr>CounterForValidators := validator_count, CounterForNominators := nominator_count,
            StorageVersion := V7_0_0\<rparr>))"

definition v8_migrate ::
  "'w staking_config \<Rightarrow> Weight \<Rightarrow> (AccountId list \<Rightarrow> (AccountId \<Rightarrow> u64) \<Rightarrow> 'w staking \<Rightarrow> 'w) \<Rightarrow> 'w staking \<Rightarrow>
     Weight \<times> 'w staking" where
  "v8_migrate T max_block regenerate s =
     (if StorageVersion s = V7_0_0
      then (let s1 = set_world (regenerate (T_iter_nominators T (Nominators s)) (weight_of T s) s) s
            in (max_block, s1\<lparr>StorageVersion := V8_0_0\<rparr>))
      else (T_db_weight_reads_writes T 1 0, s))"

text \<open>The loop inserts every validator; an error of the voter list is logged and ignored. The weights are
  those before the loop.\<close>

definition v9_on_runtime_upgrade :: "'w staking_config \<Rightarrow> Weight \<Rightarrow> 'w staking \<Rightarrow> Weight \<times> 'w staking" where
  "v9_on_runtime_upgrade T max_block s =
     (if StorageVersion s = V8_0_0
      then (let s1 = foldl (\<lambda>st v. set_world (T_voter_list_on_insert T v (weight_of T s v) st) st) s
                       (T_iter_validators T (Validators s))
            in (max_block, s1\<lparr>StorageVersion := V9_0_0\<rparr>))
      else (T_db_weight_reads_writes T 1 0, s))"

text \<open>The checks. The count before the ninth version is kept in temporary storage, here the argument
  \<open>prev_count\<close>; \<open>sanity_check\<close> is the voter list's.\<close>

definition v8_pre_migrate :: "'w staking \<Rightarrow> string + unit" where
  "v8_pre_migrate s = (if StorageVersion s = V7_0_0 then Inr () else Inl ''must upgrade linearly'')"

definition v8_post_migrate :: "('w staking \<Rightarrow> bool) \<Rightarrow> 'w staking \<Rightarrow> string + unit" where
  "v8_post_migrate sanity_check s =
     (if sanity_check s then Inr () else Inl ''VoterList is not in a sane state.'')"

definition v9_pre_upgrade :: "'w staking_config \<Rightarrow> 'w staking \<Rightarrow> string + u32" where
  "v9_pre_upgrade T s =
     (if StorageVersion s = V8_0_0 then Inr (T_voter_list_count T s) else Inl ''must upgrade linearly'')"

definition v9_post_upgrade :: "'w staking_config \<Rightarrow> u32 \<Rightarrow> 'w staking \<Rightarrow> (string + unit) option" where
  "v9_post_upgrade T prev_count s =
     (if T_voter_list_count T s \<noteq> add_u32 prev_count (CounterForValidators s) then None
      else Some (if StorageVersion s = V9_0_0 then Inr () else Inl ''must upgrade ''))"

subsection \<open>Lemmas\<close>

lemma inserts_world_only:
  "\<exists>w. foldl (\<lambda>st v. set_world (f v st) st) s vs = s\<lparr>world := w\<rparr>"
proof (induction vs arbitrary: s)
  case Nil
  have "s = s\<lparr>world := world s\<rparr>" by simp
  then show ?case by (simp only: foldl.simps) blast
next
  case (Cons v vs)
  obtain w where "foldl (\<lambda>st v. set_world (f v st) st) (set_world (f v s) s) vs = (set_world (f v s) s)\<lparr>world := w\<rparr>"
    using Cons.IH by blast
  then show ?case by (auto simp: set_world_def)
qed

lemma wrong_version_unchanged:
  "StorageVersion s \<noteq> V7_0_0 \<Longrightarrow> snd (v8_migrate T m r s) = s"
  "StorageVersion s \<noteq> V8_0_0 \<Longrightarrow> snd (v9_on_runtime_upgrade T m s) = s"
  by (simp_all add: v8_migrate_def v9_on_runtime_upgrade_def)

text \<open>The seventh version's counters are those the rest of the pallet keeps.\<close>

lemma v7_counts:
  assumes "distinct (T_iter_validators T (Validators s))" and "set (T_iter_validators T (Validators s)) = dom (Validators s)"
    and "distinct (T_iter_nominators T (Nominators s))" and "set (T_iter_nominators T (Nominators s)) = dom (Nominators s)"
    and "card (dom (Validators s)) \<le> u32_max" and "card (dom (Nominators s)) \<le> u32_max"
  shows "CounterForValidators (snd (v7_migrate T s)) = card (dom (Validators s)) \<and>
    CounterForNominators (snd (v7_migrate T s)) = card (dom (Nominators s))"
  using assms distinct_card by (fastforce simp: v7_migrate_def Let_def)

text \<open>What the checks of the ninth version need of the voter list: it is kept outside this pallet's storage, and
  inserting a new voter adds it to the list and counts it.\<close>

definition counting_list :: "'w staking_config \<Rightarrow> bool" where
  "counting_list T \<longleftrightarrow>
     (\<forall>v x s. \<not> T_voter_list_contains T s v \<longrightarrow>
        T_voter_list_count T (set_world (T_voter_list_on_insert T v x s) s) = Suc (T_voter_list_count T s) \<and>
        (\<forall>a. T_voter_list_contains T (set_world (T_voter_list_on_insert T v x s) s) a \<longleftrightarrow>
           a = v \<or> T_voter_list_contains T s a)) \<and>
     (\<forall>s r. T_voter_list_count T (s\<lparr>StorageVersion := r\<rparr>) = T_voter_list_count T s)"

lemma inserts_count:
  assumes "counting_list T" and "distinct vs" and "\<forall>v \<in> set vs. \<not> T_voter_list_contains T s v"
  shows "T_voter_list_count T (foldl (\<lambda>st v. set_world (T_voter_list_on_insert T v (g v) st) st) s vs)
    = T_voter_list_count T s + length vs"
  using assms(2,3)
proof (induction vs arbitrary: s)
  case (Cons v vs)
  let ?s = "set_world (T_voter_list_on_insert T v (g v) s) s"
  have "T_voter_list_count T ?s = Suc (T_voter_list_count T s)"
    "\<forall>a \<in> set vs. \<not> T_voter_list_contains T ?s a"
    using assms(1) Cons.prems by (auto simp: counting_list_def)
  with Cons show ?case by simp
qed simp

text \<open>With such a list and the validators not yet in it, the upgrade to the ninth version passes its own
  checks. With the list over the role maps, which holds the validators already and counts them before and
  after, the assertion fails as soon as there is a validator.\<close>

lemma v9_checks_pass:
  assumes "counting_list T" and "v9_pre_upgrade T s = Inr prev"
    and "distinct (T_iter_validators T (Validators s))"
    and "\<forall>v \<in> set (T_iter_validators T (Validators s)). \<not> T_voter_list_contains T s v"
    and "CounterForValidators s = length (T_iter_validators T (Validators s))"
    and "T_voter_list_count T s + CounterForValidators s \<le> u32_max"
  shows "v9_post_upgrade T prev (snd (v9_on_runtime_upgrade T m s)) = Some (Inr ())"
proof -
  let ?s = "foldl (\<lambda>st v. set_world (T_voter_list_on_insert T v (weight_of T s v) st) st) s
    (T_iter_validators T (Validators s))"
  have v: "StorageVersion s = V8_0_0" "prev = T_voter_list_count T s"
    using assms(2) by (simp_all add: v9_pre_upgrade_def split: if_splits)
  obtain w where "?s = s\<lparr>world := w\<rparr>"
    using inserts_world_only [of "\<lambda>v. T_voter_list_on_insert T v (weight_of T s v)" s] by blast
  then have "CounterForValidators ?s = CounterForValidators s" by simp
  moreover have "T_voter_list_count T (?s\<lparr>StorageVersion := V9_0_0\<rparr>) = T_voter_list_count T s + CounterForValidators s"
    using inserts_count [OF assms(1,3,4)] assms(1,5) by (simp add: counting_list_def)
  ultimately show ?thesis
    using v assms(6) by (simp add: v9_post_upgrade_def v9_on_runtime_upgrade_def Let_def width_simps)
qed

lemma v9_checks_fail_on_maps:
  assumes "T_voter_list_count T = vm_count" and "T_voter_list_on_insert T = vm_on_insert"
    and "v9_pre_upgrade T s = Inr prev" and "0 < CounterForValidators s"
    and "CounterForValidators s \<le> u32_max"
  shows "v9_post_upgrade T prev (snd (v9_on_runtime_upgrade T m s)) = None"
proof -
  let ?s = "foldl (\<lambda>st v. set_world (T_voter_list_on_insert T v (weight_of T s v) st) st) s
    (T_iter_validators T (Validators s))"
  have v: "StorageVersion s = V8_0_0" "prev = vm_count s"
    using assms(1,3) by (simp_all add: v9_pre_upgrade_def split: if_splits)
  obtain w where "?s = s\<lparr>world := w\<rparr>"
    using inserts_world_only [of "\<lambda>v. T_voter_list_on_insert T v (weight_of T s v)" s] by blast
  then have "vm_count (?s\<lparr>StorageVersion := V9_0_0\<rparr>) = vm_count s"
    "CounterForValidators (?s\<lparr>StorageVersion := V9_0_0\<rparr>) = CounterForValidators s"
    by (simp_all add: vm_count_def)
  moreover have "add_u32 (vm_count s) (CounterForValidators s) \<noteq> vm_count s"
  proof
    let ?c = "vm_count s"
    assume e: "add_u32 ?c (CounterForValidators s) = ?c"
    have "?c \<le> u32_max" by (simp add: vm_count_def sat_add_def)
    with e assms(4,5) show False
      by (cases "?c + CounterForValidators s \<le> u32_max")
        (simp_all add: width_simps wrap_add_def mod_if u32_max_def split: if_splits)
  qed
  ultimately show ?thesis
    using v assms(1) by (simp add: v9_post_upgrade_def v9_on_runtime_upgrade_def Let_def)
qed

text \<open>One after the other, the migrations lead from any state to the ninth version; they touch the version,
  the counters and the voter list only.\<close>

lemma migrations_in_order:
  assumes "s1 = snd (snd (v6_migrate T l s))" and "s2 = snd (v7_migrate T s1)" and "s3 = snd (v8_migrate T m r s2)"
    and "s4 = snd (v9_on_runtime_upgrade T m s3)"
  shows "\<exists>w. s4 = s\<lparr>CounterForValidators := CounterForValidators s2, CounterForNominators := CounterForNominators s2,
    StorageVersion := V9_0_0, world := w\<rparr>"
proof -
  define a where "a = length (T_iter_validators T (Validators s)) mod Suc u32_max"
  define b where "b = length (T_iter_nominators T (Nominators s)) mod Suc u32_max"
  have s2: "s2 = s\<lparr>CounterForValidators := a, CounterForNominators := b, StorageVersion := V7_0_0\<rparr>"
    using assms(1,2) by (simp add: v6_migrate_def v7_migrate_def Let_def a_def b_def)
  have v8: "\<exists>w. snd (v8_migrate T m r x) = x\<lparr>world := w, StorageVersion := V8_0_0\<rparr>" if "StorageVersion x = V7_0_0" for x
    using that by (auto simp: v8_migrate_def Let_def set_world_def)
  have v9: "\<exists>w. snd (v9_on_runtime_upgrade T m x) = x\<lparr>world := w, StorageVersion := V9_0_0\<rparr>" if "StorageVersion x = V8_0_0" for x
    using that inserts_world_only [of "\<lambda>v. T_voter_list_on_insert T v (weight_of T x v)" x "T_iter_validators T (Validators x)"]
    by (auto simp: v9_on_runtime_upgrade_def Let_def)
  obtain w where s3: "s3 = s2\<lparr>world := w, StorageVersion := V8_0_0\<rparr>"
    using v8 [of s2] s2 assms(3) by auto
  obtain w' where "s4 = s3\<lparr>world := w', StorageVersion := V9_0_0\<rparr>"
    using v9 [of s3] s3 assms(4) by auto
  with s2 s3 have "s4 = s\<lparr>CounterForValidators := CounterForValidators s2,
      CounterForNominators := CounterForNominators s2, StorageVersion := V9_0_0, world := w'\<rparr>" by simp
  then show ?thesis by blast
qed

end
