(* ===== verification/Claims.thy ===== *)
theory Claims
  imports Bank_Sample "HOL-Library.Word"
begin

section \<open>Claims: the bridge of Ethereum-like networks (\<^verbatim>\<open>modules/claims\<close>)\<close>

text \<open>
  The bridge account of a network mints claims for transactions of the other chain; whoever signs
  with the right Ethereum key turns a claim into balance; burning goes the other way.

  The storage is the record \<open>claims_state\<close>; the hash, the signature recovery, the encoding of
  account ids, the currency and the constants of the pallet are the record \<open>claims_config\<close>. A stored
  \<^verbatim>\<open>Option\<close> with \<^verbatim>\<open>ValueQuery\<close> is a map to options: \<^verbatim>\<open>contains_key\<close> and the value differ.

  The properties: a claim that is recorded keeps its owner and amount for ever and is paid at most
  once in any sequence of calls; the check of an unsigned transaction accepts exactly the claims that
  then succeed; minting, claiming and burning move exactly the recorded amounts; the message that is
  signed determines the destination and the transaction; addresses survive printing and parsing.
\<close>

subsection \<open>Addresses and hexadecimal (\<^verbatim>\<open>ethereum_address.rs\<close>)\<close>

type_synonym byte = "8 word"

text \<open>The arrays \<^verbatim>\<open>[u8; 20]\<close>, \<^verbatim>\<open>[u8; 32]\<close> and \<^verbatim>\<open>[u8; 65]\<close> as lists of bytes.\<close>

datatype EthereumAddress = EthereumAddress "byte list"
datatype EcdsaSignature = EcdsaSignature "byte list"
datatype EthereumTxHash = EthereumTxHash "byte list"

fun address_bytes :: "EthereumAddress \<Rightarrow> byte list" where
  "address_bytes (EthereumAddress bs) = bs"

fun tx_bytes :: "EthereumTxHash \<Rightarrow> byte list" where
  "tx_bytes (EthereumTxHash bs) = bs"

definition nibble :: "byte \<Rightarrow> byte" where
  "nibble n = (if n < 10 then 48 + n else 97 - 10 + n)"

fun to_ascii_hex :: "byte list \<Rightarrow> byte list" where
  "to_ascii_hex [] = []"
| "to_ascii_hex (b # bs) = nibble (b div 16) # nibble (b mod 16) # to_ascii_hex bs"

text \<open>\<open>to_hex\<close> and \<open>from_hex\<close> stand for the library's conversions; strings are lists of bytes.\<close>

definition serialize_address :: "(byte list \<Rightarrow> byte list) \<Rightarrow> EthereumAddress \<Rightarrow> byte list" where
  "serialize_address to_hex a = [48, 120] @ to_hex (address_bytes a)"

text \<open>The library skips white space between the digits, so that forty characters may give fewer than twenty
  bytes: \<^verbatim>\<open>copy_from_slice\<close> panics then.\<close>

datatype parse_error = BadLength | BadHex | CopyPanic

definition deserialize_address ::
  "(byte list \<Rightarrow> byte list option) \<Rightarrow> byte list \<Rightarrow> parse_error + EthereumAddress" where
  "deserialize_address from_hex base_string =
     (let offset = (if take 2 base_string = [48, 120] then 2 else 0);
          s = drop offset base_string
      in if length s \<noteq> 40 then Inl BadLength
         else (case from_hex s of
                 None \<Rightarrow> Inl BadHex
               | Some raw \<Rightarrow> if length raw \<noteq> 20 then Inl CopyPanic else Inr (EthereumAddress raw)))"

definition serialize_tx :: "(byte list \<Rightarrow> byte list) \<Rightarrow> EthereumTxHash \<Rightarrow> byte list" where
  "serialize_tx to_hex tx = [48, 120] @ to_hex (tx_bytes tx)"

definition zero_address :: EthereumAddress where
  "zero_address = EthereumAddress (replicate 20 0)"

subsection \<open>State\<close>

datatype BridgeNetworks = BSC | Ethereum | CloverPara

datatype claims_error =
    NoPermission | AlreadyMinted | AlreadyClaimed | ClaimLimitExceeded | TxNotMinted
  | InvalidEthereumSignature | SignatureNotMatch | InvalidAmount
  | CurrencyError | BadOrigin

datatype claims_event =
    ElasticBridgeAccountChanged BridgeNetworks AccountId
  | ElasticMintSuccess BridgeNetworks EthereumTxHash EthereumAddress Balance
  | ElasticClaimLimitUpdated BridgeNetworks Balance
  | ElasticClaimed BridgeNetworks AccountId EthereumAddress Balance
  | ElasticBurned BridgeNetworks AccountId EthereumAddress Balance
  | ElasticFeeUpdated BridgeNetworks Balance Balance

type_synonym claim = "EthereumAddress \<times> Balance \<times> bool"

record 'w claims_state =
  BridgeAccount :: "AccountId option"
  ClaimLimit :: Balance
  ClaimsMap :: "EthereumTxHash \<rightharpoonup> claim option"
  MintFee :: "Balance option"
  BurnFee :: "Balance option"
  ElasticBridgeAccounts :: "BridgeNetworks \<rightharpoonup> AccountId option"
  ElasticClaimLimits :: "BridgeNetworks \<rightharpoonup> Balance"
  BridgeFees :: "BridgeNetworks \<rightharpoonup> Balance \<times> Balance"
  ElasticClaims :: "BridgeNetworks \<Rightarrow> EthereumTxHash \<rightharpoonup> claim"
  PalletStorageVersion :: "u32 option"
  claims_events :: "claims_event list"
  claims_world :: 'w

record 'w claims_config =
  C_currency :: "'w currency"
  C_account_id :: AccountId
  C_prefix :: "byte list"
  C_encode_account :: "AccountId \<Rightarrow> byte list"
  C_keccak_256 :: "byte list \<Rightarrow> byte list"
  C_ecdsa_recover :: "byte list \<Rightarrow> byte list \<Rightarrow> byte list option"
  C_iter_claims :: "(EthereumTxHash \<rightharpoonup> claim option) \<Rightarrow> (EthereumTxHash \<times> claim option) list"
  C_encode_provides :: "EthereumAddress \<Rightarrow> byte list"

type_synonym ('w, 'a) claims_result = "(claims_error + 'a) \<times> 'w claims_state"

definition VersionDefault :: u32 where
  "VersionDefault = 1"

definition pallet_storage_version :: "'w claims_state \<Rightarrow> u32" where
  "pallet_storage_version s = (case PalletStorageVersion s of None \<Rightarrow> VersionDefault | Some v \<Rightarrow> v)"

definition elastic_bridge_accounts :: "'w claims_state \<Rightarrow> BridgeNetworks \<Rightarrow> AccountId option" where
  "elastic_bridge_accounts s network =
     (case ElasticBridgeAccounts s network of None \<Rightarrow> None | Some account \<Rightarrow> account)"

definition elastic_claim_limits :: "'w claims_state \<Rightarrow> BridgeNetworks \<Rightarrow> Balance" where
  "elastic_claim_limits s network =
     (case ElasticClaimLimits s network of None \<Rightarrow> 0 | Some limit \<Rightarrow> limit)"

definition bridge_fees :: "'w claims_state \<Rightarrow> BridgeNetworks \<Rightarrow> Balance \<times> Balance" where
  "bridge_fees s network = (case BridgeFees s network of None \<Rightarrow> (0, 0) | Some fees \<Rightarrow> fees)"

definition claims_deposit_event :: "claims_event \<Rightarrow> 'w claims_state \<Rightarrow> 'w claims_state" where
  "claims_deposit_event e s = s\<lparr>claims_events := claims_events s @ [e]\<rparr>"

text \<open>\<^verbatim>\<open>deposit_creating\<close>, whose imbalance is dropped.\<close>

definition mint_into :: "'w claims_config \<Rightarrow> AccountId \<Rightarrow> Balance \<Rightarrow> 'w claims_state \<Rightarrow> 'w claims_state" where
  "mint_into C who amount s =
     (case cur_deposit_creating (C_currency C) who amount (claims_world s) of
        (imbalance, w) \<Rightarrow> s\<lparr>claims_world := cur_drop_positive (C_currency C) imbalance w\<rparr>)"

text \<open>\<^verbatim>\<open>#[transactional]\<close>: an error restores the state.\<close>

definition transactional :: "('w, 'a) claims_result \<Rightarrow> 'w claims_state \<Rightarrow> ('w, 'a) claims_result" where
  "transactional r s = (case r of (Inl e, _) \<Rightarrow> (Inl e, s) | (Inr x, s') \<Rightarrow> (Inr x, s'))"

subsection \<open>Signed messages\<close>

fun rev_digits :: "nat \<Rightarrow> byte list" where
  "rev_digits l = (if l > 0 then (48 + of_nat (l mod 10)) # rev_digits (l div 10) else [])"

declare rev_digits.simps [simp del]

text \<open>The bytes of \<^verbatim>\<open>\x19Ethereum Signed Message:\n\<close>.\<close>

definition message_header :: "byte list" where
  "message_header =
     [25, 69, 116, 104, 101, 114, 101, 117, 109, 32, 83, 105, 103, 110, 101, 100, 32,
      77, 101, 115, 115, 97, 103, 101, 58, 10]"

definition ethereum_signable_message ::
  "'w claims_config \<Rightarrow> byte list \<Rightarrow> byte list \<Rightarrow> byte list" where
  "ethereum_signable_message C what extra =
     message_header @ rev (rev_digits (length (C_prefix C) + length what + length extra))
       @ C_prefix C @ what @ extra"

definition eth_recover ::
  "'w claims_config \<Rightarrow> EcdsaSignature \<Rightarrow> byte list \<Rightarrow> byte list \<Rightarrow> EthereumAddress option" where
  "eth_recover C sig what extra =
     (case sig of EcdsaSignature s \<Rightarrow>
        let msg = C_keccak_256 C (ethereum_signable_message C what extra)
        in case C_ecdsa_recover C s msg of
             None \<Rightarrow> None
           | Some key \<Rightarrow> Some (EthereumAddress (drop 12 (C_keccak_256 C key))))"

definition claim_signer ::
  "'w claims_config \<Rightarrow> AccountId \<Rightarrow> EthereumTxHash \<Rightarrow> EcdsaSignature \<Rightarrow> EthereumAddress option" where
  "claim_signer C dest tx sig =
     eth_recover C sig (to_ascii_hex (C_encode_account C dest)) (to_ascii_hex (tx_bytes tx))"

subsection \<open>Minting, claiming, burning\<close>

definition do_mint_claim ::
  "'w claims_config \<Rightarrow> AccountId \<Rightarrow> BridgeNetworks \<Rightarrow> EthereumTxHash \<Rightarrow> EthereumAddress \<Rightarrow> Balance \<Rightarrow>
     'w claims_state \<Rightarrow> ('w, Balance) claims_result" where
  "do_mint_claim C from network tx who value s =
     (if Some from \<noteq> elastic_bridge_accounts s network then (Inl NoPermission, s)
      else if ElasticClaims s network tx \<noteq> None then (Inl AlreadyMinted, s)
      else if \<not> elastic_claim_limits s network \<ge> value then (Inl ClaimLimitExceeded, s)
      else
        (let fee = fst (bridge_fees s network)
         in if fee > 0 \<and> \<not> value > fee then (Inl InvalidAmount, s)
            else
              (let claim_amount = (if fee > 0 then value - fee else value);
                   mint_fee = (if fee > 0 then fee else 0);
                   s1 = s\<lparr>ElasticClaims := (ElasticClaims s)(network :=
                            (ElasticClaims s network)(tx \<mapsto> (who, claim_amount, False)))\<rparr>;
                   s2 = s1\<lparr>ElasticClaimLimits := (ElasticClaimLimits s1)(network \<mapsto>
                            elastic_claim_limits s1 network - claim_amount)\<rparr>;
                   s3 = (if mint_fee > 0 then mint_into C (C_account_id C) mint_fee s2 else s2)
               in (Inr claim_amount, s3))))"

definition do_claim ::
  "'w claims_config \<Rightarrow> BridgeNetworks \<Rightarrow> AccountId \<Rightarrow> EthereumTxHash \<Rightarrow> EcdsaSignature \<Rightarrow>
     'w claims_state \<Rightarrow> ('w, EthereumAddress \<times> Balance) claims_result" where
  "do_claim C network dest tx sig s =
     (case ElasticClaims s network tx of
        None \<Rightarrow> (Inl TxNotMinted, s)
      | Some (address, amount, claimed) \<Rightarrow>
          if claimed then (Inl AlreadyClaimed, s)
          else (case claim_signer C dest tx sig of
                  None \<Rightarrow> (Inl InvalidEthereumSignature, s)
                | Some signer \<Rightarrow>
                    if address \<noteq> signer then (Inl SignatureNotMatch, s)
                    else
                      (let s1 = mint_into C dest amount s;
                           s2 = s1\<lparr>ElasticClaims := (ElasticClaims s1)(network :=
                                  (ElasticClaims s1 network)(tx \<mapsto> (address, amount, True)))\<rparr>
                       in (Inr (signer, amount), s2))))"

definition do_burn ::
  "'w claims_config \<Rightarrow> AccountId \<Rightarrow> BridgeNetworks \<Rightarrow> Balance \<Rightarrow> 'w claims_state \<Rightarrow>
     ('w, Balance) claims_result" where
  "do_burn C who network amount s =
     (let fee = snd (bridge_fees s network)
      in if fee > 0 \<and> \<not> amount > fee then (Inl InvalidAmount, s)
         else
           (let burn_amount = (if fee > 0 then amount - fee else amount);
                burn_fee = (if fee > 0 then fee else 0)
            in case cur_withdraw (C_currency C) who amount KeepAlive (claims_world s) of
                 (None, w) \<Rightarrow> (Inl CurrencyError, s\<lparr>claims_world := w\<rparr>)
               | (Some imbalance, w) \<Rightarrow>
                   (let s1 = s\<lparr>claims_world := cur_drop_negative (C_currency C) imbalance w\<rparr>;
                        s2 = (if burn_fee > 0 then mint_into C (C_account_id C) burn_fee s1 else s1)
                    in (Inr burn_amount, s2))))"

definition do_mint_and_send_claim ::
  "'w claims_config \<Rightarrow> AccountId \<Rightarrow> BridgeNetworks \<Rightarrow> EthereumTxHash \<Rightarrow> AccountId \<Rightarrow> Balance \<Rightarrow>
     'w claims_state \<Rightarrow> ('w, Balance) claims_result" where
  "do_mint_and_send_claim C from network tx dest value s =
     (if Some from \<noteq> elastic_bridge_accounts s network then (Inl NoPermission, s)
      else if ElasticClaims s network tx \<noteq> None then (Inl AlreadyMinted, s)
      else if \<not> elastic_claim_limits s network \<ge> value then (Inl ClaimLimitExceeded, s)
      else
        (let fee = fst (bridge_fees s network)
         in if fee > 0 \<and> \<not> value > fee then (Inl InvalidAmount, s)
            else
              (let claim_amount = (if fee > 0 then value - fee else value);
                   mint_fee = (if fee > 0 then fee else 0);
                   s0 = mint_into C dest claim_amount s;
                   s1 = s0\<lparr>ElasticClaims := (ElasticClaims s0)(network :=
                            (ElasticClaims s0 network)(tx \<mapsto> (zero_address, claim_amount, True)))\<rparr>;
                   s2 = s1\<lparr>ElasticClaimLimits := (ElasticClaimLimits s1)(network \<mapsto>
                            elastic_claim_limits s1 network - claim_amount)\<rparr>;
                   s3 = (if mint_fee > 0 then mint_into C (C_account_id C) mint_fee s2 else s2)
               in (Inr claim_amount, s3))))"

subsection \<open>Calls\<close>

definition set_bridge_account_elastic ::
  "origin \<Rightarrow> BridgeNetworks \<Rightarrow> AccountId \<Rightarrow> 'w claims_state \<Rightarrow> ('w, unit) claims_result" where
  "set_bridge_account_elastic o1 network to s =
     (if \<not> ensure_root o1 then (Inl BadOrigin, s)
      else (Inr (), claims_deposit_event (ElasticBridgeAccountChanged network to)
              (s\<lparr>ElasticBridgeAccounts := (ElasticBridgeAccounts s)(network \<mapsto> Some to)\<rparr>)))"

definition set_claim_limit_elastic ::
  "origin \<Rightarrow> BridgeNetworks \<Rightarrow> Balance \<Rightarrow> 'w claims_state \<Rightarrow> ('w, unit) claims_result" where
  "set_claim_limit_elastic o1 network limit s =
     (if \<not> ensure_root o1 then (Inl BadOrigin, s)
      else (Inr (), claims_deposit_event (ElasticClaimLimitUpdated network limit)
              (s\<lparr>ElasticClaimLimits := (ElasticClaimLimits s)(network \<mapsto> limit)\<rparr>)))"

definition set_bridge_fee_elastic ::
  "origin \<Rightarrow> BridgeNetworks \<Rightarrow> Balance \<Rightarrow> Balance \<Rightarrow> 'w claims_state \<Rightarrow> ('w, unit) claims_result" where
  "set_bridge_fee_elastic o1 network mint_fee burn_fee s =
     (if \<not> ensure_root o1 then (Inl BadOrigin, s)
      else (Inr (), claims_deposit_event (ElasticFeeUpdated network mint_fee burn_fee)
              (s\<lparr>BridgeFees := (BridgeFees s)(network \<mapsto> (mint_fee, burn_fee))\<rparr>)))"

definition mint_claim_elastic ::
  "'w claims_config \<Rightarrow> origin \<Rightarrow> BridgeNetworks \<Rightarrow> EthereumTxHash \<Rightarrow> EthereumAddress \<Rightarrow> Balance \<Rightarrow>
     'w claims_state \<Rightarrow> ('w, unit) claims_result" where
  "mint_claim_elastic C o1 network tx who value s =
     transactional
       (case ensure_signed o1 of
          None \<Rightarrow> (Inl BadOrigin, s)
        | Some signer \<Rightarrow>
            (case do_mint_claim C signer network tx who value s of
               (Inl e, s1) \<Rightarrow> (Inl e, s1)
             | (Inr claim_amount, s1) \<Rightarrow>
                 (Inr (), claims_deposit_event (ElasticMintSuccess network tx who claim_amount) s1))) s"

definition claim_elastic ::
  "'w claims_config \<Rightarrow> origin \<Rightarrow> BridgeNetworks \<Rightarrow> AccountId \<Rightarrow> EthereumTxHash \<Rightarrow> EcdsaSignature \<Rightarrow>
     'w claims_state \<Rightarrow> ('w, unit) claims_result" where
  "claim_elastic C o1 network dest tx sig s =
     transactional
       (if \<not> ensure_none o1 then (Inl BadOrigin, s)
        else (case do_claim C network dest tx sig s of
                (Inl e, s1) \<Rightarrow> (Inl e, s1)
              | (Inr (signer, amount), s1) \<Rightarrow>
                  (Inr (), claims_deposit_event (ElasticClaimed network dest signer amount) s1))) s"

definition burn_elastic ::
  "'w claims_config \<Rightarrow> origin \<Rightarrow> BridgeNetworks \<Rightarrow> EthereumAddress \<Rightarrow> Balance \<Rightarrow> 'w claims_state \<Rightarrow>
     ('w, unit) claims_result" where
  "burn_elastic C o1 network dest amount s =
     transactional
       (case ensure_signed o1 of
          None \<Rightarrow> (Inl BadOrigin, s)
        | Some who \<Rightarrow>
            (case do_burn C who network amount s of
               (Inl e, s1) \<Rightarrow> (Inl e, s1)
             | (Inr burn_amount, s1) \<Rightarrow>
                 (Inr (), claims_deposit_event (ElasticBurned network who dest burn_amount) s1))) s"

definition mint_and_send_claim_elastic ::
  "'w claims_config \<Rightarrow> origin \<Rightarrow> BridgeNetworks \<Rightarrow> EthereumTxHash \<Rightarrow> AccountId \<Rightarrow> Balance \<Rightarrow>
     'w claims_state \<Rightarrow> ('w, unit) claims_result" where
  "mint_and_send_claim_elastic C o1 network tx who value s =
     transactional
       (case ensure_signed o1 of
          None \<Rightarrow> (Inl BadOrigin, s)
        | Some signer \<Rightarrow>
            (case do_mint_and_send_claim C signer network tx who value s of
               (Inl e, s1) \<Rightarrow> (Inl e, s1)
             | (Inr claim_amount, s1) \<Rightarrow>
                 (Inr (), claims_deposit_event
                    (ElasticMintSuccess network tx zero_address claim_amount) s1))) s"

subsection \<open>Unsigned transactions\<close>

datatype ValidityError =
    VInvalidEthereumSignature | VSignerHasNoClaim | VSignatureNotMatch | VAlreadyClaimed

fun validity_error_code :: "ValidityError \<Rightarrow> u8" where
  "validity_error_code VInvalidEthereumSignature = 0"
| "validity_error_code VSignerHasNoClaim = 1"
| "validity_error_code VSignatureNotMatch = 2"
| "validity_error_code VAlreadyClaimed = 3"

datatype InvalidTransaction = InvalidCall | InvalidCustom u8

record ValidTransaction =
  vt_priority :: u64
  vt_requires :: "byte list list"
  vt_provides :: "byte list list"
  vt_longevity :: u64
  vt_propagate :: bool

definition do_validate ::
  "'w claims_config \<Rightarrow> BridgeNetworks \<Rightarrow> AccountId \<Rightarrow> EthereumTxHash \<Rightarrow> EcdsaSignature \<Rightarrow>
     'w claims_state \<Rightarrow> InvalidTransaction + ValidTransaction" where
  "do_validate C network account tx sig s =
     (case claim_signer C account tx sig of
        None \<Rightarrow> Inl (InvalidCustom (validity_error_code VInvalidEthereumSignature))
      | Some signer \<Rightarrow>
          (case ElasticClaims s network tx of
             None \<Rightarrow> Inl (InvalidCustom (validity_error_code VSignerHasNoClaim))
           | Some (address, _, claimed) \<Rightarrow>
               if address \<noteq> signer then Inl (InvalidCustom (validity_error_code VSignatureNotMatch))
               else if claimed then Inl (InvalidCustom (validity_error_code VAlreadyClaimed))
               else Inr \<lparr>vt_priority = 100, vt_requires = [],
                         vt_provides = [C_encode_provides C signer],
                         vt_longevity = u64_max, vt_propagate = True\<rparr>))"

datatype claims_call =
    CallSetBridgeAccount BridgeNetworks AccountId
  | CallSetClaimLimit BridgeNetworks Balance
  | CallSetBridgeFee BridgeNetworks Balance Balance
  | CallMintClaim BridgeNetworks EthereumTxHash EthereumAddress Balance
  | CallClaim BridgeNetworks AccountId EthereumTxHash EcdsaSignature
  | CallBurn BridgeNetworks EthereumAddress Balance
  | CallMintAndSendClaim BridgeNetworks EthereumTxHash AccountId Balance

fun claims_validate_unsigned ::
  "'w claims_config \<Rightarrow> claims_call \<Rightarrow> 'w claims_state \<Rightarrow> InvalidTransaction + ValidTransaction" where
  "claims_validate_unsigned C (CallClaim network dest tx sig) s = do_validate C network dest tx sig s"
| "claims_validate_unsigned C _ s = Inl InvalidCall"

fun claims_dispatch ::
  "'w claims_config \<Rightarrow> origin \<Rightarrow> claims_call \<Rightarrow> 'w claims_state \<Rightarrow> ('w, unit) claims_result" where
  "claims_dispatch C o1 (CallSetBridgeAccount n a) s = set_bridge_account_elastic o1 n a s"
| "claims_dispatch C o1 (CallSetClaimLimit n l) s = set_claim_limit_elastic o1 n l s"
| "claims_dispatch C o1 (CallSetBridgeFee n m b) s = set_bridge_fee_elastic o1 n m b s"
| "claims_dispatch C o1 (CallMintClaim n tx who v) s = mint_claim_elastic C o1 n tx who v s"
| "claims_dispatch C o1 (CallClaim n dest tx sig) s = claim_elastic C o1 n dest tx sig s"
| "claims_dispatch C o1 (CallBurn n dest v) s = burn_elastic C o1 n dest v s"
| "claims_dispatch C o1 (CallMintAndSendClaim n tx who v) s = mint_and_send_claim_elastic C o1 n tx who v s"

subsection \<open>The storage migration\<close>

definition copy_claim ::
  "'w claims_state \<Rightarrow> EthereumTxHash \<times> claim option \<Rightarrow> 'w claims_state" where
  "copy_claim s kv =
     (case kv of (k, v) \<Rightarrow>
        if ElasticClaims s BSC k = None
        then (case v of
                Some c \<Rightarrow> s\<lparr>ElasticClaims := (ElasticClaims s)(BSC := (ElasticClaims s BSC)(k \<mapsto> c))\<rparr>
              | None \<Rightarrow> s)
        else s)"

definition claims_on_runtime_upgrade ::
  "'w claims_config \<Rightarrow> 'w claims_state \<Rightarrow> Weight \<times> 'w claims_state" where
  "claims_on_runtime_upgrade C s =
     (if pallet_storage_version s \<ge> 2 then (0, s)
      else
        (let s1 = foldl copy_claim s (C_iter_claims C (ClaimsMap s));
             limit = ClaimLimit s1;
             s2 = (if limit > 0
                   then s1\<lparr>ElasticClaimLimits := (ElasticClaimLimits s1)(BSC \<mapsto> limit)\<rparr> else s1);
             s3 = (case BridgeAccount s2 of
                     Some account \<Rightarrow>
                       (if ElasticBridgeAccounts s2 BSC = None
                        then s2\<lparr>ElasticBridgeAccounts :=
                               (ElasticBridgeAccounts s2)(BSC \<mapsto> Some account)\<rparr>
                        else s2)
                   | None \<Rightarrow> s2);
             mint_fee = (case MintFee s3 of None \<Rightarrow> 0 | Some f \<Rightarrow> f);
             burn_fee = (case BurnFee s3 of None \<Rightarrow> 0 | Some f \<Rightarrow> f);
             s4 = (if (mint_fee > 0 \<or> burn_fee > 0) \<and> BridgeFees s3 BSC = None
                   then s3\<lparr>BridgeFees := (BridgeFees s3)(BSC \<mapsto> (mint_fee, burn_fee))\<rparr> else s3)
         in (100, s4\<lparr>MintFee := None, BurnFee := None, ClaimsMap := Map.empty, BridgeAccount := None,
                     PalletStorageVersion := Some 2\<rparr>)))"

subsection \<open>Lemmas: what the operations write\<close>

lemma mint_into_frame [simp]:
  "ElasticClaims (mint_into C a x s) = ElasticClaims s"
  "ElasticClaimLimits (mint_into C a x s) = ElasticClaimLimits s"
  "BridgeFees (mint_into C a x s) = BridgeFees s"
  "elastic_claim_limits (mint_into C a x s) = elastic_claim_limits s"
  by (simp_all add: mint_into_def elastic_claim_limits_def fun_eq_iff split: prod.split)

lemma claims_deposit_event_frame [simp]:
  "ElasticClaims (claims_deposit_event e s) = ElasticClaims s"
  "claims_world (claims_deposit_event e s) = claims_world s"
  "elastic_claim_limits (claims_deposit_event e s) = elastic_claim_limits s"
  by (simp_all add: claims_deposit_event_def elastic_claim_limits_def fun_eq_iff)

text \<open>Once recorded, a claim keeps its owner and its amount, and stays claimed.\<close>

definition keeps_claims :: "'w claims_state \<Rightarrow> 'w claims_state \<Rightarrow> bool" where
  "keeps_claims s s' \<longleftrightarrow>
     (\<forall>n tx a x b. ElasticClaims s n tx = Some (a, x, b) \<longrightarrow>
        (\<exists>b'. ElasticClaims s' n tx = Some (a, x, b') \<and> (b \<longrightarrow> b')))"

lemma keeps_claims_same: "ElasticClaims s' = ElasticClaims s \<Longrightarrow> keeps_claims s s'"
  by (simp add: keeps_claims_def)

lemma keeps_claims_refl [simp]: "keeps_claims s s"
  by (simp add: keeps_claims_def)

lemma keeps_claims_trans: "keeps_claims s s1 \<Longrightarrow> keeps_claims s1 s2 \<Longrightarrow> keeps_claims s s2"
  unfolding keeps_claims_def by meson

lemma keeps_claims_new:
  assumes "ElasticClaims s n tx = None"
    and "ElasticClaims s' = (ElasticClaims s)(n := (ElasticClaims s n)(tx \<mapsto> c))"
  shows "keeps_claims s s'"
  using assms by (auto simp: keeps_claims_def)

lemma keeps_claims_paid:
  assumes "ElasticClaims s n tx = Some (a, x, b)"
    and "ElasticClaims s' = (ElasticClaims s)(n := (ElasticClaims s n)(tx \<mapsto> (a, x, True)))"
  shows "keeps_claims s s'"
  using assms by (auto simp: keeps_claims_def)

lemma do_mint_claim_ElasticClaims:
  assumes "do_mint_claim C from n tx who v s = (Inr x, s')"
  shows "ElasticClaims s n tx = None \<and>
    ElasticClaims s' = (ElasticClaims s)(n := (ElasticClaims s n)(tx \<mapsto> (who, x, False)))"
  using assms by (cases "ElasticClaims s n tx") (auto simp: do_mint_claim_def Let_def split: if_splits)

lemma do_mint_and_send_claim_ElasticClaims:
  assumes "do_mint_and_send_claim C from n tx who v s = (Inr x, s')"
  shows "ElasticClaims s n tx = None \<and>
    ElasticClaims s' = (ElasticClaims s)(n := (ElasticClaims s n)(tx \<mapsto> (zero_address, x, True)))"
  using assms
  by (cases "ElasticClaims s n tx") (auto simp: do_mint_and_send_claim_def Let_def split: if_splits)

lemma do_claim_spec:
  "do_claim C n dest tx sig s = (Inr (a, x), s') \<longleftrightarrow>
    ElasticClaims s n tx = Some (a, x, False) \<and> claim_signer C dest tx sig = Some a \<and>
    s' = (mint_into C dest x s)\<lparr>ElasticClaims := (ElasticClaims s)(n :=
           (ElasticClaims s n)(tx \<mapsto> (a, x, True)))\<rparr>"
  by (auto simp: do_claim_def Let_def split: option.split)

lemma do_burn_ElasticClaims:
  "do_burn C who n v s = (r, s') \<Longrightarrow> ElasticClaims s' = ElasticClaims s"
  by (auto simp: do_burn_def Let_def split: if_splits prod.splits option.splits)

lemma transactional_Inr: "transactional r s = (Inr x, s') \<longleftrightarrow> r = (Inr x, s')"
  by (auto simp: transactional_def split: prod.split sum.split)

lemma transactional_Inl: "transactional r s = (Inl e, s') \<longleftrightarrow> s' = s \<and> (\<exists>s1. r = (Inl e, s1))"
  by (auto simp: transactional_def split: prod.split sum.split)

lemma claim_elastic_Inr:
  "claim_elastic C o1 n dest tx sig s = (Inr u, s') \<longleftrightarrow>
    (\<exists>a x s1. ensure_none o1 \<and> do_claim C n dest tx sig s = (Inr (a, x), s1) \<and>
       s' = claims_deposit_event (ElasticClaimed n dest a x) s1)"
  by (auto simp: claim_elastic_def transactional_Inr split: prod.splits sum.splits)

lemma claims_dispatch_error:
  assumes "claims_dispatch C o1 c s = (Inl e, s')"
  shows "s' = s"
  using assms
  by (cases c) (auto simp: mint_claim_elastic_def claim_elastic_def burn_elastic_def
      mint_and_send_claim_elastic_def transactional_Inl set_bridge_account_elastic_def
      set_claim_limit_elastic_def set_bridge_fee_elastic_def split: if_splits)

lemma keeps_claims_dispatch: "keeps_claims s (snd (claims_dispatch C o1 c s))"
proof (cases "claims_dispatch C o1 c s")
  case (Pair r s')
  show ?thesis
  proof (cases r)
    case (Inl e)
    with Pair claims_dispatch_error show ?thesis by fastforce
  next
    case (Inr u)
    with Pair have d: "claims_dispatch C o1 c s = (Inr u, s')" by simp
    have "keeps_claims s s'"
    proof (cases c)
      case (CallMintClaim n tx who v)
      with d show ?thesis
        by (auto simp: mint_claim_elastic_def transactional_Inr split: option.splits prod.splits sum.splits
            dest!: do_mint_claim_ElasticClaims intro: keeps_claims_new)
    next
      case (CallClaim n dest tx sig)
      with d show ?thesis by (auto simp: claim_elastic_Inr do_claim_spec intro!: keeps_claims_paid)
    next
      case (CallBurn n dest v)
      with d show ?thesis
        by (auto simp: burn_elastic_def transactional_Inr split: option.splits prod.splits sum.splits
            dest!: do_burn_ElasticClaims intro: keeps_claims_same)
    next
      case (CallMintAndSendClaim n tx who v)
      with d show ?thesis
        by (auto simp: mint_and_send_claim_elastic_def transactional_Inr
            split: option.splits prod.splits sum.splits
            dest!: do_mint_and_send_claim_ElasticClaims intro: keeps_claims_new)
    qed (use d in \<open>auto simp: set_bridge_account_elastic_def set_claim_limit_elastic_def
        set_bridge_fee_elastic_def split: if_splits intro!: keeps_claims_same\<close>)
    with Pair show ?thesis by simp
  qed
qed

lemma keeps_claims_copy: "keeps_claims s (foldl copy_claim s kvs)"
proof (induction kvs arbitrary: s)
  case Nil
  then show ?case by simp
next
  case (Cons kv kvs)
  have "keeps_claims s (copy_claim s kv)"
    by (auto simp: copy_claim_def split: prod.split option.split intro!: keeps_claims_new)
  then show ?case using Cons keeps_claims_trans by fastforce
qed

lemma keeps_claims_upgrade: "keeps_claims s (snd (claims_on_runtime_upgrade C s))"
proof -
  have "pallet_storage_version s < 2 \<Longrightarrow> ElasticClaims (snd (claims_on_runtime_upgrade C s)) =
      ElasticClaims (foldl copy_claim s (C_iter_claims C (ClaimsMap s)))"
    by (simp add: claims_on_runtime_upgrade_def Let_def split: option.split)
  moreover have "\<not> pallet_storage_version s < 2 \<Longrightarrow> snd (claims_on_runtime_upgrade C s) = s"
    by (simp add: claims_on_runtime_upgrade_def)
  ultimately show ?thesis
    using keeps_claims_trans [OF keeps_claims_copy keeps_claims_same] by (metis keeps_claims_refl)
qed

subsection \<open>Runs\<close>

text \<open>What can happen to the pallet: an extrinsic, a runtime upgrade, a change of the rest of the
  runtime. A run reports which of its inputs was an extrinsic that succeeded.\<close>

datatype 'w claims_input = Extrinsic origin claims_call | Upgrade | Elsewhere 'w

fun claims_step :: "'w claims_config \<Rightarrow> 'w claims_input \<Rightarrow> 'w claims_state \<Rightarrow> bool \<times> 'w claims_state" where
  "claims_step C (Extrinsic o1 c) s = (\<not> isl (fst (claims_dispatch C o1 c s)), snd (claims_dispatch C o1 c s))"
| "claims_step C Upgrade s = (False, snd (claims_on_runtime_upgrade C s))"
| "claims_step C (Elsewhere w) s = (False, s\<lparr>claims_world := w\<rparr>)"

fun claims_run ::
  "'w claims_config \<Rightarrow> 'w claims_input list \<Rightarrow> 'w claims_state \<Rightarrow> ('w claims_input \<times> bool) list \<times> 'w claims_state" where
  "claims_run C [] s = ([], s)"
| "claims_run C (i # is) s =
     (let (ok, s1) = claims_step C i s; (oks, s2) = claims_run C is s1 in ((i, ok) # oks, s2))"

text \<open>A payment of the claim of \<open>tx\<close> on network \<open>n\<close>.\<close>

fun pays :: "BridgeNetworks \<Rightarrow> EthereumTxHash \<Rightarrow> 'w claims_input \<times> bool \<Rightarrow> bool" where
  "pays n tx (Extrinsic o1 (CallClaim n' dest tx' sig), ok) \<longleftrightarrow> ok \<and> n' = n \<and> tx' = tx"
| "pays n tx (Extrinsic o1 (CallMintAndSendClaim n' tx' dest v), ok) \<longleftrightarrow> ok \<and> n' = n \<and> tx' = tx"
| "pays n tx _ \<longleftrightarrow> False"

lemma keeps_claims_step: "keeps_claims s (snd (claims_step C i s))"
  by (cases i) (simp_all add: keeps_claims_dispatch keeps_claims_upgrade keeps_claims_same)

lemma claims_step_ok:
  assumes "claims_step C (Extrinsic o1 c) s = (True, s1)"
  shows "claims_dispatch C o1 c s = (Inr (), s1)"
proof (cases "claims_dispatch C o1 c s")
  case (Pair r s')
  with assms show ?thesis by (cases r) simp_all
qed

lemma pays_step:
  assumes "claims_step C i s = (ok, s1)" and "pays n tx (i, ok)"
  shows "(\<forall>a x. ElasticClaims s n tx \<noteq> Some (a, x, True)) \<and> (\<exists>a x. ElasticClaims s1 n tx = Some (a, x, True))"
proof (cases "(n, tx, (i, ok))" rule: pays.cases)
  case (1 n0 tx0 o1 n' dest tx' sig ok0)
  with assms have i: "i = Extrinsic o1 (CallClaim n dest tx sig)" and ok: ok by simp_all
  with assms(1) have "claim_elastic C o1 n dest tx sig s = (Inr (), s1)"
    using claims_step_ok [of C o1 "CallClaim n dest tx sig" s s1] by simp
  then show ?thesis by (auto simp: claim_elastic_Inr do_claim_spec)
next
  case (2 n0 tx0 o1 n' tx' dest v ok0)
  with assms have i: "i = Extrinsic o1 (CallMintAndSendClaim n tx dest v)" and ok: ok by simp_all
  with assms(1) have "mint_and_send_claim_elastic C o1 n tx dest v s = (Inr (), s1)"
    using claims_step_ok [of C o1 "CallMintAndSendClaim n tx dest v" s s1] by simp
  then obtain b x s2 where "do_mint_and_send_claim C b n tx dest v s = (Inr x, s2)"
    and "s1 = claims_deposit_event (ElasticMintSuccess n tx zero_address x) s2"
    by (auto simp: mint_and_send_claim_elastic_def transactional_Inr split: option.splits prod.splits sum.splits)
  then show ?thesis using do_mint_and_send_claim_ElasticClaims by fastforce
qed (use assms in auto)

lemma no_payment_after:
  assumes "ElasticClaims s n tx = Some (a, x, True)"
  shows "filter (pays n tx) (fst (claims_run C is s)) = []"
  using assms
proof (induction "is" arbitrary: s)
  case Nil
  then show ?case by simp
next
  case (Cons i "is")
  obtain ok s1 where st: "claims_step C i s = (ok, s1)" by fastforce
  have "ElasticClaims s1 n tx = Some (a, x, True)"
    using keeps_claims_step [of s C i] st Cons.prems unfolding keeps_claims_def by force
  with Cons.IH have "filter (pays n tx) (fst (claims_run C is s1)) = []" by blast
  moreover have "\<not> pays n tx (i, ok)" using pays_step [OF st] Cons.prems by blast
  ultimately show ?case using st by (simp add: case_prod_unfold Let_def)
qed

text \<open>C20. A bridge transaction is paid at most once: in any sequence of calls by anybody, runtime
  upgrades and other activity, from any state, at most one call that pays for a given transaction of
  a network succeeds.\<close>

theorem claim_paid_at_most_once:
  "length (filter (pays n tx) (fst (claims_run C inputs s))) \<le> 1"
proof (induction inputs arbitrary: s)
  case Nil
  then show ?case by simp
next
  case (Cons i "is")
  obtain ok s1 where st: "claims_step C i s = (ok, s1)" by fastforce
  show ?case
  proof (cases "pays n tx (i, ok)")
    case True
    with pays_step [OF st] obtain a x where "ElasticClaims s1 n tx = Some (a, x, True)" by blast
    with no_payment_after [OF this, of C "is"] True st show ?thesis by (simp add: case_prod_unfold Let_def)
  next
    case False
    with Cons.IH [of s1] st show ?thesis by (simp add: case_prod_unfold Let_def)
  qed
qed

text \<open>C21. The check of unsigned transactions accepts a claim exactly if dispatching it in the same
  state succeeds.\<close>

theorem validate_agrees_with_claim:
  "(\<exists>v. claims_validate_unsigned C (CallClaim n dest tx sig) s = Inr v) \<longleftrightarrow>
   (\<exists>u s'. claims_dispatch C NoneOrigin (CallClaim n dest tx sig) s = (Inr u, s'))"
  by (auto simp: claim_elastic_Inr do_claim_spec do_validate_def split: option.splits if_splits)

text \<open>C22. What the bridge account mints, the owner can claim: after a successful mint of \<open>v\<close> for
  \<open>who\<close>, a claim signed by \<open>who\<close> succeeds and pays \<open>v\<close> less the mint fee to the destination of the
  owner's choice, and nothing but the fee was paid at the mint. The remaining limit of the network goes
  down by exactly the amount that can be claimed.\<close>

theorem minted_claim_can_be_claimed:
  assumes "mint_claim_elastic C (Signed bridge) n tx who v s = (Inr u, s1)"
    and "claim_signer C dest tx sig = Some who"
  shows "\<exists>s2. claim_elastic C NoneOrigin n dest tx sig s1 = (Inr (), s2) \<and>
    claims_world s2 = claims_world (mint_into C dest (v - fst (bridge_fees s n)) s1) \<and>
    claims_world s1 = (if fst (bridge_fees s n) > 0
      then claims_world (mint_into C (C_account_id C) (fst (bridge_fees s n)) s) else claims_world s) \<and>
    fst (bridge_fees s n) \<le> v \<and>
    elastic_claim_limits s1 n + (v - fst (bridge_fees s n)) = elastic_claim_limits s n \<and>
    elastic_bridge_accounts s n = Some bridge"
proof -
  let ?fee = "fst (bridge_fees s n)"
  obtain x s0 where m: "do_mint_claim C bridge n tx who v s = (Inr x, s0)"
    and s1: "s1 = claims_deposit_event (ElasticMintSuccess n tx who x) s0"
    using assms(1) by (auto simp: mint_claim_elastic_def transactional_Inr split: prod.splits sum.splits)
  have g: "elastic_bridge_accounts s n = Some bridge" "v \<le> elastic_claim_limits s n" "?fee \<le> v" "x = v - ?fee"
    and lim: "ElasticClaimLimits s0 = (ElasticClaimLimits s)(n \<mapsto> elastic_claim_limits s n - x)"
    and w: "claims_world s0 = (if ?fee > 0 then claims_world (mint_into C (C_account_id C) ?fee s) else claims_world s)"
    using m by (auto simp: do_mint_claim_def Let_def mint_into_def elastic_claim_limits_def
        split: if_splits prod.splits)
  have entry: "ElasticClaims s1 n tx = Some (who, x, False)"
    using do_mint_claim_ElasticClaims [OF m] by (simp add: s1)
  let ?s2 = "(mint_into C dest x s1)\<lparr>ElasticClaims := (ElasticClaims s1)(n :=
      (ElasticClaims s1 n)(tx \<mapsto> (who, x, True)))\<rparr>"
  have "do_claim C n dest tx sig s1 = (Inr (who, x), ?s2)"
    using entry assms(2) by (simp add: do_claim_spec)
  then have "claim_elastic C NoneOrigin n dest tx sig s1 =
      (Inr (), claims_deposit_event (ElasticClaimed n dest who x) ?s2)"
    by (simp add: claim_elastic_Inr)
  moreover have "claims_world (claims_deposit_event (ElasticClaimed n dest who x) ?s2) =
      claims_world (mint_into C dest (v - ?fee) s1)" by (simp add: g(4))
  moreover have "elastic_claim_limits s1 n = elastic_claim_limits s n - x"
    using lim by (simp add: s1 elastic_claim_limits_def)
  moreover have "claims_world s1 = claims_world s0" by (simp add: s1)
  ultimately show ?thesis using g w by (intro exI conjI) (assumption | simp)+
qed

subsection \<open>Hexadecimal and messages\<close>

text \<open>Reading a digit back.\<close>

definition unnibble :: "byte \<Rightarrow> byte option" where
  "unnibble c = (if 48 \<le> c \<and> c < 58 then Some (c - 48) else if 97 \<le> c \<and> c < 103 then Some (c - 87) else None)"

fun from_ascii_hex :: "byte list \<Rightarrow> byte list option" where
  "from_ascii_hex [] = Some []"
| "from_ascii_hex [c] = None"
| "from_ascii_hex (c # d # cs) =
     (case (unnibble c, unnibble d, from_ascii_hex cs) of
        (Some h, Some l, Some bs) \<Rightarrow> Some ((16 * h + l) # bs)
      | _ \<Rightarrow> None)"

lemma nibble_cases: "(n :: byte) < 16 \<Longrightarrow> n \<in> {0, 1, 2, 3, 4, 5, 6, 7, 8, 9, 10, 11, 12, 13, 14, 15}"
proof -
  assume "n < 16"
  then have "unat n < 16" by (simp add: word_less_nat_alt)
  then have "unat n \<in> {0, 1, 2, 3, 4, 5, 6, 7, 8, 9, 10, 11, 12, 13, 14, 15}" by (simp, arith)
  then have "of_nat (unat n) \<in> (of_nat :: nat \<Rightarrow> byte) ` {0, 1, 2, 3, 4, 5, 6, 7, 8, 9, 10, 11, 12, 13, 14, 15}" by blast
  then show ?thesis by simp
qed

lemma unnibble_nibble:
  assumes "n < 16"
  shows "unnibble (nibble n) = Some n"
  using nibble_cases [OF assms] by (elim insertE emptyE) (simp_all add: nibble_def unnibble_def)

lemma nibble_bounds: "(b :: byte) div 16 < 16" "(b :: byte) mod 16 < 16"
proof -
  have "unat b < 2 ^ LENGTH(8)" by (rule unsigned_less)
  then show "b div 16 < 16" "b mod 16 < 16"
    by (simp_all add: word_less_nat_alt unat_div unat_mod div_less_dividend)
qed

lemma byte_of_nibbles: "16 * (b div 16) + b mod 16 = (b :: byte)"
  by (metis mult.commute div_mult_mod_eq)

lemma from_to_ascii_hex: "from_ascii_hex (to_ascii_hex bs) = Some bs"
  by (induction bs) (simp_all add: unnibble_nibble nibble_bounds byte_of_nibbles)

lemma to_ascii_hex_inject: "to_ascii_hex xs = to_ascii_hex ys \<longleftrightarrow> xs = ys"
  by (metis from_to_ascii_hex option.inject)

lemma length_to_ascii_hex: "length (to_ascii_hex bs) = 2 * length bs"
  by (induction bs) simp_all


text \<open>The value a reversed string of decimal digits denotes.\<close>

fun rev_value :: "byte list \<Rightarrow> nat" where
  "rev_value [] = 0"
| "rev_value (d # ds) = unat (d - 48) + 10 * rev_value ds"

lemma rev_value_digits: "rev_value (rev_digits l) = l"
proof (induction l rule: rev_digits.induct)
  case (1 l)
  show ?case
  proof (cases "l > 0")
    case True
    have "unat (of_nat (l mod 10) :: byte) = l mod 10"
      by (simp add: unsigned_of_nat take_bit_nat_eq_self_iff less_trans [of _ 10])
    with True 1 show ?thesis by (subst rev_digits.simps) simp
  next
    case False
    then show ?thesis by (simp add: rev_digits.simps)
  qed
qed

text \<open>An account id is 32 bytes, here a number, and its encoding is these bytes; a decoder reads it back.\<close>

definition account_codec :: "(AccountId \<Rightarrow> byte list) \<Rightarrow> (byte list \<Rightarrow> AccountId) \<Rightarrow> bool" where
  "account_codec enc dec \<longleftrightarrow> (\<forall>a < 2 ^ 256. length (enc a) = 32 \<and> dec (enc a) = a)"

text \<open>C23. What an owner signs determines what is claimed: for account ids and transaction hashes of 32 bytes,
  two messages to sign are the same exactly if they are for the same destination account and the same
  transaction; and the message is the header, the decimal length of the payload, the prefix and the
  hexadecimal digits of the account and the transaction.\<close>

theorem signed_message_determines_claim:
  assumes "account_codec (C_encode_account C) dec" and "dest < 2 ^ 256" and "dest' < 2 ^ 256"
    and "length (tx_bytes tx) = 32" and "length (tx_bytes tx') = 32"
    and "\<And>d t. msg d t = ethereum_signable_message C (to_ascii_hex (C_encode_account C d)) (to_ascii_hex (tx_bytes t))"
  shows "(msg dest tx = msg dest' tx' \<longleftrightarrow> dest = dest' \<and> tx = tx') \<and>
    (\<exists>digits. msg dest tx =
       message_header @ digits @ C_prefix C @ to_ascii_hex (C_encode_account C dest @ tx_bytes tx) \<and>
       rev_value (rev digits) = length (C_prefix C) + 128)"
proof -
  have app: "to_ascii_hex (xs @ ys) = to_ascii_hex xs @ to_ascii_hex ys" for xs ys
    by (induction xs) simp_all
  have enc: "length (C_encode_account C d) = 32 \<and> dec (C_encode_account C d) = d" if "d < 2 ^ 256" for d
    using assms(1) that by (simp add: account_codec_def)
  have "dest = dest' \<and> tx = tx'" if "msg dest tx = msg dest' tx'"
  proof -
    have "to_ascii_hex (C_encode_account C dest) = to_ascii_hex (C_encode_account C dest')"
      "to_ascii_hex (tx_bytes tx) = to_ascii_hex (tx_bytes tx')"
      using that assms(2-6) enc by (simp_all add: ethereum_signable_message_def length_to_ascii_hex)
    then have "C_encode_account C dest = C_encode_account C dest'" "tx = tx'"
      by (simp_all add: to_ascii_hex_inject) (cases tx; cases tx'; simp)
    with enc [OF assms(2)] enc [OF assms(3)] show ?thesis by metis
  qed
  moreover have "msg dest tx = message_header @ rev (rev_digits (length (C_prefix C) + 128)) @ C_prefix C @
      to_ascii_hex (C_encode_account C dest @ tx_bytes tx)"
    using enc [OF assms(2)] assms(4,6) by (simp add: ethereum_signable_message_def app length_to_ascii_hex add.commute)
  ultimately show ?thesis
    by (auto simp: rev_value_digits intro!: exI [of _ "rev (rev_digits (length (C_prefix C) + 128))"])
qed

text \<open>C24. Parsing the printed form of an address gives the address back, for hexadecimal conversions
  that are inverse to each other and give two digits per byte.\<close>

theorem address_roundtrip:
  assumes "\<And>bs. from_hex (to_hex bs) = Some bs" and "\<And>bs. length (to_hex bs) = 2 * length bs"
    and "length (address_bytes a) = 20"
  shows "deserialize_address from_hex (serialize_address to_hex a) = Inr a"
  using assms by (cases a) (simp add: deserialize_address_def serialize_address_def)

subsection \<open>Witnesses\<close>

text \<open>The bytes of a number, the lowest first, and back.\<close>

fun le_bytes :: "nat \<Rightarrow> nat \<Rightarrow> byte list" where
  "le_bytes 0 a = []"
| "le_bytes (Suc n) a = of_nat (a mod 256) # le_bytes n (a div 256)"

fun le_value :: "byte list \<Rightarrow> nat" where
  "le_value [] = 0"
| "le_value (b # bs) = unat b + 256 * le_value bs"

lemma length_le_bytes: "length (le_bytes n a) = n"
  by (induction n arbitrary: a) simp_all

lemma le_value_bytes: "a < 256 ^ n \<Longrightarrow> le_value (le_bytes n a) = a"
proof (induction n arbitrary: a)
  case (Suc n)
  have "a div 256 < 256 ^ n" using Suc.prems by (simp add: div_less_iff_less_mult mult.commute)
  moreover have "unat (of_nat (a mod 256) :: byte) = a mod 256"
    by (simp add: unsigned_of_nat take_bit_nat_eq_self_iff)
  ultimately show ?case using Suc.IH by simp
qed simp

definition sample_C :: "bank claims_config" where
  "sample_C =
     \<lparr>C_currency = sample_currency, C_account_id = 77, C_prefix = [80, 97, 121],
      C_encode_account = (\<lambda>a. rev (le_bytes 32 a)),
      C_keccak_256 = (\<lambda>bs. take 32 (bs @ replicate 32 7)),
      C_ecdsa_recover = (\<lambda>sig msg. if take 4 sig = drop (length msg - 4) msg then Some sig else None),
      C_iter_claims = (\<lambda>m. []), C_encode_provides = (\<lambda>a. address_bytes a)\<rparr>"

definition sample_claims :: "bank claims_state" where
  "sample_claims =
     \<lparr>BridgeAccount = None, ClaimLimit = 0, ClaimsMap = Map.empty, MintFee = None, BurnFee = None,
      ElasticBridgeAccounts = [BSC \<mapsto> Some 5], ElasticClaimLimits = [BSC \<mapsto> 1000],
      BridgeFees = [BSC \<mapsto> (3, 2)], ElasticClaims = (\<lambda>n. Map.empty), PalletStorageVersion = Some 2,
      claims_events = [], claims_world = (\<lambda>a. 100)\<rparr>"

definition sample_tx :: EthereumTxHash where
  "sample_tx = EthereumTxHash [1, 2]"

definition sample_sig :: EcdsaSignature where
  "sample_sig = EcdsaSignature ([80, 97, 121, 48] @ replicate 61 9)"

definition sample_who :: EthereumAddress where
  "sample_who = EthereumAddress (replicate 20 9)"

lemma sample_signer: "claim_signer sample_C 6 sample_tx sample_sig = Some sample_who"
  by code_simp

theorem minted_claim_can_be_claimed_witness:
  "\<exists>s1 s2. mint_claim_elastic sample_C (Signed 5) BSC sample_tx sample_who 500 sample_claims = (Inr (), s1) \<and>
     claim_elastic sample_C NoneOrigin BSC 6 sample_tx sample_sig s1 = (Inr (), s2) \<and> elastic_claim_limits s1 BSC = 503"
proof -
  let ?r = "mint_claim_elastic sample_C (Signed 5) BSC sample_tx sample_who 500 sample_claims"
  have "isl (fst ?r) = False" by code_simp
  then have r: "?r = (Inr (), snd ?r)" by (cases ?r; cases "fst ?r") auto
  have "fst (bridge_fees sample_claims BSC) = 3" "elastic_claim_limits sample_claims BSC = 1000" by code_simp+
  with minted_claim_can_be_claimed [OF r sample_signer] r show ?thesis by auto
qed

theorem signed_message_determines_claim_witness:
  "ethereum_signable_message sample_C (to_ascii_hex (C_encode_account sample_C 6)) (to_ascii_hex (replicate 32 1)) \<noteq>
   ethereum_signable_message sample_C (to_ascii_hex (C_encode_account sample_C (6 + 256))) (to_ascii_hex (replicate 32 1))"
proof -
  let ?tx = "EthereumTxHash (replicate 32 1)"
  have "account_codec (C_encode_account sample_C) (\<lambda>bs. le_value (rev bs))"
    by (auto simp: account_codec_def sample_C_def length_le_bytes intro!: le_value_bytes)
  from signed_message_determines_claim [OF this, of 6 "6 + 256" ?tx ?tx, OF _ _ _ _ refl] show ?thesis by simp
qed

theorem address_roundtrip_witness:
  "deserialize_address from_ascii_hex (serialize_address to_ascii_hex sample_who) = Inr sample_who"
  by (rule address_roundtrip [OF from_to_ascii_hex length_to_ascii_hex]) (simp add: sample_who_def)

end
