(* ===== verification/Bridge_Spec.thy ===== *)
theory Bridge_Spec
  imports Claims
begin

section \<open>The bridge as a specification\<close>

text \<open>
  What the pallet of \<^verbatim>\<open>Claims\<close> promises, without its storage layout, errors, events and order of
  checks: books in which a transaction of the other chain is unseen, open or settled, and for every call a
  step that says who may make it and when, what the books become and which money moves. The pallet refines
  it: a call succeeds exactly if its step is possible and the movements of the step can be made; then the
  books are those of the step, and all that happens to the rest of the chain are these movements. A call that
  fails does nothing.
\<close>

datatype claim_status = Unseen | Open EthereumAddress Balance | Settled Balance

record books =
  bk_claim :: "BridgeNetworks \<Rightarrow> EthereumTxHash \<Rightarrow> claim_status"
  bk_limit :: "BridgeNetworks \<Rightarrow> Balance"
  bk_fees :: "BridgeNetworks \<Rightarrow> Balance \<times> Balance"
  bk_operator :: "BridgeNetworks \<Rightarrow> AccountId option"

text \<open>Money is taken from an account, which can fail, or given to one.\<close>

datatype movement = Take AccountId Balance | Give AccountId Balance

definition record_claim ::
  "BridgeNetworks \<Rightarrow> EthereumTxHash \<Rightarrow> claim_status \<Rightarrow> Balance \<Rightarrow> books \<Rightarrow> books" where
  "record_claim n tx c issued b =
     b\<lparr>bk_claim := (bk_claim b)(n := (bk_claim b n)(tx := c)),
       bk_limit := (bk_limit b)(n := bk_limit b n - issued)\<rparr>"

definition toll :: "AccountId \<Rightarrow> Balance \<Rightarrow> movement list" where
  "toll bridge fee = (if fee = 0 then [] else [Give bridge fee])"

text \<open>A gross amount within the limit that leaves something after the fee.\<close>

definition issuable :: "BridgeNetworks \<Rightarrow> EthereumTxHash \<Rightarrow> Balance \<Rightarrow> books \<Rightarrow> bool" where
  "issuable n tx gross b \<longleftrightarrow>
     bk_claim b n tx = Unseen \<and> gross \<le> bk_limit b n \<and>
     (fst (bk_fees b n) = 0 \<or> fst (bk_fees b n) < gross)"

text \<open>The step of a call. \<open>bridge\<close> is the account of the bridge and \<open>signer dest tx sig\<close> is the address whose
  owner has signed, with \<open>sig\<close>, for \<open>tx\<close> to go to \<open>dest\<close>.\<close>

inductive bridge_step ::
  "AccountId \<Rightarrow> (AccountId \<Rightarrow> EthereumTxHash \<Rightarrow> EcdsaSignature \<Rightarrow> EthereumAddress option) \<Rightarrow>
     origin \<Rightarrow> claims_call \<Rightarrow> books \<Rightarrow> movement list \<Rightarrow> books \<Rightarrow> bool"
  for bridge signer where
  appoint: "bridge_step bridge signer Root (CallSetBridgeAccount n a) b []
    (b\<lparr>bk_operator := (bk_operator b)(n := Some a)\<rparr>)"
| limit: "bridge_step bridge signer Root (CallSetClaimLimit n l) b [] (b\<lparr>bk_limit := (bk_limit b)(n := l)\<rparr>)"
| fees: "bridge_step bridge signer Root (CallSetBridgeFee n m f) b [] (b\<lparr>bk_fees := (bk_fees b)(n := (m, f))\<rparr>)"
| mint: "bk_operator b n = Some op \<Longrightarrow> issuable n tx gross b \<Longrightarrow> fee = fst (bk_fees b n) \<Longrightarrow>
    bridge_step bridge signer (Signed op) (CallMintClaim n tx who gross) b (toll bridge fee)
      (record_claim n tx (Open who (gross - fee)) (gross - fee) b)"
| send: "bk_operator b n = Some op \<Longrightarrow> issuable n tx gross b \<Longrightarrow> fee = fst (bk_fees b n) \<Longrightarrow>
    bridge_step bridge signer (Signed op) (CallMintAndSendClaim n tx dest gross) b
      (Give dest (gross - fee) # toll bridge fee)
      (record_claim n tx (Settled (gross - fee)) (gross - fee) b)"
| claim: "bk_claim b n tx = Open who x \<Longrightarrow> signer dest tx sig = Some who \<Longrightarrow>
    bridge_step bridge signer NoneOrigin (CallClaim n dest tx sig) b [Give dest x] (record_claim n tx (Settled x) 0 b)"
| burn: "fee = snd (bk_fees b n) \<Longrightarrow> fee = 0 \<or> fee < gross \<Longrightarrow>
    bridge_step bridge signer (Signed who) (CallBurn n dest gross) b (Take who gross # toll bridge fee) b"

inductive_simps bridge_step_simps:
  "bridge_step bridge signer o1 (CallSetBridgeAccount n a) b ms b'"
  "bridge_step bridge signer o1 (CallSetClaimLimit n l) b ms b'"
  "bridge_step bridge signer o1 (CallSetBridgeFee n m f) b ms b'"
  "bridge_step bridge signer o1 (CallMintClaim n tx who gross) b ms b'"
  "bridge_step bridge signer o1 (CallMintAndSendClaim n tx dest gross) b ms b'"
  "bridge_step bridge signer o1 (CallClaim n dest tx sig) b ms b'"
  "bridge_step bridge signer o1 (CallBurn n eth gross) b ms b'"

text \<open>What the books promise. A settled transaction stays settled and an open one keeps its owner and amount
  until it is settled; without an operator and without \<^const>\<open>Root\<close> nothing is recorded or released but an
  open claim to someone entitled.\<close>

lemma settled_stays:
  assumes "bridge_step bridge signer o1 c b ms b'" and "bk_claim b n tx = Settled x"
  shows "bk_claim b' n tx = Settled x"
  using assms by (cases rule: bridge_step.cases) (auto simp: record_claim_def issuable_def)

lemma open_stays:
  assumes "bridge_step bridge signer o1 c b ms b'" and "bk_claim b n tx = Open who x"
  shows "bk_claim b' n tx = Open who x \<or>
    bk_claim b' n tx = Settled x \<and>
      (\<exists>dest sig. c = CallClaim n dest tx sig \<and> signer dest tx sig = Some who \<and> ms = [Give dest x])"
  using assms by (cases rule: bridge_step.cases) (auto simp: record_claim_def issuable_def)

lemma limit_pays_for_claims:
  assumes "bridge_step bridge signer o1 c b ms b'" and "o1 \<noteq> Root" and "bk_claim b' n tx \<noteq> bk_claim b n tx"
    and "bk_claim b n tx = Unseen"
  shows "\<exists>x. (bk_claim b' n tx = Settled x \<or> (\<exists>who. bk_claim b' n tx = Open who x)) \<and>
    x \<le> bk_limit b n \<and> bk_limit b' n = bk_limit b n - x"
  using assms by (cases rule: bridge_step.cases) (auto simp: record_claim_def issuable_def split: if_splits)

text \<open>A call has at most one step.\<close>

lemma step_unique:
  assumes "bridge_step bridge signer o1 c b ms b'" and "bridge_step bridge signer o1 c b ms' b''"
  shows "ms' = ms \<and> b'' = b'"
  using assms by (cases c) (auto simp: bridge_step_simps)

subsection \<open>The pallet refines the specification\<close>

fun status_of :: "claim option \<Rightarrow> claim_status" where
  "status_of None = Unseen"
| "status_of (Some (a, x, claimed)) = (if claimed then Settled x else Open a x)"

definition abs_books :: "'w claims_state \<Rightarrow> books" where
  "abs_books s =
     \<lparr>bk_claim = (\<lambda>n tx. status_of (ElasticClaims s n tx)), bk_limit = elastic_claim_limits s,
      bk_fees = bridge_fees s, bk_operator = elastic_bridge_accounts s\<rparr>"

definition give :: "'w currency \<Rightarrow> AccountId \<Rightarrow> Balance \<Rightarrow> 'w \<Rightarrow> 'w" where
  "give C a x w = (case cur_deposit_creating C a x w of (i, w') \<Rightarrow> cur_drop_positive C i w')"

fun move :: "'w currency \<Rightarrow> movement \<Rightarrow> 'w \<Rightarrow> 'w option" where
  "move C (Take a x) w =
     (case cur_withdraw C a x KeepAlive w of
        (Some i, w') \<Rightarrow> Some (cur_drop_negative C i w')
      | (None, w') \<Rightarrow> None)"
| "move C (Give a x) w = Some (give C a x w)"

fun moves :: "'w currency \<Rightarrow> movement list \<Rightarrow> 'w \<Rightarrow> 'w option" where
  "moves C [] w = Some w"
| "moves C (m # ms) w = Option.bind (move C m w) (moves C ms)"

lemma claims_world_mint_into [simp]: "claims_world (mint_into C a x s) = give (C_currency C) a x (claims_world s)"
  by (simp add: mint_into_def give_def split: prod.split)

lemma abs_books_simps [simp]:
  "abs_books (mint_into C a x s) = abs_books s"
  "abs_books (claims_deposit_event e s) = abs_books s"
  "abs_books (s\<lparr>claims_world := w\<rparr>) = abs_books s"
  by (simp_all add: abs_books_def mint_into_def claims_deposit_event_def elastic_claim_limits_def bridge_fees_def
      elastic_bridge_accounts_def fun_eq_iff split: prod.split)

lemma abs_books_sel [simp]:
  "bk_claim (abs_books s) n tx = status_of (ElasticClaims s n tx)"
  "bk_limit (abs_books s) = elastic_claim_limits s"
  "bk_fees (abs_books s) = bridge_fees s"
  "bk_operator (abs_books s) = elastic_bridge_accounts s"
  by (simp_all add: abs_books_def)

lemma status_of_Unseen [simp]: "status_of c = Unseen \<longleftrightarrow> c = None"
  by (cases c rule: status_of.cases) auto

lemma status_of_Open [simp]: "status_of c = Open a x \<longleftrightarrow> c = Some (a, x, False)"
  by (cases c rule: status_of.cases) auto

lemma abs_record:
  "abs_books (s\<lparr>ElasticClaims := (ElasticClaims s)(n := (ElasticClaims s n)(tx \<mapsto> c)),
      ElasticClaimLimits := (ElasticClaimLimits s)(n \<mapsto> elastic_claim_limits s n - x)\<rparr>) =
    record_claim n tx (status_of (Some c)) x (abs_books s)"
  by (rule books.equality) (auto simp: record_claim_def elastic_claim_limits_def bridge_fees_def
      elastic_bridge_accounts_def abs_books_def fun_eq_iff)

lemma abs_settle:
  "abs_books (s\<lparr>ElasticClaims := (ElasticClaims s)(n := (ElasticClaims s n)(tx \<mapsto> c))\<rparr>) =
    record_claim n tx (status_of (Some c)) 0 (abs_books s)"
  by (rule books.equality) (auto simp: record_claim_def elastic_claim_limits_def bridge_fees_def
      elastic_bridge_accounts_def abs_books_def fun_eq_iff)

lemma governance_refines:
  "abs_books (s\<lparr>ElasticBridgeAccounts := (ElasticBridgeAccounts s)(n \<mapsto> Some a)\<rparr>) =
    (abs_books s)\<lparr>bk_operator := (bk_operator (abs_books s))(n := Some a)\<rparr>"
  "abs_books (s\<lparr>ElasticClaimLimits := (ElasticClaimLimits s)(n \<mapsto> l)\<rparr>) =
    (abs_books s)\<lparr>bk_limit := (bk_limit (abs_books s))(n := l)\<rparr>"
  "abs_books (s\<lparr>BridgeFees := (BridgeFees s)(n \<mapsto> (m, f))\<rparr>) =
    (abs_books s)\<lparr>bk_fees := (bk_fees (abs_books s))(n := (m, f))\<rparr>"
  by (rule books.equality; auto simp: elastic_claim_limits_def bridge_fees_def
      elastic_bridge_accounts_def abs_books_def fun_eq_iff)+

text \<open>Each operation on success.\<close>

lemma do_mint_claim_refines:
  assumes "do_mint_claim C op n tx who gross s = (Inr x, s')"
  shows "elastic_bridge_accounts s n = Some op \<and> issuable n tx gross (abs_books s) \<and>
    x = gross - fst (bridge_fees s n) \<and> abs_books s' = record_claim n tx (Open who x) x (abs_books s) \<and>
    moves (C_currency C) (toll (C_account_id C) (fst (bridge_fees s n))) (claims_world s) = Some (claims_world s')"
proof -
  note upd = abs_record [where s = s and n = n and tx = tx and c = "(who, x, False)" and x = x]
  show ?thesis
    using assms upd
    by (cases "ElasticClaims s n tx") (auto simp: do_mint_claim_def Let_def issuable_def toll_def elastic_claim_limits_def split: if_splits)
qed

lemma do_mint_and_send_claim_refines:
  assumes "do_mint_and_send_claim C op n tx dest gross s = (Inr x, s')"
  shows "elastic_bridge_accounts s n = Some op \<and> issuable n tx gross (abs_books s) \<and>
    x = gross - fst (bridge_fees s n) \<and> abs_books s' = record_claim n tx (Settled x) x (abs_books s) \<and>
    moves (C_currency C) (Give dest x # toll (C_account_id C) (fst (bridge_fees s n))) (claims_world s) =
      Some (claims_world s')"
proof -
  note upd = abs_record [where s = "mint_into C dest x s" and n = n and tx = tx and c = "(zero_address, x, True)" and x = x]
  show ?thesis
    using assms upd
    by (cases "ElasticClaims s n tx") (auto simp: do_mint_and_send_claim_def Let_def issuable_def toll_def elastic_claim_limits_def
        split: if_splits)
qed

lemma do_burn_refines:
  assumes "do_burn C who n gross s = (Inr x, s')"
  shows "abs_books s' = abs_books s \<and> (snd (bridge_fees s n) = 0 \<or> snd (bridge_fees s n) < gross) \<and>
    moves (C_currency C) (Take who gross # toll (C_account_id C) (snd (bridge_fees s n))) (claims_world s) =
      Some (claims_world s')"
  using assms
  by (auto simp: do_burn_def Let_def toll_def split: if_splits prod.splits option.splits)

lemma do_claim_refines:
  assumes "do_claim C n dest tx sig s = (Inr (a, x), s')"
  shows "bk_claim (abs_books s) n tx = Open a x \<and> claim_signer C dest tx sig = Some a \<and>
    abs_books s' = record_claim n tx (Settled x) 0 (abs_books s) \<and>
    moves (C_currency C) [Give dest x] (claims_world s) = Some (claims_world s')"
  using assms abs_settle [of "mint_into C dest x s" n tx "(a, x, True)"]
  by (auto simp: do_claim_spec)

text \<open>A call that succeeds is its step.\<close>

lemma dispatch_refines:
  assumes "claims_dispatch C o1 c s = (Inr u, s')"
  shows "\<exists>ms. bridge_step (C_account_id C) (claim_signer C) o1 c (abs_books s) ms (abs_books s') \<and>
    moves (C_currency C) ms (claims_world s) = Some (claims_world s')"
proof (cases c)
  case (CallMintClaim n tx who v)
  with assms obtain op x s1 where "o1 = Signed op" "do_mint_claim C op n tx who v s = (Inr x, s1)"
    "s' = claims_deposit_event (ElasticMintSuccess n tx who x) s1"
    by (auto simp: mint_claim_elastic_def transactional_Inr split: option.splits prod.splits sum.splits)
  with do_mint_claim_refines CallMintClaim show ?thesis by (fastforce simp: bridge_step_simps)
next
  case (CallMintAndSendClaim n tx dest v)
  with assms obtain op x s1 where "o1 = Signed op" "do_mint_and_send_claim C op n tx dest v s = (Inr x, s1)"
    "s' = claims_deposit_event (ElasticMintSuccess n tx zero_address x) s1"
    by (auto simp: mint_and_send_claim_elastic_def transactional_Inr split: option.splits prod.splits sum.splits)
  with do_mint_and_send_claim_refines CallMintAndSendClaim show ?thesis by (fastforce simp: bridge_step_simps)
next
  case (CallClaim n dest tx sig)
  with assms obtain a x s1 where "o1 = NoneOrigin" "do_claim C n dest tx sig s = (Inr (a, x), s1)"
    "s' = claims_deposit_event (ElasticClaimed n dest a x) s1"
    by (auto simp: claim_elastic_Inr)
  with do_claim_refines CallClaim show ?thesis by (fastforce simp: bridge_step_simps)
next
  case (CallBurn n dest v)
  with assms obtain who x s1 where "o1 = Signed who" "do_burn C who n v s = (Inr x, s1)"
    "s' = claims_deposit_event (ElasticBurned n who dest x) s1"
    by (auto simp: burn_elastic_def transactional_Inr split: option.splits prod.splits sum.splits)
  with do_burn_refines CallBurn show ?thesis by (fastforce simp: bridge_step_simps)
next
  case (CallSetBridgeAccount n a)
  with assms show ?thesis
    by (auto simp: set_bridge_account_elastic_def governance_refines bridge_step_simps split: if_splits)
next
  case (CallSetClaimLimit n l)
  with assms show ?thesis
    by (auto simp: set_claim_limit_elastic_def governance_refines bridge_step_simps split: if_splits)
next
  case (CallSetBridgeFee n m f)
  with assms show ?thesis
    by (auto simp: set_bridge_fee_elastic_def governance_refines bridge_step_simps split: if_splits)
qed

text \<open>A call that fails has no step, or the money of its step cannot be moved.\<close>

lemma dispatch_fails:
  assumes "claims_dispatch C o1 c s = (Inl e, s')"
    and "bridge_step (C_account_id C) (claim_signer C) o1 c (abs_books s) ms b'"
  shows "moves (C_currency C) ms (claims_world s) = None"
proof (cases c)
  case (CallBurn n dest v)
  with assms show ?thesis
    by (auto simp: burn_elastic_def transactional_Inl do_burn_def bridge_step_simps Let_def
        split: prod.splits sum.splits option.splits if_splits)
next
  case (CallClaim n dest tx sig)
  with assms show ?thesis
    by (auto simp: claim_elastic_def transactional_Inl do_claim_def bridge_step_simps Let_def
        split: prod.splits sum.splits option.splits if_splits)
qed (use assms in \<open>auto simp: mint_claim_elastic_def mint_and_send_claim_elastic_def transactional_Inl do_mint_claim_def
    do_mint_and_send_claim_def set_bridge_account_elastic_def set_claim_limit_elastic_def set_bridge_fee_elastic_def
    bridge_step_simps issuable_def Let_def split: prod.splits sum.splits option.splits if_splits\<close>)

text \<open>C19. The pallet refines the specification of a bridge, call by call. A dispatched call returns an error
  exactly if the specification has no step for it (for this origin, these arguments and these books) or the
  movements of its step cannot be made, and then leaves the state as it was. Otherwise the books become
  those of its step, and the rest of the chain changes by exactly the movements of the step, in their order.\<close>

theorem claims_refine_bridge:
  "case claims_dispatch C o1 c s of
     (Inl e, s') \<Rightarrow> s' = s \<and>
       (\<nexists>ms b' w'. bridge_step (C_account_id C) (claim_signer C) o1 c (abs_books s) ms b' \<and>
          moves (C_currency C) ms (claims_world s) = Some w')
   | (Inr u, s') \<Rightarrow>
       \<exists>ms. bridge_step (C_account_id C) (claim_signer C) o1 c (abs_books s) ms (abs_books s') \<and>
         moves (C_currency C) ms (claims_world s) = Some (claims_world s')"
proof (cases "claims_dispatch C o1 c s")
  case (Pair r s')
  then show ?thesis
    using claims_dispatch_error [of C o1 c s _ s'] dispatch_refines [of C o1 c s _ s'] dispatch_fails [of C o1 c s _ s']
    by (cases r) auto
qed

end
