(* ===== verification/Evm_Accounts.thy ===== *)
theory Evm_Accounts
  imports Claims
begin

section \<open>EVM accounts: the mapping of addresses (\<^verbatim>\<open>modules/evm-accounts\<close>)\<close>

text \<open>
  An account of the chain can claim an address of the EVM by a signature with the key of the
  address. The two maps \<^verbatim>\<open>Accounts\<close> and \<^verbatim>\<open>EvmAddresses\<close> hold the two directions. An address nobody
  has claimed belongs to the account that is the padded address. The balance, nonce and reference
  counters of accounts are those of other pallets: the record \<open>evm_accounts_config\<close>. Its operations
  report the accounts they killed, since the system pallet calls this pallet back for each of them.

  The locale \<open>address_mapping\<close> is what the EVM relies on in \<^verbatim>\<open>AddressMapping\<close>; it is interpreted on
  \<^verbatim>\<open>EvmAddressMapping\<close>. The properties: the two maps are inverse to each other in every reachable
  state, no two claimed addresses share an account, a failed claim changes nothing, and after a claim
  the address resolves to the claimant.
\<close>

type_synonym H160 = "byte list"

datatype evm_accounts_error =
    AccountIdHasMapped | EthAddressHasMapped | BadSignature | InvalidSignature
  | NonZeroRefCount | StillHasActiveReserved | MergeFailed | EaBadOrigin

datatype evm_accounts_event = ClaimAccount AccountId H160

record 'w evm_accounts =
  Accounts :: "H160 \<rightharpoonup> AccountId"
  EvmAddresses :: "AccountId \<rightharpoonup> H160"
  ea_events :: "evm_accounts_event list"
  ea_world :: 'w

record 'w evm_accounts_config =
  E_encode_account :: "AccountId \<Rightarrow> byte list"
  E_keccak_256 :: "byte list \<Rightarrow> byte list"
  E_ecdsa_recover :: "byte list \<Rightarrow> byte list \<Rightarrow> byte list option"
  E_into_account_id :: "'w evm_accounts \<Rightarrow> H160 \<Rightarrow> AccountId"
  E_account_exists :: "'w \<Rightarrow> AccountId \<Rightarrow> bool"
  E_account_nonce :: "'w \<Rightarrow> AccountId \<Rightarrow> nat"
  E_set_nonce :: "AccountId \<Rightarrow> nat \<Rightarrow> 'w \<Rightarrow> 'w"
  E_merge_account :: "AccountId \<Rightarrow> AccountId \<Rightarrow> 'w \<Rightarrow> bool \<times> AccountId list \<times> 'w"
  E_killed :: "AccountId \<Rightarrow> 'w \<Rightarrow> AccountId list \<times> 'w"

subsection \<open>Messages\<close>

fun evm_to_ascii_hex :: "byte list \<Rightarrow> byte list" where
  "evm_to_ascii_hex [] = []"
| "evm_to_ascii_hex (b # bs) = nibble (b div 16) # nibble (b mod 16) # evm_to_ascii_hex bs"

text \<open>The bytes of \<^verbatim>\<open>glitch evm:\<close>.\<close>

definition evm_prefix :: "byte list" where
  "evm_prefix = [103, 108, 105, 116, 99, 104, 32, 101, 118, 109, 58]"

definition evm_signable_message :: "byte list \<Rightarrow> byte list \<Rightarrow> byte list" where
  "evm_signable_message what extra =
     message_header @ rev (rev_digits (length evm_prefix + length what + length extra))
       @ evm_prefix @ what @ extra"

definition evm_eth_recover ::
  "'w evm_accounts_config \<Rightarrow> byte list \<Rightarrow> byte list \<Rightarrow> byte list \<Rightarrow> H160 option" where
  "evm_eth_recover E sig what extra =
     (let msg = E_keccak_256 E (evm_signable_message what extra)
      in case E_ecdsa_recover E sig msg of
           None \<Rightarrow> None
         | Some key \<Rightarrow> Some (drop 12 (E_keccak_256 E key)))"

text \<open>The helpers that sign with a secret key \<open>secret\<close>. The curve is library code: \<open>public\<close> serialises the public
  key of a secret one, in 65 bytes, \<open>sign\<close> gives the 64 bytes of a signature of a digest and the byte from
  which the key is recovered.\<close>

definition evm_eth_address :: "'w evm_accounts_config \<Rightarrow> ('k \<Rightarrow> byte list) \<Rightarrow> 'k \<Rightarrow> H160" where
  "evm_eth_address E public secret = drop 12 (E_keccak_256 E (take 64 (drop 1 (public secret))))"

definition evm_eth_sign ::
  "'w evm_accounts_config \<Rightarrow> (byte list \<Rightarrow> 'k \<Rightarrow> byte list \<times> byte) \<Rightarrow> 'k \<Rightarrow> byte list \<Rightarrow> byte list \<Rightarrow>
     byte list option" where
  "evm_eth_sign E sign secret what extra =
     (let msg = E_keccak_256 E (evm_signable_message (evm_to_ascii_hex what) extra)
      in case sign msg secret of
           (sig, recovery_id) \<Rightarrow> if length sig = 64 then Some (sig @ [recovery_id]) else None)"

text \<open>What recovering and signing promise each other; then the address recovered from a signature is that
  of the key, for the message as \<open>claim_account\<close> forms it.\<close>

definition recovers_signer ::
  "'w evm_accounts_config \<Rightarrow> ('k \<Rightarrow> byte list) \<Rightarrow> (byte list \<Rightarrow> 'k \<Rightarrow> byte list \<times> byte) \<Rightarrow> bool" where
  "recovers_signer E public sign \<longleftrightarrow>
     (\<forall>msg secret. E_ecdsa_recover E (fst (sign msg secret) @ [snd (sign msg secret)]) msg =
        Some (take 64 (drop 1 (public secret))))"

lemma eth_sign_recover:
  assumes "recovers_signer E public sign" and "evm_eth_sign E sign secret what extra = Some signature"
  shows "evm_eth_recover E signature (evm_to_ascii_hex what) extra = Some (evm_eth_address E public secret)"
proof -
  define msg where "msg = E_keccak_256 E (evm_signable_message (evm_to_ascii_hex what) extra)"
  have "signature = fst (sign msg secret) @ [snd (sign msg secret)]"
    using assms(2) by (auto simp: evm_eth_sign_def msg_def Let_def split: prod.splits if_splits)
  with assms(1) have "E_ecdsa_recover E signature msg = Some (take 64 (drop 1 (public secret)))"
    by (simp add: recovers_signer_def)
  then show ?thesis by (simp add: evm_eth_recover_def evm_eth_address_def msg_def Let_def)
qed

subsection \<open>The mapping\<close>

text \<open>The bytes of \<^verbatim>\<open>evm:\<close>, the address and zeros; \<open>of32\<close> makes an account of 32 bytes.\<close>

definition padded_account :: "H160 \<Rightarrow> byte list" where
  "padded_account address = [101, 118, 109, 58] @ address @ replicate 8 0"

definition into_account_id :: "(byte list \<Rightarrow> AccountId) \<Rightarrow> 'w evm_accounts \<Rightarrow> H160 \<Rightarrow> AccountId" where
  "into_account_id of32 s address =
     (case Accounts s address of Some acc \<Rightarrow> acc | None \<Rightarrow> of32 (padded_account address))"

definition ea_on_killed_account :: "AccountId \<Rightarrow> 'w evm_accounts \<Rightarrow> 'w evm_accounts" where
  "ea_on_killed_account who s =
     (case EvmAddresses s who of
        Some evm_addr \<Rightarrow> s\<lparr>Accounts := (Accounts s)(evm_addr := None),
                           EvmAddresses := (EvmAddresses s)(who := None)\<rparr>
      | None \<Rightarrow> s)"

text \<open>The system pallet's callbacks for a list of killed accounts.\<close>

definition killed_callbacks :: "AccountId list \<Rightarrow> 'w evm_accounts \<Rightarrow> 'w evm_accounts" where
  "killed_callbacks whos s = foldl (\<lambda>st who. ea_on_killed_account who st) s whos"

definition with_transaction_result ::
  "('e + 'a) \<times> 'w evm_accounts \<Rightarrow> 'w evm_accounts \<Rightarrow> ('e + 'a) \<times> 'w evm_accounts" where
  "with_transaction_result r s = (case r of (Inl e, _) \<Rightarrow> (Inl e, s) | (Inr x, s') \<Rightarrow> (Inr x, s'))"

text \<open>The padded account is emptied into the claimant and killed; its nonce, read after the merge, is
  handed on if it is greater.\<close>

definition merge_padded ::
  "'w evm_accounts_config \<Rightarrow> AccountId \<Rightarrow> AccountId \<Rightarrow> 'w evm_accounts \<Rightarrow>
     (evm_accounts_error + nat) \<times> 'w evm_accounts" where
  "merge_padded E account_id who s =
     (if E_account_exists E (ea_world s) account_id
      then (case E_merge_account E account_id who (ea_world s) of
              (False, killed, w) \<Rightarrow> (Inl MergeFailed, s)
            | (True, killed, w) \<Rightarrow>
                (let s1 = killed_callbacks killed (s\<lparr>ea_world := w\<rparr>);
                     nonce = E_account_nonce E (ea_world s1) account_id
                 in case E_killed E account_id (ea_world s1) of
                      (killed', w') \<Rightarrow> (Inr nonce, killed_callbacks killed' (s1\<lparr>ea_world := w'\<rparr>))))
      else (Inr 0, s))"

definition claim_account_body ::
  "'w evm_accounts_config \<Rightarrow> AccountId \<Rightarrow> H160 \<Rightarrow> byte list \<Rightarrow> 'w evm_accounts \<Rightarrow>
     (evm_accounts_error + unit) \<times> 'w evm_accounts" where
  "claim_account_body E who eth_address eth_signature s =
     (case evm_eth_recover E eth_signature (evm_to_ascii_hex (E_encode_account E who)) [] of
        None \<Rightarrow> (Inl BadSignature, s)
      | Some address \<Rightarrow>
          if eth_address \<noteq> address then (Inl InvalidSignature, s)
          else
            (case merge_padded E (E_into_account_id E s eth_address) who s of
               (Inl e, s1) \<Rightarrow> (Inl e, s1)
             | (Inr nonce, s1) \<Rightarrow>
                 (let origin_nonce = E_account_nonce E (ea_world s1) who;
                      s2 = (if origin_nonce < nonce
                            then s1\<lparr>ea_world := E_set_nonce E who nonce (ea_world s1)\<rparr> else s1);
                      s3 = (case EvmAddresses s2 who of
                              Some evm_addr \<Rightarrow> s2\<lparr>Accounts := (Accounts s2)(evm_addr := None)\<rparr>
                            | None \<Rightarrow> s2);
                      s4 = s3\<lparr>Accounts := (Accounts s3)(eth_address \<mapsto> who),
                              EvmAddresses := (EvmAddresses s3)(who \<mapsto> eth_address),
                              ea_events := ea_events s3 @ [ClaimAccount who eth_address]\<rparr>
                  in (Inr (), s4))))"

definition claim_account ::
  "'w evm_accounts_config \<Rightarrow> origin \<Rightarrow> H160 \<Rightarrow> byte list \<Rightarrow> 'w evm_accounts \<Rightarrow>
     (evm_accounts_error + unit) \<times> 'w evm_accounts" where
  "claim_account E o1 eth_address eth_signature s =
     (case ensure_signed o1 of
        None \<Rightarrow> (Inl EaBadOrigin, s)
      | Some who \<Rightarrow>
          if EvmAddresses s who \<noteq> None then (Inl AccountIdHasMapped, s)
          else if Accounts s eth_address \<noteq> None then (Inl EthAddressHasMapped, s)
          else with_transaction_result (claim_account_body E who eth_address eth_signature s) s)"

subsection \<open>Merging balances (\<^verbatim>\<open>runtime/src/impls.rs\<close>)\<close>

text \<open>\<open>unreserve\<close>, \<open>reserved_balance\<close> and \<open>transfer\<close> are those of the balances pallet.\<close>

definition MergeAccountEvm ::
  "(AccountId \<Rightarrow> Balance \<Rightarrow> 'w \<Rightarrow> 'w) \<Rightarrow> ('w \<Rightarrow> AccountId \<Rightarrow> Balance) \<Rightarrow> ('w \<Rightarrow> AccountId \<Rightarrow> Balance) \<Rightarrow>
     (AccountId \<Rightarrow> AccountId \<Rightarrow> Balance \<Rightarrow> 'w \<Rightarrow> bool \<times> AccountId list \<times> 'w) \<Rightarrow>
     AccountId \<Rightarrow> AccountId \<Rightarrow> 'w \<Rightarrow> bool \<times> AccountId list \<times> 'w" where
  "MergeAccountEvm unreserve reserved_balance free_balance transfer source dest w =
     (let w1 = unreserve source (reserved_balance w source) w
      in case transfer source dest (free_balance w1 source) w1 of
           (True, killed, w2) \<Rightarrow> (True, killed, w2)
         | (False, killed, w2) \<Rightarrow> (False, [], w))"

text \<open>\<^verbatim>\<open>MergeAccount\<close> for a tuple: one merger after the other up to the first error, in a transaction
  of storage, so that all of them take effect or none.\<close>

type_synonym 'w merger = "AccountId \<Rightarrow> AccountId \<Rightarrow> 'w \<Rightarrow> bool \<times> 'w"

fun merge_each :: "'w merger list \<Rightarrow> 'w merger" where
  "merge_each [] source dest w = (True, w)"
| "merge_each (m # ms) source dest w =
     (case m source dest w of (True, w') \<Rightarrow> merge_each ms source dest w' | (False, w') \<Rightarrow> (False, w'))"

definition merge_tuple :: "'w merger list \<Rightarrow> 'w merger" where
  "merge_tuple ms source dest w =
     (case merge_each ms source dest w of (True, w') \<Rightarrow> (True, w') | (False, _) \<Rightarrow> (False, w))"

lemma merge_tuple_all_or_nothing:
  "merge_tuple ms source dest w = (False, w) \<or>
   (\<exists>w'. merge_tuple ms source dest w = (True, w') \<and> w' = fold (\<lambda>m v. snd (m source dest v)) ms w)"
proof -
  have "fst (merge_each ms source dest w) \<Longrightarrow>
      snd (merge_each ms source dest w) = fold (\<lambda>m v. snd (m source dest v)) ms w"
    by (induction ms arbitrary: w) (auto split: prod.splits bool.splits)
  then show ?thesis by (auto simp: merge_tuple_def split: prod.splits bool.splits)
qed

subsection \<open>The interface of the mapping\<close>

text \<open>What the EVM relies on: an address always has an account, and two addresses that were claimed,
  or that are both unclaimed, have different accounts.\<close>

locale address_mapping =
  fixes account_of :: "'s \<Rightarrow> 'addr \<Rightarrow> 'acc"
    and claimed :: "'s \<Rightarrow> 'addr \<Rightarrow> bool"
    and invar :: "'s \<Rightarrow> bool"
    and wf_addr :: "'addr \<Rightarrow> bool"
  assumes account_of_inj: "invar s \<Longrightarrow> wf_addr a \<Longrightarrow> wf_addr b \<Longrightarrow> claimed s a = claimed s b \<Longrightarrow>
    account_of s a = account_of s b \<Longrightarrow> a = b"
begin

text \<open>An account stands for at most two addresses: one that was claimed and one that was not.\<close>

lemma at_most_two:
  assumes "invar s" and "wf_addr a" and "wf_addr b" and "wf_addr c"
    and "account_of s a = x" and "account_of s b = x" and "account_of s c = x"
  shows "a = b \<or> b = c \<or> a = c"
  using account_of_inj [OF assms(1)] assms(2-) by (cases "claimed s a"; cases "claimed s b"; cases "claimed s c") metis+

end

subsection \<open>The invariant\<close>

text \<open>The two maps are inverse to each other.\<close>

definition two_way :: "'w evm_accounts \<Rightarrow> bool" where
  "two_way s \<longleftrightarrow> (\<forall>a who. Accounts s a = Some who \<longleftrightarrow> EvmAddresses s who = Some a)"

lemma two_way_killed [step_intros]: "two_way s \<Longrightarrow> two_way (ea_on_killed_account who s)"
  unfolding two_way_def ea_on_killed_account_def by (auto split: option.split) (metis option.inject)

lemma two_way_callbacks [step_intros]: "two_way s \<Longrightarrow> two_way (killed_callbacks whos s)"
  unfolding killed_callbacks_def by (induction whos arbitrary: s) (simp_all add: two_way_killed)

lemma two_way_world [step_intros]: "two_way s \<Longrightarrow> two_way (s\<lparr>ea_world := w\<rparr>)"
  by (simp add: two_way_def)

text \<open>The callbacks only forget.\<close>

definition forgets :: "'w evm_accounts \<Rightarrow> 'w evm_accounts \<Rightarrow> bool" where
  "forgets s s' \<longleftrightarrow> (\<forall>a who. Accounts s' a = Some who \<longrightarrow> Accounts s a = Some who) \<and>
     (\<forall>who a. EvmAddresses s' who = Some a \<longrightarrow> EvmAddresses s who = Some a)"

lemma forgets_refl [simp]: "forgets s s"
  by (simp add: forgets_def)

lemma forgets_trans: "forgets s s1 \<Longrightarrow> forgets s1 s2 \<Longrightarrow> forgets s s2"
  unfolding forgets_def by blast

lemma forgets_world [simp]: "forgets s (s1\<lparr>ea_world := w\<rparr>) \<longleftrightarrow> forgets s s1"
  by (simp add: forgets_def)

lemma forgets_callbacks: "forgets s (killed_callbacks whos s)"
proof -
  have "forgets s (ea_on_killed_account who s)" for who and s :: "'a evm_accounts"
    by (auto simp: ea_on_killed_account_def forgets_def split: option.split if_splits)
  then show ?thesis
    unfolding killed_callbacks_def by (induction whos arbitrary: s) (auto intro: forgets_trans)
qed

lemma merge_padded_maps:
  assumes "two_way s" and "merge_padded E x who s = (r, s')"
  shows "two_way s' \<and> forgets s s'"
proof (cases "E_account_exists E (ea_world s) x")
  case False
  with assms show ?thesis by (simp add: merge_padded_def)
next
  case True
  obtain ok killed w where m: "E_merge_account E x who (ea_world s) = (ok, killed, w)" using prod_cases3 by blast
  let ?s1 = "killed_callbacks killed (s\<lparr>ea_world := w\<rparr>)"
  obtain killed' w' where k: "E_killed E x (ea_world ?s1) = (killed', w')" by fastforce
  have 1: "two_way ?s1" "forgets s ?s1"
    using assms(1) forgets_callbacks [of "s\<lparr>ea_world := w\<rparr>" killed]
    by (simp_all add: step_intros forgets_def)
  have "two_way (killed_callbacks killed' (?s1\<lparr>ea_world := w'\<rparr>))"
    "forgets s (killed_callbacks killed' (?s1\<lparr>ea_world := w'\<rparr>))"
    using 1 forgets_trans [OF _ forgets_callbacks, of s "?s1\<lparr>ea_world := w'\<rparr>"] by (simp_all add: step_intros)
  with True m k assms show ?thesis by (cases ok) (auto simp: merge_padded_def Let_def)
qed

lemma two_way_claim:
  assumes "two_way s" and "EvmAddresses s who = None" and "Accounts s a = None"
  shows "two_way (s\<lparr>Accounts := (Accounts s)(a \<mapsto> who), EvmAddresses := (EvmAddresses s)(who \<mapsto> a),
    ea_events := es\<rparr>)"
proof -
  have 1: "Accounts s b = Some x \<longleftrightarrow> EvmAddresses s x = Some b" for b x
    using assms(1) by (simp add: two_way_def)
  have "Accounts s b \<noteq> Some who" "EvmAddresses s x \<noteq> Some a" for b x
    using 1 [of b who] 1 [of a x] assms(2,3) by simp_all
  with 1 show ?thesis by (auto simp: two_way_def)
qed

lemma claim_account_spec:
  assumes "two_way s" and "claim_account E (Signed who) a sig s = (Inr u, s')"
  shows "EvmAddresses s who = None \<and> Accounts s a = None \<and> two_way s' \<and> Accounts s' a = Some who \<and>
    evm_eth_recover E sig (evm_to_ascii_hex (E_encode_account E who)) [] = Some a \<and>
    (\<forall>b. b \<noteq> a \<longrightarrow> (\<forall>x. Accounts s' b = Some x \<longrightarrow> Accounts s b = Some x))"
proof -
  have free: "EvmAddresses s who = None" "Accounts s a = None"
    and body: "claim_account_body E who a sig s = (Inr (), s')"
    using assms(2) by (auto simp: claim_account_def with_transaction_result_def
        split: if_splits prod.splits sum.splits)
  then obtain nonce s1 where rec: "evm_eth_recover E sig (evm_to_ascii_hex (E_encode_account E who)) [] = Some a"
    and m: "merge_padded E (E_into_account_id E s a) who s = (Inr nonce, s1)"
    by (auto simp: claim_account_body_def split: option.splits if_splits prod.splits sum.splits)
  note inv1 = merge_padded_maps [OF assms(1) m]
  with free have free1: "EvmAddresses s1 who = None" "Accounts s1 a = None"
    unfolding forgets_def by (metis not_None_eq)+
  let ?s2 = "if E_account_nonce E (ea_world s1) who < nonce
    then s1\<lparr>ea_world := E_set_nonce E who nonce (ea_world s1)\<rparr> else s1"
  have 2: "Accounts ?s2 = Accounts s1" "EvmAddresses ?s2 = EvmAddresses s1" "two_way ?s2"
    using inv1 by (simp_all add: two_way_def)
  have s': "s' = ?s2\<lparr>Accounts := (Accounts ?s2)(a \<mapsto> who), EvmAddresses := (EvmAddresses ?s2)(who \<mapsto> a),
      ea_events := ea_events ?s2 @ [ClaimAccount who a]\<rparr>"
    using body rec m free1
    by (cases "E_account_nonce E (ea_world s1) who < nonce") (simp_all add: claim_account_body_def Let_def)
  have "two_way s'" unfolding s' by (rule two_way_claim [OF 2(3)]) (simp_all only: 2 free1)
  moreover have "Accounts s' = (Accounts s1)(a \<mapsto> who)" by (simp add: s')
  ultimately show ?thesis using free rec inv1 by (auto simp: forgets_def)
qed

text \<open>Whoever has the key of an address can claim it for an account, if neither is mapped yet and the
  padded account of the address either does not exist or can be merged.\<close>

lemma key_owner_can_claim:
  assumes "recovers_signer E public sign" and "addr = evm_eth_address E public secret"
    and "evm_eth_sign E sign secret (E_encode_account E who) [] = Some signature"
    and "EvmAddresses s who = None" and "Accounts s addr = None"
    and "E_account_exists E (ea_world s) (E_into_account_id E s addr) \<longrightarrow>
      fst (E_merge_account E (E_into_account_id E s addr) who (ea_world s))"
  shows "\<exists>s'. claim_account E (Signed who) addr signature s = (Inr (), s') \<and> Accounts s' addr = Some who"
proof -
  have "evm_eth_recover E signature (evm_to_ascii_hex (E_encode_account E who)) [] = Some addr"
    using eth_sign_recover [OF assms(1,3)] assms(2) by simp
  moreover have "\<exists>nonce s1. merge_padded E (E_into_account_id E s addr) who s = (Inr nonce, s1)"
    using assms(6) by (auto simp: merge_padded_def Let_def split: prod.split bool.split)
  ultimately show ?thesis
    using assms(4,5)
    by (auto simp: claim_account_def claim_account_body_def with_transaction_result_def Let_def)
qed

lemma claim_account_error: "claim_account E o1 a sig s = (Inl e, s') \<Longrightarrow> s' = s"
  by (auto simp: claim_account_def with_transaction_result_def split: option.splits if_splits prod.splits sum.splits)

lemma two_way_claim_account [step_intros]: "two_way s \<Longrightarrow> two_way (snd (claim_account E o1 a sig s))"
proof -
  assume inv: "two_way s"
  obtain r s' where c: "claim_account E o1 a sig s = (r, s')" by fastforce
  show ?thesis
  proof (cases r)
    case (Inl e)
    with c inv claim_account_error show ?thesis by fastforce
  next
    case (Inr u)
    with c obtain who where "o1 = Signed who" by (cases o1) (auto simp: claim_account_def)
    with claim_account_spec [OF inv] c Inr show ?thesis by auto
  qed
qed

inductive evm_reachable :: "'w evm_accounts_config \<Rightarrow> 'w evm_accounts \<Rightarrow> bool" for E where
  genesis: "evm_reachable E \<lparr>Accounts = Map.empty, EvmAddresses = Map.empty, ea_events = [], ea_world = w\<rparr>"
| claim: "evm_reachable E s \<Longrightarrow> evm_reachable E (snd (claim_account E o1 a sig s))"
| killed: "evm_reachable E s \<Longrightarrow> evm_reachable E (ea_on_killed_account who s)"
| elsewhere: "evm_reachable E s \<Longrightarrow> evm_reachable E (s\<lparr>ea_world := w\<rparr>)"

lemma two_way_reachable: "evm_reachable E s \<Longrightarrow> two_way s"
  by (induction rule: evm_reachable.induct) (auto simp: step_intros, simp add: two_way_def)


subsection \<open>The mapping keeps its contract\<close>

definition ea_claimed :: "'w evm_accounts \<Rightarrow> H160 \<Rightarrow> bool" where
  "ea_claimed s a \<longleftrightarrow> Accounts s a \<noteq> None"

text \<open>\<open>of32\<close> is injective on arrays of 32 bytes; an address has 20 bytes.\<close>

definition of32_inj :: "(byte list \<Rightarrow> AccountId) \<Rightarrow> bool" where
  "of32_inj of32 \<longleftrightarrow> inj_on of32 {bs. length bs = 32}"

interpretation em: address_mapping "into_account_id of32" ea_claimed "\<lambda>s. two_way s \<and> of32_inj of32" "\<lambda>a. length a = 20"
  for of32 :: "byte list \<Rightarrow> AccountId"
proof
  fix s :: "'a evm_accounts" and a b
  assume inv: "two_way s \<and> of32_inj of32" and len: "length a = 20" "length b = 20"
    and cl: "ea_claimed s a = ea_claimed s b" and eq: "into_account_id of32 s a = into_account_id of32 s b"
  show "a = b"
  proof (cases "Accounts s a")
    case None
    with cl have "Accounts s b = None" by (simp add: ea_claimed_def)
    with None eq have "of32 (padded_account a) = of32 (padded_account b)" by (simp add: into_account_id_def)
    with inv len have "padded_account a = padded_account b"
      by (auto simp: of32_inj_def padded_account_def dest!: inj_onD)
    with len show ?thesis by (simp add: padded_account_def)
  next
    case (Some x)
    with cl obtain y where y: "Accounts s b = Some y" by (auto simp: ea_claimed_def)
    with Some eq have "x = y" by (simp add: into_account_id_def)
    with inv Some y show ?thesis unfolding two_way_def by (metis option.inject)
  qed
qed

subsection \<open>Properties\<close>

text \<open>C25. In every state reachable by claims and by accounts that die, the two maps are inverse to
  each other: an address is mapped to an account exactly if the account is mapped to the address. Any
  three addresses that resolve to one account are not distinct: an account stands for the address it
  claimed and, if it is a padded address, for that one.\<close>

theorem evm_accounts_two_way:
  assumes "evm_reachable E s"
  shows "(\<forall>a who. Accounts s a = Some who \<longleftrightarrow> EvmAddresses s who = Some a) \<and>
    (of32_inj of32 \<longrightarrow> (\<forall>a b c. length a = 20 \<longrightarrow> length b = 20 \<longrightarrow> length c = 20 \<longrightarrow>
       into_account_id of32 s a = into_account_id of32 s b \<longrightarrow>
       into_account_id of32 s b = into_account_id of32 s c \<longrightarrow> a = b \<or> b = c \<or> a = c))"
  using two_way_reachable [OF assms] em.at_most_two [of s of32]
  by (simp add: two_way_def)

text \<open>A claim succeeds only for an account and an address that are both unmapped and a signature
  of the account's message that recovers the address; then the address resolves to the account, and no
  other address gains an account.\<close>

theorem claim_account_maps:
  assumes "evm_reachable E s" and "claim_account E (Signed who) a sig s = (Inr u, s')"
  shows "EvmAddresses s who = None \<and> Accounts s a = None \<and>
    evm_eth_recover E sig (evm_to_ascii_hex (E_encode_account E who)) [] = Some a \<and>
    into_account_id of32 s' a = who \<and> EvmAddresses s' who = Some a \<and>
    (\<forall>b x. b \<noteq> a \<and> Accounts s' b = Some x \<longrightarrow> Accounts s b = Some x)"
  using claim_account_spec [OF two_way_reachable [OF assms(1)] assms(2)]
  by (auto simp: into_account_id_def two_way_def)

definition sample_E :: "bank evm_accounts_config" where
  "sample_E =
     \<lparr>E_encode_account = (\<lambda>a. [of_nat a]), E_keccak_256 = (\<lambda>bs. take 32 (bs @ replicate 32 7)),
      E_ecdsa_recover = (\<lambda>sig msg. Some sig),
      E_into_account_id = into_account_id (\<lambda>bs. foldl (\<lambda>n b. 256 * n + unat b) 0 bs),
      E_account_exists = (\<lambda>w a. 0 < w a), E_account_nonce = (\<lambda>w a. 0), E_set_nonce = (\<lambda>a n w. w),
      E_merge_account = (\<lambda>a b w. (True, [a], (w(b := w b + w a))(a := 0))),
      E_killed = (\<lambda>a w. ([], w))\<rparr>"

definition sample_evm :: "bank evm_accounts" where
  "sample_evm = \<lparr>Accounts = Map.empty, EvmAddresses = Map.empty, ea_events = [], ea_world = (\<lambda>a. 10)\<rparr>"

lemma sample_evm_reachable: "evm_reachable sample_E sample_evm"
  unfolding sample_evm_def by (rule evm_reachable.genesis)

theorem claim_account_maps_witness:
  "into_account_id (\<lambda>_. 0) (snd (claim_account sample_E (Signed 5) (replicate 20 9) (replicate 65 9) sample_evm)) (replicate 20 9) = 5"
proof -
  let ?r = "claim_account sample_E (Signed 5) (replicate 20 9) (replicate 65 9) sample_evm"
  have "isl (fst ?r) = False" by code_simp
  then have r: "?r = (Inr (), snd ?r)" by (cases ?r; cases "fst ?r") auto
  from claim_account_maps [OF sample_evm_reachable r] show ?thesis by simp
qed

theorem evm_accounts_two_way_witness:
  "EvmAddresses (snd (claim_account sample_E (Signed 5) (replicate 20 9) (replicate 65 9) sample_evm)) 5 = Some (replicate 20 9)"
proof -
  let ?s = "snd (claim_account sample_E (Signed 5) (replicate 20 9) (replicate 65 9) sample_evm)"
  have "evm_reachable sample_E ?s" by (rule evm_reachable.claim [OF sample_evm_reachable])
  note 1 = evm_accounts_two_way [OF this, of "\<lambda>_. 0"]
  have "Accounts ?s (replicate 20 9) = Some 5" by code_simp
  with 1 show ?thesis by blast
qed

end
