(* ===== verification/Revenue.thy ===== *)
theory Revenue
  imports Evm_Accounts Staking_Effects
begin

section \<open>Revenue: the white list, the wallet and the reward fund\<close>

text \<open>
  Three small pallets: \<^verbatim>\<open>frame/pallet-revenue\<close> keeps the list of contracts that share revenue
  (the Ethereum pallet reads it), \<^verbatim>\<open>frame/pallet-revenue-fund\<close> is the wallet that collects revenue,
  and \<^verbatim>\<open>frame/pallet-fund\<close> holds the fund the staking pallet pays rewards from. At the end of an era
  staking triggers the wallet, which moves its balance to the fund.

  The locale \<open>white_list\<close> is what the Ethereum pallet relies on; \<open>reward_wallet\<close> is what staking
  relies on in the wallet, and its lemma is about the end of an era. Both are interpreted on the
  pallets below. The properties: the list holds exactly the addresses added and not removed since, and
  an era's reward includes everything the wallet held.
\<close>

subsection \<open>The white list (\<^verbatim>\<open>pallet-revenue\<close>)\<close>

datatype revenue_event = AddressAdded H160 | AddressRemoved H160 | AddressExisted H160 | AddressNotExisted H160

datatype revenue_error = NoPermission | RevBadOrigin

record revenue_state =
  Whitelist :: "H160 \<rightharpoonup> bool"
  AdminAccountID :: "AccountId option option"
  revenue_events :: "revenue_event list"

definition revenue_genesis_build :: "AccountId option \<Rightarrow> revenue_state \<Rightarrow> revenue_state" where
  "revenue_genesis_build admin_genesis s = s\<lparr>AdminAccountID := Some admin_genesis\<rparr>"

definition add_address :: "revenue_state \<Rightarrow> H160 \<Rightarrow> revenue_state" where
  "add_address s address =
     (if Whitelist s address \<noteq> None
      then s\<lparr>revenue_events := revenue_events s @ [AddressExisted address]\<rparr>
      else s\<lparr>Whitelist := (Whitelist s)(address \<mapsto> True),
             revenue_events := revenue_events s @ [AddressAdded address]\<rparr>)"

definition add_addresses ::
  "origin \<Rightarrow> H160 list \<Rightarrow> revenue_state \<Rightarrow> (revenue_error + unit) \<times> revenue_state" where
  "add_addresses o1 addresses s =
     (if \<not> ensure_root o1 then (Inl RevBadOrigin, s) else (Inr (), foldl add_address s addresses))"

definition remove_address :: "revenue_state \<Rightarrow> H160 \<Rightarrow> revenue_state" where
  "remove_address s address =
     (if Whitelist s address = None
      then s\<lparr>revenue_events := revenue_events s @ [AddressNotExisted address]\<rparr>
      else s\<lparr>Whitelist := (Whitelist s)(address := None),
             revenue_events := revenue_events s @ [AddressRemoved address]\<rparr>)"

definition remove_addresses ::
  "origin \<Rightarrow> H160 list \<Rightarrow> revenue_state \<Rightarrow> (revenue_error + unit) \<times> revenue_state" where
  "remove_addresses o1 addresses s =
     (if \<not> ensure_root o1 then (Inl RevBadOrigin, s) else (Inr (), foldl remove_address s addresses))"

definition is_in_white_list :: "revenue_state \<Rightarrow> H160 \<Rightarrow> bool" where
  "is_in_white_list s address \<longleftrightarrow> Whitelist s address \<noteq> None"

text \<open>The interface: a set of addresses that grows and shrinks by lists.\<close>

locale white_list =
  fixes is_in :: "'s \<Rightarrow> 'addr \<Rightarrow> bool"
    and add :: "'addr list \<Rightarrow> 's \<Rightarrow> 's"
    and remove :: "'addr list \<Rightarrow> 's \<Rightarrow> 's"
  assumes is_in_add: "is_in (add as s) a \<longleftrightarrow> a \<in> set as \<or> is_in s a"
    and is_in_remove: "is_in (remove as s) a \<longleftrightarrow> a \<notin> set as \<and> is_in s a"
begin

text \<open>The last change of a list of changes (added or removed) of an address decides.\<close>

fun apply_changes :: "(bool \<times> 'addr list) list \<Rightarrow> 's \<Rightarrow> 's" where
  "apply_changes [] s = s"
| "apply_changes ((b, as) # cs) s = apply_changes cs (if b then add as s else remove as s)"

lemma is_in_changes:
  "is_in (apply_changes cs s) a \<longleftrightarrow>
     (case find (\<lambda>(b, as). a \<in> set as) (rev cs) of None \<Rightarrow> is_in s a | Some (b, as) \<Rightarrow> b)"
proof (induction cs arbitrary: s)
  case Nil
  then show ?case by simp
next
  case (Cons c cs)
  obtain b as where c: "c = (b, as)" by (cases c)
  have app: "find p (xs @ [y]) = (case find p xs of None \<Rightarrow> (if p y then Some y else None) | Some z \<Rightarrow> Some z)"
    for p and xs :: "(bool \<times> 'addr list) list" and y
    by (induction xs) auto
  show ?case
    by (cases "find (\<lambda>(b, as). a \<in> set as) (rev cs)")
      (auto simp: c Cons.IH app is_in_add is_in_remove)
qed

end

lemma is_in_add_address: "is_in_white_list (foldl add_address s as) a \<longleftrightarrow> a \<in> set as \<or> is_in_white_list s a"
  by (induction as arbitrary: s) (auto simp: add_address_def is_in_white_list_def)

lemma is_in_remove_address:
  "is_in_white_list (foldl remove_address s as) a \<longleftrightarrow> a \<notin> set as \<and> is_in_white_list s a"
  by (induction as arbitrary: s) (auto simp: remove_address_def is_in_white_list_def)

interpretation wl: white_list is_in_white_list "\<lambda>as s. snd (add_addresses Root as s)" "\<lambda>as s. snd (remove_addresses Root as s)"
  by unfold_locales
    (simp_all add: add_addresses_def remove_addresses_def is_in_add_address is_in_remove_address)

subsection \<open>The reward fund (\<^verbatim>\<open>pallet-fund\<close>)\<close>

text \<open>\<open>account_of\<close> is the library's \<^verbatim>\<open>into_account_truncating\<close> on the eight characters of a pallet id.\<close>

definition FUND_PALLET_ID :: string where
  "FUND_PALLET_ID = ''fundreve''"

datatype fund_event = SpendFund Balance

definition fund_account_id :: "(string \<Rightarrow> AccountId) \<Rightarrow> AccountId" where
  "fund_account_id account_of = account_of FUND_PALLET_ID"

definition fund_pot :: "'w currency \<Rightarrow> (string \<Rightarrow> AccountId) \<Rightarrow> 'w \<Rightarrow> Balance" where
  "fund_pot C account_of w = cur_free_balance C w (fund_account_id account_of)"

definition fund_genesis_build :: "'w currency \<Rightarrow> (string \<Rightarrow> AccountId) \<Rightarrow> 'w \<Rightarrow> 'w" where
  "fund_genesis_build C account_of w =
     cur_make_free_balance_be C (fund_account_id account_of) (cur_minimum_balance C) w"

text \<open>The imbalance is dropped after the event.\<close>

definition fund_on_nonzero_unbalanced ::
  "'w currency \<Rightarrow> Balance \<Rightarrow> fund_event list \<times> 'w \<Rightarrow> fund_event list \<times> 'w" where
  "fund_on_nonzero_unbalanced C amount s =
     (case s of (events, w) \<Rightarrow> (events @ [SpendFund amount], cur_drop_positive C amount w))"

subsection \<open>The wallet (\<^verbatim>\<open>pallet-revenue-fund\<close>)\<close>

definition WALLET_PALLET_ID :: string where
  "WALLET_PALLET_ID = ''waltfund''"

datatype wallet_event = DonationReceived AccountId Balance Balance | RewardReceived Balance

datatype wallet_error = CannotMakeDonation | WalletBadOrigin

record 'w wallet =
  wallet_events :: "wallet_event list"
  wallet_world :: 'w

definition wallet_account_id :: "(string \<Rightarrow> AccountId) \<Rightarrow> AccountId" where
  "wallet_account_id account_of = account_of WALLET_PALLET_ID"

definition reward_fund_id :: "(string \<Rightarrow> AccountId) \<Rightarrow> AccountId" where
  "reward_fund_id account_of = account_of ''fundreve''"

definition wallet_pot :: "'w currency \<Rightarrow> (string \<Rightarrow> AccountId) \<Rightarrow> 'w wallet \<Rightarrow> Balance" where
  "wallet_pot C account_of s = cur_free_balance C (wallet_world s) (wallet_account_id account_of)"

definition wallet_genesis_build :: "'w currency \<Rightarrow> (string \<Rightarrow> AccountId) \<Rightarrow> 'w wallet \<Rightarrow> 'w wallet" where
  "wallet_genesis_build C account_of s =
     s\<lparr>wallet_world :=
         cur_make_free_balance_be C (wallet_account_id account_of) (cur_minimum_balance C) (wallet_world s)\<rparr>"

definition wallet_deposit_event :: "wallet_event \<Rightarrow> 'w wallet \<Rightarrow> 'w wallet" where
  "wallet_deposit_event e s = s\<lparr>wallet_events := wallet_events s @ [e]\<rparr>"

definition donate ::
  "'w currency \<Rightarrow> (string \<Rightarrow> AccountId) \<Rightarrow> origin \<Rightarrow> Balance \<Rightarrow> 'w wallet \<Rightarrow> (wallet_error + unit) \<times> 'w wallet" where
  "donate C account_of o1 amount s =
     (case ensure_signed o1 of
        None \<Rightarrow> (Inl WalletBadOrigin, s)
      | Some donor \<Rightarrow>
          (case cur_transfer C donor (wallet_account_id account_of) amount AllowDeath (wallet_world s) of
             (False, w) \<Rightarrow> (Inl CannotMakeDonation, s\<lparr>wallet_world := w\<rparr>)
           | (True, w) \<Rightarrow>
               (let s1 = s\<lparr>wallet_world := w\<rparr>
                in (Inr (), wallet_deposit_event (DonationReceived donor amount (wallet_pot C account_of s1)) s1))))"

definition triger ::
  "'w currency \<Rightarrow> (string \<Rightarrow> AccountId) \<Rightarrow> origin \<Rightarrow> 'w wallet \<Rightarrow> (wallet_error + unit) \<times> 'w wallet" where
  "triger C account_of o1 s =
     (case ensure_signed o1 of
        None \<Rightarrow> (Inl WalletBadOrigin, s)
      | Some _ \<Rightarrow>
          (let amount = wallet_pot C account_of s
           in case cur_transfer C (wallet_account_id account_of) (reward_fund_id account_of) amount AllowDeath
                     (wallet_world s) of
                (False, w) \<Rightarrow> (Inl CannotMakeDonation, s\<lparr>wallet_world := w\<rparr>)
              | (True, w) \<Rightarrow> (Inr (), wallet_deposit_event (RewardReceived amount) (s\<lparr>wallet_world := w\<rparr>))))"

text \<open>The result of the transfer is not used.\<close>

definition trigger_wallet :: "'w currency \<Rightarrow> (string \<Rightarrow> AccountId) \<Rightarrow> 'w wallet \<Rightarrow> 'w wallet" where
  "trigger_wallet C account_of s =
     (let amount = wallet_pot C account_of s
      in if amount > 0
         then (case cur_transfer C (wallet_account_id account_of) (reward_fund_id account_of) amount AllowDeath
                      (wallet_world s) of
                 (_, w) \<Rightarrow> wallet_deposit_event (RewardReceived amount) (s\<lparr>wallet_world := w\<rparr>))
         else s)"

subsection \<open>The wallet and the end of an era\<close>

text \<open>What staking relies on: triggering the wallet moves its balance to the fund.\<close>

locale reward_wallet =
  fixes trigger :: "'w \<Rightarrow> 'w"
    and pot :: "'w \<Rightarrow> Balance"
    and fund :: "'w \<Rightarrow> Balance"
    and ready :: "'w \<Rightarrow> bool"
  assumes pot_trigger: "ready w \<Longrightarrow> pot (trigger w) = 0"
    and fund_trigger: "ready w \<Longrightarrow> fund (trigger w) = fund w + pot w"
begin

lemma end_era_sweeps:
  assumes "ready (world s)" and "T_trigger_wallet T = trigger"
    and "\<And>w. cur_free_balance (T_currency T) w (T_fund_account T) = fund w"
    and "ae_start a = Some t"
  shows "ErasValidatorReward (end_era T a s) (ae_index a) =
      Some (fund (world s) + pot (world s) - EXISTENTIAL_DEPOSIT
        - get_total_not_claimed_reward (ae_index a) s) \<and>
    pot (world (end_era T a s)) = 0"
proof -
  have "get_total_not_claimed_reward n (set_world w s) = get_total_not_claimed_reward n s" for n w
    by (simp add: get_total_not_claimed_reward_def)
  then show ?thesis
    using assms by (simp add: end_era_def Let_def fund_balance_def pot_trigger fund_trigger)
qed

end

text \<open>A successful transfer of the whole balance of an account that has nothing reserved, to another account,
  empties the one and credits the other.\<close>

definition transfer_law :: "'w currency \<Rightarrow> bool" where
  "transfer_law C \<longleftrightarrow> (\<forall>a b w w'. a \<noteq> b \<and> cur_total_balance C w a = cur_free_balance C w a \<and>
       cur_transfer C a b (cur_free_balance C w a) AllowDeath w = (True, w') \<longrightarrow>
     cur_free_balance C w' a = 0 \<and>
     cur_free_balance C w' b = cur_free_balance C w b + cur_free_balance C w a)"

text \<open>It holds of a bank that reaps: nothing is left of the one account, and a success means the other exists.\<close>

lemma reaping_transfer_law: "transfer_law reaping_currency"
  by (auto simp: transfer_law_def reaping_currency_def sample_currency_def Let_def split: if_splits)

text \<open>The wallet can pay: nothing of its balance is reserved and the transfer of what it holds does not fail.\<close>

definition wallet_ready :: "'w currency \<Rightarrow> (string \<Rightarrow> AccountId) \<Rightarrow> 'w wallet \<Rightarrow> bool" where
  "wallet_ready C account_of s \<longleftrightarrow>
     transfer_law C \<and> wallet_account_id account_of \<noteq> reward_fund_id account_of \<and>
     (wallet_pot C account_of s > 0 \<longrightarrow>
        cur_total_balance C (wallet_world s) (wallet_account_id account_of) = wallet_pot C account_of s \<and>
        fst (cur_transfer C (wallet_account_id account_of) (reward_fund_id account_of)
          (wallet_pot C account_of s) AllowDeath (wallet_world s)))"

interpretation rw: reward_wallet "trigger_wallet C account_of" "wallet_pot C account_of"
  "\<lambda>s. fund_pot C account_of (wallet_world s)" "wallet_ready C account_of" for C account_of
proof
  fix s :: "'a wallet"
  let ?a = "wallet_account_id account_of"
  let ?b = "reward_fund_id account_of"
  let ?x = "wallet_pot C account_of s"
  assume ready: "wallet_ready C account_of s"
  have fund: "fund_account_id account_of = ?b"
    by (simp add: fund_account_id_def reward_fund_id_def FUND_PALLET_ID_def)
  have "wallet_pot C account_of (trigger_wallet C account_of s) = 0 \<and>
    fund_pot C account_of (wallet_world (trigger_wallet C account_of s)) =
      fund_pot C account_of (wallet_world s) + ?x"
  proof (cases "?x > 0")
    case False
    then show ?thesis by (simp add: trigger_wallet_def)
  next
    case True
    with ready obtain w where t: "cur_transfer C ?a ?b ?x AllowDeath (wallet_world s) = (True, w)"
      by (cases "cur_transfer C ?a ?b ?x AllowDeath (wallet_world s)") (auto simp: wallet_ready_def)
    have "transfer_law C" "?a \<noteq> ?b" "cur_total_balance C (wallet_world s) ?a = cur_free_balance C (wallet_world s) ?a"
      using ready True by (simp_all add: wallet_ready_def wallet_pot_def)
    then have "cur_free_balance C w ?a = 0" "cur_free_balance C w ?b = cur_free_balance C (wallet_world s) ?b + ?x"
      using t unfolding transfer_law_def wallet_pot_def by blast+
    with True t fund show ?thesis
      by (simp add: trigger_wallet_def Let_def wallet_deposit_event_def wallet_pot_def fund_pot_def)
  qed
  then show "wallet_pot C account_of (trigger_wallet C account_of s) = 0"
    "fund_pot C account_of (wallet_world (trigger_wallet C account_of s)) =
      fund_pot C account_of (wallet_world s) + ?x" by simp_all
qed


subsection \<open>Properties\<close>

text \<open>The reward of an era includes the revenue: if the wallet can pay, then at the end of the era
  its balance has gone to the fund and the reward fixed for the era is the fund with it, less the
  existential deposit and what is reserved for earlier eras; the wallet is empty.\<close>

theorem era_reward_includes_wallet:
  assumes "wallet_ready C account_of (world s)" and "T_trigger_wallet T = trigger_wallet C account_of"
    and "\<And>w. cur_free_balance (T_currency T) w (T_fund_account T) = fund_pot C account_of (wallet_world w)"
    and "ae_start a = Some t"
  shows "ErasValidatorReward (end_era T a s) (ae_index a) =
      Some (fund_pot C account_of (wallet_world (world s)) + wallet_pot C account_of (world s)
        - EXISTENTIAL_DEPOSIT - get_total_not_claimed_reward (ae_index a) s) \<and>
    wallet_pot C account_of (world (end_era T a s)) = 0"
  by (rule rw.end_era_sweeps [OF assms])

text \<open>The sample bank below a wallet. Account 98 is the wallet, account 99 the fund.\<close>

definition sample_account_of :: "string \<Rightarrow> AccountId" where
  "sample_account_of pid = (if pid = ''fundreve'' then 99 else 98)"

definition sample_wallet_currency :: "bank wallet currency" where
  "sample_wallet_currency =
     \<lparr>cur_minimum_balance = 5,
      cur_total_issuance = (\<lambda>s. 1000000),
      cur_free_balance = (\<lambda>s a. wallet_world s a),
      cur_total_balance = (\<lambda>s a. wallet_world s a),
      cur_deposit_creating = (\<lambda>a x s. (x, s)),
      cur_deposit_into_existing = (\<lambda>a x s. (Some x, s)),
      cur_resolve_creating = (\<lambda>a x s. s),
      cur_withdraw = (\<lambda>a x er s. (None, s)),
      cur_settle = (\<lambda>a x er s. (False, s)),
      cur_slash = (\<lambda>a x s. ((0, x), s)),
      cur_transfer = (\<lambda>a b x er s. (False, s)),
      cur_make_free_balance_be = (\<lambda>a x s. s),
      cur_set_lock = (\<lambda>a x s. s),
      cur_remove_lock = (\<lambda>a s. s),
      cur_drop_positive = (\<lambda>x s. s),
      cur_drop_negative = (\<lambda>x s. s),
      cur_split = (\<lambda>a x. (min a x, a - min a x)),
      cur_subsume = sat_add_u128\<rparr>"

definition sample_T_wallet :: "bank wallet staking_config" where
  "sample_T_wallet = sample_config sample_wallet_currency (\<lambda>x s. s) (trigger_wallet sample_currency sample_account_of)"

definition sample_wallet_staking :: "bank wallet staking" where
  "sample_wallet_staking = staking_default \<lparr>wallet_events = [],
     wallet_world = (\<lambda>a. if a = 98 then 700 else if a = 99 then 500000000000000000 else 0)\<rparr>"

lemma sample_wallet_ready: "wallet_ready sample_currency sample_account_of (world sample_wallet_staking)"
  by (simp add: wallet_ready_def transfer_law_def sample_currency_def wallet_account_id_def reward_fund_id_def
      sample_account_of_def WALLET_PALLET_ID_def wallet_pot_def sample_wallet_staking_def staking_default_def)

theorem era_reward_includes_wallet_witness:
  "ErasValidatorReward (end_era sample_T_wallet \<lparr>ae_index = 3, ae_start = Some 0\<rparr> sample_wallet_staking) 3 =
     Some 400000000000000700"
proof -
  let ?a = "\<lparr>ae_index = 3, ae_start = Some 0\<rparr>"
  have "fund_pot sample_currency sample_account_of (wallet_world (world sample_wallet_staking)) +
      wallet_pot sample_currency sample_account_of (world sample_wallet_staking) - EXISTENTIAL_DEPOSIT
      - get_total_not_claimed_reward (ae_index ?a) sample_wallet_staking = 400000000000000700" by code_simp
  with era_reward_includes_wallet [OF sample_wallet_ready, of sample_T_wallet ?a 0] show ?thesis
    by (simp add: sample_T_wallet_def sample_config_def sample_wallet_currency_def fund_pot_def sample_currency_def
        fund_account_id_def FUND_PALLET_ID_def sample_account_of_def)
qed

end
