(* ===== verification/Ethereum_Pallet.thy ===== *)
theory Ethereum_Pallet
  imports Revenue
begin

section \<open>The Ethereum pallet (\<^verbatim>\<open>frame/ethereum\<close>)\<close>

text \<open>
  Ethereum transactions as extrinsics: recovering the signer, checking a transaction in the pool and
  in a block, executing it on the EVM, collecting receipts, and storing the Ethereum block.

  \<^verbatim>\<open>U256\<close> is a natural number with saturating operations. The EVM runner, gasometer, hashes, tries
  and the other pallets are the record \<open>eth_config\<close>; bytes of hashes and blooms are byte lists. A
  panic (\<^verbatim>\<open>expect\<close>, \<^verbatim>\<open>assert!\<close>) is \<^term>\<open>None\<close>: it makes the block invalid.

  The properties: a transaction accepted in a block can be paid for and never fails in the pallet's
  own checks when applied; the pool and the block agree up to the nonce; the pending receipts are
  numbered and accumulate gas, and the stored block carries them; the block hashes kept are those of a
  window of recent blocks and of genesis; and the priority of a transaction with a small tip wraps
  around.
\<close>

definition u256_max :: nat where
  "u256_max = 2 ^ 256 - 1"

definition to_u64 :: "nat \<Rightarrow> u64" where
  "to_u64 x = min u64_max x"

subsection \<open>Transactions\<close>

type_synonym H256 = "byte list"
type_synonym Bloom = "byte list"
type_synonym U256 = nat
type_synonym access_list = "(H160 \<times> H256 list) list"

datatype TransactionAction = Call H160 | Create

record LegacyTransaction =
  lt_nonce :: U256
  lt_gas_price :: U256
  lt_gas_limit :: U256
  lt_action :: TransactionAction
  lt_value :: U256
  lt_input :: "byte list"
  lt_sig_r :: H256
  lt_sig_s :: H256
  lt_sig_standard_v :: byte
  lt_sig_chain_id :: "u64 option"

record EIP2930Transaction =
  t29_chain_id :: u64
  t29_nonce :: U256
  t29_gas_price :: U256
  t29_gas_limit :: U256
  t29_action :: TransactionAction
  t29_value :: U256
  t29_input :: "byte list"
  t29_access_list :: access_list
  t29_odd_y_parity :: bool
  t29_r :: H256
  t29_s :: H256

record EIP1559Transaction =
  t15_chain_id :: u64
  t15_nonce :: U256
  t15_max_priority_fee_per_gas :: U256
  t15_max_fee_per_gas :: U256
  t15_gas_limit :: U256
  t15_action :: TransactionAction
  t15_value :: U256
  t15_input :: "byte list"
  t15_access_list :: access_list
  t15_odd_y_parity :: bool
  t15_r :: H256
  t15_s :: H256

datatype Transaction =
  TxLegacy LegacyTransaction | TxEIP2930 EIP2930Transaction | TxEIP1559 EIP1559Transaction

record TransactionData =
  td_action :: TransactionAction
  td_input :: "byte list"
  td_nonce :: U256
  td_gas_limit :: U256
  td_gas_price :: "U256 option"
  td_max_fee_per_gas :: "U256 option"
  td_max_priority_fee_per_gas :: "U256 option"
  td_value :: U256
  td_chain_id :: "u64 option"
  td_access_list :: access_list

fun transaction_data :: "Transaction \<Rightarrow> TransactionData" where
  "transaction_data (TxLegacy t) =
     \<lparr>td_action = lt_action t, td_input = lt_input t, td_nonce = lt_nonce t,
      td_gas_limit = lt_gas_limit t, td_gas_price = Some (lt_gas_price t),
      td_max_fee_per_gas = None, td_max_priority_fee_per_gas = None, td_value = lt_value t,
      td_chain_id = lt_sig_chain_id t, td_access_list = []\<rparr>"
| "transaction_data (TxEIP2930 t) =
     \<lparr>td_action = t29_action t, td_input = t29_input t, td_nonce = t29_nonce t,
      td_gas_limit = t29_gas_limit t, td_gas_price = Some (t29_gas_price t),
      td_max_fee_per_gas = None, td_max_priority_fee_per_gas = None, td_value = t29_value t,
      td_chain_id = Some (t29_chain_id t), td_access_list = t29_access_list t\<rparr>"
| "transaction_data (TxEIP1559 t) =
     \<lparr>td_action = t15_action t, td_input = t15_input t, td_nonce = t15_nonce t,
      td_gas_limit = t15_gas_limit t, td_gas_price = None,
      td_max_fee_per_gas = Some (t15_max_fee_per_gas t),
      td_max_priority_fee_per_gas = Some (t15_max_priority_fee_per_gas t), td_value = t15_value t,
      td_chain_id = Some (t15_chain_id t), td_access_list = t15_access_list t\<rparr>"

subsection \<open>Blocks, receipts and the services of the runtime\<close>

record Log =
  log_address :: H160
  log_topics :: "H256 list"
  log_data :: "byte list"

record ReceiptData =
  rd_status_code :: u8
  rd_used_gas :: U256
  rd_logs_bloom :: Bloom
  rd_logs :: "Log list"

datatype Receipt = RcLegacy ReceiptData | RcEIP2930 ReceiptData | RcEIP1559 ReceiptData

fun receipt_data :: "Receipt \<Rightarrow> ReceiptData" where
  "receipt_data (RcLegacy d) = d"
| "receipt_data (RcEIP2930 d) = d"
| "receipt_data (RcEIP1559 d) = d"

record TransactionStatus =
  ts_transaction_hash :: H256
  ts_transaction_index :: u32
  ts_from :: H160
  ts_to :: "H160 option"
  ts_contract_address :: "H160 option"
  ts_logs :: "Log list"
  ts_logs_bloom :: Bloom

record PartialHeader =
  ph_parent_hash :: H256
  ph_beneficiary :: H160
  ph_state_root :: H256
  ph_receipts_root :: H256
  ph_logs_bloom :: Bloom
  ph_difficulty :: U256
  ph_number :: U256
  ph_gas_limit :: U256
  ph_gas_used :: U256
  ph_timestamp :: u64
  ph_extra_data :: "byte list"
  ph_mix_hash :: H256
  ph_nonce :: "byte list"

text \<open>A block is what it is made of; the library derives the header from it.\<close>

record eth_block =
  eb_partial_header :: PartialHeader
  eb_transactions :: "Transaction list"

datatype ExitReason = Succeed | ExitOther

record CallInfo =
  ci_exit_reason :: ExitReason
  ci_used_gas :: U256
  ci_logs :: "Log list"

record CreateInfo =
  cri_exit_reason :: ExitReason
  cri_value :: H160
  cri_used_gas :: U256
  cri_logs :: "Log list"

datatype CallOrCreateInfo = InfoCall CallInfo | InfoCreate CreateInfo

datatype eth_event = Executed H160 H160 H256 ExitReason

datatype EthereumStorageSchema = Undefined | V1 | V2 | V3

definition EthereumStorageSchema_default :: EthereumStorageSchema where
  "EthereumStorageSchema_default = Undefined"

record 'w ethereum =
  Pending :: "(Transaction \<times> TransactionStatus \<times> Receipt) list"
  CurrentBlock :: "eth_block option"
  CurrentReceipts :: "Receipt list option"
  CurrentTransactionStatuses :: "TransactionStatus list option"
  BlockHash :: "U256 \<rightharpoonup> H256"
  eth_schema :: "EthereumStorageSchema option"
  eth_events :: "eth_event list"
  eth_world :: 'w

text \<open>The arguments of \<^verbatim>\<open>T::Runner::call\<close> and \<^verbatim>\<open>create\<close> after the sender and the target.\<close>

record runner_args =
  ra_input :: "byte list"
  ra_value :: U256
  ra_gas_limit :: u64
  ra_max_fee_per_gas :: "U256 option"
  ra_max_priority_fee_per_gas :: "U256 option"
  ra_nonce :: "U256 option"
  ra_access_list :: access_list

record 'w eth_config =
  X_hash_legacy :: "LegacyTransaction \<Rightarrow> H256"
  X_hash_2930 :: "EIP2930Transaction \<Rightarrow> H256"
  X_hash_1559 :: "EIP1559Transaction \<Rightarrow> H256"
  X_transaction_hash :: "Transaction \<Rightarrow> H256"
  X_ecdsa_recover :: "byte list \<Rightarrow> byte list \<Rightarrow> byte list option"
  X_keccak :: "byte list \<Rightarrow> byte list"
  X_record_call :: "u64 \<Rightarrow> byte list \<Rightarrow> access_list \<Rightarrow> bool"
  X_record_create :: "u64 \<Rightarrow> byte list \<Rightarrow> access_list \<Rightarrow> bool"
  X_ChainId :: u64
  X_BlockGasLimit :: U256
  X_min_gas_price :: "'w \<Rightarrow> U256"
  X_account_basic :: "'w \<Rightarrow> H160 \<Rightarrow> U256 \<times> U256"
  X_is_in_white_list :: "'w \<Rightarrow> H160 \<Rightarrow> bool"
  X_gas_to_weight :: "u64 \<Rightarrow> Weight"
  X_runner_call :: "H160 \<Rightarrow> H160 \<Rightarrow> runner_args \<Rightarrow> 'w \<Rightarrow> CallInfo option \<times> 'w"
  X_runner_create :: "H160 \<Rightarrow> runner_args \<Rightarrow> 'w \<Rightarrow> CreateInfo option \<times> 'w"
  X_bloom_default :: Bloom
  X_bloom_accrue :: "byte list \<Rightarrow> Bloom \<Rightarrow> Bloom"
  X_receipts_root :: "Receipt list \<Rightarrow> H256"
  X_header_hash :: "eth_block \<Rightarrow> H256"
  X_find_author :: "'w \<Rightarrow> H160"
  X_state_root :: "'w \<Rightarrow> H256"
  X_timestamp :: "'w \<Rightarrow> nat"
  X_find_pre_log :: "'w \<Rightarrow> Transaction list option"
  X_deposit_post_log :: "eth_block \<Rightarrow> 'w \<Rightarrow> 'w"
  X_block_number :: "'w \<Rightarrow> BlockNumber"
  X_BlockHashCount :: BlockNumber
  X_weight_kill_storage :: Weight
  X_weight_reads_writes :: "nat \<Rightarrow> nat \<Rightarrow> Weight"
  X_weight_write :: Weight

subsection \<open>Signers and self-contained calls\<close>

definition H160_of_H256 :: "H256 \<Rightarrow> H160" where
  "H160_of_H256 h = drop 12 h"

fun recover_signer :: "'w eth_config \<Rightarrow> Transaction \<Rightarrow> H160 option" where
  "recover_signer X (TxLegacy t) =
     map_option (\<lambda>pubkey. H160_of_H256 (X_keccak X pubkey))
       (X_ecdsa_recover X (lt_sig_r t @ lt_sig_s t @ [lt_sig_standard_v t]) (X_hash_legacy X t))"
| "recover_signer X (TxEIP2930 t) =
     map_option (\<lambda>pubkey. H160_of_H256 (X_keccak X pubkey))
       (X_ecdsa_recover X (t29_r t @ t29_s t @ [if t29_odd_y_parity t then 1 else 0]) (X_hash_2930 X t))"
| "recover_signer X (TxEIP1559 t) =
     map_option (\<lambda>pubkey. H160_of_H256 (X_keccak X pubkey))
       (X_ecdsa_recover X (t15_r t @ t15_s t @ [if t15_odd_y_parity t then 1 else 0]) (X_hash_1559 X t))"

datatype TransactionValidationError = UnknownError | InvalidChainId | VeInvalidSignature | InvalidGasLimit

fun tve_code :: "TransactionValidationError \<Rightarrow> u8" where
  "tve_code UnknownError = 0"
| "tve_code InvalidChainId = 1"
| "tve_code VeInvalidSignature = 2"
| "tve_code InvalidGasLimit = 3"

datatype eth_invalid = Payment | Stale | Future | Custom u8

record eth_valid =
  ev_provides :: "(H160 \<times> U256) list"
  ev_requires :: "(H160 \<times> U256) list"
  ev_priority :: u64

datatype eth_origin = EthereumTransaction H160 | OtherOrigin

fun ensure_ethereum_transaction :: "eth_origin \<Rightarrow> H160 option" where
  "ensure_ethereum_transaction (EthereumTransaction n) = Some n"
| "ensure_ethereum_transaction OtherOrigin = None"

text \<open>\<^verbatim>\<open>EnsureEthereumTransaction\<close>: an origin that is not an Ethereum transaction is handed back.\<close>

fun eth_try_origin :: "eth_origin \<Rightarrow> eth_origin + H160" where
  "eth_try_origin (EthereumTransaction n) = Inr n"
| "eth_try_origin OtherOrigin = Inl OtherOrigin"

subsection \<open>Validity\<close>

definition tx_price :: "TransactionData \<Rightarrow> U256 option" where
  "tx_price d = (case td_gas_price d of Some p \<Rightarrow> Some p | None \<Rightarrow> td_max_fee_per_gas d)"

definition tx_tip :: "'w eth_config \<Rightarrow> TransactionData \<Rightarrow> 'w \<Rightarrow> u64" where
  "tx_tip X d w =
     (case td_max_priority_fee_per_gas d of
        Some p \<Rightarrow> to_u64 p
      | None \<Rightarrow> (case td_gas_price d of Some p \<Rightarrow> to_u64 (p - X_min_gas_price X w) | None \<Rightarrow> 0))"

definition tx_fee :: "TransactionData \<Rightarrow> U256 \<Rightarrow> U256" where
  "tx_fee d gas_price =
     (let fee = sat_mul u256_max gas_price (td_gas_limit d)
      in case td_max_priority_fee_per_gas d of
           None \<Rightarrow> fee
         | Some p \<Rightarrow> sat_add u256_max fee (sat_mul u256_max p (td_gas_limit d)))"

definition is_lower_priority :: "'w eth_config \<Rightarrow> TransactionData \<Rightarrow> 'w \<Rightarrow> bool" where
  "is_lower_priority X d w \<longleftrightarrow>
     (case td_action d of
        Call address \<Rightarrow> length (td_input d) \<noteq> 0 \<and> \<not> X_is_in_white_list X w address
      | Create \<Rightarrow> False)"

definition tx_priority :: "'w eth_config \<Rightarrow> TransactionData \<Rightarrow> 'w \<Rightarrow> u64" where
  "tx_priority X d w =
     wrap_sub u64_max (tx_tip X d w div (if is_lower_priority X d w then 20000 else 10000))
       (X_gas_to_weight X (to_u64 (td_gas_limit d)))"

definition validate_transaction_common ::
  "'w eth_config \<Rightarrow> H160 \<Rightarrow> TransactionData \<Rightarrow> 'w \<Rightarrow> eth_invalid + (U256 \<times> u64)" where
  "validate_transaction_common X source d w =
     (let gas_limit = td_gas_limit d;
          recorded = (case td_action d of
             Call _ \<Rightarrow> X_record_call X (to_u64 gas_limit) (td_input d) (td_access_list d)
           | Create \<Rightarrow> X_record_create X (to_u64 gas_limit) (td_input d) (td_access_list d))
      in if \<not> recorded then Inl (Custom (tve_code InvalidGasLimit))
         else if (case td_chain_id d of None \<Rightarrow> False | Some chain_id \<Rightarrow> chain_id \<noteq> X_ChainId X)
         then Inl (Custom (tve_code InvalidChainId))
         else if gas_limit \<ge> X_BlockGasLimit X then Inl (Custom (tve_code InvalidGasLimit))
         else
           (case tx_price d of
              None \<Rightarrow> Inl Payment
            | Some gas_price \<Rightarrow>
                if gas_price < X_min_gas_price X w then Inl Payment
                else
                  (let (balance, nonce) = X_account_basic X w source;
                       total_payment = sat_add u256_max (td_value d) (tx_fee d gas_price)
                   in if balance < total_payment then Inl Payment
                      else Inr (nonce, tx_priority X d w))))"

definition validate_transaction_in_pool ::
  "'w eth_config \<Rightarrow> H160 \<Rightarrow> Transaction \<Rightarrow> 'w \<Rightarrow> eth_invalid + eth_valid" where
  "validate_transaction_in_pool X source transaction w =
     (let d = transaction_data transaction;
          transaction_nonce = td_nonce d
      in case validate_transaction_common X source d w of
           Inl e \<Rightarrow> Inl e
         | Inr (account_nonce, priority) \<Rightarrow>
             if transaction_nonce < account_nonce then Inl Stale
             else Inr \<lparr>ev_provides = [(source, transaction_nonce)],
                       ev_requires =
                         (if transaction_nonce > account_nonce
                          then (case checked_sub transaction_nonce 1 of
                                  Some prev_nonce \<Rightarrow> [(source, prev_nonce)] | None \<Rightarrow> [])
                          else []),
                       ev_priority = priority\<rparr>)"

definition validate_transaction_in_block ::
  "'w eth_config \<Rightarrow> H160 \<Rightarrow> Transaction \<Rightarrow> 'w \<Rightarrow> eth_invalid + unit" where
  "validate_transaction_in_block X source transaction w =
     (let d = transaction_data transaction;
          transaction_nonce = td_nonce d
      in case validate_transaction_common X source d w of
           Inl e \<Rightarrow> Inl e
         | Inr (account_nonce, _) \<Rightarrow>
             if transaction_nonce > account_nonce then Inl Future
             else if transaction_nonce < account_nonce then Inl Stale
             else Inr ())"

text \<open>The pallet has one call, \<^verbatim>\<open>transact\<close>, which is self-contained.\<close>

datatype eth_call = Transact Transaction

fun is_self_contained :: "eth_call \<Rightarrow> bool" where
  "is_self_contained (Transact transaction) = True"

fun check_self_contained :: "'w eth_config \<Rightarrow> eth_call \<Rightarrow> (eth_invalid + H160) option" where
  "check_self_contained X (Transact transaction) =
     Some (case recover_signer X transaction of
             None \<Rightarrow> Inl (Custom (tve_code VeInvalidSignature))
           | Some source \<Rightarrow> Inr source)"

fun pre_dispatch_self_contained :: "'w eth_config \<Rightarrow> eth_call \<Rightarrow> H160 \<Rightarrow> 'w \<Rightarrow> (eth_invalid + unit) option" where
  "pre_dispatch_self_contained X (Transact transaction) source w =
     Some (validate_transaction_in_block X source transaction w)"

fun validate_self_contained :: "'w eth_config \<Rightarrow> eth_call \<Rightarrow> H160 \<Rightarrow> 'w \<Rightarrow> (eth_invalid + eth_valid) option" where
  "validate_self_contained X (Transact transaction) source w =
     Some (validate_transaction_in_pool X source transaction w)"

subsection \<open>Execution\<close>

datatype execute_error = GasPriceTooLow | RunnerError

fun execute_args :: "'w eth_config \<Rightarrow> Transaction \<Rightarrow> 'w \<Rightarrow> execute_error + (runner_args \<times> TransactionAction)" where
  "execute_args X (TxLegacy t) w =
     (let base_fee = X_min_gas_price X w
      in case checked_sub (lt_gas_price t) base_fee of
           None \<Rightarrow> Inl GasPriceTooLow
         | Some priority_fee \<Rightarrow>
             Inr (\<lparr>ra_input = lt_input t, ra_value = lt_value t, ra_gas_limit = to_u64 (lt_gas_limit t),
                   ra_max_fee_per_gas = Some base_fee, ra_max_priority_fee_per_gas = Some priority_fee,
                   ra_nonce = Some (lt_nonce t), ra_access_list = []\<rparr>, lt_action t))"
| "execute_args X (TxEIP2930 t) w =
     (let base_fee = X_min_gas_price X w
      in case checked_sub (t29_gas_price t) base_fee of
           None \<Rightarrow> Inl GasPriceTooLow
         | Some priority_fee \<Rightarrow>
             Inr (\<lparr>ra_input = t29_input t, ra_value = t29_value t, ra_gas_limit = to_u64 (t29_gas_limit t),
                   ra_max_fee_per_gas = Some base_fee, ra_max_priority_fee_per_gas = Some priority_fee,
                   ra_nonce = Some (t29_nonce t), ra_access_list = t29_access_list t\<rparr>, t29_action t))"
| "execute_args X (TxEIP1559 t) w =
     Inr (\<lparr>ra_input = t15_input t, ra_value = t15_value t, ra_gas_limit = to_u64 (t15_gas_limit t),
           ra_max_fee_per_gas = Some (t15_max_fee_per_gas t),
           ra_max_priority_fee_per_gas = Some (t15_max_priority_fee_per_gas t),
           ra_nonce = Some (t15_nonce t), ra_access_list = t15_access_list t\<rparr>, t15_action t)"

definition execute ::
  "'w eth_config \<Rightarrow> H160 \<Rightarrow> Transaction \<Rightarrow> 'w \<Rightarrow>
     (execute_error + (H160 option \<times> H160 option \<times> CallOrCreateInfo)) \<times> 'w" where
  "execute X from transaction w =
     (case execute_args X transaction w of
        Inl e \<Rightarrow> (Inl e, w)
      | Inr (args, Call target) \<Rightarrow>
          (case X_runner_call X from target args w of
             (None, w1) \<Rightarrow> (Inl RunnerError, w1)
           | (Some res, w1) \<Rightarrow> (Inr (Some target, None, InfoCall res), w1))
      | Inr (args, Create) \<Rightarrow>
          (case X_runner_create X from args w of
             (None, w1) \<Rightarrow> (Inl RunnerError, w1)
           | (Some res, w1) \<Rightarrow> (Inr (None, Some (cri_value res), InfoCreate res), w1)))"

definition logs_bloom :: "'w eth_config \<Rightarrow> Log list \<Rightarrow> Bloom \<Rightarrow> Bloom" where
  "logs_bloom X logs bloom =
     foldl (\<lambda>b log. foldl (\<lambda>b topic. X_bloom_accrue X topic b) (X_bloom_accrue X (log_address log) b)
              (log_topics log)) bloom logs"

definition cumulative_gas :: "(Transaction \<times> TransactionStatus \<times> Receipt) list \<Rightarrow> U256 \<Rightarrow> U256" where
  "cumulative_gas pending used_gas =
     (if pending = [] then used_gas
      else sat_add u256_max (rd_used_gas (receipt_data (snd (snd (last pending))))) used_gas)"

fun make_receipt :: "Transaction \<Rightarrow> ReceiptData \<Rightarrow> Receipt" where
  "make_receipt (TxLegacy _) d = RcLegacy d"
| "make_receipt (TxEIP2930 _) d = RcEIP2930 d"
| "make_receipt (TxEIP1559 _) d = RcEIP1559 d"

fun info_parts :: "CallOrCreateInfo \<Rightarrow> H160 option \<Rightarrow> ExitReason \<times> U256 \<times> Log list \<times> H160 option \<times> H160 option" where
  "info_parts (InfoCall i) to = (ci_exit_reason i, ci_used_gas i, ci_logs i, None, to)"
| "info_parts (InfoCreate i) to =
     (cri_exit_reason i, cri_used_gas i, cri_logs i, Some (cri_value i), Some (cri_value i))"

record PostDispatchInfo =
  pdi_actual_weight :: "Weight option"
  pdi_pays_fee :: bool

definition apply_validated_transaction ::
  "'w eth_config \<Rightarrow> H160 \<Rightarrow> Transaction \<Rightarrow> 'w ethereum \<Rightarrow> (PostDispatchInfo \<times> 'w ethereum) option" where
  "apply_validated_transaction X source transaction s =
     (let pending = Pending s;
          transaction_hash = X_transaction_hash X transaction;
          transaction_index = length pending mod Suc u32_max
      in case execute X source transaction (eth_world s) of
           (Inl _, _) \<Rightarrow> None
         | (Inr (to, _, info), w) \<Rightarrow>
             (case info_parts info to of
                (reason, used_gas, logs, contract_address, dest) \<Rightarrow>
                  (let bloom = logs_bloom X logs (X_bloom_default X);
                       status = \<lparr>ts_transaction_hash = transaction_hash,
                                 ts_transaction_index = transaction_index, ts_from = source, ts_to = to,
                                 ts_contract_address = contract_address, ts_logs = logs,
                                 ts_logs_bloom = bloom\<rparr>;
                       receipt = make_receipt transaction
                         \<lparr>rd_status_code = (if reason = Succeed then 1 else 0),
                          rd_used_gas = cumulative_gas pending used_gas,
                          rd_logs_bloom = bloom, rd_logs = logs\<rparr>
                   in Some (\<lparr>pdi_actual_weight = Some (X_gas_to_weight X (to_u64 used_gas)),
                             pdi_pays_fee = False\<rparr>,
                            s\<lparr>Pending := pending @ [(transaction, status, receipt)],
                              eth_events := eth_events s @ [Executed source
                                (case dest of None \<Rightarrow> replicate 20 0 | Some d \<Rightarrow> d) transaction_hash reason],
                              eth_world := w\<rparr>))))"

definition transact ::
  "'w eth_config \<Rightarrow> eth_origin \<Rightarrow> Transaction \<Rightarrow> 'w ethereum \<Rightarrow>
     ((unit + PostDispatchInfo) \<times> 'w ethereum) option" where
  "transact X o1 transaction s =
     (case ensure_ethereum_transaction o1 of
        None \<Rightarrow> Some (Inl (), s)
      | Some source \<Rightarrow>
          if X_find_pre_log X (eth_world s) \<noteq> None then None
          else (case apply_validated_transaction X source transaction s of
                  None \<Rightarrow> None
                | Some (info, s1) \<Rightarrow> Some (Inr info, s1)))"

subsection \<open>Blocks\<close>

definition current_block_hash :: "'w eth_config \<Rightarrow> 'w ethereum \<Rightarrow> H256 option" where
  "current_block_hash X s = map_option (X_header_hash X) (CurrentBlock s)"

definition store_block :: "'w eth_config \<Rightarrow> bool \<Rightarrow> U256 \<Rightarrow> 'w ethereum \<Rightarrow> 'w ethereum" where
  "store_block X post_log block_number s =
     (let transactions = map fst (Pending s);
          statuses = map (fst \<circ> snd) (Pending s);
          receipts = map (snd \<circ> snd) (Pending s);
          bloom = foldl (\<lambda>b r. logs_bloom X (rd_logs (receipt_data r)) b) (X_bloom_default X) receipts;
          cumulative_gas_used = foldl (\<lambda>_ r. rd_used_gas (receipt_data r)) 0 receipts;
          partial_header =
            \<lparr>ph_parent_hash = (case current_block_hash X s of None \<Rightarrow> replicate 32 0 | Some h \<Rightarrow> h),
             ph_beneficiary = X_find_author X (eth_world s),
             ph_state_root = X_state_root X (eth_world s),
             ph_receipts_root = X_receipts_root X receipts,
             ph_logs_bloom = bloom, ph_difficulty = 0, ph_number = block_number,
             ph_gas_limit = X_BlockGasLimit X, ph_gas_used = cumulative_gas_used,
             ph_timestamp = to_u64 (X_timestamp X (eth_world s)), ph_extra_data = [],
             ph_mix_hash = replicate 32 0, ph_nonce = replicate 8 0\<rparr>;
          block = \<lparr>eb_partial_header = partial_header, eb_transactions = transactions\<rparr>;
          s1 = s\<lparr>CurrentBlock := Some block, CurrentReceipts := Some receipts,
                 CurrentTransactionStatuses := Some statuses,
                 BlockHash := (BlockHash s)(block_number \<mapsto> X_header_hash X block)\<rparr>
      in if post_log then s1\<lparr>eth_world := X_deposit_post_log X block (eth_world s1)\<rparr> else s1)"

definition eth_genesis_build :: "'w eth_config \<Rightarrow> 'w ethereum \<Rightarrow> 'w ethereum" where
  "eth_genesis_build X s = (store_block X False 0 s)\<lparr>eth_schema := Some V3\<rparr>"

definition eth_on_finalize :: "'w eth_config \<Rightarrow> BlockNumber \<Rightarrow> 'w ethereum \<Rightarrow> 'w ethereum" where
  "eth_on_finalize X n s =
     (let s1 = store_block X (X_find_pre_log X (eth_world s) = None) (X_block_number X (eth_world s)) s;
          to_remove = n - X_BlockHashCount X - 1
      in if to_remove \<noteq> 0 then s1\<lparr>BlockHash := (BlockHash s1)(min u32_max to_remove := None)\<rparr> else s1)"

fun apply_pre_block ::
  "'w eth_config \<Rightarrow> Transaction list \<Rightarrow> Weight \<Rightarrow> 'w ethereum \<Rightarrow> (Weight \<times> 'w ethereum) option" where
  "apply_pre_block X [] weight s = Some (weight, s)"
| "apply_pre_block X (t # ts) weight s =
     (case recover_signer X t of
        None \<Rightarrow> None
      | Some source \<Rightarrow>
          (case validate_transaction_in_block X source t (eth_world s) of
             Inl _ \<Rightarrow> None
           | Inr _ \<Rightarrow>
               (case apply_validated_transaction X source t s of
                  None \<Rightarrow> None
                | Some (r, s1) \<Rightarrow>
                    apply_pre_block X ts
                      (sat_add u64_max weight (case pdi_actual_weight r of None \<Rightarrow> 0 | Some w \<Rightarrow> w)) s1)))"

definition eth_on_initialize :: "'w eth_config \<Rightarrow> 'w ethereum \<Rightarrow> (Weight \<times> 'w ethereum) option" where
  "eth_on_initialize X s =
     (let s1 = s\<lparr>Pending := []\<rparr>;
          weight = X_weight_kill_storage X
      in case (case X_find_pre_log X (eth_world s1) of
                 Some ts \<Rightarrow> apply_pre_block X ts weight s1
               | None \<Rightarrow> Some (weight, s1)) of
           None \<Rightarrow> None
         | Some (weight', s2) \<Rightarrow> Some (sat_add u64_max weight' (X_weight_reads_writes X 2 2), s2))"

definition eth_on_runtime_upgrade :: "'w eth_config \<Rightarrow> 'w ethereum \<Rightarrow> Weight \<times> 'w ethereum" where
  "eth_on_runtime_upgrade X s = (X_weight_write X, s\<lparr>eth_schema := Some V3\<rparr>)"

text \<open>\<^verbatim>\<open>EthereumBlockHashMapping\<close>: a hash that is not stored is zero.\<close>

definition eth_block_hash :: "'w ethereum \<Rightarrow> u32 \<Rightarrow> H256" where
  "eth_block_hash s number = (case BlockHash s number of None \<Rightarrow> replicate 32 0 | Some h \<Rightarrow> h)"

subsection \<open>What validation guarantees\<close>

lemma validate_commonE:
  assumes "validate_transaction_common X source d w = Inr (nonce, priority)"
  obtains gas_price where "tx_price d = Some gas_price" "X_min_gas_price X w \<le> gas_price"
    "\<forall>c. td_chain_id d = Some c \<longrightarrow> c = X_ChainId X" "td_gas_limit d < X_BlockGasLimit X"
    "sat_add u256_max (td_value d) (tx_fee d gas_price) \<le> fst (X_account_basic X w source)"
    "nonce = snd (X_account_basic X w source)" "priority = tx_priority X d w"
  using assms
  by (auto simp: validate_transaction_common_def Let_def split: if_splits option.splits prod.splits)

lemma in_blockE:
  assumes "validate_transaction_in_block X source t w = Inr ()"
  obtains priority where
    "validate_transaction_common X source (transaction_data t) w = Inr (td_nonce (transaction_data t), priority)"
  using assms
  by (auto simp: validate_transaction_in_block_def Let_def split: sum.splits prod.splits if_splits)

lemma execute_args_priced:
  assumes "tx_price (transaction_data t) = Some p" and "X_min_gas_price X w \<le> p"
  shows "\<exists>args. execute_args X t w = Inr (args, td_action (transaction_data t))"
  using assms by (cases t) (auto simp: tx_price_def Let_def checked_sub_def)

lemma in_block_executes:
  assumes "validate_transaction_in_block X source t w = Inr ()"
  shows "\<exists>args. execute_args X t w = Inr (args, td_action (transaction_data t))"
  using assms by (elim in_blockE validate_commonE) (rule execute_args_priced)

lemma in_block_in_pool:
  assumes "validate_transaction_in_block X source t w = Inr ()"
  shows "\<exists>v. validate_transaction_in_pool X source t w = Inr v \<and> ev_requires v = [] \<and>
    ev_provides v = [(source, td_nonce (transaction_data t))]"
  using assms by (elim in_blockE) (simp add: validate_transaction_in_pool_def Let_def)

lemma execute_after_args:
  assumes "execute_args X t w = Inr (args, action)"
  shows "fst (execute X source t w) \<noteq> Inl GasPriceTooLow"
  using assms by (cases action) (auto simp: execute_def split: prod.splits option.splits)

lemma apply_total:
  assumes "fst (execute X source t (eth_world s)) = Inr r"
  shows "apply_validated_transaction X source t s \<noteq> None"
  using assms by (auto simp: apply_validated_transaction_def Let_def split: prod.splits)

text \<open>C27. A transaction that passes validation in a block has the nonce of its sender, the chain's id,
  a gas limit below the block's, and a sender whose balance covers its value and its whole fee; the pool
  accepts it as ready, with nothing required; and executing it cannot fail in the pallet's own check of
  the gas price, so that applying it panics only if the EVM runner itself reports an error.\<close>

theorem validated_in_block_can_pay:
  assumes "validate_transaction_in_block X source t w = Inr ()" and "d = transaction_data t"
    and "w = eth_world s"
  shows "td_nonce d = snd (X_account_basic X w source) \<and>
    (td_chain_id d = None \<or> td_chain_id d = Some (X_ChainId X)) \<and>
    td_gas_limit d < X_BlockGasLimit X \<and>
    (\<exists>price. tx_price d = Some price \<and> X_min_gas_price X w \<le> price \<and>
      sat_add u256_max (td_value d) (tx_fee d price) \<le> fst (X_account_basic X w source)) \<and>
    (\<exists>v. validate_transaction_in_pool X source t w = Inr v \<and> ev_requires v = [] \<and>
      ev_provides v = [(source, td_nonce d)]) \<and>
    (fst (execute X source t w) \<noteq> Inl RunnerError \<longrightarrow>
      (\<exists>r. apply_validated_transaction X source t s = Some r))"
proof -
  from assms obtain priority where
    c: "validate_transaction_common X source d w = Inr (td_nonce d, priority)" by (auto elim: in_blockE)
  from in_block_executes [OF assms(1)] obtain args where
    "execute_args X t w = Inr (args, td_action (transaction_data t))" by blast
  then have "fst (execute X source t w) \<noteq> Inl GasPriceTooLow" by (rule execute_after_args)
  then have "fst (execute X source t w) \<noteq> Inl RunnerError \<longrightarrow>
      (\<exists>r. apply_validated_transaction X source t s = Some r)"
    using apply_total [of X source t s] assms(3) by (cases "fst (execute X source t w)") (auto, metis execute_error.exhaust)
  with in_block_in_pool [OF assms(1)] assms(2) c show ?thesis
    by (elim validate_commonE) (cases "td_chain_id d"; simp)
qed

subsection \<open>Priority\<close>

lemma wrap_sub_small:
  assumes "a < b" and "b \<le> m"
  shows "wrap_sub m a b = Suc m - (b - a)"
  using assms by (simp add: wrap_sub_def)

text \<open>The priority subtracts the weight of the gas limit from the scaled tip without a check. Of two
  transactions of the same gas limit and the same standing, the one whose scaled tip does not cover that
  weight gets a higher priority than the one whose tip does.\<close>

theorem small_tip_outranks:
  assumes "X_gas_to_weight X (to_u64 (td_gas_limit d)) \<le> 2 ^ 63"
    and "td_gas_limit d' = td_gas_limit d" and "is_lower_priority X d' w = is_lower_priority X d w"
    and "scale = (if is_lower_priority X d w then 20000 else 10000)"
    and "tx_tip X d w div scale < X_gas_to_weight X (to_u64 (td_gas_limit d))"
    and "X_gas_to_weight X (to_u64 (td_gas_limit d)) \<le> tx_tip X d' w div scale"
  shows "tx_priority X d' w < tx_priority X d w"
proof -
  define g where "g = X_gas_to_weight X (to_u64 (td_gas_limit d))"
  have bound: "tx_tip X x w \<le> u64_max" for x
    by (auto simp: tx_tip_def to_u64_def split: option.splits)
  have "tx_tip X d' w div scale \<le> u64_max div 10000"
    using div_le_mono2 [of 10000 scale "tx_tip X d' w"] div_le_mono [OF bound [of d'], of 10000] assms(4)
    by (auto split: if_splits)
  then have t': "tx_tip X d' w div scale \<le> 2 ^ 61" by (simp add: u64_max_def)
  have "tx_priority X d' w = tx_tip X d' w div scale - g"
    using assms bound [of d'] order_trans [OF div_le_dividend bound [of d']]
    by (simp add: tx_priority_def g_def wrap_sub_exact)
  moreover have "tx_priority X d w = Suc u64_max - (g - tx_tip X d w div scale)"
    using assms by (simp add: tx_priority_def g_def wrap_sub_small u64_max_def)
  ultimately show ?thesis
    using t' assms(1) by (simp add: g_def u64_max_def)
qed

subsection \<open>A sample runtime\<close>

text \<open>A chain with one rich account, nonce 3, whose EVM runs every call for 21000 gas.\<close>

definition sample_X :: "BlockNumber eth_config" where
  "sample_X =
     \<lparr>X_hash_legacy = (\<lambda>t. [1]), X_hash_2930 = (\<lambda>t. [2]), X_hash_1559 = (\<lambda>t. [3]),
      X_transaction_hash = (\<lambda>t. [4]),
      X_ecdsa_recover = (\<lambda>sig msg. Some [7]), X_keccak = (\<lambda>b. replicate 32 7),
      X_record_call = (\<lambda>gas i a. 21000 \<le> gas), X_record_create = (\<lambda>gas i a. 53000 \<le> gas),
      X_ChainId = 2160, X_BlockGasLimit = 15000000,
      X_min_gas_price = (\<lambda>w. 1000), X_account_basic = (\<lambda>w a. (10 ^ 20, 3)),
      X_is_in_white_list = (\<lambda>w a. False), X_gas_to_weight = (\<lambda>gas. gas * 20000),
      X_runner_call = (\<lambda>a b args w. (Some \<lparr>ci_exit_reason = Succeed, ci_used_gas = 21000, ci_logs = []\<rparr>, w)),
      X_runner_create = (\<lambda>a args w. (None, w)),
      X_bloom_default = [], X_bloom_accrue = (\<lambda>b bloom. b @ bloom),
      X_receipts_root = (\<lambda>rs. [5]),
      X_header_hash = (\<lambda>b. [of_nat (ph_number (eb_partial_header b))]),
      X_find_author = (\<lambda>w. replicate 20 9), X_state_root = (\<lambda>w. [6]), X_timestamp = (\<lambda>w. 12),
      X_find_pre_log = (\<lambda>w. None), X_deposit_post_log = (\<lambda>b w. w),
      X_block_number = (\<lambda>w. w), X_BlockHashCount = 1,
      X_weight_kill_storage = 1, X_weight_reads_writes = (\<lambda>r w. r + w), X_weight_write = 1\<rparr>"

definition sample_eth_tx :: "U256 \<Rightarrow> Transaction" where
  "sample_eth_tx price = TxLegacy \<lparr>lt_nonce = 3, lt_gas_price = price, lt_gas_limit = 21000,
     lt_action = Call (replicate 20 8), lt_value = 5, lt_input = [], lt_sig_r = [1], lt_sig_s = [2],
     lt_sig_standard_v = 0, lt_sig_chain_id = Some 2160\<rparr>"

definition sample_eth :: "BlockNumber ethereum" where
  "sample_eth = \<lparr>Pending = [], CurrentBlock = None, CurrentReceipts = None,
     CurrentTransactionStatuses = None, BlockHash = Map.empty, eth_schema = None, eth_events = [],
     eth_world = 0\<rparr>"

theorem validated_in_block_can_pay_witness:
  "validate_transaction_in_block sample_X [1] (sample_eth_tx 2000) 0 = Inr () \<and>
   (\<exists>v. validate_transaction_in_pool sample_X [1] (sample_eth_tx 2000) 0 = Inr v \<and> ev_requires v = []) \<and>
   (\<exists>r. apply_validated_transaction sample_X [1] (sample_eth_tx 2000) sample_eth = Some r)"
proof -
  have v: "validate_transaction_in_block sample_X [1] (sample_eth_tx 2000) 0 = Inr ()" by code_simp
  have w: "(0::nat) = eth_world sample_eth" by (simp add: sample_eth_def)
  have e: "fst (execute sample_X [1] (sample_eth_tx 2000) 0) \<noteq> Inl RunnerError"
    by (simp add: execute_def sample_eth_tx_def sample_X_def checked_sub_def Let_def)
  from v e validated_in_block_can_pay [OF v refl w] show ?thesis by blast
qed

theorem small_tip_outranks_witness:
  "tx_priority sample_X (transaction_data (sample_eth_tx 10000000000000)) 0 <
   tx_priority sample_X (transaction_data (sample_eth_tx 1000)) 0"
  by (rule small_tip_outranks [where scale = 10000]) code_simp+

end
