(* ===== verification/Ethereum_Blocks.thy ===== *)
theory Ethereum_Blocks
  imports Ethereum_Pallet
begin

section \<open>Ethereum blocks over the life of the chain\<close>

text \<open>
  The hooks and the call of the Ethereum pallet as a step relation: genesis, the start of a block,
  transactions, the end of a block, a runtime upgrade, and whatever the other pallets do to their own
  state in between. \<open>eth_run X n in_block s\<close>: after \<open>n\<close> finished blocks the pallet can be in state \<open>s\<close>,
  inside the next block or between blocks.
\<close>

inductive eth_run :: "'w eth_config \<Rightarrow> nat \<Rightarrow> bool \<Rightarrow> 'w ethereum \<Rightarrow> bool" for X :: "'w eth_config" where
  genesis: "Pending s = [] \<Longrightarrow> BlockHash s = Map.empty \<Longrightarrow> CurrentBlock s = None \<Longrightarrow>
    eth_run X 0 False (eth_genesis_build X s)"
| initialize: "eth_run X n False s \<Longrightarrow> eth_on_initialize X s = Some (weight, s') \<Longrightarrow> eth_run X n True s'"
| transact: "eth_run X n True s \<Longrightarrow> transact X origin t s = Some (r, s') \<Longrightarrow> eth_run X n True s'"
| finalize: "eth_run X n True s \<Longrightarrow> X_block_number X (eth_world s) = Suc n \<Longrightarrow> Suc n \<le> u32_max \<Longrightarrow>
    eth_run X (Suc n) False (eth_on_finalize X (Suc n) s)"
| upgrade: "eth_run X n b s \<Longrightarrow> eth_run X n b (snd (eth_on_runtime_upgrade X s))"
| others: "eth_run X n b s \<Longrightarrow> eth_run X n b (s\<lparr>eth_world := w\<rparr>)"

subsection \<open>Pending transactions\<close>

definition used_gases :: "Receipt list \<Rightarrow> U256 list" where
  "used_gases rs = map (rd_used_gas \<circ> receipt_data) rs"

fun same_kind :: "Transaction \<Rightarrow> Receipt \<Rightarrow> bool" where
  "same_kind (TxLegacy _) (RcLegacy _) = True"
| "same_kind (TxEIP2930 _) (RcEIP2930 _) = True"
| "same_kind (TxEIP1559 _) (RcEIP1559 _) = True"
| "same_kind _ _ = False"

text \<open>Entry \<open>i\<close> is numbered \<open>i\<close>, its receipt has the kind of its transaction and the logs and bloom of its
  status, and the gas in the receipts accumulates.\<close>

definition entry_ok :: "'w eth_config \<Rightarrow> nat \<Rightarrow> Transaction \<times> TransactionStatus \<times> Receipt \<Rightarrow> bool" where
  "entry_ok X i e \<longleftrightarrow>
     (case e of (t, status, receipt) \<Rightarrow>
        ts_transaction_index status = i mod Suc u32_max \<and> ts_transaction_hash status = X_transaction_hash X t \<and>
        same_kind t receipt \<and> rd_logs (receipt_data receipt) = ts_logs status \<and>
        rd_logs_bloom (receipt_data receipt) = ts_logs_bloom status)"

definition pending_ok :: "'w eth_config \<Rightarrow> (Transaction \<times> TransactionStatus \<times> Receipt) list \<Rightarrow> bool" where
  "pending_ok X p \<longleftrightarrow>
     (\<forall>i < length p. entry_ok X i (p ! i)) \<and> sorted (used_gases (map (snd \<circ> snd) p)) \<and>
     (\<forall>g \<in> set (used_gases (map (snd \<circ> snd) p)). g \<le> u256_max)"

lemma receipt_data_make [simp]: "receipt_data (make_receipt t d) = d"
  by (cases t) simp_all

lemma same_kind_make [simp]: "same_kind t (make_receipt t d)"
  by (cases t) simp_all

lemma pending_ok_Nil [simp]: "pending_ok X []"
  by (simp add: pending_ok_def used_gases_def)

lemma cumulative_gas_ge:
  assumes "\<forall>g \<in> set (used_gases (map (snd \<circ> snd) p)). g \<le> u256_max"
    and "sorted (used_gases (map (snd \<circ> snd) p))" and "g \<in> set (used_gases (map (snd \<circ> snd) p))"
  shows "g \<le> cumulative_gas p used"
proof -
  from assms(3) have "p \<noteq> []" by (auto simp: used_gases_def)
  then have "last (used_gases (map (snd \<circ> snd) p)) = rd_used_gas (receipt_data (snd (snd (last p))))"
    by (simp add: used_gases_def last_map)
  moreover have "g \<le> last (used_gases (map (snd \<circ> snd) p))"
    using assms(2,3) by (metis in_set_conv_nth last_conv_nth length_pos_if_in_set length_greater_0_conv
        diff_less less_Suc_eq_le Suc_pred' sorted_nth_mono zero_less_one)
  ultimately show ?thesis
    using assms(1,3) \<open>p \<noteq> []\<close> by (auto simp: cumulative_gas_def sat_add_def)
qed

lemma pending_ok_snoc:
  assumes "pending_ok X p" and "entry_ok X (length p) (t, status, receipt)"
    and "rd_used_gas (receipt_data receipt) = cumulative_gas p used" and "used \<le> u256_max"
  shows "pending_ok X (p @ [(t, status, receipt)])"
proof -
  have "cumulative_gas p used \<le> u256_max" using assms(4) by (simp add: cumulative_gas_def)
  moreover have "\<forall>g \<in> set (used_gases (map (snd \<circ> snd) p)). g \<le> cumulative_gas p used"
    using cumulative_gas_ge assms(1) unfolding pending_ok_def by blast
  ultimately show ?thesis
    using assms by (auto simp: pending_ok_def nth_append used_gases_def sorted_append less_Suc_eq)
qed

text \<open>The gas the EVM reports is a \<^verbatim>\<open>U256\<close>.\<close>

definition runner_in_range :: "'w eth_config \<Rightarrow> bool" where
  "runner_in_range X \<longleftrightarrow>
     (\<forall>a b args w i w'. X_runner_call X a b args w = (Some i, w') \<longrightarrow> ci_used_gas i \<le> u256_max) \<and>
     (\<forall>a args w i w'. X_runner_create X a args w = (Some i, w') \<longrightarrow> cri_used_gas i \<le> u256_max)"

lemma execute_in_range:
  assumes "runner_in_range X" and "execute X source t w = (Inr (to, c, info), w')"
  shows "fst (snd (info_parts info to')) \<le> u256_max"
  using assms
  by (auto simp: execute_def runner_in_range_def split: sum.splits prod.splits TransactionAction.splits option.splits)
    blast+

lemma apply_validatedE:
  assumes "apply_validated_transaction X source t s = Some (r, s')" and "runner_in_range X"
  obtains status receipt used events w where
    "s' = s\<lparr>Pending := Pending s @ [(t, status, receipt)], eth_events := events, eth_world := w\<rparr>"
    "entry_ok X (length (Pending s)) (t, status, receipt)" "ts_from status = source"
    "rd_used_gas (receipt_data receipt) = cumulative_gas (Pending s) used" "used \<le> u256_max"
proof -
  from assms(1) obtain to c info w where e: "execute X source t (eth_world s) = (Inr (to, c, info), w)"
    by (auto simp: apply_validated_transaction_def Let_def split: prod.splits sum.splits)
  obtain reason used logs ca dest where p: "info_parts info to = (reason, used, logs, ca, dest)"
    by (metis prod_cases5)
  from execute_in_range [OF assms(2) e, of to] p have "used \<le> u256_max" by simp
  have eq: "s' = s\<lparr>Pending := Pending s @ [(t,
        \<lparr>ts_transaction_hash = X_transaction_hash X t,
         ts_transaction_index = length (Pending s) mod Suc u32_max, ts_from = source, ts_to = to,
         ts_contract_address = ca, ts_logs = logs, ts_logs_bloom = logs_bloom X logs (X_bloom_default X)\<rparr>,
        make_receipt t
          \<lparr>rd_status_code = (if reason = Succeed then 1 else 0), rd_used_gas = cumulative_gas (Pending s) used,
           rd_logs_bloom = logs_bloom X logs (X_bloom_default X), rd_logs = logs\<rparr>)],
      eth_events := eth_events s', eth_world := w\<rparr>"
    using assms(1) e p by (auto simp: apply_validated_transaction_def Let_def)
  show ?thesis
    by (rule that [where used = used, OF eq])
      (simp_all add: entry_ok_def \<open>used \<le> u256_max\<close>)
qed

lemma apply_pending_ok:
  assumes "apply_validated_transaction X source t s = Some (r, s')" and "runner_in_range X"
    and "pending_ok X (Pending s)"
  shows "pending_ok X (Pending s')"
  by (rule apply_validatedE [OF assms(1,2)]) (simp add: pending_ok_snoc [OF assms(3)])

text \<open>What a transaction leaves alone.\<close>

definition same_blocks :: "'w ethereum \<Rightarrow> 'w ethereum \<Rightarrow> bool" where
  "same_blocks s s' \<longleftrightarrow>
     CurrentBlock s' = CurrentBlock s \<and> CurrentReceipts s' = CurrentReceipts s \<and>
     CurrentTransactionStatuses s' = CurrentTransactionStatuses s \<and> BlockHash s' = BlockHash s"

lemma same_blocks_trans: "same_blocks s s' \<Longrightarrow> same_blocks s' s'' \<Longrightarrow> same_blocks s s''"
  by (simp add: same_blocks_def)

lemma apply_same_blocks:
  assumes "apply_validated_transaction X source t s = Some (r, s')"
  shows "same_blocks s s'"
  using assms
  by (auto simp: apply_validated_transaction_def Let_def same_blocks_def split: prod.splits sum.splits)

lemma transact_cases:
  assumes "transact X origin t s = Some (r, s')"
  obtains "s' = s" | source i where "apply_validated_transaction X source t s = Some (i, s')"
  using assms by (auto simp: transact_def split: option.splits if_splits)

lemma apply_pre_block_keeps:
  assumes "apply_pre_block X ts weight s = Some (weight', s')" and "runner_in_range X"
    and "pending_ok X (Pending s)"
  shows "pending_ok X (Pending s') \<and> same_blocks s s'"
  using assms
proof (induction X ts weight s rule: apply_pre_block.induct)
  case (1 X weight s)
  then show ?case by (simp add: same_blocks_def)
next
  case (2 X t ts weight s)
  from "2.prems"(1) obtain source r s1 where
    a: "recover_signer X t = Some source" "validate_transaction_in_block X source t (eth_world s) = Inr ()"
      "apply_validated_transaction X source t s = Some (r, s1)"
    by (auto split: option.splits sum.splits)
  with 2 apply_pending_ok [OF a(3)] have "pending_ok X (Pending s') \<and> same_blocks s1 s'"
    by simp
  with same_blocks_trans [OF apply_same_blocks [OF a(3)]] show ?case by blast
qed

lemma initialize_keeps:
  assumes "eth_on_initialize X s = Some (weight, s')" and "runner_in_range X"
  shows "pending_ok X (Pending s') \<and> same_blocks s s'"
proof -
  let ?s = "s\<lparr>Pending := []\<rparr>"
  have "same_blocks s ?s" "pending_ok X (Pending ?s)" by (simp_all add: same_blocks_def)
  with assms show ?thesis
    by (auto simp: eth_on_initialize_def Let_def split: option.splits
        dest!: apply_pre_block_keeps intro: same_blocks_trans)
qed

subsection \<open>Stored blocks\<close>

text \<open>Between blocks, the current block is the last one: it has the number of finished blocks, exactly the
  transactions that were pending, as many statuses and receipts, and its gas is that of its last receipt.\<close>

definition stored_ok :: "'w eth_config \<Rightarrow> nat \<Rightarrow> 'w ethereum \<Rightarrow> bool" where
  "stored_ok X n s \<longleftrightarrow>
     (\<exists>block p. CurrentBlock s = Some block \<and> pending_ok X p \<and>
        eb_transactions block = map fst p \<and>
        CurrentTransactionStatuses s = Some (map (fst \<circ> snd) p) \<and>
        CurrentReceipts s = Some (map (snd \<circ> snd) p) \<and>
        ph_number (eb_partial_header block) = n \<and>
        ph_gas_used (eb_partial_header block) =
          (if p = [] then 0 else rd_used_gas (receipt_data (snd (snd (last p))))) \<and>
        BlockHash s n = Some (X_header_hash X block))"

text \<open>The hashes kept: genesis, and a window of the last \<^verbatim>\<open>BlockHashCount\<close> blocks before the current one.\<close>

definition window :: "'w eth_config \<Rightarrow> nat \<Rightarrow> nat set" where
  "window X n = {k. k \<le> n \<and> (k = 0 \<or> n \<le> k + X_BlockHashCount X)}"

lemma foldl_last: "foldl (\<lambda>_ x. f x) a xs = (if xs = [] then a else f (last xs))"
  by (induction xs arbitrary: a) simp_all

lemma store_block_stored:
  assumes "pending_ok X (Pending s)"
  shows "stored_ok X n (store_block X post_log n s)"
  using assms
  by (auto simp: stored_ok_def store_block_def Let_def foldl_last last_map intro!: exI [of _ "Pending s"])

lemma store_block_frame [simp]:
  "Pending (store_block X post_log n s) = Pending s"
  "dom (BlockHash (store_block X post_log n s)) = insert n (dom (BlockHash s))"
  by (simp_all add: store_block_def Let_def)

lemma store_block_parent:
  assumes "CurrentBlock s = Some b" and "CurrentBlock (store_block X post_log n s) = Some b'"
  shows "ph_parent_hash (eb_partial_header b') = X_header_hash X b"
  using assms by (auto simp: store_block_def Let_def current_block_hash_def split: if_splits)

lemma finalize_hashes:
  assumes "dom (BlockHash s) = window X n" and "X_block_number X (eth_world s) = Suc n" and "Suc n \<le> u32_max"
  shows "dom (BlockHash (eth_on_finalize X (Suc n) s)) = window X (Suc n)"
  using assms by (auto simp: eth_on_finalize_def Let_def window_def)

lemma finalize_stored:
  assumes "pending_ok X (Pending s)" and "X_block_number X (eth_world s) = Suc n" and "Suc n \<le> u32_max"
  shows "stored_ok X (Suc n) (eth_on_finalize X (Suc n) s)"
  using store_block_stored [OF assms(1), of "Suc n"] assms(2,3)
  by (auto simp: eth_on_finalize_def Let_def stored_ok_def)

definition eth_inv :: "'w eth_config \<Rightarrow> nat \<Rightarrow> 'w ethereum \<Rightarrow> bool" where
  "eth_inv X n s \<longleftrightarrow> pending_ok X (Pending s) \<and> stored_ok X n s \<and> dom (BlockHash s) = window X n"

lemma stored_ok_same: "stored_ok X n s \<Longrightarrow> same_blocks s s' \<Longrightarrow> stored_ok X n s'"
  by (simp add: stored_ok_def same_blocks_def)

lemma eth_inv_same: "eth_inv X n s \<Longrightarrow> pending_ok X (Pending s') \<Longrightarrow> same_blocks s s' \<Longrightarrow> eth_inv X n s'"
  using stored_ok_same [of X n s s'] by (simp add: eth_inv_def same_blocks_def)

lemma finalize_pending [simp]: "Pending (eth_on_finalize X n s) = Pending s"
  by (simp add: eth_on_finalize_def Let_def)

lemma eth_run_inv:
  assumes "eth_run X n b s" and "runner_in_range X"
  shows "eth_inv X n s"
  using assms
proof (induction rule: eth_run.induct)
  case (genesis s)
  then show ?case
    using store_block_stored [of X s 0 False]
    by (auto simp: eth_inv_def eth_genesis_build_def stored_ok_def window_def)
next
  case (initialize n s weight s')
  then show ?case using initialize_keeps eth_inv_same by blast
next
  case (transact n s origin t r s')
  from transact.hyps(2) show ?case
  proof (cases rule: transact_cases)
    case 1
    with transact show ?thesis by simp
  next
    case (2 source i)
    with transact show ?thesis
      using apply_pending_ok apply_same_blocks eth_inv_same unfolding eth_inv_def by metis
  qed
next
  case (finalize n s)
  then show ?case by (simp add: eth_inv_def finalize_hashes finalize_stored)
next
  case (upgrade n b s)
  then show ?case by (simp add: eth_inv_def eth_on_runtime_upgrade_def stored_ok_def)
next
  case (others n b s w)
  then show ?case by (simp add: eth_inv_def stored_ok_def)
qed


subsection \<open>Properties\<close>

text \<open>C28. Between blocks the stored block, receipts and statuses are of the same transactions: transaction
  \<open>i\<close> of the current block has status \<open>i\<close>, numbered \<open>i\<close> with its hash, and receipt \<open>i\<close>, of its kind and
  with the logs of the status; gas accumulates along the receipts, and the block's gas is their last.\<close>

theorem stored_block_matches_receipts:
  assumes "eth_run X n False s" and "runner_in_range X"
  shows "\<exists>block receipts statuses.
    CurrentBlock s = Some block \<and> CurrentReceipts s = Some receipts \<and>
    CurrentTransactionStatuses s = Some statuses \<and> ph_number (eb_partial_header block) = n \<and>
    length receipts = length (eb_transactions block) \<and> length statuses = length (eb_transactions block) \<and>
    (\<forall>i < length (eb_transactions block).
      entry_ok X i (eb_transactions block ! i, statuses ! i, receipts ! i)) \<and>
    sorted (used_gases receipts) \<and>
    ph_gas_used (eb_partial_header block) = last (0 # used_gases receipts)"
proof -
  from eth_run_inv [OF assms] obtain block p where
    b: "CurrentBlock s = Some block" "eb_transactions block = map fst p"
      "CurrentTransactionStatuses s = Some (map (fst \<circ> snd) p)" "CurrentReceipts s = Some (map (snd \<circ> snd) p)"
      "ph_number (eb_partial_header block) = n" "pending_ok X p"
      "ph_gas_used (eb_partial_header block) = (if p = [] then 0 else rd_used_gas (receipt_data (snd (snd (last p)))))"
    by (auto simp: eth_inv_def stored_ok_def)
  then show ?thesis by (simp add: pending_ok_def used_gases_def last_map)
qed

text \<open>C29. After \<open>n\<close> blocks the hashes kept are exactly those of genesis and of the last
  \<^verbatim>\<open>BlockHashCount + 1\<close> blocks; the newest is the hash of the current block, and outside the window the
  mapping the EVM reads returns zero.\<close>

theorem block_hash_window:
  assumes "eth_run X n b s" and "runner_in_range X"
  shows "dom (BlockHash s) = {k. k \<le> n \<and> (k = 0 \<or> n \<le> k + X_BlockHashCount X)} \<and>
    Some (eth_block_hash s n) = current_block_hash X s \<and>
    (\<forall>k. 0 < k \<and> k + X_BlockHashCount X < n \<longrightarrow> eth_block_hash s k = replicate 32 0)"
proof -
  have inv: "stored_ok X n s" "dom (BlockHash s) = window X n"
    using eth_run_inv [OF assms] by (simp_all add: eth_inv_def)
  then have "BlockHash s k = None" if "0 < k" "k + X_BlockHashCount X < n" for k
    using that domIff [of k "BlockHash s"] by (simp add: window_def)
  with inv show ?thesis
    by (auto simp: stored_ok_def window_def eth_block_hash_def current_block_hash_def)
qed

text \<open>Blocks are chained: the block that ends a run names the hash of the block before it, which stays
  in the kept hashes, as its parent.\<close>

theorem blocks_are_chained:
  assumes "eth_run X n True s" and "runner_in_range X"
    and "X_block_number X (eth_world s) = Suc n" and "Suc n \<le> u32_max" and "0 < X_BlockHashCount X"
  shows "\<exists>block. CurrentBlock (eth_on_finalize X (Suc n) s) = Some block \<and>
    BlockHash (eth_on_finalize X (Suc n) s) n = Some (ph_parent_hash (eb_partial_header block)) \<and>
    BlockHash (eth_on_finalize X (Suc n) s) (Suc n) = Some (X_header_hash X block)"
proof -
  from eth_run_inv [OF assms(1,2)] obtain b where
    b: "CurrentBlock s = Some b" "BlockHash s n = Some (X_header_hash X b)" and p: "pending_ok X (Pending s)"
    by (auto simp: eth_inv_def stored_ok_def)
  from finalize_stored [OF p assms(3,4)] obtain b' where
    b': "CurrentBlock (eth_on_finalize X (Suc n) s) = Some b'"
      "BlockHash (eth_on_finalize X (Suc n) s) (Suc n) = Some (X_header_hash X b')"
    by (auto simp: stored_ok_def)
  have "CurrentBlock (store_block X pl (Suc n) s) = CurrentBlock (eth_on_finalize X (Suc n) s)" for pl
    using assms(3) by (simp add: eth_on_finalize_def Let_def store_block_def)
  with b(1) b'(1) have "ph_parent_hash (eb_partial_header b') = X_header_hash X b"
    by (metis store_block_parent)
  moreover have "BlockHash (eth_on_finalize X (Suc n) s) n = BlockHash s n"
    using assms(3-5) by (auto simp: eth_on_finalize_def Let_def store_block_def)
  ultimately show ?thesis using b b' by simp
qed

text \<open>A chain of one block with one transaction.\<close>

definition sample_open :: "BlockNumber ethereum" where
  "sample_open = snd (the (transact sample_X (EthereumTransaction [1]) (sample_eth_tx 2000)
     (snd (the (eth_on_initialize sample_X ((eth_genesis_build sample_X sample_eth)\<lparr>eth_world := 1\<rparr>))))))"

lemma sample_in_range: "runner_in_range sample_X"
  by (simp add: runner_in_range_def sample_X_def u256_max_def)

lemmas sample_run_defs = sample_open_def sample_X_def sample_eth_tx_def sample_eth_def Let_def
  transact_def eth_on_initialize_def eth_genesis_build_def store_block_def apply_validated_transaction_def
  execute_def checked_sub_def

lemma sample_open_run: "eth_run sample_X 0 True sample_open"
proof -
  let ?g = "(eth_genesis_build sample_X sample_eth)\<lparr>eth_world := 1\<rparr>"
  let ?i = "snd (the (eth_on_initialize sample_X ?g))"
  have g: "eth_run sample_X 0 False ?g"
    by (rule eth_run.others, rule eth_run.genesis) (simp_all add: sample_eth_def)
  have "eth_on_initialize sample_X ?g = Some (fst (the (eth_on_initialize sample_X ?g)), ?i)"
    by (simp add: eth_on_initialize_def sample_X_def Let_def)
  with g have i: "eth_run sample_X 0 True ?i" by (rule eth_run.initialize)
  have "transact sample_X (EthereumTransaction [1]) (sample_eth_tx 2000) ?i =
      Some (fst (the (transact sample_X (EthereumTransaction [1]) (sample_eth_tx 2000) ?i)), sample_open)"
    by (simp add: sample_run_defs)
  with i show ?thesis by (rule eth_run.transact)
qed

lemma sample_open_number: "X_block_number sample_X (eth_world sample_open) = Suc 0"
  by (simp add: sample_run_defs)

lemma sample_closed_run: "eth_run sample_X (Suc 0) False (eth_on_finalize sample_X (Suc 0) sample_open)"
  by (rule eth_run.finalize [OF sample_open_run sample_open_number]) (simp add: u32_max_def)

theorem stored_block_matches_receipts_witness:
  "\<exists>block receipts. CurrentBlock (eth_on_finalize sample_X 1 sample_open) = Some block \<and>
    CurrentReceipts (eth_on_finalize sample_X 1 sample_open) = Some receipts \<and>
    length receipts = length (eb_transactions block)"
  using stored_block_matches_receipts [OF sample_closed_run sample_in_range] by (simp only: One_nat_def) blast

theorem block_hash_window_witness:
  "dom (BlockHash (eth_on_finalize sample_X 1 sample_open)) = {0, 1}"
proof -
  have "{k. k \<le> Suc 0 \<and> (k = 0 \<or> Suc 0 \<le> k + X_BlockHashCount sample_X)} = {0, Suc 0}" by auto
  with block_hash_window [OF sample_closed_run sample_in_range] show ?thesis by simp
qed

theorem blocks_are_chained_witness:
  "\<exists>block. CurrentBlock (eth_on_finalize sample_X (Suc 0) sample_open) = Some block \<and>
    BlockHash (eth_on_finalize sample_X (Suc 0) sample_open) 0 = Some (ph_parent_hash (eb_partial_header block))"
proof -
  have "Suc 0 \<le> u32_max" "0 < X_BlockHashCount sample_X" by (simp_all add: u32_max_def sample_X_def)
  from blocks_are_chained [OF sample_open_run sample_in_range sample_open_number this] show ?thesis by blast
qed

end
