(* ===== verification/Reward_Fn.thy ===== *)
theory Reward_Fn
  imports Interfaces
begin

section \<open>The inflation function (\<^verbatim>\<open>frame/staking/reward-fn\<close>)\<close>

text \<open>
  Inflation as a function of the staked fraction: a line up to the ideal stake and \<open>2\<^sup>-\<^sup>y\<close> beyond it, by a
  Taylor series in big integers. A \<^verbatim>\<open>BigUint\<close> is a natural number and its stripped length the number of
  its limbs in base \<open>2\<^sup>3\<^sup>2\<close>. Long division, which the library defines only when the dividend has more limbs
  than the divisor and that has more than one, is a parameter, as are the operations of the fixed-point type.

  The properties: the division by cases of \<^verbatim>\<open>div_by_stripped\<close> is the division of natural numbers; the
  series stays between its first two partial sums when the exponent is at most one, so that the function
  returns it; and at the ideal stake the inflation is whole.
\<close>

function limbs :: "nat \<Rightarrow> nat" where
  "limbs n = (if n < 2 ^ 32 then 1 else Suc (limbs (n div 2 ^ 32)))"
  by pat_completeness auto
termination
  by (relation "measure id") auto

declare limbs.simps [simp del]

record perthing =
  P_ACCURACY :: nat
  P_div :: "nat \<Rightarrow> nat \<Rightarrow> nat"
  P_from_percent :: "nat \<Rightarrow> nat"
  P_from_rational :: "nat \<Rightarrow> nat \<Rightarrow> nat"
  P_big_div :: "nat \<Rightarrow> nat \<Rightarrow> nat option"

record INPoSParam =
  ln2_div_d :: nat
  np_x_ideal :: nat
  np_x :: nat
  np_accuracy :: nat

definition div_by_stripped :: "perthing \<Rightarrow> nat \<Rightarrow> nat \<Rightarrow> nat" where
  "div_by_stripped P a b =
     (if limbs b = 1 then a div b
      else if limbs b > limbs a then 0
      else if limbs b = limbs a then
        (case P_big_div P (a * 100000 ^ 2) b of None \<Rightarrow> 0 | Some r \<Rightarrow> r) div 100000 div 100000
      else (case P_big_div P a b of None \<Rightarrow> 0 | Some r \<Rightarrow> r))"

definition compute_taylor_term :: "perthing \<Rightarrow> nat \<Rightarrow> nat \<Rightarrow> INPoSParam \<Rightarrow> nat" where
  "compute_taylor_term P k previous_taylor_term p =
     (let x_minus_x_ideal = np_x p - np_x_ideal p;
          res = previous_taylor_term * x_minus_x_ideal * ln2_div_d p div k
      in div_by_stripped P (div_by_stripped P res (np_accuracy p)) (np_accuracy p))"

text \<open>The loop, over the values of its counter; a zero term leaves it.\<close>

fun taylor_serie_loop :: "perthing \<Rightarrow> INPoSParam \<Rightarrow> nat list \<Rightarrow> nat \<Rightarrow> bool \<Rightarrow> nat \<Rightarrow> bool \<times> nat" where
  "taylor_serie_loop P p [] last_taylor_term taylor_sum_positive taylor_sum = (taylor_sum_positive, taylor_sum)"
| "taylor_serie_loop P p (k # ks) last_taylor_term taylor_sum_positive taylor_sum =
     (let t = compute_taylor_term P k last_taylor_term p
      in if t = 0 then (taylor_sum_positive, taylor_sum)
         else
           (let last_taylor_term_positive = (k mod 2 = 0)
            in if taylor_sum_positive = last_taylor_term_positive
               then taylor_serie_loop P p ks t taylor_sum_positive (taylor_sum + t)
               else if taylor_sum \<ge> t then taylor_serie_loop P p ks t taylor_sum_positive (taylor_sum - t)
               else taylor_serie_loop P p ks t (\<not> taylor_sum_positive) (t - taylor_sum)))"

definition compute_taylor_serie_part :: "perthing \<Rightarrow> INPoSParam \<Rightarrow> nat" where
  "compute_taylor_serie_part P p =
     (case taylor_serie_loop P p [1..<300] (np_accuracy p) True (np_accuracy p) of
        (taylor_sum_positive, taylor_sum) \<Rightarrow> if \<not> taylor_sum_positive then 0 else taylor_sum)"

definition LN2 :: u64 where
  "LN2 = 693147180559945309"

definition perquintill_accuracy :: nat where
  "perquintill_accuracy = 10 ^ 18"

definition compute_inflation :: "perthing \<Rightarrow> nat \<Rightarrow> nat \<Rightarrow> nat \<Rightarrow> nat" where
  "compute_inflation P stake ideal_stake fall =
     (if stake < ideal_stake then P_div P stake ideal_stake
      else if fall < P_from_percent P 1 then 0
      else
        (let ln2 = P_from_rational P LN2 perquintill_accuracy;
             param = \<lparr>ln2_div_d = div_by_stripped P (ln2 * P_ACCURACY P) fall, np_x_ideal = ideal_stake,
                      np_x = stake, np_accuracy = P_ACCURACY P\<rparr>;
             res = compute_taylor_serie_part P param
         in if res \<le> u128_max \<and> res \<le> P_ACCURACY P then res else 0))"

subsection \<open>Division\<close>

definition big_div_ok :: "perthing \<Rightarrow> bool" where
  "big_div_ok P \<longleftrightarrow> (\<forall>a b. 1 < limbs b \<and> limbs b < limbs a \<longrightarrow> P_big_div P a b = Some (a div b))"

lemma limbs_pos: "0 < limbs n"
  by (subst limbs.simps) simp

lemma limbs_zero: "limbs 0 = 1"
  by (subst limbs.simps) simp

lemma limbs_bounds: "n < (2 ^ 32) ^ limbs n \<and> (n \<noteq> 0 \<longrightarrow> (2 ^ 32) ^ (limbs n - 1) \<le> n)"
proof (induction n rule: limbs.induct)
  case (1 n)
  show ?case
  proof (cases "n < 2 ^ 32")
    case True
    then show ?thesis by (simp add: limbs.simps [of n])
  next
    case False
    let ?m = "n div 2 ^ 32"
    have IH: "?m < (2 ^ 32) ^ limbs ?m" "(2 ^ 32) ^ (limbs ?m - 1) \<le> ?m"
      using 1 False div_greater_zero_iff [of n "2 ^ 32"] by auto
    have n: "limbs n = Suc (limbs ?m)" using False by (simp add: limbs.simps [of n])
    have "n < 2 ^ 32 * Suc ?m" using dividend_less_times_div [of "2 ^ 32" n] by simp
    also have "\<dots> \<le> 2 ^ 32 * (2 ^ 32) ^ limbs ?m" using IH(1) by (intro mult_le_mono2) simp
    finally have "n < (2 ^ 32) ^ limbs n" by (simp only: n power_Suc)
    moreover have "(2 ^ 32) ^ (limbs n - 1) \<le> n"
    proof -
      have "(2 ^ 32) ^ (limbs n - 1) = 2 ^ 32 * (2 ^ 32) ^ (limbs ?m - 1)"
        using limbs_pos [of ?m] by (simp add: n flip: power_Suc)
      also have "\<dots> \<le> 2 ^ 32 * ?m" using IH(2) by (rule mult_le_mono2)
      also have "\<dots> \<le> n" by simp
      finally show ?thesis .
    qed
    ultimately show ?thesis by blast
  qed
qed

lemma limbs_less: "limbs a < limbs b \<Longrightarrow> a < b"
proof -
  assume less: "limbs a < limbs b"
  then have "b \<noteq> 0" using limbs_pos [of a] limbs_zero by (cases "b = 0") simp_all
  have "a < (2 ^ 32) ^ limbs a" using limbs_bounds by blast
  also have "\<dots> \<le> (2 ^ 32) ^ (limbs b - 1)" using less by (intro power_increasing) simp_all
  also have "\<dots> \<le> b" using limbs_bounds \<open>b \<noteq> 0\<close> by blast
  finally show ?thesis .
qed

lemma limbs_scaled: "0 < a \<Longrightarrow> limbs a < limbs (a * 100000 ^ 2)"
proof -
  assume a: "0 < a"
  let ?b = "a * 100000 ^ 2"
  have "(2 ^ 32) ^ limbs a = 2 ^ 32 * (2 ^ 32) ^ (limbs a - 1)"
    using limbs_pos [of a] by (simp flip: power_Suc)
  also have "\<dots> \<le> 2 ^ 32 * a" using limbs_bounds a by (intro mult_le_mono2) blast
  also have "\<dots> < ?b" using a by simp
  also have "\<dots> < (2 ^ 32) ^ limbs ?b" using limbs_bounds by blast
  finally show ?thesis by (simp add: power_strict_increasing_iff)
qed

lemma div_by_stripped_eq:
  assumes "big_div_ok P"
  shows "div_by_stripped P a b = a div b"
proof -
  consider "limbs b = 1" | "limbs b \<noteq> 1" "limbs a < limbs b" | "limbs b \<noteq> 1" "limbs a = limbs b"
    | "limbs b \<noteq> 1" "limbs b < limbs a" by linarith
  then show ?thesis
  proof cases
    case 2
    then show ?thesis using limbs_less [of a b] by (simp add: div_by_stripped_def)
  next
    case 3
    then have "a \<noteq> 0" using limbs_zero by (cases "a = 0") simp_all
    with 3 limbs_scaled [of a] limbs_pos [of b] assms have "P_big_div P (a * 100000 ^ 2) b = Some (a * 100000 ^ 2 div b)"
      by (simp add: big_div_ok_def)
    then have "div_by_stripped P a b = a * 100000 ^ 2 div b div 100000 ^ 2"
      using 3 by (simp add: div_by_stripped_def flip: div_mult2_eq)
    also have "\<dots> = a * 100000 ^ 2 div 100000 ^ 2 div b" by (simp add: mult.commute flip: div_mult2_eq)
    finally show ?thesis by simp
  qed (use assms limbs_pos [of b] in \<open>simp_all add: div_by_stripped_def big_div_ok_def\<close>)
qed

subsection \<open>The series\<close>

text \<open>The exponent is at most one.\<close>

definition gentle :: "INPoSParam \<Rightarrow> bool" where
  "gentle p \<longleftrightarrow> 0 < np_accuracy p \<and> (np_x p - np_x_ideal p) * ln2_div_d p \<le> np_accuracy p * np_accuracy p"

lemma taylor_term_eq:
  assumes "big_div_ok P"
  shows "compute_taylor_term P k prev p =
    prev * ((np_x p - np_x_ideal p) * ln2_div_d p) div k div np_accuracy p div np_accuracy p"
  by (simp add: compute_taylor_term_def div_by_stripped_eq [OF assms] Let_def ac_simps)

lemma taylor_term_le:
  assumes "big_div_ok P" and "gentle p" and "0 < k"
  shows "compute_taylor_term P k prev p \<le> prev"
proof -
  let ?a = "np_accuracy p" and ?y = "(np_x p - np_x_ideal p) * ln2_div_d p"
  have "prev * ?y div k div ?a div ?a = prev * ?y div (?a * ?a) div k"
    by (simp add: ac_simps flip: div_mult2_eq)
  also have "\<dots> \<le> prev * ?y div (?a * ?a)" by simp
  also have "\<dots> \<le> prev * (?a * ?a) div (?a * ?a)"
    using assms(2) by (intro div_le_mono mult_le_mono2) (simp add: gentle_def)
  also have "\<dots> = prev" using assms(2) by (simp add: gentle_def)
  finally show ?thesis by (simp add: taylor_term_eq [OF assms(1)])
qed

lemma taylor_serie_between:
  assumes "big_div_ok P" and "gentle p" and "0 < k"
    and "if odd k then lower + prev \<le> acc \<and> acc \<le> upper else lower \<le> acc \<and> acc + prev \<le> upper"
  shows "\<exists>r. taylor_serie_loop P p [k..<n] prev True acc = (True, r) \<and> lower \<le> r \<and> r \<le> upper"
  using assms(3,4)
proof (induction "n - k" arbitrary: k prev acc)
  case 0
  then show ?case by (auto split: if_splits)
next
  case (Suc m)
  let ?t = "compute_taylor_term P k prev p"
  have t: "?t \<le> prev" using assms(1,2) Suc.prems(1) by (rule taylor_term_le)
  have ks: "[k..<n] = k # [Suc k..<n]" using Suc.hyps(2) by (simp add: upt_rec)
  have next_k: "\<exists>r. taylor_serie_loop P p [Suc k..<n] ?t True s = (True, r) \<and> lower \<le> r \<and> r \<le> upper"
    if "if odd (Suc k) then lower + ?t \<le> s \<and> s \<le> upper else lower \<le> s \<and> s + ?t \<le> upper" for s
    by (rule Suc.hyps(1)) (use Suc.hyps(2) that in simp_all)
  show ?case
  proof (cases "?t = 0")
    case True
    then show ?thesis using Suc.prems(2) by (auto simp: ks split: if_splits)
  next
    case False
    show ?thesis
    proof (cases "odd k")
      case True
      then have "?t \<le> acc" "lower \<le> acc - ?t" "acc - ?t + ?t \<le> upper" using Suc.prems(2) t by auto
      moreover from this next_k [of "acc - ?t"] True obtain r where
        "taylor_serie_loop P p [Suc k..<n] ?t True (acc - ?t) = (True, r)" "lower \<le> r" "r \<le> upper" by auto
      moreover have "k mod 2 \<noteq> 0" using True by (simp add: odd_iff_mod_2_eq_one)
      ultimately show ?thesis using False by (simp add: ks Let_def)
    next
      case even: False
      then have "lower + ?t \<le> acc + ?t" "acc + ?t \<le> upper" using Suc.prems(2) t by auto
      with next_k [of "acc + ?t"] even obtain r where
        "taylor_serie_loop P p [Suc k..<n] ?t True (acc + ?t) = (True, r)" "lower \<le> r" "r \<le> upper" by auto
      moreover have "k mod 2 = 0" using even by (simp add: even_iff_mod_2_eq_zero)
      ultimately show ?thesis using False by (simp add: ks Let_def)
    qed
  qed
qed

lemma taylor_serie_part_bounds:
  assumes "big_div_ok P" and "gentle p"
  shows "np_accuracy p - (np_x p - np_x_ideal p) * ln2_div_d p div np_accuracy p \<le> compute_taylor_serie_part P p \<and>
    compute_taylor_serie_part P p \<le> np_accuracy p"
proof -
  let ?a = "np_accuracy p"
  let ?t = "compute_taylor_term P 1 ?a p"
  have first: "?t = (np_x p - np_x_ideal p) * ln2_div_d p div ?a"
    using assms(2) by (simp add: taylor_term_eq [OF assms(1)] gentle_def)
  have le: "?t \<le> ?a" using assms by (rule taylor_term_le) simp
  have ks: "[1..<300] = 1 # [2..<300]" by (simp add: upt_rec)
  show ?thesis
  proof (cases "?t = 0")
    case True
    then show ?thesis using first unfolding compute_taylor_serie_part_def ks by simp
  next
    case False
    obtain r where "taylor_serie_loop P p [2..<300] ?t True (?a - ?t) = (True, r)" "?a - ?t \<le> r" "r \<le> ?a"
      using taylor_serie_between [OF assms, of 2 "?a - ?t" ?t "?a - ?t" ?a 300] le by auto
    with False le first show ?thesis unfolding compute_taylor_serie_part_def ks by (simp add: Let_def)
  qed
qed

subsection \<open>Properties\<close>

text \<open>The division by cases on the number of limbs is the division of natural numbers.\<close>

theorem div_by_stripped_divides:
  assumes "big_div_ok P"
  shows "div_by_stripped P a b = a div b"
  using assms by (rule div_by_stripped_eq)

text \<open>C38. Beyond the ideal stake, as long as the exponent is at most one, the series neither overflows nor turns
  negative: the inflation is between one and one less the first term of the series. At the ideal stake it is
  one.\<close>

theorem inflation_beyond_ideal:
  assumes "big_div_ok P" and "ideal \<le> stake" and "P_from_percent P 1 \<le> fall" and "P_ACCURACY P \<le> u128_max"
    and "steep = P_from_rational P LN2 perquintill_accuracy * P_ACCURACY P div fall"
    and "0 < P_ACCURACY P" and "(stake - ideal) * steep \<le> P_ACCURACY P * P_ACCURACY P"
  shows "P_ACCURACY P - (stake - ideal) * steep div P_ACCURACY P \<le> compute_inflation P stake ideal fall \<and>
    compute_inflation P stake ideal fall \<le> P_ACCURACY P \<and>
    (stake = ideal \<longrightarrow> compute_inflation P stake ideal fall = P_ACCURACY P)"
proof -
  let ?p = "\<lparr>ln2_div_d = steep, np_x_ideal = ideal, np_x = stake, np_accuracy = P_ACCURACY P\<rparr>"
  have "gentle ?p" using assms(6,7) by (simp add: gentle_def)
  note bounds = taylor_serie_part_bounds [OF assms(1) this, simplified]
  have "compute_inflation P stake ideal fall = compute_taylor_serie_part P ?p"
    using assms bounds by (simp add: compute_inflation_def Let_def div_by_stripped_eq [OF assms(1)])
  with bounds show ?thesis by auto
qed

subsection \<open>A sample\<close>

definition sample_P :: perthing where
  "sample_P = \<lparr>P_ACCURACY = 10 ^ 9, P_div = (\<lambda>a b. a * 10 ^ 9 div b), P_from_percent = (\<lambda>n. n * 10 ^ 7),
     P_from_rational = (\<lambda>a b. a * 10 ^ 9 div b), P_big_div = (\<lambda>a b. Some (a div b))\<rparr>"

lemma sample_big_div: "big_div_ok sample_P"
  by (simp add: big_div_ok_def sample_P_def)

theorem div_by_stripped_divides_witness: "div_by_stripped sample_P (10 ^ 30) (10 ^ 18) = 10 ^ 12"
  using div_by_stripped_divides [OF sample_big_div, of "10 ^ 30" "10 ^ 18"] by simp

theorem inflation_beyond_ideal_witness:
  "compute_inflation sample_P 750000000 750000000 50000000 = 10 ^ 9"
proof -
  let ?steep = "P_from_rational sample_P LN2 perquintill_accuracy * P_ACCURACY sample_P div 50000000"
  have "P_from_percent sample_P 1 \<le> 50000000" "P_ACCURACY sample_P \<le> u128_max" "0 < P_ACCURACY sample_P"
    "P_ACCURACY sample_P = 10 ^ 9"
    by (simp_all add: sample_P_def u128_max_def)
  with inflation_beyond_ideal [OF sample_big_div, of 750000000 750000000 50000000 ?steep] show ?thesis by simp
qed

end
