(* ===== verification/Assets.thy ===== *)
theory Assets
  imports Bank_Sample
begin

section \<open>Assets and what executing foreign messages costs\<close>

text \<open>
  The pallet that knows where an asset comes from and what it charges per second of weight
  (\<^verbatim>\<open>modules/asset-config\<close>), the locations of assets (\<^verbatim>\<open>runtime/src/asset_location.rs\<close>), the trader that
  sells weight for assets and refunds what was not used (\<^verbatim>\<open>runtime/src/asset_trader.rs\<close>), the registry of
  native ERC-20 assets (\<^verbatim>\<open>modules/erc20-precompile\<close>), the set of precompiled contracts
  (\<^verbatim>\<open>runtime/src/precompiles.rs\<close>), and the thresholds of the voter bags (\<^verbatim>\<open>runtime/src/bag_thresholds.rs\<close>).
  XCM's assets and locations are type parameters.

  The properties: the two maps of the asset pallet stay inverse to each other, whatever calls are made,
  and a location survives the conversion to a key and back; and the trader counts bought weight twice, so
  that it refunds up to twice what was paid.
\<close>

subsection \<open>Locations (\<^verbatim>\<open>asset_location.rs\<close>)\<close>

datatype 'loc AssetLocation = Current | Para 'loc

definition AssetLocation_default :: "'loc AssetLocation" where
  "AssetLocation_default = Current"

text \<open>\<open>here\<close> is \<^verbatim>\<open>MultiLocation::here()\<close>.\<close>

fun normalize :: "'loc \<Rightarrow> 'loc AssetLocation \<Rightarrow> 'loc AssetLocation" where
  "normalize here Current = Current"
| "normalize here (Para l) = (if l = here then Current else Para l)"

definition location_from :: "'loc \<Rightarrow> 'loc \<Rightarrow> 'loc AssetLocation" where
  "location_from here f = normalize here (Para f)"

fun location_into :: "'loc \<Rightarrow> 'loc AssetLocation \<Rightarrow> 'loc option" where
  "location_into here Current = Some here"
| "location_into here (Para l) = Some l"

subsection \<open>The asset pallet (\<^verbatim>\<open>modules/asset-config\<close>)\<close>

type_synonym AssetId = nat

datatype 'loc asset_event =
    FeeRateChanged AssetId "nat option" | AssetLocationRegistered AssetId "'loc AssetLocation"

datatype asset_error = AssetAlreadyRegistered | AcBadOrigin

text \<open>A fee rate is itself an option in storage, with the default \<^verbatim>\<open>None\<close>.\<close>

record 'loc asset_config =
  AssetIdLocation :: "AssetId \<rightharpoonup> 'loc AssetLocation"
  AssetLocationId :: "'loc AssetLocation \<rightharpoonup> AssetId"
  FeeRatePerSecond :: "AssetId \<rightharpoonup> nat option"
  ac_events :: "'loc asset_event list"

definition set_fee_rate ::
  "origin \<Rightarrow> AssetId \<Rightarrow> nat option \<Rightarrow> 'loc asset_config \<Rightarrow> (asset_error + unit) \<times> 'loc asset_config" where
  "set_fee_rate o1 asset_id fee_rate s =
     (if \<not> ensure_root o1 then (Inl AcBadOrigin, s)
      else
        (let s1 = (case fee_rate of
                     Some _ \<Rightarrow> s\<lparr>FeeRatePerSecond := (FeeRatePerSecond s)(asset_id \<mapsto> fee_rate)\<rparr>
                   | None \<Rightarrow> s\<lparr>FeeRatePerSecond := (FeeRatePerSecond s)(asset_id := None)\<rparr>)
         in (Inr (), s1\<lparr>ac_events := ac_events s1 @ [FeeRateChanged asset_id fee_rate]\<rparr>)))"

definition register_asset_location ::
  "origin \<Rightarrow> 'loc AssetLocation \<Rightarrow> AssetId \<Rightarrow> 'loc asset_config \<Rightarrow> (asset_error + unit) \<times> 'loc asset_config" where
  "register_asset_location o1 location asset_id s =
     (if \<not> ensure_root o1 then (Inl AcBadOrigin, s)
      else if AssetIdLocation s asset_id \<noteq> None then (Inl AssetAlreadyRegistered, s)
      else if AssetLocationId s location \<noteq> None then (Inl AssetAlreadyRegistered, s)
      else (Inr (), s\<lparr>AssetIdLocation := (AssetIdLocation s)(asset_id \<mapsto> location),
                      AssetLocationId := (AssetLocationId s)(location \<mapsto> asset_id),
                      ac_events := ac_events s @ [AssetLocationRegistered asset_id location]\<rparr>))"

definition get_asset_location :: "'loc asset_config \<Rightarrow> AssetId \<Rightarrow> 'loc AssetLocation option" where
  "get_asset_location s asset_id = AssetIdLocation s asset_id"

definition get_asset_id :: "'loc asset_config \<Rightarrow> 'loc AssetLocation \<Rightarrow> AssetId option" where
  "get_asset_id s location = AssetLocationId s location"

definition get_units_per_second :: "'loc asset_config \<Rightarrow> AssetId \<Rightarrow> nat option" where
  "get_units_per_second s asset_id = (case FeeRatePerSecond s asset_id of None \<Rightarrow> None | Some r \<Rightarrow> r)"

subsection \<open>The trader (\<^verbatim>\<open>asset_trader.rs\<close>)\<close>

datatype xcm_error = TooExpensive | AssetNotFound

datatype 'loc xcm_asset_id = Concrete 'loc | Abstract

text \<open>The assets in holding are of an unknown type; \<open>X_first_fungible\<close> is the first of
  \<^verbatim>\<open>fungible_assets_iter\<close> and \<open>X_checked_sub\<close> takes an amount at a location out of them.\<close>

record ('assets, 'loc) trader_config =
  X_first_fungible :: "'assets \<Rightarrow> 'loc xcm_asset_id option"
  X_convert :: "'loc \<Rightarrow> AssetId option"
  X_units_per_second :: "AssetId \<Rightarrow> nat option"
  X_checked_sub :: "'assets \<Rightarrow> 'loc \<Rightarrow> nat \<Rightarrow> 'assets option"
  X_WEIGHT_PER_SECOND :: nat

record 'loc trader =
  bought :: Weight
  paid_info :: "('loc \<times> nat \<times> nat) option"

definition trader_new :: "'loc trader" where
  "trader_new = \<lparr>bought = 0, paid_info = None\<rparr>"

definition weight_price :: "('assets, 'loc) trader_config \<Rightarrow> nat \<Rightarrow> Weight \<Rightarrow> nat" where
  "weight_price X units_per_second weight =
     sat_mul u128_max units_per_second weight div X_WEIGHT_PER_SECOND X"

definition buy_weight ::
  "('assets, 'loc) trader_config \<Rightarrow> Weight \<Rightarrow> 'assets \<Rightarrow> 'loc trader \<Rightarrow> (xcm_error + 'assets) \<times> 'loc trader" where
  "buy_weight X weight payment self =
     (case X_first_fungible X payment of
        None \<Rightarrow> (Inl TooExpensive, self)
      | Some Abstract \<Rightarrow> (Inl TooExpensive, self)
      | Some (Concrete loc) \<Rightarrow>
          (case X_convert X loc of
             None \<Rightarrow> (Inl AssetNotFound, self)
           | Some asset_id \<Rightarrow>
               (case X_units_per_second X asset_id of
                  None \<Rightarrow> (Inl TooExpensive, self)
                | Some units_per_second \<Rightarrow>
                    (let amount = weight_price X units_per_second weight
                     in if amount = 0 then (Inr payment, self)
                        else
                          (case X_checked_sub X payment loc amount of
                             None \<Rightarrow> (Inl TooExpensive, self)
                           | Some unused \<Rightarrow>
                               (let self1 = self\<lparr>bought := sat_add u64_max (bought self) weight\<rparr>;
                                    new_info =
                                      (case paid_info self1 of
                                         Some (prev_loc, prev_amount, prev_units) \<Rightarrow>
                                           if prev_loc = loc
                                           then if units_per_second \<noteq> prev_units then Inl TooExpensive
                                                else Inr (Some (loc, sat_add_u128 prev_amount amount, units_per_second))
                                           else Inr None
                                       | None \<Rightarrow> Inr (Some (loc, amount, units_per_second)))
                                in case new_info of
                                     Inl e \<Rightarrow> (Inl e, self1)
                                   | Inr None \<Rightarrow> (Inr unused, self1)
                                   | Inr (Some info) \<Rightarrow>
                                       (Inr unused,
                                        self1\<lparr>bought := sat_add u64_max (bought self1) weight,
                                              paid_info := Some info\<rparr>)))))))"

definition refund_weight :: "('assets, 'loc) trader_config \<Rightarrow> Weight \<Rightarrow> 'loc trader \<Rightarrow> ('loc \<times> nat) option \<times> 'loc trader" where
  "refund_weight X weight self =
     (case paid_info self of
        None \<Rightarrow> (None, self)
      | Some (loc, prev_amount, units_per_second) \<Rightarrow>
          (let w = min weight (bought self);
               amount = wrap_mul u128_max units_per_second w div X_WEIGHT_PER_SECOND X
           in (Some (loc, amount),
               self\<lparr>bought := bought self - w, paid_info := Some (loc, prev_amount - amount, units_per_second)\<rparr>)))"

text \<open>When the trader goes out of scope, what was paid and not refunded is revenue.\<close>

definition trader_drop :: "('loc \<Rightarrow> nat \<Rightarrow> 'w \<Rightarrow> 'w) \<Rightarrow> 'loc trader \<Rightarrow> 'w \<Rightarrow> 'w" where
  "trader_drop take_revenue self w =
     (case paid_info self of None \<Rightarrow> w | Some (loc, amount, _) \<Rightarrow> take_revenue loc amount w)"

text \<open>\<^verbatim>\<open>XcmPayToAccount::take_revenue\<close>: \<open>matches\<close> finds the asset of a location.\<close>

definition take_revenue ::
  "('loc \<Rightarrow> nat \<Rightarrow> (AssetId \<times> nat) option) \<Rightarrow> (AssetId \<Rightarrow> AccountId \<Rightarrow> nat \<Rightarrow> 'w \<Rightarrow> bool \<times> 'w) \<Rightarrow> AccountId \<Rightarrow>
     'loc \<Rightarrow> nat \<Rightarrow> 'w \<Rightarrow> 'w" where
  "take_revenue matches mint_into beneficial loc amount w =
     (case matches loc amount of
        None \<Rightarrow> w
      | Some (asset_id, x) \<Rightarrow> if x \<noteq> 0 then snd (mint_into asset_id beneficial x w) else w)"

text \<open>\<^verbatim>\<open>NonZeroIssuance::contains\<close>.\<close>

definition non_zero_issuance :: "(AssetId \<Rightarrow> nat) \<Rightarrow> AssetId \<Rightarrow> bool" where
  "non_zero_issuance total_issuance i \<longleftrightarrow> total_issuance i \<noteq> 0"

subsection \<open>Native ERC-20 assets (\<^verbatim>\<open>modules/erc20-precompile\<close>)\<close>

text \<open>An address is the number its 20 bytes spell, in the order in which they are compared.\<close>

type_synonym evm_address = nat

definition NATIVE_ERC20_ID_RANGE :: "u64 \<times> u64" where
  "NATIVE_ERC20_ID_RANGE = (1024, 2048)"

datatype erc20_error = InvalidAddress | InvalidAsset | AddressRegistered | ErcBadOrigin

datatype erc20_event = ErcFeeRateChanged AssetId "nat option" | NativeErc20AssetRegistered evm_address AssetId

record erc20_precompile =
  NativeErc20Assets :: "evm_address \<rightharpoonup> AssetId option"
  erc20_events :: "erc20_event list"

definition register_native_erc20_asset ::
  "(AssetId \<Rightarrow> nat) \<Rightarrow> origin \<Rightarrow> evm_address \<Rightarrow> AssetId \<Rightarrow> erc20_precompile \<Rightarrow> (erc20_error + unit) \<times> erc20_precompile" where
  "register_native_erc20_asset total_issuance o1 address asset_id s =
     (if \<not> ensure_root o1 then (Inl ErcBadOrigin, s)
      else if \<not> (address \<ge> fst NATIVE_ERC20_ID_RANGE \<and> address < snd NATIVE_ERC20_ID_RANGE)
      then (Inl InvalidAddress, s)
      else if NativeErc20Assets s address \<noteq> None then (Inl AddressRegistered, s)
      else if total_issuance asset_id = 0 then (Inl InvalidAsset, s)
      else (Inr (), s\<lparr>NativeErc20Assets := (NativeErc20Assets s)(address \<mapsto> Some asset_id),
                      erc20_events := erc20_events s @ [NativeErc20AssetRegistered address asset_id]\<rparr>))"

subsection \<open>Precompiled contracts (\<^verbatim>\<open>precompiles.rs\<close>)\<close>

datatype precompile = ECRecover | Sha256 | Ripemd160 | Identity

definition used_addresses :: "evm_address list" where
  "used_addresses = [1, 2, 3, 4]"

definition precompile_at :: "evm_address \<Rightarrow> precompile option" where
  "precompile_at a =
     (if a = 1 then Some ECRecover else if a = 2 then Some Sha256 else if a = 3 then Some Ripemd160
      else if a = 4 then Some Identity else None)"

definition is_precompile :: "evm_address \<Rightarrow> bool" where
  "is_precompile address \<longleftrightarrow> address \<in> set used_addresses"

subsection \<open>Voter bags (\<^verbatim>\<open>bag_thresholds.rs\<close>)\<close>

definition THRESHOLDS :: "u64 list" where
  "THRESHOLDS = [
     10000000000, 11131723507, 12391526824, 13793905044, 15354993703,
     17092754435, 19027181634, 21180532507, 23577583160, 26245913670,
     29216225417, 32522694326, 36203364094, 40300583912, 44861495728,
     49938576656, 55590242767, 61881521217, 68884798439, 76680653006,
     85358782760, 95019036859, 105772564622, 117743094401, 131068357174,
     145901671259, 162413706368, 180794447305, 201255379901, 224031924337,
     249386143848, 277609759981, 309027509097, 344000878735, 382932266827,
     426269611626, 474511545609, 528213132664, 587992254562, 654536720209,
     728612179460, 811070932564, 902861736593, 1005040721687, 1118783542717,
     1245398906179, 1386343627960, 1543239395225, 1717891425287, 1912309236147,
     2128729767682, 2369643119512, 2637821201686, 2936349627828, 3268663217709,
     3638585517729, 4050372794022, 4508763004364, 5019030312352, 5587045771074,
     6219344874498, 6923202753807, 7706717883882, 8578905263043, 9549800138161,
     10630573468586, 11833660457397, 13172903628838, 14663712098160, 16323238866411,
     18170578180087, 20226985226447, 22516120692255, 25064322999817, 27900911352605,
     31058523077268, 34573489143434, 38486252181966, 42841831811331, 47690342626046,
     53087570807094, 59095615988698, 65783605766662, 73228491069308, 81515931542404,
     90741281135191, 101010685227495, 112442301921293, 125167661548718, 139333180038781,
     155101843555358, 172655083789626, 192194865483744, 213946010204502, 238158783103893,
     265111772429462, 295115094915607, 328513963936552, 365692661475578, 407078959611349,
     453149042394237, 504432984742966, 561520851400862, 625069486125324, 695810069225823,
     774556530406243, 862214913708369, 959793802308039, 1068415923109985, 1189331064661951,
     1323930457019515, 1473762779014021, 1640551977100649, 1826217100807404, 2032894383008501,
     2262961819074188, 2519066527700738, 2804155208229882, 3121508044894685, 3474776448088622,
     3868025066902796, 4305778556320752, 4793073637166665, 5335517047800242, 5939350054341159,
     6611520261667250, 7359761551432161, 8192683066856378, 9119868268136230, 10151985198186376,
     11300909227415580, 12579859689817292, 14003551982487792, 15588366878604342, 17352539001951086,
     19316366631550092, 21502445250375680, 23935927525325748, 26644812709737600, 29660268798266784,
     33016991140790860, 36753601641491664, 40913093136236104, 45543324061189736, 50697569104240168,
     56435132174936472, 62822028745677552, 69931745415056768, 77846085432775824, 86656109914600688,
     96463185576826656, 107380151045315664, 119532615158469088, 133060402202199856, 148119160705543712,
     164882154307451552, 183542255300186560, 204314163786713728, 227436877985347776, 253176444104585088,
     281829017427734464, 313724269827691328, 349229182918168832, 388752270484770624, 432748278778513664,
     481723418752617984, 536241190443833600, 596928866512693376, 664484709541257600, 739686006129409280,
     823398010228713984, 916583898614395264, 1020315853041475584, 1135787396594579584, 1264327126171442688,
     1407413999103859968, 1566694349801462272, 1744000832209069824, 1941373506026471680, 2161083309305266176,
     2405658187494662656, 2677912179572818944, 2980977795924034048, 3318342060496414208, 3693886631935247360,
     4111932465319354368, 4577289528371127808, 5095312144166932480, 5671960597112134656, 6313869711009142784,
     7028425188266614784, 7823848588596424704, 8709291924949524480, 9694942965096232960, 10792142450433898496,
     12013514580722579456, 13373112266084982784, 14886578817516689408, 16571327936291497984, 18446744073709551615]"

text \<open>The bags list requires thresholds that rise strictly and end at the greatest weight.\<close>

lemma thresholds_rise: "sorted_wrt (<) THRESHOLDS" "last THRESHOLDS = u64_max" "length THRESHOLDS = 200"
proof -
  show "sorted_wrt (<) THRESHOLDS"
    unfolding THRESHOLDS_def by (simp add: sorted_wrt2 sorted_wrt1 del: sorted_wrt.simps(2))
  show "last THRESHOLDS = u64_max" "length THRESHOLDS = 200"
    by (simp_all add: THRESHOLDS_def u64_max_def)
qed

subsection \<open>The maps of the asset pallet\<close>

datatype 'loc asset_call = CallSetFeeRate AssetId "nat option" | CallRegisterLocation "'loc AssetLocation" AssetId

fun asset_dispatch :: "origin \<Rightarrow> 'loc asset_call \<Rightarrow> 'loc asset_config \<Rightarrow> (asset_error + unit) \<times> 'loc asset_config" where
  "asset_dispatch o1 (CallSetFeeRate i r) s = set_fee_rate o1 i r s"
| "asset_dispatch o1 (CallRegisterLocation l i) s = register_asset_location o1 l i s"

definition asset_run :: "(origin \<times> 'loc asset_call) list \<Rightarrow> 'loc asset_config \<Rightarrow> 'loc asset_config" where
  "asset_run calls s = foldl (\<lambda>st (o1, c). snd (asset_dispatch o1 c st)) s calls"

definition asset_empty :: "'loc asset_config" where
  "asset_empty = \<lparr>AssetIdLocation = Map.empty, AssetLocationId = Map.empty, FeeRatePerSecond = Map.empty, ac_events = []\<rparr>"

definition synced :: "'loc asset_config \<Rightarrow> bool" where
  "synced s \<longleftrightarrow> (\<forall>i l. AssetIdLocation s i = Some l \<longleftrightarrow> AssetLocationId s l = Some i)"

lemma synced_register [step_intros]: "synced s \<Longrightarrow> synced (snd (register_asset_location o1 l i s))"
  by (auto simp: synced_def register_asset_location_def)

lemma synced_set_fee_rate [step_intros]: "synced s \<Longrightarrow> synced (snd (set_fee_rate o1 i r s))"
  by (auto simp: synced_def set_fee_rate_def Let_def split: option.split)

lemma synced_dispatch: "synced s \<Longrightarrow> synced (snd (asset_dispatch o1 c s))"
  by (cases c) (auto intro: step_intros)

lemma synced_run: "synced s \<Longrightarrow> synced (asset_run calls s)"
  unfolding asset_run_def by (induction calls arbitrary: s) (auto intro: synced_dispatch)

lemma location_roundtrip: "location_into here (location_from here l) = Some l"
  by (simp add: location_from_def)

subsection \<open>Properties\<close>

text \<open>C39. Whatever calls are made, by whatever origins, the two maps of the asset pallet stay inverse to each
  other, and a foreign location under which an asset is registered is recovered from its key.\<close>

theorem asset_maps_inverse:
  "(get_asset_location (asset_run calls asset_empty) i = Some k \<longleftrightarrow>
      get_asset_id (asset_run calls asset_empty) k = Some i) \<and>
   location_into here (location_from here l) = Some l"
proof -
  have "synced (asset_run calls asset_empty)" by (rule synced_run) (simp add: synced_def asset_empty_def)
  then show ?thesis by (simp add: synced_def get_asset_location_def get_asset_id_def location_roundtrip)
qed

text \<open>C40. Weight bought for an asset is counted twice: a fresh trader that sold weight for an amount gives back
  twice that amount when asked to refund twice the weight, and leaves no revenue.\<close>

theorem refund_exceeds_payment:
  assumes "X_first_fungible X payment = Some (Concrete loc)" and "X_convert X loc = Some i"
    and "X_units_per_second X i = Some u" and "a = u * w div X_WEIGHT_PER_SECOND X" and "a \<noteq> 0"
    and "X_checked_sub X payment loc a = Some rest" and "u * (2 * w) \<le> u128_max" and "2 * w \<le> u64_max"
  shows "\<exists>t r t'. buy_weight X w payment trader_new = (Inr rest, t) \<and> paid_info t = Some (loc, a, u) \<and>
    refund_weight X (2 * w) t = (Some (loc, r), t') \<and> 2 * a \<le> r \<and> paid_info t' = Some (loc, 0, u)"
proof -
  let ?W = "X_WEIGHT_PER_SECOND X"
  have price: "weight_price X u w = a" using assms(4,7) by (simp add: weight_price_def sat_mul_def)
  have buy: "buy_weight X w payment trader_new = (Inr rest, \<lparr>bought = 2 * w, paid_info = Some (loc, a, u)\<rparr>)"
    using assms price by (simp add: buy_weight_def trader_new_def Let_def sat_add_def)
  have "2 * (u * w div ?W) \<le> 2 * (u * w) div ?W"
  proof -
    have "0 < ?W" using assms(4,5) by (cases "?W = 0") simp_all
    then show ?thesis by (simp add: less_eq_div_iff_mult_less_eq mult.assoc)
  qed
  then have r: "2 * a \<le> u * (2 * w) div ?W" using assms(4) by (simp add: mult.left_commute)
  have "refund_weight X (2 * w) \<lparr>bought = 2 * w, paid_info = Some (loc, a, u)\<rparr> =
      (Some (loc, u * (2 * w) div ?W), \<lparr>bought = 0, paid_info = Some (loc, 0, u)\<rparr>)"
    using assms(7) r by (simp add: refund_weight_def Let_def wrap_mul_def)
  with buy r show ?thesis by auto
qed

text \<open>An asset at location 5 that costs two units per unit of weight; holdings are an amount of it.\<close>

definition sample_X_trader :: "(nat, nat) trader_config" where
  "sample_X_trader = \<lparr>X_first_fungible = (\<lambda>h. Some (Concrete 5)), X_convert = (\<lambda>l. Some 1),
     X_units_per_second = (\<lambda>i. Some (2 * 10 ^ 12)), X_checked_sub = (\<lambda>h l x. checked_sub h x),
     X_WEIGHT_PER_SECOND = 10 ^ 12\<rparr>"

theorem refund_exceeds_payment_witness:
  "\<exists>t r t'. buy_weight sample_X_trader 100 1000 trader_new = (Inr 800, t) \<and>
     refund_weight sample_X_trader 200 t = (Some (5, r), t') \<and> 400 \<le> r"
proof -
  have "\<exists>t r t'. buy_weight sample_X_trader 100 1000 trader_new = (Inr 800, t) \<and> paid_info t = Some (5, 200, 2 * 10 ^ 12) \<and>
    refund_weight sample_X_trader (2 * 100) t = (Some (5, r), t') \<and> 2 * 200 \<le> r \<and> paid_info t' = Some (5, 0, 2 * 10 ^ 12)"
    by (rule refund_exceeds_payment [where i = 1])
      (simp_all add: sample_X_trader_def checked_sub_def u128_max_def u64_max_def)
  then show ?thesis by auto
qed

end
