(* ===== verification/Staking_Weight_Tables.thy ===== *)
theory Staking_Weight_Tables
  imports Staking_Calls
begin

section \<open>The weight tables of the staking pallet\<close>

text \<open>
  The trait \<^verbatim>\<open>WeightInfo\<close> of \<^verbatim>\<open>frame/staking/src/weights.rs\<close> as a datatype with a constructor per
  function, and its three implementations: for \<^verbatim>\<open>SubstrateWeight\<close>, for \<^verbatim>\<open>()\<close>, and the one the runtime
  uses (\<^verbatim>\<open>runtime/src/weights/pallet_staking.rs\<close>). Each function of an implementation is a definition;
  the implementation dispatches to them. What a read and a write of the database cost is library code,
  the record \<open>db_weight\<close>.
\<close>

subsection \<open>The tables\<close>

record db_weight =
  db_reads :: "nat \<Rightarrow> Weight"
  db_writes :: "nat \<Rightarrow> Weight"

text \<open>A chain of \<^verbatim>\<open>saturating_add\<close>, and \<^verbatim>\<open>saturating_mul\<close>, on \<^verbatim>\<open>u64\<close>.\<close>

fun weigh :: "Weight list \<Rightarrow> Weight" where
  "weigh [] = 0"
| "weigh (w # ws) = foldl (sat_add u64_max) w ws"

abbreviation times_u64 :: "nat \<Rightarrow> nat \<Rightarrow> nat" where
  "times_u64 \<equiv> sat_mul u64_max"

datatype WeightInfo =
    W_bond
  | W_bond_extra
  | W_unbond
  | W_withdraw_unbonded_update u32
  | W_withdraw_unbonded_kill u32
  | W_validate
  | W_kick u32
  | W_nominate u32
  | W_chill
  | W_set_payee
  | W_set_controller
  | W_set_validator_count
  | W_force_no_eras
  | W_force_new_era
  | W_force_new_era_always
  | W_set_invulnerables u32
  | W_force_unstake u32
  | W_cancel_deferred_slash u32
  | W_payout_stakers_dead_controller u32
  | W_payout_stakers_alive_staked u32
  | W_rebond u32
  | W_set_history_depth u32
  | W_reap_stash u32
  | W_new_era u32 u32
  | W_get_npos_voters u32 u32 u32
  | W_get_npos_targets u32
  | W_set_staking_configs_all_set
  | W_set_staking_configs_all_remove
  | W_chill_other
  | W_force_apply_min_commission

subsection \<open>\<^verbatim>\<open>SubstrateWeight\<close>, for any cost of the database\<close>

definition SubstrateWeight_bond :: "db_weight \<Rightarrow> Weight" where
  "SubstrateWeight_bond db =
     weigh [43992000, db_reads db 5, db_writes db 4]"

definition SubstrateWeight_bond_extra :: "db_weight \<Rightarrow> Weight" where
  "SubstrateWeight_bond_extra db =
     weigh [75827000, db_reads db 8, db_writes db 7]"

definition SubstrateWeight_unbond :: "db_weight \<Rightarrow> Weight" where
  "SubstrateWeight_unbond db =
     weigh [81075000, db_reads db 12, db_writes db 8]"

definition SubstrateWeight_withdraw_unbonded_update :: "db_weight \<Rightarrow> u32 \<Rightarrow> Weight" where
  "SubstrateWeight_withdraw_unbonded_update db s =
     weigh [35763000, times_u64 57000 s, db_reads db 4, db_writes db 3]"

definition SubstrateWeight_withdraw_unbonded_kill :: "db_weight \<Rightarrow> u32 \<Rightarrow> Weight" where
  "SubstrateWeight_withdraw_unbonded_kill db s =
     weigh [66938000, db_reads db 13, db_writes db 11]"

definition SubstrateWeight_validate :: "db_weight \<Rightarrow> Weight" where
  "SubstrateWeight_validate db =
     weigh [52943000, db_reads db 11, db_writes db 5]"

definition SubstrateWeight_kick :: "db_weight \<Rightarrow> u32 \<Rightarrow> Weight" where
  "SubstrateWeight_kick db k =
     weigh [23264000, times_u64 8006000 k, db_reads db 1, db_reads db (times_u64 1 k),
           db_writes db (times_u64 1 k)]"

definition SubstrateWeight_nominate :: "db_weight \<Rightarrow> u32 \<Rightarrow> Weight" where
  "SubstrateWeight_nominate db n =
     weigh [56596000, times_u64 3644000 n, db_reads db 12, db_reads db (times_u64 1 n),
           db_writes db 6]"

definition SubstrateWeight_chill :: "db_weight \<Rightarrow> Weight" where
  "SubstrateWeight_chill db =
     weigh [51117000, db_reads db 8, db_writes db 6]"

definition SubstrateWeight_set_payee :: "db_weight \<Rightarrow> Weight" where
  "SubstrateWeight_set_payee db =
     weigh [11223000, db_reads db 1, db_writes db 1]"

definition SubstrateWeight_set_controller :: "db_weight \<Rightarrow> Weight" where
  "SubstrateWeight_set_controller db =
     weigh [19826000, db_reads db 3, db_writes db 3]"

definition SubstrateWeight_set_validator_count :: "db_weight \<Rightarrow> Weight" where
  "SubstrateWeight_set_validator_count db =
     weigh [3789000, db_writes db 1]"

definition SubstrateWeight_force_no_eras :: "db_weight \<Rightarrow> Weight" where
  "SubstrateWeight_force_no_eras db =
     weigh [3793000, db_writes db 1]"

definition SubstrateWeight_force_new_era :: "db_weight \<Rightarrow> Weight" where
  "SubstrateWeight_force_new_era db =
     weigh [3802000, db_writes db 1]"

definition SubstrateWeight_force_new_era_always :: "db_weight \<Rightarrow> Weight" where
  "SubstrateWeight_force_new_era_always db =
     weigh [3762000, db_writes db 1]"

definition SubstrateWeight_set_invulnerables :: "db_weight \<Rightarrow> u32 \<Rightarrow> Weight" where
  "SubstrateWeight_set_invulnerables db v =
     weigh [4318000, times_u64 10000 v, db_writes db 1]"

definition SubstrateWeight_force_unstake :: "db_weight \<Rightarrow> u32 \<Rightarrow> Weight" where
  "SubstrateWeight_force_unstake db s =
     weigh [65265000, times_u64 1029000 s, db_reads db 11, db_writes db 12,
           db_writes db (times_u64 1 s)]"

definition SubstrateWeight_cancel_deferred_slash :: "db_weight \<Rightarrow> u32 \<Rightarrow> Weight" where
  "SubstrateWeight_cancel_deferred_slash db s =
     weigh [903312000, times_u64 4968000 s, db_reads db 1, db_writes db 1]"

definition SubstrateWeight_payout_stakers_dead_controller :: "db_weight \<Rightarrow> u32 \<Rightarrow> Weight" where
  "SubstrateWeight_payout_stakers_dead_controller db n =
     weigh [87569000, times_u64 24232000 n, db_reads db 10, db_reads db (times_u64 3 n),
           db_writes db 2, db_writes db (times_u64 1 n)]"

definition SubstrateWeight_payout_stakers_alive_staked :: "db_weight \<Rightarrow> u32 \<Rightarrow> Weight" where
  "SubstrateWeight_payout_stakers_alive_staked db n =
     weigh [98839000, times_u64 34480000 n, db_reads db 11, db_reads db (times_u64 5 n),
           db_writes db 3, db_writes db (times_u64 3 n)]"

definition SubstrateWeight_rebond :: "db_weight \<Rightarrow> u32 \<Rightarrow> Weight" where
  "SubstrateWeight_rebond db l =
     weigh [74865000, times_u64 64000 l, db_reads db 9, db_writes db 8]"

definition SubstrateWeight_set_history_depth :: "db_weight \<Rightarrow> u32 \<Rightarrow> Weight" where
  "SubstrateWeight_set_history_depth db e =
     weigh [0, times_u64 22829000 e, db_reads db 2, db_writes db 4,
           db_writes db (times_u64 7 e)]"

definition SubstrateWeight_reap_stash :: "db_weight \<Rightarrow> u32 \<Rightarrow> Weight" where
  "SubstrateWeight_reap_stash db s =
     weigh [70933000, times_u64 1021000 s, db_reads db 12, db_writes db 12,
           db_writes db (times_u64 1 s)]"

definition SubstrateWeight_new_era :: "db_weight \<Rightarrow> u32 \<Rightarrow> u32 \<Rightarrow> Weight" where
  "SubstrateWeight_new_era db v n =
     weigh [0, times_u64 213100000 v, times_u64 31123000 n, db_reads db 208,
           db_reads db (times_u64 5 v), db_reads db (times_u64 4 n), db_writes db 3,
           db_writes db (times_u64 3 v)]"

definition SubstrateWeight_get_npos_voters :: "db_weight \<Rightarrow> u32 \<Rightarrow> u32 \<Rightarrow> u32 \<Rightarrow> Weight" where
  "SubstrateWeight_get_npos_voters db v n s =
     weigh [0, times_u64 23745000 v, times_u64 22497000 n, times_u64 20676000 s,
           db_reads db 202, db_reads db (times_u64 5 v), db_reads db (times_u64 4 n),
           db_reads db (times_u64 1 s)]"

definition SubstrateWeight_get_npos_targets :: "db_weight \<Rightarrow> u32 \<Rightarrow> Weight" where
  "SubstrateWeight_get_npos_targets db v =
     weigh [0, times_u64 8097000 v, db_reads db 1, db_reads db (times_u64 1 v)]"

definition SubstrateWeight_set_staking_configs_all_set :: "db_weight \<Rightarrow> Weight" where
  "SubstrateWeight_set_staking_configs_all_set db =
     weigh [7041000, db_writes db 6]"

definition SubstrateWeight_set_staking_configs_all_remove :: "db_weight \<Rightarrow> Weight" where
  "SubstrateWeight_set_staking_configs_all_remove db =
     weigh [6495000, db_writes db 6]"

definition SubstrateWeight_chill_other :: "db_weight \<Rightarrow> Weight" where
  "SubstrateWeight_chill_other db =
     weigh [62014000, db_reads db 11, db_writes db 6]"

definition SubstrateWeight_force_apply_min_commission :: "db_weight \<Rightarrow> Weight" where
  "SubstrateWeight_force_apply_min_commission db =
     weigh [12814000, db_reads db 2, db_writes db 1]"

primrec SubstrateWeight :: "db_weight \<Rightarrow> WeightInfo \<Rightarrow> Weight" where
  "SubstrateWeight db W_bond = SubstrateWeight_bond db"
| "SubstrateWeight db W_bond_extra = SubstrateWeight_bond_extra db"
| "SubstrateWeight db W_unbond = SubstrateWeight_unbond db"
| "SubstrateWeight db (W_withdraw_unbonded_update s) = SubstrateWeight_withdraw_unbonded_update db s"
| "SubstrateWeight db (W_withdraw_unbonded_kill s) = SubstrateWeight_withdraw_unbonded_kill db s"
| "SubstrateWeight db W_validate = SubstrateWeight_validate db"
| "SubstrateWeight db (W_kick k) = SubstrateWeight_kick db k"
| "SubstrateWeight db (W_nominate n) = SubstrateWeight_nominate db n"
| "SubstrateWeight db W_chill = SubstrateWeight_chill db"
| "SubstrateWeight db W_set_payee = SubstrateWeight_set_payee db"
| "SubstrateWeight db W_set_controller = SubstrateWeight_set_controller db"
| "SubstrateWeight db W_set_validator_count = SubstrateWeight_set_validator_count db"
| "SubstrateWeight db W_force_no_eras = SubstrateWeight_force_no_eras db"
| "SubstrateWeight db W_force_new_era = SubstrateWeight_force_new_era db"
| "SubstrateWeight db W_force_new_era_always = SubstrateWeight_force_new_era_always db"
| "SubstrateWeight db (W_set_invulnerables v) = SubstrateWeight_set_invulnerables db v"
| "SubstrateWeight db (W_force_unstake s) = SubstrateWeight_force_unstake db s"
| "SubstrateWeight db (W_cancel_deferred_slash s) = SubstrateWeight_cancel_deferred_slash db s"
| "SubstrateWeight db (W_payout_stakers_dead_controller n) = SubstrateWeight_payout_stakers_dead_controller db n"
| "SubstrateWeight db (W_payout_stakers_alive_staked n) = SubstrateWeight_payout_stakers_alive_staked db n"
| "SubstrateWeight db (W_rebond l) = SubstrateWeight_rebond db l"
| "SubstrateWeight db (W_set_history_depth e) = SubstrateWeight_set_history_depth db e"
| "SubstrateWeight db (W_reap_stash s) = SubstrateWeight_reap_stash db s"
| "SubstrateWeight db (W_new_era v n) = SubstrateWeight_new_era db v n"
| "SubstrateWeight db (W_get_npos_voters v n s) = SubstrateWeight_get_npos_voters db v n s"
| "SubstrateWeight db (W_get_npos_targets v) = SubstrateWeight_get_npos_targets db v"
| "SubstrateWeight db W_set_staking_configs_all_set = SubstrateWeight_set_staking_configs_all_set db"
| "SubstrateWeight db W_set_staking_configs_all_remove = SubstrateWeight_set_staking_configs_all_remove db"
| "SubstrateWeight db W_chill_other = SubstrateWeight_chill_other db"
| "SubstrateWeight db W_force_apply_min_commission = SubstrateWeight_force_apply_min_commission db"

lemmas SubstrateWeight_functions =
  SubstrateWeight_bond_def SubstrateWeight_bond_extra_def SubstrateWeight_unbond_def
  SubstrateWeight_withdraw_unbonded_update_def SubstrateWeight_withdraw_unbonded_kill_def
  SubstrateWeight_validate_def SubstrateWeight_kick_def SubstrateWeight_nominate_def
  SubstrateWeight_chill_def SubstrateWeight_set_payee_def SubstrateWeight_set_controller_def
  SubstrateWeight_set_validator_count_def SubstrateWeight_force_no_eras_def
  SubstrateWeight_force_new_era_def SubstrateWeight_force_new_era_always_def
  SubstrateWeight_set_invulnerables_def SubstrateWeight_force_unstake_def
  SubstrateWeight_cancel_deferred_slash_def SubstrateWeight_payout_stakers_dead_controller_def
  SubstrateWeight_payout_stakers_alive_staked_def SubstrateWeight_rebond_def
  SubstrateWeight_set_history_depth_def SubstrateWeight_reap_stash_def
  SubstrateWeight_new_era_def SubstrateWeight_get_npos_voters_def
  SubstrateWeight_get_npos_targets_def SubstrateWeight_set_staking_configs_all_set_def
  SubstrateWeight_set_staking_configs_all_remove_def SubstrateWeight_chill_other_def
  SubstrateWeight_force_apply_min_commission_def

subsection \<open>The implementation for \<^verbatim>\<open>()\<close>, at the cost \<^verbatim>\<open>RocksDbWeight\<close> of the library\<close>

definition unit_weight_bond :: "db_weight \<Rightarrow> Weight" where
  "unit_weight_bond RocksDbWeight =
     weigh [43992000, db_reads RocksDbWeight 5, db_writes RocksDbWeight 4]"

definition unit_weight_bond_extra :: "db_weight \<Rightarrow> Weight" where
  "unit_weight_bond_extra RocksDbWeight =
     weigh [75827000, db_reads RocksDbWeight 8, db_writes RocksDbWeight 7]"

definition unit_weight_unbond :: "db_weight \<Rightarrow> Weight" where
  "unit_weight_unbond RocksDbWeight =
     weigh [81075000, db_reads RocksDbWeight 12, db_writes RocksDbWeight 8]"

definition unit_weight_withdraw_unbonded_update :: "db_weight \<Rightarrow> u32 \<Rightarrow> Weight" where
  "unit_weight_withdraw_unbonded_update RocksDbWeight s =
     weigh [35763000, times_u64 57000 s, db_reads RocksDbWeight 4, db_writes RocksDbWeight 3]"

definition unit_weight_withdraw_unbonded_kill :: "db_weight \<Rightarrow> u32 \<Rightarrow> Weight" where
  "unit_weight_withdraw_unbonded_kill RocksDbWeight s =
     weigh [66938000, db_reads RocksDbWeight 13, db_writes RocksDbWeight 11]"

definition unit_weight_validate :: "db_weight \<Rightarrow> Weight" where
  "unit_weight_validate RocksDbWeight =
     weigh [52943000, db_reads RocksDbWeight 11, db_writes RocksDbWeight 5]"

definition unit_weight_kick :: "db_weight \<Rightarrow> u32 \<Rightarrow> Weight" where
  "unit_weight_kick RocksDbWeight k =
     weigh [23264000, times_u64 8006000 k, db_reads RocksDbWeight 1, db_reads RocksDbWeight (times_u64 1 k),
           db_writes RocksDbWeight (times_u64 1 k)]"

definition unit_weight_nominate :: "db_weight \<Rightarrow> u32 \<Rightarrow> Weight" where
  "unit_weight_nominate RocksDbWeight n =
     weigh [56596000, times_u64 3644000 n, db_reads RocksDbWeight 12, db_reads RocksDbWeight (times_u64 1 n),
           db_writes RocksDbWeight 6]"

definition unit_weight_chill :: "db_weight \<Rightarrow> Weight" where
  "unit_weight_chill RocksDbWeight =
     weigh [51117000, db_reads RocksDbWeight 8, db_writes RocksDbWeight 6]"

definition unit_weight_set_payee :: "db_weight \<Rightarrow> Weight" where
  "unit_weight_set_payee RocksDbWeight =
     weigh [11223000, db_reads RocksDbWeight 1, db_writes RocksDbWeight 1]"

definition unit_weight_set_controller :: "db_weight \<Rightarrow> Weight" where
  "unit_weight_set_controller RocksDbWeight =
     weigh [19826000, db_reads RocksDbWeight 3, db_writes RocksDbWeight 3]"

definition unit_weight_set_validator_count :: "db_weight \<Rightarrow> Weight" where
  "unit_weight_set_validator_count RocksDbWeight =
     weigh [3789000, db_writes RocksDbWeight 1]"

definition unit_weight_force_no_eras :: "db_weight \<Rightarrow> Weight" where
  "unit_weight_force_no_eras RocksDbWeight =
     weigh [3793000, db_writes RocksDbWeight 1]"

definition unit_weight_force_new_era :: "db_weight \<Rightarrow> Weight" where
  "unit_weight_force_new_era RocksDbWeight =
     weigh [3802000, db_writes RocksDbWeight 1]"

definition unit_weight_force_new_era_always :: "db_weight \<Rightarrow> Weight" where
  "unit_weight_force_new_era_always RocksDbWeight =
     weigh [3762000, db_writes RocksDbWeight 1]"

definition unit_weight_set_invulnerables :: "db_weight \<Rightarrow> u32 \<Rightarrow> Weight" where
  "unit_weight_set_invulnerables RocksDbWeight v =
     weigh [4318000, times_u64 10000 v, db_writes RocksDbWeight 1]"

definition unit_weight_force_unstake :: "db_weight \<Rightarrow> u32 \<Rightarrow> Weight" where
  "unit_weight_force_unstake RocksDbWeight s =
     weigh [65265000, times_u64 1029000 s, db_reads RocksDbWeight 11, db_writes RocksDbWeight 12,
           db_writes RocksDbWeight (times_u64 1 s)]"

definition unit_weight_cancel_deferred_slash :: "db_weight \<Rightarrow> u32 \<Rightarrow> Weight" where
  "unit_weight_cancel_deferred_slash RocksDbWeight s =
     weigh [903312000, times_u64 4968000 s, db_reads RocksDbWeight 1, db_writes RocksDbWeight 1]"

definition unit_weight_payout_stakers_dead_controller :: "db_weight \<Rightarrow> u32 \<Rightarrow> Weight" where
  "unit_weight_payout_stakers_dead_controller RocksDbWeight n =
     weigh [87569000, times_u64 24232000 n, db_reads RocksDbWeight 10, db_reads RocksDbWeight (times_u64 3 n),
           db_writes RocksDbWeight 2, db_writes RocksDbWeight (times_u64 1 n)]"

definition unit_weight_payout_stakers_alive_staked :: "db_weight \<Rightarrow> u32 \<Rightarrow> Weight" where
  "unit_weight_payout_stakers_alive_staked RocksDbWeight n =
     weigh [98839000, times_u64 34480000 n, db_reads RocksDbWeight 11, db_reads RocksDbWeight (times_u64 5 n),
           db_writes RocksDbWeight 3, db_writes RocksDbWeight (times_u64 3 n)]"

definition unit_weight_rebond :: "db_weight \<Rightarrow> u32 \<Rightarrow> Weight" where
  "unit_weight_rebond RocksDbWeight l =
     weigh [74865000, times_u64 64000 l, db_reads RocksDbWeight 9, db_writes RocksDbWeight 8]"

definition unit_weight_set_history_depth :: "db_weight \<Rightarrow> u32 \<Rightarrow> Weight" where
  "unit_weight_set_history_depth RocksDbWeight e =
     weigh [0, times_u64 22829000 e, db_reads RocksDbWeight 2, db_writes RocksDbWeight 4,
           db_writes RocksDbWeight (times_u64 7 e)]"

definition unit_weight_reap_stash :: "db_weight \<Rightarrow> u32 \<Rightarrow> Weight" where
  "unit_weight_reap_stash RocksDbWeight s =
     weigh [70933000, times_u64 1021000 s, db_reads RocksDbWeight 12, db_writes RocksDbWeight 12,
           db_writes RocksDbWeight (times_u64 1 s)]"

definition unit_weight_new_era :: "db_weight \<Rightarrow> u32 \<Rightarrow> u32 \<Rightarrow> Weight" where
  "unit_weight_new_era RocksDbWeight v n =
     weigh [0, times_u64 213100000 v, times_u64 31123000 n, db_reads RocksDbWeight 208,
           db_reads RocksDbWeight (times_u64 5 v), db_reads RocksDbWeight (times_u64 4 n), db_writes RocksDbWeight 3,
           db_writes RocksDbWeight (times_u64 3 v)]"

definition unit_weight_get_npos_voters :: "db_weight \<Rightarrow> u32 \<Rightarrow> u32 \<Rightarrow> u32 \<Rightarrow> Weight" where
  "unit_weight_get_npos_voters RocksDbWeight v n s =
     weigh [0, times_u64 23745000 v, times_u64 22497000 n, times_u64 20676000 s,
           db_reads RocksDbWeight 202, db_reads RocksDbWeight (times_u64 5 v), db_reads RocksDbWeight (times_u64 4 n),
           db_reads RocksDbWeight (times_u64 1 s)]"

definition unit_weight_get_npos_targets :: "db_weight \<Rightarrow> u32 \<Rightarrow> Weight" where
  "unit_weight_get_npos_targets RocksDbWeight v =
     weigh [0, times_u64 8097000 v, db_reads RocksDbWeight 1, db_reads RocksDbWeight (times_u64 1 v)]"

definition unit_weight_set_staking_configs_all_set :: "db_weight \<Rightarrow> Weight" where
  "unit_weight_set_staking_configs_all_set RocksDbWeight =
     weigh [7041000, db_writes RocksDbWeight 6]"

definition unit_weight_set_staking_configs_all_remove :: "db_weight \<Rightarrow> Weight" where
  "unit_weight_set_staking_configs_all_remove RocksDbWeight =
     weigh [6495000, db_writes RocksDbWeight 6]"

definition unit_weight_chill_other :: "db_weight \<Rightarrow> Weight" where
  "unit_weight_chill_other RocksDbWeight =
     weigh [62014000, db_reads RocksDbWeight 11, db_writes RocksDbWeight 6]"

definition unit_weight_force_apply_min_commission :: "db_weight \<Rightarrow> Weight" where
  "unit_weight_force_apply_min_commission RocksDbWeight =
     weigh [12814000, db_reads RocksDbWeight 2, db_writes RocksDbWeight 1]"

primrec unit_weight :: "db_weight \<Rightarrow> WeightInfo \<Rightarrow> Weight" where
  "unit_weight RocksDbWeight W_bond = unit_weight_bond RocksDbWeight"
| "unit_weight RocksDbWeight W_bond_extra = unit_weight_bond_extra RocksDbWeight"
| "unit_weight RocksDbWeight W_unbond = unit_weight_unbond RocksDbWeight"
| "unit_weight RocksDbWeight (W_withdraw_unbonded_update s) = unit_weight_withdraw_unbonded_update RocksDbWeight s"
| "unit_weight RocksDbWeight (W_withdraw_unbonded_kill s) = unit_weight_withdraw_unbonded_kill RocksDbWeight s"
| "unit_weight RocksDbWeight W_validate = unit_weight_validate RocksDbWeight"
| "unit_weight RocksDbWeight (W_kick k) = unit_weight_kick RocksDbWeight k"
| "unit_weight RocksDbWeight (W_nominate n) = unit_weight_nominate RocksDbWeight n"
| "unit_weight RocksDbWeight W_chill = unit_weight_chill RocksDbWeight"
| "unit_weight RocksDbWeight W_set_payee = unit_weight_set_payee RocksDbWeight"
| "unit_weight RocksDbWeight W_set_controller = unit_weight_set_controller RocksDbWeight"
| "unit_weight RocksDbWeight W_set_validator_count = unit_weight_set_validator_count RocksDbWeight"
| "unit_weight RocksDbWeight W_force_no_eras = unit_weight_force_no_eras RocksDbWeight"
| "unit_weight RocksDbWeight W_force_new_era = unit_weight_force_new_era RocksDbWeight"
| "unit_weight RocksDbWeight W_force_new_era_always = unit_weight_force_new_era_always RocksDbWeight"
| "unit_weight RocksDbWeight (W_set_invulnerables v) = unit_weight_set_invulnerables RocksDbWeight v"
| "unit_weight RocksDbWeight (W_force_unstake s) = unit_weight_force_unstake RocksDbWeight s"
| "unit_weight RocksDbWeight (W_cancel_deferred_slash s) = unit_weight_cancel_deferred_slash RocksDbWeight s"
| "unit_weight RocksDbWeight (W_payout_stakers_dead_controller n) = unit_weight_payout_stakers_dead_controller RocksDbWeight n"
| "unit_weight RocksDbWeight (W_payout_stakers_alive_staked n) = unit_weight_payout_stakers_alive_staked RocksDbWeight n"
| "unit_weight RocksDbWeight (W_rebond l) = unit_weight_rebond RocksDbWeight l"
| "unit_weight RocksDbWeight (W_set_history_depth e) = unit_weight_set_history_depth RocksDbWeight e"
| "unit_weight RocksDbWeight (W_reap_stash s) = unit_weight_reap_stash RocksDbWeight s"
| "unit_weight RocksDbWeight (W_new_era v n) = unit_weight_new_era RocksDbWeight v n"
| "unit_weight RocksDbWeight (W_get_npos_voters v n s) = unit_weight_get_npos_voters RocksDbWeight v n s"
| "unit_weight RocksDbWeight (W_get_npos_targets v) = unit_weight_get_npos_targets RocksDbWeight v"
| "unit_weight RocksDbWeight W_set_staking_configs_all_set = unit_weight_set_staking_configs_all_set RocksDbWeight"
| "unit_weight RocksDbWeight W_set_staking_configs_all_remove = unit_weight_set_staking_configs_all_remove RocksDbWeight"
| "unit_weight RocksDbWeight W_chill_other = unit_weight_chill_other RocksDbWeight"
| "unit_weight RocksDbWeight W_force_apply_min_commission = unit_weight_force_apply_min_commission RocksDbWeight"

lemmas unit_weight_functions =
  unit_weight_bond_def unit_weight_bond_extra_def unit_weight_unbond_def
  unit_weight_withdraw_unbonded_update_def unit_weight_withdraw_unbonded_kill_def
  unit_weight_validate_def unit_weight_kick_def unit_weight_nominate_def unit_weight_chill_def
  unit_weight_set_payee_def unit_weight_set_controller_def unit_weight_set_validator_count_def
  unit_weight_force_no_eras_def unit_weight_force_new_era_def
  unit_weight_force_new_era_always_def unit_weight_set_invulnerables_def
  unit_weight_force_unstake_def unit_weight_cancel_deferred_slash_def
  unit_weight_payout_stakers_dead_controller_def unit_weight_payout_stakers_alive_staked_def
  unit_weight_rebond_def unit_weight_set_history_depth_def unit_weight_reap_stash_def
  unit_weight_new_era_def unit_weight_get_npos_voters_def unit_weight_get_npos_targets_def
  unit_weight_set_staking_configs_all_set_def unit_weight_set_staking_configs_all_remove_def
  unit_weight_chill_other_def unit_weight_force_apply_min_commission_def

subsection \<open>The table of the runtime\<close>

definition runtime_weight_bond :: "db_weight \<Rightarrow> Weight" where
  "runtime_weight_bond db =
     weigh [40217000, db_reads db 5, db_writes db 4]"

definition runtime_weight_bond_extra :: "db_weight \<Rightarrow> Weight" where
  "runtime_weight_bond_extra db =
     weigh [70563000, db_reads db 8, db_writes db 7]"

definition runtime_weight_unbond :: "db_weight \<Rightarrow> Weight" where
  "runtime_weight_unbond db =
     weigh [74967000, db_reads db 12, db_writes db 8]"

definition runtime_weight_withdraw_unbonded_update :: "db_weight \<Rightarrow> u32 \<Rightarrow> Weight" where
  "runtime_weight_withdraw_unbonded_update db s =
     weigh [31513000, times_u64 31000 s, db_reads db 4, db_writes db 3]"

definition runtime_weight_withdraw_unbonded_kill :: "db_weight \<Rightarrow> u32 \<Rightarrow> Weight" where
  "runtime_weight_withdraw_unbonded_kill db s =
     weigh [61331000, db_reads db 13, db_writes db 11]"

definition runtime_weight_validate :: "db_weight \<Rightarrow> Weight" where
  "runtime_weight_validate db =
     weigh [50296000, db_reads db 11, db_writes db 5]"

definition runtime_weight_kick :: "db_weight \<Rightarrow> u32 \<Rightarrow> Weight" where
  "runtime_weight_kick db k =
     weigh [10749000, times_u64 8498000 k, db_reads db 1, db_reads db (times_u64 1 k),
           db_writes db (times_u64 1 k)]"

definition runtime_weight_nominate :: "db_weight \<Rightarrow> u32 \<Rightarrow> Weight" where
  "runtime_weight_nominate db n =
     weigh [51848000, times_u64 3265000 n, db_reads db 12, db_reads db (times_u64 1 n),
           db_writes db 6]"

definition runtime_weight_chill :: "db_weight \<Rightarrow> Weight" where
  "runtime_weight_chill db =
     weigh [46431000, db_reads db 8, db_writes db 6]"

definition runtime_weight_set_payee :: "db_weight \<Rightarrow> Weight" where
  "runtime_weight_set_payee db =
     weigh [10156000, db_reads db 1, db_writes db 1]"

definition runtime_weight_set_controller :: "db_weight \<Rightarrow> Weight" where
  "runtime_weight_set_controller db =
     weigh [17521000, db_reads db 3, db_writes db 3]"

definition runtime_weight_set_validator_count :: "db_weight \<Rightarrow> Weight" where
  "runtime_weight_set_validator_count db =
     weigh [3564000, db_writes db 1]"

definition runtime_weight_force_no_eras :: "db_weight \<Rightarrow> Weight" where
  "runtime_weight_force_no_eras db =
     weigh [3724000, db_writes db 1]"

definition runtime_weight_force_new_era :: "db_weight \<Rightarrow> Weight" where
  "runtime_weight_force_new_era db =
     weigh [3718000, db_writes db 1]"

definition runtime_weight_force_new_era_always :: "db_weight \<Rightarrow> Weight" where
  "runtime_weight_force_new_era_always db =
     weigh [3663000, db_writes db 1]"

definition runtime_weight_set_invulnerables :: "db_weight \<Rightarrow> u32 \<Rightarrow> Weight" where
  "runtime_weight_set_invulnerables db v =
     weigh [4107000, times_u64 10000 v, db_writes db 1]"

definition runtime_weight_force_unstake :: "db_weight \<Rightarrow> u32 \<Rightarrow> Weight" where
  "runtime_weight_force_unstake db s =
     weigh [57750000, times_u64 907000 s, db_reads db 11, db_writes db 12,
           db_writes db (times_u64 1 s)]"

definition runtime_weight_cancel_deferred_slash :: "db_weight \<Rightarrow> u32 \<Rightarrow> Weight" where
  "runtime_weight_cancel_deferred_slash db s =
     weigh [2566116000, times_u64 15027000 s, db_reads db 1, db_writes db 1]"

definition runtime_weight_payout_stakers_dead_controller :: "db_weight \<Rightarrow> u32 \<Rightarrow> Weight" where
  "runtime_weight_payout_stakers_dead_controller db n =
     weigh [74643000, times_u64 25571000 n, db_reads db 10, db_reads db (times_u64 3 n),
           db_writes db 2, db_writes db (times_u64 1 n)]"

definition runtime_weight_payout_stakers_alive_staked :: "db_weight \<Rightarrow> u32 \<Rightarrow> Weight" where
  "runtime_weight_payout_stakers_alive_staked db n =
     weigh [91918000, times_u64 34698000 n, db_reads db 11, db_reads db (times_u64 5 n),
           db_writes db 3, db_writes db (times_u64 3 n)]"

definition runtime_weight_rebond :: "db_weight \<Rightarrow> u32 \<Rightarrow> Weight" where
  "runtime_weight_rebond db l =
     weigh [69433000, times_u64 45000 l, db_reads db 9, db_writes db 8]"

definition runtime_weight_set_history_depth :: "db_weight \<Rightarrow> u32 \<Rightarrow> Weight" where
  "runtime_weight_set_history_depth db e =
     weigh [0, times_u64 22219000 e, db_reads db 2, db_writes db 4,
           db_writes db (times_u64 7 e)]"

definition runtime_weight_reap_stash :: "db_weight \<Rightarrow> u32 \<Rightarrow> Weight" where
  "runtime_weight_reap_stash db s =
     weigh [64455000, times_u64 917000 s, db_reads db 12, db_writes db 12,
           db_writes db (times_u64 1 s)]"

definition runtime_weight_new_era :: "db_weight \<Rightarrow> u32 \<Rightarrow> u32 \<Rightarrow> Weight" where
  "runtime_weight_new_era db v n =
     weigh [0, times_u64 302796000 v, times_u64 39733000 n, db_reads db 187,
           db_reads db (times_u64 5 v), db_reads db (times_u64 4 n), db_writes db 4,
           db_writes db (times_u64 3 v)]"

definition runtime_weight_get_npos_voters :: "db_weight \<Rightarrow> u32 \<Rightarrow> u32 \<Rightarrow> u32 \<Rightarrow> Weight" where
  "runtime_weight_get_npos_voters db v n s =
     weigh [0, times_u64 24666000 v, times_u64 22376000 n, times_u64 54274000 s,
           db_reads db 181, db_reads db (times_u64 5 v), db_reads db (times_u64 4 n),
           db_reads db (times_u64 1 s), db_writes db 1]"

definition runtime_weight_get_npos_targets :: "db_weight \<Rightarrow> u32 \<Rightarrow> Weight" where
  "runtime_weight_get_npos_targets db v =
     weigh [0, times_u64 7661000 v, db_reads db 2, db_reads db (times_u64 1 v),
           db_writes db 1]"

definition runtime_weight_set_staking_configs_all_set :: "db_weight \<Rightarrow> Weight" where
  "runtime_weight_set_staking_configs_all_set db =
     weigh [6456000, db_writes db 6]"

definition runtime_weight_set_staking_configs_all_remove :: "db_weight \<Rightarrow> Weight" where
  "runtime_weight_set_staking_configs_all_remove db =
     weigh [6214000, db_writes db 6]"

definition runtime_weight_chill_other :: "db_weight \<Rightarrow> Weight" where
  "runtime_weight_chill_other db =
     weigh [56053000, db_reads db 11, db_writes db 6]"

definition runtime_weight_force_apply_min_commission :: "db_weight \<Rightarrow> Weight" where
  "runtime_weight_force_apply_min_commission db =
     weigh [11053000, db_reads db 2, db_writes db 1]"

primrec runtime_weight :: "db_weight \<Rightarrow> WeightInfo \<Rightarrow> Weight" where
  "runtime_weight db W_bond = runtime_weight_bond db"
| "runtime_weight db W_bond_extra = runtime_weight_bond_extra db"
| "runtime_weight db W_unbond = runtime_weight_unbond db"
| "runtime_weight db (W_withdraw_unbonded_update s) = runtime_weight_withdraw_unbonded_update db s"
| "runtime_weight db (W_withdraw_unbonded_kill s) = runtime_weight_withdraw_unbonded_kill db s"
| "runtime_weight db W_validate = runtime_weight_validate db"
| "runtime_weight db (W_kick k) = runtime_weight_kick db k"
| "runtime_weight db (W_nominate n) = runtime_weight_nominate db n"
| "runtime_weight db W_chill = runtime_weight_chill db"
| "runtime_weight db W_set_payee = runtime_weight_set_payee db"
| "runtime_weight db W_set_controller = runtime_weight_set_controller db"
| "runtime_weight db W_set_validator_count = runtime_weight_set_validator_count db"
| "runtime_weight db W_force_no_eras = runtime_weight_force_no_eras db"
| "runtime_weight db W_force_new_era = runtime_weight_force_new_era db"
| "runtime_weight db W_force_new_era_always = runtime_weight_force_new_era_always db"
| "runtime_weight db (W_set_invulnerables v) = runtime_weight_set_invulnerables db v"
| "runtime_weight db (W_force_unstake s) = runtime_weight_force_unstake db s"
| "runtime_weight db (W_cancel_deferred_slash s) = runtime_weight_cancel_deferred_slash db s"
| "runtime_weight db (W_payout_stakers_dead_controller n) = runtime_weight_payout_stakers_dead_controller db n"
| "runtime_weight db (W_payout_stakers_alive_staked n) = runtime_weight_payout_stakers_alive_staked db n"
| "runtime_weight db (W_rebond l) = runtime_weight_rebond db l"
| "runtime_weight db (W_set_history_depth e) = runtime_weight_set_history_depth db e"
| "runtime_weight db (W_reap_stash s) = runtime_weight_reap_stash db s"
| "runtime_weight db (W_new_era v n) = runtime_weight_new_era db v n"
| "runtime_weight db (W_get_npos_voters v n s) = runtime_weight_get_npos_voters db v n s"
| "runtime_weight db (W_get_npos_targets v) = runtime_weight_get_npos_targets db v"
| "runtime_weight db W_set_staking_configs_all_set = runtime_weight_set_staking_configs_all_set db"
| "runtime_weight db W_set_staking_configs_all_remove = runtime_weight_set_staking_configs_all_remove db"
| "runtime_weight db W_chill_other = runtime_weight_chill_other db"
| "runtime_weight db W_force_apply_min_commission = runtime_weight_force_apply_min_commission db"

lemmas runtime_weight_functions =
  runtime_weight_bond_def runtime_weight_bond_extra_def runtime_weight_unbond_def
  runtime_weight_withdraw_unbonded_update_def runtime_weight_withdraw_unbonded_kill_def
  runtime_weight_validate_def runtime_weight_kick_def runtime_weight_nominate_def
  runtime_weight_chill_def runtime_weight_set_payee_def runtime_weight_set_controller_def
  runtime_weight_set_validator_count_def runtime_weight_force_no_eras_def
  runtime_weight_force_new_era_def runtime_weight_force_new_era_always_def
  runtime_weight_set_invulnerables_def runtime_weight_force_unstake_def
  runtime_weight_cancel_deferred_slash_def runtime_weight_payout_stakers_dead_controller_def
  runtime_weight_payout_stakers_alive_staked_def runtime_weight_rebond_def
  runtime_weight_set_history_depth_def runtime_weight_reap_stash_def runtime_weight_new_era_def
  runtime_weight_get_npos_voters_def runtime_weight_get_npos_targets_def
  runtime_weight_set_staking_configs_all_set_def
  runtime_weight_set_staking_configs_all_remove_def runtime_weight_chill_other_def
  runtime_weight_force_apply_min_commission_def

end
