(* ===== verification/Staking_Weights.thy ===== *)
theory Staking_Weights
  imports Staking_Weight_Tables
begin

section \<open>Weights of the staking calls\<close>

text \<open>
  The weight a call is charged in advance, and the weight it reports when it is done, from a table of
  \<^verbatim>\<open>Staking_Weight_Tables\<close>.

  The locale \<open>weight_table\<close> says what the calls that report a weight rely on; it holds for all three
  tables.
\<close>

subsection \<open>Charged and reported\<close>

text \<open>A configuration of the pallet whose weights come from a table.\<close>

definition with_weights :: "(WeightInfo \<Rightarrow> Weight) \<Rightarrow> 'w staking_config \<Rightarrow> 'w staking_config" where
  "with_weights W T =
     T\<lparr>T_weight_payout_stakers_alive_staked := (\<lambda>n. W (W_payout_stakers_alive_staked n)),
       T_weight_withdraw_unbonded_update := (\<lambda>n. W (W_withdraw_unbonded_update n)),
       T_weight_rebond := (\<lambda>l. W (W_rebond l)),
       T_weight_get_npos_voters := (\<lambda>v n s. W (W_get_npos_voters v n s)),
       T_weight_get_npos_targets := (\<lambda>v. W (W_get_npos_targets v))\<rparr>"

text \<open>The weights charged in advance for the calls that report one, from their attributes.\<close>

definition withdraw_unbonded_charged :: "(WeightInfo \<Rightarrow> Weight) \<Rightarrow> u32 \<Rightarrow> Weight" where
  "withdraw_unbonded_charged W num_slashing_spans = W (W_withdraw_unbonded_kill num_slashing_spans)"

definition payout_stakers_charged :: "(WeightInfo \<Rightarrow> Weight) \<Rightarrow> 'w staking_config \<Rightarrow> Weight" where
  "payout_stakers_charged W T = W (W_payout_stakers_alive_staked (T_MaxNominatorRewardedPerValidator T))"

definition rebond_charged :: "(WeightInfo \<Rightarrow> Weight) \<Rightarrow> Weight" where
  "rebond_charged W = W (W_rebond MaxUnlockingChunks)"

lemma with_weights_simps [simp]:
  "T_weight_payout_stakers_alive_staked (with_weights W T) n = W (W_payout_stakers_alive_staked n)"
  "T_weight_withdraw_unbonded_update (with_weights W T) n = W (W_withdraw_unbonded_update n)"
  "T_weight_rebond (with_weights W T) n = W (W_rebond n)"
  "T_MaxNominatorRewardedPerValidator (with_weights W T) = T_MaxNominatorRewardedPerValidator T"
  by (simp_all add: with_weights_def)

lemma pay_exposure_count:
  assumes "pay_exposure T stash e c p s = (imbalance, n, s')"
    and "length (ex_others e) \<le> u32_max"
  shows "n \<le> length (ex_others e)"
proof -
  have step: "fst (snd (pay_staker T who a (i, k, st))) \<le> Suc k" if "k < u32_max" for who a i k st
    using that by (auto simp: pay_staker_def width_simps split: prod.splits option.splits)
  have "fst (snd (foldl (\<lambda>acc x. pay_staker T (ie_who x) (f x) acc) (i, k, st) xs)) \<le> k + length xs"
    if "k + length xs \<le> u32_max" for f i k st xs
    using that
  proof (induction xs arbitrary: i k st)
    case (Cons x xs)
    obtain i1 k1 st1 where p: "pay_staker T (ie_who x) (f x) (i, k, st) = (i1, k1, st1)"
      by (metis prod_cases3)
    from step [of k "ie_who x" "f x" i st] Cons.prems p have "k1 \<le> Suc k" by simp
    with Cons.IH [of k1 i1 st1] Cons.prems p show ?case by simp
  qed simp
  note count = this [of 0, simplified]
  let ?P = "T_perthings T"
  obtain i1 k1 s1 where "pay_staker T stash (add_u128 (perbill_mul ?P
      (perbill_from_rational ?P (ex_own e) (ex_total e)) p) c) (0, 0, s) = (i1, k1, s1)"
    by (metis prod_cases3)
  with assms(1) have "foldl (\<lambda>acc x. pay_staker T (ie_who x) (perbill_mul ?P
      (perbill_from_rational ?P (ie_value x) (ex_total e)) p) acc) (i1, 0, s1) (ex_others e) = (imbalance, n, s')"
    by (simp add: pay_exposure_def Let_def)
  with count [of "ex_others e" "\<lambda>x. perbill_mul ?P (perbill_from_rational ?P (ie_value x) (ex_total e)) p" i1 s1]
    assms(2) show ?thesis by simp
qed

locale weight_table =
  fixes W :: "WeightInfo \<Rightarrow> Weight" and lawful :: bool and spans :: nat and span :: nat and chunk :: nat
  assumes payout_mono: "lawful \<Longrightarrow> n \<le> m \<Longrightarrow> W (W_payout_stakers_alive_staked n) \<le> W (W_payout_stakers_alive_staked m)"
    and rebond_mono: "lawful \<Longrightarrow> n \<le> m \<Longrightarrow> W (W_rebond n) \<le> W (W_rebond m)"
    and rebond_step: "lawful \<Longrightarrow> W (W_rebond (Suc n)) \<le> W (W_rebond n) + chunk"
    and update_le_kill: "lawful \<Longrightarrow>
      W (W_withdraw_unbonded_update n) \<le> W (W_withdraw_unbonded_kill n) + span * (n - spans)"
begin

lemma withdraw_unbonded_reported:
  assumes "fst (withdraw_unbonded (with_weights W T) o1 n s) = Inr (Some w)" and lawful
  shows "w \<le> withdraw_unbonded_charged W n + span * (n - spans)"
  using assms update_le_kill [of n]
  by (auto simp: withdraw_unbonded_def withdraw_unbonded_charged_def Let_def
      split: option.splits sum.splits prod.splits if_splits)

lemma rebond_reported_chunks:
  assumes "fst (rebond (with_weights W T) o1 value s) = Inr (Some w)"
  obtains c l n where "ensure_signed o1 = Some c" "Ledger s c = Some l" "w = W (W_rebond n)"
    "n \<le> Suc (length (sl_unlocking l))"
  using assms
  by (auto simp: rebond_def Let_def sat_add_def split: option.splits prod.splits if_splits)

lemma rebond_reported:
  assumes w: "fst (rebond (with_weights W T) o1 value s) = Inr (Some w)"
    and b: "\<And>c l. Ledger s c = Some l \<Longrightarrow> length (sl_unlocking l) \<le> MaxUnlockingChunks"
    and lawful
  shows "w \<le> rebond_charged W + chunk"
    and "(\<And>c l. ensure_signed o1 = Some c \<Longrightarrow> Ledger s c = Some l \<Longrightarrow>
           length (sl_unlocking l) < MaxUnlockingChunks) \<Longrightarrow> w \<le> rebond_charged W"
proof -
  obtain c l n where n: "ensure_signed o1 = Some c" "Ledger s c = Some l" "w = W (W_rebond n)"
    "n \<le> Suc (length (sl_unlocking l))" by (rule rebond_reported_chunks [OF w])
  have "W (W_rebond n) \<le> W (W_rebond (Suc MaxUnlockingChunks))"
    using n b [OF n(2)] by (intro rebond_mono [OF \<open>lawful\<close>]) simp
  with n rebond_step [OF \<open>lawful\<close>, of MaxUnlockingChunks] show "w \<le> rebond_charged W + chunk"
    by (simp add: rebond_charged_def)
  assume "\<And>c l. ensure_signed o1 = Some c \<Longrightarrow> Ledger s c = Some l \<Longrightarrow>
    length (sl_unlocking l) < MaxUnlockingChunks"
  from this [OF n(1,2)] n show "w \<le> rebond_charged W"
    by (auto simp: rebond_charged_def intro!: rebond_mono [OF \<open>lawful\<close>])
qed

lemma payout_reported:
  assumes "fst (payout_stakers (with_weights W T) o1 stash era s) = Inr (Some w)"
    and clipped: "\<And>v. length (ex_others (eras_stakers_clipped s era v)) \<le> T_MaxNominatorRewardedPerValidator T"
    and "T_MaxNominatorRewardedPerValidator T \<le> u32_max" and lawful
  shows "w \<le> payout_stakers_charged W T"
proof -
  let ?T = "with_weights W T"
  have "fst (do_payout_stakers ?T stash era s) = Inr (Some w)"
    using assms(1) by (simp add: payout_stakers_def split: option.splits)
  then obtain p c l where pay: "fst (payout_pay ?T stash era p c l s) = Inr (Some w)"
    by (auto simp: do_payout_stakers_def split: sum.splits)
  have *: "\<exists>n. n \<le> T_MaxNominatorRewardedPerValidator T \<and> w = W (W_payout_stakers_alive_staked n)"
  proof -
    have "k \<le> T_MaxNominatorRewardedPerValidator T"
      if "pay_exposure ?T st (eras_stakers_clipped s era v) a b s2 = (i, k, s3)" for st v a b s2 i k s3
      using pay_exposure_count [OF that] clipped [of v] assms(3) by linarith
    with pay show ?thesis
      by (force simp: payout_pay_def Let_def split: if_splits prod.splits bool.splits)
  qed
  then show ?thesis by (auto simp: payout_stakers_charged_def intro: payout_mono [OF \<open>lawful\<close>])
qed

end

text \<open>Reading or writing more does not cost less.\<close>

definition db_monotone :: "db_weight \<Rightarrow> bool" where
  "db_monotone db \<longleftrightarrow> mono (db_reads db) \<and> mono (db_writes db)"

lemma foldl_sat_add: "ws \<noteq> [] \<Longrightarrow> foldl (sat_add m) w ws = min m (w + sum_list ws)"
proof (induction ws arbitrary: w)
  case (Cons v ws)
  then show ?case by (cases ws) (auto simp: sat_add_def min_def)
qed simp

lemma weigh_Cons [simp]: "weigh (w # v # ws) = min u64_max (w + v + sum_list ws)"
  using foldl_sat_add [of "v # ws" u64_max w] by simp

declare weigh.simps(2) [simp del]

lemma weigh_mono:
  assumes "list_all2 (\<le>) ws vs"
  shows "weigh ws \<le> weigh vs"
proof -
  have "foldl (sat_add u64_max) a ws \<le> foldl (sat_add u64_max) b vs" if "list_all2 (\<le>) ws vs" "a \<le> b" for a b ws vs
    using that by (induction arbitrary: a b rule: list_all2_induct) (auto simp: sat_add_def)
  with assms show ?thesis by (cases rule: list.rel_cases) (auto simp: weigh.simps)
qed

lemma times_u64_mono: "n \<le> m \<Longrightarrow> times_u64 c n \<le> times_u64 c m"
  by (auto simp: sat_mul_def min_def intro: order_trans mult_le_mono2)

lemma db_monotoneD:
  assumes "db_monotone db" and "n \<le> m"
  shows "db_reads db n \<le> db_reads db m" and "db_writes db n \<le> db_writes db m"
  using assms by (auto simp: db_monotone_def dest: monoD)

lemma unit_weight_eq: "unit_weight db = SubstrateWeight db"
proof
  show "unit_weight db w = SubstrateWeight db w" for w by (cases w) (simp_all add: unit_weight_functions SubstrateWeight_functions)
qed

interpretation rtw: weight_table "runtime_weight db" "db_monotone db" 961 31000 45000
proof
  note D = db_monotoneD [where db = db]
  show "runtime_weight db (W_payout_stakers_alive_staked n) \<le> runtime_weight db (W_payout_stakers_alive_staked m)"
    if "db_monotone db" "n \<le> m" for n m
    unfolding runtime_weight.simps runtime_weight_functions using that by (intro weigh_mono) (simp add: D times_u64_mono)
  show "runtime_weight db (W_rebond n) \<le> runtime_weight db (W_rebond m)" if "db_monotone db" "n \<le> m" for n m
    unfolding runtime_weight.simps runtime_weight_functions using that by (intro weigh_mono) (simp add: times_u64_mono)
  show "runtime_weight db (W_rebond (Suc n)) \<le> runtime_weight db (W_rebond n) + 45000" for n
    by (auto simp: runtime_weight_functions sat_mul_def min_def)
  show "runtime_weight db (W_withdraw_unbonded_update n) \<le>
      runtime_weight db (W_withdraw_unbonded_kill n) + 31000 * (n - 961)" if "db_monotone db" for n
    using that D(1) [of 4 13] D(2) [of 3 11] by (auto simp: runtime_weight_functions sat_mul_def min_def)
qed

interpretation stw: weight_table "SubstrateWeight db" "db_monotone db" 546 57000 64000
proof
  note D = db_monotoneD [where db = db]
  show "SubstrateWeight db (W_payout_stakers_alive_staked n) \<le> SubstrateWeight db (W_payout_stakers_alive_staked m)"
    if "db_monotone db" "n \<le> m" for n m
    unfolding SubstrateWeight.simps SubstrateWeight_functions using that by (intro weigh_mono) (simp add: D times_u64_mono)
  show "SubstrateWeight db (W_rebond n) \<le> SubstrateWeight db (W_rebond m)" if "db_monotone db" "n \<le> m" for n m
    unfolding SubstrateWeight.simps SubstrateWeight_functions using that by (intro weigh_mono) (simp add: times_u64_mono)
  show "SubstrateWeight db (W_rebond (Suc n)) \<le> SubstrateWeight db (W_rebond n) + 64000" for n
    by (auto simp: SubstrateWeight_functions sat_mul_def min_def)
  show "SubstrateWeight db (W_withdraw_unbonded_update n) \<le>
      SubstrateWeight db (W_withdraw_unbonded_kill n) + 57000 * (n - 546)" if "db_monotone db" for n
    using that D(1) [of 4 13] D(2) [of 3 11] by (auto simp: SubstrateWeight_functions sat_mul_def min_def)
qed

subsection \<open>Reported and charged weights\<close>

text \<open>With the weights of the runtime, a call that reports the weight it used does not report
  more than it was charged: withdrawing, except for the weight of every slashing span beyond 961; paying out, where the
  exposures are clipped; rebonding, unless the queue of the ledger was full, and then by no more than
  the weight of one chunk, since the count of removed chunks is one too high when all are removed.\<close>

theorem reported_weight_bounded:
  assumes "db_monotone db"
    and "\<forall>c l. Ledger s c = Some l \<longrightarrow> length (sl_unlocking l) \<le> MaxUnlockingChunks"
    and "\<forall>v. length (ex_others (eras_stakers_clipped s era v)) \<le> T_MaxNominatorRewardedPerValidator T"
    and "T_MaxNominatorRewardedPerValidator T \<le> u32_max"
    and "W = runtime_weight db" and "T' = with_weights W T"
  shows "(fst (withdraw_unbonded T' o1 n s) = Inr (Some w1) \<longrightarrow>
       w1 \<le> withdraw_unbonded_charged W n + 31000 * (n - 961)) \<and>
    (fst (payout_stakers T' o2 stash era s) = Inr (Some w2) \<longrightarrow> w2 \<le> payout_stakers_charged W T) \<and>
    (fst (rebond T' (Signed c) value s) = Inr (Some w3) \<longrightarrow>
       w3 \<le> rebond_charged W + 45000 \<and>
       (\<forall>l. Ledger s c = Some l \<and> length (sl_unlocking l) < MaxUnlockingChunks \<longrightarrow> w3 \<le> rebond_charged W))"
proof (intro conjI impI)
  show "w1 \<le> withdraw_unbonded_charged W n + 31000 * (n - 961)"
    if "fst (withdraw_unbonded T' o1 n s) = Inr (Some w1)"
    using that assms by (auto intro: rtw.withdraw_unbonded_reported)
  show "w2 \<le> payout_stakers_charged W T" if "fst (payout_stakers T' o2 stash era s) = Inr (Some w2)"
    using that assms by (auto intro: rtw.payout_reported)
  assume r: "fst (rebond T' (Signed c) value s) = Inr (Some w3)"
  then show "w3 \<le> rebond_charged W + 45000"
    using assms by (auto intro: rtw.rebond_reported(1))
  show "\<forall>l. Ledger s c = Some l \<and> length (sl_unlocking l) < MaxUnlockingChunks \<longrightarrow> w3 \<le> rebond_charged W"
    using r assms by (auto intro!: rtw.rebond_reported(2))
qed

definition sample_db :: db_weight where
  "sample_db = \<lparr>db_reads = (\<lambda>n. 25000000 * n), db_writes = (\<lambda>n. 100000000 * n)\<rparr>"

theorem reported_weight_bounded_witness:
  "fst (rebond (with_weights (runtime_weight sample_db) sample_T) (Signed 120) 30 sample_payout) =
     Inr (Some 1094523000) \<and> 1094523000 \<le> rebond_charged (runtime_weight sample_db) \<and>
   fst (payout_stakers (with_weights (runtime_weight sample_db) sample_T) (Signed 1) 10 2 sample_payout) =
     Inr (Some 1126616000) \<and> 1126616000 \<le> payout_stakers_charged (runtime_weight sample_db) sample_T"
proof -
  let ?T = "with_weights (runtime_weight sample_db) sample_T"
  have m: "db_monotone sample_db" by (auto simp: db_monotone_def sample_db_def mono_def)
  have c: "\<forall>c l. Ledger sample_payout c = Some l \<longrightarrow> length (sl_unlocking l) \<le> MaxUnlockingChunks"
    by (auto simp: sample_payout_def sample_staking_def MaxUnlockingChunks_def split: if_splits)
  have t: "T_MaxNominatorRewardedPerValidator sample_T = 64" by code_simp
  have v: "\<forall>v. length (ex_others (eras_stakers_clipped sample_payout 2 v)) \<le> 64"
    by (auto simp: sample_payout_def eras_stakers_clipped_def Exposure_default_def split: option.splits if_splits)
  have rb: "fst (rebond ?T (Signed 120) 30 sample_payout) = Inr (Some 1094523000)" by code_simp
  have pay: "fst (payout_stakers ?T (Signed 1) 10 2 sample_payout) = Inr (Some 1126616000)" by code_simp
  have l: "map_option (\<lambda>l. length (sl_unlocking l)) (Ledger sample_payout 120) = Some 1" by code_simp
  show ?thesis
    using reported_weight_bounded [OF m c, of 2 sample_T _ ?T, OF _ _ refl refl, of _ _ _ "Signed 1" 10] rb pay v t l
    by (fastforce simp: MaxUnlockingChunks_def u32_max_def)
qed

end
