(* ===== verification/Reward_Curve.thy ===== *)
theory Reward_Curve
  imports Interfaces
begin

section \<open>The reward curve (\<^verbatim>\<open>frame/staking/reward-curve\<close>, \<^verbatim>\<open>frame/staking/src/inflation.rs\<close>)\<close>

text \<open>
  The macro that turns the parameters of the inflation curve into a piecewise linear function, with its
  integer logarithm, and the payout that is computed from such a curve. Numbers are millionths.

  A panic (\<^verbatim>\<open>assert!\<close>, \<^verbatim>\<open>unwrap\<close>) is \<^term>\<open>None\<close>; it stops the compilation. The two loops without a
  bound are partial functions in the option monad, so that a result \<^term>\<open>Some\<close> is also a proof that the
  loop ends. The \<^verbatim>\<open>u128\<close> products of the logarithm stay far below the type's range, because its
  arguments are at most a million.

  The properties: the logarithm is defined on its whole range and lies between the right powers of two;
  the points of a curve are found, in order, and within the bounds, whenever the segments are no longer
  than the least inflation; and there are parameters the macro accepts and then panics on.
\<close>

definition MILLION :: nat where
  "MILLION = 1000000"

subsection \<open>The logarithm (\<^verbatim>\<open>log.rs\<close>)\<close>

definition pow2 :: "u32 \<Rightarrow> u32" where
  "pow2 n = 2 ^ (n mod 32)"

definition two_div_ln_2 :: nat where
  "two_div_ln_2 = 2885390"

definition try_into_u32 :: "nat \<Rightarrow> u32 option" where
  "try_into_u32 x = (if x \<le> u32_max then Some x else None)"

definition taylor_term :: "u32 \<Rightarrow> nat \<Rightarrow> nat \<Rightarrow> u32 option" where
  "taylor_term k y_num y_den =
     (if k = 0 then try_into_u32 (two_div_ln_2 * y_num ^ 1 div y_den ^ 1)
      else
        (let res0 = two_div_ln_2 * y_num ^ 3 div y_den ^ 3;
             res = ((\<lambda>res. res * y_num ^ 2 div y_den ^ 2) ^^ (k - 1)) res0
         in try_into_u32 (res div (2 * k + 1))))"

text \<open>The power of two with \<open>q * 2\<^sup>n \<le> p < q * 2\<^sup>n\<^sup>+\<^sup>1\<close>.\<close>

function log2_search :: "u32 \<Rightarrow> u32 \<Rightarrow> u32 \<Rightarrow> u32 option" where
  "log2_search p q n =
     (if p < wrap_mul u32_max (pow2 n) q \<or> p \<ge> wrap_mul u32_max (pow2 (n + 1)) q
      then (if n + 1 < 32 then log2_search p q (n + 1) else None)
      else Some n)"
  by pat_completeness auto
termination
  by (relation "measure (\<lambda>(p, q, n). 32 - n)") auto

declare log2_search.simps [simp del]

partial_function (option) taylor_loop :: "nat \<Rightarrow> nat \<Rightarrow> u32 \<Rightarrow> u32 \<Rightarrow> u32 option" where
  [code]: "taylor_loop y_num y_den k res =
     (case taylor_term k y_num y_den of
        None \<Rightarrow> None
      | Some term \<Rightarrow>
          if term = 0 then Some res
          else taylor_loop y_num y_den (add_u32 k 1) (add_u32 res term))"

definition log2 :: "u32 \<Rightarrow> u32 \<Rightarrow> u32 option" where
  "log2 p q =
     (if \<not> p \<ge> q \<or> \<not> p \<le> u32_max div 2 \<or> \<not> p \<le> 1000000 \<or> \<not> q \<le> 1000000 then None
      else if p = q then Some 0
      else
        (case log2_search p q 0 of
           None \<Rightarrow> None
         | Some n \<Rightarrow>
             if \<not> p < wrap_mul u32_max (pow2 (n + 1)) q then None
             else
               (let y_num = sub_u32 p (wrap_mul u32_max (pow2 n) q);
                    y_den = add_u32 p (wrap_mul u32_max (pow2 n) q)
                in taylor_loop y_num y_den 0 (wrap_mul u32_max n 1000000))))"

subsection \<open>The parameters\<close>

record INposInput =
  min_inflation :: u32
  ideal_stake :: u32
  max_inflation :: u32
  falloff :: u32
  max_piece_count :: u32
  test_precision :: u32

record Bounds =
  bd_min :: u32
  bd_min_strict :: bool
  bd_max :: u32
  bd_max_strict :: bool

definition bounds_check :: "Bounds \<Rightarrow> u32 \<Rightarrow> bool" where
  "bounds_check b x =
     (let wrong = (bd_min_strict b \<and> x \<le> bd_min b) \<or> (\<not> bd_min_strict b \<and> x < bd_min b) \<or>
                  (bd_max_strict b \<and> x \<ge> bd_max b) \<or> (\<not> bd_max_strict b \<and> x > bd_max b)
      in \<not> wrong)"

text \<open>The fields of a curve, in the order in which they are parsed, each within its bounds.\<close>

definition parse_fields :: "u32 \<Rightarrow> u32 \<Rightarrow> u32 \<Rightarrow> u32 \<Rightarrow> u32 \<Rightarrow> u32 \<Rightarrow> INposInput option" where
  "parse_fields mini maxi ideal fall pieces prec =
     (if bounds_check \<lparr>bd_min = 0, bd_min_strict = True, bd_max = 1000000, bd_max_strict = False\<rparr> mini \<and>
         bounds_check \<lparr>bd_min = mini, bd_min_strict = True, bd_max = 1000000, bd_max_strict = False\<rparr> maxi \<and>
         bounds_check \<lparr>bd_min = 100000, bd_min_strict = False, bd_max = 900000, bd_max_strict = False\<rparr> ideal \<and>
         bounds_check \<lparr>bd_min = 10000, bd_min_strict = False, bd_max = 1000000, bd_max_strict = False\<rparr> fall \<and>
         bounds_check \<lparr>bd_min = 2, bd_min_strict = False, bd_max = 1000, bd_max_strict = False\<rparr> pieces \<and>
         bounds_check \<lparr>bd_min = 0, bd_min_strict = False, bd_max = 1000000, bd_max_strict = False\<rparr> prec
      then Some \<lparr>min_inflation = mini, ideal_stake = ideal, max_inflation = maxi, falloff = fall,
                 max_piece_count = pieces, test_precision = prec\<rparr>
      else None)"

record INPoS =
  i_0 :: u32
  i_ideal_times_x_ideal :: u32
  i_ideal :: u32
  x_ideal :: u32
  decay :: u32

definition from_input :: "INposInput \<Rightarrow> INPoS option" where
  "from_input input =
     map_option (\<lambda>ii. \<lparr>i_0 = min_inflation input, i_ideal_times_x_ideal = max_inflation input, i_ideal = ii,
                       x_ideal = ideal_stake input, decay = falloff input\<rparr>)
       (try_into_u32 (max_inflation input * MILLION div ideal_stake input))"

definition compute_opposite_after_x_ideal :: "INPoS \<Rightarrow> u32 \<Rightarrow> u32 option" where
  "compute_opposite_after_x_ideal s y =
     (if y = i_0 s then Some u32_max
      else
        (case log2 (sub_u32 (i_ideal_times_x_ideal s) (i_0 s)) (sub_u32 y (i_0 s)) of
           None \<Rightarrow> None
         | Some log \<Rightarrow>
             map_option (\<lambda>term. add_u32 (x_ideal s) term) (try_into_u32 (decay s * log div 1000000))))"

subsection \<open>The points\<close>

definition max_length :: "INposInput \<Rightarrow> u32" where
  "max_length input =
     sub_u32 (add_u32 (sub_u32 (max_inflation input) (min_inflation input)) 1000000) (ideal_stake input)
       div sub_u32 (max_piece_count input) 1"

partial_function (option) points_loop ::
  "INposInput \<Rightarrow> INPoS \<Rightarrow> u32 \<Rightarrow> u32 \<Rightarrow> (u32 \<times> u32) list \<Rightarrow> (u32 \<times> u32) list option" where
  [code]: "points_loop input inpos delta_y y points =
     (if delta_y = 0 then Some (points @ [(1000000, i_0 inpos)])
      else
        (let next_y = sub_u32 y delta_y
         in if next_y \<le> min_inflation input then points_loop input inpos (delta_y - 1) y points
            else
              (case compute_opposite_after_x_ideal inpos next_y of
                 None \<Rightarrow> None
               | Some next_x \<Rightarrow>
                   if sub_u32 next_x (fst (last points)) > max_length input
                   then points_loop input inpos (delta_y - 1) y points
                   else if next_x \<ge> 1000000 then
                     (let prev = last points
                      in case try_into_u32 (sub_u32 next_x 1000000 * sub_u32 (snd prev) next_y
                                              div sub_u32 next_x (fst prev)) of
                           None \<Rightarrow> None
                         | Some dy \<Rightarrow> Some (points @ [(1000000, add_u32 next_y dy)]))
                   else points_loop input inpos delta_y next_y (points @ [(next_x, next_y)]))))"

definition compute_points :: "INposInput \<Rightarrow> (u32 \<times> u32) list option" where
  "compute_points input =
     (case from_input input of
        None \<Rightarrow> None
      | Some inpos \<Rightarrow>
          points_loop input inpos (max_length input) (max_inflation input)
            [(0, i_0 inpos), (x_ideal inpos, i_ideal_times_x_ideal inpos)])"

text \<open>The generated constant: its points and its maximum, in billionths.\<close>

definition generate_piecewise_linear :: "(u32 \<times> u32) list \<Rightarrow> ((Perbill \<times> Perbill) list \<times> Perbill) option" where
  "generate_piecewise_linear points =
     (let top = foldl max 0 (map snd points);
          maximum = (if top * 1000 \<le> u32_max then top * 1000 else 1000000000)
      in if \<forall>(x, y) \<in> set points. x * 1000 \<le> u32_max \<and> y * 1000 \<le> u32_max
         then Some (map (\<lambda>(x, y). (x * 1000, y * 1000)) points, maximum)
         else None)"

subsection \<open>The payout of an era by a curve\<close>

definition MILLISECONDS_PER_YEAR :: u64 where
  "MILLISECONDS_PER_YEAR = 1000 * 3600 * 24 * 36525 div 100"

text \<open>\<open>calculate\<close> is \<^verbatim>\<open>PiecewiseLinear::calculate_for_fraction_times_denominator\<close>, \<open>maximum\<close> the curve's
  maximum.\<close>

definition compute_total_payout ::
  "perthings \<Rightarrow> (Balance \<Rightarrow> Balance \<Rightarrow> Balance) \<Rightarrow> Perbill \<Rightarrow> Balance \<Rightarrow> Balance \<Rightarrow> u64 \<Rightarrow> Balance \<times> Balance" where
  "compute_total_payout P calculate maximum npos_token_staked total_tokens era_duration =
     (let portion = perbill_from_rational P era_duration MILLISECONDS_PER_YEAR
      in (perbill_mul P portion (calculate npos_token_staked total_tokens),
          perbill_mul P portion (perbill_mul P maximum total_tokens)))"

subsection \<open>Lemmas: the logarithm\<close>

lemma pow2_small: "n < 32 \<Longrightarrow> pow2 n = 2 ^ n"
  by (simp add: pow2_def)

lemma pow2_mul:
  assumes "n < 20" and "2 ^ n * q \<le> p" and "p \<le> 1000000"
  shows "wrap_mul u32_max (pow2 n) q = 2 ^ n * q" and "wrap_mul u32_max (pow2 (Suc n)) q = 2 * (2 ^ n * q)"
  using assms by (simp_all add: pow2_small wrap_mul_exact u32_max_def)

lemma power_lt_20:
  assumes "2 ^ n * q \<le> p" and "0 < q" and "p \<le> (1000000 :: nat)"
  shows "n < 20"
proof (rule ccontr)
  assume "\<not> n < 20"
  then have "(2 :: nat) ^ 20 \<le> 2 ^ n" by (intro power_increasing) simp_all
  also have "\<dots> \<le> 2 ^ n * q" using assms(2) by simp
  finally show False using assms by simp
qed

lemma log2_search_finds:
  assumes "2 ^ n * q \<le> p" and "0 < q" and "p \<le> 1000000"
  shows "\<exists>m. log2_search p q n = Some m \<and> m < 20 \<and> 2 ^ m * q \<le> p \<and> p < 2 * (2 ^ m * q)"
  using assms
proof (induction p q n rule: log2_search.induct)
  case (1 p q n)
  have n: "n < 20" by (rule power_lt_20 [OF "1.prems"])
  note mul = pow2_mul [OF n "1.prems"(1,3)]
  show ?case
  proof (cases "p < 2 * (2 ^ n * q)")
    case True
    with mul n "1.prems" show ?thesis by (subst log2_search.simps) simp
  next
    case False
    then have "2 ^ (n + 1) * q \<le> p" by simp
    with "1.IH" "1.prems" mul n False show ?thesis by (subst log2_search.simps) simp
  qed
qed

text \<open>For \<open>3 y_num \<le> y_den\<close> the terms fall by a factor of nine.\<close>

definition term_bound :: "nat \<Rightarrow> nat" where
  "term_bound k = (if k = 0 then 961796 else 106866 div 9 ^ (k - 1) div (2 * k + 1))"

lemma div_pow_third:
  assumes "3 * a \<le> b" and "0 < (b :: nat)"
  shows "x * a ^ n div b ^ n \<le> x div 3 ^ n"
proof -
  let ?t = "x * a ^ n div b ^ n"
  have "(3 * a) ^ n \<le> b ^ n" using assms(1) by (rule power_mono) simp
  then have pow: "3 ^ n * a ^ n \<le> b ^ n" by (simp add: power_mult_distrib)
  have "?t * b ^ n \<le> x * a ^ n" by simp
  then have "3 ^ n * (?t * b ^ n) \<le> 3 ^ n * (x * a ^ n)" by (rule mult_le_mono2)
  also have "\<dots> = x * (3 ^ n * a ^ n)" by (simp add: ac_simps)
  also have "\<dots> \<le> x * b ^ n" using pow by (rule mult_le_mono2)
  finally have "(?t * 3 ^ n) * b ^ n \<le> x * b ^ n" by (simp add: ac_simps)
  then have "?t * 3 ^ n \<le> x" using assms(2) by simp
  then show ?thesis by (simp add: less_eq_div_iff_mult_less_eq)
qed

lemma taylor_iterate:
  assumes "3 * a \<le> b" and "0 < (b :: nat)" and "x \<le> y"
  shows "((\<lambda>res. res * a ^ 2 div b ^ 2) ^^ n) x \<le> y div 9 ^ n"
proof (induction n)
  case (Suc n)
  let ?r = "((\<lambda>res. res * a ^ 2 div b ^ 2) ^^ n) x"
  have "?r * a ^ 2 div b ^ 2 \<le> ?r div 3 ^ 2" by (rule div_pow_third [OF assms(1,2)])
  also have "\<dots> \<le> y div 9 ^ n div 9" using div_le_mono [OF Suc.IH, of 9] by simp
  finally show ?case by (simp add: mult.commute flip: div_mult2_eq)
qed (simp add: assms(3))

lemma taylor_term_bound:
  assumes "3 * a \<le> b" and "0 < b"
  shows "\<exists>t. taylor_term k a b = Some t \<and> t \<le> term_bound k"
proof (cases "k = 0")
  case True
  have "two_div_ln_2 * a ^ 1 div b ^ 1 \<le> 961796"
    using div_pow_third [OF assms, of two_div_ln_2 1] by (simp add: two_div_ln_2_def)
  with True show ?thesis by (simp add: taylor_term_def term_bound_def try_into_u32_def u32_max_def)
next
  case False
  let ?r = "((\<lambda>res. res * a ^ 2 div b ^ 2) ^^ (k - 1)) (two_div_ln_2 * a ^ 3 div b ^ 3)"
  have "two_div_ln_2 * a ^ 3 div b ^ 3 \<le> 106866"
    using div_pow_third [OF assms, of two_div_ln_2 3] by (simp add: two_div_ln_2_def)
  then have "?r \<le> 106866 div 9 ^ (k - 1)" by (rule taylor_iterate [OF assms])
  then have "?r div (2 * k + 1) \<le> term_bound k" using False by (simp add: term_bound_def div_le_mono)
  moreover have "term_bound k \<le> u32_max"
    by (simp add: term_bound_def u32_max_def div_le_dividend order_trans [OF div_le_dividend])
  ultimately show ?thesis using False by (simp add: taylor_term_def try_into_u32_def Let_def)
qed

lemma term_bound_sum: "(\<Sum>j = 0..<7. term_bound j) \<le> 1000000" "7 \<le> k \<Longrightarrow> term_bound k = 0"
proof -
  show "(\<Sum>j = 0..<7. term_bound j) \<le> 1000000" by code_simp
  assume "7 \<le> k"
  then have "(9 :: nat) ^ 6 \<le> 9 ^ (k - 1)" by (intro power_increasing) simp_all
  then show "term_bound k = 0" using \<open>7 \<le> k\<close> by (simp add: term_bound_def)
qed

lemma taylor_loop_ends:
  assumes "3 * a \<le> b" and "0 < b" and "k \<le> 7" and "res + (\<Sum>j = k..<7. term_bound j) \<le> u32_max"
  shows "\<exists>r. taylor_loop a b k res = Some r \<and> res \<le> r \<and> r \<le> res + (\<Sum>j = k..<7. term_bound j)"
  using assms(3,4)
proof (induction "7 - k" arbitrary: k res)
  case 0
  then have "k = 7" by simp
  with taylor_term_bound [OF assms(1,2), of k] term_bound_sum(2) [of k] show ?case
    by (subst taylor_loop.simps) simp
next
  case (Suc n)
  then have k: "k < 7" by simp
  obtain t where t: "taylor_term k a b = Some t" "t \<le> term_bound k"
    using taylor_term_bound [OF assms(1,2)] by blast
  have sum: "(\<Sum>j = k..<7. term_bound j) = term_bound k + (\<Sum>j = Suc k..<7. term_bound j)"
    using k by (simp add: sum.atLeast_Suc_lessThan)
  show ?case
  proof (cases "t = 0")
    case True
    with t show ?thesis by (subst taylor_loop.simps) simp
  next
    case False
    have fits: "res + t + (\<Sum>j = Suc k..<7. term_bound j) \<le> u32_max" using Suc.prems sum t(2) by simp
    have "\<exists>r. taylor_loop a b (Suc k) (res + t) = Some r \<and> res + t \<le> r \<and>
        r \<le> res + t + (\<Sum>j = Suc k..<7. term_bound j)"
      by (rule Suc.hyps(1)) (use Suc.hyps(2) k fits in simp_all)
    moreover have "add_u32 k 1 = Suc k" "add_u32 res t = res + t"
      using k fits by (simp_all add: wrap_add_def u32_max_def)
    ultimately show ?thesis using t False sum by (subst taylor_loop.simps) auto
  qed
qed

lemma log2_defined:
  assumes "0 < q" and "q \<le> p" and "p \<le> 1000000"
  shows "\<exists>n r. log2 p q = Some r \<and> n < 20 \<and> 2 ^ n * q \<le> p \<and> p < 2 * (2 ^ n * q) \<and>
    n * 1000000 \<le> r \<and> r \<le> (n + 1) * 1000000"
proof -
  from log2_search_finds [of 0 q p] assms obtain n where
    n: "log2_search p q 0 = Some n" "n < 20" "2 ^ n * q \<le> p" "p < 2 * (2 ^ n * q)" by auto
  note mul = pow2_mul [OF n(2,3) assms(3)]
  let ?a = "p - 2 ^ n * q" and ?b = "p + 2 ^ n * q"
  have base: "wrap_mul u32_max n 1000000 = n * 1000000" using n(2) by (simp add: wrap_mul_exact u32_max_def)
  have "n * 1000000 + (\<Sum>j = 0..<7. term_bound j) \<le> u32_max"
    using term_bound_sum(1) n(2) by (simp add: u32_max_def)
  moreover have "3 * ?a \<le> ?b" using n(3,4) by linarith
  ultimately obtain r where
    r: "taylor_loop ?a ?b 0 (n * 1000000) = Some r" "n * 1000000 \<le> r"
      "r \<le> n * 1000000 + (\<Sum>j = 0..<7. term_bound j)"
    using taylor_loop_ends [of ?a ?b 0 "n * 1000000"] assms by auto
  have "sub_u32 p (2 ^ n * q) = ?a" "add_u32 p (2 ^ n * q) = ?b"
    using n assms(3) by (simp_all add: wrap_sub_exact wrap_add_def u32_max_def)
  with n mul base r assms have "log2 p q = Some (if p = q then 0 else r)"
    by (simp add: log2_def u32_max_def)
  have "n = 0" if "p = q"
  proof (rule ccontr)
    assume "n \<noteq> 0"
    then have "(2 :: nat) ^ 1 \<le> 2 ^ n" by (intro power_increasing) simp_all
    then have "2 * q \<le> 2 ^ n * q" by simp
    with n(3) assms(1) that show False by simp
  qed
  then have "n * 1000000 \<le> (if p = q then 0 else r)" using r by simp
  moreover have "(if p = q then 0 else r) \<le> (n + 1) * 1000000" using r term_bound_sum(1) by simp
  ultimately show ?thesis using n \<open>log2 p q = Some (if p = q then 0 else r)\<close> by blast
qed

subsection \<open>Lemmas: the points\<close>

lemma bounds_check_iff [simp]:
  "bounds_check b x \<longleftrightarrow>
     (if bd_min_strict b then bd_min b < x else bd_min b \<le> x) \<and> (if bd_max_strict b then x < bd_max b else x \<le> bd_max b)"
  by (auto simp: bounds_check_def Let_def)

definition input_ok :: "INposInput \<Rightarrow> bool" where
  "input_ok input \<longleftrightarrow>
     0 < min_inflation input \<and> min_inflation input < max_inflation input \<and> max_inflation input \<le> 1000000 \<and>
     100000 \<le> ideal_stake input \<and> ideal_stake input \<le> 900000 \<and> 10000 \<le> falloff input \<and>
     falloff input \<le> 1000000 \<and> 2 \<le> max_piece_count input \<and> max_piece_count input \<le> 1000"

lemma parse_fields_ok: "parse_fields a b c x y z = Some input \<Longrightarrow> input_ok input"
  by (auto simp: parse_fields_def input_ok_def split: if_splits)

lemma max_length_eq:
  assumes "input_ok input"
  shows "max_length input =
    (max_inflation input - min_inflation input + 1000000 - ideal_stake input) div (max_piece_count input - 1)"
proof -
  have 1: "sub_u32 (max_inflation input) (min_inflation input) = max_inflation input - min_inflation input"
    "sub_u32 (max_piece_count input) 1 = max_piece_count input - 1"
    using assms by (simp_all add: input_ok_def wrap_sub_exact u32_max_def)
  have 2: "add_u32 (max_inflation input - min_inflation input) 1000000 = max_inflation input - min_inflation input + 1000000"
    using assms unfolding wrap_add_def input_ok_def u32_max_def by (intro mod_less) linarith
  have "sub_u32 (max_inflation input - min_inflation input + 1000000) (ideal_stake input) =
      max_inflation input - min_inflation input + 1000000 - ideal_stake input"
    using assms unfolding input_ok_def u32_max_def by (intro wrap_sub_exact) linarith+
  then show ?thesis by (simp only: max_length_def 1 2)
qed

lemma max_length_le: "input_ok input \<Longrightarrow> max_length input \<le> 2000000"
  by (simp only: max_length_eq) (rule order_trans [OF div_le_dividend], unfold input_ok_def, linarith)

lemma from_input_ok:
  assumes "input_ok input"
  shows "\<exists>ii. from_input input = Some \<lparr>i_0 = min_inflation input, i_ideal_times_x_ideal = max_inflation input,
    i_ideal = ii, x_ideal = ideal_stake input, decay = falloff input\<rparr>"
proof -
  have "max_inflation input * MILLION div ideal_stake input \<le> max_inflation input * MILLION div 100000"
    using assms by (intro div_le_mono2) (simp_all add: input_ok_def)
  also have "\<dots> \<le> u32_max" using assms by (simp add: input_ok_def MILLION_def u32_max_def)
  finally show ?thesis by (simp add: from_input_def try_into_u32_def)
qed

text \<open>A height above the least one is reached at some place after the ideal stake.\<close>

lemma opposite_defined:
  assumes "i_0 s < y" and "y \<le> i_ideal_times_x_ideal s" and "i_ideal_times_x_ideal s \<le> 1000000"
    and "x_ideal s \<le> 900000" and "decay s \<le> 1000000"
  shows "\<exists>x. compute_opposite_after_x_ideal s y = Some x \<and> x_ideal s \<le> x \<and> x \<le> 30000000"
proof -
  have subs: "sub_u32 (i_ideal_times_x_ideal s) (i_0 s) = i_ideal_times_x_ideal s - i_0 s" "sub_u32 y (i_0 s) = y - i_0 s"
    using assms by (simp_all add: wrap_sub_exact u32_max_def)
  have "0 < y - i_0 s" "y - i_0 s \<le> i_ideal_times_x_ideal s - i_0 s" "i_ideal_times_x_ideal s - i_0 s \<le> 1000000"
    using assms by linarith+
  from log2_defined [OF this] obtain n r where
    r: "log2 (i_ideal_times_x_ideal s - i_0 s) (y - i_0 s) = Some r" "n < 20" "r \<le> (n + 1) * 1000000" by blast
  then have "r \<le> 20000000" by simp
  then have "decay s * r \<le> 1000000 * 20000000" using assms(5) by (intro mult_le_mono) simp_all
  then have "decay s * r div 1000000 \<le> 20000000" using div_le_mono [of "decay s * r" _ 1000000] by fastforce
  with r(1) assms(1,4) subs show ?thesis
    by (simp add: compute_opposite_after_x_ideal_def try_into_u32_def wrap_add_def u32_max_def)
qed

text \<open>From one point to a later one: more stake, no more inflation.\<close>

definition falls :: "u32 \<times> u32 \<Rightarrow> u32 \<times> u32 \<Rightarrow> bool" where
  "falls p q \<longleftrightarrow> fst p \<le> fst q \<and> snd q \<le> snd p"

text \<open>A curve's points so far: the least inflation at no stake, the greatest at the ideal stake, and from
  there on falling points, above the least inflation.\<close>

definition points_ok :: "INposInput \<Rightarrow> (u32 \<times> u32) list \<Rightarrow> bool" where
  "points_ok input ps \<longleftrightarrow>
     (\<exists>ts. ps = (0, min_inflation input) # (ideal_stake input, max_inflation input) # ts \<and>
        sorted_wrt falls ((ideal_stake input, max_inflation input) # ts) \<and>
        (\<forall>p \<in> set ts. fst p \<le> 1000000 \<and> min_inflation input \<le> snd p))"

lemma sorted_wrt_snoc:
  assumes "transp R" and "sorted_wrt R xs" and "xs \<noteq> []" and "R (last xs) y"
  shows "sorted_wrt R (xs @ [y])"
proof -
  have "sorted_wrt R (butlast xs @ [last xs])" using assms(2,3) by simp
  then have "\<forall>x \<in> set (butlast xs). R x (last xs)" by (simp add: sorted_wrt_append)
  then have "\<forall>x \<in> set (butlast xs @ [last xs]). R x y" using assms(1,4) by (auto dest: transpD)
  then show ?thesis using assms(2,3) by (simp add: sorted_wrt_append)
qed

lemma transp_falls: "transp falls"
  by (auto simp: transp_def falls_def)

lemma points_ok_snoc:
  assumes "points_ok input ps" and "falls (last ps) (x, y)" and "x \<le> 1000000" and "min_inflation input \<le> y"
  shows "points_ok input (ps @ [(x, y)])"
proof -
  from assms(1) obtain ts where
    ts: "ps = (0, min_inflation input) # (ideal_stake input, max_inflation input) # ts"
      "sorted_wrt falls ((ideal_stake input, max_inflation input) # ts)"
      "\<forall>p \<in> set ts. fst p \<le> 1000000 \<and> min_inflation input \<le> snd p" by (auto simp: points_ok_def)
  have "sorted_wrt falls (((ideal_stake input, max_inflation input) # ts) @ [(x, y)])"
    using transp_falls ts(2) by (rule sorted_wrt_snoc) (use assms(2) ts(1) in simp_all)
  with ts assms(3,4) show ?thesis by (simp add: points_ok_def)
qed

text \<open>The loop ends: a round lowers the height by the step, or lowers the step.\<close>

lemma points_loop_ends:
  assumes "input_ok input" and "max_length input \<le> min_inflation input"
    and "i_0 s = min_inflation input" "i_ideal_times_x_ideal s = max_inflation input"
      "x_ideal s = ideal_stake input" "decay s = falloff input"
    and "delta \<le> max_length input" and "min_inflation input < y" and "points_ok input ps"
    and "snd (last ps) = y" and "fst (last ps) < 1000000" and "ideal_stake input \<le> fst (last ps)"
    and "y \<le> max_inflation input"
  shows "\<exists>qs. points_loop input s delta y ps = Some qs \<and> points_ok input qs \<and> fst (last qs) = 1000000"
  using assms(7-)
proof (induction "y + delta" arbitrary: y delta ps rule: less_induct)
  case less
  have minmax: "0 < min_inflation input" "max_inflation input \<le> 1000000" "ideal_stake input \<le> 900000"
    "falloff input \<le> 1000000" using assms(1) by (simp_all add: input_ok_def)
  show ?case
  proof (cases "delta = 0")
    case True
    have "points_ok input (ps @ [(1000000, min_inflation input)])"
      using less.prems by (intro points_ok_snoc) (simp_all add: falls_def)
    with True assms(3) show ?thesis by (subst points_loop.simps) simp
  next
    case False
    have step: "sub_u32 y delta = y - delta"
      using less.prems assms(2) minmax by (intro wrap_sub_exact) (simp_all add: u32_max_def)
    have lower: "\<exists>qs. points_loop input s (delta - 1) y ps = Some qs \<and> points_ok input qs \<and> fst (last qs) = 1000000"
      by (rule less.hyps) (use less.prems False in simp_all)
    show ?thesis
    proof (cases "y - delta \<le> min_inflation input")
      case True
      with False step lower show ?thesis by (subst points_loop.simps) (simp add: Let_def)
    next
      case above: False
      have "i_0 s < y - delta" "y - delta \<le> i_ideal_times_x_ideal s" "i_ideal_times_x_ideal s \<le> 1000000"
        "x_ideal s \<le> 900000" "decay s \<le> 1000000"
        using above less.prems assms(3-6) minmax by linarith+
      from opposite_defined [OF this] assms(5) obtain x where
        x: "compute_opposite_after_x_ideal s (y - delta) = Some x" "ideal_stake input \<le> x" "x \<le> 30000000" by auto
      show ?thesis
      proof (cases "sub_u32 x (fst (last ps)) > max_length input")
        case True
        with False step above x lower show ?thesis by (subst points_loop.simps) (simp add: Let_def)
      next
        case close: False
        have after: "fst (last ps) \<le> x"
        proof (rule ccontr)
          assume "\<not> fst (last ps) \<le> x"
          then have "sub_u32 x (fst (last ps)) = Suc u32_max - (fst (last ps) - x)"
            using less.prems by (simp add: wrap_sub_def u32_max_def)
          with close max_length_le [OF assms(1)] less.prems show False by (simp add: u32_max_def)
        qed
        show ?thesis
        proof (cases "x \<ge> 1000000")
          case True
          have dist: "sub_u32 x 1000000 = x - 1000000" "sub_u32 x (fst (last ps)) = x - fst (last ps)"
            "sub_u32 (snd (last ps)) (y - delta) = delta"
            using True x(3) after less.prems minmax above by (simp_all add: wrap_sub_exact u32_max_def)
          have "(x - 1000000) * delta \<le> (x - fst (last ps)) * delta" 
            using less.prems(5) by (intro mult_le_mono1) linarith
          then have dy: "(x - 1000000) * delta div (x - fst (last ps)) \<le> delta"
            using div_le_mono [of _ "(x - fst (last ps)) * delta" "x - fst (last ps)"] less.prems(5) True by fastforce
          let ?dy = "(x - 1000000) * delta div (x - fst (last ps))"
          define z where "z = y - delta + ?dy"
          have sum: "add_u32 (y - delta) ?dy = z" unfolding z_def
            using dy less.prems minmax assms(2) unfolding wrap_add_def u32_max_def by (intro mod_less) linarith
          have "points_ok input (ps @ [(1000000, z)])"
            using less.prems above dy unfolding z_def by (intro points_ok_snoc) (simp_all add: falls_def)
          moreover have "?dy \<le> u32_max" using dy less.prems minmax assms(2) max_length_le [OF assms(1)]
            by (simp add: u32_max_def)
          ultimately show ?thesis using False step above x close True dist sum
            by (subst points_loop.simps) (simp add: Let_def try_into_u32_def)
        next
          case inside: False
          have "points_ok input (ps @ [(x, y - delta)])"
            using less.prems above after inside by (intro points_ok_snoc) (simp_all add: falls_def)
          then have "\<exists>qs. points_loop input s delta (y - delta) (ps @ [(x, y - delta)]) = Some qs \<and>
              points_ok input qs \<and> fst (last qs) = 1000000"
            by (intro less.hyps) (use less.prems above False inside x in simp_all)
          with False step above x close inside show ?thesis by (subst points_loop.simps) (simp add: Let_def)
        qed
      qed
    qed
  qed
qed

lemma compute_points_ok:
  assumes "input_ok input" and "max_length input \<le> min_inflation input"
  shows "\<exists>ps. compute_points input = Some ps \<and> points_ok input ps \<and> fst (last ps) = 1000000"
proof -
  obtain ii where s: "from_input input = Some \<lparr>i_0 = min_inflation input, i_ideal_times_x_ideal = max_inflation input,
    i_ideal = ii, x_ideal = ideal_stake input, decay = falloff input\<rparr>" (is "_ = Some ?s")
    using from_input_ok [OF assms(1)] by blast
  have "\<exists>ps. points_loop input ?s (max_length input) (max_inflation input)
      [(0, i_0 ?s), (x_ideal ?s, i_ideal_times_x_ideal ?s)] = Some ps \<and> points_ok input ps \<and> fst (last ps) = 1000000"
    by (rule points_loop_ends [OF assms]) (use assms(1) in \<open>simp_all add: input_ok_def points_ok_def\<close>)
  with s show ?thesis by (simp add: compute_points_def)
qed

lemma points_okD:
  assumes "points_ok input ps" and "input_ok input" and "p \<in> set ps"
  shows "fst p \<le> 1000000" and "min_inflation input \<le> snd p" and "snd p \<le> max_inflation input"
  using assms by (auto simp: points_ok_def input_ok_def falls_def)

lemma falls_sorted: "sorted_wrt falls ps \<Longrightarrow> sorted (map fst ps)"
  unfolding sorted_wrt_map by (erule sorted_wrt_mono_rel [rotated]) (simp add: falls_def)

lemma points_ok_sorted:
  assumes "points_ok input ps"
  shows "sorted (map fst ps)"
proof -
  from assms obtain ts where "ps = (0, min_inflation input) # ts" "sorted_wrt falls ts"
    by (auto simp: points_ok_def)
  then show ?thesis using falls_sorted [of ts] by simp
qed

lemma foldl_max_eq:
  fixes m :: nat
  assumes "m \<in> set ys" and "\<forall>y \<in> set ys. y \<le> m"
  shows "foldl max 0 ys = m"
proof -
  have "foldl max 0 ys = fold max ys 0" by (simp add: foldl_conv_fold max.commute)
  also have "\<dots> = Max (set (0 # ys))" by (rule Max.set_eq_fold [symmetric])
  also have "\<dots> = m" using assms by (intro Max_eqI) auto
  finally show ?thesis .
qed

lemma generate_ok:
  assumes "points_ok input ps" and "input_ok input"
  shows "\<exists>cs. generate_piecewise_linear ps = Some (cs, max_inflation input * 1000) \<and> length cs = length ps"
proof -
  have "foldl max 0 (map snd ps) = max_inflation input"
    using assms(1) points_okD(3) [OF assms] by (intro foldl_max_eq) (auto simp: points_ok_def)
  moreover have "\<forall>(x, y) \<in> set ps. x * 1000 \<le> u32_max \<and> y * 1000 \<le> u32_max"
    using points_okD [OF assms] assms(2) by (fastforce simp: u32_max_def input_ok_def)
  ultimately show ?thesis using assms(2) by (simp add: generate_piecewise_linear_def input_ok_def u32_max_def)
qed

subsection \<open>Properties\<close>

text \<open>C36. The integer logarithm ends without a panic on its whole range and brackets the true one: with
  \<open>2\<^sup>n q \<le> p < 2\<^sup>n\<^sup>+\<^sup>1 q\<close>, the result lies between \<open>n\<close> and \<open>n + 1\<close> millions.\<close>

theorem log2_brackets:
  assumes "0 < q" and "q \<le> p" and "p \<le> 1000000"
  shows "\<exists>n r. log2 p q = Some r \<and> 2 ^ n * q \<le> p \<and> p < 2 * (2 ^ n * q) \<and>
    n * 1000000 \<le> r \<and> r \<le> (n + 1) * 1000000"
  using log2_defined [OF assms] by blast

theorem log2_brackets_witness: "\<exists>r. log2 750000 250000 = Some r \<and> 1000000 \<le> r \<and> r \<le> 2000000"
proof -
  from log2_brackets [of 250000 750000] obtain n r where
    r: "log2 750000 250000 = Some r" "2 ^ n * 250000 \<le> (750000 :: nat)" "750000 < 2 * (2 ^ n * (250000 :: nat))"
      "n * 1000000 \<le> r" "r \<le> (n + 1) * 1000000" by auto
  from r(2,3) have "2 ^ n < (2 :: nat) ^ 2" "(2 :: nat) ^ 0 < 2 ^ n" by simp_all
  then have "n < 2" "0 < n" by (simp_all only: power_strict_increasing_iff numeral_less_iff)
  then have "n = 1" by simp
  with r show ?thesis by simp
qed

text \<open>C37. For parameters within the bounds whose segments are no longer than the least inflation,
  the points of the curve are found: they start at the least inflation, rise to the greatest at the ideal
  stake, come in the order of stake up to the whole stake, stay within the bounds, and make a piecewise
  linear function whose maximum is the greatest inflation.\<close>

theorem curve_points_found:
  assumes "parse_fields mini maxi ideal fall pieces prec = Some input" and "max_length input \<le> min_inflation input"
  shows "\<exists>ps cs. compute_points input = Some ps \<and> ps ! 0 = (0, mini) \<and> ps ! 1 = (ideal, maxi) \<and>
    fst (last ps) = 1000000 \<and> sorted (map fst ps) \<and> (\<forall>p \<in> set ps. mini \<le> snd p \<and> snd p \<le> maxi) \<and>
    generate_piecewise_linear ps = Some (cs, maxi * 1000)"
proof -
  have input: "min_inflation input = mini" "max_inflation input = maxi" "ideal_stake input = ideal"
    using assms(1) by (auto simp: parse_fields_def split: if_splits)
  note ok = parse_fields_ok [OF assms(1)]
  from compute_points_ok [OF ok assms(2)] obtain ps where
    ps: "compute_points input = Some ps" "points_ok input ps" "fst (last ps) = 1000000" by blast
  have "ps ! 0 = (0, mini)" "ps ! 1 = (ideal, maxi)" using ps(2) input by (auto simp: points_ok_def)
  moreover obtain cs where "generate_piecewise_linear ps = Some (cs, maxi * 1000)"
    using generate_ok [OF ps(2) ok] input by auto
  ultimately show ?thesis
    using ps(1,3) points_ok_sorted [OF ps(2)] points_okD(2,3) [OF ps(2) ok] input by blast
qed

text \<open>The curve of the runtime.\<close>

theorem curve_points_found_witness:
  "\<exists>input ps. parse_fields 25000 100000 750000 50000 40 5000 = Some input \<and> compute_points input = Some ps \<and>
     fst (last ps) = 1000000"
proof -
  let ?i = "\<lparr>min_inflation = 25000, ideal_stake = 750000, max_inflation = 100000, falloff = 50000,
    max_piece_count = 40, test_precision = 5000\<rparr>"
  have "parse_fields 25000 100000 750000 50000 40 5000 = Some ?i" by (simp add: parse_fields_def)
  moreover have "max_length ?i \<le> min_inflation ?i" by code_simp
  ultimately show ?thesis using curve_points_found by blast
qed

text \<open>The bounds do not suffice: with as few pieces as are allowed, the first segment is longer
  than the greatest inflation, the height wraps around, and the logarithm's assertion fails.\<close>

theorem curve_can_panic:
  "\<exists>input. parse_fields 25000 100000 750000 50000 2 5000 = Some input \<and> compute_points input = None"
proof -
  let ?i = "\<lparr>min_inflation = 25000, ideal_stake = 750000, max_inflation = 100000, falloff = 50000,
    max_piece_count = 2, test_precision = 5000\<rparr>"
  have "compute_points ?i = None" by code_simp
  then show ?thesis by (simp add: parse_fields_def)
qed

end
