(* ===== verification/Runtime.thy ===== *)
theory Runtime
  imports Ethereum_Pallet Staking_Weights Reward_Curve
begin

section \<open>The runtime\<close>

text \<open>
  What \<^verbatim>\<open>runtime/src/lib.rs\<close> adds to the pallets: the price of gas in weight, where fees go, how votes are
  counted, the calls that carry their own signature, and the runtime interfaces that run a transaction
  without a block or trace it.

  Constants of the framework (the weight of a second, the number of block hashes kept) are arguments. The
  executive, which applies an extrinsic, and the tracer are functions on the state of the chain.
\<close>

subsection \<open>Gas and weight\<close>

definition GAS_PER_SECOND :: u64 where
  "GAS_PER_SECOND = 32000000"

definition WEIGHT_PER_GAS :: "Weight \<Rightarrow> u64" where
  "WEIGHT_PER_GAS weight_per_second = weight_per_second div GAS_PER_SECOND"

definition gas_to_weight :: "Weight \<Rightarrow> u64 \<Rightarrow> Weight" where
  "gas_to_weight weight_per_second gas = sat_mul u64_max gas (WEIGHT_PER_GAS weight_per_second)"

text \<open>\<^term>\<open>None\<close>: a division by zero.\<close>

definition weight_to_gas :: "Weight \<Rightarrow> Weight \<Rightarrow> u64 option" where
  "weight_to_gas weight_per_second weight =
     (if WEIGHT_PER_GAS weight_per_second = 0 then None
      else Some (weight div WEIGHT_PER_GAS weight_per_second))"

text \<open>\<^verbatim>\<open>CloverEvmConfig\<close>: the costs and rules of the EVM; \<^verbatim>\<open>usize\<close> has 64 bits.\<close>

record evm_config =
  evm_gas_ext_code :: nat
  evm_gas_ext_code_hash :: nat
  evm_gas_balance :: nat
  evm_gas_sload :: nat
  evm_gas_sload_cold :: nat
  evm_gas_sstore_set :: nat
  evm_gas_sstore_reset :: nat
  evm_refund_sstore_clears :: nat
  evm_max_refund_quotient :: nat
  evm_gas_suicide :: nat
  evm_gas_suicide_new_account :: nat
  evm_gas_call :: nat
  evm_gas_expbyte :: nat
  evm_gas_transaction_create :: nat
  evm_gas_transaction_call :: nat
  evm_gas_transaction_zero_data :: nat
  evm_gas_transaction_non_zero_data :: nat
  evm_gas_access_list_address :: nat
  evm_gas_access_list_storage_key :: nat
  evm_gas_account_access_cold :: nat
  evm_gas_storage_read_warm :: nat
  evm_sstore_gas_metering :: bool
  evm_sstore_revert_under_stipend :: bool
  evm_increase_state_access_gas :: bool
  evm_decrease_clears_refund :: bool
  evm_disallow_executable_format :: bool
  evm_err_on_call_with_more_gas :: bool
  evm_empty_considered_exists :: bool
  evm_create_increase_nonce :: bool
  evm_call_l64_after_gas :: bool
  evm_stack_limit :: nat
  evm_memory_limit :: nat
  evm_call_stack_limit :: nat
  evm_create_contract_limit :: "nat option"
  evm_call_stipend :: nat
  evm_has_delegate_call :: bool
  evm_has_create2 :: bool
  evm_has_revert :: bool
  evm_has_return_data :: bool
  evm_has_bitwise_shifting :: bool
  evm_has_chain_id :: bool
  evm_has_self_balance :: bool
  evm_has_ext_code_hash :: bool
  evm_has_base_fee :: bool
  evm_estimate :: bool

definition CloverEvmConfig :: evm_config where
  "CloverEvmConfig =
     \<lparr>evm_gas_ext_code = 700, evm_gas_ext_code_hash = 700, evm_gas_balance = 700,
      evm_gas_sload = 800, evm_gas_sload_cold = 0, evm_gas_sstore_set = 20000,
      evm_gas_sstore_reset = 5000, evm_refund_sstore_clears = 15000, evm_max_refund_quotient = 2,
      evm_gas_suicide = 5000, evm_gas_suicide_new_account = 25000, evm_gas_call = 700,
      evm_gas_expbyte = 50, evm_gas_transaction_create = 53000, evm_gas_transaction_call = 21000,
      evm_gas_transaction_zero_data = 4, evm_gas_transaction_non_zero_data = 16,
      evm_gas_access_list_address = 0, evm_gas_access_list_storage_key = 0,
      evm_gas_account_access_cold = 0, evm_gas_storage_read_warm = 0,
      evm_sstore_gas_metering = True, evm_sstore_revert_under_stipend = True,
      evm_increase_state_access_gas = False, evm_decrease_clears_refund = False,
      evm_disallow_executable_format = False, evm_err_on_call_with_more_gas = False,
      evm_empty_considered_exists = False, evm_create_increase_nonce = True,
      evm_call_l64_after_gas = True, evm_stack_limit = 1024, evm_memory_limit = u64_max,
      evm_call_stack_limit = 1024, evm_create_contract_limit = None, evm_call_stipend = 2300,
      evm_has_delegate_call = True, evm_has_create2 = True, evm_has_revert = True,
      evm_has_return_data = True, evm_has_bitwise_shifting = True, evm_has_chain_id = True,
      evm_has_self_balance = True, evm_has_ext_code_hash = True, evm_has_base_fee = False,
      evm_estimate = False\<rparr>"

definition GlitchTestnetChainId :: u64 where
  "GlitchTestnetChainId = 2160"

definition GlitchBlockGasLimit :: U256 where
  "GlitchBlockGasLimit = u32_max"

definition fixed_min_gas_price :: U256 where
  "fixed_min_gas_price = 10000000000"

text \<open>The configuration of the EVM, and with it of the Ethereum pallet, on any other services.\<close>

definition glitch_evm :: "Weight \<Rightarrow> 'w eth_config \<Rightarrow> 'w eth_config" where
  "glitch_evm weight_per_second X =
     X\<lparr>X_ChainId := GlitchTestnetChainId, X_BlockGasLimit := GlitchBlockGasLimit,
       X_min_gas_price := (\<lambda>w. fixed_min_gas_price),
       X_gas_to_weight := gas_to_weight weight_per_second\<rparr>"

lemma glitch_evm_simps [simp]:
  "X_ChainId (glitch_evm p X) = GlitchTestnetChainId"
  "X_BlockGasLimit (glitch_evm p X) = GlitchBlockGasLimit"
  "X_min_gas_price (glitch_evm p X) w = fixed_min_gas_price"
  "X_gas_to_weight (glitch_evm p X) = gas_to_weight p"
  "X_is_in_white_list (glitch_evm p X) = X_is_in_white_list X"
  by (simp_all add: glitch_evm_def)

lemma gas_weight_roundtrip:
  assumes "GAS_PER_SECOND \<le> p" and "gas * WEIGHT_PER_GAS p \<le> u64_max"
  shows "weight_to_gas p (gas_to_weight p gas) = Some gas"
proof -
  have "WEIGHT_PER_GAS p > 0"
    using assms(1) by (simp add: WEIGHT_PER_GAS_def GAS_PER_SECOND_def div_greater_zero_iff)
  with assms(2) show ?thesis by (simp add: weight_to_gas_def gas_to_weight_def sat_mul_def)
qed

text \<open>The author of an Ethereum block: bytes 4 to 24 of the key of the authority. \<^term>\<open>None\<close> is an index
  out of range, or a key that is too short.\<close>

definition ethereum_find_author ::
  "('d \<Rightarrow> u32 option) \<Rightarrow> (byte list \<times> u64) list \<Rightarrow> 'd \<Rightarrow> H160 option option" where
  "ethereum_find_author find_author authorities digests =
     (case find_author digests of
        None \<Rightarrow> Some None
      | Some author_index \<Rightarrow>
          if author_index < length authorities \<and> 24 \<le> length (fst (authorities ! author_index))
          then Some (Some (take 20 (drop 4 (fst (authorities ! author_index)))))
          else None)"

definition mock_find_author :: "'d \<Rightarrow> u32 option" where
  "mock_find_author digests = Some 0"

lemma find_author_length:
  "ethereum_find_author f auths d = Some (Some a) \<Longrightarrow> length a = 20"
  by (auto simp: ethereum_find_author_def split: option.splits if_splits)

subsection \<open>Votes and deposits\<close>

definition vote_u64_u64 :: "u64 \<Rightarrow> u64" where
  "vote_u64_u64 x = x"

definition vote_u128_u128 :: "nat \<Rightarrow> nat" where
  "vote_u128_u128 x = x"

definition vote_u128_u64 :: "nat \<Rightarrow> u64" where
  "vote_u128_u64 x = min u64_max x"

definition vote_u64_u128 :: "u64 \<Rightarrow> nat" where
  "vote_u64_u128 x = x"

text \<open>\<^verbatim>\<open>CurrencyToVoteHandler2\<close> scales by the issuance; the cast to 64 bits drops the bits above.\<close>

definition vote_factor :: "Balance \<Rightarrow> nat" where
  "vote_factor issuance = max (issuance div u64_max) 1"

definition to_vote2 :: "Balance \<Rightarrow> Balance \<Rightarrow> u64" where
  "to_vote2 issuance x = (x div vote_factor issuance) mod Suc u64_max"

definition to_currency2 :: "Balance \<Rightarrow> nat \<Rightarrow> Balance" where
  "to_currency2 issuance x = wrap_mul u128_max x (vote_factor issuance)"

lemma vote2_roundtrip:
  assumes "x \<le> u128_max" and "x div vote_factor issuance \<le> u64_max"
  shows "to_currency2 issuance (to_vote2 issuance x) \<le> x \<and>
    x < to_currency2 issuance (to_vote2 issuance x) + vote_factor issuance"
proof -
  let ?f = "vote_factor issuance"
  have pos: "?f > 0" by (simp add: vote_factor_def)
  have le: "x div ?f * ?f \<le> x" by simp
  have "to_vote2 issuance x = x div ?f" using assms(2) by (simp add: to_vote2_def)
  then have "to_currency2 issuance (to_vote2 issuance x) = x div ?f * ?f"
    using wrap_mul_exact [OF order_trans [OF le assms(1)]] by (simp add: to_currency2_def)
  with pos show ?thesis using div_mult_mod_eq [of x ?f] mod_less_divisor [of ?f x] by linarith
qed

lemma vote2_truncates: "to_vote2 (2 * u64_max - 1) (u64_max + 1) = 0"
  by (simp add: to_vote2_def vote_factor_def u64_max_def)

definition deposit_for :: "u32 \<Rightarrow> u32 \<Rightarrow> Balance" where
  "deposit_for items bytes = items * 15 * CENTS + bytes * 6 * CENTS"

lemma deposit_for_fits:
  "items \<le> u32_max \<Longrightarrow> bytes \<le> u32_max \<Longrightarrow> deposit_for items bytes \<le> u128_max"
  by (simp add: deposit_for_def CENTS_def DOLLARS_def u32_max_def u128_max_def)

subsection \<open>Fees\<close>

text \<open>\<^verbatim>\<open>FundBalance\<close>; the framework does not call the handler for an amount of zero. \<^verbatim>\<open>merge\<close> adds up like
  \<^verbatim>\<open>subsume\<close>. Only the first two items of the iterator are asked for.\<close>

definition fund_on_unbalanced :: "'w currency \<Rightarrow> (string \<Rightarrow> AccountId) \<Rightarrow> Balance \<Rightarrow> 'w \<Rightarrow> 'w" where
  "fund_on_unbalanced C account_of amount w =
     (if amount = 0 then w else cur_resolve_creating C (fund_account_id account_of) amount w)"

fun deal_with_fees :: "'w currency \<Rightarrow> (string \<Rightarrow> AccountId) \<Rightarrow> Balance list \<Rightarrow> 'w \<Rightarrow> 'w" where
  "deal_with_fees C account_of [] w = w"
| "deal_with_fees C account_of [fees] w = fund_on_unbalanced C account_of fees w"
| "deal_with_fees C account_of (fees # tips # _) w =
     fund_on_unbalanced C account_of (cur_subsume C fees tips) w"

text \<open>\<^verbatim>\<open>WeightToFee\<close>: one term, of degree one.\<close>

definition weight_to_fee_coefficient :: Balance where
  "weight_to_fee_coefficient = 10000"

text \<open>\<^verbatim>\<open>ConstantFeeUpdate\<close> and \<^verbatim>\<open>StaticFeeMultiplierUpdate\<close>; a multiplier is a fixed-point number with
  eighteen digits.\<close>

definition constant_fee_update :: "nat \<Rightarrow> nat" where
  "constant_fee_update previous = previous"

definition static_fee_update :: "nat \<Rightarrow> nat" where
  "static_fee_update previous = 10 ^ 18"

subsection \<open>Staking in the runtime\<close>

definition glitch_staking :: "db_weight \<Rightarrow> 'w staking_config \<Rightarrow> 'w staking_config" where
  "glitch_staking db T =
     (with_weights (runtime_weight db) T)
       \<lparr>T_MaxNominations := 16, T_SessionsPerEra := 6, T_BondingDuration := 28, T_SlashDeferDuration := 27,
        T_MaxNominatorRewardedPerValidator := 256, T_OffendingValidatorsThreshold := 170000000,
        T_on_staker_slash := (\<lambda>stash active slashed w. w)\<rparr>"


text \<open>\<^verbatim>\<open>constants.rs\<close>: durations in blocks of six seconds.\<close>

definition SECS_PER_BLOCK :: u64 where
  "SECS_PER_BLOCK = 6"

definition MILLISECS_PER_BLOCK :: u64 where
  "MILLISECS_PER_BLOCK = SECS_PER_BLOCK * 1000"

definition MINUTES :: BlockNumber where
  "MINUTES = 60 div SECS_PER_BLOCK"

definition HOURS :: BlockNumber where
  "HOURS = MINUTES * 60"

definition DAYS :: BlockNumber where
  "DAYS = HOURS * 24"

definition EPOCH_DURATION_IN_BLOCKS :: BlockNumber where
  "EPOCH_DURATION_IN_BLOCKS = 4 * HOURS"

text \<open>An era of six sessions is a day, and the bonding duration is longer than the slashes are deferred.\<close>

lemma era_is_a_day:
  "T_SessionsPerEra (glitch_staking db T) * EPOCH_DURATION_IN_BLOCKS = DAYS"
  "T_SlashDeferDuration (glitch_staking db T) < T_BondingDuration (glitch_staking db T)"
  by (simp_all add: glitch_staking_def EPOCH_DURATION_IN_BLOCKS_def DAYS_def)

text \<open>The parameters of \<^verbatim>\<open>REWARD_CURVE\<close>: the macro accepts them and finds the curve.\<close>

definition glitch_curve :: "INposInput option" where
  "glitch_curve = parse_fields 25000 100000 750000 50000 40 5000"

lemma glitch_curve_found:
  "\<exists>input ps. glitch_curve = Some input \<and> compute_points input = Some ps \<and> points_ok input ps"
proof -
  let ?i = "\<lparr>min_inflation = 25000, ideal_stake = 750000, max_inflation = 100000, falloff = 50000,
    max_piece_count = 40, test_precision = 5000\<rparr>"
  have p: "parse_fields 25000 100000 750000 50000 40 5000 = Some ?i" by (simp add: parse_fields_def)
  moreover have "max_length ?i \<le> min_inflation ?i" by code_simp
  ultimately show ?thesis
    using compute_points_ok [OF parse_fields_ok [OF p]] by (auto simp: glitch_curve_def)
qed

text \<open>The offchain miner balances a random number of times, at most \<^verbatim>\<open>MINER_MAX_ITERATIONS\<close>.\<close>

definition MINER_MAX_ITERATIONS :: u32 where
  "MINER_MAX_ITERATIONS = 10"

definition balancing_iterations :: "u32 \<Rightarrow> nat" where
  "balancing_iterations seed =
     (if MINER_MAX_ITERATIONS = 0 then 0 else seed mod sat_add u32_max MINER_MAX_ITERATIONS 1)"

lemma balancing_iterations_bounded: "balancing_iterations seed \<le> MINER_MAX_ITERATIONS"
  using mod_less_divisor [of 11 seed] by (simp add: balancing_iterations_def MINER_MAX_ITERATIONS_def sat_add_def u32_max_def)

subsection \<open>Transactions the runtime signs itself\<close>

definition checked_next_power_of_two :: "u32 \<Rightarrow> u32 option" where
  "checked_next_power_of_two n = List.find (\<lambda>p. n \<le> p) (map (\<lambda>k. 2 ^ k) [0..<32])"

definition mortal_period :: "BlockNumber \<Rightarrow> u64" where
  "mortal_period block_hash_count =
     (case map_option (\<lambda>c. c div 2) (checked_next_power_of_two block_hash_count) of
        None \<Rightarrow> 2
      | Some c \<Rightarrow> c)"

record signed_extra =
  se_period :: u64
  se_current_block :: u64
  se_nonce :: u32
  se_tip :: Balance

definition create_transaction ::
  "('c \<Rightarrow> signed_extra \<Rightarrow> 'p option) \<Rightarrow> ('p \<Rightarrow> 'k \<Rightarrow> 's option) \<Rightarrow> (AccountId \<Rightarrow> 'a) \<Rightarrow> BlockNumber \<Rightarrow>
     BlockNumber \<Rightarrow> 'c \<Rightarrow> 'k \<Rightarrow> AccountId \<Rightarrow> u32 \<Rightarrow> ('c \<times> ('a \<times> 's \<times> signed_extra)) option" where
  "create_transaction new_payload sign unlookup block_hash_count block_number call public account nonce =
     (let period = mortal_period block_hash_count;
          current_block = to_u64 block_number - 1;
          extra = \<lparr>se_period = period, se_current_block = current_block, se_nonce = nonce, se_tip = 0\<rparr>
      in case new_payload call extra of
           None \<Rightarrow> None
         | Some raw_payload \<Rightarrow>
             (case sign raw_payload public of
                None \<Rightarrow> None
              | Some signature \<Rightarrow> Some (call, (unlookup account, signature, extra))))"

text \<open>The period is a power of two below the number of block hashes kept and at least half of it, so that
  the block a transaction is anchored at can still be checked.\<close>

lemma mortal_period_kept:
  assumes "2 \<le> n" and "n \<le> 2 ^ 31"
  shows "(\<exists>k. mortal_period n = 2 ^ k) \<and> mortal_period n < n \<and> n \<le> 2 * mortal_period n"
proof -
  define k where "k = (LEAST k. n \<le> 2 ^ k)"
  have "n \<le> 2 ^ k" unfolding k_def by (rule LeastI [of _ 31]) (rule assms(2))
  moreover have below: "2 ^ j < n" if "j < k" for j
    using not_less_Least [of j "\<lambda>k. n \<le> 2 ^ k"] that by (simp add: k_def)
  moreover have "k \<le> 31" unfolding k_def by (rule Least_le) (rule assms(2))
  ultimately have "checked_next_power_of_two n = Some (2 ^ k)"
    unfolding checked_next_power_of_two_def find_Some_iff
    by (intro exI [of _ k]) (auto simp: not_le)
  moreover obtain j where "k = Suc j" using assms(1) \<open>n \<le> 2 ^ k\<close> by (cases k) auto
  ultimately show ?thesis using \<open>n \<le> 2 ^ k\<close> below [of j] by (auto simp: mortal_period_def)
qed

subsection \<open>Calls that carry their own signature\<close>

datatype 'c runtime_call = CallEthereum eth_call | CallOther 'c

fun rt_is_self_contained :: "'c runtime_call \<Rightarrow> bool" where
  "rt_is_self_contained (CallEthereum call) = is_self_contained call"
| "rt_is_self_contained (CallOther _) = False"

fun rt_check_self_contained :: "'w eth_config \<Rightarrow> 'c runtime_call \<Rightarrow> (eth_invalid + H160) option" where
  "rt_check_self_contained X (CallEthereum call) = check_self_contained X call"
| "rt_check_self_contained X (CallOther _) = None"

fun rt_validate_self_contained ::
  "'w eth_config \<Rightarrow> 'c runtime_call \<Rightarrow> H160 \<Rightarrow> 'w \<Rightarrow> (eth_invalid + eth_valid) option" where
  "rt_validate_self_contained X (CallEthereum call) info w = validate_self_contained X call info w"
| "rt_validate_self_contained X (CallOther _) info w = None"

fun rt_pre_dispatch_self_contained ::
  "'w eth_config \<Rightarrow> 'c runtime_call \<Rightarrow> H160 \<Rightarrow> 'w \<Rightarrow> (eth_invalid + unit) option" where
  "rt_pre_dispatch_self_contained X (CallEthereum call) info w = pre_dispatch_self_contained X call info w"
| "rt_pre_dispatch_self_contained X (CallOther _) info w = None"

text \<open>The inner option is the panic of the call.\<close>

fun rt_apply_self_contained ::
  "'w eth_config \<Rightarrow> 'c runtime_call \<Rightarrow> H160 \<Rightarrow> 'w ethereum \<Rightarrow>
     ((unit + PostDispatchInfo) \<times> 'w ethereum) option option" where
  "rt_apply_self_contained X (CallEthereum (Transact transaction)) info s =
     Some (transact X (EthereumTransaction info) transaction s)"
| "rt_apply_self_contained X (CallOther _) info s = None"

text \<open>\<^verbatim>\<open>TransactionConverter\<close>, up to the encoding.\<close>

definition convert_transaction :: "Transaction \<Rightarrow> 'c runtime_call" where
  "convert_transaction transaction = CallEthereum (Transact transaction)"

text \<open>A transaction whose signature recovers to a sender and that passes the check before dispatch in a
  block is applied as that sender's, unless the EVM itself reports an error; it goes to the end of the
  pending transactions.\<close>

lemma apply_pending:
  assumes "apply_validated_transaction X source t s = Some (info, s')"
  shows "\<exists>status receipt. Pending s' = Pending s @ [(t, status, receipt)] \<and> ts_from status = source"
  using assms by (auto simp: apply_validated_transaction_def Let_def split: prod.splits sum.splits)

theorem dispatched_as_signer:
  assumes "rt_check_self_contained X call = Some (Inr source)"
    and "rt_pre_dispatch_self_contained X call source (eth_world s) = Some (Inr ())"
    and "X_find_pre_log X (eth_world s) = None"
    and "\<forall>t. call = CallEthereum (Transact t) \<longrightarrow> fst (execute X source t (eth_world s)) \<noteq> Inl RunnerError"
  shows "\<exists>t info s' status receipt. call = convert_transaction t \<and> recover_signer X t = Some source \<and>
    rt_apply_self_contained X call source s = Some (Some (Inr info, s')) \<and>
    Pending s' = Pending s @ [(t, status, receipt)] \<and> ts_from status = source"
proof -
  obtain t where call: "call = CallEthereum (Transact t)"
    using assms(1) by (cases call) (auto intro: eth_call.exhaust)
  have signer: "recover_signer X t = Some source" using assms(1) call by (auto split: option.splits)
  have v: "validate_transaction_in_block X source t (eth_world s) = Inr ()" using assms(2) call by simp
  obtain args where "execute_args X t (eth_world s) = Inr (args, td_action (transaction_data t))"
    using in_block_executes [OF v] by blast
  from execute_after_args [OF this] have "fst (execute X source t (eth_world s)) \<noteq> Inl GasPriceTooLow" .
  moreover have "fst (execute X source t (eth_world s)) \<noteq> Inl RunnerError" using assms(4) call by blast
  ultimately obtain r where "fst (execute X source t (eth_world s)) = Inr r"
    by (cases "fst (execute X source t (eth_world s))") (metis execute_error.exhaust, blast)
  then obtain info s' where a: "apply_validated_transaction X source t s = Some (info, s')"
    using apply_total [of X source t s r] by (cases "apply_validated_transaction X source t s") auto
  from apply_pending [OF a] a assms(3) call signer show ?thesis
    by (auto simp: convert_transaction_def transact_def)
qed

subsection \<open>Runtime interfaces\<close>

text \<open>\<^verbatim>\<open>call\<close> and \<^verbatim>\<open>create\<close> run the EVM on the current state, with the standard configuration or the one that
  estimates gas; a limit of gas is cut to 64 bits. The runner is the library's.\<close>

definition evm_config_for :: "bool \<Rightarrow> evm_config" where
  "evm_config_for estimating =
     (let config = (if estimating then Some (CloverEvmConfig\<lparr>evm_estimate := True\<rparr>) else None)
      in case config of None \<Rightarrow> CloverEvmConfig | Some c \<Rightarrow> c)"

definition api_runner_args ::
  "byte list \<Rightarrow> U256 \<Rightarrow> U256 \<Rightarrow> U256 option \<Rightarrow> U256 option \<Rightarrow> U256 option \<Rightarrow> access_list option \<Rightarrow> runner_args" where
  "api_runner_args input eth_value gas_limit max_fee max_priority_fee nonce access =
     \<lparr>ra_input = input, ra_value = eth_value, ra_gas_limit = to_u64 gas_limit, ra_max_fee_per_gas = max_fee,
      ra_max_priority_fee_per_gas = max_priority_fee, ra_nonce = nonce,
      ra_access_list = (case access of None \<Rightarrow> [] | Some l \<Rightarrow> l)\<rparr>"

definition api_call ::
  "(H160 \<Rightarrow> H160 \<Rightarrow> runner_args \<Rightarrow> evm_config \<Rightarrow> 'w \<Rightarrow> ('e + CallInfo) \<times> 'w) \<Rightarrow> ('e \<Rightarrow> 'd) \<Rightarrow>
     H160 \<Rightarrow> H160 \<Rightarrow> byte list \<Rightarrow> U256 \<Rightarrow> U256 \<Rightarrow> U256 option \<Rightarrow> U256 option \<Rightarrow> U256 option \<Rightarrow> bool \<Rightarrow>
     access_list option \<Rightarrow> 'w \<Rightarrow> ('d + CallInfo) \<times> 'w" where
  "api_call run into source to input eth_value gas_limit max_fee max_priority_fee nonce estimating access w =
     (case run source to (api_runner_args input eth_value gas_limit max_fee max_priority_fee nonce access)
             (evm_config_for estimating) w of
        (Inl err, w') \<Rightarrow> (Inl (into err), w')
      | (Inr i, w') \<Rightarrow> (Inr i, w'))"

definition api_create ::
  "(H160 \<Rightarrow> runner_args \<Rightarrow> evm_config \<Rightarrow> 'w \<Rightarrow> ('e + CreateInfo) \<times> 'w) \<Rightarrow> ('e \<Rightarrow> 'd) \<Rightarrow>
     H160 \<Rightarrow> byte list \<Rightarrow> U256 \<Rightarrow> U256 \<Rightarrow> U256 option \<Rightarrow> U256 option \<Rightarrow> U256 option \<Rightarrow> bool \<Rightarrow>
     access_list option \<Rightarrow> 'w \<Rightarrow> ('d + CreateInfo) \<times> 'w" where
  "api_create run into source input eth_value gas_limit max_fee max_priority_fee nonce estimating access w =
     (case run source (api_runner_args input eth_value gas_limit max_fee max_priority_fee nonce access)
             (evm_config_for estimating) w of
        (Inl err, w') \<Rightarrow> (Inl (into err), w')
      | (Inr i, w') \<Rightarrow> (Inr i, w'))"

text \<open>Estimating changes one rule only.\<close>

lemma estimating_config:
  "evm_estimate (evm_config_for b) = b" "(evm_config_for b)\<lparr>evm_estimate := False\<rparr> = CloverEvmConfig"
  by (simp_all add: evm_config_for_def CloverEvmConfig_def)

definition api_current_all ::
  "'w ethereum \<Rightarrow> eth_block option \<times> Receipt list option \<times> TransactionStatus list option" where
  "api_current_all s = (CurrentBlock s, CurrentReceipts s, CurrentTransactionStatuses s)"

text \<open>The index of a storage cell as 32 bytes, most significant first.\<close>

definition u256_to_big_endian :: "U256 \<Rightarrow> byte list" where
  "u256_to_big_endian x = map (\<lambda>i. of_nat (x div 256 ^ (31 - i) mod 256)) [0..<32]"

definition api_storage_at :: "('w \<Rightarrow> H160 \<Rightarrow> H256 \<Rightarrow> H256) \<Rightarrow> 'w \<Rightarrow> H160 \<Rightarrow> U256 \<Rightarrow> H256" where
  "api_storage_at account_storages w address index =
     account_storages w address (take 32 (u256_to_big_endian index))"

definition api_elasticity :: "nat option" where
  "api_elasticity = None"

text \<open>An extrinsic is its call and whatever else it carries.\<close>

record ('c, 'x) extrinsic =
  xt_function :: "'c runtime_call"
  xt_rest :: 'x

fun eth_transaction_of :: "'c runtime_call \<Rightarrow> Transaction option" where
  "eth_transaction_of (CallEthereum (Transact transaction)) = Some transaction"
| "eth_transaction_of (CallOther _) = None"

definition extrinsic_filter :: "('c, 'x) extrinsic list \<Rightarrow> Transaction list" where
  "extrinsic_filter xts = List.map_filter (\<lambda>xt. eth_transaction_of (xt_function xt)) xts"

text \<open>\<open>apply\<close> applies an extrinsic, its result is not used; \<open>trace\<close> runs something under a tracer.\<close>

fun trace_transaction ::
  "(('c, 'x) extrinsic \<Rightarrow> 'w \<Rightarrow> 'w) \<Rightarrow> (('w \<Rightarrow> 'w) \<Rightarrow> 'w \<Rightarrow> 'w) \<Rightarrow>
     ('c, 'x) extrinsic list \<Rightarrow> Transaction \<Rightarrow> 'w \<Rightarrow> (unit + unit) \<times> 'w" where
  "trace_transaction apply trace [] traced w = (Inl (), w)"
| "trace_transaction apply trace (ext # exts) traced w =
     (case xt_function ext of
        CallEthereum (Transact transaction) \<Rightarrow>
          if transaction = traced then (Inr (), trace (apply ext) w)
          else trace_transaction apply trace exts traced (apply ext w)
      | CallOther _ \<Rightarrow> trace_transaction apply trace exts traced (apply ext w))"

fun trace_block ::
  "(('c, 'x) extrinsic \<Rightarrow> 'w \<Rightarrow> 'w) \<Rightarrow> (('w \<Rightarrow> 'w) \<Rightarrow> 'w \<Rightarrow> 'w) \<Rightarrow> ('w \<Rightarrow> 'w) \<Rightarrow> (Transaction \<Rightarrow> H256) \<Rightarrow>
     ('c, 'x) extrinsic list \<Rightarrow> H256 list \<Rightarrow> 'w \<Rightarrow> (unit + unit) \<times> 'w" where
  "trace_block apply trace emit_new keccak_rlp [] known w = (Inr (), w)"
| "trace_block apply trace emit_new keccak_rlp (ext # exts) known w =
     trace_block apply trace emit_new keccak_rlp exts known
       (case xt_function ext of
          CallEthereum (Transact transaction) \<Rightarrow>
            if keccak_rlp transaction \<in> set known then trace (apply ext) (emit_new w) else apply ext w
        | CallOther _ \<Rightarrow> apply ext w)"

lemma extrinsic_filter_simps [simp]:
  "extrinsic_filter [] = []"
  "extrinsic_filter (xt # xts) =
    (case eth_transaction_of (xt_function xt) of None \<Rightarrow> extrinsic_filter xts | Some t \<Rightarrow> t # extrinsic_filter xts)"
  by (simp_all add: extrinsic_filter_def List.map_filter_def split: option.split)

lemma extrinsic_filter_append: "extrinsic_filter (xs @ ys) = extrinsic_filter xs @ extrinsic_filter ys"
  by (induction xs) (auto split: option.split)

text \<open>Tracing a transaction runs the block up to its first occurrence, and only that extrinsic under the
  tracer; if it does not occur, all is applied and the answer is an error.\<close>

theorem trace_transaction_prefix:
  "if traced \<in> set (extrinsic_filter exts)
   then \<exists>pre ext post. exts = pre @ ext # post \<and> traced \<notin> set (extrinsic_filter pre) \<and>
     eth_transaction_of (xt_function ext) = Some traced \<and>
     trace_transaction apply trace exts traced w = (Inr (), trace (apply ext) (fold apply pre w))
   else trace_transaction apply trace exts traced w = (Inl (), fold apply exts w)"
proof (induction exts arbitrary: w)
  case (Cons ext exts)
  show ?case
  proof (cases "eth_transaction_of (xt_function ext) = Some traced")
    case True
    then have "xt_function ext = CallEthereum (Transact traced)"
      by (cases "xt_function ext" rule: eth_transaction_of.cases) auto
    with True show ?thesis by (force intro!: exI [of _ "[]"])
  next
    case False
    then have step: "trace_transaction apply trace (ext # exts) traced w =
        trace_transaction apply trace exts traced (apply ext w)"
      by (cases "xt_function ext" rule: eth_transaction_of.cases) auto
    have mem: "traced \<in> set (extrinsic_filter (ext # exts)) \<longleftrightarrow> traced \<in> set (extrinsic_filter exts)"
      using False by (auto split: option.split)
    show ?thesis
    proof (cases "traced \<in> set (extrinsic_filter exts)")
      case True
      with Cons [of "apply ext w"] obtain pre e post where
        "exts = pre @ e # post" "traced \<notin> set (extrinsic_filter pre)"
        "eth_transaction_of (xt_function e) = Some traced"
        "trace_transaction apply trace exts traced (apply ext w) =
          (Inr (), trace (apply e) (fold apply pre (apply ext w)))" by auto
      with True mem step False show ?thesis
        by (auto intro!: exI [of _ "ext # pre"] split: option.split)
    next
      case False
      with Cons [of "apply ext w"] mem step show ?thesis by simp
    qed
  qed
qed simp

text \<open>Under a tracer that only observes, tracing a block is executing it.\<close>

lemma trace_block_executes:
  assumes "\<And>f w. trace f w = f w" and "\<And>w. emit_new w = w"
  shows "trace_block apply trace emit_new keccak_rlp exts known w = (Inr (), fold apply exts w)"
  by (induction exts arbitrary: w) (auto simp: assms split: runtime_call.split eth_call.split)


subsection \<open>Fees go to the stakers\<close>

text \<open>\<^verbatim>\<open>resolve_creating\<close> credits an account that exists with the whole amount, and no other account.\<close>

definition credits_existing :: "'w currency \<Rightarrow> bool" where
  "credits_existing C \<longleftrightarrow>
     (\<forall>a x w. cur_minimum_balance C \<le> cur_free_balance C w a \<and> cur_free_balance C w a + x \<le> u128_max \<longrightarrow>
        cur_free_balance C (cur_resolve_creating C a x w) =
          (cur_free_balance C w)(a := cur_free_balance C w a + x))"

lemma deal_with_fees_credits:
  assumes "credits_existing C" and "imbalance_laws C" and "length xs \<le> 2"
    and "cur_minimum_balance C \<le> fund_pot C account_of w" and "fund_pot C account_of w + sum_list xs \<le> u128_max"
  shows "cur_free_balance C (deal_with_fees C account_of xs w) =
    (cur_free_balance C w)(fund_account_id account_of := fund_pot C account_of w + sum_list xs)"
proof -
  have one: "cur_free_balance C (fund_on_unbalanced C account_of x w) =
      (cur_free_balance C w)(fund_account_id account_of := fund_pot C account_of w + x)" if "x = sum_list xs" for x
    using assms(1,4,5) that by (auto simp: fund_on_unbalanced_def fund_pot_def credits_existing_def)
  have "cur_subsume C f t = f + t" if "xs = [f, t]" for f t
    using assms(2,5) that by (simp add: imbalance_laws_def)
  then show ?thesis
    using one [of "sum_list xs"] assms(3)
    by (cases xs rule: deal_with_fees.cases [of "(C, account_of, xs, w)" for xs]) (auto simp: fund_pot_def)
qed

text \<open>What happens to the money of the fund and the wallet during an era, in any order: fees with or without tips
  are settled, while the fund exists and its balance fits its type, and others add to the two or take from
  them (payouts, donations).\<close>

datatype era_entry = Fees "Balance list" | Moved int

fun entry_sum :: "era_entry \<Rightarrow> int" where
  "entry_sum (Fees xs) = int (sum_list xs)"
| "entry_sum (Moved d) = d"

definition era_money :: "'w currency \<Rightarrow> (string \<Rightarrow> AccountId) \<Rightarrow> 'w wallet \<Rightarrow> int" where
  "era_money C account_of w = int (fund_pot C account_of (wallet_world w)) + int (wallet_pot C account_of w)"

inductive era_run ::
  "'w currency \<Rightarrow> (string \<Rightarrow> AccountId) \<Rightarrow> 'w wallet \<Rightarrow> era_entry list \<Rightarrow> 'w wallet \<Rightarrow> bool"
  for C account_of w where
  start: "era_run C account_of w [] w"
| settle: "era_run C account_of w log w1 \<Longrightarrow> length xs \<le> 2 \<Longrightarrow>
    cur_minimum_balance C \<le> fund_pot C account_of (wallet_world w1) \<Longrightarrow>
    fund_pot C account_of (wallet_world w1) + sum_list xs \<le> u128_max \<Longrightarrow>
    era_run C account_of w (log @ [Fees xs]) (w1\<lparr>wallet_world := deal_with_fees C account_of xs (wallet_world w1)\<rparr>)"
| other: "era_run C account_of w log w1 \<Longrightarrow> era_money C account_of w2 = era_money C account_of w1 + d \<Longrightarrow>
    era_run C account_of w (log @ [Moved d]) w2"

lemma era_run_money:
  assumes "era_run C account_of w log w'" and "credits_existing C" and "imbalance_laws C"
    and "wallet_account_id account_of \<noteq> fund_account_id account_of"
  shows "era_money C account_of w' = era_money C account_of w + (\<Sum>e\<leftarrow>log. entry_sum e)"
  using assms(1)
proof (induction rule: era_run.induct)
  case (settle log w1 xs)
  from deal_with_fees_credits [OF assms(2,3) settle.hyps(2-4)] settle.IH assms(4) show ?case
    by (simp add: era_money_def fund_pot_def wallet_pot_def)
qed simp_all

text \<open>C26. Fees and tips are paid to the stakers. Whatever happens during an era, at its end the reward fixed for
  the era, the existential deposit and what is reserved for earlier eras add up to what the fund and the wallet
  held at its start, plus every fee and tip settled during the era, plus what others added or took; provided
  this covers the existential deposit and the reserve, and the wallet's transfer to the fund succeeds.\<close>

theorem fees_reach_stakers:
  assumes "credits_existing C" and "imbalance_laws C" and "era_run C account_of w log (world s)"
    and "wallet_ready C account_of (world s)" and "T_trigger_wallet T = trigger_wallet C account_of"
    and "\<And>w. cur_free_balance (T_currency T) w (T_fund_account T) = fund_pot C account_of (wallet_world w)"
    and "ae_start a = Some t" and "reserve = get_total_not_claimed_reward (ae_index a) s"
    and "int (EXISTENTIAL_DEPOSIT + reserve) \<le> era_money C account_of (world s)"
  shows "\<exists>reward. ErasValidatorReward (end_era T a s) (ae_index a) = Some reward \<and>
      int (reward + EXISTENTIAL_DEPOSIT + reserve) = era_money C account_of w + (\<Sum>e\<leftarrow>log. entry_sum e)"
proof -
  have "wallet_account_id account_of \<noteq> fund_account_id account_of"
    using assms(4) by (simp add: wallet_ready_def reward_fund_id_def fund_account_id_def FUND_PALLET_ID_def)
  note money = era_run_money [OF assms(3,1,2) this]
  have "ErasValidatorReward (end_era T a s) (ae_index a) =
      Some (fund_pot C account_of (wallet_world (world s)) + wallet_pot C account_of (world s)
        - EXISTENTIAL_DEPOSIT - reserve)"
    using rw.end_era_sweeps [OF assms(4-7)] assms(8) by blast
  moreover have "EXISTENTIAL_DEPOSIT + reserve \<le>
      fund_pot C account_of (wallet_world (world s)) + wallet_pot C account_of (world s)"
    using assms(9) by (simp add: era_money_def flip: of_nat_add)
  ultimately show ?thesis using money by (simp add: era_money_def)
qed

subsection \<open>Priorities\<close>

text \<open>The scaled tip is at least the weight of the gas: the subtraction of the priority does not wrap around.\<close>

definition tip_covers :: "'w eth_config \<Rightarrow> TransactionData \<Rightarrow> 'w \<Rightarrow> bool" where
  "tip_covers X d w \<longleftrightarrow>
     X_gas_to_weight X (to_u64 (td_gas_limit d)) \<le> tx_tip X d w div (if is_lower_priority X d w then 20000 else 10000)"

text \<open>C30. In this runtime a tip that does not cover the weight of the gas wins: of two transactions that pass
  the common checks, every one whose scaled tip is below the weight of its gas ranks above every one whose
  scaled tip is not, whatever their gas limits. A tip covers the gas from 312,500,000 wei per unit on (31,250 of
  weight, times the scale of 10,000), and from twice that on for calls with input outside the white list.\<close>

theorem uncovered_tip_outranks:
  assumes "X = glitch_evm (10 ^ 12) X0"
    and "validate_transaction_common X source d w = Inr (n, p)"
    and "validate_transaction_common X source' d' w = Inr (n', p')"
    and "\<not> tip_covers X d w" and "tip_covers X d' w"
  shows "p' < p \<and>
    tx_tip X d w < 312500000 * td_gas_limit d * (if is_lower_priority X d w then 2 else 1) \<and>
    312500000 * td_gas_limit d' * (if is_lower_priority X d' w then 2 else 1) \<le> tx_tip X d' w"
proof -
  let ?scaled = "\<lambda>d. tx_tip X d w div (if is_lower_priority X d w then 20000 else 10000)"
  have wt: "X_gas_to_weight X (to_u64 (td_gas_limit e)) = 31250 * td_gas_limit e"
    if "td_gas_limit e < X_BlockGasLimit X" for e
    using that assms(1) by (simp add: gas_to_weight_def WEIGHT_PER_GAS_def GAS_PER_SECOND_def to_u64_def sat_mul_def
        GlitchBlockGasLimit_def u32_max_def u64_max_def)
  have limits: "td_gas_limit d < X_BlockGasLimit X" "td_gas_limit d' < X_BlockGasLimit X"
    and ps: "p = tx_priority X d w" "p' = tx_priority X d' w"
    using assms(2,3) by (auto elim!: validate_commonE)
  then have small: "31250 * td_gas_limit d \<le> 2 ^ 48"
    using assms(1) by (simp add: GlitchBlockGasLimit_def u32_max_def)
  have below: "?scaled d < 31250 * td_gas_limit d" and above: "31250 * td_gas_limit d' \<le> ?scaled d'"
    using assms(4,5) wt [OF limits(1)] wt [OF limits(2)] by (simp_all add: tip_covers_def)
  have "tx_tip X d' w \<le> u64_max" by (auto simp: tx_tip_def to_u64_def split: option.splits)
  then have cap: "?scaled d' \<le> 2 ^ 61" by (auto simp: u64_max_def)
  have "p = Suc u64_max - (31250 * td_gas_limit d - ?scaled d)"
    using wrap_sub_small [OF below, of u64_max] small wt [OF limits(1)] by (simp add: ps tx_priority_def u64_max_def)
  moreover have "p' \<le> ?scaled d'"
    using wrap_sub_exact [OF above, of u64_max] cap wt [OF limits(2)] by (simp add: ps tx_priority_def u64_max_def)
  ultimately have "p' < p" using small cap by (simp add: u64_max_def)
  moreover have "tx_tip X d w < 312500000 * td_gas_limit d * (if is_lower_priority X d w then 2 else 1)"
    using below by (auto simp: div_less_iff_less_mult split: if_splits)
  moreover have "312500000 * td_gas_limit d' * (if is_lower_priority X d' w then 2 else 1) \<le> tx_tip X d' w"
    using above by (auto simp: less_eq_div_iff_mult_less_eq split: if_splits)
  ultimately show ?thesis by blast
qed

subsection \<open>Instances\<close>

lemma sample_credits: "credits_existing sample_currency"
  by (simp add: credits_existing_def sample_currency_def fun_eq_iff)

text \<open>A fee of 40 with a tip of 2, a payout of 100 from the fund, and a fee of 5.\<close>

definition sample_fee_world :: "bank wallet \<Rightarrow> Balance list \<Rightarrow> bank wallet" where
  "sample_fee_world w xs = w\<lparr>wallet_world := deal_with_fees sample_currency sample_account_of xs (wallet_world w)\<rparr>"

definition sample_after_payout :: "bank wallet" where
  "sample_after_payout = (sample_fee_world (world sample_wallet_staking) [40, 2])
     \<lparr>wallet_world := (\<lambda>a. if a = 98 then 700 else if a = 99 then 499999999999999942 else 0)\<rparr>"

theorem fees_reach_stakers_witness:
  "ErasValidatorReward (end_era sample_T_wallet \<lparr>ae_index = 3, ae_start = Some 0\<rparr>
     (set_world (sample_fee_world sample_after_payout [5]) sample_wallet_staking)) 3 = Some 400000000000000647"
proof -
  let ?a = "\<lparr>ae_index = 3, ae_start = Some 0\<rparr>"
  let ?w = "world sample_wallet_staking"
  let ?s = "set_world (sample_fee_world sample_after_payout [5]) sample_wallet_staking"
  let ?log = "[Fees [40, 2], Moved (- 100), Fees [5]]"
  have laws: "imbalance_laws sample_currency"
    by (auto simp: imbalance_laws_def sample_currency_def sat_add_exact)
  have m: "cur_minimum_balance sample_currency \<le> fund_pot sample_currency sample_account_of (wallet_world ?w)"
    "fund_pot sample_currency sample_account_of (wallet_world ?w) + sum_list [40, 2] \<le> u128_max"
    "cur_minimum_balance sample_currency \<le> fund_pot sample_currency sample_account_of (wallet_world sample_after_payout)"
    "fund_pot sample_currency sample_account_of (wallet_world sample_after_payout) + sum_list [5] \<le> u128_max"
    "era_money sample_currency sample_account_of sample_after_payout =
       era_money sample_currency sample_account_of (sample_fee_world ?w [40, 2]) + - 100"
    "int (EXISTENTIAL_DEPOSIT + get_total_not_claimed_reward (ae_index ?a) ?s) \<le>
       era_money sample_currency sample_account_of (sample_fee_world sample_after_payout [5])"
    "era_money sample_currency sample_account_of ?w = 500000000000000700"
    "get_total_not_claimed_reward (ae_index ?a) ?s = 0" "EXISTENTIAL_DEPOSIT = 100000000000000000"
    by code_simp+
  have "era_run sample_currency sample_account_of ?w [Fees [40, 2]] (sample_fee_world ?w [40, 2])"
    unfolding sample_fee_world_def
    using era_run.settle [OF era_run.start _ m(1,2)] by simp
  from era_run.other [OF this m(5)]
  have run: "era_run sample_currency sample_account_of ?w ?log (sample_fee_world sample_after_payout [5])"
    unfolding sample_fee_world_def using era_run.settle [OF _ _ m(3,4)] by fastforce
  have r: "wallet_ready sample_currency sample_account_of (world ?s)"
    using sample_wallet_ready
    by (simp add: wallet_ready_def sample_fee_world_def sample_after_payout_def wallet_pot_def sample_currency_def
        fund_on_unbalanced_def)
  have T: "T_trigger_wallet sample_T_wallet = trigger_wallet sample_currency sample_account_of"
    "cur_free_balance (T_currency sample_T_wallet) w (T_fund_account sample_T_wallet) =
       fund_pot sample_currency sample_account_of (wallet_world w)" for w
    by (simp_all add: sample_T_wallet_def sample_config_def sample_wallet_currency_def fund_pot_def sample_currency_def
        fund_account_id_def FUND_PALLET_ID_def sample_account_of_def)
  from fees_reach_stakers [OF sample_credits laws _ r T, of ?w ?log ?a 0, OF _ _ refl] run m(6-9)
  obtain reward where "ErasValidatorReward (end_era sample_T_wallet ?a ?s) (ae_index ?a) = Some reward"
    "int reward + 100000000000000000 = 500000000000000700 - 53" by auto
  then show ?thesis by simp
qed

text \<open>Two transfers of 21,000 gas by accounts with enough balance, with tips just below and just above 6,562.5 gwei.\<close>

theorem uncovered_tip_outranks_witness:
  "\<exists>p p'. validate_transaction_common (glitch_evm (10 ^ 12) sample_X) [1]
       (transaction_data (sample_eth_tx 6500000000000)) 0 = Inr (3, p) \<and>
     validate_transaction_common (glitch_evm (10 ^ 12) sample_X) [2]
       (transaction_data (sample_eth_tx 6600000000000)) 0 = Inr (3, p') \<and> p' < p"
proof -
  let ?X = "glitch_evm (10 ^ 12) sample_X"
  let ?d = "transaction_data (sample_eth_tx 6500000000000)"
  let ?d' = "transaction_data (sample_eth_tx 6600000000000)"
  let ?v = "validate_transaction_common ?X [1] ?d 0"
  let ?v' = "validate_transaction_common ?X [2] ?d' 0"
  have "fst (projr ?v) = 3 \<and> \<not> isl ?v" "fst (projr ?v') = 3 \<and> \<not> isl ?v'" by code_simp+
  then have v: "?v = Inr (3, snd (projr ?v))" "?v' = Inr (3, snd (projr ?v'))" by (metis prod.collapse sum.collapse(2))+
  have t: "\<not> tip_covers ?X ?d 0" "tip_covers ?X ?d' 0" by code_simp+
  from uncovered_tip_outranks [OF refl v t] v show ?thesis by blast
qed

end
