(* ===== verification/Runtime_Weights.thy ===== *)
theory Runtime_Weights
  imports Staking_Weights
begin

section \<open>Weights of the other pallets of the runtime\<close>

text \<open>
  The tables of \<^verbatim>\<open>runtime/src/weights\<close> that the runtime uses beside the one of staking, in the form of
  \<^verbatim>\<open>Staking_Weights\<close>, the weight the runtime gives to a solution of an election, and the limits of a
  block. The miner cuts a solution down until its weight fits; it relies on the weight growing with the size
  of the solution. The election that is run on chain when no solution was submitted has to fit in a block.
\<close>

text \<open>The default of \<^verbatim>\<open>modules/evm-accounts\<close>, and the table of the runtime.\<close>

datatype EvmAccountsWeightInfo =
    WE_claim_account

primrec evm_accounts_default_weight :: "db_weight \<Rightarrow> EvmAccountsWeightInfo \<Rightarrow> Weight" where
  "evm_accounts_default_weight db WE_claim_account =
     weigh [1253760000, db_reads db 3, db_writes db 4]"

primrec evm_accounts_weight :: "db_weight \<Rightarrow> EvmAccountsWeightInfo \<Rightarrow> Weight" where
  "evm_accounts_weight db WE_claim_account =
     weigh [1253760000, db_reads db 3, db_writes db 4]"

text \<open>Solving an election on chain.\<close>

datatype ElectionWeightInfo =
    WP_phragmen u32 u32 u32
  | WP_phragmms u32 u32 u32

primrec election_weight :: "db_weight \<Rightarrow> ElectionWeightInfo \<Rightarrow> Weight" where
  "election_weight db (WP_phragmen v t d) =
     weigh [0, times_u64 23680000 v, times_u64 3748608000 d]"
| "election_weight db (WP_phragmms v t d) =
     weigh [0, times_u64 16371000 v, times_u64 2715371000 d]"

text \<open>The phases of an election.\<close>

datatype MultiPhaseWeightInfo =
    WM_on_initialize_nothing
  | WM_on_initialize_open_signed
  | WM_on_initialize_open_unsigned
  | WM_finalize_signed_phase_accept_solution
  | WM_finalize_signed_phase_reject_solution
  | WM_create_snapshot_internal u32 u32
  | WM_elect_queued u32 u32
  | WM_submit
  | WM_submit_unsigned u32 u32 u32 u32
  | WM_feasibility_check u32 u32 u32 u32

primrec multi_phase_weight :: "db_weight \<Rightarrow> MultiPhaseWeightInfo \<Rightarrow> Weight" where
  "multi_phase_weight db WM_on_initialize_nothing =
     weigh [13177000, db_reads db 8]"
| "multi_phase_weight db WM_on_initialize_open_signed =
     weigh [12753000, db_reads db 1, db_writes db 1]"
| "multi_phase_weight db WM_on_initialize_open_unsigned =
     weigh [12500000, db_reads db 1, db_writes db 1]"
| "multi_phase_weight db WM_finalize_signed_phase_accept_solution =
     weigh [26240000, db_reads db 1, db_writes db 2]"
| "multi_phase_weight db WM_finalize_signed_phase_reject_solution =
     weigh [20155000, db_reads db 1, db_writes db 1]"
| "multi_phase_weight db (WM_create_snapshot_internal v t) =
     weigh [0, times_u64 389000 v, times_u64 88000 t, db_writes db 3]"
| "multi_phase_weight db (WM_elect_queued a d) =
     weigh [106736000, times_u64 781000 a, times_u64 128000 d, db_reads db 7, db_writes db 9]"
| "multi_phase_weight db WM_submit =
     weigh [47645000, db_reads db 5, db_writes db 3]"
| "multi_phase_weight db (WM_submit_unsigned v t a d) =
     weigh [0, times_u64 1185000 v, times_u64 87000 t, times_u64 8481000 a,
           times_u64 1669000 d, db_reads db 7, db_writes db 1]"
| "multi_phase_weight db (WM_feasibility_check v t a d) =
     weigh [0, times_u64 1180000 v, times_u64 89000 t, times_u64 6407000 a,
           times_u64 1194000 d, db_reads db 4]"

text \<open>The list of voters.\<close>

datatype BagsListWeightInfo =
    WB_rebag_non_terminal
  | WB_rebag_terminal
  | WB_put_in_front_of

primrec bags_list_weight :: "db_weight \<Rightarrow> BagsListWeightInfo \<Rightarrow> Weight" where
  "bags_list_weight db WB_rebag_non_terminal =
     weigh [49949000, db_reads db 7, db_writes db 5]"
| "bags_list_weight db WB_rebag_terminal =
     weigh [48349000, db_reads db 7, db_writes db 5]"
| "bags_list_weight db WB_put_in_front_of =
     weigh [51359000, db_reads db 10, db_writes db 6]"

text \<open>Heartbeats.\<close>

datatype ImOnlineWeightInfo =
    WI_validate_unsigned_and_then_heartbeat u32 u32

primrec im_online_weight :: "db_weight \<Rightarrow> ImOnlineWeightInfo \<Rightarrow> Weight" where
  "im_online_weight db (WI_validate_unsigned_and_then_heartbeat k e) =
     weigh [78464000, times_u64 69000 k, times_u64 330000 e, db_reads db 4, db_writes db 1]"

subsection \<open>Elections\<close>

text \<open>\<^verbatim>\<open>MinerConfig::solution_weight\<close>.\<close>

definition solution_weight :: "db_weight \<Rightarrow> u32 \<Rightarrow> u32 \<Rightarrow> u32 \<Rightarrow> u32 \<Rightarrow> Weight" where
  "solution_weight db v t a d = multi_phase_weight db (WM_submit_unsigned v t a d)"

definition MAXIMUM_BLOCK_WEIGHT :: "Weight \<Rightarrow> Weight" where
  "MAXIMUM_BLOCK_WEIGHT weight_per_second = 2 * weight_per_second"

definition NORMAL_DISPATCH_RATIO :: Percent where
  "NORMAL_DISPATCH_RATIO = 75"

definition MaxElectingVoters :: u32 where
  "MaxElectingVoters = 22500"

lemma solution_weight_mono:
  assumes "v \<le> v'" and "t \<le> t'" and "a \<le> a'" and "d \<le> d'"
  shows "solution_weight db v t a d \<le> solution_weight db v' t' a' d'"
  unfolding solution_weight_def multi_phase_weight.simps
  using assms by (intro weigh_mono) (simp add: times_u64_mono)

text \<open>The fallback with the greatest number of voters, and sixteen votes each, takes less than the part of a
  block that normal transactions can use.\<close>

lemma fallback_election_fits:
  assumes "v \<le> MaxElectingVoters" and "d \<le> 16" and "p = 10 ^ 12"
  shows "election_weight db (WP_phragmen v t d) * 100 \<le> NORMAL_DISPATCH_RATIO * MAXIMUM_BLOCK_WEIGHT p"
  using assms by (simp add: MaxElectingVoters_def NORMAL_DISPATCH_RATIO_def MAXIMUM_BLOCK_WEIGHT_def sat_mul_def min_def)

lemma claim_account_weights: "evm_accounts_weight db c = evm_accounts_default_weight db c"
  by (cases c) simp

end
