(* ===== verification/Reward_Pool.thy ===== *)
theory Reward_Pool
  imports Bank_Sample
begin

section \<open>The reward pool (\<^verbatim>\<open>modules/reward-pool\<close>)\<close>

text \<open>
  A pool pays a native reward to its shareholders. A newcomer "borrows" the rewards his shares would
  have had, so that the price of a share does not change when he joins; claiming raises what he borrowed.

  Fixed-point numbers (\<^verbatim>\<open>FixedU128\<close>), the currency and the reward handler are the record
  \<open>reward_pool_config\<close>. Every operation is meant to run inside a storage transaction: an error is
  returned with the state it leaves behind, and the runs below keep only what succeeded.

  The locale \<open>reward_handler\<close> is what the pool promises on the word of its handler; the locale
  \<open>reward_pool_ops\<close> is the trait \<^verbatim>\<open>RewardPoolOps\<close>, on which the incentives rest. The properties: the
  shares of a pool are the sum of its accounts' shares and the borrowed rewards are covered; the pool's
  account, once it exists, can pay what the pool calls usable; a second claim in the same block pays nothing; and
  rounding can keep an account from leaving right after it joined.
\<close>

type_synonym Share = nat

record PoolInfo =
  total_shares :: Share
  total_rewards :: Balance
  total_rewards_useable :: Balance
  last_update_block :: BlockNumber

record PoolAccountInfo =
  shares :: Share
  borrowed_amount :: Balance

definition PoolInfo_default :: PoolInfo where
  "PoolInfo_default =
     \<lparr>total_shares = 0, total_rewards = 0, total_rewards_useable = 0, last_update_block = 0\<rparr>"

definition PoolAccountInfo_default :: PoolAccountInfo where
  "PoolAccountInfo_default = \<lparr>shares = 0, borrowed_amount = 0\<rparr>"

datatype pool_error =
    RewardCaculationError | InsufficientShares | InvalidAmount | InvalidRewards | CurrencyError

record ('p, 'w) reward_pool =
  Pools :: "'p \<rightharpoonup> PoolInfo"
  PoolAccountData :: "'p \<Rightarrow> AccountId \<rightharpoonup> PoolAccountInfo"
  pool_world :: 'w

text \<open>\<open>R_from_rational\<close> and \<open>R_mul_int\<close> are \<^verbatim>\<open>checked_from_rational\<close> and \<^verbatim>\<open>checked_mul_int\<close> of
  \<^verbatim>\<open>FixedU128\<close>, on the inner integer.\<close>

record ('p, 'w) reward_pool_config =
  R_from_rational :: "nat \<Rightarrow> nat \<Rightarrow> nat option"
  R_mul_int :: "nat \<Rightarrow> nat \<Rightarrow> nat option"
  R_caculate_reward :: "'p \<Rightarrow> Share \<Rightarrow> BlockNumber \<Rightarrow> BlockNumber \<Rightarrow> 'w \<Rightarrow> Balance"
  R_sub_account :: "'p \<Rightarrow> AccountId"
  R_update_balance :: "AccountId \<Rightarrow> int \<Rightarrow> 'w \<Rightarrow> bool \<times> 'w"
  R_transfer :: "AccountId \<Rightarrow> AccountId \<Rightarrow> Balance \<Rightarrow> 'w \<Rightarrow> bool \<times> 'w"
  R_ExistentialReward :: Balance
  R_block_number :: "'w \<Rightarrow> BlockNumber"
  R_iter_pools :: "('p \<rightharpoonup> PoolInfo) \<Rightarrow> ('p \<times> PoolInfo) list"

definition i128_max :: nat where
  "i128_max = 2 ^ 127 - 1"

definition get_pool :: "('p, 'w) reward_pool \<Rightarrow> 'p \<Rightarrow> PoolInfo" where
  "get_pool s p = (case Pools s p of None \<Rightarrow> PoolInfo_default | Some i \<Rightarrow> i)"

definition pool_account_data :: "('p, 'w) reward_pool \<Rightarrow> 'p \<Rightarrow> AccountId \<Rightarrow> PoolAccountInfo" where
  "pool_account_data s p who =
     (case PoolAccountData s p who of None \<Rightarrow> PoolAccountInfo_default | Some i \<Rightarrow> i)"

definition put_pool :: "'p \<Rightarrow> PoolInfo \<Rightarrow> ('p, 'w) reward_pool \<Rightarrow> ('p, 'w) reward_pool" where
  "put_pool p i s = s\<lparr>Pools := (Pools s)(p \<mapsto> i)\<rparr>"

definition put_account :: "'p \<Rightarrow> AccountId \<Rightarrow> PoolAccountInfo \<Rightarrow> ('p, 'w) reward_pool \<Rightarrow> ('p, 'w) reward_pool" where
  "put_account p who i s = s\<lparr>PoolAccountData := (PoolAccountData s)(p := (PoolAccountData s p)(who \<mapsto> i))\<rparr>"

subsection \<open>Rewards\<close>

definition calc_reward_by_shares ::
  "('p, 'w) reward_pool_config \<Rightarrow> PoolInfo \<Rightarrow> Share \<Rightarrow> pool_error + Balance" where
  "calc_reward_by_shares R pool_info amount =
     (if total_shares pool_info = 0 \<or> amount = 0 then Inr 0
      else if amount > total_shares pool_info then Inl InsufficientShares
      else
        (case Option.bind (R_from_rational R amount (total_shares pool_info))
                (\<lambda>n. R_mul_int R n (total_rewards pool_info)) of
           None \<Rightarrow> Inl RewardCaculationError
         | Some reward_with_virtual \<Rightarrow>
             if reward_with_virtual > total_rewards pool_info then Inl RewardCaculationError
             else Inr reward_with_virtual))"

text \<open>The pool, the account and the reward after \<open>amount\<close> shares have left.\<close>

definition get_rewards_by_account_shares ::
  "('p, 'w) reward_pool_config \<Rightarrow> PoolInfo \<Rightarrow> PoolAccountInfo \<Rightarrow> Share \<Rightarrow>
     pool_error + (PoolInfo \<times> PoolAccountInfo \<times> Balance)" where
  "get_rewards_by_account_shares R pool_info account_info amount =
     (if amount \<le> 0 \<or> total_shares pool_info < amount \<or> shares account_info < amount
      then Inl InsufficientShares
      else
        (case calc_reward_by_shares R pool_info amount of
           Inl e \<Rightarrow> Inl e
         | Inr reward_with_virtual \<Rightarrow>
             (case Option.bind (R_from_rational R amount (shares account_info))
                     (\<lambda>n. R_mul_int R n (borrowed_amount account_info)) of
                None \<Rightarrow> Inl RewardCaculationError
              | Some account_balance_to_remove \<Rightarrow>
                  (case (checked_sub (borrowed_amount account_info) account_balance_to_remove,
                         checked_sub reward_with_virtual account_balance_to_remove) of
                     (Some new_balance, Some reward) \<Rightarrow>
                       if reward > total_rewards_useable pool_info \<or> new_balance > borrowed_amount account_info
                       then Inl RewardCaculationError
                       else
                         (let paid =
                            (if reward \<le> R_ExistentialReward R
                             then Some (0, total_rewards pool_info, total_rewards_useable pool_info)
                             else
                               (case (checked_sub (total_rewards pool_info) reward_with_virtual,
                                      checked_sub (total_rewards_useable pool_info) reward) of
                                  (Some rewards, Some rewards_useable) \<Rightarrow> Some (reward, rewards, rewards_useable)
                                | _ \<Rightarrow> None))
                          in case paid of
                               None \<Rightarrow> Inl RewardCaculationError
                             | Some (reward', total_rewards', useable') \<Rightarrow>
                                 Inr (pool_info\<lparr>total_shares := total_shares pool_info - amount,
                                                total_rewards := total_rewards',
                                                total_rewards_useable := useable'\<rparr>,
                                      account_info\<lparr>shares := shares account_info - amount,
                                                   borrowed_amount := new_balance\<rparr>,
                                      reward'))
                   | _ \<Rightarrow> Inl RewardCaculationError))))"

definition calc_pool_reward_at_block ::
  "('p, 'w) reward_pool_config \<Rightarrow> 'p \<Rightarrow> PoolInfo \<Rightarrow> BlockNumber \<Rightarrow> 'w \<Rightarrow> pool_error + (PoolInfo \<times> Balance)" where
  "calc_pool_reward_at_block R pool pool_info cur_block w =
     (if cur_block \<le> last_update_block pool_info then Inr (pool_info, 0)
      else
        (let reward = R_caculate_reward R pool (total_shares pool_info) (last_update_block pool_info) cur_block w;
             new_info = pool_info\<lparr>last_update_block := cur_block\<rparr>
         in if reward = 0 then Inr (new_info, 0)
            else (case (checked_add u128_max (total_rewards new_info) reward,
                        checked_add u128_max (total_rewards_useable new_info) reward) of
                    (Some tr, Some tu) \<Rightarrow>
                      Inr (new_info\<lparr>total_rewards := tr, total_rewards_useable := tu\<rparr>, reward)
                  | _ \<Rightarrow> Inl RewardCaculationError)))"

definition calc_pool_reward ::
  "('p, 'w) reward_pool_config \<Rightarrow> 'p \<Rightarrow> ('p, 'w) reward_pool \<Rightarrow> pool_error + (PoolInfo \<times> Balance)" where
  "calc_pool_reward R pool s =
     calc_pool_reward_at_block R pool (get_pool s pool) (R_block_number R (pool_world s)) (pool_world s)"

definition update_pool_reward ::
  "('p, 'w) reward_pool_config \<Rightarrow> 'p \<Rightarrow> ('p, 'w) reward_pool \<Rightarrow> (pool_error + PoolInfo) \<times> ('p, 'w) reward_pool" where
  "update_pool_reward R pool s =
     (case calc_pool_reward R pool s of
        Inl e \<Rightarrow> (Inl e, s)
      | Inr (pool_info, balance_change) \<Rightarrow>
          (case (if balance_change \<noteq> 0
                 then R_update_balance R (R_sub_account R pool) (int (min i128_max balance_change)) (pool_world s)
                 else (True, pool_world s)) of
             (False, w) \<Rightarrow> (Inl CurrencyError, s\<lparr>pool_world := w\<rparr>)
           | (True, w) \<Rightarrow> (Inr pool_info, put_pool pool pool_info (s\<lparr>pool_world := w\<rparr>))))"

subsection \<open>The operations of \<^verbatim>\<open>RewardPoolOps\<close>\<close>

definition share_price :: "('p, 'w) reward_pool_config \<Rightarrow> PoolInfo \<Rightarrow> nat option" where
  "share_price R pool_info =
     (if total_shares pool_info = 0 then Some 0
      else R_from_rational R (total_rewards pool_info) (total_shares pool_info))"

definition add_share ::
  "('p, 'w) reward_pool_config \<Rightarrow> AccountId \<Rightarrow> 'p \<Rightarrow> Share \<Rightarrow> ('p, 'w) reward_pool \<Rightarrow>
     (pool_error + Share) \<times> ('p, 'w) reward_pool" where
  "add_share R who pool amount s =
     (if amount = 0 then (Inl InvalidAmount, s)
      else
        (case update_pool_reward R pool s of
           (Inl e, s1) \<Rightarrow> (Inl e, s1)
         | (Inr pool_info, s1) \<Rightarrow>
             (case Option.bind (share_price R pool_info) (\<lambda>price. R_mul_int R price amount) of
                None \<Rightarrow> (Inl RewardCaculationError, s1)
              | Some virtual_reward_amount \<Rightarrow>
                  (case (checked_add u128_max (total_shares pool_info) amount,
                         checked_add u128_max (total_rewards pool_info) virtual_reward_amount) of
                     (Some ts, Some tr) \<Rightarrow>
                       (let s2 = put_pool pool (pool_info\<lparr>total_shares := ts, total_rewards := tr\<rparr>) s1;
                            data = pool_account_data s2 pool who
                        in case (checked_add u128_max (shares data) amount,
                                 checked_add u128_max (borrowed_amount data) virtual_reward_amount) of
                             (Some sh, Some b) \<Rightarrow>
                               (Inr sh, put_account pool who \<lparr>shares = sh, borrowed_amount = b\<rparr> s2)
                           | _ \<Rightarrow> (Inl RewardCaculationError, s2))
                   | _ \<Rightarrow> (Inl RewardCaculationError, s1)))))"

definition remove_share ::
  "('p, 'w) reward_pool_config \<Rightarrow> AccountId \<Rightarrow> 'p \<Rightarrow> Share \<Rightarrow> ('p, 'w) reward_pool \<Rightarrow>
     (pool_error + Share) \<times> ('p, 'w) reward_pool" where
  "remove_share R who pool amount s =
     (case update_pool_reward R pool s of
        (Inl e, s1) \<Rightarrow> (Inl e, s1)
      | (Inr pool_info, s1) \<Rightarrow>
          (let account_info = pool_account_data s1 pool who
           in if shares account_info < amount then (Inl InsufficientShares, s1)
              else
                (case get_rewards_by_account_shares R pool_info account_info amount of
                   Inl e \<Rightarrow> (Inl e, s1)
                 | Inr (pool_info', account_info', reward) \<Rightarrow>
                     (let s2 = put_account pool who account_info' (put_pool pool pool_info' s1)
                      in case R_transfer R (R_sub_account R pool) who reward (pool_world s2) of
                           (False, w) \<Rightarrow> (Inl CurrencyError, s2\<lparr>pool_world := w\<rparr>)
                         | (True, w) \<Rightarrow> (Inr (shares account_info'), s2\<lparr>pool_world := w\<rparr>)))))"

definition get_account_shares :: "AccountId \<Rightarrow> 'p \<Rightarrow> ('p, 'w) reward_pool \<Rightarrow> Share" where
  "get_account_shares who pool s = shares (pool_account_data s pool who)"

definition get_accumlated_rewards ::
  "('p, 'w) reward_pool_config \<Rightarrow> AccountId \<Rightarrow> 'p \<Rightarrow> ('p, 'w) reward_pool \<Rightarrow> Balance" where
  "get_accumlated_rewards R who pool s =
     (let account_info = pool_account_data s pool who
      in if shares account_info = 0 then 0
         else
           (case calc_pool_reward R pool s of
              Inl _ \<Rightarrow> 0
            | Inr (pool_info, _) \<Rightarrow>
                (case get_rewards_by_account_shares R pool_info account_info (shares account_info) of
                   Inl _ \<Rightarrow> 0
                 | Inr (_, _, reward) \<Rightarrow> reward)))"

definition claim_rewards ::
  "('p, 'w) reward_pool_config \<Rightarrow> AccountId \<Rightarrow> 'p \<Rightarrow> ('p, 'w) reward_pool \<Rightarrow>
     (pool_error + Balance) \<times> ('p, 'w) reward_pool" where
  "claim_rewards R who pool s =
     (case update_pool_reward R pool s of
        (Inl e, s1) \<Rightarrow> (Inl e, s1)
      | (Inr pool_info, s1) \<Rightarrow>
          (let account_info = pool_account_data s1 pool who
           in if shares account_info = 0 then (Inr 0, s1)
              else
                (case calc_reward_by_shares R pool_info (shares account_info) of
                   Inl e \<Rightarrow> (Inl e, s1)
                 | Inr reward_with_virtual \<Rightarrow>
                     (case checked_sub reward_with_virtual (borrowed_amount account_info) of
                        None \<Rightarrow> (Inl RewardCaculationError, s1)
                      | Some actual_reward \<Rightarrow>
                          if actual_reward < R_ExistentialReward R then (Inr 0, s1)
                          else
                            (case checked_sub (total_rewards_useable pool_info) actual_reward of
                               None \<Rightarrow> (Inl RewardCaculationError, s1)
                             | Some useable \<Rightarrow>
                                 if borrowed_amount account_info > reward_with_virtual
                                 then (Inl RewardCaculationError, s1)
                                 else
                                   (case R_transfer R (R_sub_account R pool) who actual_reward (pool_world s1) of
                                      (False, w) \<Rightarrow> (Inl CurrencyError, s1\<lparr>pool_world := w\<rparr>)
                                    | (True, w) \<Rightarrow>
                                        (let s2 = s1\<lparr>pool_world := w\<rparr>;
                                             s3 = put_pool pool ((get_pool s2 pool)\<lparr>total_rewards_useable := useable\<rparr>) s2
                                         in (Inr actual_reward,
                                             put_account pool who
                                               ((pool_account_data s3 pool who)\<lparr>borrowed_amount := reward_with_virtual\<rparr>) s3))))))))"

definition get_all_pools ::
  "('p, 'w) reward_pool_config \<Rightarrow> ('p, 'w) reward_pool \<Rightarrow> ('p \<times> Share \<times> Balance) list" where
  "get_all_pools R s =
     map (\<lambda>(pool_id, info).
       case calc_pool_reward_at_block R pool_id info (R_block_number R (pool_world s)) (pool_world s) of
         Inr (new_info, _) \<Rightarrow> (pool_id, total_shares new_info, total_rewards_useable new_info)
       | Inl _ \<Rightarrow> (pool_id, total_shares info, 0))
       (R_iter_pools R (Pools s))"

subsection \<open>Lemmas: what the operations write\<close>

lemma storage_simps [simp]:
  "get_pool (put_pool p i s) q = (if q = p then i else get_pool s q)"
  "get_pool (put_account p who a s) q = get_pool s q"
  "pool_account_data (put_account p who a s) q x =
     (if q = p \<and> x = who then a else pool_account_data s q x)"
  "pool_account_data (put_pool p i s) = pool_account_data s"
  "pool_world (put_pool p i s) = pool_world s"
  "pool_world (put_account p who a s) = pool_world s"
  "get_pool (s\<lparr>pool_world := w\<rparr>) = get_pool s"
  "pool_account_data (s\<lparr>pool_world := w\<rparr>) = pool_account_data s"
  by (simp_all add: get_pool_def put_pool_def put_account_def pool_account_data_def fun_eq_iff)

lemma calc_pool_reward_at_blockE:
  assumes "calc_pool_reward_at_block R p i n w = Inr (i', r)"
  shows "i' = i\<lparr>last_update_block := max n (last_update_block i), total_rewards := total_rewards i + r,
      total_rewards_useable := total_rewards_useable i + r\<rparr> \<and>
    (r \<noteq> 0 \<longrightarrow> r = R_caculate_reward R p (total_shares i) (last_update_block i) n w)"
  using assms by (auto simp: calc_pool_reward_at_block_def Let_def split: if_splits option.splits)

lemma calc_pool_reward_advance:
  assumes "last_update_block i < n" and "r = R_caculate_reward R p (total_shares i) (last_update_block i) n w"
  shows "calc_pool_reward_at_block R p i n w =
    (if r = 0 \<or> total_rewards i + r \<le> u128_max \<and> total_rewards_useable i + r \<le> u128_max
     then Inr (i\<lparr>total_rewards := total_rewards i + r, total_rewards_useable := total_rewards_useable i + r,
                 last_update_block := n\<rparr>, r)
     else Inl RewardCaculationError)"
  using assms by (cases i) (simp add: calc_pool_reward_at_block_def Let_def checked_add_def)

text \<open>An update adds the same reward to the pool's books and to its account.\<close>

lemma update_pool_rewardE:
  assumes "update_pool_reward R p s = (Inr i, s')"
  obtains r w where "s' = put_pool p i (s\<lparr>pool_world := w\<rparr>)"
    "i = (get_pool s p)\<lparr>last_update_block := max (R_block_number R (pool_world s)) (last_update_block (get_pool s p)),
       total_rewards := total_rewards (get_pool s p) + r,
       total_rewards_useable := total_rewards_useable (get_pool s p) + r\<rparr>"
    "r = 0 \<and> w = pool_world s \<or>
     r = R_caculate_reward R p (total_shares (get_pool s p)) (last_update_block (get_pool s p))
           (R_block_number R (pool_world s)) (pool_world s) \<and>
     R_update_balance R (R_sub_account R p) (int (min i128_max r)) (pool_world s) = (True, w)"
  using assms
  by (auto simp: update_pool_reward_def calc_pool_reward_def split: sum.splits prod.splits bool.splits if_splits
      dest!: calc_pool_reward_at_blockE)

lemma get_rewardsE:
  assumes "get_rewards_by_account_shares R i a x = Inr (i', a', reward)"
  obtains rwv removed where "0 < x" "x \<le> total_shares i" "x \<le> shares a" "removed \<le> borrowed_amount a" "removed \<le> rwv"
    "a' = \<lparr>shares = shares a - x, borrowed_amount = borrowed_amount a - removed\<rparr>"
    "reward = 0 \<and> i' = i\<lparr>total_shares := total_shares i - x\<rparr> \<or>
     reward = rwv - removed \<and> rwv \<le> total_rewards i \<and> reward \<le> total_rewards_useable i \<and>
     i' = i\<lparr>total_shares := total_shares i - x, total_rewards := total_rewards i - rwv,
            total_rewards_useable := total_rewards_useable i - reward\<rparr>"
  using assms
  by (auto simp: get_rewards_by_account_shares_def Let_def split: if_splits sum.splits option.splits prod.splits)

lemma add_shareE:
  assumes "add_share R who p x s = (Inr n, s')"
  obtains i s1 v where "0 < x" "update_pool_reward R p s = (Inr i, s1)" "n = shares (pool_account_data s p who) + x"
    "s' = put_account p who \<lparr>shares = n, borrowed_amount = borrowed_amount (pool_account_data s p who) + v\<rparr>
            (put_pool p (i\<lparr>total_shares := total_shares i + x, total_rewards := total_rewards i + v\<rparr>) s1)"
proof -
  from assms obtain i s1 where u: "0 < x" "update_pool_reward R p s = (Inr i, s1)"
    by (auto simp: add_share_def split: if_splits prod.splits sum.splits)
  moreover from u(2) have "pool_account_data s1 = pool_account_data s"
    by (elim update_pool_rewardE) simp
  ultimately show ?thesis
    using assms that by (auto simp: add_share_def Let_def split: option.splits)
qed

lemma remove_shareE:
  assumes "remove_share R who p x s = (Inr n, s')"
  obtains i s1 i' a' reward w where "update_pool_reward R p s = (Inr i, s1)"
    "get_rewards_by_account_shares R i (pool_account_data s p who) x = Inr (i', a', reward)"
    "R_transfer R (R_sub_account R p) who reward (pool_world s1) = (True, w)" "n = shares a'"
    "s' = (put_account p who a' (put_pool p i' s1))\<lparr>pool_world := w\<rparr>"
proof -
  from assms obtain i s1 where u: "update_pool_reward R p s = (Inr i, s1)"
    by (auto simp: remove_share_def split: prod.splits sum.splits)
  moreover from u have "pool_account_data s1 = pool_account_data s"
    by (elim update_pool_rewardE) simp
  ultimately show ?thesis
    using assms that
    by (auto simp: remove_share_def Let_def split: if_splits sum.splits prod.splits bool.splits)
qed

lemma claim_rewardsE:
  assumes "claim_rewards R who p s = (Inr n, s')"
  obtains (unpaid) i where "n = 0" "update_pool_reward R p s = (Inr i, s')"
    "shares (pool_account_data s p who) = 0 \<or>
     (\<exists>rwv. calc_reward_by_shares R i (shares (pool_account_data s p who)) = Inr rwv \<and>
        borrowed_amount (pool_account_data s p who) \<le> rwv \<and>
        rwv - borrowed_amount (pool_account_data s p who) < R_ExistentialReward R)"
  | (paid) i s1 rwv w where "update_pool_reward R p s = (Inr i, s1)"
    "calc_reward_by_shares R i (shares (pool_account_data s p who)) = Inr rwv"
    "n = rwv - borrowed_amount (pool_account_data s p who)" "borrowed_amount (pool_account_data s p who) \<le> rwv"
    "n \<le> total_rewards_useable i" "R_ExistentialReward R \<le> n"
    "R_transfer R (R_sub_account R p) who n (pool_world s1) = (True, w)"
    "s' = put_account p who ((pool_account_data s p who)\<lparr>borrowed_amount := rwv\<rparr>)
            (put_pool p (i\<lparr>total_rewards_useable := total_rewards_useable i - n\<rparr>) (s1\<lparr>pool_world := w\<rparr>))"
proof -
  let ?a = "pool_account_data s p who"
  from assms obtain i s1 where u: "update_pool_reward R p s = (Inr i, s1)"
    by (auto simp: claim_rewards_def split: prod.splits sum.splits)
  then have d: "pool_account_data s1 = pool_account_data s" "get_pool s1 p = i"
    by (elim update_pool_rewardE; simp)+
  note eq = assms [unfolded claim_rewards_def u prod.case sum.case Let_def d(1)]
  show ?thesis
  proof (cases "shares ?a = 0")
    case True
    show ?thesis by (rule unpaid [of i]) (use eq u True in simp_all)
  next
    case False
    with eq obtain rwv where c: "calc_reward_by_shares R i (shares ?a) = Inr rwv" by (auto split: sum.splits)
    with eq False have b: "borrowed_amount ?a \<le> rwv" by (auto split: option.splits)
    define x where "x = rwv - borrowed_amount ?a"
    show ?thesis
    proof (cases "x < R_ExistentialReward R")
      case True
      show ?thesis
        by (rule unpaid [of i]) (use eq u False c b True in \<open>simp_all add: x_def checked_sub_def\<close>)
    next
      case large: False
      obtain ok w where t: "R_transfer R (R_sub_account R p) who x (pool_world s1) = (ok, w)" by fastforce
      from eq False c b large have m: "x \<le> total_rewards_useable i"
        by (auto simp: checked_sub_def x_def split: if_splits)
      from eq False c b large m t have ok
        by (auto simp: checked_sub_def x_def split: bool.splits)
      show ?thesis
        by (rule paid [OF u c, of w])
          (use eq False c b large m t d \<open>ok\<close> in \<open>auto simp: checked_sub_def x_def\<close>)
    qed
  qed
qed

subsection \<open>The books of a pool\<close>

definition pool_sum :: "(PoolAccountInfo \<Rightarrow> nat) \<Rightarrow> ('p, 'w) reward_pool \<Rightarrow> 'p \<Rightarrow> nat" where
  "pool_sum f s p = (\<Sum>a \<in> dom (PoolAccountData s p). f (pool_account_data s p a))"

definition books_ok :: "('p, 'w) reward_pool \<Rightarrow> bool" where
  "books_ok s \<longleftrightarrow>
     (\<forall>p. finite (dom (PoolAccountData s p)) \<and> total_shares (get_pool s p) = pool_sum shares s p \<and>
        total_rewards_useable (get_pool s p) + pool_sum borrowed_amount s p \<le> total_rewards (get_pool s p))"

lemma pool_sum_simps [simp]:
  "pool_sum f (put_pool q i s) p = pool_sum f s p"
  "pool_sum f (s\<lparr>pool_world := w\<rparr>) p = pool_sum f s p"
  "q \<noteq> p \<Longrightarrow> pool_sum f (put_account q who a s) p = pool_sum f s p"
  by (simp_all add: pool_sum_def put_pool_def put_account_def pool_account_data_def)

lemma account_dom_simps [simp]:
  "dom (PoolAccountData (put_pool q i s) p) = dom (PoolAccountData s p)"
  "dom (PoolAccountData (put_account q who a s) p) =
     (if q = p then insert who (dom (PoolAccountData s p)) else dom (PoolAccountData s p))"
  by (simp_all add: put_pool_def put_account_def)

lemma pool_sum_put:
  assumes "finite (dom (PoolAccountData s p))" and "f PoolAccountInfo_default = 0"
  shows "pool_sum f (put_account p who a s) p + f (pool_account_data s p who) = pool_sum f s p + f a"
proof -
  let ?D = "dom (PoolAccountData s p)"
  have old: "pool_sum f s p = (\<Sum>x \<in> ?D - {who}. f (pool_account_data s p x)) + f (pool_account_data s p who)"
    using assms by (cases "who \<in> ?D")
      (auto simp: pool_sum_def sum.remove pool_account_data_def dom_def)
  have "pool_sum f (put_account p who a s) p = (\<Sum>x \<in> ?D - {who}. f (pool_account_data s p x)) + f a"
    using assms(1) by (simp add: pool_sum_def sum.insert_remove)
  with old show ?thesis by simp
qed

text \<open>Changing the entries of one pool and one account keeps the books if the changes agree.\<close>

lemma books_ok_put:
  assumes "books_ok s" and "total_shares i + shares (pool_account_data s p who) = total_shares (get_pool s p) + shares a"
    and "total_rewards_useable i + borrowed_amount a + total_rewards (get_pool s p) \<le>
      total_rewards_useable (get_pool s p) + borrowed_amount (pool_account_data s p who) + total_rewards i"
  shows "books_ok (put_account p who a (put_pool p i s))"
proof -
  let ?s = "put_account p who a (put_pool p i s)"
  have fin: "finite (dom (PoolAccountData (put_pool p i s) p))" using assms(1) by (simp add: books_ok_def)
  from pool_sum_put [OF fin, of shares who a] pool_sum_put [OF fin, of borrowed_amount who a]
  have "pool_sum shares ?s p + shares (pool_account_data s p who) = pool_sum shares s p + shares a"
    "pool_sum borrowed_amount ?s p + borrowed_amount (pool_account_data s p who) =
      pool_sum borrowed_amount s p + borrowed_amount a"
    by (simp_all add: PoolAccountInfo_default_def)
  moreover have "total_shares (get_pool s p) = pool_sum shares s p"
    "total_rewards_useable (get_pool s p) + pool_sum borrowed_amount s p \<le> total_rewards (get_pool s p)"
    using assms(1) by (simp_all add: books_ok_def)
  ultimately have "total_shares i = pool_sum shares ?s p"
    "total_rewards_useable i + pool_sum borrowed_amount ?s p \<le> total_rewards i"
    using assms(2,3) by linarith+
  with assms(1) show ?thesis by (simp add: books_ok_def)
qed

lemma books_ok_world [step_intros]: "books_ok s \<Longrightarrow> books_ok (s\<lparr>pool_world := w\<rparr>)"
  by (simp add: books_ok_def)

lemma books_ok_update [step_intros]:
  assumes "update_pool_reward R p s = (Inr i, s')" and "books_ok s"
  shows "books_ok s' \<and> get_pool s' p = i"
  using assms(1) by (rule update_pool_rewardE) (use assms(2) in \<open>auto simp: books_ok_def\<close>)

lemma books_ok_add [step_intros]:
  assumes "add_share R who p x s = (Inr n, s')" and "books_ok s"
  shows "books_ok s'"
proof -
  from assms(1) obtain i s1 v where u: "update_pool_reward R p s = (Inr i, s1)"
    and n: "n = shares (pool_account_data s p who) + x"
    and s': "s' = put_account p who \<lparr>shares = n, borrowed_amount = borrowed_amount (pool_account_data s p who) + v\<rparr>
            (put_pool p (i\<lparr>total_shares := total_shares i + x, total_rewards := total_rewards i + v\<rparr>) s1)"
    by (rule add_shareE)
  from u have "pool_account_data s1 = pool_account_data s" by (elim update_pool_rewardE) simp
  with books_ok_update [OF u assms(2)] n show ?thesis
    unfolding s' by (intro books_ok_put) simp_all
qed

lemma books_ok_remove [step_intros]:
  assumes "remove_share R who p x s = (Inr n, s')" and "books_ok s"
  shows "books_ok s'"
proof -
  from assms(1) obtain i s1 i' a' reward w where u: "update_pool_reward R p s = (Inr i, s1)"
    and g: "get_rewards_by_account_shares R i (pool_account_data s p who) x = Inr (i', a', reward)"
    and s': "s' = (put_account p who a' (put_pool p i' s1))\<lparr>pool_world := w\<rparr>"
    by (rule remove_shareE)
  from u have d: "pool_account_data s1 = pool_account_data s" by (elim update_pool_rewardE) simp
  note ok = books_ok_update [OF u assms(2)]
  have "books_ok (put_account p who a' (put_pool p i' s1))"
    using g by (rule get_rewardsE) (use ok d in \<open>auto intro!: books_ok_put\<close>)
  then show ?thesis unfolding s' by (rule books_ok_world)
qed

lemma books_ok_claim [step_intros]:
  assumes "claim_rewards R who p s = (Inr n, s')" and "books_ok s"
  shows "books_ok s'"
  using assms(1)
proof (cases rule: claim_rewardsE)
  case (unpaid i)
  then show ?thesis using books_ok_update [OF unpaid(2) assms(2)] by simp
next
  case (paid i s1 rwv w)
  from paid(1) have "pool_account_data s1 = pool_account_data s" by (elim update_pool_rewardE) simp
  with paid books_ok_update [OF paid(1) assms(2)] show ?thesis
    unfolding paid(8) by (intro books_ok_put books_ok_world) simp_all
qed

subsection \<open>Runs\<close>

text \<open>The states a pool module can reach by successful operations; \<open>env\<close> says what the rest of the chain
  may do between them.\<close>

inductive pool_run ::
  "('p, 'w) reward_pool_config \<Rightarrow> ('w \<Rightarrow> 'w \<Rightarrow> bool) \<Rightarrow> ('p, 'w) reward_pool \<Rightarrow> bool"
  for R :: "('p, 'w) reward_pool_config" and env :: "'w \<Rightarrow> 'w \<Rightarrow> bool" where
  start: "Pools s = Map.empty \<Longrightarrow> (\<And>p. PoolAccountData s p = Map.empty) \<Longrightarrow> pool_run R env s"
| add: "pool_run R env s \<Longrightarrow> add_share R who p x s = (Inr n, s') \<Longrightarrow> pool_run R env s'"
| remove: "pool_run R env s \<Longrightarrow> remove_share R who p x s = (Inr n, s') \<Longrightarrow> pool_run R env s'"
| claim: "pool_run R env s \<Longrightarrow> claim_rewards R who p s = (Inr n, s') \<Longrightarrow> pool_run R env s'"
| others: "pool_run R env s \<Longrightarrow> env (pool_world s) w \<Longrightarrow> pool_run R env (s\<lparr>pool_world := w\<rparr>)"

lemma start_books: "Pools s = Map.empty \<Longrightarrow> (\<And>p. PoolAccountData s p = Map.empty) \<Longrightarrow> books_ok s"
  by (simp add: books_ok_def get_pool_def PoolInfo_default_def pool_sum_def)

lemma pool_run_books: "pool_run R env s \<Longrightarrow> books_ok s"
  by (induction rule: pool_run.induct) (blast intro: start_books step_intros)+

text \<open>What the pool needs of the currency, whose accounts may be reaped below an existential deposit \<open>ed\<close>: a
  deposit arrives at an account that exists; a transfer that leaves at least the existential deposit takes no
  more than it says; and neither takes from a third account. Nobody else takes from the account of a pool,
  and a reward fits the signed type of a deposit.\<close>

definition pool_currency_ok ::
  "('p, 'w) reward_pool_config \<Rightarrow> Balance \<Rightarrow> ('w \<Rightarrow> AccountId \<Rightarrow> Balance) \<Rightarrow> ('w \<Rightarrow> 'w \<Rightarrow> bool) \<Rightarrow> bool" where
  "pool_currency_ok R ed bal env \<longleftrightarrow>
     (\<forall>a n w w'. R_update_balance R a (int n) w = (True, w') \<longrightarrow>
        (ed \<le> bal w a \<longrightarrow> bal w a + n \<le> bal w' a) \<and> (\<forall>c. c \<noteq> a \<longrightarrow> bal w c \<le> bal w' c)) \<and>
     (\<forall>a b x w w'. R_transfer R a b x w = (True, w') \<longrightarrow>
        (ed + x \<le> bal w a \<longrightarrow> bal w a \<le> bal w' a + x) \<and> (\<forall>c. c \<noteq> a \<longrightarrow> bal w c \<le> bal w' c)) \<and>
     (\<forall>w w' p. env w w' \<longrightarrow> bal w (R_sub_account R p) \<le> bal w' (R_sub_account R p)) \<and>
     (\<forall>p sh l n w. R_caculate_reward R p sh l n w \<le> i128_max) \<and>
     inj (R_sub_account R)"

lemma pool_currency_okD:
  assumes "pool_currency_ok R ed bal env"
  shows "R_update_balance R a (int n) w = (True, w') \<Longrightarrow> ed \<le> bal w a \<Longrightarrow> bal w a + n \<le> bal w' a"
    and "R_update_balance R a (int n) w = (True, w') \<Longrightarrow> c \<noteq> a \<Longrightarrow> bal w c \<le> bal w' c"
    and "R_transfer R a b x w = (True, w') \<Longrightarrow> ed + x \<le> bal w a \<Longrightarrow> bal w a \<le> bal w' a + x"
    and "R_transfer R a b x w = (True, w') \<Longrightarrow> c \<noteq> a \<Longrightarrow> bal w c \<le> bal w' c"
    and "env w w' \<Longrightarrow> bal w (R_sub_account R p) \<le> bal w' (R_sub_account R p)"
    and "R_caculate_reward R p sh l m w \<le> i128_max"
    and "R_sub_account R p = R_sub_account R q \<longleftrightarrow> p = q"
  using assms unfolding pool_currency_ok_def by (blast, blast, blast, blast, blast, blast, meson inj_eq)

text \<open>The account of a pool holds what the pool calls usable on top of its existential deposit.\<close>

definition solvent ::
  "('p, 'w) reward_pool_config \<Rightarrow> Balance \<Rightarrow> ('w \<Rightarrow> AccountId \<Rightarrow> Balance) \<Rightarrow> 'p \<Rightarrow> ('p, 'w) reward_pool \<Rightarrow> bool" where
  "solvent R ed bal q s \<longleftrightarrow> ed + total_rewards_useable (get_pool s q) \<le> bal (pool_world s) (R_sub_account R q)"

lemma solvent_update:
  assumes "update_pool_reward R p s = (Inr i, s')" and "solvent R ed bal q s" and "pool_currency_ok R ed bal env"
  shows "solvent R ed bal q s'"
  using assms(1)
proof (rule update_pool_rewardE)
  fix r w
  assume s': "s' = put_pool p i (s\<lparr>pool_world := w\<rparr>)"
    and i: "i = (get_pool s p)\<lparr>last_update_block := max (R_block_number R (pool_world s)) (last_update_block (get_pool s p)),
       total_rewards := total_rewards (get_pool s p) + r,
       total_rewards_useable := total_rewards_useable (get_pool s p) + r\<rparr>"
    and r: "r = 0 \<and> w = pool_world s \<or>
      r = R_caculate_reward R p (total_shares (get_pool s p)) (last_update_block (get_pool s p))
           (R_block_number R (pool_world s)) (pool_world s) \<and>
      R_update_balance R (R_sub_account R p) (int (min i128_max r)) (pool_world s) = (True, w)"
  note D = pool_currency_okD [OF assms(3)]
  show ?thesis
  proof (cases "r = 0 \<and> w = pool_world s")
    case True
    with s' i assms(2) show ?thesis by (auto simp: solvent_def)
  next
    case False
    with r D(6) have "r \<le> i128_max" by auto
    with r False have u: "R_update_balance R (R_sub_account R p) (int r) (pool_world s) = (True, w)"
      by (auto simp: min_absorb2)
    show ?thesis
    proof (cases "q = p")
      case True
      with D(1) [OF u] assms(2) show ?thesis by (simp add: solvent_def s' i)
    next
      case False
      with D(2) [OF u, of "R_sub_account R q"] D(7) [of q p] assms(2) show ?thesis by (simp add: solvent_def s')
    qed
  qed
qed

lemma solvent_pay:
  assumes "solvent R ed bal q s" and "pool_currency_ok R ed bal env"
    and "R_transfer R (R_sub_account R p) who x (pool_world s) = (True, w)"
    and "total_rewards_useable i + x \<le> total_rewards_useable (get_pool s p)"
  shows "solvent R ed bal q ((put_account p who a (put_pool p i s))\<lparr>pool_world := w\<rparr>)"
proof (cases "q = p")
  case True
  with pool_currency_okD(3) [OF assms(2,3)] assms(1,4) show ?thesis by (simp add: solvent_def)
next
  case False
  with pool_currency_okD(4) [OF assms(2,3), of "R_sub_account R q"] pool_currency_okD(7) [OF assms(2), of q p] assms(1)
  show ?thesis by (simp add: solvent_def)
qed

lemma solvent_add:
  assumes "add_share R who p x s = (Inr n, s')" and "solvent R ed bal q s" and "pool_currency_ok R ed bal env"
  shows "solvent R ed bal q s'"
  using assms(1)
proof (rule add_shareE)
  fix i s1 v
  assume u: "update_pool_reward R p s = (Inr i, s1)"
    and s': "s' = put_account p who \<lparr>shares = n, borrowed_amount = borrowed_amount (pool_account_data s p who) + v\<rparr>
            (put_pool p (i\<lparr>total_shares := total_shares i + x, total_rewards := total_rewards i + v\<rparr>) s1)"
  from u have "get_pool s1 p = i" by (elim update_pool_rewardE) simp
  with solvent_update [OF u assms(2,3)] show ?thesis by (auto simp: solvent_def s')
qed

lemma solvent_remove:
  assumes "remove_share R who p x s = (Inr n, s')" and "solvent R ed bal q s" and "pool_currency_ok R ed bal env"
  shows "solvent R ed bal q s'"
  using assms(1)
proof (rule remove_shareE)
  fix i s1 i' a' reward w
  assume u: "update_pool_reward R p s = (Inr i, s1)"
    and g: "get_rewards_by_account_shares R i (pool_account_data s p who) x = Inr (i', a', reward)"
    and t: "R_transfer R (R_sub_account R p) who reward (pool_world s1) = (True, w)"
    and s': "s' = (put_account p who a' (put_pool p i' s1))\<lparr>pool_world := w\<rparr>"
  from u have i: "get_pool s1 p = i" by (elim update_pool_rewardE) simp
  have "total_rewards_useable i' + reward \<le> total_rewards_useable (get_pool s1 p)"
    using g by (rule get_rewardsE) (auto simp: i)
  with solvent_update [OF u assms(2,3)] assms(3) t show ?thesis unfolding s' by (rule solvent_pay)
qed

lemma solvent_claim:
  assumes "claim_rewards R who p s = (Inr n, s')" and "solvent R ed bal q s" and "pool_currency_ok R ed bal env"
  shows "solvent R ed bal q s'"
  using assms(1)
proof (cases rule: claim_rewardsE)
  case (unpaid i)
  from solvent_update [OF unpaid(2) assms(2,3)] show ?thesis .
next
  case (paid i s1 rwv w)
  from paid(1) have i: "get_pool s1 p = i" by (elim update_pool_rewardE) simp
  have swap: "put_account p who a (put_pool p j (s1\<lparr>pool_world := w\<rparr>)) =
      (put_account p who a (put_pool p j s1))\<lparr>pool_world := w\<rparr>" for a j
    by (simp add: put_account_def put_pool_def)
  show ?thesis
    unfolding paid(8) swap
    by (rule solvent_pay [OF solvent_update [OF paid(1) assms(2,3)] assms(3) paid(7)]) (use paid(5) i in simp)
qed

text \<open>Runs from a given state.\<close>

inductive pool_steps ::
  "('p, 'w) reward_pool_config \<Rightarrow> ('w \<Rightarrow> 'w \<Rightarrow> bool) \<Rightarrow> ('p, 'w) reward_pool \<Rightarrow> ('p, 'w) reward_pool \<Rightarrow> bool"
  for R env s0 where
  refl: "pool_steps R env s0 s0"
| add: "pool_steps R env s0 s \<Longrightarrow> add_share R who p x s = (Inr n, s') \<Longrightarrow> pool_steps R env s0 s'"
| remove: "pool_steps R env s0 s \<Longrightarrow> remove_share R who p x s = (Inr n, s') \<Longrightarrow> pool_steps R env s0 s'"
| claim: "pool_steps R env s0 s \<Longrightarrow> claim_rewards R who p s = (Inr n, s') \<Longrightarrow> pool_steps R env s0 s'"
| others: "pool_steps R env s0 s \<Longrightarrow> env (pool_world s) w \<Longrightarrow> pool_steps R env s0 (s\<lparr>pool_world := w\<rparr>)"

lemma pool_steps_run: "pool_steps R env s0 s \<Longrightarrow> pool_run R env s0 \<Longrightarrow> pool_run R env s"
  by (induction rule: pool_steps.induct) (blast intro: pool_run.intros)+

lemma pool_steps_solvent:
  "pool_steps R env s0 s \<Longrightarrow> solvent R ed bal p s0 \<Longrightarrow> pool_currency_ok R ed bal env \<Longrightarrow> solvent R ed bal p s"
proof (induction rule: pool_steps.induct)
  case (others s w)
  then show ?case unfolding solvent_def using pool_currency_okD(5) order_trans by fastforce
qed (blast intro: solvent_add solvent_remove solvent_claim)+

subsection \<open>Claiming twice\<close>

lemma update_idle:
  assumes "R_block_number R (pool_world s) \<le> last_update_block (get_pool s p)"
  shows "update_pool_reward R p s = (Inr (get_pool s p), put_pool p (get_pool s p) s)"
  using assms by (simp add: update_pool_reward_def calc_pool_reward_def calc_pool_reward_at_block_def)

lemma update_last_block:
  assumes "update_pool_reward R p s = (Inr i, s')"
  shows "R_block_number R (pool_world s) \<le> last_update_block i" and "get_pool s' p = i"
    and "pool_account_data s' = pool_account_data s"
  using assms by (elim update_pool_rewardE; simp)+

lemma calc_reward_cong:
  "total_shares i' = total_shares i \<Longrightarrow> total_rewards i' = total_rewards i \<Longrightarrow>
   calc_reward_by_shares R i' x = calc_reward_by_shares R i x"
  by (simp only: calc_reward_by_shares_def)

text \<open>With nothing new to distribute and less than the least reward to claim, a claim pays nothing.\<close>

lemma claim_nothing:
  assumes "R_block_number R (pool_world s) \<le> last_update_block (get_pool s p)"
    and "shares (pool_account_data s p who) = 0 \<or>
      (\<exists>rwv. calc_reward_by_shares R (get_pool s p) (shares (pool_account_data s p who)) = Inr rwv \<and>
        borrowed_amount (pool_account_data s p who) \<le> rwv \<and>
        rwv - borrowed_amount (pool_account_data s p who) < R_ExistentialReward R)"
  shows "claim_rewards R who p s = (Inr 0, put_pool p (get_pool s p) s)"
  using assms by (auto simp: claim_rewards_def update_idle Let_def checked_sub_def)

lemma claim_again:
  assumes "claim_rewards R who p s = (Inr n, s')"
    and "R_block_number R (pool_world s') = R_block_number R (pool_world s)" and "0 < R_ExistentialReward R"
  shows "claim_rewards R who p s' = (Inr 0, put_pool p (get_pool s' p) s')"
  using assms(1)
proof (cases rule: claim_rewardsE)
  case (unpaid i)
  with update_last_block [OF unpaid(2)] assms(2) show ?thesis by (intro claim_nothing) auto
next
  case (paid i s1 rwv w)
  have "calc_reward_by_shares R (get_pool s' p) (shares (pool_account_data s' p who)) = Inr rwv"
    using paid(2) calc_reward_cong [of "get_pool s' p" i R] by (simp add: paid(8))
  moreover have "borrowed_amount (pool_account_data s' p who) = rwv" by (simp add: paid(8))
  moreover have "R_block_number R (pool_world s') \<le> last_update_block (get_pool s' p)"
    using update_last_block(1) [OF paid(1)] assms(2) by (simp add: paid(8))
  ultimately show ?thesis using assms(3) by (intro claim_nothing) auto
qed

subsection \<open>Rounding\<close>

text \<open>\<^verbatim>\<open>FixedU128\<close> has 18 decimals and rounds down.\<close>

definition fixed_rounds_down :: "('p, 'w) reward_pool_config \<Rightarrow> bool" where
  "fixed_rounds_down R \<longleftrightarrow>
     (\<forall>n d. d > 0 \<and> n * 10 ^ 18 div d \<le> u128_max \<longrightarrow> R_from_rational R n d = Some (n * 10 ^ 18 div d)) \<and>
     (\<forall>x n. x * n div 10 ^ 18 \<le> u128_max \<longrightarrow> R_mul_int R x n = Some (x * n div 10 ^ 18))"

lemma third_of_triple:
  assumes "0 < m" and "m \<le> (10 ^ 18 :: nat)"
  shows "333333333333333333 * (3 * m) div 10 ^ 18 = m - 1"
proof -
  from assms have "333333333333333333 * (3 * m) = (10 ^ 18 - m) + 10 ^ 18 * (m - 1)" by (cases m) simp_all
  then show ?thesis using assms by simp
qed

lemma thirds: "Suc 0 * 10 ^ 18 div 3 = (333333333333333333 :: nat)"
  by simp

subsection \<open>The interfaces\<close>

text \<open>\<^verbatim>\<open>RewardHandler\<close>: no rewards without shares, and no matter how often the books are updated.\<close>

locale reward_handler =
  fixes reward :: "'p \<Rightarrow> Share \<Rightarrow> BlockNumber \<Rightarrow> BlockNumber \<Rightarrow> Balance"
  assumes no_shares: "reward p 0 l n = 0"
    and additive: "l \<le> m \<Longrightarrow> m \<le> n \<Longrightarrow> reward p sh l n < u128_max \<Longrightarrow>
      reward p sh l n = reward p sh l m + reward p sh m n"
begin

lemma reward_same: "reward p sh l l < u128_max \<Longrightarrow> reward p sh l l = 0"
  using additive [of l l l p sh] by simp

text \<open>A pool without shares earns nothing.\<close>

lemma idle_pool:
  assumes "\<And>l n. R_caculate_reward R p 0 l n w = reward p 0 l n" and "total_shares i = 0"
    and "calc_pool_reward_at_block R p i n w = Inr (i', r)"
  shows "r = 0 \<and> total_rewards i' = total_rewards i"
  using calc_pool_reward_at_blockE [OF assms(3)] assms(1,2) no_shares by auto

text \<open>Updating at a block in between gives the same books as one update.\<close>

lemma update_in_between:
  assumes "\<And>sh l n. R_caculate_reward R p sh l n w = reward p sh l n"
    and "reward p (total_shares i) (last_update_block i) n < u128_max"
    and "last_update_block i \<le> m" and "m \<le> n"
    and "calc_pool_reward_at_block R p i n w = Inr (i', r)"
  shows "\<exists>j a b. calc_pool_reward_at_block R p i m w = Inr (j, a) \<and>
    calc_pool_reward_at_block R p j n w = Inr (i', b) \<and> r = a + b"
proof (cases "last_update_block i = m \<or> m = n")
  case True
  have idle: "k \<le> last_update_block x \<Longrightarrow> calc_pool_reward_at_block R p x k w = Inr (x, 0)" for x k
    by (simp add: calc_pool_reward_at_block_def)
  from calc_pool_reward_at_blockE [OF assms(5)] assms(3,4) have "last_update_block i' = n" by simp
  with True assms(5) idle [of m i] idle [of n i'] show ?thesis by auto
next
  case False
  let ?r = "reward p (total_shares i)"
  have sum: "?r (last_update_block i) n = ?r (last_update_block i) m + ?r m n"
    using additive assms(2-4) by blast
  from False assms(3,4) have lt: "last_update_block i < m" "m < n" by simp_all
  define a where "a = ?r (last_update_block i) m"
  define b where "b = ?r m n"
  define j where "j = i\<lparr>total_rewards := total_rewards i + a, total_rewards_useable := total_rewards_useable i + a,
    last_update_block := m\<rparr>"
  note at_n = calc_pool_reward_advance [OF less_trans [OF lt] assms(1) [symmetric]]
    and at_m = calc_pool_reward_advance [OF lt(1) assms(1) [symmetric]]
  have fits: "a + b = 0 \<or> total_rewards i + (a + b) \<le> u128_max \<and> total_rewards_useable i + (a + b) \<le> u128_max"
    and i': "i' = i\<lparr>total_rewards := total_rewards i + (a + b),
        total_rewards_useable := total_rewards_useable i + (a + b), last_update_block := n\<rparr>" and r: "r = a + b"
    using assms(5) at_n sum by (auto simp: a_def b_def split: if_splits)
  have "calc_pool_reward_at_block R p i m w = Inr (j, a)"
    using at_m fits by (auto simp: a_def j_def)
  moreover have "calc_pool_reward_at_block R p j n w = Inr (i', b)"
    using calc_pool_reward_advance [of j n b R p w] fits lt(2)
    by (auto simp: assms(1) j_def i' b_def add.assoc)
  ultimately show ?thesis using r by blast
qed

end

text \<open>\<^verbatim>\<open>RewardPoolOps\<close>: an operation that succeeds changes the shares it says it changes and no others.\<close>

datatype 'p pool_op = Add AccountId 'p Share | Remove AccountId 'p Share | Claim AccountId 'p

locale reward_pool_ops =
  fixes add :: "AccountId \<Rightarrow> 'p \<Rightarrow> Share \<Rightarrow> 's \<Rightarrow> ('e + Share) \<times> 's"
    and remove :: "AccountId \<Rightarrow> 'p \<Rightarrow> Share \<Rightarrow> 's \<Rightarrow> ('e + Share) \<times> 's"
    and claim :: "AccountId \<Rightarrow> 'p \<Rightarrow> 's \<Rightarrow> ('e + Balance) \<times> 's"
    and shares_of :: "AccountId \<Rightarrow> 'p \<Rightarrow> 's \<Rightarrow> Share"
  assumes add_shares: "add who p x s = (Inr n, s') \<Longrightarrow>
      n = shares_of who p s + x \<and> shares_of a q s' = (if a = who \<and> q = p then n else shares_of a q s)"
    and remove_shares: "remove who p x s = (Inr n, s') \<Longrightarrow> x \<le> shares_of who p s \<and>
      n = shares_of who p s - x \<and> shares_of a q s' = (if a = who \<and> q = p then n else shares_of a q s)"
    and claim_shares: "claim who p s = (Inr m, s') \<Longrightarrow> shares_of a q s' = shares_of a q s"
begin

fun step :: "'p pool_op \<Rightarrow> 's \<Rightarrow> 's option" where
  "step (Add who p x) s = (case add who p x s of (Inr _, s') \<Rightarrow> Some s' | (Inl _, _) \<Rightarrow> None)"
| "step (Remove who p x) s = (case remove who p x s of (Inr _, s') \<Rightarrow> Some s' | (Inl _, _) \<Rightarrow> None)"
| "step (Claim who p) s = (case claim who p s of (Inr _, s') \<Rightarrow> Some s' | (Inl _, _) \<Rightarrow> None)"

fun ops_run :: "'p pool_op list \<Rightarrow> 's \<Rightarrow> 's option" where
  "ops_run [] s = Some s"
| "ops_run (x # xs) s = Option.bind (step x s) (ops_run xs)"

fun added :: "AccountId \<Rightarrow> 'p \<Rightarrow> 'p pool_op list \<Rightarrow> nat" where
  "added a q [] = 0"
| "added a q (Add who p x # ops) = (if a = who \<and> q = p then x else 0) + added a q ops"
| "added a q (_ # ops) = added a q ops"

fun removed :: "AccountId \<Rightarrow> 'p \<Rightarrow> 'p pool_op list \<Rightarrow> nat" where
  "removed a q [] = 0"
| "removed a q (Remove who p x # ops) = (if a = who \<and> q = p then x else 0) + removed a q ops"
| "removed a q (_ # ops) = removed a q ops"

lemma step_shares:
  assumes "step x s = Some s'"
  shows "shares_of a q s' + removed a q [x] = shares_of a q s + added a q [x]"
proof (cases x)
  case (Add who p n)
  with assms add_shares show ?thesis by (force split: prod.splits sum.splits)
next
  case (Remove who p n)
  with assms remove_shares show ?thesis by (force split: prod.splits sum.splits)
next
  case (Claim who p)
  with assms claim_shares show ?thesis by (force split: prod.splits sum.splits)
qed

lemma ops_run_shares:
  assumes "ops_run ops s = Some s'"
  shows "shares_of a q s' + removed a q ops = shares_of a q s + added a q ops"
  using assms
proof (induction ops arbitrary: s)
  case (Cons x ops)
  then obtain s1 where s1: "step x s = Some s1" "ops_run ops s1 = Some s'"
    by (auto simp: bind_eq_Some_conv)
  have "removed a q (x # ops) = removed a q [x] + removed a q ops"
    "added a q (x # ops) = added a q [x] + added a q ops" by (cases x; simp)+
  with Cons.IH [OF s1(2)] step_shares [OF s1(1), of a q] show ?case by simp
qed simp

end

interpretation rp: reward_pool_ops "add_share R" "remove_share R" "claim_rewards R" get_account_shares
  for R :: "('p, 'w) reward_pool_config"
proof
  fix who :: AccountId and p :: 'p and x n a q and s s' :: "('p, 'w) reward_pool"
  assume "add_share R who p x s = (Inr n, s')"
  then show "n = get_account_shares who p s + x \<and>
      get_account_shares a q s' = (if a = who \<and> q = p then n else get_account_shares a q s)"
  proof (rule add_shareE)
    fix i s1 v
    assume "update_pool_reward R p s = (Inr i, s1)" "n = shares (pool_account_data s p who) + x"
      "s' = put_account p who \<lparr>shares = n, borrowed_amount = borrowed_amount (pool_account_data s p who) + v\<rparr>
            (put_pool p (i\<lparr>total_shares := total_shares i + x, total_rewards := total_rewards i + v\<rparr>) s1)"
    then show ?thesis using update_last_block(3) [of R p s i s1] by (simp add: get_account_shares_def)
  qed
next
  fix who :: AccountId and p :: 'p and x n a q and s s' :: "('p, 'w) reward_pool"
  assume "remove_share R who p x s = (Inr n, s')"
  then show "x \<le> get_account_shares who p s \<and> n = get_account_shares who p s - x \<and>
      get_account_shares a q s' = (if a = who \<and> q = p then n else get_account_shares a q s)"
    by (elim remove_shareE get_rewardsE) (simp add: get_account_shares_def update_last_block(3))
next
  fix who :: AccountId and p :: 'p and m a q and s s' :: "('p, 'w) reward_pool"
  assume "claim_rewards R who p s = (Inr m, s')"
  then show "get_account_shares a q s' = get_account_shares a q s"
    by (cases rule: claim_rewardsE) (simp_all add: get_account_shares_def update_last_block(3))
qed

subsection \<open>Properties\<close>

text \<open>C33. The books of a pool balance in every reachable state: its total is the sum of the shares of its
  accounts, and what is usable together with what accounts have borrowed is covered by the total rewards.\<close>

theorem pool_books_balance:
  assumes "pool_run R env s"
  shows "total_shares (get_pool s p) = (\<Sum>a \<in> dom (PoolAccountData s p). shares (pool_account_data s p a)) \<and>
    total_rewards_useable (get_pool s p) +
      (\<Sum>a \<in> dom (PoolAccountData s p). borrowed_amount (pool_account_data s p a)) \<le> total_rewards (get_pool s p)"
  using pool_run_books [OF assms] by (simp add: books_ok_def pool_sum_def)

text \<open>C34. If the account of a pool holds the existential deposit before the pool is first used, nobody else
  takes from it, and rewards fit the signed type of a deposit, then after any run of operations it holds the
  existential deposit and all the rewards the pool calls usable: it is never reaped and can pay them.\<close>

theorem pool_can_pay:
  assumes "pool_steps R env s0 s" and "pool_currency_ok R ed bal env"
    and "Pools s0 p = None" and "ed \<le> bal (pool_world s0) (R_sub_account R p)"
  shows "ed + total_rewards_useable (get_pool s p) \<le> bal (pool_world s) (R_sub_account R p)"
proof -
  have "solvent R ed bal p s0" using assms(3,4) by (simp add: solvent_def get_pool_def PoolInfo_default_def)
  from pool_steps_solvent [OF assms(1) this assms(2)] show ?thesis by (simp add: solvent_def)
qed

text \<open>A second claim in the same block succeeds, pays nothing and moves no money.\<close>

theorem second_claim_pays_nothing:
  assumes "claim_rewards R who p s = (Inr n, s')"
    and "R_block_number R (pool_world s') = R_block_number R (pool_world s)" and "0 < R_ExistentialReward R"
  shows "\<exists>s''. claim_rewards R who p s' = (Inr 0, s'') \<and> pool_world s'' = pool_world s'"
  using claim_again [OF assms] by simp

text \<open>The two roundings of a share's value do not match: in a pool of two shares that are worth \<open>m\<close> each,
  an account that adds a share borrows \<open>m\<close>, and can then not remove the share in the same block, because a
  third of the rewards rounds to less than it borrowed.\<close>

theorem rounding_blocks_exit:
  assumes "fixed_rounds_down R" and "0 < m" and "m \<le> 10 ^ 18" and "0 < b"
    and "get_pool s p = \<lparr>total_shares = 2, total_rewards = 2 * m, total_rewards_useable = u, last_update_block = b\<rparr>"
    and "R_block_number R (pool_world s) = b" and "PoolAccountData s p who = None"
  shows "\<exists>s'. add_share R who p 1 s = (Inr 1, s') \<and>
    fst (remove_share R who p 1 s') = Inl RewardCaculationError"
proof -
  let ?a = "\<lparr>shares = 1, borrowed_amount = m\<rparr>"
  let ?i = "\<lparr>total_shares = 3, total_rewards = 3 * m, total_rewards_useable = u, last_update_block = b\<rparr>"
  let ?s = "put_account p who ?a (put_pool p ?i (put_pool p (get_pool s p) s))"
  have data: "pool_account_data s p who = PoolAccountInfo_default" using assms(7) by (simp add: pool_account_data_def)
  have ratio: "R_from_rational R n d = Some (n * 10 ^ 18 div d)" if "0 < d" "n * 10 ^ 18 div d \<le> u128_max" for n d
    using assms(1) that unfolding fixed_rounds_down_def by blast
  have mul: "R_mul_int R x n = Some (x * n div 10 ^ 18)" if "x * n div 10 ^ 18 \<le> u128_max" for x n
    using assms(1) that unfolding fixed_rounds_down_def by blast
  have price: "R_from_rational R (2 * m) 2 = Some (m * 10 ^ 18)" "R_mul_int R (m * 10 ^ 18) 1 = Some m"
    "R_from_rational R 1 3 = Some 333333333333333333" "R_from_rational R 1 1 = Some (10 ^ 18)"
    using assms(3) by (simp_all add: ratio mul u128_max_def)
  have rwv: "R_mul_int R 333333333333333333 (3 * m) = Some (m - 1)"
    using third_of_triple [OF assms(2,3)] assms(3) by (subst mul) (simp_all add: u128_max_def)
  have whole: "R_mul_int R (10 ^ 18) m = Some m"
    using assms(3) by (subst mul) (simp_all add: u128_max_def)
  have "add_share R who p 1 s = (Inr 1, ?s)"
    using update_idle [of R s p] assms(3,5,6) data price(1,2)
    by (simp add: add_share_def share_price_def Let_def PoolAccountInfo_default_def checked_add_def u128_max_def)
  moreover have "get_rewards_by_account_shares R ?i ?a 1 = Inl RewardCaculationError"
    using price(3,4) rwv whole assms(2)
    by (simp add: get_rewards_by_account_shares_def calc_reward_by_shares_def checked_sub_def)
  then have "fst (remove_share R who p 1 ?s) = Inl RewardCaculationError"
    using update_idle [of R ?s p] assms(6) by (simp add: remove_share_def Let_def)
  ultimately show ?thesis by blast
qed

subsection \<open>A sample pool\<close>

text \<open>Ten units of reward per block; the world is the block number and the sample bank.\<close>

definition sample_R :: "(nat, BlockNumber \<times> bank) reward_pool_config" where
  "sample_R =
     \<lparr>R_from_rational =
        (\<lambda>n d. if d = 0 \<or> n * 10 ^ 18 div d > u128_max then None else Some (n * 10 ^ 18 div d)),
      R_mul_int = (\<lambda>x n. if x * n div 10 ^ 18 > u128_max then None else Some (x * n div 10 ^ 18)),
      R_caculate_reward = (\<lambda>p sh l n w. if sh = 0 then 0 else min i128_max (10 * (n - l))),
      R_sub_account = (\<lambda>p. 100 + p),
      R_update_balance = (\<lambda>a x w. (True, (fst w, (snd w)(a := snd w a + nat x)))),
      R_transfer = (\<lambda>a b x w. if x \<le> snd w a
         then (True, (fst w, ((snd w)(a := snd w a - x))(b := ((snd w)(a := snd w a - x)) b + x)))
         else (False, w)),
      R_ExistentialReward = 1,
      R_block_number = fst,
      R_iter_pools = (\<lambda>m. [])\<rparr>"

definition sample_env :: "BlockNumber \<times> bank \<Rightarrow> BlockNumber \<times> bank \<Rightarrow> bool" where
  "sample_env w w' \<longleftrightarrow> snd w' = snd w"

definition sample_pool0 :: "(nat, BlockNumber \<times> bank) reward_pool" where
  "sample_pool0 = \<lparr>Pools = Map.empty, PoolAccountData = (\<lambda>p. Map.empty), pool_world = (1, (\<lambda>a. 0))\<rparr>"

text \<open>Account 7 adds five shares in block 1 and claims in block 3.\<close>

definition sample_pool1 :: "(nat, BlockNumber \<times> bank) reward_pool" where
  "sample_pool1 = (snd (add_share sample_R 7 0 5 sample_pool0))\<lparr>pool_world := (3, (\<lambda>a. 0))\<rparr>"

definition sample_pool2 :: "(nat, BlockNumber \<times> bank) reward_pool" where
  "sample_pool2 = snd (claim_rewards sample_R 7 0 sample_pool1)"

lemma sample_rounds_down: "fixed_rounds_down sample_R"
  by (simp add: fixed_rounds_down_def sample_R_def)

lemmas pool_op_defs = add_share_def claim_rewards_def update_pool_reward_def calc_pool_reward_def
  calc_pool_reward_at_block_def calc_reward_by_shares_def share_price_def Let_def put_pool_def put_account_def
  get_pool_def pool_account_data_def PoolInfo_default_def PoolAccountInfo_default_def checked_add_def checked_sub_def

lemma sample_add: "add_share sample_R 7 0 5 sample_pool0 = (Inr 5, snd (add_share sample_R 7 0 5 sample_pool0))"
  "pool_world (snd (add_share sample_R 7 0 5 sample_pool0)) = (1, (\<lambda>a. 0))"
  by (simp_all add: pool_op_defs sample_R_def sample_pool0_def u128_max_def)

lemma sample_claim: "claim_rewards sample_R 7 0 sample_pool1 = (Inr 20, sample_pool2)"
  by (simp add: pool_op_defs sample_R_def sample_pool0_def sample_pool1_def sample_pool2_def u128_max_def i128_max_def)

lemma sample_pool_run: "pool_run sample_R sample_env sample_pool2"
proof -
  have "pool_run sample_R sample_env sample_pool0"
    by (rule pool_run.start) (simp_all add: sample_pool0_def)
  then have "pool_run sample_R sample_env (snd (add_share sample_R 7 0 5 sample_pool0))"
    using sample_add(1) by (rule pool_run.add)
  then have "pool_run sample_R sample_env sample_pool1"
    unfolding sample_pool1_def by (rule pool_run.others) (simp add: sample_add(2) sample_env_def)
  then show ?thesis using sample_claim by (rule pool_run.claim)
qed

theorem pool_books_balance_witness:
  "total_shares (get_pool sample_pool2 0) =
     (\<Sum>a \<in> dom (PoolAccountData sample_pool2 0). shares (pool_account_data sample_pool2 0 a))"
  using pool_books_balance [OF sample_pool_run] by blast

text \<open>The sample pool over a bank with an existential deposit of five: a deposit that would leave an account below
  it is dropped without an error, and an account that falls below it is reaped.\<close>

definition sample_R_reaping :: "(nat, BlockNumber \<times> bank) reward_pool_config" where
  "sample_R_reaping = sample_R
     \<lparr>R_update_balance := (\<lambda>a x w. (True, if snd w a + nat x < 5 then w else (fst w, (snd w)(a := snd w a + nat x)))),
      R_transfer := (\<lambda>a b x w.
        if snd w a < x \<or> snd w b + x < 5 then (False, w)
        else if a = b then (True, w)
        else (True, (fst w, (snd w)(a := (if snd w a - x < 5 then 0 else snd w a - x), b := snd w b + x))))\<rparr>"

definition sample_reaping0 :: "(nat, BlockNumber \<times> bank) reward_pool" where
  "sample_reaping0 = \<lparr>Pools = Map.empty, PoolAccountData = (\<lambda>p. Map.empty), pool_world = (1, (\<lambda>a. 0)(100 := 5))\<rparr>"

definition sample_reaping1 :: "(nat, BlockNumber \<times> bank) reward_pool" where
  "sample_reaping1 = (snd (add_share sample_R_reaping 7 0 5 sample_reaping0))\<lparr>pool_world := (3, (\<lambda>a. 0)(100 := 5))\<rparr>"

lemma sample_reaping_currency: "pool_currency_ok sample_R_reaping 5 snd sample_env"
  by (auto simp: pool_currency_ok_def sample_R_reaping_def sample_R_def sample_env_def inj_def split: if_splits)

lemma sample_reaping_add:
  "add_share sample_R_reaping 7 0 5 sample_reaping0 = (Inr 5, snd (add_share sample_R_reaping 7 0 5 sample_reaping0))"
  "pool_world (snd (add_share sample_R_reaping 7 0 5 sample_reaping0)) = (1, (\<lambda>a. 0)(100 := 5))"
  by (simp_all add: pool_op_defs sample_R_reaping_def sample_R_def sample_reaping0_def u128_max_def)

theorem pool_can_pay_witness:
  "\<exists>s. claim_rewards sample_R_reaping 7 0 sample_reaping1 = (Inr 20, s) \<and> 5 \<le> snd (pool_world s) 100"
proof -
  have c: "claim_rewards sample_R_reaping 7 0 sample_reaping1 =
      (Inr 20, snd (claim_rewards sample_R_reaping 7 0 sample_reaping1))"
    by (simp add: pool_op_defs sample_R_reaping_def sample_R_def sample_reaping0_def sample_reaping1_def u128_max_def i128_max_def)
  have "pool_steps sample_R_reaping sample_env sample_reaping0 sample_reaping1"
    unfolding sample_reaping1_def
    by (rule pool_steps.others [OF pool_steps.add [OF pool_steps.refl sample_reaping_add(1)]])
      (simp add: sample_reaping_add(2) sample_env_def)
  from pool_can_pay [OF pool_steps.claim [OF this c] sample_reaping_currency, of 0] c
  show ?thesis by (auto simp: sample_reaping0_def sample_R_reaping_def sample_R_def)
qed

theorem second_claim_pays_nothing_witness:
  "\<exists>s. claim_rewards sample_R 7 0 sample_pool2 = (Inr 0, s) \<and> pool_world s = pool_world sample_pool2"
proof -
  have "R_block_number sample_R (pool_world sample_pool2) = R_block_number sample_R (pool_world sample_pool1)"
    by code_simp
  then show ?thesis by (rule second_claim_pays_nothing [OF sample_claim]) (simp add: sample_R_def)
qed

theorem rounding_blocks_exit_witness:
  "\<exists>s :: (nat, BlockNumber \<times> bank) reward_pool. \<exists>s'. add_share sample_R 8 0 1 s = (Inr 1, s') \<and>
     fst (remove_share sample_R 8 0 1 s') = Inl RewardCaculationError"
proof -
  let ?s = "put_pool 0 \<lparr>total_shares = 2, total_rewards = 2 * 10, total_rewards_useable = 20, last_update_block = 1\<rparr> sample_pool0"
  have "\<exists>s'. add_share sample_R 8 0 1 ?s = (Inr 1, s') \<and> fst (remove_share sample_R 8 0 1 s') = Inl RewardCaculationError"
    by (rule rounding_blocks_exit [where m = 10 and b = 1 and u = 20, OF sample_rounds_down])
      (simp_all add: sample_R_def sample_pool0_def put_pool_def get_pool_def)
  then show ?thesis by blast
qed

end
