(* ===== verification/Incentives.thy ===== *)
theory Incentives
  imports Reward_Pool
begin

section \<open>Incentives (\<^verbatim>\<open>modules/incentives\<close>)\<close>

text \<open>
  The incentives put a pair of currencies in front of a reward pool and pay a fixed reward per block to
  the pool of a pair: they are a client of \<open>reward_pool_ops\<close> and the provider of \<open>reward_handler\<close>.
  Currencies are those of \<^verbatim>\<open>primitives/src/lib.rs\<close>, ordered by their discriminants.
\<close>

datatype CurrencyId = CLV | CUSDT | DOT | CETH

fun currency_index :: "CurrencyId \<Rightarrow> u32" where
  "currency_index CLV = 0"
| "currency_index CUSDT = 1"
| "currency_index DOT = 2"
| "currency_index CETH = 3"

lemma currency_index_inj [simp]: "currency_index a = currency_index b \<longleftrightarrow> a = b"
  by (cases a; cases b) simp_all

instantiation CurrencyId :: linorder
begin

definition less_eq_CurrencyId :: "CurrencyId \<Rightarrow> CurrencyId \<Rightarrow> bool" where
  "a \<le> b \<longleftrightarrow> currency_index a \<le> currency_index b"

definition less_CurrencyId :: "CurrencyId \<Rightarrow> CurrencyId \<Rightarrow> bool" where
  "a < b \<longleftrightarrow> currency_index a < currency_index b"

instance
  by standard (auto simp: less_eq_CurrencyId_def less_CurrencyId_def)

end

record PairKey =
  left :: CurrencyId
  right :: CurrencyId

datatype PoolId = Dex PairKey

definition PairKey_try_from :: "CurrencyId \<Rightarrow> CurrencyId \<Rightarrow> PairKey option" where
  "PairKey_try_from first second =
     (if first = second then None
      else if first < second then Some \<lparr>left = first, right = second\<rparr>
      else Some \<lparr>left = second, right = first\<rparr>)"

datatype incentives_error = InvalidCurrencyPair | PoolError pool_error

record incentives =
  DexIncentiveRewards :: "PoolId \<rightharpoonup> Balance"

text \<open>The genesis build panics on an invalid pair and on a reward of zero.\<close>

fun incentives_genesis_build :: "(CurrencyId \<times> CurrencyId \<times> Balance) list \<Rightarrow> incentives \<Rightarrow> incentives option" where
  "incentives_genesis_build [] s = Some s"
| "incentives_genesis_build ((l, r, reward_per_block) # rest) s =
     (case PairKey_try_from l r of
        None \<Rightarrow> None
      | Some pair_key \<Rightarrow>
          if reward_per_block = 0 then None
          else incentives_genesis_build rest
                 (s\<lparr>DexIncentiveRewards := (DexIncentiveRewards s)(Dex pair_key \<mapsto> reward_per_block)\<rparr>))"

definition get_dex_id :: "CurrencyId \<Rightarrow> CurrencyId \<Rightarrow> incentives_error + PoolId" where
  "get_dex_id first second =
     (case PairKey_try_from first second of
        None \<Rightarrow> Inl InvalidCurrencyPair | Some pair_key \<Rightarrow> Inr (Dex pair_key))"

definition caculate_reward :: "incentives \<Rightarrow> PoolId \<Rightarrow> Share \<Rightarrow> BlockNumber \<Rightarrow> BlockNumber \<Rightarrow> Balance" where
  "caculate_reward s pool_id total_share last_block now =
     (if total_share = 0 then 0
      else
        (case DexIncentiveRewards s pool_id of
           None \<Rightarrow> 0
         | Some reward_ratio \<Rightarrow>
             if last_block \<ge> now then 0
             else if reward_ratio = 0 then 0
             else sat_mul u128_max reward_ratio (now - last_block)))"

subsection \<open>The operations of \<^verbatim>\<open>IncentiveOps\<close>\<close>

definition pool_result :: "(pool_error + 'a) \<times> 's \<Rightarrow> (incentives_error + 'a) \<times> 's" where
  "pool_result r = (case r of (Inl e, s) \<Rightarrow> (Inl (PoolError e), s) | (Inr x, s) \<Rightarrow> (Inr x, s))"

definition inc_add_share ::
  "(PoolId, 'w) reward_pool_config \<Rightarrow> AccountId \<Rightarrow> CurrencyId \<Rightarrow> CurrencyId \<Rightarrow> Share \<Rightarrow> (PoolId, 'w) reward_pool \<Rightarrow>
     (incentives_error + Share) \<times> (PoolId, 'w) reward_pool" where
  "inc_add_share R who currency_first currency_second amount s =
     (case PairKey_try_from currency_first currency_second of
        None \<Rightarrow> (Inl InvalidCurrencyPair, s)
      | Some pair_key \<Rightarrow> pool_result (add_share R who (Dex pair_key) amount s))"

definition inc_remove_share ::
  "(PoolId, 'w) reward_pool_config \<Rightarrow> AccountId \<Rightarrow> CurrencyId \<Rightarrow> CurrencyId \<Rightarrow> Share \<Rightarrow> (PoolId, 'w) reward_pool \<Rightarrow>
     (incentives_error + Share) \<times> (PoolId, 'w) reward_pool" where
  "inc_remove_share R who currency_first currency_second amount s =
     (case PairKey_try_from currency_first currency_second of
        None \<Rightarrow> (Inl InvalidCurrencyPair, s)
      | Some pair_key \<Rightarrow> pool_result (remove_share R who (Dex pair_key) amount s))"

definition inc_get_account_shares :: "AccountId \<Rightarrow> CurrencyId \<Rightarrow> CurrencyId \<Rightarrow> (PoolId, 'w) reward_pool \<Rightarrow> Share" where
  "inc_get_account_shares who l r s =
     (case get_dex_id l r of Inr pid \<Rightarrow> get_account_shares who pid s | Inl _ \<Rightarrow> 0)"

definition inc_get_accumlated_rewards ::
  "(PoolId, 'w) reward_pool_config \<Rightarrow> AccountId \<Rightarrow> CurrencyId \<Rightarrow> CurrencyId \<Rightarrow> (PoolId, 'w) reward_pool \<Rightarrow> Share" where
  "inc_get_accumlated_rewards R who l r s =
     (case get_dex_id l r of Inr pid \<Rightarrow> get_accumlated_rewards R who pid s | Inl _ \<Rightarrow> 0)"

record IncentivePoolAccountInfo =
  ipa_shares :: Share
  ipa_accumlated_rewards :: Balance

definition get_account_info ::
  "(PoolId, 'w) reward_pool_config \<Rightarrow> AccountId \<Rightarrow> CurrencyId \<Rightarrow> CurrencyId \<Rightarrow> (PoolId, 'w) reward_pool \<Rightarrow>
     IncentivePoolAccountInfo" where
  "get_account_info R who l r s =
     (case get_dex_id l r of
        Inr pool_id \<Rightarrow> \<lparr>ipa_shares = get_account_shares who pool_id s,
                        ipa_accumlated_rewards = get_accumlated_rewards R who pool_id s\<rparr>
      | Inl _ \<Rightarrow> \<lparr>ipa_shares = 0, ipa_accumlated_rewards = 0\<rparr>)"

definition inc_claim_rewards ::
  "(PoolId, 'w) reward_pool_config \<Rightarrow> AccountId \<Rightarrow> CurrencyId \<Rightarrow> CurrencyId \<Rightarrow> (PoolId, 'w) reward_pool \<Rightarrow>
     (incentives_error + Balance) \<times> (PoolId, 'w) reward_pool" where
  "inc_claim_rewards R who l r s =
     (case get_dex_id l r of
        Inl e \<Rightarrow> (Inl e, s)
      | Inr pool_id \<Rightarrow> pool_result (claim_rewards R who pool_id s))"

definition get_all_incentive_pools ::
  "(PoolId, 'w) reward_pool_config \<Rightarrow> (PoolId, 'w) reward_pool \<Rightarrow> (CurrencyId \<times> CurrencyId \<times> Share \<times> Balance) list" where
  "get_all_incentive_pools R s =
     map (\<lambda>(pool_id, sh, balance). case pool_id of Dex k \<Rightarrow> (left k, right k, sh, balance))
       (filter (\<lambda>(pool_id, _, _). case pool_id of Dex _ \<Rightarrow> True) (get_all_pools R s))"

subsection \<open>Pairs\<close>

lemma PairKey_try_from_sym: "PairKey_try_from a b = PairKey_try_from b a"
  by (auto simp: PairKey_try_from_def)

lemma PairKey_try_from_same:
  "PairKey_try_from a b = Some k \<Longrightarrow> PairKey_try_from c d = Some k \<longleftrightarrow> {a, b} = {c, d}"
  by (auto simp: PairKey_try_from_def doubleton_eq_iff split: if_splits)

lemma pair_key_iff: "PairKey_try_from a b = Some k \<longleftrightarrow> a \<noteq> b \<and> k = \<lparr>left = min a b, right = max a b\<rparr>"
  by (auto simp: PairKey_try_from_def min_def max_def)

interpretation ih: reward_handler "caculate_reward s" for s
proof
  fix p sh and l m n :: BlockNumber
  show "caculate_reward s p 0 l n = 0" by (simp add: caculate_reward_def)
  assume le: "l \<le> m" "m \<le> n" and small: "caculate_reward s p sh l n < u128_max"
  show "caculate_reward s p sh l n = caculate_reward s p sh l m + caculate_reward s p sh m n"
  proof (cases "sh = 0 \<or> DexIncentiveRewards s p = None \<or> DexIncentiveRewards s p = Some 0")
    case True
    then show ?thesis by (auto simp: caculate_reward_def)
  next
    case False
    then obtain r where r: "DexIncentiveRewards s p = Some r" "r \<noteq> 0" "sh \<noteq> 0" by auto
    have all: "caculate_reward s p sh a b = min u128_max (r * (b - a))" for a b
      using r by (simp add: caculate_reward_def sat_mul_def)
    have "r * (n - l) = r * (m - l) + r * (n - m)" using le by (simp flip: add_mult_distrib2)
    with small show ?thesis by (simp add: all)
  qed
qed

text \<open>The handler of the runtime reads the incentives' storage out of the world.\<close>

definition handled_by :: "(PoolId, 'w) reward_pool_config \<Rightarrow> ('w \<Rightarrow> incentives) \<Rightarrow> bool" where
  "handled_by R st \<longleftrightarrow> (\<forall>p sh l n w. R_caculate_reward R p sh l n w = caculate_reward (st w) p sh l n)"

subsection \<open>Properties\<close>

text \<open>Shares added for a pair are read back under the pair in either order; no other pair and no other
  account is affected, and a pair of equal currencies is refused.\<close>

theorem incentive_shares_by_pair:
  assumes "inc_add_share R who a b x s = (Inr n, s')"
  shows "a \<noteq> b \<and> n = inc_get_account_shares who a b s + x \<and> inc_get_account_shares who b a s' = n \<and>
    (\<forall>y c d. y \<noteq> who \<or> {c, d} \<noteq> {a, b} \<longrightarrow> inc_get_account_shares y c d s' = inc_get_account_shares y c d s)"
proof -
  from assms obtain k where k: "PairKey_try_from a b = Some k" and add: "add_share R who (Dex k) x s = (Inr n, s')"
    by (auto simp: inc_add_share_def pool_result_def split: option.splits prod.splits sum.splits)
  from k have key: "get_dex_id a b = Inr (Dex k)" "get_dex_id b a = Inr (Dex k)"
    by (simp_all add: get_dex_id_def PairKey_try_from_sym [of b a])
  have other: "get_dex_id c d \<noteq> Inr (Dex k)" if "{c, d} \<noteq> {a, b}" for c d
    using that PairKey_try_from_same [OF k, of c d] by (auto simp: get_dex_id_def split: option.splits)
  have shares: "get_account_shares y q s' = (if y = who \<and> q = Dex k then n else get_account_shares y q s)" for y q
    using rp.add_shares [OF add] by simp
  have "inc_get_account_shares y c d s' = inc_get_account_shares y c d s" if "y \<noteq> who \<or> {c, d} \<noteq> {a, b}" for y c d
    using that other [of c d] by (auto simp: inc_get_account_shares_def shares split: sum.splits)
  moreover have "a \<noteq> b" using k by (simp add: pair_key_iff)
  moreover have "n = inc_get_account_shares who a b s + x"
    using rp.add_shares [OF add] by (simp add: inc_get_account_shares_def key)
  ultimately show ?thesis by (simp add: inc_get_account_shares_def key shares)
qed

text \<open>C35. The rewards of a pool do not depend on how often its books are updated: an update at a block in
  between leads to the same books, and the two deposits add up to one.\<close>

theorem updates_add_up:
  assumes "handled_by R st" and "caculate_reward (st w) p (total_shares i) (last_update_block i) n < u128_max"
    and "last_update_block i \<le> m" and "m \<le> n"
    and "calc_pool_reward_at_block R p i n w = Inr (i', r)"
  shows "\<exists>j a b. calc_pool_reward_at_block R p i m w = Inr (j, a) \<and>
    calc_pool_reward_at_block R p j n w = Inr (i', b) \<and> r = a + b"
  by (rule ih.update_in_between [OF _ assms(2-5)]) (use assms(1) in \<open>simp add: handled_by_def\<close>)

subsection \<open>A sample\<close>

definition sample_incentives :: incentives where
  "sample_incentives = \<lparr>DexIncentiveRewards = [Dex \<lparr>left = CLV, right = DOT\<rparr> \<mapsto> 10]\<rparr>"

definition sample_IR :: "(PoolId, incentives) reward_pool_config" where
  "sample_IR =
     \<lparr>R_from_rational = (\<lambda>n d. if d = 0 then None else Some (n * 10 ^ 18 div d)),
      R_mul_int = (\<lambda>x n. Some (x * n div 10 ^ 18)),
      R_caculate_reward = (\<lambda>p sh l n w. caculate_reward w p sh l n),
      R_sub_account = (\<lambda>p. 100), R_update_balance = (\<lambda>a x w. (True, w)),
      R_transfer = (\<lambda>a b x w. (True, w)), R_ExistentialReward = 1,
      R_block_number = (\<lambda>w. 4), R_iter_pools = (\<lambda>m. [])\<rparr>"

definition sample_inc_pool :: "(PoolId, incentives) reward_pool" where
  "sample_inc_pool = \<lparr>Pools = Map.empty, PoolAccountData = (\<lambda>p. Map.empty), pool_world = sample_incentives\<rparr>"

theorem incentive_shares_by_pair_witness:
  "inc_get_account_shares 7 CLV DOT (snd (inc_add_share sample_IR 7 DOT CLV 5 sample_inc_pool)) = 5"
proof -
  have "inc_add_share sample_IR 7 DOT CLV 5 sample_inc_pool =
      (Inr 5, snd (inc_add_share sample_IR 7 DOT CLV 5 sample_inc_pool))"
    by (simp add: inc_add_share_def pair_key_iff PairKey_try_from_def less_CurrencyId_def pool_result_def pool_op_defs
        sample_IR_def sample_inc_pool_def sample_incentives_def caculate_reward_def u128_max_def)
  from incentive_shares_by_pair [OF this] show ?thesis by blast
qed

theorem updates_add_up_witness:
  "\<exists>j i' a b. calc_pool_reward_at_block sample_IR (Dex \<lparr>left = CLV, right = DOT\<rparr>)
      \<lparr>total_shares = 5, total_rewards = 0, total_rewards_useable = 0, last_update_block = 1\<rparr> 3 sample_incentives = Inr (j, a) \<and>
    calc_pool_reward_at_block sample_IR (Dex \<lparr>left = CLV, right = DOT\<rparr>) j 7 sample_incentives = Inr (i', b) \<and> a + b = 60"
proof -
  let ?p = "Dex \<lparr>left = CLV, right = DOT\<rparr>"
  let ?i = "\<lparr>total_shares = 5, total_rewards = 0, total_rewards_useable = 0, last_update_block = 1\<rparr>"
  let ?j = "\<lparr>total_shares = 5, total_rewards = 60, total_rewards_useable = 60, last_update_block = 7\<rparr>"
  have r: "caculate_reward sample_incentives ?p 5 1 7 = 60"
    by (simp add: caculate_reward_def sample_incentives_def sat_mul_def u128_max_def)
  then have c: "calc_pool_reward_at_block sample_IR ?p ?i 7 sample_incentives = Inr (?j, 60)"
    by (simp add: calc_pool_reward_at_block_def sample_IR_def checked_add_def u128_max_def)
  have h: "handled_by sample_IR (\<lambda>w. w)" by (simp add: handled_by_def sample_IR_def)
  have "\<exists>j a b. calc_pool_reward_at_block sample_IR ?p ?i 3 sample_incentives = Inr (j, a) \<and>
      calc_pool_reward_at_block sample_IR ?p j 7 sample_incentives = Inr (?j, b) \<and> 60 = a + b"
    by (rule updates_add_up [OF h _ _ _ c]) (use r in \<open>simp_all add: u128_max_def\<close>)
  then show ?thesis by metis
qed

end
