(* ===== verification/Rpc.thy ===== *)
theory Rpc
  imports Incentives
begin

section \<open>The RPC servers\<close>

text \<open>
  The servers of \<^verbatim>\<open>rpc/src\<close> ask a runtime interface at a block, the best one if the request names none, and
  turn balances into text. A runtime interface is a function from the hash of a block to an error or a
  result; \<open>debug\<close> prints its error and \<open>display\<close> a balance or a share. A handler either answers, with an
  error or a result, or panics (\<^term>\<open>None\<close>): two of them unwrap the answer of the runtime.
\<close>

datatype rpc_failure = RuntimeError

fun failure_code :: "rpc_failure \<Rightarrow> int" where
  "failure_code RuntimeError = 1"

record rpc_error =
  re_code :: int
  re_message :: string
  re_data :: "string option"

type_synonym 'a answer = "(rpc_error + 'a) option"

definition at_block :: "'h \<Rightarrow> 'h option \<Rightarrow> 'h" where
  "at_block best_hash at = (case at of None \<Rightarrow> best_hash | Some h \<Rightarrow> h)"

definition runtime_error :: "('e \<Rightarrow> string) \<Rightarrow> 'e \<Rightarrow> rpc_error" where
  "runtime_error debug e =
     \<lparr>re_code = failure_code RuntimeError, re_message = ''Unable to get value.'', re_data = Some (debug e)\<rparr>"

fun map_answer :: "('e \<Rightarrow> string) \<Rightarrow> ('a \<Rightarrow> 'b) \<Rightarrow> 'e + 'a \<Rightarrow> rpc_error + 'b" where
  "map_answer debug f (Inl e) = Inl (runtime_error debug e)"
| "map_answer debug f (Inr x) = Inr (f x)"

fun unwrap :: "'e + 'a \<Rightarrow> 'a option" where
  "unwrap (Inl e) = None"
| "unwrap (Inr x) = Some x"

subsection \<open>Handlers\<close>

record 'c exchange_info =
  xi_balance :: string
  xi_routes :: "'c list"

definition target_amount_available ::
  "('e \<Rightarrow> string) \<Rightarrow> ('b \<Rightarrow> string) \<Rightarrow> ('h \<Rightarrow> 'c \<Rightarrow> 'c \<Rightarrow> 'b \<Rightarrow> 'e + ('b \<times> 'c list)) \<Rightarrow> 'h \<Rightarrow>
     'c \<Rightarrow> 'c \<Rightarrow> 'b \<Rightarrow> 'h option \<Rightarrow> 'c exchange_info answer" where
  "target_amount_available debug display api best_hash source target amount at =
     Some (map_answer debug (\<lambda>(b, r). \<lparr>xi_balance = display b, xi_routes = r\<rparr>)
       (api (at_block best_hash at) source target amount))"

definition supply_amount_needed ::
  "('e \<Rightarrow> string) \<Rightarrow> ('b \<Rightarrow> string) \<Rightarrow> ('h \<Rightarrow> 'c \<Rightarrow> 'c \<Rightarrow> 'b \<Rightarrow> 'e + ('b \<times> 'c list)) \<Rightarrow> 'h \<Rightarrow>
     'c \<Rightarrow> 'c \<Rightarrow> 'b \<Rightarrow> 'h option \<Rightarrow> 'c exchange_info answer" where
  "supply_amount_needed debug display api best_hash source target amount at =
     Some (map_answer debug (\<lambda>(b, r). \<lparr>xi_balance = display b, xi_routes = r\<rparr>)
       (api (at_block best_hash at) source target amount))"

definition get_liquidity ::
  "('e \<Rightarrow> string) \<Rightarrow> ('b \<Rightarrow> string) \<Rightarrow> ('s \<Rightarrow> string) \<Rightarrow>
     ('h \<Rightarrow> 'a option \<Rightarrow> 'e + ('c \<times> 'c \<times> 'b \<times> 'b \<times> 's \<times> 's \<times> 's) list) \<Rightarrow> 'h \<Rightarrow>
     'a option \<Rightarrow> 'h option \<Rightarrow> ('c \<times> 'c \<times> string \<times> string \<times> string \<times> string \<times> string) list answer" where
  "get_liquidity debug display display_share api best_hash account at =
     map_option (\<lambda>info. Inr (map (\<lambda>(c1, c2, b1, b2, s1, s2, s3).
         (c1, c2, display b1, display b2, display_share s1, display_share s2, display_share s3)) info))
       (unwrap (map_answer debug id (api (at_block best_hash at) account)))"

definition get_exchange_rate ::
  "('e \<Rightarrow> string) \<Rightarrow> ('h \<Rightarrow> 'e + 'r) \<Rightarrow> 'h \<Rightarrow> 'h option \<Rightarrow> 'r answer" where
  "get_exchange_rate debug api best_hash at = Some (map_answer debug id (api (at_block best_hash at)))"

definition to_add_liquidity ::
  "('e \<Rightarrow> string) \<Rightarrow> ('b \<Rightarrow> string) \<Rightarrow> ('h \<Rightarrow> 'c \<Rightarrow> 'c \<Rightarrow> 'b \<Rightarrow> 'b \<Rightarrow> 'e + ('b \<times> 'b)) \<Rightarrow> 'h \<Rightarrow>
     'c \<Rightarrow> 'c \<Rightarrow> 'b \<Rightarrow> 'b \<Rightarrow> 'h option \<Rightarrow> (string \<times> string) answer" where
  "to_add_liquidity debug display api best_hash source target source_amount target_amount at =
     Some (map_answer debug (\<lambda>(s1, s2). (display s1, display s2))
       (api (at_block best_hash at) source target source_amount target_amount))"

definition get_account_staking_info ::
  "('e \<Rightarrow> string) \<Rightarrow> ('s \<Rightarrow> string) \<Rightarrow> ('h \<Rightarrow> 'a \<Rightarrow> 'c \<Rightarrow> 'c \<Rightarrow> 'e + ('s \<times> 's)) \<Rightarrow> 'h \<Rightarrow>
     'a \<Rightarrow> 'c \<Rightarrow> 'c \<Rightarrow> 'h option \<Rightarrow> (string \<times> string) answer" where
  "get_account_staking_info debug display api best_hash account currency_left currency_right at =
     Some (map_answer debug (\<lambda>(s1, s2). (display s1, display s2))
       (api (at_block best_hash at) account currency_left currency_right))"

definition account_balance ::
  "('e \<Rightarrow> string) \<Rightarrow> ('b \<Rightarrow> string) \<Rightarrow> ('h \<Rightarrow> 'a \<Rightarrow> 'c option \<Rightarrow> 'e + ('c \<times> 'b) list) \<Rightarrow> 'h \<Rightarrow>
     'a \<Rightarrow> 'c option \<Rightarrow> 'h option \<Rightarrow> ('c \<times> string) list answer" where
  "account_balance debug display api best_hash account currency_id at =
     map_option (\<lambda>balances. Inr (map (\<lambda>(cid, balance). (cid, display balance)) balances))
       (unwrap (map_answer debug id (api (at_block best_hash at) account currency_id)))"

definition rpc_get_all_incentive_pools ::
  "('e \<Rightarrow> string) \<Rightarrow> ('s \<Rightarrow> string) \<Rightarrow> ('b \<Rightarrow> string) \<Rightarrow> ('h \<Rightarrow> 'e + ('c \<times> 'c \<times> 's \<times> 'b) list) \<Rightarrow> 'h \<Rightarrow>
     'h option \<Rightarrow> ('c \<times> 'c \<times> string \<times> string) list answer" where
  "rpc_get_all_incentive_pools debug display_share display api best_hash at =
     Some (map_answer debug (map (\<lambda>(c1, c2, share, balance). (c1, c2, display_share share, display balance)))
       (api (at_block best_hash at)))"

definition currency_pair ::
  "('e \<Rightarrow> string) \<Rightarrow> ('h \<Rightarrow> 'e + (CurrencyId \<times> CurrencyId) list) \<Rightarrow> 'h \<Rightarrow> 'h option \<Rightarrow>
     (CurrencyId \<times> CurrencyId) list answer" where
  "currency_pair debug api best_hash at = Some (map_answer debug id (api (at_block best_hash at)))"

text \<open>The currencies in the order of their declaration, with the number and the name of each.\<close>

fun currency_name :: "CurrencyId \<Rightarrow> string" where
  "currency_name CLV = ''CLV''"
| "currency_name CUSDT = ''CUSDT''"
| "currency_name DOT = ''DOT''"
| "currency_name CETH = ''CETH''"

definition get_currencies :: "(u32 \<times> string) list answer" where
  "get_currencies = Some (Inr (map (\<lambda>item. (currency_index item, currency_name item)) [CLV, CUSDT, DOT, CETH]))"

subsection \<open>Errors of the runtime\<close>

text \<open>Where the runtime interface fails, most handlers answer with the error and its text; asking for the
  liquidity or a balance panics instead.\<close>

lemma runtime_failure_answered:
  "api (at_block best at) source target amount = Inl e \<Longrightarrow>
    target_amount_available debug display api best source target amount at = Some (Inl (runtime_error debug e))"
  "api (at_block best at) source target amount = Inl e \<Longrightarrow>
    supply_amount_needed debug display api best source target amount at = Some (Inl (runtime_error debug e))"
  "api' (at_block best at) = Inl e \<Longrightarrow> get_exchange_rate debug api' best at = Some (Inl (runtime_error debug e))"
  "api'' (at_block best at) = Inl e \<Longrightarrow>
    rpc_get_all_incentive_pools debug show display' api'' best at = Some (Inl (runtime_error debug e))"
  by (simp_all add: target_amount_available_def supply_amount_needed_def get_exchange_rate_def
      rpc_get_all_incentive_pools_def)

lemma runtime_failure_panics:
  "get_liquidity debug display show api best account at = None \<longleftrightarrow> isl (api (at_block best at) account)"
  "account_balance debug display api' best who currency at = None \<longleftrightarrow> isl (api' (at_block best at) who currency)"
  by (cases "api (at_block best at) account"; simp add: get_liquidity_def)
    (cases "api' (at_block best at) who currency"; simp add: account_balance_def)

text \<open>Every currency is listed once, under its own number.\<close>

lemma currencies_listed:
  "get_currencies = Some (Inr cs) \<Longrightarrow> distinct (map fst cs) \<and> (currency_index c, currency_name c) \<in> set cs"
  by (cases c) (auto simp: get_currencies_def)

end
