(* ===== verification/Staking_Exposures.thy ===== *)
theory Staking_Exposures
  imports Staking_Invariants Staking_Weights
begin

section \<open>Staking: the exposures and the queues of unlocking chunks\<close>

text \<open>
  Two facts of every reachable state of the staking pallet on which the weight of its calls rests:
  the clipped exposures are the stored exposures cut to their largest nominators, and no ledger has
  more unlocking chunks than \<^verbatim>\<open>MaxUnlockingChunks\<close>.
\<close>

subsection \<open>Steps that store no exposure and lengthen no queue beyond the bound\<close>

definition chunks_within :: "'w staking \<Rightarrow> StakingLedger \<Rightarrow> bool" where
  "chunks_within s l' \<longleftrightarrow> length (sl_unlocking l') \<le> MaxUnlockingChunks \<or>
     (\<exists>c l. Ledger s c = Some l \<and> length (sl_unlocking l') \<le> length (sl_unlocking l))"

definition same_exposures :: "'w staking \<Rightarrow> 'w staking \<Rightarrow> bool" where
  "same_exposures s s' \<longleftrightarrow>
     ErasStakers s' = ErasStakers s \<and> ErasStakersClipped s' = ErasStakersClipped s \<and>
     (\<forall>l' \<in> ran (Ledger s'). chunks_within s l')"

lemma chunks_within_own: "Ledger s c = Some l \<Longrightarrow> chunks_within s l"
  by (auto simp: chunks_within_def)

lemma chunks_within_le:
  "chunks_within s l \<Longrightarrow> length (sl_unlocking l') \<le> length (sl_unlocking l) \<Longrightarrow> chunks_within s l'"
  by (auto simp: chunks_within_def intro: order_trans)

lemma chunks_within_shrunk:
  "Ledger s c = Some l \<Longrightarrow> length (sl_unlocking l') \<le> length (sl_unlocking l) \<Longrightarrow> chunks_within s l'"
  by (rule chunks_within_le [OF chunks_within_own])

lemma same_exposuresI:
  assumes "ErasStakers s' = ErasStakers s" and "ErasStakersClipped s' = ErasStakersClipped s"
    and "Ledger s' = Ledger s"
  shows "same_exposures s s'"
  using assms by (auto simp: same_exposures_def ran_def intro: chunks_within_own)

lemma same_exposures_refl [simp]: "same_exposures s s"
  by (rule same_exposuresI) simp_all

lemma same_exposures_trans:
  assumes "same_exposures s s1" and "same_exposures s1 s2"
  shows "same_exposures s s2"
proof -
  have "chunks_within s l2" if "l2 \<in> ran (Ledger s2)" for l2
  proof -
    from that assms(2) have "chunks_within s1 l2" by (simp add: same_exposures_def)
    then consider "length (sl_unlocking l2) \<le> MaxUnlockingChunks"
      | c l where "Ledger s1 c = Some l" "length (sl_unlocking l2) \<le> length (sl_unlocking l)"
      unfolding chunks_within_def by blast
    then show ?thesis
    proof cases
      case 1
      then show ?thesis by (simp add: chunks_within_def)
    next
      case 2
      from 2(1) have "l \<in> ran (Ledger s1)" by (rule ranI)
      with assms(1) have "chunks_within s l" by (simp add: same_exposures_def)
      then show ?thesis using 2(2) by (rule chunks_within_le)
    qed
  qed
  with assms show ?thesis by (simp add: same_exposures_def)
qed

lemma same_exposures_foldl:
  "(\<And>st x. same_exposures st (f st x)) \<Longrightarrow> same_exposures s (foldl f s xs)"
proof (induction xs arbitrary: s)
  case (Cons x xs)
  from same_exposures_trans [OF Cons.prems Cons.IH] Cons.prems show ?case by simp
qed simp

lemma same_exposures_via:
  assumes "same_exposures s s1" and "ErasStakers s' = ErasStakers s1"
    and "ErasStakersClipped s' = ErasStakersClipped s1" and "Ledger s' = Ledger s1"
  shows "same_exposures s s'"
  using assms by (intro same_exposures_trans [OF assms(1)] same_exposuresI)

text \<open>A step that writes one ledger.\<close>

lemma same_exposures_ledger:
  assumes "Ledger s' = (Ledger s)(c \<mapsto> l')" and "chunks_within s l'"
    and "ErasStakers s' = ErasStakers s" and "ErasStakersClipped s' = ErasStakersClipped s"
  shows "same_exposures s s'"
  using assms by (auto simp: same_exposures_def ran_def intro: chunks_within_own)

lemma same_exposures_dropped:
  assumes "Ledger s' = (Ledger s)(c := None)"
    and "ErasStakers s' = ErasStakers s" and "ErasStakersClipped s' = ErasStakersClipped s"
  shows "same_exposures s s'"
  using assms by (auto simp: same_exposures_def ran_def intro: chunks_within_own split: if_splits)

lemma same_exposures_basic:
  "same_exposures s (set_world w s)" "same_exposures s (deposit_event e s)"
  "same_exposures s (ensure_new_era s)" "same_exposures s (report_weight T stash s)"
  "same_exposures s (chill_stash T stash s)"
  by (auto intro!: same_exposuresI simp: report_weight_def)

subsection \<open>Slashes\<close>

lemma length_slash_chunks:
  "slash_chunks f is cs r t m = (cs', t', m') \<Longrightarrow> length cs' = length cs"
  by (induction f "is" cs r t m rule: slash_chunks.induct)
    (auto simp: Let_def split: if_splits prod.splits)

lemma ledger_slash_length:
  assumes "ledger_slash P bd h l sa mb era w = (slashed, l', w')"
  shows "length (sl_unlocking l') \<le> length (sl_unlocking l)"
  using assms length_slash_chunks
  by (fastforce simp: ledger_slash_def Let_def split: if_splits prod.splits
      intro: order_trans [OF length_filter_le])

lemma same_exposures_do_slash:
  assumes "do_slash T stash v p i era s = (p', i', s')"
  shows "same_exposures s s'"
  using assms
proof (cases rule: do_slash_cases)
  case nothing
  with do_slash_frame [OF assms] show ?thesis by (intro same_exposuresI)
next
  case (slashed c l v' l' w1 w2 imb missing)
  with do_slash_frame [OF assms] ledger_slash_length [OF slashed(4)] show ?thesis
    by (intro same_exposures_ledger [OF slashed(8)] chunks_within_shrunk [OF slashed(2)])
qed

lemma same_exposures_apply_slash: "same_exposures s (apply_slash T u era s)"
proof -
  have more: "do_slash_others T xs p i era s = (p', i', s') \<Longrightarrow> same_exposures s s'"
    for xs p i p' i' and s s' :: "'a staking"
  proof (induction xs arbitrary: p i s)
    case (Cons x xs)
    obtain who v where x: "x = (who, v)" by (cases x)
    obtain p1 i1 s1 where d: "do_slash T who v p i era s = (p1, i1, s1)" using prod_cases3 by blast
    with Cons x show ?case by (auto intro: same_exposures_trans [OF same_exposures_do_slash [OF d]])
  qed simp
  obtain p1 i1 s1 where 1: "do_slash T (us_validator u) (us_own u) (us_payout u) 0 era s = (p1, i1, s1)"
    using prod_cases3 by blast
  obtain p2 i2 s2 where 2: "do_slash_others T (us_others u) p1 i1 era s1 = (p2, i2, s2)"
    using prod_cases3 by blast
  have "same_exposures s s2" by (rule same_exposures_trans [OF same_exposures_do_slash [OF 1] more [OF 2]])
  then show ?thesis by (rule same_exposures_via) (simp_all add: apply_slash_def 1 2)
qed

lemma same_exposures_apply_unapplied: "same_exposures s (apply_unapplied_slashes T active s)"
proof -
  have 1: "same_exposures s (apply_slashes T era us s)" for era us and s :: "'a staking"
    unfolding apply_slashes_def by (rule same_exposures_foldl) (rule same_exposures_apply_slash)
  have 2: "same_exposures s (apply_era_slashes T s era)" for era and s :: "'a staking"
    unfolding apply_era_slashes_def by (rule same_exposures_trans [OF _ 1]) (rule same_exposuresI; simp)
  have 3: "same_exposures s (foldl (apply_era_slashes T) s eras)" for eras
    by (rule same_exposures_foldl) (rule 2)
  show ?thesis
    by (auto simp: apply_unapplied_slashes_def Let_def intro: same_exposures_via [OF 3] split: option.splits)
qed

subsection \<open>The calls\<close>

lemma same_exposures_bond: "same_exposures s (snd (bond T o1 c v p s))"
proof -
  have "chunks_within s \<lparr>sl_stash = a, sl_total = b, sl_active = b, sl_unlocking = [], sl_claimed_rewards = cl\<rparr>"
    for a b cl by (simp add: chunks_within_def)
  then show ?thesis
    by (auto simp: bond_def Let_def intro: same_exposuresI same_exposures_ledger
        split: option.splits prod.splits bool.splits)
qed

lemma same_exposures_bond_extra: "same_exposures s (snd (bond_extra T o1 x s))"
  by (auto simp: bond_extra_def Let_def intro!: same_exposures_ledger [where s = s] intro: chunks_within_shrunk
      split: option.splits)

lemma push_chunk_length: "push_chunk cs v era = Some cs' \<Longrightarrow> length cs' \<le> max (length cs) MaxUnlockingChunks"
  by (auto simp: push_chunk_def split: if_splits)

lemma same_exposures_unbond: "same_exposures s (snd (unbond T o1 x s))"
proof -
  have "chunks_within s (l\<lparr>sl_active := a, sl_unlocking := cs'\<rparr>)"
    if "Ledger s c = Some l" "push_chunk (sl_unlocking l) v era = Some cs'" for c l a v era cs'
    using that push_chunk_length [OF that(2)] by (force simp: chunks_within_def max_def split: if_splits)
  then show ?thesis
    by (auto simp: unbond_def Let_def report_weight_def intro!: same_exposures_ledger [where s = s]
        split: option.splits)
qed

lemma same_exposures_rebond: "same_exposures s (snd (rebond T o1 x s))"
proof -
  have "chunks_within s l'" if "Ledger s c = Some l" "ledger_rebond l v = (l', r)" for c l l' v r
    using chunks_within_shrunk [OF that(1)] prefix_length_le [OF ledger_rebond_prefix [OF that(2)]] by simp
  then show ?thesis
    by (auto simp: rebond_def Let_def report_weight_def intro!: same_exposures_ledger [where s = s] 
        split: option.splits prod.splits)
qed

lemma kill_stash_stores:
  assumes "kill_stash T stash n s = (r, s')"
  shows "ErasStakers s' = ErasStakers s" "ErasStakersClipped s' = ErasStakersClipped s"
    "Ledger s' = Ledger s \<or> (\<exists>c. Ledger s' = (Ledger s)(c := None))"
  using assms
  by (auto simp: kill_stash_def clear_stash_metadata_def remove_span_slashes_def Let_def do_remove_writes
      split: option.splits sum.splits if_splits prod.splits)

lemma same_exposures_kill_stash: "kill_stash T stash n s = (r, s') \<Longrightarrow> same_exposures s s'"
  using kill_stash_stores [of T stash n s r s']
  by (auto intro: same_exposuresI same_exposures_dropped)

lemma same_exposures_withdraw_unbonded: "same_exposures s (snd (withdraw_unbonded T o1 n s))"
proof (cases "\<exists>c l. o1 = Signed c \<and> Ledger s c = Some l")
  case False
  then show ?thesis by (cases o1) (auto simp: withdraw_unbonded_def split: option.splits)
next
  case True
  then obtain c l0 where c: "o1 = Signed c" "Ledger s c = Some l0" by blast
  define l where "l = (case CurrentEra s of None \<Rightarrow> l0 | Some e \<Rightarrow> consolidate_unlocked l0 e)"
  obtain r st where k: "kill_stash T (sl_stash l0) n s = (r, st)" by fastforce
  have killed: "same_exposures s st" by (rule same_exposures_kill_stash [OF k])
  have "length (sl_unlocking l) \<le> length (sl_unlocking l0)"
    by (auto simp: l_def consolidate_unlocked_eq split: option.splits)
  then have updated: "same_exposures s (update_ledger T c l s)"
    by (intro same_exposures_ledger [OF _ chunks_within_shrunk [OF c(2)]]) simp_all
  show ?thesis
    using c k by (cases r)
      (auto simp: withdraw_unbonded_def l_def [symmetric] Let_def
        intro: same_exposures_via [OF killed] same_exposures_via [OF updated])
qed

lemma same_exposures_set_controller: "same_exposures s (snd (set_controller T o1 x s))"
proof -
  have "same_exposures s (s\<lparr>Bonded := b, Ledger := (Ledger s)(old := None, new \<mapsto> l)\<rparr>)"
    if "Ledger s old = Some l" for b old new l
    using that by (auto simp: same_exposures_def ran_def intro: chunks_within_own split: if_splits)
  then show ?thesis
    by (auto simp: set_controller_def Let_def intro: same_exposuresI split: option.splits)
qed

lemma same_exposures_kill_and_unlock: "same_exposures s (snd (kill_and_unlock T stash n s))"
proof -
  obtain r st where k: "kill_stash T stash n s = (r, st)" by fastforce
  then show ?thesis
    by (cases r) (auto simp: kill_and_unlock_def intro: same_exposures_via [OF same_exposures_kill_stash [OF k]])
qed

lemma same_exposures_roles:
  "same_exposures s (snd (validate T o1 prefs s))" "same_exposures s (snd (nominate T o1 targets s))"
  "same_exposures s (snd (chill T o1 s))" "same_exposures s (snd (chill_other T o1 c s))"
  by (auto simp: validate_def nominate_def chill_def chill_other_def Let_def intro!: same_exposuresI
      split: option.splits sum.splits)

lemma same_exposures_removal:
  "same_exposures s (snd (force_unstake T o1 stash n s))" "same_exposures s (snd (reap_stash T o1 stash n s))"
  by (auto simp: force_unstake_def reap_stash_def Let_def same_exposures_kill_and_unlock split: option.splits)

lemma same_exposures_parameters:
  "same_exposures s (snd (set_payee o1 p s))"
  "same_exposures s (snd (set_validator_count o1 n s))"
  "same_exposures s (snd (increase_validator_count o1 n s))"
  "same_exposures s (snd (scale_validator_count T o1 f s))"
  "same_exposures s (snd (force_no_eras o1 s))"
  "same_exposures s (snd (force_new_era o1 s))"
  "same_exposures s (snd (force_new_era_always o1 s))"
  "same_exposures s (snd (set_invulnerables o1 vs s))"
  "same_exposures s (snd (set_staking_configs o1 a b c d e f' s))"
  "same_exposures s (snd (force_apply_min_commission o1 stash s))"
  "same_exposures s (snd (cancel_deferred_slash T o1 era idxs s))"
  "same_exposures s (on_finalize T s)"
  "same_exposures s (reward_by_ids vps s)"
  by (auto simp: set_payee_def set_validator_count_def increase_validator_count_def
      scale_validator_count_def force_no_eras_def force_new_era_def force_new_era_always_def
      set_invulnerables_def set_staking_configs_def force_apply_min_commission_def
      cancel_deferred_slash_def on_finalize_def reward_by_ids_def Let_def intro!: same_exposuresI
      split: option.splits)

lemma same_exposures_kick: "same_exposures s (snd (kick T o1 who s))"
proof -
  have one: "same_exposures s (kick_one stash s n)" for stash n and s :: "'a staking"
    by (auto simp: kick_one_def intro!: same_exposuresI split: option.splits)
  have "same_exposures s (foldl (kick_one stash) s ns)" for stash ns
    by (rule same_exposures_foldl) (rule one)
  then show ?thesis by (auto simp: kick_def split: option.splits)
qed

subsection \<open>Payouts\<close>

lemma same_exposures_make_payout: "same_exposures s (snd (make_payout T stash amount s))"
proof -
  have staked: "same_exposures s (update_ledger T c (l\<lparr>sl_active := a, sl_total := t\<rparr>) (set_world w s))"
    if "Ledger s c = Some l" for c l a t w
    by (rule same_exposures_ledger [OF _ chunks_within_shrunk [OF that]]) simp+
  show ?thesis
    by (cases "payee s stash")
      (auto simp: make_payout_def Let_def same_exposures_basic staked split: option.splits prod.splits)
qed

lemma same_exposures_pay_staker: "same_exposures s (snd (snd (pay_staker T stash amount (x, n, s))))"
proof -
  obtain r s1 where m: "make_payout T stash amount s = (r, s1)" by fastforce
  with same_exposures_make_payout [of s T stash amount] have "same_exposures s s1" by simp
  with m show ?thesis by (auto simp: pay_staker_def intro: same_exposures_via [of s s1] split: option.splits)
qed

lemma same_exposures_pay_stakers:
  "foldl (\<lambda>acc n. pay_staker T (f n) (g n) acc) (x, n, s) ns = (x', n', s') \<Longrightarrow> same_exposures s s'"
proof (induction ns arbitrary: x n s)
  case (Cons y ns)
  obtain x1 n1 s1 where p: "pay_staker T (f y) (g y) (x, n, s) = (x1, n1, s1)"
    using prod_cases3 by blast
  with Cons.prems have "foldl (\<lambda>acc n. pay_staker T (f n) (g n) acc) (x1, n1, s1) ns = (x', n', s')"
    by simp
  from same_exposures_trans [OF _ Cons.IH [OF this]] same_exposures_pay_staker [of s T "f y" "g y" x n] p
  show ?case by simp
qed simp

lemma same_exposures_pay_exposure:
  assumes "pay_exposure T stash exposure cp lp s = (x', n', s')"
  shows "same_exposures s s'"
proof -
  let ?a = "add_u128 (perbill_mul (T_perthings T)
      (perbill_from_rational (T_perthings T) (ex_own exposure) (ex_total exposure)) lp) cp"
  obtain x1 n1 s1 where p: "pay_staker T stash ?a (0, 0, s) = (x1, n1, s1)" using prod_cases3 by blast
  with same_exposures_pay_staker [of s T stash ?a 0 0] have 1: "same_exposures s s1" by simp
  from assms p have "same_exposures s1 s'"
    unfolding pay_exposure_def Let_def by (auto intro: same_exposures_pay_stakers)
  with 1 show ?thesis by (rule same_exposures_trans)
qed

lemma same_exposures_payout_pay:
  assumes "chunks_within s l"
  shows "same_exposures s (snd (payout_pay T v era ep c l s))"
proof -
  let ?s1 = "s\<lparr>Ledger := (Ledger s)(c \<mapsto> l)\<rparr>"
  have 1: "same_exposures s ?s1" by (rule same_exposures_ledger [of _ s c l]) (simp_all add: assms)
  have 2: "same_exposures s s'"
    if "pay_exposure T st e cp lp (deposit_event ev ?s1) = (x, n, s3)"
      and "s' = set_world w s3 \<or> s' = update_not_claimed_reward era x (set_world w s3)"
    for st e cp lp ev x n s3 s' w
  proof -
    have "same_exposures s (deposit_event ev ?s1)" by (rule same_exposures_via [OF 1]) simp_all
    from same_exposures_trans [OF this same_exposures_pay_exposure [OF that(1)]]
    show ?thesis by (rule same_exposures_via)
      (use that(2) in \<open>auto simp: update_not_claimed_reward_def split: option.splits\<close>)
  qed
  show ?thesis
  proof (cases "snd (payout_pay T v era ep c l s) = ?s1")
    case True
    with 1 show ?thesis by simp
  next
    case False
    obtain cp lp where cl: "validator_leftover_payout (T_perthings T)
        (vp_commission (eras_validator_prefs ?s1 era v))
        (perbill_mul (T_perthings T) (perbill_from_rational (T_perthings T)
            (case erp_individual (eras_reward_points ?s1 era) (sl_stash l) of None \<Rightarrow> 0 | Some p \<Rightarrow> p)
            (erp_total (eras_reward_points ?s1 era))) ep) = (cp, lp)"
      by fastforce
    obtain x n s3 where pe: "pay_exposure T (sl_stash l) (eras_stakers_clipped s era (sl_stash l)) cp lp
        (deposit_event (PayoutStarted era (sl_stash l)) ?s1) = (x, n, s3)" using prod_cases3 by blast
    obtain b w where st: "cur_settle (T_currency T) (T_fund_account T) x KeepAlive (world s3) = (b, w)"
      by fastforce
    show ?thesis
      using False cl pe st
      by (intro 2 [OF pe, of _ "if b then w else cur_drop_positive (T_currency T) x w"])
        (cases b; simp add: payout_pay_def Let_def split: if_splits)
  qed
qed

lemma same_exposures_payout_stakers: "same_exposures s (snd (payout_stakers T o1 v era s))"
proof -
  have "same_exposures s (snd (payout_pay T v era ep c l s))" if ch: "payout_checks v era s = Inr (ep, c, l)" for ep c l
  proof -
    from ch obtain l0 where "Ledger s c = Some l0" "sl_unlocking l = sl_unlocking l0"
      by (rule payout_checks_Inr) simp
    then have "chunks_within s l" by (intro chunks_within_shrunk [of s c l0]; simp)
    then show ?thesis by (rule same_exposures_payout_pay)
  qed
  then show ?thesis
    by (auto simp: payout_stakers_def do_payout_stakers_def split: option.splits sum.splits)
qed

subsection \<open>Sessions and offences\<close>

lemma same_exposures_end_session: "same_exposures s (end_session T i s)"
  by (auto simp: end_session_def end_era_def Let_def intro: same_exposuresI split: option.splits)

lemma same_exposures_start_era: "same_exposures s (start_era T session s)"
proof -
  have "same_exposures s (foldl (\<lambda>st (e, _). clear_era_metadata e st) s xs)" for xs :: "(EraIndex \<times> SessionIndex) list"
    and s :: "'a staking"
    by (rule same_exposures_foldl) (auto simp: clear_era_metadata_def intro: same_exposuresI)
  from same_exposures_via [OF this]
  have "same_exposures s (push_bonded_era T n session s)" for n and s :: "'a staking"
    by (auto simp: push_bonded_era_def Let_def intro: same_exposuresI
        simp del: take_append drop_append foldl_append split: list.splits)
  then have "same_exposures s (push_bonded_era T n session (s\<lparr>ActiveEra := a\<rparr>))" for n a
    by (rule same_exposures_trans [rotated]) (auto intro: same_exposuresI)
  then show ?thesis
    unfolding start_era_def Let_def by (rule same_exposures_trans [OF _ same_exposures_apply_unapplied])
qed

lemma same_exposures_start_session: "same_exposures s (start_session T i s)"
proof -
  have dis: "same_exposures s (foldl (\<lambda>st (index, disabled).
      if disabled then set_world (T_disable_validator T index (world st)) st else st) s xs)"
    for xs and s :: "'a staking"
    by (rule same_exposures_foldl) (auto simp: same_exposures_basic split: prod.splits)
  show ?thesis unfolding start_session_def Let_def
    by (rule same_exposures_trans [OF _ dis]) (auto simp: same_exposures_start_era split: option.splits)
qed

lemma same_exposures_offending: "same_exposures s (add_offending_validator T stash d s)"
  by (rule same_exposuresI) (simp_all add: add_offending_validator_def Let_def split: option.splits sum.splits)

lemma same_exposures_slash_in_span:
  "slash_in_span T params stash slash payout ch s = (payout', amount, s') \<Longrightarrow> same_exposures s s'"
  using slash_in_span_frame [of T params stash slash payout ch s payout' amount s'] by (intro same_exposuresI) auto

lemma same_exposures_slash_nominators_loop:
  assumes "slash_nominators_loop T params p others payout acc s = (payout', acc', s')"
  shows "same_exposures s s'"
  using assms
proof (induction others arbitrary: payout acc s)
  case (Cons n others)
  let ?slash = "add_u128
      (case NominatorSlashInEra s (pm_slash_era params) (ie_who n) of None \<Rightarrow> 0 | Some v \<Rightarrow> v)
      (perbill_mul (T_perthings T) (pm_slash params) (ie_value n) -
       perbill_mul (T_perthings T) p (ie_value n))"
  let ?s1 = "s\<lparr>NominatorSlashInEra := (NominatorSlashInEra s)(pm_slash_era params :=
      (NominatorSlashInEra s (pm_slash_era params))(ie_who n \<mapsto> ?slash))\<rparr>"
  obtain payout1 amount s2 where
    st: "slash_in_span T params (ie_who n) ?slash payout False ?s1 = (payout1, amount, s2)"
    using prod_cases3 by blast
  have rest: "slash_nominators_loop T params p others payout1 (acc @ [(ie_who n, amount)]) s2 = (payout', acc', s')"
    using Cons.prems st by (simp add: Let_def)
  have "same_exposures s ?s1" by (rule same_exposuresI) simp_all
  from same_exposures_trans [OF this same_exposures_slash_in_span [OF st]] Cons.IH [OF rest]
  show ?case by (rule same_exposures_trans)
qed simp

lemma same_exposures_compute_slash:
  assumes "compute_slash T params s = (r, s')"
  shows "same_exposures s s'"
  using assms
proof (cases rule: compute_slash_cases)
  case zero
  let ?f = "fetch_spans (pm_stash params) (pm_window_start params) 0 0 (pm_reward_proportion params) s"
  have f: "same_exposures s (snd ?f)" by (rule same_exposuresI) (simp_all add: fetch_spans_eq)
  have "\<exists>i s2 d. kick_out_if_recent T params s =
      inspecting_drop i (add_offending_validator T (pm_stash params) d s2) \<and>
      (s2 = snd ?f \<or> s2 = chill_stash T (pm_stash params) (snd ?f))"
    by (cases "?f") (auto simp: kick_out_if_recent_def Let_def)
  then obtain i s2 d where k: "kick_out_if_recent T params s =
      inspecting_drop i (add_offending_validator T (pm_stash params) d s2)"
    "s2 = snd ?f \<or> s2 = chill_stash T (pm_stash params) (snd ?f)" by blast
  from k(2) f have "same_exposures s s2" by (auto intro: same_exposures_via [OF f])
  then have "same_exposures s (add_offending_validator T (pm_stash params) d s2)"
    by (rule same_exposures_trans [OF _ same_exposures_offending])
  then show ?thesis by (rule same_exposures_via) (simp_all add: zero(3) k(1))
next
  case not_max
  then show ?thesis by simp
next
  case (new_max own s1 payout amount s2 payout2 others)
  have "same_exposures s s1" by (rule same_exposuresI) (simp_all add: new_max(3))
  from same_exposures_trans [OF this same_exposures_slash_in_span [OF new_max(4)]]
  have "same_exposures s (add_offending_validator T (pm_stash params) (pm_disable_strategy params \<noteq> Never) s2)"
    by (rule same_exposures_trans [OF _ same_exposures_offending])
  from same_exposures_trans [OF this same_exposures_slash_nominators_loop [OF new_max(5) [unfolded slash_nominators_def]]]
  show ?thesis .
qed

lemma same_exposures_offence_one:
  "same_exposures (snd acc) (snd (offence_one T active slash_era rp ds invs acc x))"
proof -
  obtain consumed s where acc: "acc = (consumed, s)" by (cases acc)
  obtain details f where x: "x = (details, f)" by (cases x)
  obtain r s1 where c: "compute_slash T (offender_params T active slash_era rp ds details f) s = (r, s1)"
    by fastforce
  note 1 = same_exposures_compute_slash [OF c]
  have 2: "same_exposures s (apply_slash T u slash_era s1)" for u
    by (rule same_exposures_trans [OF 1 same_exposures_apply_slash])
  show ?thesis
    using acc x c by (auto simp: offence_one_def Let_def 1 2 intro: same_exposures_via [OF 1] split: option.splits)
qed

lemma same_exposures_on_offence: "same_exposures s (snd (on_offence T offenders fractions session ds s))"
proof -
  have loop: "same_exposures (snd acc) (snd (foldl (offence_one T a e rp ds invs) acc xs))"
    for a e rp invs acc xs
  proof (induction xs arbitrary: acc)
    case (Cons x xs)
    from same_exposures_trans [OF same_exposures_offence_one Cons.IH] show ?case by simp
  qed simp
  have 1: "same_exposures s (snd (foldl (offence_one T a e rp ds invs) (w, s) xs))" for a e rp invs w xs
    using loop [of "(w, s)"] by simp
  have 2: "same_exposures s (snd (foldl (offence_one T a e rp ds invs) (w, s\<lparr>EarliestUnappliedSlash := x\<rparr>) xs))" for a e rp invs w xs x
    by (rule same_exposures_trans [OF same_exposuresI loop [of "(w, s\<lparr>EarliestUnappliedSlash := x\<rparr>)", simplified]]) simp_all
  from 1 2 show ?thesis by (auto simp: on_offence_def Let_def split: option.splits)
qed

subsection \<open>The invariant\<close>

definition stores_ok :: "'w staking_config \<Rightarrow> 'w staking \<Rightarrow> bool" where
  "stores_ok T s \<longleftrightarrow>
     (\<forall>era v. ErasStakersClipped s era v =
        map_option (clip_exposure (T_MaxNominatorRewardedPerValidator T)) (ErasStakers s era v)) \<and>
     (\<forall>l \<in> ran (Ledger s). length (sl_unlocking l) \<le> MaxUnlockingChunks)"

lemma stores_same_exposures:
  assumes "same_exposures s s'" and "stores_ok T s"
  shows "stores_ok T s'"
proof -
  have "length (sl_unlocking l) \<le> MaxUnlockingChunks" if "chunks_within s l" for l
    using that assms(2) by (auto simp: chunks_within_def stores_ok_def ran_def intro: order_trans)
  with assms show ?thesis by (simp add: stores_ok_def same_exposures_def)
qed

lemma stores_clear_era: "stores_ok T s \<Longrightarrow> stores_ok T (clear_era_information era s)"
  by (simp add: stores_ok_def clear_era_information_def)

lemma stores_set_history_depth:
  assumes "stores_ok T s"
  shows "stores_ok T (snd (set_history_depth o1 n s))"
proof -
  have "stores_ok T (foldl (\<lambda>st e. clear_era_information e st) s xs)" for xs
    using assms by (induction xs arbitrary: s) (simp_all add: stores_clear_era)
  then have "stores_ok T ((foldl (\<lambda>st e. clear_era_information e st) s xs)\<lparr>HistoryDepth := n\<rparr>)" for xs
    by (simp add: stores_ok_def)
  with assms show ?thesis by (auto simp: set_history_depth_def Let_def split: option.splits)
qed

text \<open>Storing the exposures of an era writes the exposure and its clipped copy together.\<close>

lemma stores_store_exposures:
  assumes "stores_ok T s"
  shows "stores_ok T (snd (foldl (store_exposure T era) (tot, s) xs))"
  using assms
proof (induction xs arbitrary: tot s)
  case (Cons x xs)
  obtain t1 s1 where s1: "store_exposure T era (tot, s) x = (t1, s1)" by fastforce
  have "stores_ok T s1"
    using s1 Cons.prems by (auto simp: store_exposure_def stores_ok_def split: prod.splits)
  from Cons.IH [OF this] s1 show ?case by simp
qed simp

lemma stores_store_stakers_info:
  assumes "stores_ok T s"
  shows "stores_ok T (snd (store_stakers_info T xs era s))"
proof -
  obtain tot s1 where s1: "foldl (store_exposure T era) (0, s) xs = (tot, s1)" by fastforce
  have "stores_ok T s1" using stores_store_exposures [OF assms, of era 0 xs] s1 by simp
  then have 2: "stores_ok T (s1\<lparr>ErasTotalStake := m\<rparr>)" for m by (simp add: stores_ok_def)
  have "same_exposures st (foldl (\<lambda>st stash. st\<lparr>ErasValidatorPrefs := (ErasValidatorPrefs st)
      (era := (ErasValidatorPrefs st era)(stash \<mapsto> validator_prefs st stash))\<rparr>) st ys)"
    for ys and st :: "'a staking"
    by (rule same_exposures_foldl) (rule same_exposuresI; simp)
  from stores_same_exposures [OF this 2] s1 show ?thesis by (simp add: store_stakers_info_def Let_def)
qed

lemma stores_trigger_new_era:
  assumes "stores_ok T s"
  shows "stores_ok T (snd (trigger_new_era T i xs s))"
proof -
  have "stores_ok T (s\<lparr>CurrentEra := c, ErasStartSessionIndex := m\<rparr>)" for c m
    using assms by (simp add: stores_ok_def)
  then show ?thesis
    by (auto simp: trigger_new_era_def Let_def intro!: stores_store_stakers_info stores_clear_era split: option.splits)
qed

lemma stores_try_trigger:
  assumes "stores_ok T s"
  shows "stores_ok T (snd (try_trigger_new_era T i g s))"
proof -
  obtain res w where el: "(if g then T_elect_genesis T s else T_elect T s) = (res, w)" by fastforce
  have ok: "stores_ok T (deposit_event e (set_world w s))" "stores_ok T (set_world w s)"
    "stores_ok T (deposit_event e (set_world w s\<lparr>CurrentEra := c, ErasStartSessionIndex := m\<rparr>))" for e c m
    using assms by (simp_all add: stores_ok_def)
  show ?thesis
    using el ok stores_trigger_new_era [OF ok(1)]
    by (cases res) (auto simp: try_trigger_new_era_def Let_def case_prod_unfold split: option.splits)
qed

lemma stores_new_session:
  assumes "stores_ok T s"
  shows "stores_ok T (snd (new_session T i g s))"
proof -
  obtain r s1 where t: "try_trigger_new_era T i g s = (r, s1)" by fastforce
  with stores_try_trigger [OF assms, of i g] have "stores_ok T s1" by simp
  moreover from this have "stores_ok T (s1\<lparr>ForceEra := f\<rparr>)" for f by (simp add: stores_ok_def)
  ultimately show ?thesis using t assms by (auto simp: new_session_def Let_def split: option.splits)
qed

lemma stores_sm_new_session:
  assumes "stores_ok T s"
  shows "stores_ok T (snd (sm_new_session T i s))" "stores_ok T (snd (sm_new_session_genesis T i s))"
proof -
  have "stores_ok T (s\<lparr>CurrentPlannedSession := i\<rparr>)" using assms by (simp add: stores_ok_def)
  then show "stores_ok T (snd (sm_new_session T i s))" "stores_ok T (snd (sm_new_session_genesis T i s))"
    by (simp_all add: sm_new_session_def sm_new_session_genesis_def stores_new_session)
qed

lemma same_exposures_note:
  "same_exposures s (note_author a s)" "same_exposures s (note_uncle T a s)"
  by (auto simp: note_author_def note_uncle_def same_exposures_parameters split: option.splits)

lemmas same_exposures_steps = same_exposures_bond same_exposures_bond_extra same_exposures_unbond
  same_exposures_rebond same_exposures_withdraw_unbonded same_exposures_set_controller
  same_exposures_roles same_exposures_removal same_exposures_parameters same_exposures_kick
  same_exposures_payout_stakers same_exposures_start_session same_exposures_end_session
  same_exposures_on_offence same_exposures_note same_exposures_basic

lemma stores_staking_step:
  assumes "staking_step T s s'" and "stores_ok T s"
  shows "stores_ok T s'"
  using assms(1)
  by cases (use assms(2) in \<open>auto simp: sm_start_session_def sm_end_session_def
      intro: stores_sm_new_session stores_set_history_depth
      same_exposures_steps [THEN stores_same_exposures]\<close>)

lemma stores_staking_default: "stores_ok T (staking_default w)"
  by (simp add: stores_ok_def staking_default_def)

lemma stores_genesis_stakers:
  "genesis_stakers T xs s = Some s' \<Longrightarrow> stores_ok T s \<Longrightarrow> stores_ok T s'"
proof (induction xs arbitrary: s)
  case (Cons x xs)
  obtain stash c balance status where x: "x = (stash, c, balance, status)" by (cases x)
  from Cons.prems obtain s1 where s1: "genesis_staker T x s = Some s1" "genesis_stakers T xs s1 = Some s'"
    by (auto split: option.splits)
  let ?b = "snd (bond T (Signed stash) (T_unlookup T c) balance RdStaked s)"
  have b: "stores_ok T ?b" by (rule stores_same_exposures [OF same_exposures_bond Cons.prems(2)])
  have "s1 = ?b \<or> s1 = snd (validate T (Signed c) ValidatorPrefs_default ?b) \<or>
      (\<exists>votes. s1 = snd (nominate T (Signed c) (map (T_unlookup T) votes) ?b))"
    using s1(1) x
    by (cases status) (auto simp: genesis_staker_def split: if_splits prod.splits sum.splits, metis snd_conv)
  with b have "stores_ok T s1" by (auto intro: same_exposures_roles [THEN stores_same_exposures])
  with s1(2) show ?case by (rule Cons.IH)
qed simp

lemma stores_genesis:
  assumes "genesis_build T g (staking_default w) = Some s"
  shows "stores_ok T s"
proof -
  have "stores_ok T s'"
    if "genesis_stakers T xs s1 = Some s'" "same_exposures (staking_default w) s1" for xs s1 s'
    using that(1) by (rule stores_genesis_stakers) (rule stores_same_exposures [OF that(2) stores_staking_default])
  then show ?thesis
    using assms by (fastforce simp: genesis_build_def Let_def intro: same_exposuresI split: option.splits if_splits)
qed

lemma stores_reachable: "staking_reachable T s \<Longrightarrow> stores_ok T s"
  by (induction rule: staking_reachable.induct) (auto intro: stores_genesis stores_staking_step)

subsection \<open>Clipping keeps the largest nominators\<close>

lemma clip_exposure_largest:
  "ex_total (clip_exposure n e) = ex_total e \<and> ex_own (clip_exposure n e) = ex_own e \<and>
   length (ex_others (clip_exposure n e)) = min n (length (ex_others e)) \<and>
   (\<exists>dropped. mset (ex_others e) = mset (ex_others (clip_exposure n e)) + mset dropped \<and>
      (\<forall>k \<in> set (ex_others (clip_exposure n e)). \<forall>d \<in> set dropped. ie_value d \<le> ie_value k))"
proof -
  note spec = clip_exposure_spec [OF refl, of n e]
  obtain dropped where "mset dropped = mset (ex_others e) - mset (ex_others (clip_exposure n e))"
    using ex_mset by blast
  with spec(4,5) have "mset (ex_others e) = mset (ex_others (clip_exposure n e)) + mset dropped"
    "\<forall>k \<in> set (ex_others (clip_exposure n e)). \<forall>d \<in> set dropped. ie_value d \<le> ie_value k"
    by (simp_all flip: set_mset_mset)
  moreover have "length (ex_others (clip_exposure n e)) = min n (length (ex_others e))"
    by (simp add: clip_exposure_def)
  ultimately show ?thesis using spec(2,3) by blast
qed

subsection \<open>Properties\<close>

text \<open>C12. In every reachable state the clipped exposure of a validator is kept exactly for the eras
  and validators whose exposure is kept; it has the same total and own stake and the
  \<^verbatim>\<open>MaxNominatorRewardedPerValidator\<close> nominators with the most stake, none of those left out
  backing the validator with more. No ledger has more than \<^verbatim>\<open>MaxUnlockingChunks\<close> chunks.\<close>

theorem reachable_stores_bounded:
  assumes "staking_reachable T s"
  shows "(ErasStakersClipped s era v = None \<longleftrightarrow> ErasStakers s era v = None) \<and>
    (\<forall>full clip. ErasStakers s era v = Some full \<and> ErasStakersClipped s era v = Some clip \<longrightarrow>
       ex_total clip = ex_total full \<and> ex_own clip = ex_own full \<and>
       length (ex_others clip) = min (T_MaxNominatorRewardedPerValidator T) (length (ex_others full)) \<and>
       (\<exists>dropped. mset (ex_others full) = mset (ex_others clip) + mset dropped \<and>
          (\<forall>k \<in> set (ex_others clip). \<forall>d \<in> set dropped. ie_value d \<le> ie_value k))) \<and>
    (\<forall>c l. Ledger s c = Some l \<longrightarrow> length (sl_unlocking l) \<le> MaxUnlockingChunks)"
proof -
  from stores_reachable [OF assms]
  have "ErasStakersClipped s era v = map_option (clip_exposure (T_MaxNominatorRewardedPerValidator T)) (ErasStakers s era v)"
    and "\<forall>c l. Ledger s c = Some l \<longrightarrow> length (sl_unlocking l) \<le> MaxUnlockingChunks"
    by (auto simp: stores_ok_def ran_def)
  then show ?thesis by (auto simp: clip_exposure_largest)
qed

text \<open>A runtime that pays one nominator of a validator, with two nominators elected.\<close>

definition sample_T1 :: "bank staking_config" where
  "sample_T1 = sample_T\<lparr>T_MaxNominatorRewardedPerValidator := 1,
     T_elect_genesis := (\<lambda>s. (Some [(10, [(10, 100), (20, 50), (30, 70)])], world s))\<rparr>"

definition sample_planned :: "bank staking" where
  "sample_planned = snd (sm_new_session_genesis sample_T1 0
     (the (genesis_build sample_T1 sample_genesis (staking_default sample_bank))))"

lemma sample_planned_reachable: "staking_reachable sample_T1 sample_planned"
proof -
  have "genesis_build sample_T1 sample_genesis (staking_default sample_bank) \<noteq> None" by code_simp
  then have "staking_reachable sample_T1
      (the (genesis_build sample_T1 sample_genesis (staking_default sample_bank)))"
    by (intro staking_reachable.genesis [of sample_genesis])
      (auto simp: sample_genesis_def u32_max_def)
  from staking_reachable.step [OF this staking_step.session_new_genesis]
  show ?thesis by (simp add: sample_planned_def)
qed

theorem reachable_stores_bounded_witness:
  "\<exists>full clip. ErasStakers sample_planned 0 10 = Some full \<and> ErasStakersClipped sample_planned 0 10 = Some clip \<and>
     length (ex_others full) = 2 \<and> length (ex_others clip) = 1 \<and>
     ex_total clip = 220 \<and> map ie_value (ex_others clip) = [70]"
proof -
  have "map_option (\<lambda>e. (length (ex_others e), ex_total e)) (ErasStakers sample_planned 0 10) = Some (2, 220)"
    by code_simp
  then obtain full where full: "ErasStakers sample_planned 0 10 = Some full" "length (ex_others full) = 2"
    "ex_total full = 220" by auto
  have "map_option (\<lambda>e. map ie_value (ex_others e)) (ErasStakersClipped sample_planned 0 10) = Some [70]"
    by code_simp
  then obtain clip where clip: "ErasStakersClipped sample_planned 0 10 = Some clip"
    "map ie_value (ex_others clip) = [70]" unfolding map_option_eq_Some by (elim exE conjE) (rule that)
  have "T_MaxNominatorRewardedPerValidator sample_T1 = 1" by (simp add: sample_T1_def)
  moreover from reachable_stores_bounded [OF sample_planned_reachable, of 0 10] full(1) clip(1)
  have "ex_total clip = ex_total full"
    "length (ex_others clip) = min (T_MaxNominatorRewardedPerValidator sample_T1) (length (ex_others full))"
    by blast+
  ultimately have "length (ex_others clip) = 1" "ex_total clip = 220" using full(2,3) by simp_all
  with full clip show ?thesis by (intro exI conjI)
qed

text \<open>C18. With the weights of the runtime, in every reachable state, a call that reports the weight
  it used does not report more than it was charged: withdrawing, except for the weight of every slashing
  span beyond 961, since the charge does not grow with the spans and the report does; paying
  out; rebonding, unless the queue of the ledger was full, and then by no more than the weight of one
  chunk, since the count of removed chunks is one too high when all are removed.\<close>

theorem reachable_weight_bounded:
  assumes "staking_reachable T' s" and "W = runtime_weight db" and "T' = with_weights W T"
    and "db_monotone db" and "T_MaxNominatorRewardedPerValidator T \<le> u32_max"
  shows "(fst (withdraw_unbonded T' o1 n s) = Inr (Some w1) \<longrightarrow>
       w1 \<le> withdraw_unbonded_charged W n + 31000 * (n - 961)) \<and>
    (fst (payout_stakers T' o2 stash era s) = Inr (Some w2) \<longrightarrow> w2 \<le> payout_stakers_charged W T) \<and>
    (fst (rebond T' (Signed c) value s) = Inr (Some w3) \<longrightarrow>
       w3 \<le> rebond_charged W + 45000 \<and>
       (\<forall>l. Ledger s c = Some l \<and> length (sl_unlocking l) < MaxUnlockingChunks \<longrightarrow> w3 \<le> rebond_charged W))"
proof (rule reported_weight_bounded [OF assms(4) _ _ assms(5,2,3)])
  have N: "T_MaxNominatorRewardedPerValidator T' = T_MaxNominatorRewardedPerValidator T"
    by (simp add: assms(3) with_weights_def)
  note ok = stores_reachable [OF assms(1), unfolded stores_ok_def N]
  then show "\<forall>c l. Ledger s c = Some l \<longrightarrow> length (sl_unlocking l) \<le> MaxUnlockingChunks"
    by (auto simp: ran_def)
  show "\<forall>v. length (ex_others (eras_stakers_clipped s era v)) \<le> T_MaxNominatorRewardedPerValidator T"
  proof
    fix v
    show "length (ex_others (eras_stakers_clipped s era v)) \<le> T_MaxNominatorRewardedPerValidator T"
      by (cases "ErasStakers s era v")
        (simp_all add: eras_stakers_clipped_def Exposure_default_def ok clip_exposure_largest)
  qed
qed

definition sample_Tw :: "bank staking_config" where
  "sample_Tw = with_weights (runtime_weight sample_db) sample_T"

definition sample_weighed :: "bank staking" where
  "sample_weighed = snd (unbond sample_Tw (Signed 120) 30
     (the (genesis_build sample_Tw sample_genesis (staking_default sample_bank))))"

lemma sample_weighed_reachable: "staking_reachable sample_Tw sample_weighed"
proof -
  have "genesis_build sample_Tw sample_genesis (staking_default sample_bank) \<noteq> None" by code_simp
  then have "staking_reachable sample_Tw
      (the (genesis_build sample_Tw sample_genesis (staking_default sample_bank)))"
    by (intro staking_reachable.genesis [of sample_genesis])
      (auto simp: sample_genesis_def u32_max_def)
  from staking_reachable.step [OF this staking_step.call_unbond]
  show ?thesis by (simp add: sample_weighed_def)
qed

theorem reachable_weight_bounded_witness:
  "fst (rebond sample_Tw (Signed 120) 30 sample_weighed) = Inr (Some 1094523000) \<and>
   1094523000 \<le> rebond_charged (runtime_weight sample_db)"
proof -
  have m: "db_monotone sample_db" by (auto simp: db_monotone_def sample_db_def mono_def)
  have n: "T_MaxNominatorRewardedPerValidator sample_T \<le> u32_max" by code_simp
  have rb: "fst (rebond sample_Tw (Signed 120) 30 sample_weighed) = Inr (Some 1094523000)" by code_simp
  have "map_option (\<lambda>l. length (sl_unlocking l)) (Ledger sample_weighed 120) = Some 1" by code_simp
  then obtain l where l: "Ledger sample_weighed 120 = Some l" "length (sl_unlocking l) < MaxUnlockingChunks"
    by (auto simp: MaxUnlockingChunks_def)
  from reachable_weight_bounded [OF sample_weighed_reachable refl sample_Tw_def m n,
      of undefined undefined undefined undefined undefined undefined undefined 120 30 1094523000]
  show ?thesis using rb l by blast
qed

end
