(* ===== verification/Chain_Spec.thy ===== *)
theory Chain_Spec
  imports Revenue
begin

section \<open>The genesis of the chains (\<^verbatim>\<open>node/src/chain_spec.rs\<close>)\<close>

text \<open>
  The chain specifications the node knows and the genesis state each configures: who holds what, who
  validates, and the parameters of the pallets with a genesis state of their own. An account or a key
  of 32 bytes is the number its bytes spell. Deriving a key from a seed is cryptography: the record
  \<open>key_services\<close>. The fields of \<^verbatim>\<open>GenesisConfig\<close> that get the default of a pallet that is not in
  the repository are left out; so are the log line and telemetry. At the end, the composition with
  the staking pallet: its genesis builds on the configured authorities.
\<close>

subsection \<open>Keys from seeds\<close>

datatype key_scheme = Sr25519 | GrandpaId | BabeId | ImOnlineId | AuthorityDiscoveryId

text \<open>\<^verbatim>\<open>Pair::from_string(_, None)\<close> with \<^verbatim>\<open>public\<close>, and \<^verbatim>\<open>AccountPublic::from(_).into_account()\<close>.\<close>

record key_services =
  K_from_string :: "key_scheme \<Rightarrow> string \<Rightarrow> nat option"
  K_into_account :: "nat \<Rightarrow> AccountId"

text \<open>\<^term>\<open>None\<close> is the panic of \<^verbatim>\<open>expect\<close>.\<close>

definition get_from_seed :: "key_services \<Rightarrow> key_scheme \<Rightarrow> string \<Rightarrow> nat option" where
  "get_from_seed K scheme seed = K_from_string K scheme (''//'' @ seed)"

definition get_account_id_from_seed :: "key_services \<Rightarrow> string \<Rightarrow> AccountId option" where
  "get_account_id_from_seed K seed = map_option (K_into_account K) (get_from_seed K Sr25519 seed)"

text \<open>The account, and the keys of Grandpa, Babe, I'm online and authority discovery.\<close>

type_synonym authority = "AccountId \<times> nat \<times> nat \<times> nat \<times> nat"

definition authority_keys_from_seed :: "key_services \<Rightarrow> string \<Rightarrow> authority option" where
  "authority_keys_from_seed K s =
     Option.bind (get_account_id_from_seed K (s @ ''//stash'')) (\<lambda>account.
     Option.bind (get_from_seed K GrandpaId s) (\<lambda>grandpa.
     Option.bind (get_from_seed K BabeId s) (\<lambda>babe.
     Option.bind (get_from_seed K ImOnlineId s) (\<lambda>im_online.
     Option.bind (get_from_seed K AuthorityDiscoveryId s) (\<lambda>authority_discovery.
       Some (account, grandpa, babe, im_online, authority_discovery))))))"

subsection \<open>Accounts of the EVM\<close>

record GenesisAccount =
  ga_nonce :: nat
  ga_balance :: nat
  ga_storage :: "(nat \<times> nat) list"
  ga_code :: "byte list"

definition get_endowed_evm_accounts :: "H160 list \<Rightarrow> H160 \<rightharpoonup> GenesisAccount" where
  "get_endowed_evm_accounts endowed_account =
     foldl (\<lambda>evm_accounts account. evm_accounts(account \<mapsto>
         \<lparr>ga_nonce = 0, ga_balance = 0 * DOLLARS, ga_storage = [], ga_code = []\<rparr>))
       Map.empty endowed_account"

definition endowed_evm_account :: "H160 \<rightharpoonup> GenesisAccount" where
  "endowed_evm_account = get_endowed_evm_accounts []"

text \<open>The 20 bytes of an address that is written in hexadecimal.\<close>

definition h160_literal :: "nat \<Rightarrow> H160" where
  "h160_literal n = map (\<lambda>i. word_of_nat (n div 256 ^ (19 - i))) [0..<20]"

definition dev_endowed_evm_accounts :: "H160 \<rightharpoonup> GenesisAccount" where
  "dev_endowed_evm_accounts =
     get_endowed_evm_accounts (map h160_literal
       [0x8097c3c354652cb1eeed3e5b65fba2576470678a,
        0x6be02d1d3665660d22ff9624b7be0551ee1ac91b,
        0xe6206c7f064c7d77c6d8e3ed8601c9aa435419ce,
        0xaed40f2261ba43b4dffe484265ce82d8ffe2b4db])"

subsection \<open>The genesis configuration\<close>

record SessionKeys =
  sk_grandpa :: nat
  sk_babe :: nat
  sk_im_online :: nat
  sk_authority_discovery :: nat

definition session_keys :: "nat \<Rightarrow> nat \<Rightarrow> nat \<Rightarrow> nat \<Rightarrow> SessionKeys" where
  "session_keys grandpa babe im_online authority_discovery =
     \<lparr>sk_grandpa = grandpa, sk_babe = babe, sk_im_online = im_online,
      sk_authority_discovery = authority_discovery\<rparr>"

record chain_genesis =
  cg_code :: "byte list"
  cg_balances :: "(AccountId \<times> Balance) list"
  cg_evm_accounts :: "H160 \<rightharpoonup> GenesisAccount"
  cg_indices :: "(nat \<times> AccountId) list"
  cg_collator_invulnerables :: "AccountId list"
  cg_candidacy_bond :: Balance
  cg_session_keys :: "(AccountId \<times> AccountId \<times> SessionKeys) list"
  cg_sudo_key :: "AccountId option"
  cg_staking :: GenesisConfig
  cg_babe_authorities :: "nat list"
  cg_grandpa_authorities :: "nat list"
  cg_discovery_keys :: "nat list"
  cg_revenue_admin :: "AccountId option"

definition GenesisConfig_default :: GenesisConfig where
  "GenesisConfig_default =
     \<lparr>gen_history_depth = 84, gen_validator_count = 0, gen_minimum_validator_count = 0,
      gen_invulnerables = [], gen_force_era = NotForcing, gen_slash_reward_fraction = 0,
      gen_canceled_payout = 0, gen_stakers = [], gen_min_nominator_bond = 0,
      gen_min_validator_bond = 0, gen_max_validator_count = None, gen_max_nominator_count = None\<rparr>"

definition TOTAL_SUPPLY :: Balance where
  "TOTAL_SUPPLY = 88888888 * DOLLARS"

definition STASH :: Balance where
  "STASH = 88888 * DOLLARS"

definition AUTHOR_BALANCE :: Balance where
  "AUTHOR_BALANCE = 330000 * DOLLARS"

text \<open>\<^term>\<open>None\<close> is the panic when the endowment cannot be divided evenly. The arithmetic is that of
  \<^verbatim>\<open>u128\<close>.\<close>

definition endowment_of :: "nat \<Rightarrow> nat \<Rightarrow> Balance option" where
  "endowment_of validators endowed =
     (let validator_count = validators mod Suc u32_max;
          total_endowment =
            sub_u128 (sub_u128 TOTAL_SUPPLY (wrap_mul u128_max AUTHOR_BALANCE validator_count)) (3 * DOLLARS div 10);
          endowed_count = endowed mod Suc u32_max
      in if endowed_count \<noteq> 0
         then (if total_endowment mod endowed_count \<noteq> 0 then None
               else Some (total_endowment div endowed_count))
         else Some 0)"

definition glitch_genesis ::
  "byte list \<Rightarrow> authority list \<Rightarrow> AccountId \<Rightarrow> AccountId list \<Rightarrow> (H160 \<rightharpoonup> GenesisAccount) \<Rightarrow>
     chain_genesis option" where
  "glitch_genesis wasm_binary initial_authorities root_key endowed_accounts endowed_eth_accounts =
     (case endowment_of (length initial_authorities) (length endowed_accounts) of
        None \<Rightarrow> None
      | Some endowment \<Rightarrow>
          Some \<lparr>cg_code = wasm_binary,
                cg_balances = map (\<lambda>k. (k, endowment)) endowed_accounts @
                  map (\<lambda>x. (fst x, AUTHOR_BALANCE)) initial_authorities,
                cg_evm_accounts = endowed_eth_accounts,
                cg_indices = [],
                cg_collator_invulnerables = map fst initial_authorities,
                cg_candidacy_bond = 1 * DOLLARS,
                cg_session_keys = map (\<lambda>(acc, grandpa, babe, im_online, authority_discovery).
                    (acc, acc, session_keys grandpa babe im_online authority_discovery)) initial_authorities,
                cg_sudo_key = Some root_key,
                cg_staking = GenesisConfig_default
                  \<lparr>gen_validator_count := length initial_authorities mod Suc u32_max,
                   gen_minimum_validator_count := length initial_authorities mod Suc u32_max,
                   gen_stakers := map (\<lambda>x. (fst x, fst x, STASH, Validator)) initial_authorities,
                   gen_invulnerables := [],
                   gen_force_era := NotForcing,
                   gen_slash_reward_fraction := 100000000\<rparr>,
                cg_babe_authorities = [],
                cg_grandpa_authorities = [],
                cg_discovery_keys = [],
                cg_revenue_admin =
                  Some 0x88b4fc7317577d1582969bbc2c3e179926e07c88a7507302fec5fd4f662a9567\<rparr>)"

definition initial_balances :: "(AccountId \<times> Balance) list" where
  "initial_balances =
    [(0x004028fd0cf9675e2c1698c5c539f5b273e73c490cd3fb54f32923e630e66922, 8789888770000000000000000),
     (0x1290c0fa454d01631a80f6b62dd080ed4e1a76c9cdef6045594dc7e2d226eb44, 8789888770000000000000000),
     (0x1c282c8b1e00a3b7ba2d7a4466a23420cb398aa6e53ca8a3ec75f92cfd93e97b, 8789888770000000000000000),
     (0x4e5b90d22cb365beeed1a96ffea8175e30daacb628898998810f57ec65cf7969, 8789888770000000000000000),
     (0x501934c8d7b257fbadd003bb4a29a5adb9fce7fa8d659e28d473002f5fffcf65, 8789888770000000000000000),
     (0x66b4c4464cfd187ae8206a29fe7079ec156d37af10d763e5171da19d66bca742, 8789888770000000000000000),
     (0x9c5f9d91b99f8b1f25cf075ba57839734f3e249b72adcf04899a46c8cfd95b4e, 8789888770000000000000000),
     (0xc4a01a3a57602229e112de1449d83cfbbfbc6d423da7e0ab7baeacfcf83f1d2f, 8789888770000000000000000),
     (0xd8412bac516c4c079016a8ae6eefb983837274d884868dc9528e6a2a27dfbb0d, 8789888770000000000000000),
     (0x1608a5e4d16f4b694a164372e1fd5af8944514d7cec9263fec457bac96e25565, 7529883938533221586000000),
     (0x5c790cbdc11a4bf8934250eb27bf26f2ea05db67b4f5fa48a760bcfd9ef43b49, 330000000200000000000000),
     (0x2600c75f5fe2ddb65676361769e637069cb2041622979ba118a68993279deb0b, 330000000100000000000000),
     (0x68f1d67412d6528992d391025dbc36a3261c1efaf22066dff692b2e4c1fb726a, 178416986451253370000000),
     (0x42db32bc3741422b85c021bddfac3a558a83528143b1be501cb8e2c87dd3136f, 139956475391367500000000),
     (0x2cc43f0eb835443c7c6c01ed86095a2235ac8f53674f81ac1a71ed98187f5615, 100624997082378040000000),
     (0x065647e8ae29ae3f696f1c4087852a60bfb2ba05d46c59d123b7767a90ed8c6d, 89999997082378040000000),
     (0x068e505204f46e1fc793b82f64bab6d64c05e783fa93c37a147a9a527c66d174, 89999997082378040000000),
     (0x0a567658e49a30fd7b4cb5055cfea38fda48f93b758aeb5090cf19a7fa3ff64e, 89999997082378040000000),
     (0x407308fc2f0166f6b0b6162f1103078b453cbefb0650374b119e899b2832f368, 89999997082378040000000),
     (0x4ae8af1430acada6f9d7bc7ce63ab57ac22ecd3d703438e5d365b3eff3f8da28, 89999997082378040000000),
     (0x5e6c33f6942d7d02f3600ac9f22ff3f1744c32db75ee472d6aa7c36a024e6d1c, 89999997082378040000000),
     (0x76799daa6ed897dfaff6df7eb2bec97e0d20f193af8d6b05725cc9413c7b7068, 89999997082378040000000),
     (0x7c9be668773083c243b11beeaef3c43cdb20a3c0c4945d0abf69e15261541808, 89999997082378040000000),
     (0x84f86df3cec9c1fafec26637ba3c31a5a949d7dc53c7a464648269b7da7d8310, 89999997082378040000000),
     (0x8a40b984a216c8ab3b8344eb504de0d898039861adeae0469c50c3eeeaacbf51, 89999997082378040000000),
     (0xa0df6d97e02ace0afee5119fe25896e70a51895b577d6250870741ab0c2d290f, 89999997082378040000000),
     (0xd0e58b65a141d28ea3a302bab6c825087f9f7ed424cc26c673c7985f8fad5a41, 89999997082378040000000),
     (0xf6c7b0308ab0fb7be7ec8d381814bf911fe57d2166d3cfa21d9286c4b94eaa3c, 89999997082378040000000),
     (0xaaa67949d58eb167f493f3d5c6c22f9dfba5d4e183292f9809a1031a199b6702, 981996332215200000000),
     (0xb2b6c5fa937df57b3adf244bf284fa10113cdc96b680c7e28e4ba86e723ad562, 11758539674242000000),
     (0xd8d222c44e7b678dc07a1136ca146c8cf71d46d7327b67ab3d6abe3b4f83cb3d, 5000000000000000000),
     (0x9234b3143cfcde6c6a67fc601513c54ae069e9eb1e5ff3636d3c664602844e4e, 4189464809180000000),
     (0x0a276900bee9d28fa31728814afa5194cb3e6b21b55370a1ece060e5ec6d5f01, 1000000000000000000),
     (0xa40aa48af6589f95ca378e1bc3eac36f4447b09c748d56409bd4968f46fc405f, 1000000000000000000),
     (0x4aa44e08b891d389fb0c1d56630437830785b5ff9083c9b4e4cc0ac5793b272d, 987727686650000000),
     (0x8e65621224b9e3109d4826c62ef8e349a214f4111d73457d98dc72cc6a30ed7d, 478106479712000000),
     (0x6d6f646c66756e64726576650000000000000000000000000000000000000000, 100000000000000000),
     (0x6d6f646c70792f74727372790000000000000000000000000000000000000000, 100000000000000000)]"

definition glitch_genesis_mainnet ::
  "byte list \<Rightarrow> authority list \<Rightarrow> AccountId \<Rightarrow> AccountId list \<Rightarrow> (H160 \<rightharpoonup> GenesisAccount) \<Rightarrow>
     chain_genesis option" where
  "glitch_genesis_mainnet wasm_binary initial_authorities root_key endowed_accounts endowed_eth_accounts =
     map_option (cg_balances_update (\<lambda>_. initial_balances))
       (glitch_genesis wasm_binary initial_authorities root_key endowed_accounts endowed_eth_accounts)"

subsection \<open>The chain specifications\<close>

datatype ChainType = Development | Local | Live

datatype json = JString string | JNumber nat

definition DEFAULT_PROPERTIES_TESTNET :: "(string \<times> json) list" where
  "DEFAULT_PROPERTIES_TESTNET =
     [(''tokenSymbol'', JString ''GLCH''), (''tokenDecimals'', JNumber 18), (''ss58Format'', JNumber 42)]"

definition DEFAULT_PROPERTIES_MAINNET :: "(string \<times> json) list" where
  "DEFAULT_PROPERTIES_MAINNET =
     [(''tokenSymbol'', JString ''GLCH''), (''tokenDecimals'', JNumber 18), (''ss58Format'', JNumber 42)]"

text \<open>The genesis is computed when the specification is used: \<open>cs_genesis\<close> is \<^term>\<open>None\<close> where that
  panics.\<close>

record ChainSpec =
  cs_name :: string
  cs_id :: string
  cs_chain_type :: ChainType
  cs_genesis :: "chain_genesis option"
  cs_boot_nodes :: "string list"
  cs_protocol_id :: "string option"
  cs_properties :: "(string \<times> json) list"

text \<open>A specification needs the compiled runtime.\<close>

definition with_wasm :: "byte list option \<Rightarrow> (byte list \<Rightarrow> ChainSpec) \<Rightarrow> string + ChainSpec" where
  "with_wasm WASM_BINARY spec =
     (case WASM_BINARY of
        None \<Rightarrow> Inl ''Development wasm binary not available''
      | Some wasm_binary \<Rightarrow> Inr (spec wasm_binary))"

definition development_config :: "key_services \<Rightarrow> byte list option \<Rightarrow> string + ChainSpec" where
  "development_config K WASM_BINARY = with_wasm WASM_BINARY (\<lambda>wasm_binary.
     \<lparr>cs_name = ''Development'',
      cs_id = ''dev'',
      cs_chain_type = Development,
      cs_genesis =
        Option.bind (those [authority_keys_from_seed K ''Alice'']) (\<lambda>initial_authorities.
        Option.bind (get_account_id_from_seed K ''Alice'') (\<lambda>root_key.
          glitch_genesis wasm_binary initial_authorities root_key [] dev_endowed_evm_accounts)),
      cs_boot_nodes = [],
      cs_protocol_id = Some ''glitch_nodelocal'',
      cs_properties = DEFAULT_PROPERTIES_TESTNET\<rparr>)"

definition local_testnet_config :: "key_services \<Rightarrow> byte list option \<Rightarrow> string + ChainSpec" where
  "local_testnet_config K WASM_BINARY = with_wasm WASM_BINARY (\<lambda>wasm_binary.
     \<lparr>cs_name = ''glitch_node'',
      cs_id = ''local_testnet'',
      cs_chain_type = Local,
      cs_genesis =
        Option.bind (those [authority_keys_from_seed K ''Alice'', authority_keys_from_seed K ''Bob'']) (\<lambda>initial_authorities.
        Option.bind (get_account_id_from_seed K ''Alice'') (\<lambda>root_key.
        Option.bind (those (map (get_account_id_from_seed K)
            [''Alice'', ''Bob'', ''Charlie'', ''Dave'', ''Eve'', ''Ferdie'', ''Charlie//stash'',
             ''Dave//stash'', ''Eve//stash'', ''Ferdie//stash''])) (\<lambda>endowed_accounts.
          glitch_genesis wasm_binary initial_authorities root_key endowed_accounts endowed_evm_account))),
      cs_boot_nodes = [],
      cs_protocol_id = Some ''glitch_nodelocal'',
      cs_properties = DEFAULT_PROPERTIES_TESTNET\<rparr>)"

definition glitch_testnet_authorities :: "authority list" where
  "glitch_testnet_authorities =
   [(0xaee0df231aed47a99beb26960d156de55751a48741b1cfcfa99e42a5f499e63f,
     0x04315411f66a58e838690017ac4102374e4f1dd3f429176ebaa15d55d61d9e80,
     0x2eed8720f0cc2697ef251da006980c0873cfc108f4c91a96744eedf1b59aff44,
     0xa86ab6e2458078bc49f7277ba00642c1ba2336f8001dd7de6494fd0751a1c057,
     0x1eaa69cbee5e16337c52440455fbc97b839d01bdc4e6d158cf3061d44ba4fc7b),
    (0x5a44973835f643d6d2c45c4490e1c0095755d469ae5db20d480c937588abd164,
     0x72f22b083c995d0c4bf07a46f7ad326bcc25780483c8eb0523f53ed2a5b7915d,
     0x381bab65c6c3c0a9bfb06e7a6c8a3b109bed9e97303b22fcd0157ba0871a6566,
     0x46bd8c5f164df0a6db9199a74376aea3cf8f0d4ecc8b4da5289ebf70c6d0496a,
     0x98a818de9aa0ea6d376a8690bfebb24b1d5d7d9c6f36e1ab45983b0fa7f2e328),
    (0x94f1d376734418cc137900c7ad4bb5a4911af24d00e4fd72803e3817a50c334d,
     0x0b9f59981f7b9a654f9819c7cb774f3fe39fc9e4c5ac22202f77be52677a5fd3,
     0x6eb9b6f2680b69714d38d0d34108288c9498616589afa6ca453f7a71a88cc64c,
     0x1efe62dcf7953227eb99413539b2d58c584f8568ab72d847310a17030882ef0d,
     0x82aba2132ab4ff2e7fcafeb4d4932f73413d08b7f3a54e18ea2c8d4cffa88e2b)]"

definition glitch_testnet_endowed :: "AccountId list" where
  "glitch_testnet_endowed =
    [0x2cba3a171f0eac2c17fb96e1172de8bdfb5977d687be988c8c9c424e89ccf017,
     0xdeb9e399fc7a8dbfdb3afdded6d944001f06d34f2ee44f221214e5f651d72d0c,
     0x86fe730862e66d0843fd26317cdc8982e964411c6b567ede64f5b75256e3ae02,
     0x5a4eee4225fdfeea0affc8b3898b6473aa5da97acb5cb77eff87e85da9cd442a,
     0x3c4f9141446d18bc60cde8b084fff57830de18e05657a113b7eb55a89cf1ba77,
     0x60df6b11a2d8d6460fd583e491a52f0518b515d29b63ae0fca6ad04dd99c9820,
     0x7889d159ed22e156047c91c03c49d0fdb97db5aa121dd248fc9143ae58605a78,
     0xcafc729c1e7c5d13065c41e39dba17f81f2c37ffa59d55a058bcc1eea3a7bd0d,
     0xac878ad7a137e325872d74022e85fe976d26c5b51a172821b7a8ca6526a34928,
     0xf0f15284b61f6ed6a3fc292395e0fa3195e79052b1ec8bca74298f5de5134754]"

definition glitch_testnet_config :: "byte list option \<Rightarrow> string + ChainSpec" where
  "glitch_testnet_config WASM_BINARY = with_wasm WASM_BINARY (\<lambda>wasm_binary.
     \<lparr>cs_name = ''Glitch'',
      cs_id = ''glitch_testnet'',
      cs_chain_type = Local,
      cs_genesis =
        glitch_genesis wasm_binary glitch_testnet_authorities
          0x2cba3a171f0eac2c17fb96e1172de8bdfb5977d687be988c8c9c424e89ccf017
          glitch_testnet_endowed endowed_evm_account,
      cs_boot_nodes =
         [''/dns/glitch-bootnode.sotatek.works/tcp/30333/p2p/12D3KooWFKSEVZGNrS6THQ6J2vSgLDePdXXz9HYE6TtgopZV22T1'',
          ''/ip4/10.2.15.53/tcp/30333/p2p/12D3KooWFKSEVZGNrS6THQ6J2vSgLDePdXXz9HYE6TtgopZV22T1''],
      cs_protocol_id = Some ''glitch_testnet'',
      cs_properties = DEFAULT_PROPERTIES_TESTNET\<rparr>)"

definition glitch_mainnet_authorities :: "authority list" where
  "glitch_mainnet_authorities =
   [(0x68f1d67412d6528992d391025dbc36a3261c1efaf22066dff692b2e4c1fb726a,
     0x04315411f66a58e838690017ac4102374e4f1dd3f429176ebaa15d55d61d9e80,
     0x2eed8720f0cc2697ef251da006980c0873cfc108f4c91a96744eedf1b59aff44,
     0xa86ab6e2458078bc49f7277ba00642c1ba2336f8001dd7de6494fd0751a1c057,
     0x1eaa69cbee5e16337c52440455fbc97b839d01bdc4e6d158cf3061d44ba4fc7b),
    (0x2600c75f5fe2ddb65676361769e637069cb2041622979ba118a68993279deb0b,
     0x72f22b083c995d0c4bf07a46f7ad326bcc25780483c8eb0523f53ed2a5b7915d,
     0x381bab65c6c3c0a9bfb06e7a6c8a3b109bed9e97303b22fcd0157ba0871a6566,
     0x46bd8c5f164df0a6db9199a74376aea3cf8f0d4ecc8b4da5289ebf70c6d0496a,
     0x98a818de9aa0ea6d376a8690bfebb24b1d5d7d9c6f36e1ab45983b0fa7f2e328),
    (0x5c790cbdc11a4bf8934250eb27bf26f2ea05db67b4f5fa48a760bcfd9ef43b49,
     0x0b9f59981f7b9a654f9819c7cb774f3fe39fc9e4c5ac22202f77be52677a5fd3,
     0x6eb9b6f2680b69714d38d0d34108288c9498616589afa6ca453f7a71a88cc64c,
     0x1efe62dcf7953227eb99413539b2d58c584f8568ab72d847310a17030882ef0d,
     0x82aba2132ab4ff2e7fcafeb4d4932f73413d08b7f3a54e18ea2c8d4cffa88e2b)]"

definition glitch_mainnet_endowed :: "AccountId list" where
  "glitch_mainnet_endowed =
    [0x1608a5e4d16f4b694a164372e1fd5af8944514d7cec9263fec457bac96e25565,
     0x9c5f9d91b99f8b1f25cf075ba57839734f3e249b72adcf04899a46c8cfd95b4e,
     0x501934c8d7b257fbadd003bb4a29a5adb9fce7fa8d659e28d473002f5fffcf65,
     0xc4a01a3a57602229e112de1449d83cfbbfbc6d423da7e0ab7baeacfcf83f1d2f,
     0xd8412bac516c4c079016a8ae6eefb983837274d884868dc9528e6a2a27dfbb0d,
     0x1c282c8b1e00a3b7ba2d7a4466a23420cb398aa6e53ca8a3ec75f92cfd93e97b,
     0x1290c0fa454d01631a80f6b62dd080ed4e1a76c9cdef6045594dc7e2d226eb44,
     0x4e5b90d22cb365beeed1a96ffea8175e30daacb628898998810f57ec65cf7969,
     0x66b4c4464cfd187ae8206a29fe7079ec156d37af10d763e5171da19d66bca742,
     0x004028fd0cf9675e2c1698c5c539f5b273e73c490cd3fb54f32923e630e66922]"

definition glitch_mainnet_config :: "byte list option \<Rightarrow> string + ChainSpec" where
  "glitch_mainnet_config WASM_BINARY = with_wasm WASM_BINARY (\<lambda>wasm_binary.
     \<lparr>cs_name = ''Glitch'',
      cs_id = ''glitch_mainnet'',
      cs_chain_type = Live,
      cs_genesis =
        glitch_genesis_mainnet wasm_binary glitch_mainnet_authorities
          0xd8d222c44e7b678dc07a1136ca146c8cf71d46d7327b67ab3d6abe3b4f83cb3d
          glitch_mainnet_endowed endowed_evm_account,
      cs_boot_nodes =
         [''/dns/fullnodes-mainnet-1.glitch.finance/tcp/30333/p2p/12D3KooWFKSEVZGNrS6THQ6J2vSgLDePdXXz9HYE6TtgopZV22T1'',
          ''/dns/validatornodes-mainnet-1.glitch.finance/tcp/30333/p2p/12D3KooWPRSGH3LnwG5Uhj9Nm7qY7hkdrhd4vg4znb49ix9ADZwD'',
          ''/dns/validatornodes-mainnet-2.glitch.finance/tcp/30333/p2p/12D3KooWBEyY6ySQqjniaqVHH1JtiMVU5KmSPvoPgqkpp6XhBjEt'',
          ''/dns/validatornodes-mainnet-3.glitch.finance/tcp/30333/p2p/12D3KooWKwDVXckeQ86PrNFCyrbaA4sEkg9hPY9a5fe2yZ3gSRX1'',
          ''/dns/validatornodes-mainnet-4.glitch.finance/tcp/30333/p2p/12D3KooWRYMq2fD7cRikXXc9doocmBNw37tfQTKSnPfEfqeaMyG3''],
      cs_protocol_id = Some ''glitch_mainnet'',
      cs_properties = DEFAULT_PROPERTIES_MAINNET\<rparr>)"

definition glitch_uat_authorities :: "authority list" where
  "glitch_uat_authorities =
   [(0xa25483fe9cca2461c83a00513f07377f34116fc35f5fefec53fca9e59d1d2f06,
     0x04315411f66a58e838690017ac4102374e4f1dd3f429176ebaa15d55d61d9e80,
     0x2eed8720f0cc2697ef251da006980c0873cfc108f4c91a96744eedf1b59aff44,
     0xa86ab6e2458078bc49f7277ba00642c1ba2336f8001dd7de6494fd0751a1c057,
     0x1eaa69cbee5e16337c52440455fbc97b839d01bdc4e6d158cf3061d44ba4fc7b),
    (0x1408fed1c2d32cf914326b1ec33edbeb4427fdaf411e27f9dd77b6bcaf280f54,
     0x72f22b083c995d0c4bf07a46f7ad326bcc25780483c8eb0523f53ed2a5b7915d,
     0x381bab65c6c3c0a9bfb06e7a6c8a3b109bed9e97303b22fcd0157ba0871a6566,
     0x46bd8c5f164df0a6db9199a74376aea3cf8f0d4ecc8b4da5289ebf70c6d0496a,
     0x98a818de9aa0ea6d376a8690bfebb24b1d5d7d9c6f36e1ab45983b0fa7f2e328),
    (0x3443862d2ff8f750e46ff0424ad541b8a34896a3112babf96054362325c49977,
     0x0b9f59981f7b9a654f9819c7cb774f3fe39fc9e4c5ac22202f77be52677a5fd3,
     0x6eb9b6f2680b69714d38d0d34108288c9498616589afa6ca453f7a71a88cc64c,
     0x1efe62dcf7953227eb99413539b2d58c584f8568ab72d847310a17030882ef0d,
     0x82aba2132ab4ff2e7fcafeb4d4932f73413d08b7f3a54e18ea2c8d4cffa88e2b)]"

definition glitch_uat_endowed :: "AccountId list" where
  "glitch_uat_endowed =
    [0x88b4fc7317577d1582969bbc2c3e179926e07c88a7507302fec5fd4f662a9567]"

definition glitch_uat_config :: "byte list option \<Rightarrow> string + ChainSpec" where
  "glitch_uat_config WASM_BINARY = with_wasm WASM_BINARY (\<lambda>wasm_binary.
     \<lparr>cs_name = ''Glitch UAT'',
      cs_id = ''glitch_uat'',
      cs_chain_type = Live,
      cs_genesis =
        glitch_genesis wasm_binary glitch_uat_authorities
          0x88b4fc7317577d1582969bbc2c3e179926e07c88a7507302fec5fd4f662a9567
          glitch_uat_endowed endowed_evm_account,
      cs_boot_nodes =
         [''/ip4/127.0.0.1/tcp/30333/p2p/12D3KooWE9d5iYYuom8HZnPVcBcWZ9vdJQrM8pSjJJuGBJywcWDx''],
      cs_protocol_id = Some ''glitch_uat'',
      cs_properties = DEFAULT_PROPERTIES_MAINNET\<rparr>)"

text \<open>\<^verbatim>\<open>load_spec\<close> of \<^verbatim>\<open>node/src/command.rs\<close>; \<open>from_json_file\<close> reads a specification from a file.\<close>

definition load_spec ::
  "key_services \<Rightarrow> byte list option \<Rightarrow> (string \<Rightarrow> string + ChainSpec) \<Rightarrow> string \<Rightarrow> string + ChainSpec" where
  "load_spec K WASM_BINARY from_json_file chain =
     (if chain = ''dev'' then development_config K WASM_BINARY
      else if chain = ''local'' then local_testnet_config K WASM_BINARY
      else if chain = ''glitch_testnet'' then glitch_testnet_config WASM_BINARY
      else if chain = ''glitch_mainnet'' then glitch_mainnet_config WASM_BINARY
      else if chain = ''glitch_uat'' then glitch_uat_config WASM_BINARY
      else if chain = '''' \<or> chain = ''testnet'' then glitch_testnet_config WASM_BINARY
      else if chain = ''mainnet'' then glitch_mainnet_config WASM_BINARY
      else if chain = ''uat'' then glitch_uat_config WASM_BINARY
      else from_json_file chain)"

subsection \<open>Lemmas: the supply\<close>

lemma endowment_exact:
  assumes "endowment_of n m = Some e" and "n \<le> 269" and "m \<noteq> 0" and "m \<le> u32_max"
  shows "m * e + n * AUTHOR_BALANCE + 3 * EXISTENTIAL_DEPOSIT = TOTAL_SUPPLY"
proof -
  have k: "DOLLARS = 10 * EXISTENTIAL_DEPOSIT" "0 < DOLLARS"
    by (simp_all add: EXISTENTIAL_DEPOSIT_def CENTS_def DOLLARS_def)
  have le: "330000 * n + 1 \<le> 88888888" using assms(2) by simp
  have u: "AUTHOR_BALANCE * n \<le> u128_max" "TOTAL_SUPPLY \<le> u128_max"
    using assms(2) by (simp_all add: AUTHOR_BALANCE_def TOTAL_SUPPLY_def DOLLARS_def u128_max_def)
  have "330000 * DOLLARS * n + DOLLARS \<le> 88888888 * DOLLARS"
    using mult_le_mono1 [OF le, of DOLLARS] by (simp only: distrib_right distrib_left mult_1 mult_1_right ac_simps)
  then have a: "AUTHOR_BALANCE * n + 3 * EXISTENTIAL_DEPOSIT \<le> TOTAL_SUPPLY"
    unfolding AUTHOR_BALANCE_def TOTAL_SUPPLY_def using k(1) by linarith
  have m: "n mod Suc u32_max = n" "m mod Suc u32_max = m" using assms by (simp_all add: u32_max_def)
  let ?t = "TOTAL_SUPPLY - AUTHOR_BALANCE * n - 3 * EXISTENTIAL_DEPOSIT"
  have "wrap_mul u128_max AUTHOR_BALANCE n = AUTHOR_BALANCE * n" using u(1) by (simp add: wrap_mul_def)
  moreover have "sub_u128 TOTAL_SUPPLY (AUTHOR_BALANCE * n) = TOTAL_SUPPLY - AUTHOR_BALANCE * n"
    using a u by (simp add: width_simps)
  moreover have "sub_u128 (TOTAL_SUPPLY - AUTHOR_BALANCE * n) (3 * DOLLARS div 10) = ?t"
    using a u k by (simp add: width_simps)
  ultimately have "?t mod m = 0" "e = ?t div m"
    using assms(1,3) by (auto simp: endowment_of_def Let_def m split: if_splits)
  then have "m * e = ?t" by auto
  with a show ?thesis by (simp add: mult.commute)
qed

text \<open>The treasury is a pallet of the library; its id is configured in the runtime.\<close>

definition TreasuryModuleId :: string where
  "TreasuryModuleId = ''py/trsry''"

text \<open>The fund, the wallet and the treasury set the balance of their accounts to the existential
  deposit when the genesis is built.\<close>

definition pallet_accounts :: "(string \<Rightarrow> AccountId) \<Rightarrow> AccountId list" where
  "pallet_accounts account_of =
     [fund_account_id account_of, wallet_account_id account_of, account_of TreasuryModuleId]"

definition genesis_supply :: "(string \<Rightarrow> AccountId) \<Rightarrow> (AccountId \<times> Balance) list \<Rightarrow> Balance" where
  "genesis_supply account_of balances =
     sum_list (map snd (filter (\<lambda>(a, b). a \<notin> set (pallet_accounts account_of)) balances))
       + 3 * EXISTENTIAL_DEPOSIT"

lemma glitch_genesis_supply:
  assumes "glitch_genesis wasm auths root endowed eth = Some g"
    and "length auths \<le> 269" and "endowed \<noteq> []" and "length endowed \<le> u32_max"
    and "set (pallet_accounts account_of) \<inter> (set endowed \<union> fst ` set auths) = {}"
  shows "genesis_supply account_of (cg_balances g) = TOTAL_SUPPLY"
proof -
  obtain e where e: "endowment_of (length auths) (length endowed) = Some e"
    and b: "cg_balances g = map (\<lambda>k. (k, e)) endowed @ map (\<lambda>x. (fst x, AUTHOR_BALANCE)) auths"
    using assms(1) by (auto simp: glitch_genesis_def split: option.splits)
  have "filter (\<lambda>(a, b). a \<notin> set (pallet_accounts account_of)) (cg_balances g) = cg_balances g"
    using assms(5) by (intro filter_True) (auto simp: b)
  then have "genesis_supply account_of (cg_balances g) =
      length endowed * e + length auths * AUTHOR_BALANCE + 3 * EXISTENTIAL_DEPOSIT"
    by (simp add: genesis_supply_def b comp_def sum_list_triv)
  with endowment_exact [OF e assms(2) _ assms(4)] assms(3) show ?thesis by simp
qed

subsection \<open>The genesis of the staking pallet\<close>

text \<open>What the genesis relies on in the balances pallet, the system pallet and the voter list \<open>M\<close>: a
  lock and a reference leave balances alone, an account that has the least balance can be referenced,
  and an account that is inserted is added to the list and counted.\<close>

definition keeps_world :: "'w currency \<Rightarrow> ('w \<Rightarrow> AccountId set) \<Rightarrow> 'w \<Rightarrow> 'w \<Rightarrow> bool" where
  "keeps_world C M w w' \<longleftrightarrow> cur_free_balance C w' = cur_free_balance C w \<and> M w' = M w"

definition genesis_services :: "'w staking_config \<Rightarrow> ('w \<Rightarrow> AccountId set) \<Rightarrow> bool" where
  "genesis_services T M \<longleftrightarrow>
     (\<forall>a. T_lookup T (T_unlookup T a) = Some a) \<and>
     cur_minimum_balance (T_currency T) \<le> STASH \<and>
     (\<forall>a w. cur_minimum_balance (T_currency T) \<le> cur_free_balance (T_currency T) w a \<longrightarrow>
        fst (T_inc_consumers T a w)) \<and>
     (\<forall>a w. keeps_world (T_currency T) M w (snd (T_inc_consumers T a w))) \<and>
     (\<forall>a x w. keeps_world (T_currency T) M w (cur_set_lock (T_currency T) a x w)) \<and>
     (\<forall>a v s. a \<notin> M (world s) \<longrightarrow>
        cur_free_balance (T_currency T) (T_voter_list_on_insert T a v s) = cur_free_balance (T_currency T) (world s) \<and>
        M (T_voter_list_on_insert T a v s) = insert a (M (world s))) \<and>
     (\<forall>s. T_voter_list_count T s = card (M (world s)))"

definition genesis_ledger :: "AccountId \<Rightarrow> StakingLedger" where
  "genesis_ledger a =
     \<lparr>sl_stash = a, sl_total = STASH, sl_active = STASH, sl_unlocking = [], sl_claimed_rewards = []\<rparr>"

text \<open>The state after the accounts \<open>P\<close> have been inserted.\<close>

definition inserted ::
  "'w staking_config \<Rightarrow> ('w \<Rightarrow> AccountId set) \<Rightarrow> (AccountId \<Rightarrow> Balance) \<Rightarrow> AccountId set \<Rightarrow> 'w staking \<Rightarrow> bool" where
  "inserted T M free P s \<longleftrightarrow>
     Bonded s = (\<lambda>a. if a \<in> P then Some a else None) \<and>
     Ledger s = (\<lambda>a. if a \<in> P then Some (genesis_ledger a) else None) \<and>
     Validators s = (\<lambda>a. if a \<in> P then Some ValidatorPrefs_default else None) \<and>
     CounterForValidators s = card P \<and> Nominators s = Map.empty \<and> CounterForNominators s = 0 \<and>
     MinValidatorBond s = 0 \<and> MinCommission s = 0 \<and> MaxValidatorsCount s = None \<and> CurrentEra s = None \<and>
     cur_free_balance (T_currency T) (world s) = free \<and> M (world s) = P"

lemma genesis_staker_inserts:
  assumes "genesis_services T M" and "inserted T M free P s" and "a \<notin> P" and "finite P"
    and "card P < u32_max" and "STASH \<le> free a"
  shows "\<exists>s'. genesis_staker T (a, a, STASH, Validator) s = Some s' \<and> inserted T M free (insert a P) s'"
proof -
  note I = assms(2) [unfolded inserted_def]
  let ?C = "T_currency T"
  obtain b w1 where inc: "T_inc_consumers T a (world s) = (b, w1)" by fastforce
  have free: "cur_free_balance ?C (world s) = free" using I by simp
  have "b" using assms(1,6) inc free unfolding genesis_services_def by (metis fst_conv order_trans)
  have w1: "keeps_world ?C M (world s) w1" using assms(1) inc unfolding genesis_services_def by (metis snd_conv)
  let ?s1 = "snd (bond T (Signed a) (T_unlookup T a) STASH RdStaked s)"
  let ?w2 = "cur_set_lock ?C a STASH w1"
  have w2: "cur_free_balance ?C ?w2 = free" "M ?w2 = P"
    using assms(1) w1 I by (simp_all add: genesis_services_def keeps_world_def)
  have bond: "bond T (Signed a) (T_unlookup T a) STASH RdStaked s = (Inr None, ?s1)"
    "Bonded ?s1 = (Bonded s)(a \<mapsto> a)" "Ledger ?s1 = (Ledger s)(a \<mapsto> genesis_ledger a)" "world ?s1 = ?w2"
    "Validators ?s1 = Validators s" "Nominators ?s1 = Nominators s"
    "CounterForValidators ?s1 = CounterForValidators s" "CounterForNominators ?s1 = CounterForNominators s"
    "MinValidatorBond ?s1 = MinValidatorBond s" "MinCommission ?s1 = MinCommission s"
    "MaxValidatorsCount ?s1 = MaxValidatorsCount s" "CurrentEra ?s1 = CurrentEra s"
    using assms(1,3,6) I inc \<open>b\<close> w1
    by (simp_all add: bond_def Let_def genesis_services_def genesis_ledger_def update_ledger_def keeps_world_def
        min_def deposit_event_def)
  let ?s2 = "snd (validate T (Signed a) ValidatorPrefs_default ?s1)"
  let ?w3 = "T_voter_list_on_insert T a (weight_of T ?s1 a) ?s1"
  have val: "validate T (Signed a) ValidatorPrefs_default ?s1 = (Inr None, ?s2)"
    using I bond by (simp add: validate_def Let_def genesis_ledger_def)
  have "?s2 = deposit_event (ValidatorPrefsSet a ValidatorPrefs_default)
      (Validators_insert a ValidatorPrefs_default (set_world ?w3 ?s1))"
    using I bond assms(3)
    by (simp add: validate_def Let_def genesis_ledger_def do_remove_nominator_def do_add_validator_def)
  moreover have "cur_free_balance ?C ?w3 = free" "M ?w3 = insert a P"
    using assms(1,3) w2 bond(4) by (simp_all add: genesis_services_def)
  ultimately have "inserted T M free (insert a P) ?s2"
    using I bond assms(3,4,5)
    by (auto simp: inserted_def Validators_insert_def sat_add_def fun_eq_iff)
  moreover have "genesis_staker T (a, a, STASH, Validator) s = Some ?s2"
    using assms(6) free by (simp add: genesis_staker_def) (subst bond(1), simp, subst val, simp)
  ultimately show ?thesis by blast
qed

lemma genesis_stakers_insert:
  assumes "genesis_services T M" and "inserted T M free P s" and "distinct as" and "set as \<inter> P = {}"
    and "finite P" and "card P + length as < u32_max" and "\<forall>a \<in> set as. STASH \<le> free a"
  shows "\<exists>s'. genesis_stakers T (map (\<lambda>a. (a, a, STASH, Validator)) as) s = Some s' \<and>
    inserted T M free (set as \<union> P) s'"
  using assms(2-)
proof (induction as arbitrary: P s)
  case Nil
  then show ?case by simp
next
  case (Cons a as)
  then obtain s1 where s1: "genesis_staker T (a, a, STASH, Validator) s = Some s1" "inserted T M free (insert a P) s1"
    using genesis_staker_inserts [OF assms(1) Cons.prems(1), of a] by auto
  from Cons.prems Cons.IH [OF s1(2)] s1(1) show ?case by (simp add: Un_commute)
qed

text \<open>The genesis of the staking pallet, whose stakers are the accounts \<open>as\<close>.\<close>

lemma genesis_builds:
  assumes "genesis_services T M" and "M w = {}" and "distinct as" and "length as < u32_max"
    and "\<forall>a \<in> set as. STASH \<le> cur_free_balance (T_currency T) w a"
    and "gen_stakers g = map (\<lambda>a. (a, a, STASH, Validator)) as"
    and "gen_min_validator_bond g = 0" and "gen_max_validator_count g = None"
  shows "\<exists>s. genesis_build T g (staking_default w) = Some s \<and>
    inserted T M (cur_free_balance (T_currency T) w) (set as) s"
proof -
  let ?free = "cur_free_balance (T_currency T) w"
  have "\<exists>s1. genesis_build T g (staking_default w) =
      (case genesis_stakers T (gen_stakers g) s1 of None \<Rightarrow> None
       | Some s2 \<Rightarrow> if T_voter_list_count T s2 = add_u32 (CounterForNominators s2) (CounterForValidators s2)
           then Some s2 else None) \<and> inserted T M ?free {} s1"
    unfolding genesis_build_def Let_def
    by (intro exI conjI, rule refl) (use assms in \<open>simp add: inserted_def staking_default_def\<close>)
  then obtain s1 where s1: "genesis_build T g (staking_default w) =
      (case genesis_stakers T (gen_stakers g) s1 of None \<Rightarrow> None
       | Some s2 \<Rightarrow> if T_voter_list_count T s2 = add_u32 (CounterForNominators s2) (CounterForValidators s2)
           then Some s2 else None)" "inserted T M ?free {} s1" by blast
  obtain s2 where s2: "genesis_stakers T (gen_stakers g) s1 = Some s2" "inserted T M ?free (set as) s2"
    using genesis_stakers_insert [OF assms(1) s1(2) assms(3)] assms(4-6) by auto
  have "card (set as) \<le> length as" by (rule card_length)
  with assms(1,4) s2(2) have "T_voter_list_count T s2 = add_u32 (CounterForNominators s2) (CounterForValidators s2)"
    by (simp add: inserted_def genesis_services_def wrap_add_def)
  with s1(1) s2 show ?thesis by simp
qed

subsection \<open>Lemmas: the networks\<close>

definition networks :: "string list" where
  "networks = ['''', ''testnet'', ''glitch_testnet'', ''mainnet'', ''glitch_mainnet'', ''uat'', ''glitch_uat'']"

lemma load_network:
  assumes "load_spec K (Some wasm) from_json_file chain = Inr spec" and "chain \<in> set networks"
  obtains (testnet) "glitch_testnet_config (Some wasm) = Inr spec"
    | (mainnet) "glitch_mainnet_config (Some wasm) = Inr spec"
    | (uat) "glitch_uat_config (Some wasm) = Inr spec"
  using assms by (auto simp: networks_def load_spec_def)

lemma endowments:
  "endowment_of (length glitch_testnet_authorities) (length glitch_testnet_endowed) = Some (8789888770 * 10 ^ 15)"
  "endowment_of (length glitch_mainnet_authorities) (length glitch_mainnet_endowed) = Some (8789888770 * 10 ^ 15)"
  "endowment_of (length glitch_uat_authorities) (length glitch_uat_endowed) = Some (87898887700 * 10 ^ 15)"
  by code_simp+

lemma network_accounts_distinct:
  "distinct (glitch_testnet_endowed @ map fst glitch_testnet_authorities)"
  "distinct (glitch_uat_endowed @ map fst glitch_uat_authorities)"
  "distinct (map fst initial_balances)" "distinct (map fst glitch_mainnet_authorities)"
  by code_simp+

lemma STASH_le: "STASH \<le> AUTHOR_BALANCE"
  by (simp add: STASH_def AUTHOR_BALANCE_def DOLLARS_def)

text \<open>A genesis that configures the authorities \<open>as\<close> as validators, who can bond.\<close>

definition configures :: "AccountId list \<Rightarrow> chain_genesis \<Rightarrow> bool" where
  "configures as g \<longleftrightarrow>
     distinct as \<and> length as = 3 \<and>
     gen_stakers (cg_staking g) = map (\<lambda>a. (a, a, STASH, Validator)) as \<and>
     gen_min_validator_bond (cg_staking g) = 0 \<and> gen_max_validator_count (cg_staking g) = None \<and>
     gen_validator_count (cg_staking g) = length as \<and>
     cg_collator_invulnerables g = as \<and> map fst (cg_session_keys g) = as \<and>
     (\<forall>a \<in> set as. \<exists>b \<ge> STASH. (a, b) \<in> set (cg_balances g))"

lemma glitch_genesis_configures:
  assumes "glitch_genesis wasm auths root endowed eth = Some g" and "length auths = 3"
    and "distinct (map fst auths)"
  shows "configures (map fst auths) g"
proof -
  obtain e where e: "endowment_of (length auths) (length endowed) = Some e"
    using assms(1) by (auto simp: glitch_genesis_def split: option.splits)
  have g: "cg_balances g = map (\<lambda>k. (k, e)) endowed @ map (\<lambda>x. (fst x, AUTHOR_BALANCE)) auths"
    "gen_stakers (cg_staking g) = map (\<lambda>x. (fst x, fst x, STASH, Validator)) auths"
    "gen_min_validator_bond (cg_staking g) = 0" "gen_max_validator_count (cg_staking g) = None"
    "gen_validator_count (cg_staking g) = 3" "cg_collator_invulnerables g = map fst auths"
    "map fst (cg_session_keys g) = map fst auths"
    using assms(1,2) e
    by (auto simp: glitch_genesis_def GenesisConfig_default_def u32_max_def comp_def case_prod_unfold)
  have "\<exists>b \<ge> STASH. (a, b) \<in> set (cg_balances g)" if "a \<in> set (map fst auths)" for a
    using that STASH_le by (intro exI [of _ AUTHOR_BALANCE]) (auto simp: g(1))
  with g assms(2,3) show ?thesis by (simp add: configures_def comp_def)
qed

text \<open>The accounts of the pallets, as their ids determine them.\<close>

definition pallet_numbers :: "AccountId list" where
  "pallet_numbers =
     [0x6d6f646c66756e64726576650000000000000000000000000000000000000000,
      0x6d6f646c77616c7466756e640000000000000000000000000000000000000000,
      0x6d6f646c70792f74727372790000000000000000000000000000000000000000]"

lemma pallet_numbers_fresh:
  "\<forall>a \<in> set (glitch_testnet_endowed @ map fst glitch_testnet_authorities). a \<notin> set pallet_numbers"
  "\<forall>a \<in> set (glitch_uat_endowed @ map fst glitch_uat_authorities). a \<notin> set pallet_numbers"
  by code_simp+

lemma mainnet_supply:
  "sum_list (map snd (filter (\<lambda>(a, b). a \<notin> set pallet_numbers) initial_balances)) + 3 * EXISTENTIAL_DEPOSIT = TOTAL_SUPPLY"
  "\<forall>a \<in> set (map fst glitch_mainnet_authorities). \<exists>b \<in> set (map snd initial_balances). STASH \<le> b \<and> (a, b) \<in> set initial_balances"
  by code_simp+

definition network_ok :: "(string \<Rightarrow> AccountId) \<Rightarrow> chain_genesis \<Rightarrow> bool" where
  "network_ok account_of g \<longleftrightarrow>
     configures (cg_collator_invulnerables g) g \<and> distinct (map fst (cg_balances g)) \<and>
     genesis_supply account_of (cg_balances g) = TOTAL_SUPPLY"

lemma glitch_genesis_ok:
  assumes "endowment_of (length auths) (length endowed) = Some e"
    and "length auths = 3" and "length endowed \<in> {1, 10}" and "distinct (endowed @ map fst auths)"
    and "pallet_accounts account_of = pallet_numbers" and "\<forall>a \<in> set (endowed @ map fst auths). a \<notin> set pallet_numbers"
  shows "\<exists>g. glitch_genesis wasm auths root endowed eth = Some g \<and> network_ok account_of g"
proof -
  obtain g where g: "glitch_genesis wasm auths root endowed eth = Some g"
    "cg_balances g = map (\<lambda>k. (k, e)) endowed @ map (\<lambda>x. (fst x, AUTHOR_BALANCE)) auths"
    using assms(1) by (simp add: glitch_genesis_def)
  have c: "configures (map fst auths) g"
    using glitch_genesis_configures [OF g(1) assms(2)] assms(4) by simp
  have "genesis_supply account_of (cg_balances g) = TOTAL_SUPPLY"
    using assms by (intro glitch_genesis_supply [OF g(1)]) (auto simp: u32_max_def)
  with g c assms(4) show ?thesis by (auto simp: network_ok_def configures_def comp_def)
qed

lemma network_ok:
  assumes "load_spec K (Some wasm) from_json_file chain = Inr spec" and "chain \<in> set networks"
    and p: "pallet_accounts account_of = pallet_numbers"
  shows "\<exists>g. cs_genesis spec = Some g \<and> network_ok account_of g"
  using assms(1,2)
proof (cases rule: load_network)
  case testnet
  then have "cs_genesis spec = glitch_genesis wasm glitch_testnet_authorities
      0x2cba3a171f0eac2c17fb96e1172de8bdfb5977d687be988c8c9c424e89ccf017 glitch_testnet_endowed endowed_evm_account"
    by (auto simp: glitch_testnet_config_def with_wasm_def)
  moreover have "length glitch_testnet_authorities = 3" "length glitch_testnet_endowed \<in> {1, 10}" by code_simp+
  note glitch_genesis_ok [OF endowments(1) this network_accounts_distinct(1) p pallet_numbers_fresh(1)]
  ultimately show ?thesis by simp
next
  case uat
  then have "cs_genesis spec = glitch_genesis wasm glitch_uat_authorities
      0x88b4fc7317577d1582969bbc2c3e179926e07c88a7507302fec5fd4f662a9567 glitch_uat_endowed endowed_evm_account"
    by (auto simp: glitch_uat_config_def with_wasm_def)
  moreover have "length glitch_uat_authorities = 3" "length glitch_uat_endowed \<in> {1, 10}" by code_simp+
  note glitch_genesis_ok [OF endowments(3) this network_accounts_distinct(2) p pallet_numbers_fresh(2)]
  ultimately show ?thesis by simp
next
  case mainnet
  then have cs: "cs_genesis spec = glitch_genesis_mainnet wasm glitch_mainnet_authorities
      0xd8d222c44e7b678dc07a1136ca146c8cf71d46d7327b67ab3d6abe3b4f83cb3d glitch_mainnet_endowed endowed_evm_account"
    by (auto simp: glitch_mainnet_config_def with_wasm_def)
  obtain g where g: "glitch_genesis wasm glitch_mainnet_authorities
      0xd8d222c44e7b678dc07a1136ca146c8cf71d46d7327b67ab3d6abe3b4f83cb3d glitch_mainnet_endowed endowed_evm_account = Some g"
    using endowments(2) by (simp add: glitch_genesis_def)
  have 3: "length glitch_mainnet_authorities = 3" by code_simp
  have "configures (map fst glitch_mainnet_authorities) g"
    by (rule glitch_genesis_configures [OF g 3 network_accounts_distinct(4)])
  with mainnet_supply(2) have "configures (map fst glitch_mainnet_authorities) (g\<lparr>cg_balances := initial_balances\<rparr>)"
    by (auto simp: configures_def)
  moreover have "genesis_supply account_of initial_balances = TOTAL_SUPPLY"
    unfolding genesis_supply_def p by (rule mainnet_supply(1))
  ultimately show ?thesis
    using cs g network_accounts_distinct(3) by (auto simp: glitch_genesis_mainnet_def network_ok_def configures_def)
qed

text \<open>The three networks use the same session keys: only the accounts of the validators differ.\<close>

lemma networks_share_session_keys:
  "map snd glitch_testnet_authorities = map snd glitch_mainnet_authorities"
  "map snd glitch_uat_authorities = map snd glitch_mainnet_authorities"
  by code_simp+

subsection \<open>Properties\<close>

text \<open>C32. For each network the node knows the genesis is configured without a panic, no account is listed
  twice, and the supply, with the existential deposits of the fund, the wallet and the treasury, is
  exactly 88,888,888 units of the currency.\<close>

theorem network_supply:
  assumes "load_spec K (Some wasm) from_json_file chain = Inr spec"
    and "chain \<in> {'''', ''testnet'', ''glitch_testnet'', ''mainnet'', ''glitch_mainnet'', ''uat'', ''glitch_uat''}"
    and "account_of ''fundreve'' = 0x6d6f646c66756e64726576650000000000000000000000000000000000000000"
    and "account_of ''waltfund'' = 0x6d6f646c77616c7466756e640000000000000000000000000000000000000000"
    and "account_of ''py/trsry'' = 0x6d6f646c70792f74727372790000000000000000000000000000000000000000"
  shows "\<exists>g. cs_genesis spec = Some g \<and> distinct (map fst (cg_balances g)) \<and>
    genesis_supply account_of (cg_balances g) = 88888888 * 10 ^ 18"
proof -
  have "pallet_accounts account_of = pallet_numbers"
    by (simp add: pallet_accounts_def fund_account_id_def wallet_account_id_def FUND_PALLET_ID_def
        WALLET_PALLET_ID_def TreasuryModuleId_def pallet_numbers_def assms(3-5))
  moreover have "chain \<in> set networks" using assms(2) by (auto simp: networks_def)
  ultimately obtain g where "cs_genesis spec = Some g" "network_ok account_of g"
    using network_ok [OF assms(1)] by blast
  then show ?thesis by (auto simp: network_ok_def TOTAL_SUPPLY_def DOLLARS_def)
qed

text \<open>Ids and keys for the witnesses: the accounts of the three pallets, and a seed that spells its key.\<close>

definition sample_account_ids :: "string \<Rightarrow> AccountId" where
  "sample_account_ids x =
     (if x = ''fundreve'' then 0x6d6f646c66756e64726576650000000000000000000000000000000000000000
      else if x = ''waltfund'' then 0x6d6f646c77616c7466756e640000000000000000000000000000000000000000
      else 0x6d6f646c70792f74727372790000000000000000000000000000000000000000)"

definition sample_keys :: key_services where
  "sample_keys =
     \<lparr>K_from_string = (\<lambda>scheme seed. Some (foldl (\<lambda>n c. n * 256 + of_char c) 0 seed)),
      K_into_account = (\<lambda>k. k)\<rparr>"

theorem network_supply_witness:
  "\<exists>spec g. load_spec sample_keys (Some []) (\<lambda>_. Inl '''') ''mainnet'' = Inr spec \<and> cs_genesis spec = Some g \<and>
     genesis_supply sample_account_ids (cg_balances g) = 88888888 * 10 ^ 18"
proof -
  obtain spec where l: "load_spec sample_keys (Some []) (\<lambda>_. Inl '''') ''mainnet'' = Inr spec"
    by (auto simp: load_spec_def glitch_mainnet_config_def with_wasm_def)
  from network_supply [OF l, of sample_account_ids] l show ?thesis by (auto simp: sample_account_ids_def)
qed

text \<open>C31. On each network the genesis of the staking pallet builds on the configured balances: exactly
  the accounts with session keys validate, each bonded to itself with the configured stake, and the
  state is a reachable state of the pallet.\<close>

theorem network_validators:
  assumes "load_spec K (Some wasm) from_json_file chain = Inr spec"
    and "chain \<in> {'''', ''testnet'', ''glitch_testnet'', ''mainnet'', ''glitch_mainnet'', ''uat'', ''glitch_uat''}"
    and "cs_genesis spec = Some g"
    and "genesis_services T M" and "M w = {}"
    and "\<forall>(a, b) \<in> set (cg_balances g). cur_free_balance (T_currency T) w a = b"
  shows "\<exists>s. genesis_build T (cg_staking g) (staking_default w) = Some s \<and> staking_reachable T s \<and>
    dom (Validators s) = fst ` set (cg_session_keys g) \<and>
    card (dom (Validators s)) = gen_validator_count (cg_staking g) \<and>
    (\<forall>a \<in> dom (Validators s). Bonded s a = Some a \<and> Ledger s a = Some
       \<lparr>sl_stash = a, sl_total = 88888 * 10 ^ 18, sl_active = 88888 * 10 ^ 18, sl_unlocking = [],
        sl_claimed_rewards = []\<rparr>)"
proof -
  have "pallet_accounts sample_account_ids = pallet_numbers"
    by (simp add: pallet_accounts_def fund_account_id_def wallet_account_id_def FUND_PALLET_ID_def
        WALLET_PALLET_ID_def TreasuryModuleId_def pallet_numbers_def sample_account_ids_def)
  moreover have "chain \<in> set networks" using assms(2) by (auto simp: networks_def)
  ultimately have "network_ok sample_account_ids g" using network_ok [OF assms(1)] assms(3) by fastforce
  then obtain as where c: "configures as g" by (auto simp: network_ok_def)
  have "STASH \<le> cur_free_balance (T_currency T) w a" if "a \<in> set as" for a
  proof -
    from c that obtain b where "STASH \<le> b" "(a, b) \<in> set (cg_balances g)"
      unfolding configures_def by blast
    with bspec [OF assms(6), of "(a, b)"] show ?thesis by simp
  qed
  then have free: "\<forall>a \<in> set as. STASH \<le> cur_free_balance (T_currency T) w a" by blast
  from c have d: "distinct as" "length as < u32_max"
    "gen_stakers (cg_staking g) = map (\<lambda>a. (a, a, STASH, Validator)) as"
    "gen_min_validator_bond (cg_staking g) = 0" "gen_max_validator_count (cg_staking g) = None"
    by (simp_all add: configures_def u32_max_def)
  from genesis_builds [OF assms(4,5) d(1,2) free d(3-5)] obtain s where s: "genesis_build T (cg_staking g) (staking_default w) = Some s"
    "inserted T M (cur_free_balance (T_currency T) w) (set as) s" by blast
  have "staking_reachable T s"
    using c by (intro staking_reachable.genesis [OF _ s(1)]) (simp add: configures_def u32_max_def)
  moreover have "Validators s = (\<lambda>a. if a \<in> set as then Some ValidatorPrefs_default else None)"
    using s(2) by (simp add: inserted_def)
  then have "dom (Validators s) = set as" by (auto split: if_splits)
  moreover have "map fst (cg_session_keys g) = as" "gen_validator_count (cg_staking g) = length as"
    using c by (simp_all add: configures_def)
  then have "fst ` set (cg_session_keys g) = set as" "card (set as) = gen_validator_count (cg_staking g)"
    using distinct_card [OF d(1)] by (simp_all flip: set_map)
  moreover have "Bonded s a = Some a \<and> Ledger s a = Some (genesis_ledger a)" if "a \<in> set as" for a
    using s(2) that by (simp add: inserted_def)
  ultimately show ?thesis using s(1) by (simp add: genesis_ledger_def STASH_def DOLLARS_def)
qed

text \<open>A runtime that keeps the voter list next to the balances: the entry of an account is stored past
  the 32 bytes of an account.\<close>

definition sample_voters :: "bank \<Rightarrow> AccountId set" where
  "sample_voters w = {a. w (a + 2 ^ 256) = 1}"

definition sample_chain_T :: "bank staking_config" where
  "sample_chain_T = sample_T
     \<lparr>T_currency := sample_currency\<lparr>cur_free_balance := (\<lambda>w a. if a < 2 ^ 256 then w a else 0)\<rparr>,
      T_voter_list_on_insert := (\<lambda>a v s. (world s)(a + 2 ^ 256 := 1)),
      T_voter_list_count := (\<lambda>s. card (sample_voters (world s)))\<rparr>"

definition balances_bank :: "(AccountId \<times> Balance) list \<Rightarrow> bank" where
  "balances_bank balances a = (case map_of balances a of None \<Rightarrow> 0 | Some b \<Rightarrow> b)"

lemma sample_genesis_services: "genesis_services sample_chain_T sample_voters"
  by (auto simp: genesis_services_def keeps_world_def sample_chain_T_def sample_T_def sample_config_def
      sample_currency_def sample_voters_def STASH_def DOLLARS_def fun_eq_iff)

theorem network_validators_witness:
  "\<exists>spec g s. load_spec sample_keys (Some []) (\<lambda>_. Inl '''') ''mainnet'' = Inr spec \<and> cs_genesis spec = Some g \<and>
     genesis_build sample_chain_T (cg_staking g) (staking_default (balances_bank initial_balances)) = Some s \<and>
     card (dom (Validators s)) = gen_validator_count (cg_staking g)"
proof -
  let ?w = "balances_bank initial_balances"
  obtain spec where l: "load_spec sample_keys (Some []) (\<lambda>_. Inl '''') ''mainnet'' = Inr spec"
    by (auto simp: load_spec_def glitch_mainnet_config_def with_wasm_def)
  from l endowments(2) obtain g where g: "cs_genesis spec = Some g" "cg_balances g = initial_balances"
    by (auto simp: load_spec_def glitch_mainnet_config_def with_wasm_def glitch_genesis_mainnet_def glitch_genesis_def)
  have small: "\<forall>(a, b) \<in> set initial_balances. a < 2 ^ 256" by code_simp
  have "map_of initial_balances (a + 2 ^ 256) = None" for a
    using small by (force simp: map_of_eq_None_iff)
  then have empty: "sample_voters ?w = {}" by (simp add: sample_voters_def balances_bank_def)
  have "?w a = b" if "(a, b) \<in> set initial_balances" for a b
    using map_of_is_SomeI [OF network_accounts_distinct(3) that] by (simp add: balances_bank_def)
  then have "\<forall>(a, b) \<in> set (cg_balances g). cur_free_balance (T_currency sample_chain_T) ?w a = b"
    using small by (auto simp: g(2) sample_chain_T_def)
  from network_validators [OF l _ g(1) sample_genesis_services empty this] l g(1) show ?thesis by blast
qed

end
