(* ===== verification/Staking_Balances.thy ===== *)
theory Staking_Balances
  imports Staking_Exposures Staking_Effects
begin

section \<open>Staking: balanced ledgers in every reachable state\<close>

text \<open>
  What is active and what is unlocking adds up to the total in every ledger, through calls, sessions, slashes
  and payouts. Payouts are the one operation that adds to a ledger without looking at a balance first, so
  they must fit in \<^verbatim>\<open>u128\<close> (\<open>payouts_fit\<close>), which the issuance of a chain ensures by a wide margin.
\<close>

subsection \<open>Payments\<close>

text \<open>Every ledger is balanced and has room for \<open>b\<close> more.\<close>

definition ledgers_below :: "Balance \<Rightarrow> 'w staking \<Rightarrow> bool" where
  "ledgers_below b s \<longleftrightarrow> (\<forall>c l. Ledger s c = Some l \<longrightarrow> wf_ledger l \<and> sl_total l + b \<le> u128_max)"

lemma ledgers_below_wf: "ledgers_below b s \<Longrightarrow> ledgers_wf s"
  by (simp add: ledgers_below_def ledgers_wf_def)

lemma ledgers_below_same: "ledgers_below b s \<Longrightarrow> Ledger s' = Ledger s \<Longrightarrow> ledgers_below b s'"
  by (simp add: ledgers_below_def)

lemma ledgers_below_le: "ledgers_below b s \<Longrightarrow> b' \<le> b \<Longrightarrow> ledgers_below b' s"
  by (fastforce simp: ledgers_below_def)

lemma ledgers_below_make_payout:
  assumes "ledgers_below (amount + b) s"
  shows "ledgers_below b (snd (make_payout T stash amount s))"
proof -
  have keep: "ledgers_below b s" using ledgers_below_le [OF assms] by simp
  have pay: "ledgers_below b s'"
    if "Ledger s c = Some l" "Ledger s' = (Ledger s)(c \<mapsto> l\<lparr>sl_active := add_u128 (sl_active l) amount,
        sl_total := add_u128 (sl_total l) amount\<rparr>)" for c l s'
  proof -
    from that(1) assms have l: "wf_ledger l" "sl_total l + (amount + b) \<le> u128_max"
      by (auto simp: ledgers_below_def)
    then have "add_u128 (sl_active l) amount = sl_active l + amount" "add_u128 (sl_total l) amount = sl_total l + amount"
      by (simp_all add: wf_ledger_def width_simps)
    with l have "wf_ledger (l\<lparr>sl_active := add_u128 (sl_active l) amount, sl_total := add_u128 (sl_total l) amount\<rparr>)"
      "add_u128 (sl_total l) amount + b \<le> u128_max"
      by (simp_all add: wf_ledger_def)
    with keep that(2) show ?thesis by (auto simp: ledgers_below_def)
  qed
  note same = ledgers_below_same [OF keep]
  show ?thesis
    by (cases "payee s stash")
      (auto simp: make_payout_def Let_def keep intro: same pay split: option.splits prod.splits)
qed

lemma ledgers_below_pay_staker:
  assumes "ledgers_below (amount + b) s"
  shows "ledgers_below b (snd (snd (pay_staker T stash amount (x, n, s))))"
proof -
  obtain r s1 where m: "make_payout T stash amount s = (r, s1)" by fastforce
  with ledgers_below_make_payout [OF assms] have "ledgers_below b s1" by (metis snd_conv)
  with m show ?thesis
    by (auto simp: pay_staker_def intro: ledgers_below_same [of b s1] split: option.splits)
qed

lemma ledgers_below_pay_stakers:
  "ledgers_below (sum_list (map g ns) + b) s \<Longrightarrow>
   ledgers_below b (snd (snd (foldl (\<lambda>acc n. pay_staker T (f n) (g n) acc) (x, k, s) ns)))"
proof (induction ns arbitrary: x k s)
  case (Cons y ns)
  obtain x1 k1 s1 where p: "pay_staker T (f y) (g y) (x, k, s) = (x1, k1, s1)" using prod_cases3 by blast
  have "ledgers_below (g y + (sum_list (map g ns) + b)) s" using Cons.prems by (simp add: ac_simps)
  from ledgers_below_pay_staker [OF this, of T "f y" x k] p
  have "ledgers_below (sum_list (map g ns) + b) s1" by simp
  from Cons.IH [OF this] p show ?case by simp
qed simp

text \<open>What a payout pays is at most its value for the validator and for each nominator.\<close>

lemma perbill_part_le:
  assumes "perbill_mul_bounded P" and "perbill_from_rational_bounded P"
  shows "perbill_mul P (perbill_from_rational P a b) x \<le> x"
  using assms by (simp add: perbill_mul_bounded_def perbill_from_rational_bounded_def)

lemma ledgers_below_pay_exposure:
  assumes "perbill_mul_bounded (T_perthings T)" and "perbill_from_rational_bounded (T_perthings T)"
    and "ledgers_below (Suc (length (ex_others e)) * (cp + lp)) s" and "cp + lp \<le> u128_max"
  shows "ledgers_wf (snd (snd (pay_exposure T stash e cp lp s)))"
proof -
  let ?P = "T_perthings T"
  let ?g = "\<lambda>n. perbill_mul ?P (perbill_from_rational ?P (ie_value n) (ex_total e)) lp"
  let ?a = "add_u128 (perbill_mul ?P (perbill_from_rational ?P (ex_own e) (ex_total e)) lp) cp"
  obtain x1 n1 s1 where p: "pay_staker T stash ?a (0, 0, s) = (x1, n1, s1)" using prod_cases3 by blast
  have le: "perbill_mul ?P (perbill_from_rational ?P a b) lp \<le> lp" for a b
    by (rule perbill_part_le [OF assms(1,2)])
  have 1: "?a \<le> cp + lp" using le [of "ex_own e" "ex_total e"] assms(4) by (simp add: width_simps)
  have 2: "sum_list (map ?g ns) \<le> length ns * (cp + lp)" for ns
  proof (induction ns)
    case (Cons n ns)
    have "?g n \<le> cp + lp" using le by (rule trans_le_add2)
    from add_mono [OF this Cons.IH] show ?case by simp
  qed simp
  from add_mono [OF 1 2 [of "ex_others e"]]
  have "?a + (sum_list (map ?g (ex_others e)) + 0) \<le> Suc (length (ex_others e)) * (cp + lp)" by simp
  from ledgers_below_pay_staker [OF ledgers_below_le [OF assms(3) this], of T stash 0 0] p
  have "ledgers_below (sum_list (map ?g (ex_others e)) + 0) s1" by simp
  from ledgers_below_wf [OF ledgers_below_pay_stakers [OF this]] p
  show ?thesis by (simp add: pay_exposure_def Let_def)
qed

text \<open>What the state must hold for a payout not to overflow: commissions are parts of one, and no ledger is so
  close to the end of \<^verbatim>\<open>u128\<close> that the reward of an era, once for the validator and once for each
  nominator, does not fit.\<close>

definition payouts_fit :: "'w staking_config \<Rightarrow> 'w staking \<Rightarrow> bool" where
  "payouts_fit T s \<longleftrightarrow>
     (\<forall>era v. vp_commission (eras_validator_prefs s era v) \<le> perbill_accuracy) \<and>
     (\<forall>era reward c l. ErasValidatorReward s era = Some reward \<and> Ledger s c = Some l \<longrightarrow>
        sl_total l + Suc (T_MaxNominatorRewardedPerValidator T) * reward \<le> u128_max)"

lemma ledgers_wf_payout_pay:
  assumes "perbill_mul_bounded (T_perthings T)" and "perbill_from_rational_bounded (T_perthings T)"
    and "ledgers_below (Suc n * ep) (s\<lparr>Ledger := (Ledger s)(c \<mapsto> l)\<rparr>)"
    and "length (ex_others (eras_stakers_clipped s era (sl_stash l))) \<le> n" and "ep \<le> u128_max"
    and "vp_commission (eras_validator_prefs s era v) \<le> perbill_accuracy"
  shows "ledgers_wf (snd (payout_pay T v era ep c l s))"
proof -
  let ?P = "T_perthings T" and ?s1 = "s\<lparr>Ledger := (Ledger s)(c \<mapsto> l)\<rparr>"
  let ?e = "eras_stakers_clipped s era (sl_stash l)"
  let ?total = "perbill_mul ?P (perbill_from_rational ?P
      (case erp_individual (eras_reward_points ?s1 era) (sl_stash l) of None \<Rightarrow> 0 | Some p \<Rightarrow> p)
      (erp_total (eras_reward_points ?s1 era))) ep"
  show ?thesis
  proof (cases "snd (payout_pay T v era ep c l s) = ?s1")
    case True
    with ledgers_below_wf [OF assms(3)] show ?thesis by simp
  next
    case False
    obtain cp lp where cl: "validator_leftover_payout ?P (vp_commission (eras_validator_prefs ?s1 era v)) ?total = (cp, lp)"
      by fastforce
    obtain x k s3 where pe: "pay_exposure T (sl_stash l) ?e cp lp
        (deposit_event (PayoutStarted era (sl_stash l)) ?s1) = (x, k, s3)" using prod_cases3 by blast
    obtain b w where st: "cur_settle (T_currency T) (T_fund_account T) x KeepAlive (world s3) = (b, w)"
      by fastforce
    have total: "?total \<le> ep" by (rule perbill_part_le [OF assms(1,2)])
    have prefs: "eras_validator_prefs ?s1 era v = eras_validator_prefs s era v" by (simp add: eras_validator_prefs_def)
    have cp: "cp \<le> ?total" "lp = ?total - cp"
      using cl assms(1,5,6) total
      by (auto simp: validator_leftover_payout_def Let_def prefs perbill_mul_bounded_def width_simps)
    have fits: "Suc (length (ex_others ?e)) * (cp + lp) \<le> Suc n * ep"
      using cp total assms(4) by (intro mult_le_mono) simp_all
    have "ledgers_below (Suc (length (ex_others ?e)) * (cp + lp)) (deposit_event (PayoutStarted era (sl_stash l)) ?s1)"
      by (rule ledgers_below_same [OF ledgers_below_le [OF assms(3) fits]]) simp
    from ledgers_below_pay_exposure [OF assms(1,2) this, of "sl_stash l"] pe cp total assms(5)
    have "ledgers_wf s3" by simp
    moreover have "Ledger (snd (payout_pay T v era ep c l s)) = Ledger s3"
      using False cl pe st
      by (cases b) (simp_all add: payout_pay_def Let_def update_not_claimed_reward_def split: if_splits option.split)
    ultimately show ?thesis by (rule ledgers_wf_same)
  qed
qed

lemma ledgers_wf_payout_stakers:
  assumes "ledgers_wf s" and "stores_ok T s" and "payouts_fit T s"
    and "perbill_mul_bounded (T_perthings T)" and "perbill_from_rational_bounded (T_perthings T)"
  shows "ledgers_wf (snd (payout_stakers T o1 v era s))"
proof -
  let ?n = "T_MaxNominatorRewardedPerValidator T"
  have "ledgers_wf (snd (payout_pay T v era ep c l s))" if ch: "payout_checks v era s = Inr (ep, c, l)" for ep c l
  proof (rule ledgers_wf_payout_pay [OF assms(4,5)])
    from ch have ep: "ErasValidatorReward s era = Some ep"
      by (auto simp: payout_checks_def Let_def split: option.splits if_splits sum.splits)
    from ch obtain l0 where l0: "Ledger s c = Some l0" "sl_total l = sl_total l0" "sl_active l = sl_active l0"
      "sl_unlocking l = sl_unlocking l0"
      by (auto simp: payout_checks_def Let_def split: option.splits if_splits sum.splits)
    have all: "sl_total la + Suc ?n * ep \<le> u128_max" if "Ledger s ca = Some la" for ca la
      using assms(3) ep that by (simp add: payouts_fit_def)
    have "wf_ledger l" using ledgers_wfD [OF assms(1) l0(1)] l0 by (simp add: wf_ledger_def)
    with all [OF l0(1)] all l0(2) ledgers_wfD [OF assms(1)]
    show "ledgers_below (Suc ?n * ep) (s\<lparr>Ledger := (Ledger s)(c \<mapsto> l)\<rparr>)"
      by (auto simp: ledgers_below_def split: if_splits)
    show "ep \<le> u128_max" using all [OF l0(1)] by simp
    show "length (ex_others (eras_stakers_clipped s era (sl_stash l))) \<le> ?n"
      using assms(2) clip_exposure_largest [of ?n]
      by (auto simp: stores_ok_def eras_stakers_clipped_def Exposure_default_def split: option.split)
    show "vp_commission (eras_validator_prefs s era v) \<le> perbill_accuracy"
      using assms(3) by (simp add: payouts_fit_def)
  qed
  with assms(1) show ?thesis
    by (auto simp: payout_stakers_def do_payout_stakers_def split: option.splits sum.splits)
qed

subsection \<open>The other steps\<close>

lemma Ledger_unchanged:
  "Ledger (snd (validate T o1 prefs s)) = Ledger s" "Ledger (snd (nominate T o1 targets s)) = Ledger s"
  "Ledger (snd (chill T o1 s)) = Ledger s" "Ledger (snd (chill_other T o1 c s)) = Ledger s"
  "Ledger (snd (set_payee o1 p s)) = Ledger s"
  "Ledger (snd (set_validator_count o1 n s)) = Ledger s"
  "Ledger (snd (increase_validator_count o1 n s)) = Ledger s"
  "Ledger (snd (scale_validator_count T o1 f s)) = Ledger s"
  "Ledger (snd (force_no_eras o1 s)) = Ledger s" "Ledger (snd (force_new_era o1 s)) = Ledger s"
  "Ledger (snd (force_new_era_always o1 s)) = Ledger s"
  "Ledger (snd (set_invulnerables o1 vs s)) = Ledger s"
  "Ledger (snd (set_staking_configs o1 a b d e f' g s)) = Ledger s"
  "Ledger (snd (force_apply_min_commission o1 stash s)) = Ledger s"
  "Ledger (snd (cancel_deferred_slash T o1 era idxs s)) = Ledger s"
  "Ledger (on_finalize T s) = Ledger s" "Ledger (reward_by_ids vps s) = Ledger s"
  "Ledger (end_session T i s) = Ledger s"
  by (auto simp: validate_def nominate_def chill_def chill_other_def set_payee_def set_validator_count_def
      increase_validator_count_def scale_validator_count_def force_no_eras_def force_new_era_def
      force_new_era_always_def set_invulnerables_def set_staking_configs_def force_apply_min_commission_def
      cancel_deferred_slash_def on_finalize_def reward_by_ids_def end_session_def end_era_def Let_def
      split: option.splits sum.splits)

lemma Ledger_foldl: "(\<And>st x. Ledger (f st x) = Ledger st) \<Longrightarrow> Ledger (foldl f s xs) = Ledger s"
  by (induction xs arbitrary: s) simp_all

lemma Ledger_kick: "Ledger (snd (kick T o1 who s)) = Ledger s"
proof -
  have "Ledger (foldl (kick_one stash) s ns) = Ledger s" for stash ns
    by (rule Ledger_foldl) (simp add: kick_one_def split: option.splits)
  then show ?thesis by (auto simp: kick_def split: option.splits)
qed

lemma Ledger_set_history_depth: "Ledger (snd (set_history_depth o1 n s)) = Ledger s"
proof -
  have "Ledger (foldl (\<lambda>st e. clear_era_information e st) s xs) = Ledger s" for xs
    by (rule Ledger_foldl) (simp add: clear_era_information_def)
  then show ?thesis by (auto simp: set_history_depth_def Let_def split: option.splits)
qed

lemma Ledger_note: "Ledger (note_author a s) = Ledger s" "Ledger (note_uncle T a s) = Ledger s"
  by (auto simp: note_author_def note_uncle_def Ledger_unchanged split: option.splits)

lemma Ledger_store_stakers_info: "Ledger (snd (store_stakers_info T xs era s)) = Ledger s"
proof -
  have 1: "Ledger (snd (foldl (store_exposure T era) acc xs)) = Ledger (snd acc)" for acc
    by (induction xs arbitrary: acc) (auto simp: store_exposure_def split: prod.splits)
  obtain t s1 where t: "foldl (store_exposure T era) (0, s) xs = (t, s1)" by fastforce
  with 1 [of "(0, s)"] have "Ledger s1 = Ledger s" by simp
  moreover have "Ledger (foldl (\<lambda>st stash. st\<lparr>ErasValidatorPrefs := (ErasValidatorPrefs st)
      (era := (ErasValidatorPrefs st era)(stash \<mapsto> validator_prefs st stash))\<rparr>) st ys) = Ledger st"
    for ys and st :: "'a staking"
    by (rule Ledger_foldl) simp
  ultimately show ?thesis using t by (simp add: store_stakers_info_def Let_def)
qed

lemma Ledger_new_session: "Ledger (snd (new_session T i g s)) = Ledger s"
proof -
  have era: "Ledger (snd (trigger_new_era T i xs s)) = Ledger s" for i xs and s :: "'a staking"
    by (auto simp: trigger_new_era_def Let_def clear_era_information_def Ledger_store_stakers_info split: option.splits)
  obtain res w where el: "(if g then T_elect_genesis T s else T_elect T s) = (res, w)" by fastforce
  then have "Ledger (snd (try_trigger_new_era T i g s)) = Ledger s"
    by (cases res) (auto simp: try_trigger_new_era_def Let_def case_prod_unfold era split: option.splits)
  moreover obtain r s1 where "try_trigger_new_era T i g s = (r, s1)" by fastforce
  ultimately show ?thesis by (auto simp: new_session_def Let_def split: option.splits)
qed

lemma Ledger_sm_new_session:
  "Ledger (snd (sm_new_session T i s)) = Ledger s" "Ledger (snd (sm_new_session_genesis T i s)) = Ledger s"
  by (simp_all add: sm_new_session_def sm_new_session_genesis_def Ledger_new_session)

lemma ledgers_wf_set_controller:
  assumes "ledgers_wf s"
  shows "ledgers_wf (snd (set_controller T o1 x s))"
  using assms ledgers_wfD [OF assms]
  by (auto simp: set_controller_def Let_def ledgers_wf_def split: option.splits if_splits)

lemma ledgers_wf_kill_and_unlock:
  assumes "ledgers_wf s"
  shows "ledgers_wf (snd (kill_and_unlock T stash n s))"
proof -
  obtain r st where k: "kill_stash T stash n s = (r, st)" by fastforce
  have "ledgers_wf st"
    using kill_stash_Ledger [of T stash n s] k ledgers_wfD [OF assms] by (auto simp: ledgers_wf_def)
  with k show ?thesis by (cases r) (auto simp: kill_and_unlock_def intro: ledgers_wf_same)
qed

lemma ledgers_wf_removal:
  assumes "ledgers_wf s"
  shows "ledgers_wf (snd (force_unstake T o1 stash n s))" "ledgers_wf (snd (reap_stash T o1 stash n s))"
  using assms ledgers_wf_kill_and_unlock [OF assms]
  by (auto simp: force_unstake_def reap_stash_def Let_def split: option.splits)

lemma ledgers_wf_start_session:
  assumes "ledgers_wf s"
  shows "ledgers_wf (start_session T i s)"
proof -
  have era: "ledgers_wf (start_era T session s)" for session
    unfolding start_era_def Let_def
    by (rule apply_unapplied_slashes_keeps(5), rule ledgers_wf_same [OF assms]) (simp add: push_bonded_era_frame)
  have dis: "Ledger (foldl (\<lambda>st (index, disabled).
      if disabled then set_world (T_disable_validator T index (world st)) st else st) st xs) = Ledger st"
    for xs and st :: "'a staking"
    by (rule Ledger_foldl) (simp split: prod.splits)
  show ?thesis unfolding start_session_def Let_def
    by (rule ledgers_wf_same [OF _ dis]) (auto simp: assms era split: option.splits)
qed

lemma ledgers_wf_on_offence:
  assumes "ledgers_wf s"
  shows "ledgers_wf (snd (on_offence T offenders fractions i ds s))"
proof -
  have one: "ledgers_wf (snd (offence_one T a e rp ds invs acc x))" if "ledgers_wf (snd acc)" for a e rp invs acc x
  proof -
    obtain k s0 where acc: "acc = (k, s0)" by (cases acc)
    obtain details f where x: "x = (details, f)" by (cases x)
    obtain r s1 where c: "compute_slash T (offender_params T a e rp ds details f) s0 = (r, s1)" by fastforce
    have wf: "ledgers_wf s1" using that acc compute_slash_frame [OF c] by (auto intro: ledgers_wf_same)
    from ledgers_wf_apply_slash [OF wf] wf that acc x c show ?thesis
      by (auto simp: offence_one_def Let_def intro: ledgers_wf_same [OF wf] split: option.splits)
  qed
  have loop: "ledgers_wf (snd acc) \<Longrightarrow> ledgers_wf (snd (foldl (offence_one T a e rp ds invs) acc xs))"
    for a e rp invs acc xs
    by (induction xs arbitrary: acc) (simp_all add: one)
  have "ledgers_wf (s\<lparr>EarliestUnappliedSlash := x\<rparr>)" for x by (rule ledgers_wf_same [OF assms]) simp
  then show ?thesis using assms
    by (auto simp: on_offence_def Let_def intro!: loop split: option.splits)
qed

subsection \<open>Reachable states\<close>

lemma ledgers_wf_staking_step:
  assumes "staking_step T s s'" and "ledgers_wf s" and "stores_ok T s" and "payouts_fit T s"
    and "balances_u128 (T_currency T)"
    and "perbill_mul_bounded (T_perthings T)" and "perbill_from_rational_bounded (T_perthings T)"
  shows "ledgers_wf s'"
proof -
  note same = ledgers_wf_same [OF assms(2)]
  note calls = ledgers_wf_bond [OF assms(2,5)] ledgers_wf_bond_extra [OF assms(2,5)] ledgers_wf_unbond [OF assms(2)]
    ledgers_wf_withdraw_unbonded [OF assms(2)] ledgers_wf_rebond [OF assms(2)] ledgers_wf_set_controller [OF assms(2)]
    ledgers_wf_removal [OF assms(2)] ledgers_wf_payout_stakers [OF assms(2-4,6,7)]
    ledgers_wf_start_session [OF assms(2)] ledgers_wf_on_offence [OF assms(2)]
  show ?thesis
    using assms(1)
    by cases (auto simp: sm_start_session_def sm_end_session_def calls
        intro!: same simp: Ledger_unchanged Ledger_kick Ledger_set_history_depth Ledger_note Ledger_sm_new_session)
qed

lemma genesis_stakers_induct:
  assumes "genesis_stakers T xs s = Some s'" and "P s"
    and "\<And>st o1 c v. P st \<Longrightarrow> P (snd (bond T o1 c v RdStaked st))"
    and "\<And>st o1. P st \<Longrightarrow> P (snd (validate T o1 ValidatorPrefs_default st))"
    and "\<And>st o1 ts. P st \<Longrightarrow> P (snd (nominate T o1 ts st))"
  shows "P s'"
  using assms(1,2)
proof (induction xs arbitrary: s)
  case (Cons x xs)
  obtain stash c balance status where x: "x = (stash, c, balance, status)" by (cases x)
  from Cons.prems obtain s1 where s1: "genesis_staker T x s = Some s1" "genesis_stakers T xs s1 = Some s'"
    by (auto split: option.splits)
  let ?b = "snd (bond T (Signed stash) (T_unlookup T c) balance RdStaked s)"
  have b: "P ?b" by (rule assms(3) [OF Cons.prems(2)])
  have "s1 = ?b \<or> s1 = snd (validate T (Signed c) ValidatorPrefs_default ?b) \<or>
      (\<exists>votes. s1 = snd (nominate T (Signed c) (map (T_unlookup T) votes) ?b))"
    using s1(1) x
    by (cases status) (auto simp: genesis_staker_def split: if_splits prod.splits sum.splits, metis snd_conv)
  with assms(4,5) [OF b] b have "P s1" by auto
  with s1(2) show ?case by (rule Cons.IH)
qed simp

text \<open>At genesis no era has a reward yet.\<close>

definition no_rewards :: "'w staking \<Rightarrow> bool" where
  "no_rewards s \<longleftrightarrow> (\<forall>era. ErasValidatorReward s era = None) \<and> (\<forall>era v. ErasValidatorPrefs s era v = None)"

lemma no_rewards_fit: "no_rewards s \<Longrightarrow> payouts_fit T s"
  by (simp add: no_rewards_def payouts_fit_def eras_validator_prefs_def ValidatorPrefs_default_def)

lemma ledgers_wf_genesis:
  assumes "genesis_build T g (staking_default w) = Some s" and "balances_u128 (T_currency T)"
  shows "ledgers_wf s \<and> no_rewards s"
proof -
  let ?P = "\<lambda>st. ledgers_wf st \<and> no_rewards st"
  have kept: "no_rewards st \<Longrightarrow> no_rewards (snd (bond T o1 c v p st))"
    "no_rewards st \<Longrightarrow> no_rewards (snd (validate T o1 prefs st))"
    "no_rewards st \<Longrightarrow> no_rewards (snd (nominate T o1 ts st))" for st o1 c v p prefs ts
    by (auto simp: no_rewards_def bond_def validate_def nominate_def Let_def
        split: option.splits sum.splits prod.splits bool.splits)
  have "?P s'" if "genesis_stakers T xs s1 = Some s'" "?P s1" for xs s1 s'
    using that
    by (rule genesis_stakers_induct)
      (simp_all add: kept ledgers_wf_bond assms(2) ledgers_wf_same [OF _ Ledger_unchanged(1)]
        ledgers_wf_same [OF _ Ledger_unchanged(2)])
  then show ?thesis
    using assms(1)
    by (fastforce simp: genesis_build_def Let_def ledgers_wf_def no_rewards_def staking_default_def
        split: option.splits if_splits)
qed

text \<open>The states reachable as long as payouts fit.\<close>

inductive fitting_reachable :: "'w staking_config \<Rightarrow> 'w staking \<Rightarrow> bool" for T where
  genesis: "length (gen_stakers g) < u32_max \<Longrightarrow> genesis_build T g (staking_default w) = Some s \<Longrightarrow>
    fitting_reachable T s"
| step: "fitting_reachable T s \<Longrightarrow> payouts_fit T s \<Longrightarrow> staking_step T s s' \<Longrightarrow> fitting_reachable T s'"

lemma fitting_reachable_reachable: "fitting_reachable T s \<Longrightarrow> staking_reachable T s"
  by (induction rule: fitting_reachable.induct) (auto intro: staking_reachable.intros)

text \<open>C14. In every state reached while payouts fit, every ledger is balanced: what is active plus what is
  unlocking is the total, and the total is a \<^verbatim>\<open>u128\<close>; so no addition to a stake has overflowed, whatever calls,
  sessions, slashes and payouts came before.\<close>

theorem reachable_ledgers_balanced:
  assumes "fitting_reachable T s" and "balances_u128 (T_currency T)"
    and "perbill_mul_bounded (T_perthings T)" and "perbill_from_rational_bounded (T_perthings T)"
    and "Ledger s c = Some l"
  shows "sl_total l = sl_active l + unlocking_sum (sl_unlocking l) \<and> sl_total l \<le> u128_max"
proof -
  from assms(1) have "ledgers_wf s"
  proof induction
    case (genesis g w s)
    with ledgers_wf_genesis [OF genesis(2) assms(2)] show ?case by blast
  next
    case (step s s')
    from ledgers_wf_staking_step [OF step(3,4) stores_reachable [OF fitting_reachable_reachable [OF step(1)]] step(2)]
      assms(2-4) show ?case by blast
  qed
  with assms(5) have "wf_ledger l" by (auto simp: ledgers_wf_def)
  then show ?thesis by (simp add: wf_ledger_def)
qed

definition sample_unbonded :: "bank staking" where
  "sample_unbonded = snd (unbond sample_T_u128 (Signed 120) 30
     (the (genesis_build sample_T_u128 sample_genesis (staking_default sample_bank))))"

lemma sample_unbonded_reachable: "fitting_reachable sample_T_u128 sample_unbonded"
proof -
  let ?g = "genesis_build sample_T_u128 sample_genesis (staking_default sample_bank)"
  have "?g \<noteq> None" by code_simp
  then have g: "?g = Some (the ?g)" by simp
  have "fitting_reachable sample_T_u128 (the ?g)"
    by (rule fitting_reachable.genesis [OF _ g]) (simp add: sample_genesis_def u32_max_def)
  moreover have "payouts_fit sample_T_u128 (the ?g)"
    using ledgers_wf_genesis [OF g sample_balances_u128] by (simp add: no_rewards_fit)
  ultimately show ?thesis unfolding sample_unbonded_def by (rule fitting_reachable.step) (rule call_unbond)
qed

lemma sample_perthings_bounded:
  "perbill_mul_bounded sample_perthings" "perbill_from_rational_bounded sample_perthings"
proof -
  have 1: "p * x div n \<le> x" if "p \<le> n" for p x n :: nat
    using div_le_mono [OF mult_le_mono1 [OF that, of x], of n] by (cases "n = 0") simp_all
  show "perbill_mul_bounded sample_perthings"
    by (simp add: perbill_mul_bounded_def perbill_accuracy_def sample_perthings_def 1)
  show "perbill_from_rational_bounded sample_perthings"
    using 1 by (simp add: perbill_from_rational_bounded_def perbill_accuracy_def sample_perthings_def)
qed

theorem reachable_ledgers_balanced_witness:
  "\<exists>l. Ledger sample_unbonded 120 = Some l \<and> length (sl_unlocking l) = 1 \<and>
     sl_total l = sl_active l + unlocking_sum (sl_unlocking l) \<and> sl_active l < sl_total l"
proof -
  have "map_option (\<lambda>l. (length (sl_unlocking l), sl_active l < sl_total l)) (Ledger sample_unbonded 120) = Some (1, True)"
    by code_simp
  then obtain l where l: "Ledger sample_unbonded 120 = Some l" "length (sl_unlocking l) = 1" "sl_active l < sl_total l"
    by auto
  have "T_perthings sample_T_u128 = sample_perthings" by (simp add: sample_T_u128_def sample_T_def sample_config_def)
  note P = sample_perthings_bounded [folded this]
  from reachable_ledgers_balanced [OF sample_unbonded_reachable sample_balances_u128 P l(1)] l show ?thesis by blast
qed

end
