(* ===== verification/Staking_Testing.thy ===== *)
theory Staking_Testing
  imports Staking_Elections
begin

section \<open>Staking: setting up state for measurements\<close>

text \<open>
  The functions of \<^verbatim>\<open>impls.rs\<close> and \<^verbatim>\<open>lib.rs\<close> that exist for benchmarks: they write the data of an election
  straight into the storage, without the calls that would check it. \<open>unsafe_clear\<close> is the voter list's
  operation of that name, \<open>burn_all\<close> burning the whole issuance and forgetting the imbalance.

  What they are meant for: after \<open>put_snapshot\<close> the targets are validators and the voters nominators with
  the given stakes, and the ledgers written are balanced. \<open>set_score_of\<close> says of itself that it leaves an
  inconsistent state; so it does.
\<close>

subsection \<open>Writing stakers\<close>

definition add_era_stakers :: "EraIndex \<Rightarrow> AccountId \<Rightarrow> Exposure \<Rightarrow> 'w staking \<Rightarrow> 'w staking" where
  "add_era_stakers current_era controller exposure s =
     s\<lparr>ErasStakers := (ErasStakers s)(current_era := (ErasStakers s current_era)(controller \<mapsto> exposure))\<rparr>"

definition set_slash_reward_fraction :: "Perbill \<Rightarrow> 'w staking \<Rightarrow> 'w staking" where
  "set_slash_reward_fraction fraction s = s\<lparr>SlashRewardFraction := fraction\<rparr>"

text \<open>The two inserts the functions below have in common: an account that is its own controller.\<close>

definition insert_staker :: "AccountId \<Rightarrow> Balance \<Rightarrow> 'w staking \<Rightarrow> 'w staking" where
  "insert_staker who stake s =
     s\<lparr>Bonded := (Bonded s)(who \<mapsto> who),
       Ledger := (Ledger s)(who \<mapsto> \<lparr>sl_stash = who, sl_total = stake, sl_active = stake,
                                     sl_unlocking = [], sl_claimed_rewards = []\<rparr>)\<rparr>"

definition add_voter ::
  "'w staking_config \<Rightarrow> AccountId \<Rightarrow> u64 \<Rightarrow> AccountId list \<Rightarrow> 'w staking \<Rightarrow> 'w staking" where
  "add_voter T voter weight targets s =
     do_add_nominator T voter \<lparr>nom_targets = targets, nom_submitted_in = 0, nom_suppressed = False\<rparr>
       (insert_staker voter weight s)"

definition add_target :: "'w staking_config \<Rightarrow> AccountId \<Rightarrow> 'w staking \<Rightarrow> 'w staking" where
  "add_target T target s =
     (let stake = wrap_mul u128_max (MinValidatorBond s) 100
      in do_add_validator T target \<lparr>vp_commission = 0, vp_blocked = False\<rparr> (insert_staker target stake s))"

definition clear :: "('w staking \<Rightarrow> 'w staking) \<Rightarrow> 'w staking \<Rightarrow> 'w staking" where
  "clear unsafe_clear s =
     unsafe_clear (s\<lparr>Bonded := Map.empty, Ledger := Map.empty,
       Validators := Map.empty, CounterForValidators := 0,
       Nominators := Map.empty, CounterForNominators := 0\<rparr>)"

definition put_target :: "'w staking_config \<Rightarrow> u64 option \<Rightarrow> 'w staking \<Rightarrow> AccountId \<Rightarrow> 'w staking" where
  "put_target T target_stake s v =
     (let stake = (case target_stake of Some w \<Rightarrow> w | None \<Rightarrow> wrap_mul u128_max (MinNominatorBond s) 100)
      in do_add_validator T v \<lparr>vp_commission = 0, vp_blocked = False\<rparr> (insert_staker v stake s))"

definition put_voter :: "'w staking_config \<Rightarrow> 'w staking \<Rightarrow> voter \<Rightarrow> 'w staking" where
  "put_voter T s = (\<lambda>(v, stake, t).
     do_add_nominator T v \<lparr>nom_targets = t, nom_submitted_in = 0, nom_suppressed = False\<rparr>
       (insert_staker v stake s))"

definition put_snapshot ::
  "'w staking_config \<Rightarrow> voter list \<Rightarrow> AccountId list \<Rightarrow> u64 option \<Rightarrow> 'w staking \<Rightarrow> 'w staking" where
  "put_snapshot T voters targets target_stake s =
     foldl (put_voter T) (foldl (put_target T target_stake) s targets) voters"

definition set_score_of :: "('w \<Rightarrow> 'w) \<Rightarrow> AccountId \<Rightarrow> u64 \<Rightarrow> 'w staking \<Rightarrow> 'w staking" where
  "set_score_of burn_all who weight s =
     (let l = (case Ledger s who of None \<Rightarrow> default_from who | Some l \<Rightarrow> l)
      in s\<lparr>Ledger := (Ledger s)(who \<mapsto> l\<lparr>sl_active := weight\<rparr>), Bonded := (Bonded s)(who \<mapsto> who),
           world := burn_all (world s)\<rparr>)"

text \<open>\<^verbatim>\<open>UnappliedSlash::default_from\<close>, which is for tests and benchmarks.\<close>

definition unapplied_default_from :: "AccountId \<Rightarrow> UnappliedSlash" where
  "unapplied_default_from validator =
     \<lparr>us_validator = validator, us_own = 0, us_others = [], us_reporters = [], us_payout = 0\<rparr>"

text \<open>\<^verbatim>\<open>weight_of_fn\<close>: the issuance is read once. \<^verbatim>\<open>SessionInterface\<close> for \<^verbatim>\<open>()\<close>, a chain without sessions.\<close>

definition weight_of_fn :: "'w staking_config \<Rightarrow> 'w staking \<Rightarrow> 'w staking \<Rightarrow> AccountId \<Rightarrow> u64" where
  "weight_of_fn T s =
     (let issuance = cur_total_issuance (T_currency T) (world s)
      in (\<lambda>now who. slashable_balance_of_vote_weight T now who issuance))"

definition without_sessions :: "'w staking_config \<Rightarrow> 'w staking_config" where
  "without_sessions T =
     T\<lparr>T_disable_validator := (\<lambda>_ w. w), T_session_validators := (\<lambda>_. []),
       T_prune_historical_up_to := (\<lambda>_ w. w)\<rparr>"

subsection \<open>What they write\<close>

lemmas testing_writes = insert_staker_def do_add_nominator_def do_add_validator_def Nominators_insert_def
  Validators_insert_def Let_def

lemma put_target_writes:
  "Bonded (put_target T ts s v) = (Bonded s)(v \<mapsto> v)"
  "dom (Validators (put_target T ts s v)) = insert v (dom (Validators s))"
  "Nominators (put_target T ts s v) = Nominators s"
  "\<exists>stake. Ledger (put_target T ts s v) = (Ledger s)(v \<mapsto> \<lparr>sl_stash = v, sl_total = stake, sl_active = stake,
      sl_unlocking = [], sl_claimed_rewards = []\<rparr>) \<and>
    (case ts of Some w \<Rightarrow> stake = w | None \<Rightarrow> stake = wrap_mul u128_max (MinNominatorBond s) 100)"
  by (auto simp: put_target_def testing_writes split: option.split)

lemma put_voter_writes:
  "Bonded (put_voter T s (v, stake, t)) = (Bonded s)(v \<mapsto> v)"
  "Nominators (put_voter T s (v, stake, t)) =
     (Nominators s)(v \<mapsto> \<lparr>nom_targets = t, nom_submitted_in = 0, nom_suppressed = False\<rparr>)"
  "Validators (put_voter T s (v, stake, t)) = Validators s"
  "Ledger (put_voter T s (v, stake, t)) = (Ledger s)(v \<mapsto> \<lparr>sl_stash = v, sl_total = stake, sl_active = stake,
      sl_unlocking = [], sl_claimed_rewards = []\<rparr>)"
  by (auto simp: put_voter_def testing_writes)

lemma put_targets_writes:
  "dom (Validators (foldl (put_target T ts) s targets)) = dom (Validators s) \<union> set targets \<and>
   Nominators (foldl (put_target T ts) s targets) = Nominators s"
  by (induction targets arbitrary: s) (simp_all add: put_target_writes)

lemma put_voters_writes:
  assumes "distinct (map fst voters)"
  shows "Validators (foldl (put_voter T) s voters) = Validators s \<and>
    (\<forall>v stake t. (v, stake, t) \<in> set voters \<longrightarrow>
       Nominators (foldl (put_voter T) s voters) v =
         Some \<lparr>nom_targets = t, nom_submitted_in = 0, nom_suppressed = False\<rparr> \<and>
       slashable_balance_of (foldl (put_voter T) s voters) v = stake) \<and>
    (\<forall>v. v \<notin> fst ` set voters \<longrightarrow>
       Nominators (foldl (put_voter T) s voters) v = Nominators s v \<and>
       Bonded (foldl (put_voter T) s voters) v = Bonded s v \<and>
       Ledger (foldl (put_voter T) s voters) v = Ledger s v)"
  using assms
proof (induction voters arbitrary: s)
  case (Cons x voters)
  obtain v stake t where x: "x = (v, stake, t)" by (cases x)
  let ?s = "put_voter T s x"
  have new: "v \<notin> fst ` set voters" using Cons.prems x by force
  have IH: "Validators (foldl (put_voter T) ?s voters) = Validators ?s"
    "\<And>v stake t. (v, stake, t) \<in> set voters \<Longrightarrow>
       Nominators (foldl (put_voter T) ?s voters) v =
         Some \<lparr>nom_targets = t, nom_submitted_in = 0, nom_suppressed = False\<rparr> \<and>
       slashable_balance_of (foldl (put_voter T) ?s voters) v = stake"
    "\<And>v. v \<notin> fst ` set voters \<Longrightarrow>
       Nominators (foldl (put_voter T) ?s voters) v = Nominators ?s v \<and>
       Bonded (foldl (put_voter T) ?s voters) v = Bonded ?s v \<and>
       Ledger (foldl (put_voter T) ?s voters) v = Ledger ?s v"
    using Cons.IH [of ?s] Cons.prems by auto
  from IH(3) [OF new] x
  have "slashable_balance_of (foldl (put_voter T) ?s voters) v = stake"
    "Nominators (foldl (put_voter T) ?s voters) v =
       Some \<lparr>nom_targets = t, nom_submitted_in = 0, nom_suppressed = False\<rparr>"
    by (simp_all add: slashable_balance_of_def put_voter_writes)
  with IH x show ?case by (auto simp: put_voter_writes)
qed simp

text \<open>After \<open>put_snapshot\<close> on cleared storage the validators are the targets, the nominators the voters, with
  their stakes, and the voters of an election are exactly those given.\<close>

lemma put_snapshot_roles:
  assumes "distinct (map fst voters)" and "s' = put_snapshot T voters targets ts (clear vm_unsafe_clear s)"
  shows "dom (Validators s') = set targets" and "dom (Nominators s') = fst ` set voters"
    and "(v, stake, t) \<in> set voters \<Longrightarrow> Nominators s' v =
      Some \<lparr>nom_targets = t, nom_submitted_in = 0, nom_suppressed = False\<rparr> \<and> slashable_balance_of s' v = stake"
proof -
  let ?c = "clear vm_unsafe_clear s"
  let ?t = "foldl (put_target T ts) ?c targets"
  have c: "Validators ?c = Map.empty" "Nominators ?c = Map.empty" by (simp_all add: clear_def vm_unsafe_clear_def)
  note t = put_targets_writes [of T ts ?c targets] and w = put_voters_writes [OF assms(1), of T ?t]
  show "dom (Validators s') = set targets" using t w c by (simp add: assms(2) put_snapshot_def)
  show voter: "Nominators s' v = Some \<lparr>nom_targets = t, nom_submitted_in = 0, nom_suppressed = False\<rparr> \<and>
      slashable_balance_of s' v = stake" if "(v, stake, t) \<in> set voters" for v stake t
    using w that by (simp add: assms(2) put_snapshot_def)
  have "Nominators s' v = None" if "v \<notin> fst ` set voters" for v
    using w t c that by (simp add: assms(2) put_snapshot_def)
  with voter show "dom (Nominators s') = fst ` set voters" by fastforce
qed

text \<open>The ledgers written are balanced; the one of \<open>set_score_of\<close> is not, if the account had stake.\<close>

lemma insert_staker_wf:
  assumes "ledgers_wf s" and "stake \<le> u128_max"
  shows "ledgers_wf (insert_staker who stake s)"
proof -
  have "wf_ledger \<lparr>sl_stash = who, sl_total = stake, sl_active = stake, sl_unlocking = [], sl_claimed_rewards = []\<rparr>"
    using assms(2) by (simp add: wf_ledger_def)
  with assms(1) show ?thesis by (auto simp: insert_staker_def ledgers_wf_def)
qed

lemma set_score_of_unbalanced:
  assumes "ledgers_wf s" and "Ledger s who = Some l" and "weight \<noteq> sl_active l"
  shows "\<not> ledgers_wf (set_score_of b who weight s)"
proof
  assume "ledgers_wf (set_score_of b who weight s)"
  then have "wf_ledger (l\<lparr>sl_active := weight\<rparr>)"
    using assms(2) unfolding ledgers_wf_def set_score_of_def Let_def by (elim allE [of _ who]) simp
  moreover have "wf_ledger l" using assms(1,2) by (auto simp: ledgers_wf_def)
  ultimately show False using assms(3) by (simp add: wf_ledger_def)
qed

lemma weight_of_fn_now: "weight_of_fn T s s = weight_of T s"
  by (rule ext) (simp add: weight_of_fn_def weight_of_def)

end
