(* ===== verification/Runtime_Config.thy ===== *)
theory Runtime_Config
  imports Runtime Runtime_Weights Chain_Spec
begin

section \<open>The configuration of the library pallets\<close>

text \<open>
  The values with which \<^verbatim>\<open>runtime/src/lib.rs\<close> configures the pallets of the framework: a record per
  trait \<^verbatim>\<open>Config\<close>, with a field for every associated type that stands for a value, an origin, or another
  pallet, and the runtime's implementation of it. Types that only name data (events, calls, hashes) and
  the tables of weights of the library are left out.

  Which origins pass a check of the framework is library code: the record \<open>ensures\<close>, with the documented
  meaning of the proportions in \<open>counts_votes\<close>. What the lemmas say is what the values are chosen for:
  the phases of an election fit in an epoch, offences can be reported as long as stakes are bonded,
  the bodies of the government are ordered by what they may do, and what is lost to dust or burnt is kept
  in the fund.
\<close>

subsection \<open>Pallets\<close>

text \<open>The pallets of \<^verbatim>\<open>construct_runtime\<close> in their order, each with its parts. The order is the order
  of the hooks.\<close>

datatype pallet =
    P_System | P_RandomnessCollectiveFlip | P_Timestamp | P_Sudo
  | P_ImOnline | P_AuthorityDiscovery | P_Offences
  | P_Indices
  | P_Balances | P_TransactionPayment
  | P_Authorship | P_CollatorSelection | P_Babe | P_Grandpa | P_Staking
  | P_ElectionProviderMultiPhase | P_VoterList
  | P_Session | P_Historical
  | P_Contracts | P_Ethereum | P_EVM
  | P_Council | P_TechnicalCommittee | P_Treasury | P_Bounties | P_Democracy
  | P_ElectionsPhragmen | P_TechnicalMembership | P_Tips
  | P_EvmAccounts
  | P_Utility | P_Multisig | P_Scheduler
  | P_Identity | P_Vesting
  | P_AssetConfig
  | P_Revenue | P_Fund | P_RevenueFund

datatype part =
    Pt_Pallet | Pt_Call | Pt_Config | Pt_Storage | Pt_Event | Pt_Origin | Pt_Inherent | Pt_ValidateUnsigned

definition construct_runtime :: "(pallet \<times> part list) list" where
  "construct_runtime =
     [(P_System, [Pt_Pallet, Pt_Call, Pt_Config, Pt_Storage, Pt_Event]),
      (P_RandomnessCollectiveFlip, [Pt_Pallet, Pt_Storage]),
      (P_Timestamp, [Pt_Pallet, Pt_Call, Pt_Storage, Pt_Inherent]),
      (P_Sudo, [Pt_Pallet, Pt_Call, Pt_Config, Pt_Storage, Pt_Event]),
      (P_ImOnline, [Pt_Pallet, Pt_Call, Pt_Storage, Pt_Event, Pt_ValidateUnsigned, Pt_Config]),
      (P_AuthorityDiscovery, [Pt_Pallet, Pt_Config]),
      (P_Offences, [Pt_Pallet, Pt_Storage, Pt_Event]),
      (P_Indices, [Pt_Pallet, Pt_Call, Pt_Storage, Pt_Config, Pt_Event]),
      (P_Balances, [Pt_Pallet, Pt_Call, Pt_Storage, Pt_Config, Pt_Event]),
      (P_TransactionPayment, [Pt_Pallet, Pt_Storage, Pt_Event]),
      (P_Authorship, [Pt_Pallet, Pt_Call, Pt_Storage]),
      (P_CollatorSelection, [Pt_Pallet, Pt_Call, Pt_Storage, Pt_Event, Pt_Config]),
      (P_Babe, [Pt_Pallet, Pt_Call, Pt_Storage, Pt_Config, Pt_ValidateUnsigned]),
      (P_Grandpa, [Pt_Pallet, Pt_Call, Pt_Storage, Pt_Config, Pt_Event, Pt_ValidateUnsigned]),
      (P_Staking, [Pt_Pallet, Pt_Call, Pt_Storage, Pt_Config, Pt_Event]),
      (P_ElectionProviderMultiPhase, [Pt_Pallet, Pt_Call, Pt_Storage, Pt_Event, Pt_ValidateUnsigned]),
      (P_VoterList, [Pt_Pallet, Pt_Call, Pt_Storage, Pt_Event]),
      (P_Session, [Pt_Pallet, Pt_Call, Pt_Storage, Pt_Event, Pt_Config]),
      (P_Historical, [Pt_Pallet]),
      (P_Contracts, [Pt_Pallet, Pt_Call, Pt_Storage, Pt_Event]),
      (P_Ethereum, [Pt_Pallet, Pt_Call, Pt_Storage, Pt_Event, Pt_Origin, Pt_Config]),
      (P_EVM, [Pt_Pallet, Pt_Config, Pt_Call, Pt_Storage, Pt_Event]),
      (P_Council, [Pt_Pallet, Pt_Call, Pt_Storage, Pt_Origin, Pt_Event, Pt_Config]),
      (P_TechnicalCommittee, [Pt_Pallet, Pt_Call, Pt_Storage, Pt_Origin, Pt_Event, Pt_Config]),
      (P_Treasury, [Pt_Pallet, Pt_Call, Pt_Storage, Pt_Event, Pt_Config]),
      (P_Bounties, [Pt_Pallet, Pt_Call, Pt_Storage, Pt_Event]),
      (P_Democracy, [Pt_Pallet, Pt_Call, Pt_Storage, Pt_Config, Pt_Event]),
      (P_ElectionsPhragmen, [Pt_Pallet, Pt_Call, Pt_Storage, Pt_Event, Pt_Config]),
      (P_TechnicalMembership, [Pt_Pallet, Pt_Call, Pt_Storage, Pt_Event, Pt_Config]),
      (P_Tips, [Pt_Pallet, Pt_Call, Pt_Storage, Pt_Event]),
      (P_EvmAccounts, [Pt_Pallet, Pt_Call, Pt_Storage, Pt_Event]),
      (P_Utility, [Pt_Pallet, Pt_Call, Pt_Event]),
      (P_Multisig, [Pt_Pallet, Pt_Call, Pt_Storage, Pt_Event]),
      (P_Scheduler, [Pt_Pallet, Pt_Call, Pt_Storage, Pt_Event]),
      (P_Identity, [Pt_Pallet, Pt_Call, Pt_Storage, Pt_Event]),
      (P_Vesting, [Pt_Pallet, Pt_Call, Pt_Storage, Pt_Event, Pt_Config]),
      (P_AssetConfig, [Pt_Pallet, Pt_Call, Pt_Storage, Pt_Event]),
      (P_Revenue, [Pt_Pallet, Pt_Call, Pt_Storage, Pt_Config, Pt_Event]),
      (P_Fund, [Pt_Pallet, Pt_Call, Pt_Storage, Pt_Event, Pt_Config]),
      (P_RevenueFund, [Pt_Pallet, Pt_Call, Pt_Storage, Pt_Event, Pt_Config])]"

definition pallets_with :: "part \<Rightarrow> pallet list" where
  "pallets_with pt = map fst (filter (\<lambda>(p, pts). pt \<in> set pts) construct_runtime)"

text \<open>Every pallet occurs once; Babe comes before the session pallet, as a comment demands. Extrinsics
  without a signature are validated by four pallets; Ethereum transactions are not among them, they
  carry their own signature.\<close>

lemma runtime_pallets_distinct: "distinct (map fst construct_runtime)"
  by (simp add: construct_runtime_def)

lemma babe_before_session:
  "takeWhile (\<lambda>p. p \<noteq> P_Session) (map fst construct_runtime) =
     takeWhile (\<lambda>p. p \<noteq> P_Babe) (map fst construct_runtime) @
     [P_Babe, P_Grandpa, P_Staking, P_ElectionProviderMultiPhase, P_VoterList]"
  by (simp add: construct_runtime_def)

lemma unsigned_pallets:
  "pallets_with Pt_ValidateUnsigned = [P_ImOnline, P_Babe, P_Grandpa, P_ElectionProviderMultiPhase]"
  by (simp add: pallets_with_def construct_runtime_def)

subsection \<open>Origins\<close>

record 'o ensures =
  ens_root :: "'o \<Rightarrow> bool"
  ens_more_than :: "pallet \<Rightarrow> nat \<Rightarrow> nat \<Rightarrow> 'o \<Rightarrow> bool"
  ens_at_least :: "pallet \<Rightarrow> nat \<Rightarrow> nat \<Rightarrow> 'o \<Rightarrow> bool"
  ens_member :: "pallet \<Rightarrow> 'o \<Rightarrow> bool"
  ens_never :: "'o \<Rightarrow> bool"

text \<open>The collectives, by their pallets.\<close>

definition CouncilCollective :: pallet where
  "CouncilCollective = P_Council"

definition TechnicalCollective :: pallet where
  "TechnicalCollective = P_TechnicalCommittee"

definition EnsureRootOrHalfCouncil :: "'o ensures \<Rightarrow> 'o \<Rightarrow> bool" where
  "EnsureRootOrHalfCouncil E og \<longleftrightarrow> ens_root E og \<or> ens_more_than E CouncilCollective 1 2 og"

definition SlashCancelOrigin :: "'o ensures \<Rightarrow> 'o \<Rightarrow> bool" where
  "SlashCancelOrigin E og \<longleftrightarrow> ens_root E og \<or> ens_at_least E CouncilCollective 3 4 og"

definition CollatorSelectionUpdateOrigin :: "'o ensures \<Rightarrow> 'o \<Rightarrow> bool" where
  "CollatorSelectionUpdateOrigin E = EnsureRootOrHalfCouncil E"

subsection \<open>Where value goes\<close>

text \<open>What a pallet does with value it takes: to a pallet, to the fund (\<^verbatim>\<open>FundBalance\<close>), or nowhere.\<close>

datatype sink = To_pallet pallet | To_fund | Burnt

subsection \<open>Units and time\<close>

definition MILLICENTS :: Balance where
  "MILLICENTS = CENTS div 1000"

definition MICROCENTS :: Balance where
  "MICROCENTS = MILLICENTS div 1000"

definition GIGAWEI :: Balance where
  "GIGAWEI = 1000000000"

definition SUPPLY_FACTOR :: Balance where
  "SUPPLY_FACTOR = 100"

definition DefaultBaseFeePerGas :: U256 where
  "DefaultBaseFeePerGas = 1 * GIGAWEI * SUPPLY_FACTOR"

definition SLOT_DURATION :: u64 where
  "SLOT_DURATION = MILLISECS_PER_BLOCK"

definition PRIMARY_PROBABILITY :: "u64 \<times> u64" where
  "PRIMARY_PROBABILITY = (1, 4)"

text \<open>The source multiplies floating-point numbers by a rate that is one.\<close>

definition EPOCH_DURATION_IN_SLOTS :: u64 where
  "EPOCH_DURATION_IN_SLOTS = EPOCH_DURATION_IN_BLOCKS * MILLISECS_PER_BLOCK div SLOT_DURATION"

definition AVERAGE_ON_INITIALIZE_RATIO :: Perbill where
  "AVERAGE_ON_INITIALIZE_RATIO = 25000000"

definition SessionDuration :: BlockNumber where
  "SessionDuration = EPOCH_DURATION_IN_BLOCKS"

definition Period :: BlockNumber where
  "Period = 6 * HOURS"

definition EpochDuration :: u64 where
  "EpochDuration = EPOCH_DURATION_IN_SLOTS"

definition ReportLongevity :: u64 where
  "ReportLongevity = wrap_mul u64_max (wrap_mul u64_max 28 6) EpochDuration"

definition StakingUnsignedPriority :: u64 where
  "StakingUnsignedPriority = u64_max div 2"

definition ImOnlineUnsignedPriority :: u64 where
  "ImOnlineUnsignedPriority = u64_max"

definition NposSolutionPriority :: "perthings \<Rightarrow> u64" where
  "NposSolutionPriority P = perbill_mul P 900000000 u64_max"

text \<open>Limits of a solution computed off chain; the limits of a block are computed by the library.\<close>

definition OffchainSolutionWeightLimit :: "Weight option \<Rightarrow> Weight \<Rightarrow> Weight option" where
  "OffchainSolutionWeightLimit max_extrinsic block_execution_weight =
     map_option (\<lambda>w. w - block_execution_weight) max_extrinsic"

definition OffchainSolutionLengthLimit :: "perthings \<Rightarrow> u32 \<Rightarrow> u32" where
  "OffchainSolutionLengthLimit P normal_length =
     perbill_mul P (perbill_from_rational P 90 100) normal_length"

lemmas runtime_times = SLOT_DURATION_def EPOCH_DURATION_IN_SLOTS_def EPOCH_DURATION_IN_BLOCKS_def
  EpochDuration_def SessionDuration_def Period_def MILLISECS_PER_BLOCK_def SECS_PER_BLOCK_def
  MINUTES_def HOURS_def DAYS_def

lemma epoch_slots: "EPOCH_DURATION_IN_SLOTS = EPOCH_DURATION_IN_BLOCKS" "EPOCH_DURATION_IN_SLOTS = 2400"
  by (simp_all add: runtime_times)

text \<open>An offence can be reported as long as the stake that backed it is bonded.\<close>

lemma reports_outlive_bonds:
  "ReportLongevity =
     T_BondingDuration (glitch_staking db T) * (T_SessionsPerEra (glitch_staking db T) * EPOCH_DURATION_IN_SLOTS)"
  by (simp add: ReportLongevity_def glitch_staking_def runtime_times wrap_mul_def u64_max_def)

text \<open>A heartbeat comes before any solution of an election that is mined off chain.\<close>

lemma unsigned_priorities:
  assumes "perbill_mul_bounded P"
  shows "NposSolutionPriority P \<le> ImOnlineUnsignedPriority"
    and "StakingUnsignedPriority < ImOnlineUnsignedPriority"
  using assms by (simp_all add: perbill_mul_bounded_def perbill_accuracy_def NposSolutionPriority_def
      ImOnlineUnsignedPriority_def StakingUnsignedPriority_def u64_max_def)

subsection \<open>Balances, fees and identities\<close>

record balances_config =
  bal_DustRemoval :: sink
  bal_ExistentialDeposit :: Balance
  bal_AccountStore :: pallet
  bal_MaxLocks :: u32
  bal_MaxReserves :: u32

definition glitch_balances :: balances_config where
  "glitch_balances =
     \<lparr>bal_DustRemoval = To_fund, bal_ExistentialDeposit = EXISTENTIAL_DEPOSIT, bal_AccountStore = P_System,
      bal_MaxLocks = 50, bal_MaxReserves = 50\<rparr>"

text \<open>The fees of a transaction: its handler is \<open>deal_with_fees\<close>, the weight is priced by
  \<open>weight_to_fee_coefficient\<close>, a byte of the encoding at \<open>tp_TransactionByteFee\<close>. A multiplier is a
  fixed-point number with eighteen digits, \<^verbatim>\<open>Perquintill::one()\<close> has as many.\<close>

record transaction_payment_config =
  tp_OperationalFeeMultiplier :: nat
  tp_WeightToFee :: Balance
  tp_TransactionByteFee :: Balance
  tp_FeeMultiplierUpdate :: "nat \<Rightarrow> nat"
  tp_min :: nat
  tp_target :: nat
  tp_variability :: nat

definition glitch_transaction_payment :: transaction_payment_config where
  "glitch_transaction_payment =
     \<lparr>tp_OperationalFeeMultiplier = 5, tp_WeightToFee = weight_to_fee_coefficient,
      tp_TransactionByteFee = 10 * MILLICENTS, tp_FeeMultiplierUpdate = constant_fee_update,
      tp_min = 10 ^ 18, tp_target = 10 ^ 18, tp_variability = 10 ^ 18\<rparr>"

text \<open>The limits between which the base fee of gas would be adjusted, in millionths.\<close>

record base_fee_threshold =
  bf_lower :: nat
  bf_ideal :: nat
  bf_upper :: nat

definition BaseFeeThreshold :: base_fee_threshold where
  "BaseFeeThreshold = \<lparr>bf_lower = 0, bf_ideal = 500000, bf_upper = 1000000\<rparr>"

record 'o identity_config =
  id_Currency :: pallet
  id_BasicDeposit :: Balance
  id_FieldDeposit :: Balance
  id_SubAccountDeposit :: Balance
  id_MaxSubAccounts :: u32
  id_MaxAdditionalFields :: u32
  id_MaxRegistrars :: u32
  id_Slashed :: sink
  id_ForceOrigin :: "'o \<Rightarrow> bool"
  id_RegistrarOrigin :: "'o \<Rightarrow> bool"

definition glitch_identity :: "'o ensures \<Rightarrow> 'o identity_config" where
  "glitch_identity E =
     \<lparr>id_Currency = P_Balances, id_BasicDeposit = 10 * DOLLARS, id_FieldDeposit = 250 * CENTS,
      id_SubAccountDeposit = 2 * DOLLARS, id_MaxSubAccounts = 100, id_MaxAdditionalFields = 100,
      id_MaxRegistrars = 20, id_Slashed = To_pallet P_Treasury,
      id_ForceOrigin = EnsureRootOrHalfCouncil E, id_RegistrarOrigin = EnsureRootOrHalfCouncil E\<rparr>"

record vesting_config =
  ve_Currency :: pallet
  ve_MinVestedTransfer :: Balance
  ve_MAX_VESTING_SCHEDULES :: u32

definition glitch_vesting :: vesting_config where
  "glitch_vesting =
     \<lparr>ve_Currency = P_Balances, ve_MinVestedTransfer = 100 * DOLLARS, ve_MAX_VESTING_SCHEDULES = 28\<rparr>"

record indices_config =
  ix_Currency :: pallet
  ix_Deposit :: Balance

definition glitch_indices :: indices_config where
  "glitch_indices = \<lparr>ix_Currency = P_Balances, ix_Deposit = 10 * DOLLARS\<rparr>"

record multisig_config =
  ms_Currency :: pallet
  ms_DepositBase :: Balance
  ms_DepositFactor :: Balance
  ms_MaxSignatories :: nat

definition glitch_multisig :: multisig_config where
  "glitch_multisig =
     \<lparr>ms_Currency = P_Balances, ms_DepositBase = deposit_for 1 88, ms_DepositFactor = deposit_for 0 32,
      ms_MaxSignatories = 100\<rparr>"

text \<open>The price of adding an account to the state is at least the existential deposit.\<close>

lemma deposits_cover_existence:
  "bal_ExistentialDeposit glitch_balances \<le> ms_DepositBase glitch_multisig"
  "bal_ExistentialDeposit glitch_balances \<le> ix_Deposit glitch_indices"
  "bal_ExistentialDeposit glitch_balances \<le> ve_MinVestedTransfer glitch_vesting"
  by (simp_all add: glitch_balances_def glitch_multisig_def glitch_indices_def glitch_vesting_def
      deposit_for_def EXISTENTIAL_DEPOSIT_def CENTS_def DOLLARS_def)

subsection \<open>Blocks, sessions and elections\<close>

definition glitch_timestamp_MinimumPeriod :: u64 where
  "glitch_timestamp_MinimumPeriod = SLOT_DURATION div 2"

record authorship_config =
  au_FindAuthor :: pallet
  au_UncleGenerations :: BlockNumber
  au_EventHandler :: "pallet list"

definition glitch_authorship :: authorship_config where
  "glitch_authorship =
     \<lparr>au_FindAuthor = P_Babe, au_UncleGenerations = 0, au_EventHandler = [P_Staking, P_ImOnline]\<rparr>"

record session_config =
  se_ShouldEndSession :: pallet
  se_NextSessionRotation :: pallet
  se_SessionManager :: pallet

definition glitch_session :: session_config where
  "glitch_session =
     \<lparr>se_ShouldEndSession = P_Babe, se_NextSessionRotation = P_Babe, se_SessionManager = P_Staking\<rparr>"

record babe_config =
  ba_EpochDuration :: u64
  ba_ExpectedBlockTime :: u64
  ba_DisabledValidators :: pallet
  ba_KeyOwnerProofSystem :: pallet
  ba_HandleEquivocation :: "pallet \<times> u64"
  ba_MaxAuthorities :: u32

definition glitch_babe :: babe_config where
  "glitch_babe =
     \<lparr>ba_EpochDuration = EpochDuration, ba_ExpectedBlockTime = MILLISECS_PER_BLOCK,
      ba_DisabledValidators = P_Session, ba_KeyOwnerProofSystem = P_Historical,
      ba_HandleEquivocation = (P_Offences, ReportLongevity), ba_MaxAuthorities = 100000\<rparr>"

record im_online_config =
  io_ValidatorSet :: pallet
  io_NextSessionRotation :: pallet
  io_ReportUnresponsiveness :: pallet
  io_UnsignedPriority :: u64
  io_MaxKeys :: u32
  io_MaxPeerInHeartbeats :: u32
  io_MaxPeerDataEncodingSize :: u32

definition glitch_im_online :: im_online_config where
  "glitch_im_online =
     \<lparr>io_ValidatorSet = P_Historical, io_NextSessionRotation = P_Babe, io_ReportUnresponsiveness = P_Offences,
      io_UnsignedPriority = ImOnlineUnsignedPriority, io_MaxKeys = 10000, io_MaxPeerInHeartbeats = 10000,
      io_MaxPeerDataEncodingSize = 1000\<rparr>"

record grandpa_config =
  gr_KeyOwnerProofSystem :: pallet
  gr_HandleEquivocation :: "pallet \<times> u64"
  gr_MaxAuthorities :: u32

definition glitch_grandpa :: grandpa_config where
  "glitch_grandpa =
     \<lparr>gr_KeyOwnerProofSystem = P_Historical, gr_HandleEquivocation = (P_Offences, ReportLongevity),
      gr_MaxAuthorities = 100000\<rparr>"

definition glitch_offences_handler :: pallet where
  "glitch_offences_handler = P_Staking"

record 'o collator_selection_config =
  co_Currency :: pallet
  co_UpdateOrigin :: "'o \<Rightarrow> bool"
  co_PotId :: string
  co_MaxCandidates :: u32
  co_MinCandidates :: u32
  co_MaxInvulnerables :: u32
  co_ValidatorRegistration :: pallet
  co_KickThreshold :: BlockNumber

definition glitch_collator_selection :: "'o ensures \<Rightarrow> 'o collator_selection_config" where
  "glitch_collator_selection E =
     \<lparr>co_Currency = P_Balances, co_UpdateOrigin = CollatorSelectionUpdateOrigin E, co_PotId = ''PotStake'',
      co_MaxCandidates = 1000, co_MinCandidates = 2, co_MaxInvulnerables = 100,
      co_ValidatorRegistration = P_Session, co_KickThreshold = Period\<rparr>"

text \<open>The election on chain, and the one in several phases.\<close>

record onchain_config =
  oc_DataProvider :: pallet
  oc_VotersBound :: u32
  oc_TargetsBound :: u32

definition glitch_onchain :: onchain_config where
  "glitch_onchain =
     \<lparr>oc_DataProvider = P_Staking, oc_VotersBound = MaxElectingVoters, oc_TargetsBound = 2000\<rparr>"

definition SignedPhase :: BlockNumber where
  "SignedPhase = min u32_max (EPOCH_DURATION_IN_SLOTS div 4)"

definition UnsignedPhase :: BlockNumber where
  "UnsignedPhase = min u32_max (EPOCH_DURATION_IN_SLOTS div 4)"

definition SignedMaxSubmissions :: u32 where
  "SignedMaxSubmissions = 16"

definition SignedMaxRefunds :: u32 where
  "SignedMaxRefunds = 16 div 4"

definition SignedRewardBase :: Balance where
  "SignedRewardBase = 1000000000000"

definition SignedDepositBase :: Balance where
  "SignedDepositBase = deposit_for 2 0"

definition SignedDepositByte :: Balance where
  "SignedDepositByte = deposit_for 0 10 div 1024"

definition OffchainRepeat :: BlockNumber where
  "OffchainRepeat = UnsignedPhase div 32"

definition MaxElectableTargets :: nat where
  "MaxElectableTargets = 2 ^ 16 - 1"

record 'o multi_phase_config =
  mp_Currency :: pallet
  mp_EstimateCallFee :: pallet
  mp_SignedPhase :: BlockNumber
  mp_UnsignedPhase :: BlockNumber
  mp_SignedMaxSubmissions :: u32
  mp_SignedMaxRefunds :: u32
  mp_SignedRewardBase :: Balance
  mp_SignedDepositBase :: Balance
  mp_SignedDepositByte :: Balance
  mp_SlashHandler :: sink
  mp_BetterUnsignedThreshold :: Perbill
  mp_OffchainRepeat :: BlockNumber
  mp_MinerTxPriority :: u64
  mp_DataProvider :: pallet
  mp_ForceOrigin :: "'o \<Rightarrow> bool"
  mp_MaxElectingVoters :: u32
  mp_MaxElectableTargets :: nat

definition glitch_multi_phase :: "perthings \<Rightarrow> 'o ensures \<Rightarrow> 'o multi_phase_config" where
  "glitch_multi_phase P E =
     \<lparr>mp_Currency = P_Balances, mp_EstimateCallFee = P_TransactionPayment,
      mp_SignedPhase = SignedPhase,
      mp_UnsignedPhase = UnsignedPhase,
      mp_SignedMaxSubmissions = SignedMaxSubmissions, mp_SignedMaxRefunds = SignedMaxRefunds,
      mp_SignedRewardBase = SignedRewardBase, mp_SignedDepositBase = SignedDepositBase,
      mp_SignedDepositByte = SignedDepositByte, mp_SlashHandler = Burnt,
      mp_BetterUnsignedThreshold = perbill_from_rational P 5 10000,
      mp_OffchainRepeat = OffchainRepeat,
      mp_MinerTxPriority = NposSolutionPriority P, mp_DataProvider = P_Staking,
      mp_ForceOrigin = EnsureRootOrHalfCouncil E, mp_MaxElectingVoters = MaxElectingVoters,
      mp_MaxElectableTargets = MaxElectableTargets\<rparr>"

text \<open>The two phases take half an epoch; the miner tries at least 32 times in the second; not every submission
  in the first can be refunded.\<close>

lemma phases_fit:
  "mp_SignedPhase (glitch_multi_phase P E) + mp_UnsignedPhase (glitch_multi_phase P E) = EPOCH_DURATION_IN_BLOCKS div 2"
  "32 * mp_OffchainRepeat (glitch_multi_phase P E) \<le> mp_UnsignedPhase (glitch_multi_phase P E)"
  "mp_SignedMaxRefunds (glitch_multi_phase P E) < mp_SignedMaxSubmissions (glitch_multi_phase P E)"
  by (simp_all add: glitch_multi_phase_def SignedPhase_def UnsignedPhase_def OffchainRepeat_def
      SignedMaxRefunds_def SignedMaxSubmissions_def runtime_times u32_max_def)

text \<open>Babe and Grandpa report to the pallet whose handler is staking, for as long as stakes are bonded.\<close>

lemma equivocations_reach_staking:
  "ba_HandleEquivocation glitch_babe = gr_HandleEquivocation glitch_grandpa"
  "fst (ba_HandleEquivocation glitch_babe) = io_ReportUnresponsiveness glitch_im_online"
  "se_SessionManager glitch_session = glitch_offences_handler"
  by (simp_all add: glitch_babe_def glitch_grandpa_def glitch_im_online_def glitch_session_def
      glitch_offences_handler_def)

subsection \<open>Government\<close>

record 'o democracy_config =
  dm_Currency :: pallet
  dm_EnactmentPeriod :: BlockNumber
  dm_VoteLockingPeriod :: BlockNumber
  dm_LaunchPeriod :: BlockNumber
  dm_VotingPeriod :: BlockNumber
  dm_MinimumDeposit :: Balance
  dm_ExternalOrigin :: "'o \<Rightarrow> bool"
  dm_ExternalMajorityOrigin :: "'o \<Rightarrow> bool"
  dm_ExternalDefaultOrigin :: "'o \<Rightarrow> bool"
  dm_FastTrackOrigin :: "'o \<Rightarrow> bool"
  dm_InstantOrigin :: "'o \<Rightarrow> bool"
  dm_InstantAllowed :: bool
  dm_FastTrackVotingPeriod :: BlockNumber
  dm_CancellationOrigin :: "'o \<Rightarrow> bool"
  dm_CancelProposalOrigin :: "'o \<Rightarrow> bool"
  dm_OperationalPreimageOrigin :: "'o \<Rightarrow> bool"
  dm_BlacklistOrigin :: "'o \<Rightarrow> bool"
  dm_VetoOrigin :: "'o \<Rightarrow> bool"
  dm_CooloffPeriod :: BlockNumber
  dm_PreimageByteDeposit :: Balance
  dm_Slash :: sink
  dm_Scheduler :: pallet
  dm_MaxVotes :: u32
  dm_MaxProposals :: u32

definition glitch_democracy :: "'o ensures \<Rightarrow> 'o democracy_config" where
  "glitch_democracy E =
     \<lparr>dm_Currency = P_Balances,
      dm_EnactmentPeriod = 28 * DAYS,
      dm_VoteLockingPeriod = 28 * DAYS,
      dm_LaunchPeriod = 28 * DAYS,
      dm_VotingPeriod = 28 * DAYS,
      dm_MinimumDeposit = 100 * DOLLARS,
      dm_ExternalOrigin = ens_more_than E CouncilCollective 1 2,
      dm_ExternalMajorityOrigin = ens_at_least E CouncilCollective 4 5,
      dm_ExternalDefaultOrigin = ens_at_least E CouncilCollective 1 1,
      dm_FastTrackOrigin = ens_at_least E TechnicalCollective 1 1,
      dm_InstantOrigin = ens_at_least E TechnicalCollective 1 1,
      dm_InstantAllowed = True,
      dm_FastTrackVotingPeriod = 3 * HOURS,
      dm_CancellationOrigin = ens_at_least E CouncilCollective 1 1,
      dm_CancelProposalOrigin = (\<lambda>og. ens_root E og \<or> ens_at_least E TechnicalCollective 1 1 og),
      dm_OperationalPreimageOrigin = ens_member E CouncilCollective,
      dm_BlacklistOrigin = ens_root E,
      dm_VetoOrigin = ens_member E TechnicalCollective,
      dm_CooloffPeriod = 7 * DAYS,
      dm_PreimageByteDeposit = 10 * MILLICENTS,
      dm_Slash = To_pallet P_Treasury,
      dm_Scheduler = P_Scheduler,
      dm_MaxVotes = 100,
      dm_MaxProposals = 100\<rparr>"

record collective_config =
  cl_MotionDuration :: BlockNumber
  cl_MaxProposals :: u32
  cl_MaxMembers :: u32

definition glitch_council :: collective_config where
  "glitch_council = \<lparr>cl_MotionDuration = 7 * DAYS, cl_MaxProposals = 100, cl_MaxMembers = 100\<rparr>"

definition glitch_technical_committee :: collective_config where
  "glitch_technical_committee = \<lparr>cl_MotionDuration = 7 * DAYS, cl_MaxProposals = 100, cl_MaxMembers = 100\<rparr>"

record elections_config =
  el_Currency :: pallet
  el_ChangeMembers :: pallet
  el_InitializeMembers :: pallet
  el_CandidacyBond :: Balance
  el_VotingBondBase :: Balance
  el_VotingBondFactor :: Balance
  el_LoserCandidate :: sink
  el_KickedMember :: sink
  el_DesiredMembers :: u32
  el_DesiredRunnersUp :: u32
  el_TermDuration :: BlockNumber
  el_PalletId :: string

definition glitch_elections :: elections_config where
  "glitch_elections =
     \<lparr>el_Currency = P_Balances, el_ChangeMembers = P_Council, el_InitializeMembers = P_Council,
      el_CandidacyBond = 100 * DOLLARS, el_VotingBondBase = deposit_for 1 64,
      el_VotingBondFactor = deposit_for 0 32, el_LoserCandidate = To_pallet P_Treasury,
      el_KickedMember = To_pallet P_Treasury, el_DesiredMembers = 13, el_DesiredRunnersUp = 20,
      el_TermDuration = 7 * DAYS, el_PalletId = ''phrelect''\<rparr>"

record 'o membership_config =
  me_AddOrigin :: "'o \<Rightarrow> bool"
  me_RemoveOrigin :: "'o \<Rightarrow> bool"
  me_SwapOrigin :: "'o \<Rightarrow> bool"
  me_ResetOrigin :: "'o \<Rightarrow> bool"
  me_PrimeOrigin :: "'o \<Rightarrow> bool"
  me_MaxMembers :: u32
  me_MembershipInitialized :: pallet
  me_MembershipChanged :: pallet

definition glitch_membership :: "'o ensures \<Rightarrow> 'o membership_config" where
  "glitch_membership E =
     \<lparr>me_AddOrigin = ens_root E, me_RemoveOrigin = ens_root E, me_SwapOrigin = ens_root E,
      me_ResetOrigin = ens_root E, me_PrimeOrigin = ens_root E, me_MaxMembers = 100,
      me_MembershipInitialized = P_TechnicalCommittee, me_MembershipChanged = P_TechnicalCommittee\<rparr>"

text \<open>The treasury, and what is paid from it; permills and percents by their parts.\<close>

definition ProposalBond :: nat where
  "ProposalBond = 50000"

definition ProposalBondMinimum :: Balance where
  "ProposalBondMinimum = 100 * DOLLARS"

definition SpendPeriod :: BlockNumber where
  "SpendPeriod = 24 * DAYS"

definition Burn :: nat where
  "Burn = 10000"

definition TipCountdown :: BlockNumber where
  "TipCountdown = 1 * DAYS"

definition TipFindersFee :: Percent where
  "TipFindersFee = 20"

definition TipReportDepositBase :: Balance where
  "TipReportDepositBase = 1 * DOLLARS"

definition DataDepositPerByte :: Balance where
  "DataDepositPerByte = 10 * MILLICENTS"

definition MaximumReasonLength :: u32 where
  "MaximumReasonLength = 16384"

definition BountyDepositBase :: Balance where
  "BountyDepositBase = 1 * DOLLARS"

definition BountyDepositPayoutDelay :: BlockNumber where
  "BountyDepositPayoutDelay = 8 * DAYS"

definition BountyUpdatePeriod :: BlockNumber where
  "BountyUpdatePeriod = 90 * DAYS"

definition CuratorDepositMultiplier :: nat where
  "CuratorDepositMultiplier = 500000"

definition BountyValueMinimum :: Balance where
  "BountyValueMinimum = 10 * DOLLARS"

definition CuratorDepositMin :: Balance where
  "CuratorDepositMin = 100 * DOLLARS"

definition CuratorDepositMax :: Balance where
  "CuratorDepositMax = 10000 * DOLLARS"

definition MaxApprovals :: u32 where
  "MaxApprovals = 100"

record 'o treasury_config =
  tr_Currency :: pallet
  tr_ApproveOrigin :: "'o \<Rightarrow> bool"
  tr_RejectOrigin :: "'o \<Rightarrow> bool"
  tr_OnSlash :: sink
  tr_ProposalBond :: nat
  tr_ProposalBondMinimum :: Balance
  tr_SpendPeriod :: BlockNumber
  tr_Burn :: nat
  tr_BurnDestination :: sink
  tr_SpendFunds :: pallet
  tr_PalletId :: string
  tr_MaxApprovals :: u32
  tr_SpendOrigin :: "'o \<Rightarrow> bool"

definition glitch_treasury :: "'o ensures \<Rightarrow> 'o treasury_config" where
  "glitch_treasury E =
     \<lparr>tr_Currency = P_Balances,
      tr_ApproveOrigin = ens_more_than E CouncilCollective 3 5,
      tr_RejectOrigin = ens_more_than E CouncilCollective 1 2,
      tr_OnSlash = To_pallet P_Treasury,
      tr_ProposalBond = ProposalBond, tr_ProposalBondMinimum = ProposalBondMinimum,
      tr_SpendPeriod = SpendPeriod, tr_Burn = Burn, tr_BurnDestination = To_fund,
      tr_SpendFunds = P_Bounties, tr_PalletId = TreasuryModuleId, tr_MaxApprovals = MaxApprovals,
      tr_SpendOrigin = ens_never E\<rparr>"

record bounties_config =
  bo_BountyDepositBase :: Balance
  bo_BountyDepositPayoutDelay :: BlockNumber
  bo_BountyUpdatePeriod :: BlockNumber
  bo_CuratorDepositMultiplier :: nat
  bo_CuratorDepositMin :: Balance
  bo_CuratorDepositMax :: Balance
  bo_BountyValueMinimum :: Balance
  bo_DataDepositPerByte :: Balance
  bo_MaximumReasonLength :: u32

definition glitch_bounties :: bounties_config where
  "glitch_bounties =
     \<lparr>bo_BountyDepositBase = BountyDepositBase, bo_BountyDepositPayoutDelay = BountyDepositPayoutDelay,
      bo_BountyUpdatePeriod = BountyUpdatePeriod, bo_CuratorDepositMultiplier = CuratorDepositMultiplier,
      bo_CuratorDepositMin = CuratorDepositMin, bo_CuratorDepositMax = CuratorDepositMax,
      bo_BountyValueMinimum = BountyValueMinimum, bo_DataDepositPerByte = DataDepositPerByte,
      bo_MaximumReasonLength = MaximumReasonLength\<rparr>"

record tips_config =
  ti_DataDepositPerByte :: Balance
  ti_MaximumReasonLength :: u32
  ti_Tippers :: pallet
  ti_TipCountdown :: BlockNumber
  ti_TipFindersFee :: Percent
  ti_TipReportDepositBase :: Balance

definition glitch_tips :: tips_config where
  "glitch_tips =
     \<lparr>ti_DataDepositPerByte = DataDepositPerByte, ti_MaximumReasonLength = MaximumReasonLength,
      ti_Tippers = P_ElectionsPhragmen, ti_TipCountdown = TipCountdown, ti_TipFindersFee = TipFindersFee,
      ti_TipReportDepositBase = TipReportDepositBase\<rparr>"

record 'o scheduler_config =
  sc_MaximumWeight :: Weight
  sc_ScheduleOrigin :: "'o \<Rightarrow> bool"
  sc_MaxScheduledPerBlock :: u32
  sc_NoPreimagePostponement :: "u32 option"

definition glitch_scheduler :: "'o ensures \<Rightarrow> 'o scheduler_config" where
  "glitch_scheduler E =
     \<lparr>sc_MaximumWeight = 10000000, sc_ScheduleOrigin = ens_root E, sc_MaxScheduledPerBlock = 50,
      sc_NoPreimagePostponement = Some 10\<rparr>"

text \<open>A call without its preimage is tried again after ten blocks, which is a minute.\<close>

lemma postponed_a_minute: "map_option (\<lambda>n. n * SECS_PER_BLOCK) (sc_NoPreimagePostponement (glitch_scheduler E)) = Some 60"
  by (simp add: glitch_scheduler_def SECS_PER_BLOCK_def)

subsection \<open>Contracts\<close>

text \<open>The weights of the queue, per item and without one, and the greatest weight of a block are the
  library's. The lengths are bytes. \<^term>\<open>None\<close>: a division by zero.\<close>

definition DeletionWeightLimit :: "perthings \<Rightarrow> Weight \<Rightarrow> Weight" where
  "DeletionWeightLimit P max_block = perbill_mul P AVERAGE_ON_INITIALIZE_RATIO max_block"

definition DeletionQueueDepth :: "perthings \<Rightarrow> Weight \<Rightarrow> Weight \<Rightarrow> Weight \<Rightarrow> u32 option" where
  "DeletionQueueDepth P max_block item none =
     (let per_item = wrap_sub u64_max item none
      in if per_item = 0 then None
         else Some (DeletionWeightLimit P max_block div per_item div 5 mod Suc u32_max))"

record contracts_config =
  ct_Currency :: pallet
  ct_CallFilter :: bool
  ct_DepositPerItem :: Balance
  ct_DepositPerByte :: Balance
  ct_CallStack :: nat
  ct_WeightPrice :: pallet
  ct_DeletionQueueDepth :: "u32 option"
  ct_DeletionWeightLimit :: Weight
  ct_MaxCodeLen :: u32
  ct_RelaxedMaxCodeLen :: u32
  ct_MaxStorageKeyLen :: u32

definition glitch_contracts :: "perthings \<Rightarrow> Weight \<Rightarrow> Weight \<Rightarrow> Weight \<Rightarrow> contracts_config" where
  "glitch_contracts P max_block item none =
     \<lparr>ct_Currency = P_Balances, ct_CallFilter = False,
      ct_DepositPerItem = deposit_for 1 0, ct_DepositPerByte = deposit_for 0 1, ct_CallStack = 31,
      ct_WeightPrice = P_TransactionPayment,
      ct_DeletionQueueDepth = DeletionQueueDepth P max_block item none,
      ct_DeletionWeightLimit = DeletionWeightLimit P max_block,
      ct_MaxCodeLen = 128 * 1024, ct_RelaxedMaxCodeLen = 256 * 1024, ct_MaxStorageKeyLen = 128\<rparr>"

subsection \<open>Who may do what\<close>

text \<open>The documented meaning of the checks, where \<open>votes c og\<close> are the members of the collective \<open>c\<close> who
  agreed and the number of its members, if the origin is a motion of it.\<close>

definition counts_votes :: "'o ensures \<Rightarrow> (pallet \<Rightarrow> 'o \<Rightarrow> (nat \<times> nat) option) \<Rightarrow> bool" where
  "counts_votes E votes \<longleftrightarrow>
     (\<forall>c N D og. ens_more_than E c N D og \<longleftrightarrow> (\<exists>n m. votes c og = Some (n, m) \<and> N * m < n * D)) \<and>
     (\<forall>c N D og. ens_at_least E c N D og \<longleftrightarrow> (\<exists>n m. votes c og = Some (n, m) \<and> N * m \<le> n * D)) \<and>
     (\<forall>c og n m. votes c og = Some (n, m) \<longrightarrow> n \<le> m \<and> 0 < m)"

lemma counts_votesD:
  assumes "counts_votes E votes"
  shows "ens_more_than E c N D og \<longleftrightarrow> (\<exists>n m. votes c og = Some (n, m) \<and> N * m < n * D)"
    and "ens_at_least E c N D og \<longleftrightarrow> (\<exists>n m. votes c og = Some (n, m) \<and> N * m \<le> n * D)"
    and "votes c og = Some (n, m) \<Longrightarrow> n \<le> m \<and> 0 < m"
  using assms by (simp_all add: counts_votes_def)

text \<open>The motions of the council, by how many agree: all may cancel a referendum or pass one by default; four
  fifths may pass one by majority, and then also cancel a slash; three quarters are more than the three
  fifths that approve spending; and each of them suffices for what half the council may do.\<close>

lemma council_ladder:
  assumes "counts_votes E votes"
  shows "dm_ExternalDefaultOrigin (glitch_democracy E) og \<Longrightarrow> dm_ExternalMajorityOrigin (glitch_democracy E) og"
    and "dm_ExternalMajorityOrigin (glitch_democracy E) og \<Longrightarrow> SlashCancelOrigin E og"
    and "\<not> ens_root E og \<Longrightarrow> SlashCancelOrigin E og \<Longrightarrow> tr_ApproveOrigin (glitch_treasury E) og"
    and "tr_ApproveOrigin (glitch_treasury E) og \<Longrightarrow> tr_RejectOrigin (glitch_treasury E) og"
    and "tr_RejectOrigin (glitch_treasury E) og \<Longrightarrow> EnsureRootOrHalfCouncil E og"
    and "dm_CancellationOrigin (glitch_democracy E) og \<longleftrightarrow> dm_ExternalDefaultOrigin (glitch_democracy E) og"
    and "tr_RejectOrigin (glitch_treasury E) og \<longleftrightarrow> dm_ExternalOrigin (glitch_democracy E) og"
  using counts_votesD(3) [OF assms]
  by (fastforce simp: glitch_democracy_def glitch_treasury_def SlashCancelOrigin_def EnsureRootOrHalfCouncil_def
      counts_votesD(1,2) [OF assms])+

text \<open>Only a unanimous technical committee puts a referendum on the fast track, and then also without any
  delay; a motion of half the council never does.\<close>

lemma fast_track_unanimous:
  assumes "counts_votes E votes"
  shows "dm_FastTrackOrigin (glitch_democracy E) og \<longleftrightarrow> (\<exists>n. votes P_TechnicalCommittee og = Some (n, n))"
    and "dm_InstantOrigin (glitch_democracy E) = dm_FastTrackOrigin (glitch_democracy E)"
proof -
  have "n = m" if "votes P_TechnicalCommittee og = Some (n, m)" "m \<le> n" for n m
    using counts_votesD(3) [OF assms that(1)] that(2) by simp
  then show "dm_FastTrackOrigin (glitch_democracy E) og \<longleftrightarrow> (\<exists>n. votes P_TechnicalCommittee og = Some (n, n))"
    by (auto simp: glitch_democracy_def TechnicalCollective_def counts_votesD(2) [OF assms])
qed (simp add: glitch_democracy_def)

text \<open>Dust and what the treasury burns are kept in the fund, where fees go; only the deposits of wrong
  solutions of an election are lost.\<close>

lemma nothing_else_burnt:
  "bal_DustRemoval glitch_balances = To_fund"
  "tr_BurnDestination (glitch_treasury E) = To_fund"
  "mp_SlashHandler (glitch_multi_phase P E) = Burnt"
  "{tr_OnSlash (glitch_treasury E), dm_Slash (glitch_democracy E), id_Slashed (glitch_identity E),
    el_LoserCandidate glitch_elections, el_KickedMember glitch_elections} = {To_pallet P_Treasury}"
  by (simp_all add: glitch_balances_def glitch_treasury_def glitch_multi_phase_def glitch_democracy_def
      glitch_identity_def glitch_elections_def)

text \<open>A vote is locked as long as its proposal waits, and the fast track is the shorter one.\<close>

lemma voting_periods:
  "dm_VoteLockingPeriod (glitch_democracy E) = dm_EnactmentPeriod (glitch_democracy E)"
  "dm_FastTrackVotingPeriod (glitch_democracy E) < dm_VotingPeriod (glitch_democracy E)"
  by (simp_all add: glitch_democracy_def runtime_times)

text \<open>The queue of contracts to delete never overflows its type.\<close>

lemma deletion_queue_bounded: "DeletionQueueDepth P max_block item none = Some d \<Longrightarrow> d \<le> u32_max"
  by (auto simp: DeletionQueueDepth_def Let_def u32_max_def split: if_splits)

end
