(* ===== verification/Runtime_Apis.thy ===== *)
theory Runtime_Apis
  imports Runtime_Config
begin

section \<open>The limits of a block and the interfaces of the runtime (\<^verbatim>\<open>runtime/src/lib.rs\<close>)\<close>

text \<open>
  The version and the limits of blocks that the runtime sets, the checks of its signed transactions, and
  the interfaces it offers to the node with logic of their own: the proofs that a key belongs to a
  validator and the reports made with them, the configuration of Babe, the conversion of Ethereum
  transactions, and what is asked of the Ethereum pallet. Interfaces that hand their arguments to one
  function of a library pallet are left out.

  Lemmas: the reserve of operational transactions is what normal ones leave, a proof made by the runtime
  is accepted by it in a report, a converted transaction always decodes and carries its own signature,
  and the interfaces for the parts of an Ethereum block agree with the one for all of it.
\<close>

subsection \<open>Version and limits\<close>

record RuntimeVersion =
  rv_spec_name :: string
  rv_impl_name :: string
  rv_authoring_version :: u32
  rv_spec_version :: u32
  rv_impl_version :: u32
  rv_transaction_version :: u32
  rv_state_version :: nat

definition VERSION :: RuntimeVersion where
  "VERSION =
     \<lparr>rv_spec_name = ''glitch'', rv_impl_name = ''glitch'', rv_authoring_version = 1, rv_spec_version = 114,
      rv_impl_version = 1, rv_transaction_version = 1, rv_state_version = 0\<rparr>"

datatype DispatchClass = Class_Normal | Class_Operational | Class_Mandatory

record class_limits =
  cl_base_extrinsic :: Weight
  cl_max_total :: "Weight option"
  cl_reserved :: "Weight option"

record block_weights =
  bw_base_block :: Weight
  bw_per_class :: "DispatchClass \<Rightarrow> class_limits"
  bw_avg_block_initialization :: Perbill

text \<open>\<^verbatim>\<open>NORMAL_DISPATCH_RATIO * w\<close>.\<close>

definition normal_share :: "perthings \<Rightarrow> Weight \<Rightarrow> Weight" where
  "normal_share P w = perbill_mul P (NORMAL_DISPATCH_RATIO * 10000000) w"

text \<open>What the library's builder is given: it starts from \<open>initial\<close>.\<close>

definition BlockWeights ::
  "perthings \<Rightarrow> Weight \<Rightarrow> Weight \<Rightarrow> Weight \<Rightarrow> (DispatchClass \<Rightarrow> class_limits) \<Rightarrow> block_weights" where
  "BlockWeights P weight_per_second base_block base_extrinsic initial =
     (let maximum = MAXIMUM_BLOCK_WEIGHT weight_per_second
      in \<lparr>bw_base_block = base_block,
          bw_per_class = (\<lambda>cls.
            let weights = (initial cls)\<lparr>cl_base_extrinsic := base_extrinsic\<rparr>
            in case cls of
                 Class_Normal \<Rightarrow> weights\<lparr>cl_max_total := Some (normal_share P maximum)\<rparr>
               | Class_Operational \<Rightarrow> weights\<lparr>cl_max_total := Some maximum,
                     cl_reserved := Some (wrap_sub u64_max maximum (normal_share P maximum))\<rparr>
               | Class_Mandatory \<Rightarrow> weights),
          bw_avg_block_initialization = AVERAGE_ON_INITIALIZE_RATIO\<rparr>)"

text \<open>\<^verbatim>\<open>max_with_normal_ratio\<close> is the library's: the ratio limits normal transactions only.\<close>

definition BlockLength :: "perthings \<Rightarrow> DispatchClass \<Rightarrow> nat" where
  "BlockLength P cls =
     (case cls of Class_Normal \<Rightarrow> normal_share P (5 * 1024 * 1024) | _ \<Rightarrow> 5 * 1024 * 1024)"

datatype account_hook = CallKillAccount

record system_config =
  sy_BaseCallFilter :: bool
  sy_Lookup :: pallet
  sy_OnNewAccount :: "account_hook list"
  sy_OnKilledAccount :: "account_hook list"
  sy_AccountData :: pallet
  sy_SS58Prefix :: nat
  sy_MaxConsumers :: u32

text \<open>Every call passes the filter.\<close>

definition glitch_system :: system_config where
  "glitch_system =
     \<lparr>sy_BaseCallFilter = True, sy_Lookup = P_Indices, sy_OnNewAccount = [],
      sy_OnKilledAccount = [CallKillAccount], sy_AccountData = P_Balances, sy_SS58Prefix = 42,
      sy_MaxConsumers = 16\<rparr>"

subsection \<open>Signed transactions\<close>

text \<open>The checks a signed transaction passes, in their order.\<close>

datatype signed_check =
  CheckSpecVersion | CheckTxVersion | CheckGenesis | CheckEra | CheckNonce | CheckWeight
| ChargeTransactionPayment

definition SignedExtra :: "signed_check list" where
  "SignedExtra =
     [CheckSpecVersion, CheckTxVersion, CheckGenesis, CheckEra, CheckNonce, CheckWeight, ChargeTransactionPayment]"

subsection \<open>Proofs of key ownership\<close>

text \<open>Historical sessions prove ownership of a key; the pallets of Babe and Grandpa take a report
  and its proof. A proof travels as bytes.\<close>

datatype key_type = Key_grandpa | Key_babe

record ('p, 'e, 'w) equivocation_services =
  Q_prove :: "key_type \<Rightarrow> nat \<Rightarrow> 'p option"
  Q_encode :: "'p \<Rightarrow> byte list"
  Q_decode :: "byte list \<Rightarrow> 'p option"
  Q_submit :: "key_type \<Rightarrow> 'e \<Rightarrow> 'p \<Rightarrow> 'w \<Rightarrow> 'w option"

definition grandpa_generate_key_ownership_proof ::
  "('p, 'e, 'w) equivocation_services \<Rightarrow> u64 \<Rightarrow> nat \<Rightarrow> byte list option" where
  "grandpa_generate_key_ownership_proof Q set_id authority_id =
     map_option (Q_encode Q) (Q_prove Q Key_grandpa authority_id)"

definition grandpa_submit_report ::
  "('p, 'e, 'w) equivocation_services \<Rightarrow> 'e \<Rightarrow> byte list \<Rightarrow> 'w \<Rightarrow> 'w option" where
  "grandpa_submit_report Q equivocation_proof key_owner_proof w =
     Option.bind (Q_decode Q key_owner_proof) (\<lambda>key_owner_proof.
       Q_submit Q Key_grandpa equivocation_proof key_owner_proof w)"

definition babe_generate_key_ownership_proof ::
  "('p, 'e, 'w) equivocation_services \<Rightarrow> u64 \<Rightarrow> nat \<Rightarrow> byte list option" where
  "babe_generate_key_ownership_proof Q slot authority_id =
     map_option (Q_encode Q) (Q_prove Q Key_babe authority_id)"

definition babe_submit_report ::
  "('p, 'e, 'w) equivocation_services \<Rightarrow> 'e \<Rightarrow> byte list \<Rightarrow> 'w \<Rightarrow> 'w option" where
  "babe_submit_report Q equivocation_proof key_owner_proof w =
     Option.bind (Q_decode Q key_owner_proof) (\<lambda>key_owner_proof.
       Q_submit Q Key_babe equivocation_proof key_owner_proof w)"

subsection \<open>The configuration of Babe\<close>

datatype AllowedSlots = PrimarySlots | PrimaryAndSecondaryPlainSlots | PrimaryAndSecondaryVRFSlots

record BabeEpochConfiguration =
  be_c :: "u64 \<times> u64"
  be_allowed_slots :: AllowedSlots

definition BABE_GENESIS_EPOCH_CONFIG :: BabeEpochConfiguration where
  "BABE_GENESIS_EPOCH_CONFIG =
     \<lparr>be_c = PRIMARY_PROBABILITY, be_allowed_slots = PrimaryAndSecondaryPlainSlots\<rparr>"

record 'a BabeGenesisConfiguration =
  bg_slot_duration :: u64
  bg_epoch_length :: u64
  bg_c :: "u64 \<times> u64"
  bg_genesis_authorities :: "'a list"
  bg_randomness :: "byte list"
  bg_allowed_slots :: AllowedSlots

text \<open>The duration of a slot, the authorities and the randomness are the Babe pallet's.\<close>

definition babe_configuration :: "u64 \<Rightarrow> 'a list \<Rightarrow> byte list \<Rightarrow> 'a BabeGenesisConfiguration" where
  "babe_configuration slot_duration authorities randomness =
     \<lparr>bg_slot_duration = slot_duration, bg_epoch_length = EpochDuration,
      bg_c = be_c BABE_GENESIS_EPOCH_CONFIG, bg_genesis_authorities = authorities,
      bg_randomness = randomness, bg_allowed_slots = be_allowed_slots BABE_GENESIS_EPOCH_CONFIG\<rparr>"

subsection \<open>Ethereum\<close>

text \<open>The conversion of a transaction to an opaque extrinsic; \<^term>\<open>None\<close> is the panic of \<^verbatim>\<open>expect\<close>.\<close>

definition convert_transaction_opaque ::
  "('c runtime_call \<Rightarrow> byte list) \<Rightarrow> (byte list \<Rightarrow> 'o option) \<Rightarrow> Transaction \<Rightarrow> 'o option" where
  "convert_transaction_opaque encode decode transaction = decode (encode (convert_transaction transaction))"

definition api_convert_transaction :: "Transaction \<Rightarrow> 'c runtime_call" where
  "api_convert_transaction transaction = CallEthereum (Transact transaction)"

definition api_chain_id :: "'w eth_config \<Rightarrow> u64" where
  "api_chain_id X = X_ChainId X"

definition api_gas_price :: "'w eth_config \<Rightarrow> 'w \<Rightarrow> U256" where
  "api_gas_price X w = X_min_gas_price X w"

definition api_current_transaction_statuses :: "'w ethereum \<Rightarrow> TransactionStatus list option" where
  "api_current_transaction_statuses s = CurrentTransactionStatuses s"

definition api_current_block :: "'w ethereum \<Rightarrow> eth_block option" where
  "api_current_block s = CurrentBlock s"

definition api_current_receipts :: "'w ethereum \<Rightarrow> Receipt list option" where
  "api_current_receipts s = CurrentReceipts s"

subsection \<open>Lemmas\<close>

text \<open>Normal transactions leave operational ones exactly their reserve, in weight and in length.\<close>

lemma operational_reserve:
  assumes "perbill_mul_bounded P" and "MAXIMUM_BLOCK_WEIGHT s \<le> u64_max"
  shows "\<exists>n r. cl_max_total (bw_per_class (BlockWeights P s b e initial) Class_Normal) = Some n \<and>
    cl_reserved (bw_per_class (BlockWeights P s b e initial) Class_Operational) = Some r \<and>
    cl_max_total (bw_per_class (BlockWeights P s b e initial) Class_Operational) = Some (n + r)"
proof -
  have "normal_share P (MAXIMUM_BLOCK_WEIGHT s) \<le> MAXIMUM_BLOCK_WEIGHT s"
    using assms(1) by (simp add: normal_share_def perbill_mul_bounded_def NORMAL_DISPATCH_RATIO_def perbill_accuracy_def)
  with assms(2) show ?thesis
    by (simp add: BlockWeights_def Let_def wrap_sub_exact)
qed

lemma normal_length:
  "perbill_mul_bounded P \<Longrightarrow> BlockLength P cls \<le> BlockLength P Class_Operational"
  by (cases cls)
    (simp_all add: BlockLength_def normal_share_def perbill_mul_bounded_def NORMAL_DISPATCH_RATIO_def perbill_accuracy_def)

lemma same_base_weight:
  "cl_base_extrinsic (bw_per_class (BlockWeights P s b e initial) cls) = e"
  by (cases cls) (simp_all add: BlockWeights_def Let_def)

text \<open>The version, the chain and the nonce are checked before the fee is taken.\<close>

lemma fee_charged_last: "last SignedExtra = ChargeTransactionPayment" "distinct SignedExtra" "set SignedExtra = UNIV"
proof -
  show "set SignedExtra = UNIV"
    using signed_check.exhaust by (auto simp: SignedExtra_def)
qed (simp_all add: SignedExtra_def)

text \<open>A proof the runtime makes is decoded by the runtime to the proof it was.\<close>

definition codec_laws :: "('p, 'e, 'w) equivocation_services \<Rightarrow> bool" where
  "codec_laws Q \<longleftrightarrow> (\<forall>p. Q_decode Q (Q_encode Q p) = Some p)"

lemma grandpa_proof_submits:
  assumes "codec_laws Q" and "grandpa_generate_key_ownership_proof Q set_id a = Some bytes"
  shows "\<exists>p. Q_prove Q Key_grandpa a = Some p \<and> grandpa_submit_report Q e bytes w = Q_submit Q Key_grandpa e p w"
  using assms by (auto simp: codec_laws_def grandpa_generate_key_ownership_proof_def grandpa_submit_report_def)

lemma babe_proof_submits:
  assumes "codec_laws Q" and "babe_generate_key_ownership_proof Q slot a = Some bytes"
  shows "\<exists>p. Q_prove Q Key_babe a = Some p \<and> babe_submit_report Q e bytes w = Q_submit Q Key_babe e p w"
  using assms by (auto simp: codec_laws_def babe_generate_key_ownership_proof_def babe_submit_report_def)

lemma malformed_proof_refused:
  "Q_decode Q bytes = None \<Longrightarrow> grandpa_submit_report Q e bytes w = None"
  "Q_decode Q bytes = None \<Longrightarrow> babe_submit_report Q e bytes w = None"
  by (simp_all add: grandpa_submit_report_def babe_submit_report_def)

text \<open>The Babe pallet makes slots of twice the least period between blocks: an epoch is four hours.\<close>

lemma babe_epoch_hours:
  assumes "slot_duration = 2 * glitch_timestamp_MinimumPeriod"
  shows "bg_slot_duration (babe_configuration slot_duration authorities randomness) *
      bg_epoch_length (babe_configuration slot_duration authorities randomness) = 4 * 60 * 60 * 1000"
  using assms by (simp add: babe_configuration_def glitch_timestamp_MinimumPeriod_def runtime_times)

text \<open>A slot has a primary author in one case of four, else a secondary one.\<close>

lemma no_empty_slots:
  "bg_c (babe_configuration d authorities randomness) = (1, 4)"
  "bg_allowed_slots (babe_configuration d authorities randomness) = PrimaryAndSecondaryPlainSlots"
  by (simp_all add: babe_configuration_def BABE_GENESIS_EPOCH_CONFIG_def PRIMARY_PROBABILITY_def)

lemma conversions_agree: "api_convert_transaction t = convert_transaction t"
  by (simp add: api_convert_transaction_def convert_transaction_def)

lemma conversion_decodes:
  assumes "\<And>c. decode (encode c) = Some (opaque c)"
  shows "convert_transaction_opaque encode decode t = Some (opaque (convert_transaction t))"
    and "rt_is_self_contained (convert_transaction t)"
  using assms by (simp_all add: convert_transaction_opaque_def convert_transaction_def)

lemma current_parts_agree:
  "api_current_all s = (api_current_block s, api_current_receipts s, api_current_transaction_statuses s)"
  by (simp add: api_current_all_def api_current_block_def api_current_receipts_def
      api_current_transaction_statuses_def)

lemma glitch_chain: "api_chain_id (glitch_evm p X) = 2160" "api_gas_price (glitch_evm p X) w = 10000000000"
  by (simp_all add: api_chain_id_def api_gas_price_def glitch_evm_def GlitchTestnetChainId_def
      fixed_min_gas_price_def)

end
