(* ===== verification/Node.thy ===== *)
theory Node
  imports Chain_Spec Ethereum_Blocks "HOL-Library.AList"
begin

section \<open>The node (\<^verbatim>\<open>node/src/rpc.rs\<close>, \<^verbatim>\<open>service.rs\<close>, \<^verbatim>\<open>cli.rs\<close>, \<^verbatim>\<open>command.rs\<close>)\<close>

text \<open>
  What the node decides by itself: which tasks a node spawns for its role and its options, which RPC
  modules it serves with which parameters, what a subcommand needs, how long a filter of the Ethereum
  RPC lives, and the export of the runtime of a chain. The client, consensus, the network and the
  servers are library code. Their constructors appear through what the node uses of them: the name of
  the task that runs them, and whether they fail (\<open>node_services\<close>, \<open>rpc_services\<close>).

  Lemmas: the tasks of a started node for each role, that the tracing modules served are those whose
  task runs, that a node fails exactly if a library constructor does, the life of a filter, that
  exporting the runtime of a known chain gives back the compiled runtime, and that the Ethereum RPC never reads
  the storage of this chain through the overrides the node prepares.
\<close>

subsection \<open>Tasks\<close>

text \<open>A task of the task manager: its name and group; the failure of an essential task ends the node; a
  blocking task has a thread of its own.\<close>

record task =
  task_name :: string
  task_group :: "string option"
  task_essential :: bool
  task_blocking :: bool

definition essential :: "string \<Rightarrow> task" where
  "essential n = \<lparr>task_name = n, task_group = None, task_essential = True, task_blocking = False\<rparr>"

subsection \<open>Tracing\<close>

datatype EthApiCmd = Debug | Trace

definition EthApiCmd_from_str :: "string \<Rightarrow> string + EthApiCmd" where
  "EthApiCmd_from_str s =
     (if s = ''debug'' then Inr Debug
      else if s = ''trace'' then Inr Trace
      else Inl (''`'' @ s @ ''` is not recognized as a supported Ethereum Api''))"

record RpcConfig =
  rc_ethapi :: "EthApiCmd list"
  rc_ethapi_max_permits :: u32
  rc_ethapi_trace_max_count :: u32
  rc_ethapi_trace_cache_duration :: u64
  rc_eth_log_block_cache :: nat
  rc_max_past_logs :: u32

text \<open>A requester is the sending end of its task: what the task was made with, the number of permits it
  shares and, for the trace filter, the duration of its cache.\<close>

record DebugRequester =
  dr_permits :: nat

record CacheRequester =
  cr_cache_duration :: u64
  cr_permits :: nat

record RpcRequesters =
  req_debug :: "DebugRequester option"
  req_trace :: "CacheRequester option"

definition create_rpc_requesters :: "RpcConfig \<Rightarrow> RpcRequesters \<times> task list" where
  "create_rpc_requesters rpc_config =
     (let cmd = rc_ethapi rpc_config
      in if Debug \<in> set cmd \<or> Trace \<in> set cmd then
           (let permit_pool = rc_ethapi_max_permits rpc_config;
                (trace_requester, trace_tasks) =
                  (if Trace \<in> set cmd
                   then (Some \<lparr>cr_cache_duration = rc_ethapi_trace_cache_duration rpc_config,
                               cr_permits = permit_pool\<rparr>, [essential ''trace-filter-cache''])
                   else (None, []));
                (debug_requester, debug_tasks) =
                  (if Debug \<in> set cmd then (Some \<lparr>dr_permits = permit_pool\<rparr>, [essential ''ethapi-debug''])
                   else (None, []))
            in (\<lparr>req_debug = debug_requester, req_trace = trace_requester\<rparr>, trace_tasks @ debug_tasks))
         else (\<lparr>req_debug = None, req_trace = None\<rparr>, []))"

subsection \<open>Reading the Ethereum storage\<close>

text \<open>The ways the RPC library reads the blocks of the Ethereum pallet: by the layout of a schema, or
  through the runtime interface.\<close>

datatype StorageOverride = SchemaV1Override | SchemaV2Override | SchemaV3Override | RuntimeApiStorageOverride

record OverrideHandle =
  oh_schemas :: "EthereumStorageSchema \<rightharpoonup> StorageOverride"
  oh_fallback :: StorageOverride

definition overrides_handle :: OverrideHandle where
  "overrides_handle =
     \<lparr>oh_schemas = Map.empty(V1 \<mapsto> SchemaV1Override, V2 \<mapsto> SchemaV2Override, V3 \<mapsto> SchemaV3Override),
      oh_fallback = RuntimeApiStorageOverride\<rparr>"

text \<open>The handle \<^verbatim>\<open>create_full\<close> makes, instead of the one in its dependencies.\<close>

definition create_full_overrides :: OverrideHandle where
  "create_full_overrides =
     \<lparr>oh_schemas = Map.empty(V1 \<mapsto> SchemaV1Override), oh_fallback = RuntimeApiStorageOverride\<rparr>"

text \<open>How the library uses a handle: the entry of the schema, else the fallback.\<close>

definition override_for :: "OverrideHandle \<Rightarrow> EthereumStorageSchema \<Rightarrow> StorageOverride" where
  "override_for h schema = (case oh_schemas h schema of Some over \<Rightarrow> over | None \<Rightarrow> oh_fallback h)"

subsection \<open>RPC modules\<close>

text \<open>The modules with the parameters that vary between nodes.\<close>

datatype rpc_module =
    System_rpc | TransactionPayment_rpc | Contracts_rpc | Babe_rpc | Grandpa_rpc | SyncState_rpc
  | Eth_rpc (eth_overrides: OverrideHandle) (eth_is_authority: bool) (eth_max_past_logs: u32)
      (eth_fee_history_cache_limit: u64)
  | EthFilter_rpc (max_stored_filters: nat) (filter_max_past_logs: u32)
  | Net_rpc (peer_count_as_hex: bool)
  | Web3_rpc
  | Trace_rpc (trace_requester: CacheRequester) (trace_max_count: u32)
  | Debug_rpc (debug_requester: DebugRequester)
  | EthPubSub_rpc (pubsub_overrides: OverrideHandle)

text \<open>\<open>R_methods\<close>: the names of the methods of a module; \<open>R_sync_state\<close>: the error of \<^verbatim>\<open>SyncState::new\<close>, if any;
  \<open>R_registered\<close>: the error of merging a method whose name is taken.\<close>

record rpc_services =
  R_methods :: "rpc_module \<Rightarrow> string list"
  R_sync_state :: "string option"
  R_registered :: "string \<Rightarrow> string"

text \<open>\<^verbatim>\<open>io.merge(m)?\<close> for each module in turn, where \<^verbatim>\<open>merge\<close> refuses a name that is taken.\<close>

fun merge_modules :: "rpc_services \<Rightarrow> rpc_module list \<Rightarrow> rpc_module list \<Rightarrow> string + rpc_module list" where
  "merge_modules R [] io = Inr io"
| "merge_modules R (m # ms) io =
     (case find (\<lambda>name. name \<in> set (concat (map (R_methods R) io))) (R_methods R m) of
        Some name \<Rightarrow> Inl (R_registered R name)
      | None \<Rightarrow> merge_modules R ms (io @ [m]))"

text \<open>The dependencies that vary; \<open>fd_filter_pool\<close> says whether there is a filter pool.\<close>

record FullDeps =
  fd_filter_pool :: bool
  fd_max_past_logs :: u32
  fd_fee_history_cache_limit :: u64
  fd_overrides :: OverrideHandle
  fd_tracing_requesters :: RpcRequesters
  fd_rpc_config :: RpcConfig
  fd_is_authority :: bool

definition create_full :: "rpc_services \<Rightarrow> FullDeps \<Rightarrow> string + rpc_module list" where
  "create_full R deps =
     (case merge_modules R [System_rpc, TransactionPayment_rpc, Contracts_rpc, Babe_rpc, Grandpa_rpc] [] of
        Inl e \<Rightarrow> Inl e
      | Inr io \<Rightarrow>
          (case R_sync_state R of
             Some e \<Rightarrow> Inl e
           | None \<Rightarrow>
               merge_modules R
                 ([SyncState_rpc,
                   Eth_rpc create_full_overrides (fd_is_authority deps) (fd_max_past_logs deps)
                     (fd_fee_history_cache_limit deps)] @
                  (if fd_filter_pool deps then [EthFilter_rpc 500 (fd_max_past_logs deps)] else []) @
                  [Net_rpc True, Web3_rpc] @
                  (case req_trace (fd_tracing_requesters deps) of
                     Some requester \<Rightarrow> [Trace_rpc requester (rc_ethapi_trace_max_count (fd_rpc_config deps))]
                   | None \<Rightarrow> []) @
                  (case req_debug (fd_tracing_requesters deps) of
                     Some requester \<Rightarrow> [Debug_rpc requester] | None \<Rightarrow> []) @
                  [EthPubSub_rpc create_full_overrides]) io))"

subsection \<open>Options and configuration\<close>

text \<open>The options of the node; those of the library's own command and the subcommand are apart.\<close>

record RunCmd =
  run_ethapi :: "EthApiCmd list"
  run_ethapi_max_permits :: u32
  run_ethapi_trace_max_count :: u32
  run_ethapi_trace_cache_duration :: u64
  run_eth_log_block_cache :: nat
  run_max_past_logs :: u32
  run_fee_history_limit :: u64

text \<open>What the options are without arguments.\<close>

definition RunCmd_default :: RunCmd where
  "RunCmd_default =
     \<lparr>run_ethapi = [], run_ethapi_max_permits = 10, run_ethapi_trace_max_count = 500,
      run_ethapi_trace_cache_duration = 300, run_eth_log_block_cache = 3000, run_max_past_logs = 10000,
      run_fee_history_limit = 2048\<rparr>"

definition p2p_listen_port :: nat where
  "p2p_listen_port = 30333"

definition rpc_ws_listen_port :: nat where
  "rpc_ws_listen_port = 9944"

definition rpc_http_listen_port :: nat where
  "rpc_http_listen_port = 9933"

definition prometheus_listen_port :: nat where
  "prometheus_listen_port = 9615"

datatype Role = Full | Light | Authority

definition is_authority :: "Role \<Rightarrow> bool" where
  "is_authority role \<longleftrightarrow> role = Authority"

text \<open>What the node reads of the library's \<^verbatim>\<open>Configuration\<close>.\<close>

record Configuration =
  nc_role :: Role
  nc_chain_id :: string
  nc_base_path :: "string list option"
  nc_telemetry_endpoints :: "string list option"
  nc_offchain_worker_enabled :: bool
  nc_force_authoring :: bool
  nc_disable_grandpa :: bool
  nc_allow_non_globals_in_dht :: bool
  nc_extra_sets :: "string list"

definition RpcConfig_of :: "RunCmd \<Rightarrow> RpcConfig" where
  "RpcConfig_of r =
     \<lparr>rc_ethapi = run_ethapi r, rc_ethapi_max_permits = run_ethapi_max_permits r,
      rc_ethapi_trace_max_count = run_ethapi_trace_max_count r,
      rc_ethapi_trace_cache_duration = run_ethapi_trace_cache_duration r,
      rc_eth_log_block_cache = run_eth_log_block_cache r, rc_max_past_logs = run_max_past_logs r\<rparr>"

text \<open>The directory of the Frontier database; \<open>project_dir\<close> is the library's default for the executable,
  \<open>config_dir\<close> the library's directory of a chain below a base path.\<close>

definition frontier_database_dir ::
  "(string list \<Rightarrow> string \<Rightarrow> string list) \<Rightarrow> string list \<Rightarrow> Configuration \<Rightarrow> string list" where
  "frontier_database_dir config_dir project_dir config =
     (case nc_base_path config of
        Some base_path \<Rightarrow> config_dir base_path (nc_chain_id config)
      | None \<Rightarrow> config_dir project_dir (nc_chain_id config)) @ [''frontier'', ''db'']"

subsection \<open>The parts of a node\<close>

text \<open>The library constructors that can fail, in the order they run, and the outcomes of a node's start.\<close>

datatype library_step =
  Telemetry_worker | Full_parts | Frontier_db | Grandpa_block_import | Babe_config | Babe_block_import
| Import_queue | Build_network | Spawn_tasks | Start_babe | Run_grandpa_voter

record node_services =
  N_error :: "library_step \<Rightarrow> string option"
  N_genesis_hash :: "nat option"
  N_protocol_name :: "nat \<Rightarrow> string \<Rightarrow> string"
  N_rpc :: rpc_services

fun first_error :: "('a \<Rightarrow> string option) \<Rightarrow> 'a list \<Rightarrow> string option" where
  "first_error err [] = None"
| "first_error err (x # xs) = (case err x of Some e \<Rightarrow> Some e | None \<Rightarrow> first_error err xs)"

text \<open>Imported blocks go through Babe, Frontier's mapping and Grandpa to the client; justifications go to
  Grandpa. Imported blocks are checked with the inherents a proposer puts in, less the storage proof.\<close>

datatype block_import =
  Client | GrandpaBlockImport block_import | FrontierBlockImport block_import | BabeBlockImport block_import

datatype inherent = Timestamp_inherent | Slot_inherent | Uncles_inherent | StorageProof_inherent

record PartialComponents =
  pc_tasks :: "task list"
  pc_block_import :: block_import
  pc_justification_import :: block_import
  pc_check_inherents :: "inherent list"
  pc_filter_pool :: bool
  pc_rpc_deps :: FullDeps

definition telemetry_enabled :: "Configuration \<Rightarrow> bool" where
  "telemetry_enabled config \<longleftrightarrow>
     (case nc_telemetry_endpoints config of Some endpoints \<Rightarrow> endpoints \<noteq> [] | None \<Rightarrow> False)"

text \<open>What the builder of the RPC server holds, and the tasks made on the way.\<close>

definition rpc_extensions_builder :: "Configuration \<Rightarrow> RunCmd \<Rightarrow> RpcConfig \<Rightarrow> FullDeps \<times> task list" where
  "rpc_extensions_builder config cli_run rpc_config =
     (let overrides = overrides_handle;
          (tracing_requesters, tracing_tasks) = create_rpc_requesters rpc_config
      in (\<lparr>fd_filter_pool = True, fd_max_past_logs = run_max_past_logs cli_run,
           fd_fee_history_cache_limit = run_fee_history_limit cli_run, fd_overrides = overrides,
           fd_tracing_requesters = tracing_requesters, fd_rpc_config = rpc_config,
           fd_is_authority = is_authority (nc_role config)\<rparr>, tracing_tasks))"

definition new_partial :: "node_services \<Rightarrow> Configuration \<Rightarrow> RunCmd \<Rightarrow> string + PartialComponents" where
  "new_partial N config cli_run =
     (case first_error (N_error N)
             ((if telemetry_enabled config then [Telemetry_worker] else []) @
              [Full_parts, Frontier_db, Grandpa_block_import, Babe_config, Babe_block_import, Import_queue]) of
        Some e \<Rightarrow> Inl e
      | None \<Rightarrow>
          (let telemetry_tasks =
                 (if telemetry_enabled config
                  then [\<lparr>task_name = ''telemetry'', task_group = None, task_essential = False,
                         task_blocking = False\<rparr>]
                  else []);
               grandpa_block_import = GrandpaBlockImport Client;
               frontier_block_import = FrontierBlockImport grandpa_block_import;
               (deps, tracing_tasks) = rpc_extensions_builder config cli_run (RpcConfig_of cli_run)
           in Inr \<lparr>pc_tasks = telemetry_tasks @ tracing_tasks,
                   pc_block_import = BabeBlockImport frontier_block_import,
                   pc_justification_import = grandpa_block_import,
                   pc_check_inherents = [Timestamp_inherent, Slot_inherent, Uncles_inherent],
                   pc_filter_pool = True, pc_rpc_deps = deps\<rparr>))"

subsection \<open>Starting a node\<close>

text \<open>Durations in milliseconds, the portion of a slot as a fraction.\<close>

record BabeParams =
  bp_block_import :: block_import
  bp_inherents :: "inherent list"
  bp_force_authoring :: bool
  bp_backoff_authoring_blocks :: bool
  bp_block_proposal_slot_portion :: "nat \<times> nat"
  bp_max_block_proposal_slot_portion :: "(nat \<times> nat) option"

record GrandpaConfig =
  gr_gossip_duration :: nat
  gr_justification_period :: nat
  gr_observer_enabled :: bool
  gr_keystore :: bool
  gr_local_role :: Role
  gr_protocol_name :: string

record running_node =
  rn_tasks :: "task list"
  rn_extra_sets :: "string list"
  rn_offchain_workers :: bool
  rn_rpc :: "rpc_module list"
  rn_babe :: "BabeParams option"
  rn_discovery :: "bool option"
  rn_grandpa :: "GrandpaConfig option"

definition babe_params :: "Configuration \<Rightarrow> PartialComponents \<Rightarrow> BabeParams" where
  "babe_params config parts =
     \<lparr>bp_block_import = pc_block_import parts,
      bp_inherents = [Timestamp_inherent, Slot_inherent, Uncles_inherent, StorageProof_inherent],
      bp_force_authoring = nc_force_authoring config, bp_backoff_authoring_blocks = True,
      bp_block_proposal_slot_portion = (1, 2), bp_max_block_proposal_slot_portion = None\<rparr>"

definition grandpa_voter_config :: "Role \<Rightarrow> string \<Rightarrow> GrandpaConfig" where
  "grandpa_voter_config role protocol_name =
     \<lparr>gr_gossip_duration = 333, gr_justification_period = 512, gr_observer_enabled = False,
      gr_keystore = is_authority role, gr_local_role = role, gr_protocol_name = protocol_name\<rparr>"

text \<open>Starting the authoring, the discovery and the voter, on top of the tasks so far.\<close>

definition start_consensus ::
  "node_services \<Rightarrow> Configuration \<Rightarrow> PartialComponents \<Rightarrow> string \<Rightarrow> running_node \<Rightarrow> string + running_node" where
  "start_consensus N config parts protocol_name node =
     (let role = nc_role config; grandpa_enabled = (\<not> nc_disable_grandpa config);
          steps = (if role = Authority then [Start_babe] else []) @
                  (if grandpa_enabled then [Run_grandpa_voter] else [])
      in case first_error (N_error N) steps of
           Some e \<Rightarrow> Inl e
         | None \<Rightarrow>
             Inr (node\<lparr>rn_tasks := rn_tasks node @
                    (if role = Authority
                     then [\<lparr>task_name = ''babe-proposer'', task_group = Some ''block-authoring'',
                            task_essential = True, task_blocking = True\<rparr>]
                     else []) @
                    (if is_authority role
                     then [\<lparr>task_name = ''authority-discovery-worker'', task_group = Some ''networking'',
                            task_essential = False, task_blocking = False\<rparr>]
                     else []) @
                    (if grandpa_enabled
                     then [(essential ''grandpa-voter'')\<lparr>task_blocking := True\<rparr>]
                     else []),
                  rn_babe := (if role = Authority then Some (babe_params config parts) else None),
                  rn_discovery := (if is_authority role then Some (nc_allow_non_globals_in_dht config) else None),
                  rn_grandpa := (if grandpa_enabled then Some (grandpa_voter_config role protocol_name) else None)\<rparr>))"

text \<open>\<^verbatim>\<open>start_node_impl\<close>; \<^term>\<open>None\<close> is the panic of a client without a genesis block. The library's \<open>spawn_tasks\<close>
  starts the RPC server with the modules that \<^verbatim>\<open>create_full\<close> builds.\<close>

definition start_node_impl ::
  "node_services \<Rightarrow> Configuration \<Rightarrow> RunCmd \<Rightarrow> (string + running_node) option" where
  "start_node_impl N config cli_run =
     (if nc_role config = Light then Some (Inl ''Light client not supported!'')
      else
        (case new_partial N config cli_run of
           Inl e \<Rightarrow> Some (Inl e)
         | Inr parts \<Rightarrow>
             (case N_genesis_hash N of
                None \<Rightarrow> None
              | Some genesis_hash \<Rightarrow>
                  (let protocol_name = N_protocol_name N genesis_hash (nc_chain_id config)
                   in case first_error (N_error N) [Build_network, Spawn_tasks] of
                        Some e \<Rightarrow> Some (Inl e)
                      | None \<Rightarrow>
                          (case create_full (N_rpc N) (pc_rpc_deps parts) of
                             Inl e \<Rightarrow> Some (Inl e)
                           | Inr io \<Rightarrow>
                               Some (start_consensus N config parts protocol_name
                                 \<lparr>rn_tasks = pc_tasks parts @ [essential ''frontier-mapping-sync-worker''] @
                                    (if pc_filter_pool parts then [essential ''frontier-filter-pool''] else []),
                                  rn_extra_sets = nc_extra_sets config @ [protocol_name],
                                  rn_offchain_workers = nc_offchain_worker_enabled config,
                                  rn_rpc = io, rn_babe = None, rn_discovery = None, rn_grandpa = None\<rparr>))))))"

subsection \<open>The life of a filter\<close>

text \<open>The pool of filters is a map by key, here the list of its entries; \<open>at_block\<close> is the block a filter was made
  or last polled at. The task goes over a copy of the pool and drops from the pool.\<close>

definition FILTER_RETAIN_THRESHOLD :: u64 where
  "FILTER_RETAIN_THRESHOLD = 100"

definition filter_maintenance :: "u64 \<Rightarrow> ('k \<times> u64) list \<Rightarrow> ('k \<times> u64) list" where
  "filter_maintenance imported_number pool =
     foldl (\<lambda>locked (k, at_block).
         let lifespan_limit = wrap_add u64_max at_block FILTER_RETAIN_THRESHOLD
         in if lifespan_limit \<le> imported_number then AList.delete k locked else locked)
       pool pool"

text \<open>The task over a stream of imported blocks, when it gets the lock of the pool each time.\<close>

definition filter_pool_task :: "u64 list \<Rightarrow> ('k \<times> u64) list \<Rightarrow> ('k \<times> u64) list" where
  "filter_pool_task notifications pool = foldl (\<lambda>locked n. filter_maintenance n locked) pool notifications"

subsection \<open>Subcommands\<close>

record ExportGenesisWasmCommand =
  ew_output :: "string option"
  ew_raw :: bool
  ew_chain :: "string option"

datatype Subcommand =
  Key | Verify | Vanity | Sign | BuildSpec | CheckBlock | ExportBlocks | ExportState
| ExportGenesisWasm ExportGenesisWasmCommand | ImportBlocks | Revert

record Cli =
  cli_subcommand :: "Subcommand option"
  cli_run :: RunCmd
  cli_no_hardware_benchmarks :: bool

text \<open>What a library command is given of the node's parts.\<close>

datatype part_of_node = the_client | the_import_queue | the_database | the_chain_spec | the_backend

text \<open>What \<^verbatim>\<open>run\<close> does: run a library command as it is, with the configuration (chain and network), or with
  parts of a partial node, export the runtime, or start a node, with a benchmark of its hardware in the
  database's directory if there is one.\<close>

datatype action =
  Run_command | Run_with_config | Run_with_parts "part_of_node list" | Export_wasm ExportGenesisWasmCommand
| Start_node "string option"

definition run_action :: "Cli \<Rightarrow> string option \<Rightarrow> action" where
  "run_action cli database_path =
     (case cli_subcommand cli of
        Some Key \<Rightarrow> Run_command
      | Some Sign \<Rightarrow> Run_command
      | Some Verify \<Rightarrow> Run_command
      | Some Vanity \<Rightarrow> Run_command
      | Some BuildSpec \<Rightarrow> Run_with_config
      | Some CheckBlock \<Rightarrow> Run_with_parts [the_client, the_import_queue]
      | Some ExportBlocks \<Rightarrow> Run_with_parts [the_client, the_database]
      | Some (ExportGenesisWasm params) \<Rightarrow> Export_wasm params
      | Some ExportState \<Rightarrow> Run_with_parts [the_client, the_chain_spec]
      | Some ImportBlocks \<Rightarrow> Run_with_parts [the_client, the_import_queue]
      | Some Revert \<Rightarrow> Run_with_parts [the_client, the_backend]
      | None \<Rightarrow> Start_node (if \<not> cli_no_hardware_benchmarks cli then database_path else None))"

text \<open>\<open>build_storage\<close> is the library's: the genesis storage by key, or an error. The key of the runtime's code
  is the bytes of \<open>:code\<close>.\<close>

definition CODE :: "byte list" where
  "CODE = [58, 99, 111, 100, 101]"

definition extract_genesis_wasm ::
  "(ChainSpec \<Rightarrow> string + (byte list \<rightharpoonup> byte list)) \<Rightarrow> ChainSpec \<Rightarrow> string + byte list" where
  "extract_genesis_wasm build_storage chain_spec =
     (case build_storage chain_spec of
        Inl e \<Rightarrow> Inl e
      | Inr storage \<Rightarrow>
          (case storage CODE of
             Some code \<Rightarrow> Inr code
           | None \<Rightarrow> Inl ''Could not find wasm file in genesis state!''))"

text \<open>The export: what is written, and to which file or, with \<^term>\<open>None\<close>, to the standard output.
  \<open>hex_display\<close> is the library's printing of bytes.\<close>

definition export_genesis_wasm ::
  "(string \<Rightarrow> string + ChainSpec) \<Rightarrow> (ChainSpec \<Rightarrow> string + (byte list \<rightharpoonup> byte list)) \<Rightarrow> (byte list \<Rightarrow> byte list) \<Rightarrow>
    ExportGenesisWasmCommand \<Rightarrow> string + (string option \<times> byte list)" where
  "export_genesis_wasm load build_storage hex_display params =
     (case load (case ew_chain params of Some chain \<Rightarrow> chain | None \<Rightarrow> '''') of
        Inl e \<Rightarrow> Inl e
      | Inr spec \<Rightarrow>
          (case extract_genesis_wasm build_storage spec of
             Inl e \<Rightarrow> Inl e
           | Inr raw_wasm_blob \<Rightarrow>
               Inr (ew_output params,
                    if ew_raw params then raw_wasm_blob else [48, 120] @ hex_display raw_wasm_blob)))"

subsection \<open>Lemmas: the tracing modules\<close>

lemma create_rpc_requesters_simps [simp]:
  "req_debug (fst (create_rpc_requesters c)) =
     (if Debug \<in> set (rc_ethapi c) then Some \<lparr>dr_permits = rc_ethapi_max_permits c\<rparr> else None)"
  "req_trace (fst (create_rpc_requesters c)) =
     (if Trace \<in> set (rc_ethapi c)
      then Some \<lparr>cr_cache_duration = rc_ethapi_trace_cache_duration c, cr_permits = rc_ethapi_max_permits c\<rparr>
      else None)"
  "snd (create_rpc_requesters c) =
     (if Trace \<in> set (rc_ethapi c) then [essential ''trace-filter-cache''] else []) @
     (if Debug \<in> set (rc_ethapi c) then [essential ''ethapi-debug''] else [])"
  by (simp_all add: create_rpc_requesters_def Let_def)

text \<open>Both tracing modules share one pool of permits.\<close>

lemma permits_shared:
  "req_debug (fst (create_rpc_requesters c)) = Some d \<Longrightarrow> req_trace (fst (create_rpc_requesters c)) = Some t \<Longrightarrow>
     dr_permits d = cr_permits t"
  by (auto split: if_splits)

lemma EthApiCmd_from_str_inject:
  "EthApiCmd_from_str s = Inr c \<Longrightarrow> EthApiCmd_from_str s' = Inr c \<Longrightarrow> s = s'"
  by (auto simp: EthApiCmd_from_str_def split: if_splits)

subsection \<open>Lemmas: merging modules\<close>

lemma merge_modulesD: "merge_modules R ms io = Inr io' \<Longrightarrow> io' = io @ ms"
  by (induction R ms io rule: merge_modules.induct) (auto split: option.splits)

text \<open>The names the modules of a list register.\<close>

definition registered :: "rpc_services \<Rightarrow> rpc_module list \<Rightarrow> string set" where
  "registered R ms = (\<Union>m \<in> set ms. set (R_methods R m))"

text \<open>No module of the list registers a name of an earlier one.\<close>

fun no_clash :: "rpc_services \<Rightarrow> rpc_module list \<Rightarrow> bool" where
  "no_clash R [] \<longleftrightarrow> True"
| "no_clash R (m # ms) \<longleftrightarrow> set (R_methods R m) \<inter> registered R ms = {} \<and> no_clash R ms"

lemma registered_simps [simp]:
  "registered R [] = {}" "registered R (m # ms) = set (R_methods R m) \<union> registered R ms"
  "registered R (ms @ ms') = registered R ms \<union> registered R ms'"
  by (auto simp: registered_def)

lemma no_clash_append:
  "no_clash R (ms @ ms') \<longleftrightarrow> no_clash R ms \<and> no_clash R ms' \<and> registered R ms \<inter> registered R ms' = {}"
  by (induction ms) auto

lemma merge_modules_iff:
  "merge_modules R ms io = Inr (io @ ms) \<longleftrightarrow> registered R io \<inter> registered R ms = {} \<and> no_clash R ms"
proof (induction R ms io rule: merge_modules.induct)
  case (2 R m ms io)
  let ?taken = "find (\<lambda>name. name \<in> set (concat (map (R_methods R) io))) (R_methods R m)"
  have taken: "?taken = None \<longleftrightarrow> registered R io \<inter> set (R_methods R m) = {}"
    by (auto simp: find_None_iff registered_def)
  show ?case
  proof (cases "?taken = None")
    case True
    then show ?thesis
      using "2.IH" taken by (auto simp: Int_Un_distrib Int_Un_distrib2)
  next
    case False
    then show ?thesis
      using taken by auto
  qed
qed simp

lemma merge_modules_ok:
  "merge_modules R ms io = Inr io' \<longleftrightarrow>
     io' = io @ ms \<and> registered R io \<inter> registered R ms = {} \<and> no_clash R ms"
  using merge_modulesD merge_modules_iff by metis

text \<open>What a node serves.\<close>

definition full_modules :: "FullDeps \<Rightarrow> rpc_module list" where
  "full_modules deps =
     [System_rpc, TransactionPayment_rpc, Contracts_rpc, Babe_rpc, Grandpa_rpc] @
     [SyncState_rpc,
      Eth_rpc create_full_overrides (fd_is_authority deps) (fd_max_past_logs deps)
        (fd_fee_history_cache_limit deps)] @
     (if fd_filter_pool deps then [EthFilter_rpc 500 (fd_max_past_logs deps)] else []) @
     [Net_rpc True, Web3_rpc] @
     (case req_trace (fd_tracing_requesters deps) of
        Some requester \<Rightarrow> [Trace_rpc requester (rc_ethapi_trace_max_count (fd_rpc_config deps))] | None \<Rightarrow> []) @
     (case req_debug (fd_tracing_requesters deps) of Some requester \<Rightarrow> [Debug_rpc requester] | None \<Rightarrow> []) @
     [EthPubSub_rpc create_full_overrides]"

lemma merge_twice:
  "(case merge_modules R ms [] of
      Inl e \<Rightarrow> Inl e
    | Inr io \<Rightarrow> (case R_sync_state R of Some e \<Rightarrow> Inl e | None \<Rightarrow> merge_modules R ms' io)) = Inr io' \<longleftrightarrow>
     R_sync_state R = None \<and> io' = ms @ ms' \<and> no_clash R (ms @ ms')"
proof (cases "merge_modules R ms []")
  case (Inl e)
  then have "\<not> no_clash R ms"
    using merge_modules_iff [of R ms "[]"] by simp
  with Inl show ?thesis by (simp add: no_clash_append)
next
  case (Inr io)
  then have c: "no_clash R ms" and "merge_modules R ms [] = Inr ms"
    using merge_modules_ok [of R ms "[]" io] by simp_all
  then show ?thesis
    by (cases "R_sync_state R") (use c in \<open>auto simp: no_clash_append merge_modules_ok [of R ms' ms]\<close>)
qed

lemma create_full_ok:
  "create_full R deps = Inr io \<longleftrightarrow>
     R_sync_state R = None \<and> io = full_modules deps \<and> no_clash R (full_modules deps)"
  unfolding create_full_def merge_twice full_modules_def by (rule refl)

text \<open>The overrides a node prepares read every schema there is by its own layout; those its Ethereum servers
  use do so for the first only, and this chain writes the third.\<close>

lemma overrides_handle_total: "schema \<noteq> Undefined \<Longrightarrow> override_for overrides_handle schema \<noteq> RuntimeApiStorageOverride"
  by (cases schema) (simp_all add: override_for_def overrides_handle_def)

lemma apply_validated_schema:
  "apply_validated_transaction X source t s = Some (r, s') \<Longrightarrow> eth_schema s' = eth_schema s"
  by (auto simp: apply_validated_transaction_def Let_def split: prod.splits sum.splits)

lemma apply_pre_block_schema:
  "apply_pre_block X ts weight s = Some (weight', s') \<Longrightarrow> eth_schema s' = eth_schema s"
proof (induction X ts weight s rule: apply_pre_block.induct)
  case (2 X t ts weight s)
  then show ?case
    by (auto split: option.splits sum.splits prod.splits dest!: apply_validated_schema)
qed simp

lemma chain_schema: "eth_run X n in_block s \<Longrightarrow> eth_schema s = Some V3"
proof (induction rule: eth_run.induct)
  case (transact n s origin t r s')
  from transact.hyps(2) show ?case
    by (rule transact_cases) (auto simp: transact.IH dest: apply_validated_schema)
qed (auto simp: eth_genesis_build_def eth_on_initialize_def eth_on_finalize_def eth_on_runtime_upgrade_def
      store_block_def Let_def split: option.splits dest!: apply_pre_block_schema)

lemma servers_never_read_storage:
  assumes "eth_run X n in_block s"
  shows "override_for create_full_overrides (the (eth_schema s)) = RuntimeApiStorageOverride"
    and "override_for overrides_handle (the (eth_schema s)) = SchemaV3Override"
  using chain_schema [OF assms]
  by (simp_all add: override_for_def create_full_overrides_def overrides_handle_def)

subsection \<open>Lemmas: starting a node\<close>

lemma light_refused: "nc_role config = Light \<Longrightarrow> start_node_impl N config r = Some (Inl ''Light client not supported!'')"
  by (simp add: start_node_impl_def)

lemma first_error_None: "first_error err xs = None \<longleftrightarrow> (\<forall>x \<in> set xs. err x = None)"
  by (induction xs) (auto split: option.splits)

text \<open>The constructors a node of this configuration needs, and what its RPC server is built from.\<close>

definition partial_steps :: "Configuration \<Rightarrow> library_step list" where
  "partial_steps config =
     (if telemetry_enabled config then [Telemetry_worker] else []) @
     [Full_parts, Frontier_db, Grandpa_block_import, Babe_config, Babe_block_import, Import_queue]"

definition consensus_steps :: "Configuration \<Rightarrow> library_step list" where
  "consensus_steps config =
     (if nc_role config = Authority then [Start_babe] else []) @
     (if \<not> nc_disable_grandpa config then [Run_grandpa_voter] else [])"

definition node_deps :: "Configuration \<Rightarrow> RunCmd \<Rightarrow> FullDeps" where
  "node_deps config r =
     \<lparr>fd_filter_pool = True, fd_max_past_logs = run_max_past_logs r,
      fd_fee_history_cache_limit = run_fee_history_limit r, fd_overrides = overrides_handle,
      fd_tracing_requesters = fst (create_rpc_requesters (RpcConfig_of r)), fd_rpc_config = RpcConfig_of r,
      fd_is_authority = is_authority (nc_role config)\<rparr>"

definition node_parts :: "Configuration \<Rightarrow> RunCmd \<Rightarrow> PartialComponents" where
  "node_parts config r =
     \<lparr>pc_tasks =
        (if telemetry_enabled config
         then [\<lparr>task_name = ''telemetry'', task_group = None, task_essential = False, task_blocking = False\<rparr>]
         else []) @ snd (create_rpc_requesters (RpcConfig_of r)),
      pc_block_import = BabeBlockImport (FrontierBlockImport (GrandpaBlockImport Client)),
      pc_justification_import = GrandpaBlockImport Client,
      pc_check_inherents = [Timestamp_inherent, Slot_inherent, Uncles_inherent],
      pc_filter_pool = True, pc_rpc_deps = node_deps config r\<rparr>"

lemma new_partial_ok:
  "new_partial N config r = Inr parts \<longleftrightarrow>
     (\<forall>step \<in> set (partial_steps config). N_error N step = None) \<and> parts = node_parts config r"
proof -
  have "new_partial N config r =
      (case first_error (N_error N) (partial_steps config) of Some e \<Rightarrow> Inl e
       | None \<Rightarrow> Inr (node_parts config r))"
    unfolding new_partial_def partial_steps_def [symmetric] Let_def case_prod_unfold
    by (simp add: rpc_extensions_builder_def case_prod_unfold node_parts_def node_deps_def split: option.split)
  then show ?thesis
    by (auto simp: first_error_None [symmetric] simp del: first_error.simps split: option.splits)
qed

text \<open>What consensus adds to a node.\<close>

definition consensus_tasks :: "Configuration \<Rightarrow> task list" where
  "consensus_tasks config =
     (if nc_role config = Authority
      then [\<lparr>task_name = ''babe-proposer'', task_group = Some ''block-authoring'', task_essential = True,
             task_blocking = True\<rparr>,
            \<lparr>task_name = ''authority-discovery-worker'', task_group = Some ''networking'',
             task_essential = False, task_blocking = False\<rparr>]
      else []) @
     (if \<not> nc_disable_grandpa config then [(essential ''grandpa-voter'')\<lparr>task_blocking := True\<rparr>] else [])"

lemma start_consensus_ok:
  "start_consensus N config parts protocol_name node = Inr node' \<longleftrightarrow>
     (\<forall>step \<in> set (consensus_steps config). N_error N step = None) \<and>
     node' = node\<lparr>rn_tasks := rn_tasks node @ consensus_tasks config,
       rn_babe := (if nc_role config = Authority then Some (babe_params config parts) else None),
       rn_discovery :=
         (if nc_role config = Authority then Some (nc_allow_non_globals_in_dht config) else None),
       rn_grandpa :=
         (if nc_disable_grandpa config then None else Some (grandpa_voter_config (nc_role config) protocol_name))\<rparr>"
proof -
  have "start_consensus N config parts protocol_name node =
      (case first_error (N_error N) (consensus_steps config) of Some e \<Rightarrow> Inl e
       | None \<Rightarrow> Inr (node\<lparr>rn_tasks := rn_tasks node @ consensus_tasks config,
           rn_babe := (if nc_role config = Authority then Some (babe_params config parts) else None),
           rn_discovery :=
             (if nc_role config = Authority then Some (nc_allow_non_globals_in_dht config) else None),
           rn_grandpa :=
             (if nc_disable_grandpa config then None
              else Some (grandpa_voter_config (nc_role config) protocol_name))\<rparr>))"
    unfolding start_consensus_def consensus_steps_def Let_def is_authority_def
    by (rule arg_cong [where f = "\<lambda>x. case first_error _ _ of Some e \<Rightarrow> Inl e | None \<Rightarrow> Inr x"])
      (simp add: consensus_tasks_def)
  then show ?thesis
    by (auto simp: first_error_None [symmetric] simp del: first_error.simps split: option.splits)
qed

text \<open>A node starts exactly if it is no light client, every constructor it needs succeeds, the chain has a
  genesis block and no two RPC modules register the same name; and this is the node.\<close>

lemma start_node_iff:
  "start_node_impl N config r = Some (Inr node) \<longleftrightarrow>
     nc_role config \<noteq> Light \<and>
     (\<forall>step \<in> set (partial_steps config @ [Build_network, Spawn_tasks] @ consensus_steps config).
        N_error N step = None) \<and>
     R_sync_state (N_rpc N) = None \<and> no_clash (N_rpc N) (full_modules (node_deps config r)) \<and>
     (\<exists>genesis_hash. N_genesis_hash N = Some genesis_hash \<and>
        (let protocol_name = N_protocol_name N genesis_hash (nc_chain_id config)
         in node =
             \<lparr>rn_tasks = pc_tasks (node_parts config r) @
                [essential ''frontier-mapping-sync-worker'', essential ''frontier-filter-pool''] @
                consensus_tasks config,
              rn_extra_sets = nc_extra_sets config @ [protocol_name],
              rn_offchain_workers = nc_offchain_worker_enabled config,
              rn_rpc = full_modules (node_deps config r),
              rn_babe = (if nc_role config = Authority then Some (babe_params config (node_parts config r)) else None),
              rn_discovery =
                (if nc_role config = Authority then Some (nc_allow_non_globals_in_dht config) else None),
              rn_grandpa =
                (if nc_disable_grandpa config then None
                 else Some (grandpa_voter_config (nc_role config) protocol_name))\<rparr>))"
proof (cases "new_partial N config r")
  case (Inl e)
  then show ?thesis
    using new_partial_ok [of N config r "node_parts config r"] by (auto simp: start_node_impl_def)
next
  case (Inr parts)
  then have p: "\<forall>step \<in> set (partial_steps config). N_error N step = None" "parts = node_parts config r"
    by (simp_all add: new_partial_ok)
  have d: "pc_rpc_deps parts = node_deps config r" "pc_filter_pool parts"
    by (simp_all add: p node_parts_def)
  show ?thesis
  proof (cases "create_full (N_rpc N) (node_deps config r)")
    case (Inl e)
    then have "\<not> (R_sync_state (N_rpc N) = None \<and> no_clash (N_rpc N) (full_modules (node_deps config r)))"
      using create_full_ok [of "N_rpc N" "node_deps config r" "full_modules (node_deps config r)"] by auto
    with Inl d \<open>new_partial N config r = Inr parts\<close> show ?thesis
      by (auto simp: start_node_impl_def Let_def split: option.splits)
  next
    case (Inr io)
    then have "R_sync_state (N_rpc N) = None" "no_clash (N_rpc N) (full_modules (node_deps config r))"
      "io = full_modules (node_deps config r)"
      by (simp_all add: create_full_ok)
    with Inr d p \<open>new_partial N config r = Inr parts\<close> show ?thesis
      by (auto simp: start_node_impl_def Let_def start_consensus_ok split: option.splits)
  qed
qed
subsection \<open>Lemmas: a node that runs\<close>

lemma started:
  assumes "start_node_impl N config r = Some (Inr node)"
  shows "rn_tasks node = pc_tasks (node_parts config r) @
      [essential ''frontier-mapping-sync-worker'', essential ''frontier-filter-pool''] @ consensus_tasks config"
    and "rn_rpc node = full_modules (node_deps config r)"
    and "rn_babe node = (if nc_role config = Authority then Some (babe_params config (node_parts config r)) else None)"
    and "rn_discovery node =
      (if nc_role config = Authority then Some (nc_allow_non_globals_in_dht config) else None)"
    and "rn_grandpa node = None \<longleftrightarrow> nc_disable_grandpa config"
    and "rn_grandpa node = Some g \<Longrightarrow> \<exists>protocol_name. g = grandpa_voter_config (nc_role config) protocol_name"
proof -
  obtain h where n: "node =
      \<lparr>rn_tasks = pc_tasks (node_parts config r) @
         [essential ''frontier-mapping-sync-worker'', essential ''frontier-filter-pool''] @
         consensus_tasks config,
       rn_extra_sets = nc_extra_sets config @ [N_protocol_name N h (nc_chain_id config)],
       rn_offchain_workers = nc_offchain_worker_enabled config,
       rn_rpc = full_modules (node_deps config r),
       rn_babe = (if nc_role config = Authority then Some (babe_params config (node_parts config r)) else None),
       rn_discovery =
         (if nc_role config = Authority then Some (nc_allow_non_globals_in_dht config) else None),
       rn_grandpa =
         (if nc_disable_grandpa config then None
          else Some (grandpa_voter_config (nc_role config) (N_protocol_name N h (nc_chain_id config))))\<rparr>"
    using assms unfolding start_node_iff Let_def by blast
  show "rn_tasks node = pc_tasks (node_parts config r) @
      [essential ''frontier-mapping-sync-worker'', essential ''frontier-filter-pool''] @ consensus_tasks config"
    "rn_rpc node = full_modules (node_deps config r)"
    "rn_babe node = (if nc_role config = Authority then Some (babe_params config (node_parts config r)) else None)"
    "rn_discovery node =
      (if nc_role config = Authority then Some (nc_allow_non_globals_in_dht config) else None)"
    "rn_grandpa node = None \<longleftrightarrow> nc_disable_grandpa config"
    by (simp_all add: n)
  show "\<exists>protocol_name. g = grandpa_voter_config (nc_role config) protocol_name" if "rn_grandpa node = Some g"
    using that by (auto simp: n split: if_splits)
qed

text \<open>The tracing modules served are those asked for.\<close>

lemma tracing_served:
  assumes "start_node_impl N config r = Some (Inr node)"
  shows "(\<exists>requester. Debug_rpc requester \<in> set (rn_rpc node)) \<longleftrightarrow> Debug \<in> set (run_ethapi r)"
    and "(\<exists>requester count. Trace_rpc requester count \<in> set (rn_rpc node)) \<longleftrightarrow> Trace \<in> set (run_ethapi r)"
  by (simp_all add: started(2) [OF assms] full_modules_def node_deps_def RpcConfig_of_def)

text \<open>A module is served only if its task runs.\<close>

lemma tracing_tasks:
  assumes "start_node_impl N config r = Some (Inr node)"
  shows "Debug \<in> set (run_ethapi r) \<Longrightarrow> essential ''ethapi-debug'' \<in> set (rn_tasks node)"
    and "Trace \<in> set (run_ethapi r) \<Longrightarrow> essential ''trace-filter-cache'' \<in> set (rn_tasks node)"
  by (simp_all add: started(1) [OF assms] node_parts_def RpcConfig_of_def)

text \<open>Only authorities author and publish themselves, and vote with their keys.\<close>

lemma authorities_author:
  assumes "start_node_impl N config r = Some (Inr node)"
  shows "rn_babe node \<noteq> None \<longleftrightarrow> nc_role config = Authority"
    and "rn_discovery node \<noteq> None \<longleftrightarrow> nc_role config = Authority"
    and "rn_grandpa node = Some g \<Longrightarrow> gr_keystore g \<longleftrightarrow> nc_role config = Authority"
  using started(6) [OF assms]
  by (auto simp: started(3,4) [OF assms] grandpa_voter_config_def is_authority_def)

lemma task_names_distinct:
  assumes "start_node_impl N config r = Some (Inr node)"
  shows "distinct (map task_name (rn_tasks node))"
proof -
  have "distinct (map task_name (consensus_tasks config))"
    "set (map task_name (consensus_tasks config)) \<subseteq>
       {''babe-proposer'', ''authority-discovery-worker'', ''grandpa-voter''}"
    by (auto simp: consensus_tasks_def essential_def)
  moreover have "distinct (map task_name (pc_tasks (node_parts config r)))"
    "set (map task_name (pc_tasks (node_parts config r))) \<subseteq>
       {''telemetry'', ''trace-filter-cache'', ''ethapi-debug''}"
    by (auto simp: node_parts_def essential_def)
  moreover have "distinct (as @ [''frontier-mapping-sync-worker'', ''frontier-filter-pool''] @ bs)"
    if "distinct as" "distinct bs" "set as \<subseteq> {''telemetry'', ''trace-filter-cache'', ''ethapi-debug''}"
      "set bs \<subseteq> {''babe-proposer'', ''authority-discovery-worker'', ''grandpa-voter''}" for as bs
    using that by auto
  ultimately have "distinct (map task_name (pc_tasks (node_parts config r)) @
      [''frontier-mapping-sync-worker'', ''frontier-filter-pool''] @ map task_name (consensus_tasks config))"
    by blast
  then show ?thesis
    by (simp only: started(1) [OF assms] map_append list.map essential_def task.simps)
qed

text \<open>A proposer imports its blocks on the way other blocks go, and puts in the inherents they are checked with.\<close>

lemma own_blocks_like_others:
  assumes "start_node_impl N config r = Some (Inr node)" and "rn_babe node = Some b"
    and "new_partial N config r = Inr parts"
  shows "bp_block_import b = pc_block_import parts"
    and "set (pc_check_inherents parts) \<subseteq> set (bp_inherents b)"
  using assms(2,3)
  by (auto simp: started(3) [OF assms(1)] new_partial_ok babe_params_def node_parts_def split: if_splits)

lemma default_ports_distinct:
  "distinct [p2p_listen_port, rpc_ws_listen_port, rpc_http_listen_port, prometheus_listen_port]"
  by (simp add: p2p_listen_port_def rpc_ws_listen_port_def rpc_http_listen_port_def prometheus_listen_port_def)

text \<open>Without options nothing is traced.\<close>

lemma default_node_traces_nothing:
  assumes "start_node_impl N config RunCmd_default = Some (Inr node)"
  shows "Debug_rpc d \<notin> set (rn_rpc node)" and "Trace_rpc t n \<notin> set (rn_rpc node)"
  using tracing_served(1,2) [OF assms] by (auto simp: RunCmd_default_def)

subsection \<open>Lemmas: filters\<close>

definition expired :: "u64 \<Rightarrow> u64 \<Rightarrow> bool" where
  "expired imported_number at_block \<longleftrightarrow>
     wrap_add u64_max at_block FILTER_RETAIN_THRESHOLD \<le> imported_number"

lemma filter_maintenance_fold:
  "foldl (\<lambda>locked (k, at_block). if expired n at_block then AList.delete k locked else locked) locked xs =
     filter (\<lambda>(k, _). \<forall>b. (k, b) \<in> set xs \<longrightarrow> \<not> expired n b) locked"
proof (induction xs arbitrary: locked)
  case (Cons x xs)
  show ?case
    by (cases x) (auto simp: Cons.IH AList.delete_eq intro!: filter_cong)
qed simp

lemma filter_maintenance_eq:
  assumes "distinct (map fst pool)"
  shows "filter_maintenance n pool = filter (\<lambda>(k, b). \<not> expired n b) pool"
proof -
  have "filter_maintenance n pool = filter (\<lambda>(k, _). \<forall>b. (k, b) \<in> set pool \<longrightarrow> \<not> expired n b) pool"
    unfolding filter_maintenance_def Let_def expired_def [symmetric] by (rule filter_maintenance_fold)
  also have "\<dots> = filter (\<lambda>(k, b). \<not> expired n b) pool"
    using assms by (intro filter_cong) (auto dest: eq_key_imp_eq_value)
  finally show ?thesis .
qed

lemma filter_pool_task_eq:
  "distinct (map fst pool) \<Longrightarrow>
     filter_pool_task ns pool = filter (\<lambda>(k, b). \<forall>n \<in> set ns. \<not> expired n b) pool"
proof (induction ns arbitrary: pool)
  case (Cons n ns)
  have "distinct (map fst (filter_maintenance n pool))"
    using Cons.prems by (simp add: filter_maintenance_eq distinct_map_filter)
  then show ?case
    using Cons by (auto simp: filter_pool_task_def filter_maintenance_eq intro!: filter_cong)
qed (simp add: filter_pool_task_def)

text \<open>A filter lives for a hundred blocks: it goes with the first import of a block as far ahead of it.\<close>

lemma filter_lives:
  assumes "distinct (map fst pool)" and "b + FILTER_RETAIN_THRESHOLD \<le> u64_max"
  shows "(k, b) \<in> set (filter_pool_task ns pool) \<longleftrightarrow>
    (k, b) \<in> set pool \<and> (\<forall>n \<in> set ns. n < b + FILTER_RETAIN_THRESHOLD)"
  using assms by (auto simp: filter_pool_task_eq expired_def wrap_add_def not_le)

subsection \<open>Lemmas: the export of the runtime\<close>

lemma network_code:
  assumes "load_spec K (Some wasm) from_json_file chain = Inr spec" and "chain \<in> set networks"
    and "cs_genesis spec = Some g"
  shows "cg_code g = wasm"
  using assms(1,2)
proof (cases rule: load_network)
  case testnet
  with assms(3) show ?thesis
    by (auto simp: glitch_testnet_config_def with_wasm_def glitch_genesis_def split: option.splits)
next
  case mainnet
  with assms(3) show ?thesis
    by (auto simp: glitch_mainnet_config_def with_wasm_def glitch_genesis_mainnet_def glitch_genesis_def
        split: option.splits)
next
  case uat
  with assms(3) show ?thesis
    by (auto simp: glitch_uat_config_def with_wasm_def glitch_genesis_def split: option.splits)
qed

text \<open>What the node relies on in the library: the storage of a genesis holds its code under the key.\<close>

definition builds_code :: "(ChainSpec \<Rightarrow> string + (byte list \<rightharpoonup> byte list)) \<Rightarrow> bool" where
  "builds_code build_storage \<longleftrightarrow>
     (\<forall>spec g. cs_genesis spec = Some g \<longrightarrow>
        (\<exists>storage. build_storage spec = Inr storage \<and> storage CODE = Some (cg_code g)))"

lemma export_network_wasm:
  assumes "load_spec K (Some wasm) from_json_file chain = Inr spec" and "chain \<in> set networks"
    and "cs_genesis spec = Some g" and "builds_code build_storage"
    and "ew_chain params = Some chain \<or> chain = '''' \<and> ew_chain params = None"
  shows "export_genesis_wasm (load_spec K (Some wasm) from_json_file) build_storage hex_display params =
    Inr (ew_output params, if ew_raw params then wasm else [48, 120] @ hex_display wasm)"
proof -
  obtain storage where "build_storage spec = Inr storage" "storage CODE = Some wasm"
    using assms(3,4) network_code [OF assms(1-3)] unfolding builds_code_def by metis
  moreover have "load_spec K (Some wasm) from_json_file
      (case ew_chain params of Some chain \<Rightarrow> chain | None \<Rightarrow> '''') = Inr spec"
    using assms(1,5) by auto
  ultimately show ?thesis
    by (simp add: export_genesis_wasm_def extract_genesis_wasm_def)
qed

text \<open>Without a compiled runtime there is nothing to export.\<close>

lemma export_needs_wasm:
  assumes "chain \<in> set networks" and "ew_chain params = Some chain"
  shows "export_genesis_wasm (load_spec K None from_json_file) build_storage hex_display params =
    Inl ''Development wasm binary not available''"
  using assms by (auto simp: export_genesis_wasm_def networks_def load_spec_def with_wasm_def
      glitch_testnet_config_def glitch_mainnet_config_def glitch_uat_config_def)

text \<open>The commands that look at a database or a chain make a partial node; only without a subcommand a node starts.\<close>

lemma node_starts_without_subcommand: "(\<exists>p. run_action cli path = Start_node p) \<longleftrightarrow> cli_subcommand cli = None"
  by (auto simp: run_action_def split: option.splits Subcommand.splits)


end
