(* ===== verification/Curve_Syntax.thy ===== *)
theory Curve_Syntax
  imports Reward_Curve
begin

section \<open>The syntax of the curve macro (\<^verbatim>\<open>reward-curve/src/lib.rs\<close>)\<close>

text \<open>
  The macro \<^verbatim>\<open>build!\<close> from its tokens to the constant it makes. Tokens are those of Rust's procedural
  macros: identifiers (keywords among them), integer literals by their value, punctuation, and groups in
  parentheses. The parser of types and the list of reserved words belong to the library \<^verbatim>\<open>syn\<close> and are
  parameters. The import that makes the runtime's primitives visible to the constant, and the test
  generated next to it, are left out.

  Lemmas: the parser accepts exactly the printed forms of parameters within their bounds, each of which it
  reads back, and what is accepted makes a constant if its segments are no longer than the least inflation.
\<close>

subsection \<open>Tokens and errors\<close>

datatype token = Ident string | LitInt nat | Punct char | Group "token list"

datatype syn_error = Expected token | Expected_ident | Expected_int | Number_too_large | Expected_end
  | Message string

fun and_then :: "'e + 'a \<Rightarrow> ('a \<Rightarrow> 'e + 'b) \<Rightarrow> 'e + 'b" where
  "and_then (Inl e) f = Inl e"
| "and_then (Inr x) f = f x"

text \<open>The parsers of the library for a given token, an identifier, an integer literal and its value.\<close>

definition expect :: "token \<Rightarrow> token list \<Rightarrow> syn_error + token list" where
  "expect t ts = (case ts of x # rest \<Rightarrow> if x = t then Inr rest else Inl (Expected t) | [] \<Rightarrow> Inl (Expected t))"

definition parse_ident :: "(string \<Rightarrow> bool) \<Rightarrow> token list \<Rightarrow> syn_error + (string \<times> token list)" where
  "parse_ident reserved ts =
     (case ts of Ident s # rest \<Rightarrow> if reserved s then Inl Expected_ident else Inr (s, rest)
      | _ \<Rightarrow> Inl Expected_ident)"

definition parse_int :: "token list \<Rightarrow> syn_error + (nat \<times> token list)" where
  "parse_int ts = (case ts of LitInt n # rest \<Rightarrow> Inr (n, rest) | _ \<Rightarrow> Inl Expected_int)"

definition base10_parse :: "nat \<Rightarrow> syn_error + u32" where
  "base10_parse n = (if n \<le> u32_max then Inr n else Inl Number_too_large)"

subsection \<open>Bounds\<close>

fun decimal :: "nat \<Rightarrow> string" where
  "decimal n =
     (if n < 10 then [''0123456789'' ! n] else decimal (n div 10) @ [''0123456789'' ! (n mod 10)])"

declare decimal.simps [simp del]

text \<open>\<^verbatim>\<open>{:07}\<close>: at least seven digits.\<close>

definition decimal7 :: "nat \<Rightarrow> string" where
  "decimal7 n = replicate (7 - length (decimal n)) CHR ''0'' @ decimal n"

definition bounds_display :: "Bounds \<Rightarrow> string" where
  "bounds_display b =
     (if bd_min_strict b then '']'' else ''['') @ decimal7 (bd_min b) @ ''; '' @ decimal7 (bd_max b) @
     (if bd_max_strict b then ''['' else '']'')"

subsection \<open>The parser\<close>

definition parse_field :: "string \<Rightarrow> token list \<Rightarrow> Bounds \<Rightarrow> syn_error + (u32 \<times> token list)" where
  "parse_field key ts bounds =
     and_then (expect (Ident key) ts) (\<lambda>ts.
     and_then (expect (Punct CHR '':'') ts) (\<lambda>ts.
     and_then (parse_int ts) (\<lambda>(value_lit, ts).
     and_then (base10_parse value_lit) (\<lambda>val.
       if \<not> bounds_check bounds val
       then Inl (Message (''Invalid '' @ key @ '': '' @ decimal val @ '',  must be in '' @ bounds_display bounds))
       else Inr (val, ts)))))"

abbreviation comma :: token where
  "comma \<equiv> Punct CHR '',''"

text \<open>The arguments of \<^verbatim>\<open>curve!\<close>, with an optional comma at their end.\<close>

definition parse_args :: "token list \<Rightarrow> syn_error + INposInput" where
  "parse_args ts =
     and_then (parse_field ''min_inflation'' ts
       \<lparr>bd_min = 0, bd_min_strict = True, bd_max = 1000000, bd_max_strict = False\<rparr>) (\<lambda>(mini, ts).
     and_then (expect comma ts) (\<lambda>ts.
     and_then (parse_field ''max_inflation'' ts
       \<lparr>bd_min = mini, bd_min_strict = True, bd_max = 1000000, bd_max_strict = False\<rparr>) (\<lambda>(maxi, ts).
     and_then (expect comma ts) (\<lambda>ts.
     and_then (parse_field ''ideal_stake'' ts
       \<lparr>bd_min = 100000, bd_min_strict = False, bd_max = 900000, bd_max_strict = False\<rparr>) (\<lambda>(ideal, ts).
     and_then (expect comma ts) (\<lambda>ts.
     and_then (parse_field ''falloff'' ts
       \<lparr>bd_min = 10000, bd_min_strict = False, bd_max = 1000000, bd_max_strict = False\<rparr>) (\<lambda>(fall, ts).
     and_then (expect comma ts) (\<lambda>ts.
     and_then (parse_field ''max_piece_count'' ts
       \<lparr>bd_min = 2, bd_min_strict = False, bd_max = 1000, bd_max_strict = False\<rparr>) (\<lambda>(pieces, ts).
     and_then (expect comma ts) (\<lambda>ts.
     and_then (parse_field ''test_precision'' ts
       \<lparr>bd_min = 0, bd_min_strict = False, bd_max = 1000000, bd_max_strict = False\<rparr>) (\<lambda>(prec, ts).
     let ts = (case ts of t # rest \<Rightarrow> if t = comma then rest else ts | [] \<Rightarrow> [])
     in if ts \<noteq> [] then Inl Expected_end
        else Inr \<lparr>min_inflation = mini, ideal_stake = ideal, max_inflation = maxi, falloff = fall,
                  max_piece_count = pieces, test_precision = prec\<rparr>)))))))))))"

definition parse_group :: "token list \<Rightarrow> syn_error + (token list \<times> token list)" where
  "parse_group ts = (case ts of Group args # rest \<Rightarrow> Inr (args, rest) | _ \<Rightarrow> Inl (Expected (Group [])))"

definition parse_input ::
  "(string \<Rightarrow> bool) \<Rightarrow> (token list \<Rightarrow> syn_error + ('t \<times> token list)) \<Rightarrow> token list \<Rightarrow>
    syn_error + (string \<times> 't \<times> INposInput)" where
  "parse_input reserved parse_type ts =
     and_then (expect (Ident ''const'') ts) (\<lambda>ts.
     and_then (parse_ident reserved ts) (\<lambda>(ident, ts).
     and_then (expect (Punct CHR '':'') ts) (\<lambda>ts.
     and_then (parse_type ts) (\<lambda>(typ, ts).
     and_then (expect (Punct CHR ''='') ts) (\<lambda>ts.
     and_then (expect (Ident ''curve'') ts) (\<lambda>ts.
     and_then (expect (Punct CHR ''!'') ts) (\<lambda>ts.
     and_then (parse_group ts) (\<lambda>(args_input, ts).
     and_then (expect (Punct CHR '';'') ts) (\<lambda>ts.
     if ts \<noteq> [] then Inl Expected_end
     else and_then (parse_args args_input) (\<lambda>input. Inr (ident, typ, input)))))))))))"

text \<open>The macro; \<^term>\<open>None\<close> is a panic while it expands.\<close>

definition build ::
  "(string \<Rightarrow> bool) \<Rightarrow> (token list \<Rightarrow> syn_error + ('t \<times> token list)) \<Rightarrow> token list \<Rightarrow>
    (syn_error + (string \<times> 't \<times> (Perbill \<times> Perbill) list \<times> Perbill)) option" where
  "build reserved parse_type ts =
     (case parse_input reserved parse_type ts of
        Inl e \<Rightarrow> Some (Inl e)
      | Inr (ident, typ, input) \<Rightarrow>
          Option.bind (compute_points input) (\<lambda>points.
          map_option (\<lambda>declaration. Inr (ident, typ, declaration)) (generate_piecewise_linear points)))"

subsection \<open>Printing\<close>

definition print_field :: "string \<Rightarrow> u32 \<Rightarrow> token list" where
  "print_field key val = [Ident key, Punct CHR '':'', LitInt val]"

definition print_args :: "INposInput \<Rightarrow> bool \<Rightarrow> token list" where
  "print_args input trailing =
     print_field ''min_inflation'' (min_inflation input) @ comma #
     print_field ''max_inflation'' (max_inflation input) @ comma #
     print_field ''ideal_stake'' (ideal_stake input) @ comma #
     print_field ''falloff'' (falloff input) @ comma #
     print_field ''max_piece_count'' (max_piece_count input) @ comma #
     print_field ''test_precision'' (test_precision input) @ (if trailing then [comma] else [])"

definition print_input :: "string \<Rightarrow> token list \<Rightarrow> INposInput \<Rightarrow> bool \<Rightarrow> token list" where
  "print_input ident typ input trailing =
     Ident ''const'' # Ident ident # Punct CHR '':'' # typ @
     [Punct CHR ''='', Ident ''curve'', Punct CHR ''!'', Group (print_args input trailing), Punct CHR '';'']"

subsection \<open>Lemmas: what is accepted\<close>

lemma and_then_iff: "and_then r f = Inr y \<longleftrightarrow> (\<exists>x. r = Inr x \<and> f x = Inr y)"
  by (cases r) simp_all

lemma expect_iff: "expect t ts = Inr rest \<longleftrightarrow> ts = t # rest"
  by (auto simp: expect_def split: list.splits)

lemma parse_ident_iff: "parse_ident reserved ts = Inr (s, rest) \<longleftrightarrow> ts = Ident s # rest \<and> \<not> reserved s"
  by (auto simp: parse_ident_def split: list.splits token.splits)

lemma parse_int_iff: "parse_int ts = Inr (n, rest) \<longleftrightarrow> ts = LitInt n # rest"
  by (auto simp: parse_int_def split: list.splits token.splits)

lemma parse_group_iff: "parse_group ts = Inr (args, rest) \<longleftrightarrow> ts = Group args # rest"
  by (auto simp: parse_group_def split: list.splits token.splits)

lemma parse_field_iff:
  "parse_field key ts b = Inr (v, rest) \<longleftrightarrow>
     ts = print_field key v @ rest \<and> v \<le> u32_max \<and> bounds_check b v"
  by (auto simp: parse_field_def and_then_iff expect_iff parse_int_iff base10_parse_def print_field_def
      simp del: bounds_check_iff split: if_splits)

lemma parse_field_print:
  "v \<le> u32_max \<Longrightarrow> bounds_check b v \<Longrightarrow> parse_field key (print_field key v @ rest) b = Inr (v, rest)"
  by (simp only: parse_field_iff)

lemmas parser_iffs = and_then_iff expect_iff parse_ident_iff parse_int_iff parse_group_iff parse_field_iff

text \<open>The bounds of all the parameters.\<close>

definition in_bounds :: "INposInput \<Rightarrow> bool" where
  "in_bounds input \<longleftrightarrow>
     parse_fields (min_inflation input) (max_inflation input) (ideal_stake input) (falloff input)
       (max_piece_count input) (test_precision input) = Some input"

lemma in_bounds_iff: "in_bounds input \<longleftrightarrow> input_ok input \<and> test_precision input \<le> 1000000"
  by (auto simp: in_bounds_def parse_fields_def input_ok_def)

text \<open>Exactly the printed parameters within their bounds are accepted, and they are read back.\<close>

lemma parse_args_iff:
  "parse_args ts = Inr input \<longleftrightarrow> in_bounds input \<and> (\<exists>trailing. ts = print_args input trailing)"
proof
  assume p: "parse_args ts = Inr input"
  let ?tail = "\<lambda>ts :: token list. case ts of t # rest \<Rightarrow> if t = comma then rest else ts | [] \<Rightarrow> []"
  have tail: "\<exists>trailing. ts = (if trailing then [comma] else [])" if "?tail ts = []" for ts :: "token list"
    using that by (cases ts) (auto split: if_splits intro: exI [of _ True] exI [of _ False])
  from p obtain rest where
    "?tail rest = []" "in_bounds input" "ts = print_args input False @ rest"
    by (auto simp: parse_args_def parser_iffs in_bounds_iff input_ok_def print_args_def Let_def split: if_splits)
  with tail [of rest] show "in_bounds input \<and> (\<exists>trailing. ts = print_args input trailing)"
    by (auto simp: print_args_def split: if_splits)
next
  assume "in_bounds input \<and> (\<exists>trailing. ts = print_args input trailing)"
  then obtain trailing where i: "in_bounds input" "ts = print_args input trailing" by blast
  then show "parse_args ts = Inr input"
    by (cases trailing)
      (simp_all add: parse_args_def in_bounds_iff input_ok_def print_args_def Let_def parse_field_print
        parse_field_print [where rest = "[]", simplified] expect_def u32_max_def)
qed

text \<open>What the printing of a type relies on: the parser of types stops before the equals sign.\<close>

definition reads_type :: "(token list \<Rightarrow> syn_error + ('t \<times> token list)) \<Rightarrow> ('t \<Rightarrow> token list) \<Rightarrow> bool" where
  "reads_type parse_type print_type \<longleftrightarrow>
     (\<forall>t rest. parse_type (print_type t @ Punct CHR ''='' # rest) = Inr (t, Punct CHR ''='' # rest))"

lemma parse_print_input:
  assumes "in_bounds input" and "\<not> reserved ident" and "reads_type parse_type print_type"
  shows "parse_input reserved parse_type (print_input ident (print_type ty) input trailing) = Inr (ident, ty, input)"
proof -
  have "parse_args (print_args input trailing) = Inr input"
    using assms(1) by (auto simp: parse_args_iff)
  with assms(2,3) show ?thesis
    by (simp add: parse_input_def print_input_def expect_def parse_ident_def parse_group_def reads_type_def)
qed

text \<open>Whatever is accepted has parameters within the bounds.\<close>

lemma parse_input_in_bounds: "parse_input reserved parse_type ts = Inr (ident, ty, input) \<Longrightarrow> in_bounds input"
  by (auto simp: parse_input_def parser_iffs parse_args_iff split: if_splits)

lemma parse_input_inject:
  assumes "in_bounds input" "\<not> reserved ident" "in_bounds input'" "\<not> reserved ident'" "reads_type parse_type print_type"
    and "print_input ident (print_type ty) input trailing = print_input ident' (print_type ty') input' trailing'"
  shows "(ident, ty, input) = (ident', ty', input')"
  using parse_print_input [where reserved = reserved, OF assms(1,2,5), of ty trailing] parse_print_input [where reserved = reserved, OF assms(3,4,5), of ty' trailing']
    assms(6) by simp

text \<open>The message for a parameter out of its bounds names it, its value and the bounds.\<close>

lemma out_of_bounds_message:
  assumes "v \<le> u32_max" and "\<not> bounds_check b v"
  shows "parse_field key (print_field key v @ rest) b =
    Inl (Message (''Invalid '' @ key @ '': '' @ decimal v @ '',  must be in '' @ bounds_display b))"
  using assms by (simp add: parse_field_def print_field_def expect_def parse_int_def base10_parse_def
      del: bounds_check_iff)

subsection \<open>Lemmas: the numbers in messages\<close>

fun of_decimal :: "string \<Rightarrow> nat" where
  "of_decimal cs = foldl (\<lambda>n c. 10 * n + (of_char c - 48)) 0 cs"

lemma decimal_digit: "d < 10 \<Longrightarrow> of_char (''0123456789'' ! d) = (48 + d :: nat)"
  by (simp add: less_Suc_eq numeral_nat) auto

lemma of_decimal_decimal: "of_decimal (decimal n) = n"
proof (induction n rule: decimal.induct)
  case (1 n)
  show ?case
  proof (cases "n < 10")
    case True
    then show ?thesis by (simp add: decimal.simps [of n] decimal_digit)
  next
    case False
    then have "decimal n = decimal (n div 10) @ [''0123456789'' ! (n mod 10)]"
      by (simp add: decimal.simps [of n])
    moreover have "of_decimal (decimal (n div 10)) = n div 10"
      using "1.IH" False by blast
    ultimately show ?thesis
      using decimal_digit [of "n mod 10"] by simp
  qed
qed

lemma of_decimal_zeros: "of_decimal (replicate k CHR ''0'' @ cs) = of_decimal cs"
  by (induction k) simp_all

text \<open>A padded number is at least seven digits long and spells its value.\<close>

lemma decimal7_value: "of_decimal (decimal7 n) = n" "7 \<le> length (decimal7 n)"
  by (simp_all only: decimal7_def of_decimal_zeros of_decimal_decimal) simp

subsection \<open>Lemmas: the macro\<close>

lemma build_ok:
  assumes "in_bounds input" and "\<not> reserved ident" and "reads_type parse_type print_type"
    and "max_length input \<le> min_inflation input"
  shows "\<exists>cs. build reserved parse_type (print_input ident (print_type ty) input trailing) =
    Some (Inr (ident, ty, cs, max_inflation input * 1000))"
proof -
  have ok: "input_ok input" using assms(1) by (simp add: in_bounds_iff)
  from compute_points_ok [OF ok assms(4)] obtain ps where
    ps: "compute_points input = Some ps" "points_ok input ps" by blast
  from generate_ok [OF ps(2) ok] obtain cs where
    "generate_piecewise_linear ps = Some (cs, max_inflation input * 1000)" by blast
  with ps(1) parse_print_input [where reserved = reserved, OF assms(1-3), of ty trailing] show ?thesis
    by (simp add: build_def)
qed

text \<open>Nothing out of bounds makes a constant.\<close>

lemma build_in_bounds:
  assumes "build reserved parse_type ts = Some (Inr (ident, ty, cs))"
  obtains input where "parse_input reserved parse_type ts = Inr (ident, ty, input)" "in_bounds input"
  using assms parse_input_in_bounds
  by (fastforce simp: build_def bind_eq_Some_conv split: sum.splits)


end
