(* ===== verification/Staking_Benchmarks.thy ===== *)
theory Staking_Benchmarks
  imports Staking_Testing "HOL-Library.Multiset"
begin

section \<open>Staking: scenarios for measurements (\<^verbatim>\<open>testing_utils.rs\<close>, \<^verbatim>\<open>benchmarking.rs\<close>)\<close>

text \<open>
  The functions that build a staking state through the calls of the pallet: funded users, pairs of stash
  and controller, validators with random nominators, slashing spans, an era that is ready to be paid out,
  and the worst case of the voter list. The measured calls themselves are those of the pallet. The
  library's derivation of accounts, the operation that clears the voter list, the burning of the whole
  issuance, the worst case of an update of the list and the stream of random numbers are parameters. Of
  the measured cases, those are modelled whose verification does not ask for balances or for the list.

  Lemmas: a scenario keeps the registry's invariant whether or not it succeeds, its pairs are bonded, the
  validators are as many as asked for and validate, adding slashing spans never runs into its assertion
  and makes as many spans as asked for, and a measured case that runs passes its verification.
\<close>

record 'w bench_services =
  N_account :: "string \<Rightarrow> u32 \<Rightarrow> AccountId"
  N_unsafe_clear :: "'w staking \<Rightarrow> 'w"
  N_burn_all :: "'w \<Rightarrow> 'w"
  N_worst_case :: "'w staking \<Rightarrow> AccountId \<Rightarrow> bool \<Rightarrow> u64"
  N_next_u32 :: "nat \<Rightarrow> u32"

subsection \<open>Sequences of calls\<close>

datatype bench_error = Call_failed staking_error | Bench_message string | Assertion_failed

text \<open>The operator \<^verbatim>\<open>?\<close>: the first error ends the scenario, in the state it leaves.\<close>

definition then_do ::
  "(bench_error + 'a) \<times> 's \<Rightarrow> ('a \<Rightarrow> 's \<Rightarrow> (bench_error + 'b) \<times> 's) \<Rightarrow> (bench_error + 'b) \<times> 's" where
  "then_do r f = (case r of (Inl e, s) \<Rightarrow> (Inl e, s) | (Inr x, s) \<Rightarrow> f x s)"

definition run_call :: "'w outcome \<Rightarrow> (bench_error + unit) \<times> 'w staking" where
  "run_call r = (case r of (Inl e, s) \<Rightarrow> (Inl (Call_failed e), s) | (Inr _, s) \<Rightarrow> (Inr (), s))"

subsection \<open>Users\<close>

definition clear_validators_and_nominators :: "'w bench_services \<Rightarrow> 'w staking \<Rightarrow> 'w staking" where
  "clear_validators_and_nominators N s =
     (let s1 = s\<lparr>Validators := Map.empty, CounterForValidators := 0,
                Nominators := Map.empty, CounterForNominators := 0\<rparr>
      in set_world (N_unsafe_clear N s1) s1)"

definition create_funded_user_with_balance ::
  "'w bench_services \<Rightarrow> 'w staking_config \<Rightarrow> string \<Rightarrow> u32 \<Rightarrow> Balance \<Rightarrow> 'w staking \<Rightarrow> AccountId \<times> 'w staking" where
  "create_funded_user_with_balance N T label n balance s =
     (let user = N_account N label n
      in (user, set_world (cur_make_free_balance_be (T_currency T) user balance (world s)) s))"

definition create_funded_user ::
  "'w bench_services \<Rightarrow> 'w staking_config \<Rightarrow> string \<Rightarrow> u32 \<Rightarrow> u32 \<Rightarrow> 'w staking \<Rightarrow> AccountId \<times> 'w staking" where
  "create_funded_user N T label n balance_factor s =
     (let user = N_account N label n;
          balance = wrap_mul u128_max (cur_minimum_balance (T_currency T)) balance_factor
      in (user, set_world (cur_make_free_balance_be (T_currency T) user balance (world s)) s))"

type_synonym 'w pair_outcome = "(bench_error + (AccountId \<times> AccountId)) \<times> 'w staking"

definition bench_amount :: "'w staking_config \<Rightarrow> u32 \<Rightarrow> Balance" where
  "bench_amount T balance_factor =
     wrap_mul u128_max (cur_minimum_balance (T_currency T)) (max (balance_factor div 10) 1)"

definition bond_pair ::
  "'w staking_config \<Rightarrow> AccountId \<Rightarrow> AccountId \<Rightarrow> Balance \<Rightarrow> RewardDestination \<Rightarrow> 'w staking \<Rightarrow> 'w pair_outcome" where
  "bond_pair T stash controller amount destination s =
     then_do (run_call (bond T (Signed stash) (T_unlookup T controller) amount destination s))
       (\<lambda>_ s. (Inr (stash, controller), s))"

definition create_stash_controller ::
  "'w bench_services \<Rightarrow> 'w staking_config \<Rightarrow> u32 \<Rightarrow> u32 \<Rightarrow> RewardDestination \<Rightarrow> 'w staking \<Rightarrow> 'w pair_outcome" where
  "create_stash_controller N T n balance_factor destination s =
     (let (stash, s1) = create_funded_user N T ''stash'' n balance_factor s;
          (controller, s2) = create_funded_user N T ''controller'' n balance_factor s1
      in bond_pair T stash controller (bench_amount T balance_factor) destination s2)"

definition create_stash_controller_with_balance ::
  "'w bench_services \<Rightarrow> 'w staking_config \<Rightarrow> u32 \<Rightarrow> Balance \<Rightarrow> RewardDestination \<Rightarrow> 'w staking \<Rightarrow> 'w pair_outcome" where
  "create_stash_controller_with_balance N T n balance destination s =
     (let (stash, s1) = create_funded_user_with_balance N T ''stash'' n balance s;
          (controller, s2) = create_funded_user_with_balance N T ''controller'' n balance s1
      in bond_pair T stash controller balance destination s2)"

definition create_stash_and_dead_controller ::
  "'w bench_services \<Rightarrow> 'w staking_config \<Rightarrow> u32 \<Rightarrow> u32 \<Rightarrow> RewardDestination \<Rightarrow> 'w staking \<Rightarrow> 'w pair_outcome" where
  "create_stash_and_dead_controller N T n balance_factor destination s =
     (let (stash, s1) = create_funded_user N T ''stash'' n balance_factor s;
          (controller, s2) = create_funded_user N T ''controller'' n 0 s1
      in bond_pair T stash controller (bench_amount T balance_factor) destination s2)"

subsection \<open>Validators and nominators\<close>

text \<open>A commission of half, the rest by default.\<close>

definition bench_prefs :: ValidatorPrefs where
  "bench_prefs = \<lparr>vp_commission = 500000000, vp_blocked = False\<rparr>"

text \<open>A pair whose controller validates; the result is the source that looks up the stash.\<close>

definition create_validator ::
  "'w bench_services \<Rightarrow> 'w staking_config \<Rightarrow> u32 \<Rightarrow> u32 \<Rightarrow> 'w staking \<Rightarrow> (bench_error + nat) \<times> 'w staking" where
  "create_validator N T n balance_factor s =
     then_do (create_stash_controller N T n balance_factor RdStaked s) (\<lambda>(stash, controller) s.
     then_do (run_call (validate T (Signed controller) bench_prefs s)) (\<lambda>_ s.
       (Inr (T_unlookup T stash), s)))"

fun create_validators_loop ::
  "'w bench_services \<Rightarrow> 'w staking_config \<Rightarrow> u32 \<Rightarrow> u32 \<Rightarrow> u32 list \<Rightarrow> nat list \<Rightarrow> 'w staking \<Rightarrow>
    (bench_error + nat list) \<times> 'w staking" where
  "create_validators_loop N T balance_factor seed [] validators s = (Inr validators, s)"
| "create_validators_loop N T balance_factor seed (i # is) validators s =
     then_do (create_validator N T (add_u32 i seed) balance_factor s) (\<lambda>stash_lookup s.
       create_validators_loop N T balance_factor seed is (validators @ [stash_lookup]) s)"

definition create_validators_with_seed ::
  "'w bench_services \<Rightarrow> 'w staking_config \<Rightarrow> u32 \<Rightarrow> u32 \<Rightarrow> u32 \<Rightarrow> 'w staking \<Rightarrow>
    (bench_error + nat list) \<times> 'w staking" where
  "create_validators_with_seed N T maximum balance_factor seed s =
     create_validators_loop N T balance_factor seed [0..<maximum] [] s"

definition create_validators ::
  "'w bench_services \<Rightarrow> 'w staking_config \<Rightarrow> u32 \<Rightarrow> u32 \<Rightarrow> 'w staking \<Rightarrow>
    (bench_error + nat list) \<times> 'w staking" where
  "create_validators N T maximum balance_factor s =
     create_validators_with_seed N T maximum balance_factor 0 s"

text \<open>Random numbers are counted: \<open>k\<close> have been drawn.\<close>

definition draw_factor :: "'w bench_services \<Rightarrow> bool \<Rightarrow> nat \<Rightarrow> u32 \<times> nat" where
  "draw_factor N randomize_stake k =
     (if randomize_stake then (N_next_u32 N k mod 255 + 10, Suc k) else (100, k))"

fun era_validators ::
  "'w bench_services \<Rightarrow> 'w staking_config \<Rightarrow> bool \<Rightarrow> u32 list \<Rightarrow> nat list \<Rightarrow> nat \<Rightarrow> 'w staking \<Rightarrow>
    (bench_error + (nat list \<times> nat)) \<times> 'w staking" where
  "era_validators N T randomize_stake [] validators k s = (Inr (validators, k), s)"
| "era_validators N T randomize_stake (i # is) validators k s =
     (let (balance_factor, k) = draw_factor N randomize_stake k
      in then_do (create_validator N T i balance_factor s) (\<lambda>stash_lookup s.
           era_validators N T randomize_stake is (validators @ [stash_lookup]) k s))"

text \<open>\<open>available.remove(rng % available.len())\<close>, as often as asked; \<^term>\<open>None\<close>: none is left, a division by zero.\<close>

fun select_validators :: "'w bench_services \<Rightarrow> nat \<Rightarrow> nat \<Rightarrow> nat list \<Rightarrow> nat list \<Rightarrow> (nat list \<times> nat) option" where
  "select_validators N 0 k available selected = Some (selected, k)"
| "select_validators N (Suc m) k available selected =
     (if available = [] then None
      else (let i = N_next_u32 N k mod length available
            in select_validators N m (Suc k) (take i available @ drop (Suc i) available)
                 (selected @ [available ! i])))"

fun era_nominators ::
  "'w bench_services \<Rightarrow> 'w staking_config \<Rightarrow> bool \<Rightarrow> nat \<Rightarrow> nat list \<Rightarrow> u32 list \<Rightarrow> nat \<Rightarrow> 'w staking \<Rightarrow>
    ((bench_error + unit) \<times> 'w staking) option" where
  "era_nominators N T randomize_stake edges chosen [] k s = Some (Inr (), s)"
| "era_nominators N T randomize_stake edges chosen (j # js) k s =
     (let (balance_factor, k) = draw_factor N randomize_stake k
      in case create_stash_controller N T (sub_u32 u32_max j) balance_factor RdStaked s of
           (Inl e, s) \<Rightarrow> Some (Inl e, s)
         | (Inr (_, n_controller), s) \<Rightarrow>
             (case select_validators N edges k chosen [] of
                None \<Rightarrow> None
              | Some (selected, k) \<Rightarrow>
                  (case run_call (nominate T (Signed n_controller) selected s) of
                     (Inl e, s) \<Rightarrow> Some (Inl e, s)
                   | (Inr _, s) \<Rightarrow> era_nominators N T randomize_stake edges chosen js k s)))"

text \<open>\<^term>\<open>None\<close> is a panic: slicing beyond the validators, or drawing from none.\<close>

definition create_validators_with_nominators_for_era ::
  "'w bench_services \<Rightarrow> 'w staking_config \<Rightarrow> u32 \<Rightarrow> u32 \<Rightarrow> nat \<Rightarrow> bool \<Rightarrow> u32 option \<Rightarrow> 'w staking \<Rightarrow>
    ((bench_error + nat list) \<times> 'w staking) option" where
  "create_validators_with_nominators_for_era N T validators nominators edge_per_nominator randomize_stake
     to_nominate s =
     (case era_validators N T randomize_stake [0..<validators] [] 0 (clear_validators_and_nominators N s) of
        (Inl e, s) \<Rightarrow> Some (Inl e, s)
      | (Inr (validators_stash, k), s) \<Rightarrow>
          (let to_nominate = (case to_nominate of Some n \<Rightarrow> n | None \<Rightarrow> length validators_stash)
           in if length validators_stash < to_nominate then None
              else (let validator_chosen = take to_nominate validators_stash
                    in case era_nominators N T randomize_stake
                              (min validators (edge_per_nominator mod Suc u32_max)) validator_chosen
                              [0..<nominators] k s of
                         None \<Rightarrow> None
                       | Some (Inl e, s) \<Rightarrow> Some (Inl e, s)
                       | Some (Inr _, s) \<Rightarrow> Some (Inr validator_chosen, s\<lparr>ValidatorCount := validators\<rparr>))))"

definition current_era_or_zero :: "'w staking \<Rightarrow> EraIndex" where
  "current_era_or_zero s = (case CurrentEra s of Some era \<Rightarrow> era | None \<Rightarrow> 0)"

subsection \<open>Slashing spans\<close>

text \<open>Each further span is opened by ending the one before; \<^term>\<open>None\<close>: the assertion that this is possible.\<close>

fun open_spans ::
  "AccountId \<Rightarrow> u32 list \<Rightarrow> SlashingSpans \<Rightarrow> 'w staking \<Rightarrow> (SlashingSpans \<times> 'w staking) option" where
  "open_spans who [] spans s = Some (spans, s)"
| "open_spans who (i # is) spans s =
     (case end_span spans i of
        (_, False) \<Rightarrow> None
      | (spans, True) \<Rightarrow>
          open_spans who is spans (s\<lparr>SpanSlash := (SpanSlash s)((who, i) \<mapsto> SpanRecord_default)\<rparr>))"

definition add_slashing_spans :: "AccountId \<Rightarrow> u32 \<Rightarrow> 'w staking \<Rightarrow> 'w staking option" where
  "add_slashing_spans who spans s =
     (if spans = 0 then Some s
      else
        (case open_spans who [1..<spans] (spans_new 0)
                (s\<lparr>SpanSlash := (SpanSlash s)((who, 0) \<mapsto> SpanRecord_default)\<rparr>) of
           None \<Rightarrow> None
         | Some (slashing_spans, s) \<Rightarrow>
             Some (s\<lparr>SlashingSpansOf := (SlashingSpansOf s)(who \<mapsto> slashing_spans)\<rparr>)))"

subsection \<open>An era to pay out\<close>

text \<open>The nominators of a validator, of whom the first \<open>n\<close> nominate it.\<close>

fun add_nominators ::
  "'w bench_services \<Rightarrow> 'w staking_config \<Rightarrow> u32 \<Rightarrow> bool \<Rightarrow> RewardDestination \<Rightarrow> nat \<Rightarrow> u32 list \<Rightarrow>
    (AccountId \<times> AccountId) list \<Rightarrow> 'w staking \<Rightarrow> (bench_error + (AccountId \<times> AccountId) list) \<times> 'w staking" where
  "add_nominators N T n dead destination stash_lookup [] nominators s = (Inr nominators, s)"
| "add_nominators N T n dead destination stash_lookup (i # is) nominators s =
     then_do (if \<not> dead then create_stash_controller N T (sub_u32 u32_max i) 100 destination s
              else create_stash_and_dead_controller N T (sub_u32 u32_max i) 100 destination s)
       (\<lambda>(n_stash, n_controller) s.
          if i < n
          then then_do (run_call (nominate T (Signed n_controller) [stash_lookup] s)) (\<lambda>_ s.
                 add_nominators N T n dead destination stash_lookup is (nominators @ [(n_stash, n_controller)]) s)
          else add_nominators N T n dead destination stash_lookup is nominators s)"

text \<open>The start of an era with its points and its reward; \<^term>\<open>None\<close>: an assertion fails or no era starts.\<close>

definition start_bench_era :: "'w staking_config \<Rightarrow> AccountId \<Rightarrow> u32 \<Rightarrow> 'w staking \<Rightarrow> 'w staking option" where
  "start_bench_era T v_stash upper_bound s =
     (case try_trigger_new_era T 1 True (s\<lparr>ValidatorCount := 1\<rparr>) of
        (Some [new_validator], s) \<Rightarrow>
          if new_validator = v_stash \<and> CounterForValidators s \<noteq> 0 \<and> CounterForNominators s \<noteq> 0
          then map_option (\<lambda>current_era.
                 s\<lparr>ErasRewardPoints := (ErasRewardPoints s)(current_era \<mapsto>
                       \<lparr>erp_total = 10, erp_individual = Map.empty(v_stash \<mapsto> 10)\<rparr>),
                   ErasValidatorReward := (ErasValidatorReward s)(current_era \<mapsto>
                       sat_mul u128_max (sat_mul u128_max (cur_minimum_balance (T_currency T)) upper_bound) 1000)\<rparr>)
               (CurrentEra s)
          else None
      | _ \<Rightarrow> None)"

definition create_validator_with_nominators ::
  "'w bench_services \<Rightarrow> 'w staking_config \<Rightarrow> u32 \<Rightarrow> u32 \<Rightarrow> bool \<Rightarrow> RewardDestination \<Rightarrow> 'w staking \<Rightarrow>
    ((bench_error + (AccountId \<times> (AccountId \<times> AccountId) list)) \<times> 'w staking) option" where
  "create_validator_with_nominators N T n upper_bound dead destination s =
     (case then_do (create_stash_controller N T 0 100 destination (clear_validators_and_nominators N s))
             (\<lambda>(v_stash, v_controller) s.
              then_do (run_call (validate T (Signed v_controller) bench_prefs s)) (\<lambda>_ s.
              then_do (add_nominators N T n dead destination (T_unlookup T v_stash) [0..<upper_bound] [] s)
                (\<lambda>nominators s. (Inr (v_stash, nominators), s)))) of
        (Inl e, s) \<Rightarrow> Some (Inl e, s)
      | (Inr (v_stash, nominators), s) \<Rightarrow>
          map_option (\<lambda>s. (Inr (v_stash, nominators), s)) (start_bench_era T v_stash upper_bound s))"

subsection \<open>The worst case of the voter list\<close>

definition USER_SEED :: u32 where
  "USER_SEED = 999666"

record ListScenario =
  origin_stash1 :: AccountId
  origin_controller1 :: AccountId
  dest_weight :: Balance

text \<open>A pair with a balance whose controller nominates an account that need not be a validator.\<close>

definition nominating_pair ::
  "'w bench_services \<Rightarrow> 'w staking_config \<Rightarrow> u32 \<Rightarrow> Balance \<Rightarrow> 'w staking \<Rightarrow> 'w pair_outcome" where
  "nominating_pair N T n balance s =
     then_do (create_stash_controller_with_balance N T n balance RewardDestination_default s)
       (\<lambda>(stash, controller) s.
        then_do (run_call (nominate T (Signed controller) [T_unlookup T (N_account N ''random_validator'' 0)] s))
          (\<lambda>_ s. (Inr (stash, controller), s)))"

definition ListScenario_new ::
  "'w bench_services \<Rightarrow> 'w staking_config \<Rightarrow> Balance \<Rightarrow> bool \<Rightarrow> 'w staking \<Rightarrow>
    (bench_error + ListScenario) \<times> 'w staking" where
  "ListScenario_new N T origin_weight is_increase s =
     (if origin_weight = 0 then (Inl (Bench_message ''origin weight must be greater than 0''), s)
      else
        then_do (nominating_pair N T (add_u32 USER_SEED 2) origin_weight (set_world (N_burn_all N (world s)) s))
          (\<lambda>(origin_stash1, origin_controller1) s.
        then_do (nominating_pair N T (add_u32 USER_SEED 3) origin_weight s) (\<lambda>_ s.
          let dest_weight_as_vote = N_worst_case N s origin_stash1 is_increase;
              total_issuance = cur_total_issuance (T_currency T) (world s);
              dest_weight = T_to_currency T dest_weight_as_vote total_issuance
          in then_do (nominating_pair N T (add_u32 USER_SEED 1) dest_weight s) (\<lambda>_ s.
               (Inr \<lparr>origin_stash1 = origin_stash1, origin_controller1 = origin_controller1,
                     dest_weight = dest_weight\<rparr>, s)))))"

subsection \<open>Lemmas: slashing spans\<close>

text \<open>A span can be ended at any era not before its start.\<close>

lemma end_span_ends:
  assumes "ss_last_start spans \<le> i" and "i < u32_max" and "ss_span_index spans < u32_max"
  shows "end_span spans i =
    (spans\<lparr>ss_prior := (Suc i - ss_last_start spans) # ss_prior spans, ss_last_start := Suc i,
           ss_span_index := Suc (ss_span_index spans)\<rparr>, True)"
  using assms by (simp add: end_span_def Let_def wrap_add_exact wrap_sub_exact)

lemma open_spans_ok:
  assumes "ss_last_start spans \<le> i" and "i + d \<le> u32_max" and "ss_span_index spans + d \<le> u32_max"
    and "wf_spans spans"
  shows "\<exists>spans' s'. open_spans who [i..<i + d] spans s = Some (spans', s') \<and>
    ss_span_index spans' = ss_span_index spans + d \<and> wf_spans spans'"
  using assms
proof (induction d arbitrary: i spans s)
  case (Suc d)
  obtain opened where e: "end_span spans i = (opened, True)" "ss_last_start opened = Suc i"
    "ss_span_index opened = Suc (ss_span_index spans)"
    using Suc.prems by (simp add: end_span_ends)
  have "wf_spans opened"
    using Suc.prems wf_spans_end_span [of spans i] e(1) by simp
  then obtain spans' s' where
    "open_spans who [Suc i..<Suc i + d] opened (s\<lparr>SpanSlash := (SpanSlash s)((who, i) \<mapsto> SpanRecord_default)\<rparr>) =
       Some (spans', s')" "ss_span_index spans' = ss_span_index opened + d" "wf_spans spans'"
    using Suc.IH [of opened "Suc i"] Suc.prems e by force
  moreover have "[i..<i + Suc d] = i # [Suc i..<Suc i + d]"
    by (simp add: upt_conv_Cons)
  ultimately show ?case
    using e by (simp del: upt_Suc)
qed simp

text \<open>The assertion never fails, and there are as many spans as asked for.\<close>

lemma add_slashing_spans_ok:
  assumes "n \<le> u32_max"
  shows "\<exists>s'. add_slashing_spans who n s = Some s' \<and>
    (0 < n \<longrightarrow> (\<exists>spans. SlashingSpansOf s' who = Some spans \<and> wf_spans spans \<and> Suc (ss_span_index spans) = n))"
proof (cases n)
  case (Suc d)
  obtain spans s' where
    "open_spans who [1..<1 + d] (spans_new 0) (s\<lparr>SpanSlash := (SpanSlash s)((who, 0) \<mapsto> SpanRecord_default)\<rparr>) =
       Some (spans, s')" "ss_span_index spans = ss_span_index (spans_new 0) + d" "wf_spans spans"
    using open_spans_ok [of "spans_new 0" 1 d who "s\<lparr>SpanSlash := (SpanSlash s)((who, 0) \<mapsto> SpanRecord_default)\<rparr>"]
      wf_spans_new [of 0] assms Suc by (auto simp: spans_new_def simp del: upt_Suc)
  then show ?thesis
    using Suc by (simp add: add_slashing_spans_def spans_new_def del: upt_Suc)
qed (simp add: add_slashing_spans_def)

subsection \<open>Lemmas: scenarios keep the registry\<close>

text \<open>The registry is consistent and there is room for as many more roles.\<close>

definition has_room :: "nat \<Rightarrow> 'w staking \<Rightarrow> bool" where
  "has_room k s \<longleftrightarrow> registry_inv s \<and> role_count s + k \<le> u32_max"

lemma then_do_Inr: "then_do r f = (Inr y, s') \<longleftrightarrow> (\<exists>x s. r = (Inr x, s) \<and> f x s = (Inr y, s'))"
  by (cases r) (auto simp: then_do_def split: sum.splits)

lemma then_do_snd:
  assumes "has_room k (snd r)" and "\<And>x s. r = (Inr x, s) \<Longrightarrow> has_room k s \<Longrightarrow> has_room j (snd (f x s))" and "j \<le> k"
  shows "has_room j (snd (then_do r f))"
  using assms by (cases r) (auto simp: then_do_def has_room_def split: sum.splits)

lemma run_call_snd [simp]: "snd (run_call r) = snd r"
  by (simp add: run_call_def split: prod.split sum.split)

lemma run_call_Inr: "run_call r = (Inr x, s) \<longleftrightarrow> (\<exists>y. r = (Inr y, s))"
  by (cases r) (auto simp: run_call_def split: sum.splits)

lemma room_run_call: "has_room k (snd r) \<Longrightarrow> has_room k (snd (then_do (run_call r) (\<lambda>_. Pair (Inr y))))"
  by (cases r) (auto simp: then_do_def run_call_def split: sum.splits)

lemma room_world [simp]: "has_room k (set_world w s) \<longleftrightarrow> has_room k s"
  by (simp add: has_room_def same_registry_world role_count_def)

lemma room_less: "has_room k s \<Longrightarrow> j \<le> k \<Longrightarrow> has_room j s"
  by (simp add: has_room_def)

lemma room_bond: "has_room k s \<Longrightarrow> has_room k (snd (bond T o1 c v p s))"
  using registry_bond [of s T o1 c v p] bond_counters [of T o1 c v p s] by (simp add: has_room_def role_count_def)

lemma room_validate: "has_room (Suc k) s \<Longrightarrow> has_room k (snd (validate T o1 prefs s))"
  using registry_validate [of s T o1 prefs] validate_counters [of T o1 prefs s]
  by (simp add: has_room_def role_count_def)

lemma room_nominate: "has_room (Suc k) s \<Longrightarrow> has_room k (snd (nominate T o1 targets s))"
  using registry_nominate [of s T o1 targets] nominate_counters [of T o1 targets s]
  by (simp add: has_room_def role_count_def)

lemma room_bond_pair: "has_room k s \<Longrightarrow> has_room k (snd (bond_pair T a c v p s))"
  unfolding bond_pair_def by (rule then_do_snd [where k = k]) (simp_all add: room_bond)

lemma room_pairs:
  assumes "has_room k s"
  shows "has_room k (snd (create_stash_controller N T n f p s))"
    and "has_room k (snd (create_stash_controller_with_balance N T n b p s))"
    and "has_room k (snd (create_stash_and_dead_controller N T n f p s))"
  using assms
  by (simp_all add: create_stash_controller_def create_stash_controller_with_balance_def
      create_stash_and_dead_controller_def create_funded_user_def create_funded_user_with_balance_def
      Let_def room_bond_pair)

lemma room_create_validator:
  assumes "has_room (Suc k) s"
  shows "has_room k (snd (create_validator N T n f s))"
  unfolding create_validator_def
proof (rule then_do_snd [where k = "Suc k"])
  show "has_room (Suc k) (snd (create_stash_controller N T n f RdStaked s))"
    by (rule room_pairs) (rule assms)
next
  fix x and s' :: "'a staking"
  assume "has_room (Suc k) s'"
  then show "has_room k (snd ((case x of (stash, controller) \<Rightarrow> \<lambda>s.
      then_do (run_call (validate T (Signed controller) bench_prefs s)) (\<lambda>_ s. (Inr (T_unlookup T stash), s))) s'))"
    by (cases x) (simp add: room_run_call room_validate)
qed simp

lemma room_create_validators_loop:
  "has_room (k + length js) s \<Longrightarrow> has_room k (snd (create_validators_loop N T f seed js vs s))"
proof (induction N T f seed js vs s arbitrary: k rule: create_validators_loop.induct)
  case (2 N T f seed i js vs s)
  show ?case
    unfolding create_validators_loop.simps
  proof (rule then_do_snd [where k = "k + length js"])
    show "has_room (k + length js) (snd (create_validator N T (add_u32 i seed) f s))"
      using "2.prems" by (intro room_create_validator) simp
  qed (use "2.IH" in auto)
qed simp

text \<open>Whatever comes of it, creating validators keeps the registry consistent.\<close>

lemma create_validators_keep_registry:
  assumes "registry_inv s" and "role_count s + n \<le> u32_max"
  shows "registry_inv (snd (create_validators_with_seed N T n f seed s))"
  using room_create_validators_loop [where k = 0 and js = "[0..<n]" and s = s] assms
  by (simp add: create_validators_with_seed_def has_room_def)

lemma room_nominating_pair:
  assumes "has_room (Suc k) s"
  shows "has_room k (snd (nominating_pair N T n b s))"
  unfolding nominating_pair_def
proof (rule then_do_snd [where k = "Suc k"])
  show "has_room (Suc k) (snd (create_stash_controller_with_balance N T n b RewardDestination_default s))"
    by (rule room_pairs) (rule assms)
next
  fix x and s' :: "'a staking"
  assume "has_room (Suc k) s'"
  then show "has_room k (snd ((case x of (stash, controller) \<Rightarrow> \<lambda>s.
      then_do (run_call (nominate T (Signed controller) [T_unlookup T (N_account N ''random_validator'' 0)] s))
        (\<lambda>_ s. (Inr (stash, controller), s))) s'))"
    by (cases x) (simp add: room_run_call room_nominate)
qed simp

lemma list_scenario_keeps_registry:
  assumes "has_room 3 s"
  shows "registry_inv (snd (ListScenario_new N T w inc s))"
proof -
  have pair: "has_room (Suc k) s1 \<Longrightarrow> nominating_pair N T n b s1 = (r, s2) \<Longrightarrow> has_room k s2" for k s1 n b r s2
    using room_nominating_pair [of k s1 N T n b] by simp
  have three: "has_room (Suc (Suc (Suc 0))) (set_world v s)" for v
    using assms by (simp add: numeral_3_eq_3)
  have "has_room 0 (snd (ListScenario_new N T w inc s))"
    using assms
    by (auto simp: ListScenario_new_def then_do_def Let_def split: prod.splits sum.splits
        dest!: pair [OF three] dest: pair intro: room_less)
  then show ?thesis by (simp add: has_room_def)
qed

text \<open>A cleared state has room for all roles.\<close>

lemma clear_room:
  assumes "registry_inv s"
  shows "has_room u32_max (clear_validators_and_nominators N s)"
  using assms
  by (simp add: clear_validators_and_nominators_def Let_def has_room_def same_registry_world)
    (simp add: role_count_def registry_inv_def paired_def roles_ok_def counters_ok_def offending_sorted_def
      claims_sorted_def)

lemma room_era_validators:
  "has_room (k + length js) s \<Longrightarrow> has_room k (snd (era_validators N T randomize js vs d s))"
proof (induction N T randomize js vs d s arbitrary: k rule: era_validators.induct)
  case (2 N T randomize i js vs d s)
  show ?case
    unfolding era_validators.simps Let_def case_prod_unfold
  proof (rule then_do_snd [where k = "k + length js"])
    show "has_room (k + length js) (snd (create_validator N T i (fst (draw_factor N randomize d)) s))"
      using "2.prems" by (intro room_create_validator) simp
  qed (use "2.IH" in \<open>auto simp: prod_eq_iff\<close>)
qed simp

lemma room_era_nominators:
  assumes "has_room (k + length js) s" and "era_nominators N T randomize edges chosen js d s = Some r"
  shows "has_room k (snd r)"
  using assms
proof (induction js arbitrary: d s)
  case (Cons j js)
  obtain f d' where f: "draw_factor N randomize d = (f, d')" by (cases "draw_factor N randomize d")
  let ?c = "create_stash_controller N T (sub_u32 u32_max j) f RdStaked s"
  have c: "has_room (Suc (k + length js)) (snd ?c)"
    using Cons.prems(1) by (intro room_pairs) simp
  show ?case
  proof (cases ?c)
    case (Pair x s1)
    then have s1: "has_room (Suc (k + length js)) s1" using c by simp
    have nom: "has_room (k + length js) s2" if "run_call (nominate T o1 ts s1) = (y, s2)" for o1 ts y s2
      using room_nominate [OF s1, of T o1 ts] that run_call_snd [of "nominate T o1 ts s1"] by simp
    have less: "has_room k (snd (nominate T o1 ts s1))" for o1 ts
      by (rule room_less [OF room_nominate [OF s1]]) simp
    show ?thesis
      using Cons.prems(2) Pair f room_less [OF s1, of k] less
      by (auto split: sum.splits option.splits prod.splits dest!: nom dest: Cons.IH)
  qed
qed auto

text \<open>Setting up an era keeps the registry consistent, whether it succeeds or not.\<close>

lemma era_scenario_keeps_registry:
  assumes "registry_inv s" and "validators + nominators \<le> u32_max"
    and "create_validators_with_nominators_for_era N T validators nominators edges randomize to_nominate s = Some r"
  shows "registry_inv (snd r)"
proof -
  let ?s = "clear_validators_and_nominators N s"
  have "has_room (nominators + length [0..<validators]) ?s"
    by (rule room_less [OF clear_room]) (use assms in simp_all)
  then have v: "has_room nominators (snd (era_validators N T randomize [0..<validators] [] 0 ?s))"
    by (rule room_era_validators)
  have n: "registry_inv s2" if "registry_inv s1" "role_count s1 + nominators \<le> u32_max"
      "era_nominators N T randomize e c [0..<nominators] d s1 = Some (y, s2)" for e c d s1 y s2
    using room_era_nominators [of 0 "[0..<nominators]" s1] that by (fastforce simp: has_room_def)
  have count: "registry_inv (s1\<lparr>ValidatorCount := x\<rparr>) \<longleftrightarrow> registry_inv s1" for s1 :: "'a staking" and x
    by (simp add: registry_inv_def paired_def roles_ok_def counters_ok_def offending_sorted_def claims_sorted_def)
  show ?thesis
    using v assms(3) unfolding has_room_def
    by (auto simp: create_validators_with_nominators_for_era_def Let_def count
        split: prod.splits sum.splits option.splits if_splits dest: n)
qed

subsection \<open>Lemmas: what a scenario makes\<close>

lemma create_validators_loop_length:
  "create_validators_loop N T f seed js vs s = (Inr vs', s') \<Longrightarrow> length vs' = length vs + length js"
  by (induction N T f seed js vs s rule: create_validators_loop.induct) (auto simp: then_do_Inr)

text \<open>As many validators are made as asked for.\<close>

lemma create_validators_count:
  "create_validators N T n f s = (Inr vs, s') \<Longrightarrow> length vs = n"
  using create_validators_loop_length [of N T f 0 "[0..<n]" "[]" s vs s']
  by (simp add: create_validators_def create_validators_with_seed_def)

text \<open>The pair of stash and controller is bonded.\<close>

lemma bond_done:
  assumes "bond T (Signed stash) c v p s = (Inr y, s')" and "T_lookup T c = Some controller"
  shows "Bonded s' stash = Some controller" and "Ledger s' controller \<noteq> None" and "Validators s' = Validators s"
  using assms
  by (auto simp: bond_def Let_def update_ledger_def deposit_event_def split: option.splits if_splits prod.splits bool.splits)

lemma bond_pair_done:
  assumes "bond_pair T stash controller v p s = (Inr pair, s')" and "T_lookup T (T_unlookup T controller) = Some controller"
  shows "pair = (stash, controller)" "Bonded s' stash = Some controller" "Validators s' = Validators s"
  using assms bond_done [OF _ assms(2)] by (auto simp: bond_pair_def then_do_Inr run_call_Inr)

text \<open>A validator that was made validates, and nobody stops validating.\<close>

lemma validate_done:
  assumes "validate T (Signed controller) prefs s = (Inr y, s')" and "Ledger s controller = Some l"
  shows "Validators s' (sl_stash l) = Some prefs" and "dom (Validators s) \<subseteq> dom (Validators s')"
  using assms by (auto simp: validate_def Let_def do_remove_writes do_add_validator_def Validators_insert_def
      split: if_splits)

definition lookups :: "'w staking_config \<Rightarrow> bool" where
  "lookups T \<longleftrightarrow> (\<forall>a. T_lookup T (T_unlookup T a) = Some a)"

lemma create_stash_controller_done:
  assumes "create_stash_controller N T n f p s = (Inr (stash, controller), s1)" and "lookups T"
  shows "Bonded s1 stash = Some controller" and "Validators s1 = Validators s"
proof -
  obtain v w where p: "bond_pair T (N_account N ''stash'' n) (N_account N ''controller'' n) (bench_amount T f) p
      (set_world v (set_world w s)) = (Inr (stash, controller), s1)"
    using assms(1) by (auto simp: create_stash_controller_def create_funded_user_def Let_def)
  have "T_lookup T (T_unlookup T (N_account N ''controller'' n)) = Some (N_account N ''controller'' n)"
    using assms(2) by (simp add: lookups_def)
  from bond_pair_done [OF p this]
  show "Bonded s1 stash = Some controller" "Validators s1 = Validators s" by simp_all
qed

lemma created_ledger:
  assumes "create_stash_controller N T n f p s = (Inr (stash, controller), s1)" and "has_room 0 s" and "lookups T"
  shows "\<exists>l. Ledger s1 controller = Some l \<and> sl_stash l = stash"
proof -
  have "registry_inv s1"
    using room_pairs(1) [OF assms(2), of N T n f p] assms(1) by (simp add: has_room_def)
  with create_stash_controller_done(1) [OF assms(1,3)] show ?thesis
    by (simp add: registry_inv_def paired_def)
qed

lemma create_validator_done:
  assumes "create_validator N T n f s = (Inr source, s')" and "has_room 0 s" and "lookups T"
  shows "\<exists>stash. source = T_unlookup T stash \<and> stash \<in> dom (Validators s')"
    and "dom (Validators s) \<subseteq> dom (Validators s')"
proof -
  from assms(1) obtain stash controller s1 y where
    1: "create_stash_controller N T n f RdStaked s = (Inr (stash, controller), s1)"
      "validate T (Signed controller) bench_prefs s1 = (Inr y, s')" "source = T_unlookup T stash"
    by (auto simp: create_validator_def then_do_Inr run_call_Inr)
  note b = create_stash_controller_done [OF 1(1) assms(3)]
  from created_ledger [OF 1(1) assms(2,3)] obtain l where
    l: "Ledger s1 controller = Some l" "sl_stash l = stash" by blast
  with validate_done [OF 1(2) l(1)] b(2) 1(3)
  show "\<exists>stash. source = T_unlookup T stash \<and> stash \<in> dom (Validators s')"
    "dom (Validators s) \<subseteq> dom (Validators s')"
    by auto
qed

lemma create_validators_loop_done:
  assumes "create_validators_loop N T f seed js vs s = (Inr vs', s')" and "has_room (length js) s" and "lookups T"
    and "\<forall>v \<in> set vs. \<exists>stash. v = T_unlookup T stash \<and> stash \<in> dom (Validators s)"
  shows "\<forall>v \<in> set vs'. \<exists>stash. v = T_unlookup T stash \<and> stash \<in> dom (Validators s')"
  using assms
proof (induction N T f seed js vs s rule: create_validators_loop.induct)
  case (2 N T f seed i js vs s)
  from "2.prems"(1) obtain v s1 where
    v: "create_validator N T (add_u32 i seed) f s = (Inr v, s1)"
      "create_validators_loop N T f seed js (vs @ [v]) s1 = (Inr vs', s')"
    by (auto simp: then_do_Inr)
  note made = create_validator_done [OF v(1) room_less [OF "2.prems"(2)] "2.prems"(3), simplified]
  have "has_room (length js) s1"
    using room_create_validator [of "length js" s N T "add_u32 i seed" f] "2.prems"(2) v(1) by simp
  moreover have "\<forall>u \<in> set (vs @ [v]). \<exists>stash. u = T_unlookup T stash \<and> stash \<in> dom (Validators s1)"
    using made "2.prems"(4) by fastforce
  ultimately show ?case
    using "2.IH" v "2.prems"(3) by blast
qed simp

lemma created_validators_validate:
  assumes "create_validators N T n f s = (Inr vs, s')" and "registry_inv s" and "role_count s + n \<le> u32_max"
    and "lookups T"
  shows "\<forall>v \<in> set vs. \<exists>stash. v = T_unlookup T stash \<and> stash \<in> dom (Validators s')"
  using create_validators_loop_done [of N T f 0 "[0..<n]" "[]" s vs s'] assms
  by (simp add: create_validators_def create_validators_with_seed_def has_room_def)

text \<open>The selected validators are among those available, each at most once, and there are as many as asked.\<close>

lemma select_validators_subset:
  "select_validators N m k available selected = Some (vs, k') \<Longrightarrow>
     \<exists>more. vs = selected @ more \<and> length more = m \<and> mset more \<subseteq># mset available"
proof (induction m arbitrary: k available selected)
  case (Suc m)
  define i where "i = N_next_u32 N k mod length available"
  from Suc.prems have ne: "available \<noteq> []" by (auto split: if_splits)
  then have i: "i < length available" by (simp add: i_def)
  from Suc.prems ne have
    "select_validators N m (Suc k) (take i available @ drop (Suc i) available) (selected @ [available ! i]) = Some (vs, k')"
    by (simp add: i_def Let_def)
  from Suc.IH [OF this] obtain more where
    "vs = selected @ available ! i # more" "length more = m"
    "mset more \<subseteq># mset (take i available @ drop (Suc i) available)" by auto
  moreover have "mset available = add_mset (available ! i) (mset (take i available @ drop (Suc i) available))"
    using id_take_nth_drop [OF i] by (metis mset_append mset.simps(2) union_mset_add_mset_right)
  ultimately show ?case by (intro exI [of _ "available ! i # more"]) simp
qed simp

text \<open>Enough validators to choose from: the selection does not panic.\<close>

lemma select_validators_defined:
  "m \<le> length available \<Longrightarrow> \<exists>r. select_validators N m k available selected = Some r"
proof (induction m arbitrary: k available selected)
  case (Suc m)
  let ?i = "N_next_u32 N k mod length available"
  have "m \<le> length (take ?i available @ drop (Suc ?i) available)"
    using Suc.prems by (auto simp: min_def)
  then show ?case using Suc.IH Suc.prems by (auto simp: Let_def)
qed simp

subsection \<open>Measured cases\<close>

text \<open>Cases of \<^verbatim>\<open>benchmarks!\<close>: the set-up, the measured call and whether the verification holds after it. The
  parameters in ranges are arguments. \<open>dummy\<close> is the account of zero bytes.\<close>

definition measure_bond :: "'w bench_services \<Rightarrow> 'w staking_config \<Rightarrow> 'w staking \<Rightarrow> (bench_error + bool) \<times> 'w staking" where
  "measure_bond N T s =
     (let (stash, s1) = create_funded_user N T ''stash'' USER_SEED 100 s;
          (controller, s2) = create_funded_user N T ''controller'' USER_SEED 100 s1;
          amount = wrap_mul u128_max (cur_minimum_balance (T_currency T)) 10
      in then_do (run_call (bond T (Signed stash) (T_unlookup T controller) amount RdStaked s2)) (\<lambda>_ s.
           (Inr (Bonded s stash \<noteq> None \<and> Ledger s controller \<noteq> None), s)))"

definition measure_set_payee ::
  "'w bench_services \<Rightarrow> 'w staking_config \<Rightarrow> 'w staking \<Rightarrow> (bench_error + bool) \<times> 'w staking" where
  "measure_set_payee N T s =
     then_do (create_stash_controller N T USER_SEED 100 RewardDestination_default s) (\<lambda>(stash, controller) s.
       if payee s stash \<noteq> RdStaked then (Inl Assertion_failed, s)
       else then_do (run_call (set_payee (Signed controller) RdController s)) (\<lambda>_ s.
         (Inr (payee s stash = RdController), s)))"

definition measure_set_controller ::
  "'w bench_services \<Rightarrow> 'w staking_config \<Rightarrow> 'w staking \<Rightarrow> (bench_error + bool) \<times> 'w staking" where
  "measure_set_controller N T s =
     then_do (create_stash_controller N T USER_SEED 100 RewardDestination_default s) (\<lambda>(stash, _) s.
       let (new_controller, s) = create_funded_user N T ''new_controller'' USER_SEED 100 s
       in then_do (run_call (set_controller T (Signed stash) (T_unlookup T new_controller) s)) (\<lambda>_ s.
            (Inr (Ledger s new_controller \<noteq> None), s)))"

definition measure_set_validator_count :: "u32 \<Rightarrow> 'w staking \<Rightarrow> (bench_error + bool) \<times> 'w staking" where
  "measure_set_validator_count validator_count s =
     then_do (run_call (set_validator_count Root validator_count s)) (\<lambda>_ s.
       (Inr (ValidatorCount s = validator_count), s))"

definition measure_forcing :: "'w staking \<Rightarrow> ((bench_error + bool) \<times> 'w staking) list" where
  "measure_forcing s =
     [then_do (run_call (force_no_eras Root s)) (\<lambda>_ s. (Inr (ForceEra s = ForceNone), s)),
      then_do (run_call (force_new_era Root s)) (\<lambda>_ s. (Inr (ForceEra s = ForceNew), s)),
      then_do (run_call (force_new_era_always Root s)) (\<lambda>_ s. (Inr (ForceEra s = ForceAlways), s))]"

definition measure_set_invulnerables ::
  "'w bench_services \<Rightarrow> u32 \<Rightarrow> 'w staking \<Rightarrow> (bench_error + bool) \<times> 'w staking" where
  "measure_set_invulnerables N v s =
     then_do (run_call (set_invulnerables Root (map (N_account N ''invulnerable'') [0..<v]) s)) (\<lambda>_ s.
       (Inr (length (Invulnerables s) = v), s))"

definition MAX_SLASHES :: u32 where
  "MAX_SLASHES = 1000"

definition measure_cancel_deferred_slash ::
  "'w staking_config \<Rightarrow> AccountId \<Rightarrow> u32 \<Rightarrow> 'w staking \<Rightarrow> (bench_error + bool) \<times> 'w staking" where
  "measure_cancel_deferred_slash T dummy n s =
     (let s = s\<lparr>UnappliedSlashes := (UnappliedSlashes s)(1 \<mapsto> replicate MAX_SLASHES (unapplied_default_from dummy))\<rparr>
      in then_do (run_call (cancel_deferred_slash T Root 1 [0..<n] s)) (\<lambda>_ s.
           (Inr (length (unapplied_slashes s 1) = MAX_SLASHES - n), s)))"

fun fill_eras :: "AccountId \<Rightarrow> EraIndex list \<Rightarrow> 'w staking \<Rightarrow> 'w staking" where
  "fill_eras dummy [] s = s"
| "fill_eras dummy (i # js) s =
     fill_eras dummy js
       (s\<lparr>ErasStakers := (ErasStakers s)(i := (ErasStakers s i)(dummy \<mapsto> Exposure_default)),
          ErasStakersClipped := (ErasStakersClipped s)(i := (ErasStakersClipped s i)(dummy \<mapsto> Exposure_default)),
          ErasValidatorPrefs := (ErasValidatorPrefs s)(i := (ErasValidatorPrefs s i)(dummy \<mapsto> ValidatorPrefs_default)),
          ErasValidatorReward := (ErasValidatorReward s)(i \<mapsto> 1),
          ErasRewardPoints := (ErasRewardPoints s)(i \<mapsto> EraRewardPoints_default),
          ErasTotalStake := (ErasTotalStake s)(i \<mapsto> 1),
          ErasStartSessionIndex := (ErasStartSessionIndex s)(i \<mapsto> i)\<rparr>)"

definition measure_set_history_depth ::
  "AccountId \<Rightarrow> EraIndex \<Rightarrow> 'w staking \<Rightarrow> (bench_error + bool) \<times> 'w staking" where
  "measure_set_history_depth dummy e s =
     then_do (run_call (set_history_depth Root 0
         (fill_eras dummy [0..<e] (s\<lparr>HistoryDepth := e, CurrentEra := Some e\<rparr>)))) (\<lambda>_ s.
       (Inr (HistoryDepth s = 0), s))"

definition measure_set_staking_configs_all_set :: "'w staking \<Rightarrow> (bench_error + bool) \<times> 'w staking" where
  "measure_set_staking_configs_all_set s =
     then_do (run_call (set_staking_configs Root (Set u128_max) (Set u128_max) (Set u32_max) (Set u32_max)
         (Set 100) (Set 1000000000) s)) (\<lambda>_ s.
       (Inr (MinNominatorBond s = u128_max \<and> MinValidatorBond s = u128_max \<and>
             MaxNominatorsCount s = Some u32_max \<and> MaxValidatorsCount s = Some u32_max \<and>
             ChillThreshold s = Some 100 \<and> MinCommission s = 1000000000), s))"

text \<open>A value that does not exist reads as its default.\<close>

definition measure_set_staking_configs_all_remove :: "'w staking \<Rightarrow> (bench_error + bool) \<times> 'w staking" where
  "measure_set_staking_configs_all_remove s =
     then_do (run_call (set_staking_configs Root Remove Remove Remove Remove Remove Remove s)) (\<lambda>_ s.
       (Inr (MinNominatorBond s = 0 \<and> MinValidatorBond s = 0 \<and> MaxNominatorsCount s = None \<and>
             MaxValidatorsCount s = None \<and> ChillThreshold s = None \<and> MinCommission s = 0), s))"

definition measure_force_apply_min_commission ::
  "'w bench_services \<Rightarrow> 'w staking_config \<Rightarrow> 'w staking \<Rightarrow> (bench_error + bool) \<times> 'w staking" where
  "measure_force_apply_min_commission N T s =
     then_do (create_stash_controller N T 1 1 RdStaked (clear_validators_and_nominators N s)) (\<lambda>(stash, controller) s.
     then_do (run_call (validate T (Signed controller) bench_prefs s)) (\<lambda>_ s.
       if Validators s stash \<noteq> Some bench_prefs then (Inl Assertion_failed, s)
       else then_do (run_call (force_apply_min_commission (Signed (N_account N ''whitelisted_caller'' 0)) stash
              (s\<lparr>MinCommission := 750000000\<rparr>))) (\<lambda>_ s.
         (Inr (Validators s stash = Some \<lparr>vp_commission = 750000000, vp_blocked = False\<rparr>), s))))"

subsection \<open>Lemmas: the verifications hold\<close>

lemmas measure_simps = then_do_Inr run_call_Inr Let_def

lemma measure_bond_holds: "measure_bond N T s = (Inr b, s') \<Longrightarrow> lookups T \<Longrightarrow> b"
  by (auto simp: measure_bond_def measure_simps create_funded_user_def lookups_def dest: bond_done)

lemma measure_set_payee_holds:
  assumes "measure_set_payee N T s = (Inr b, s')" and "has_room 0 s" and "lookups T"
  shows b
proof -
  from assms(1) obtain stash controller s1 y where
    1: "create_stash_controller N T USER_SEED 100 RewardDestination_default s = (Inr (stash, controller), s1)"
      "set_payee (Signed controller) RdController s1 = (Inr y, s')" "b \<longleftrightarrow> payee s' stash = RdController"
    by (auto simp: measure_set_payee_def measure_simps split: if_splits)
  note pair = created_ledger [OF 1(1) assms(2,3)]
  with 1(2,3) show b by (auto simp: set_payee_def payee_def split: option.splits)
qed

lemma measure_set_controller_holds:
  assumes "measure_set_controller N T s = (Inr b, s')" and "has_room 0 s" and "lookups T"
  shows b
proof -
  let ?new = "N_account N ''new_controller'' USER_SEED"
  from assms(1) obtain stash controller s1 w y where
    1: "create_stash_controller N T USER_SEED 100 RewardDestination_default s = (Inr (stash, controller), s1)"
      "set_controller T (Signed stash) (T_unlookup T ?new) (set_world w s1) = (Inr y, s')"
      "b \<longleftrightarrow> Ledger s' ?new \<noteq> None"
    by (auto simp: measure_set_controller_def measure_simps create_funded_user_def)
  note created_ledger [OF 1(1) assms(2,3)] create_stash_controller_done(1) [OF 1(1) assms(3)]
  with 1(2,3) assms(3) show b
    by (auto simp: set_controller_def lookups_def Let_def split: if_splits)
qed

lemma measure_parameters_hold:
  "measure_set_validator_count n s = (Inr b, s') \<Longrightarrow> b"
  "(Inr b, s') \<in> set (measure_forcing s) \<Longrightarrow> b"
  "measure_set_invulnerables N v s = (Inr b, s') \<Longrightarrow> b"
  "measure_set_staking_configs_all_set s = (Inr b, s') \<Longrightarrow> b"
  "measure_set_staking_configs_all_remove s = (Inr b, s') \<Longrightarrow> b"
  by (auto simp: measure_set_validator_count_def measure_forcing_def measure_set_invulnerables_def
      measure_set_staking_configs_all_set_def measure_set_staking_configs_all_remove_def measure_simps
      set_validator_count_def force_no_eras_def force_new_era_def force_new_era_always_def
      set_invulnerables_def set_staking_configs_def then_do_def run_call_def)

text \<open>Cancelling the first slashes of a queue leaves the others.\<close>

lemma cancel_loop_first: "d \<le> length xs \<Longrightarrow> cancel_loop k [k..<k + d] xs = drop d xs"
proof (induction d arbitrary: k xs)
  case (Suc d)
  have "[k..<k + Suc d] = k # [Suc k..<Suc k + d]"
    by (simp add: upt_conv_Cons)
  with Suc.IH [of "drop (Suc 0) xs" "Suc k"] Suc.prems show ?case
    by (simp add: remove_at_def del: upt_Suc)
qed simp

lemma measure_cancel_deferred_slash_holds:
  assumes "measure_cancel_deferred_slash T dummy n s = (Inr b, s')"
  shows b
  using assms cancel_loop_first [of n "replicate MAX_SLASHES (unapplied_default_from dummy)" 0]
  by (cases n) (auto simp: measure_cancel_deferred_slash_def measure_simps cancel_deferred_slash_def unapplied_slashes_def
      split: if_splits simp del: upt_Suc)

lemma measure_set_history_depth_holds: "measure_set_history_depth dummy e s = (Inr b, s') \<Longrightarrow> b"
proof -
  have "CurrentEra (fill_eras dummy js s1) = CurrentEra s1" for js and s1 :: "'a staking"
    by (induction dummy js s1 rule: fill_eras.induct) simp_all
  then show "measure_set_history_depth dummy e s = (Inr b, s') \<Longrightarrow> b"
    by (auto simp: measure_set_history_depth_def measure_simps set_history_depth_def)
qed

text \<open>The set-up's assertion holds and so does the verification: the commission of a half is raised.\<close>

lemma measure_force_apply_min_commission_holds:
  assumes "registry_inv s" and "lookups T"
  shows "fst (measure_force_apply_min_commission N T s) \<noteq> Inl Assertion_failed"
    and "measure_force_apply_min_commission N T s = (Inr b, s') \<Longrightarrow> b"
proof -
  let ?s = "clear_validators_and_nominators N s"
  have room: "has_room 0 ?s" by (rule room_less [OF clear_room [OF assms(1)]]) simp
  have made: "Validators s2 stash = Some bench_prefs"
    if "create_stash_controller N T 1 1 RdStaked ?s = (Inr (stash, controller), s1)"
      "validate T (Signed controller) bench_prefs s1 = (Inr y, s2)" for stash controller s1 s2 y
    using created_ledger [OF that(1) room assms(2)] validate_done(1) [OF that(2)] by auto
  show "fst (measure_force_apply_min_commission N T s) \<noteq> Inl Assertion_failed"
    using made
    by (auto simp: measure_force_apply_min_commission_def then_do_def run_call_def create_stash_controller_def
        create_funded_user_def bond_pair_def Let_def split: prod.splits sum.splits if_splits)
  show "measure_force_apply_min_commission N T s = (Inr b, s') \<Longrightarrow> b"
    by (auto simp: measure_force_apply_min_commission_def measure_simps force_apply_min_commission_def
        bench_prefs_def split: if_splits option.splits)
qed


end
