(* ===== verification/Spec2Isabelle.thy ===== *)
theory Spec2Isabelle
  imports Staking_Effects Staking_Elections Staking_Migrations Bridge_Spec Evm_Accounts Ethereum_Blocks
    Reward_Fn Assets Runtime Runtime_Weights Rpc Staking_Exposures Chain_Spec Staking_Balances Staking_Testing
    Runtime_Apis Node Curve_Syntax Staking_Benchmarks
begin

text \<open>
  \<^bold>\<open>A verification library for the Glitch blockchain protocol\<close>

  \<^bold>\<open>The program.\<close> The repository is a Substrate chain. Its state is the storage of pallets, Rust modules with
  storage items, dispatchable calls and hooks, which a runtime (\<^verbatim>\<open>runtime/\<close>) puts together and a node
  (\<^verbatim>\<open>node/\<close>) executes. The parts with logic of their own, and how they interact:

  \<^item> the staking pallet (\<^verbatim>\<open>frame/staking\<close>), a fork of Substrate's: stakes are bonded in ledgers, validators and
    nominators are elected session by session, eras are paid out of the \<^emph>\<open>fund\<close> account instead of by inflation,
    offences are slashed, at once or after a delay;
  \<^item> the fund and the wallet (\<^verbatim>\<open>frame/pallet-fund\<close>, \<^verbatim>\<open>frame/pallet-revenue-fund\<close>): at the end of an era staking
    triggers the wallet, which moves its balance into the fund; the list of contracts that share revenue
    (\<^verbatim>\<open>frame/pallet-revenue\<close>) decides priorities in the Ethereum pallet;
  \<^item> the Ethereum pallet (\<^verbatim>\<open>frame/ethereum\<close>): Ethereum transactions as extrinsics, and an Ethereum block with
    receipts inside every block; \<^verbatim>\<open>modules/evm-accounts\<close> relates addresses to accounts;
  \<^item> the bridge (\<^verbatim>\<open>modules/claims\<close>): claims minted for transactions of other chains;
  \<^item> rewards for pools of shares (\<^verbatim>\<open>modules/reward-pool\<close>, used by \<^verbatim>\<open>modules/incentives\<close>);
  \<^item> assets of other chains (\<^verbatim>\<open>modules/asset-config\<close>, \<^verbatim>\<open>modules/erc20-precompile\<close>, and the locations, trader,
    precompiles and bag thresholds of \<^verbatim>\<open>runtime/src\<close>);
  \<^item> the runtime (\<^verbatim>\<open>runtime/src/lib.rs\<close>): the price of gas, where fees go, weights, calls that carry their own
    signature, tracing, the order of the pallets and their configuration; and the RPC servers (\<^verbatim>\<open>rpc/src\<close>);
  \<^item> the node (\<^verbatim>\<open>node/src\<close>): the chain specifications, which configure the genesis of each network, and the tasks
    and servers a node starts;
  \<^item> the inflation curve (\<^verbatim>\<open>frame/staking/reward-curve\<close>, \<^verbatim>\<open>reward-fn\<close>, \<^verbatim>\<open>src/inflation.rs\<close>).

  \<^bold>\<open>How code becomes definitions.\<close>

  \<^item> The storage of a pallet is a record, one field per storage item with the name of the item; a storage map is
    a map, a value with a default is a field whose default is in the initial state. A call is a function from the
    configuration, the origin, the arguments and the state to an error or a result, and the state the body leaves.
    The dispatcher's rollback on an error is stated where it matters (\<open>transactional\<close> in \<^verbatim>\<open>Claims\<close>,
    \<open>with_transaction_result\<close> in \<^verbatim>\<open>Evm_Accounts\<close>); elsewhere a theorem on errors speaks about the body itself.
  \<^item> Unsigned integers are natural numbers with the width in the operation: \<open>add_u32\<close>, \<open>sub_u128\<close> and the like wrap
    around, as the release build does; \<open>sat_add\<close>, \<open>checked_add\<close> are the operations of those names. Values read
    from storage are within their width, which the theorems that need it state (\<open>ledgers_wf\<close>, \<open>runner_in_range\<close>).
  \<^item> What the repository calls and does not contain (the currency, fixed-point types, the EVM, hashing, signature
    recovery, the election, the voter list's storage) is a record of functions and an argument of the definitions.
    The functions act on \<open>'w\<close>, the state of all the other pallets. What a theorem needs of them is a named
    hypothesis (\<open>imbalance_laws\<close> and others in \<^verbatim>\<open>Interfaces\<close> and in the component), and \<^verbatim>\<open>Bank_Sample\<close> and
    \<^verbatim>\<open>Staking_Samples\<close> hold concrete instances on which the witnesses run. The laws of the currency leave room for
    what the balances pallet does below the existential deposit: an account that falls below it may be reaped and a
    deposit that does not reach it refused. The currency \<open>reaping_currency\<close> of \<^verbatim>\<open>Bank_Sample\<close> does both and meets them.
  \<^item> A panic is \<open>None\<close>. Loops are structural recursion, \<open>function\<close> with its termination proof, or
    \<open>partial_function (option)\<close> for the two loops of the curve macro that need not end; that they end is proved
    for the parameters stated. There is no fuel anywhere.

  \<^bold>\<open>The theories.\<close>

  \<^item> \<^verbatim>\<open>Prelude\<close>: primitive types, integer operations, origins, list operations and the generic lemmas;
    \<^verbatim>\<open>Interfaces\<close>: currency, imbalances and fixed-point types as records, with their laws.
  \<^item> \<^verbatim>\<open>Staking_Ledger\<close> (\<^verbatim>\<open>StakingLedger\<close> of \<^verbatim>\<open>lib.rs\<close>): withdrawing, rebonding and slashing move value without
    creating or losing any, and a slash takes what is asked.
  \<^item> \<^verbatim>\<open>Slashing_Spans\<close>, \<^verbatim>\<open>Slashing\<close> (\<^verbatim>\<open>slashing.rs\<close>): spans partition the eras, the slashes of a span add up to
    their maximum, a report that is worth something counts only if it exceeds what was slashed, an applied
    slash takes the same value from the ledger and from the balance, and reporters are paid from the slashed value.
  \<^item> \<^verbatim>\<open>Staking_State\<close>, \<^verbatim>\<open>Staking_Frames\<close>: storage, configuration, events and errors of the pallet with its basic
    updates, and the rules saying what each update leaves alone.
  \<^item> \<^verbatim>\<open>Staking_Era\<close> (\<^verbatim>\<open>impls.rs\<close>): sessions, eras, exposures and payouts. The reward of an era is what
    the fund holds beyond the unclaimed rewards; an era is paid at most once; deferred slashes are applied when due
    and in their order, with the ledgers and the events they lead to.
  \<^item> \<^verbatim>\<open>Staking_Calls\<close> (\<^verbatim>\<open>pallet/mod.rs\<close>), \<^verbatim>\<open>Staking_Provider\<close> (the traits the pallet implements): all calls, genesis
    and hooks, session manager, offences, and data for elections.
  \<^item> \<^verbatim>\<open>Staking_Invariants\<close>: the pallet as a state machine \<open>staking_step\<close> from genesis, and the invariants of all
    reachable states: bonds and ledgers pair up, roles are exclusive and counted. \<^verbatim>\<open>Staking_Effects\<close>: what each
    call does, that a failed call does nothing (the one exception is \<open>CannotPayout\<close>, which comes after the
    payments), and the equivalence of the loop that cancels slashes with removal
    by index. \<^verbatim>\<open>Staking_Exposures\<close>: in every reachable state the clipped exposures are the exposures cut to
    their largest nominators and the queues of chunks are bounded, hence reported weights are, too.
    \<^verbatim>\<open>Staking_Balances\<close>: in every reachable state each ledger is balanced, its total being what is active and
    what is being unlocked. \<^verbatim>\<open>Staking_Elections\<close>: voters and targets of an election, for every
    list that holds an account at most once and over the locale \<open>voter_list\<close>. \<^verbatim>\<open>Staking_Testing\<close>, \<^verbatim>\<open>Staking_Benchmarks\<close>: the functions that write a staking state
    directly, the scenarios that build one through the calls and keep its invariant, and measured cases with
    their verification (\<^verbatim>\<open>testing_utils.rs\<close>, \<^verbatim>\<open>benchmarking.rs\<close>). \<^verbatim>\<open>Staking_Migrations\<close> (\<^verbatim>\<open>migrations.rs\<close>): the migrations apply in order and only at
    their version, with the checks before and after.
  \<^item> \<^verbatim>\<open>Claims\<close>: a claim is paid at most once along any run, the check in the pool agrees with the call, a minted
    claim can be claimed, the signed bytes determine the account and the transaction of a claim, and addresses survive printing and parsing.
    \<^verbatim>\<open>Bridge_Spec\<close>: the pallet refines abstract books of a bridge, in which a transaction is unseen, open or
    settled: a step for every call says who may make it and which money it moves, a call fails exactly if its step
    is not possible, and otherwise does what the step says and nothing else.
  \<^item> \<^verbatim>\<open>Evm_Accounts\<close>: the two maps are inverse to each other in every reachable state. \<^verbatim>\<open>Revenue\<close>: the white
    list, the fund and the wallet, and the era reward that includes the wallet, which spans both pallets.
    Merging by a tuple of mergers (\<^verbatim>\<open>modules/traits\<close>) takes effect wholly or not at all.
  \<^item> \<^verbatim>\<open>Ethereum_Pallet\<close>, \<^verbatim>\<open>Ethereum_Blocks\<close>: validation and execution of transactions, and the run of blocks
    \<open>eth_run\<close>, with the agreement of blocks, statuses and receipts and the window of block hashes.
  \<^item> \<^verbatim>\<open>Reward_Pool\<close>, \<^verbatim>\<open>Incentives\<close>: the books of a pool balance, and its account can pay once it holds the
    existential deposit, in every run; rewards do not depend on how often books are updated.
  \<^item> \<^verbatim>\<open>Reward_Curve\<close>, \<^verbatim>\<open>Curve_Syntax\<close>, \<^verbatim>\<open>Reward_Fn\<close>: the syntax of the curve macro, which accepts exactly the
    printed parameters within their bounds, the integer logarithm, the points of the curve, the division that drops limbs,
    and the bounds of the series.
  \<^item> \<^verbatim>\<open>Assets\<close>: asset registry, locations, the trader of weight, precompiles and bags.
  \<^item> \<^verbatim>\<open>Staking_Weight_Tables\<close>, \<^verbatim>\<open>Staking_Weights\<close>, \<^verbatim>\<open>Runtime_Weights\<close>: the tables of weights as functions on datatypes with a constructor per
    function of the trait; what a call reports against what it was charged; the weight of a solution grows with
    its size, and the election on chain fits in a block.
  \<^item> \<^verbatim>\<open>Runtime\<close>: the configuration of the EVM and of staking on top of any services, fees and tips that reach the
    stakers through the fund, priorities with the gas price of this chain, an Ethereum call applied as its
    signer's, tracing a transaction as running the block up to it, the period of signed transactions.
  \<^item> \<^verbatim>\<open>Runtime_Config\<close>: the pallets of the runtime with their indices, the origins of the councils, and the
    configuration of the library pallets as records, with the relations between the constants that the pallets
    rely on (sessions before reports expire, phases within an era, deposits above the existential deposit).
    \<^verbatim>\<open>Runtime_Apis\<close>: the limits of a block and the interfaces with logic of their own.
  \<^item> \<^verbatim>\<open>Chain_Spec\<close>: the specifications of the chains with their data. The configured supply is exact, and the
    genesis of the staking pallet builds on the configured balances and makes the configured accounts validate,
    given what it relies on in the balances, the system and the voter list (\<open>genesis_services\<close>).
  \<^item> \<^verbatim>\<open>Node\<close>: when a node starts and with which tasks, modules and role in consensus (\<open>start_node_iff\<close>), the life
    of a filter, the export of a chain's runtime, and the way its Ethereum servers read the chain.
  \<^item> \<^verbatim>\<open>Rpc\<close>: the handlers, which answer a failing runtime with an error, except two that panic.

  \<^bold>\<open>Interfaces as locales.\<close> \<open>voter_list\<close> (interpreted on the role maps), \<open>address_mapping\<close> (on the EVM accounts),
  \<open>white_list\<close> and \<open>reward_wallet\<close> (on the revenue pallets), \<open>reward_pool_ops\<close> (on the pool) and \<open>reward_handler\<close>
  (on the incentives), \<open>weight_table\<close> (on the tables of the runtime and of the pallet). What the clients use is proved inside the locale and reached through the interpretation.

  \<^bold>\<open>What the theorems do not cover.\<close> Arithmetic beyond the widths is ruled out by hypotheses only where the code
  relies on it, for example on the total issuance; \<open>uncovered_tip_outranks\<close>, \<open>refund_exceeds_payment\<close>,
  \<open>curve_can_panic\<close>, \<open>rounding_blocks_exit\<close> and \<open>runtime_failure_panics\<close> state behaviour of the code that a reader
  would not expect.

  \<^bold>\<open>Not modelled.\<close> The client, the network and consensus behind the node, and its options that only forward to
  the library's; the interfaces of the runtime that only forward to library pallets; the tables of
  weights of pallets the runtime does not contain; the test the curve macro generates;
  the declarations of traits, which are the records and locales of the components; the measured cases that
  verify balances or the voter list; mocks and tests.
  The genesis builds of library pallets,
  among them the treasury's, are library code; session keys are derived by library code from seeds.
\<close>

end
